(* ===== verification/Kernel_Prelude.thy ===== *)
theory Kernel_Prelude
  imports Main "HOL-Library.Word"
begin

text \<open>
  Shared vocabulary of the development: the C integer types at their widths, error numbers,
  C's truncating division, bounds-checked arrays and the upward scan over them, byte-addressed memory with its copy operations, C strings with
  the bounded copy and comparison of the kernel, and the generic lemmas on words, lists and
  division that the component theories use.
\<close>

unbundle bit_operations_syntax

section \<open>Integer types and error numbers\<close>

type_synonym u8 = "8 word"
type_synonym u16 = "16 word"
type_synonym u32 = "32 word"
type_synonym u64 = "64 word"

abbreviation (input) EPERM :: int where "EPERM \<equiv> 1"
abbreviation (input) ENOENT :: int where "ENOENT \<equiv> 2"
abbreviation (input) EIO :: int where "EIO \<equiv> 5"
abbreviation (input) EAGAIN :: int where "EAGAIN \<equiv> 11"
abbreviation (input) ENOMEM :: int where "ENOMEM \<equiv> 12"
abbreviation (input) EACCES :: int where "EACCES \<equiv> 13"
abbreviation (input) EFAULT :: int where "EFAULT \<equiv> 14"
abbreviation (input) EBUSY :: int where "EBUSY \<equiv> 16"
abbreviation (input) EEXIST :: int where "EEXIST \<equiv> 17"
abbreviation (input) ENODEV :: int where "ENODEV \<equiv> 19"
abbreviation (input) EINVAL :: int where "EINVAL \<equiv> 22"
abbreviation (input) ERANGE :: int where "ERANGE \<equiv> 34"
abbreviation (input) EPROBE_DEFER :: int where "EPROBE_DEFER \<equiv> 517"
abbreviation (input) ENOSPC :: int where "ENOSPC \<equiv> 28"
abbreviation (input) ETIMEDOUT :: int where "ETIMEDOUT \<equiv> 110"
abbreviation (input) ECANCELED :: int where "ECANCELED \<equiv> 125"
abbreviation (input) ENODATA :: int where "ENODATA \<equiv> 61"

section \<open>C division\<close>

text \<open>Division and remainder of C on signed integers: the quotient is rounded towards zero.\<close>

definition cdiv :: "int \<Rightarrow> int \<Rightarrow> int" where
  "cdiv a b = sgn a * sgn b * (\<bar>a\<bar> div \<bar>b\<bar>)"

definition cmod :: "int \<Rightarrow> int \<Rightarrow> int" where
  "cmod a b = a - b * cdiv a b"

lemma cdiv_nonneg: "0 \<le> a \<Longrightarrow> 0 < b \<Longrightarrow> cdiv a b = a div b"
  by (cases "a = 0") (auto simp: cdiv_def)

lemma cdiv_zero_left [simp]: "cdiv 0 b = 0"
  by (simp add: cdiv_def)

lemma cmod_nonneg: "0 \<le> a \<Longrightarrow> 0 < b \<Longrightarrow> cmod a b = a mod b"
  by (simp add: cmod_def cdiv_nonneg minus_mult_div_eq_mod)

lemma cdiv_ge_0: "0 \<le> a \<Longrightarrow> 0 < b \<Longrightarrow> 0 \<le> cdiv a b"
  by (simp add: cdiv_nonneg pos_imp_zdiv_nonneg_iff)

lemma cdiv_le: "0 \<le> a \<Longrightarrow> 0 < b \<Longrightarrow> cdiv a b \<le> a"
  by (cases "b = 1") (auto simp: cdiv_nonneg intro: order.trans [OF zdiv_mono2 [of a 1 b]])

lemma cdiv_mono: "0 \<le> a \<Longrightarrow> a \<le> c \<Longrightarrow> 0 < b \<Longrightarrow> cdiv a b \<le> cdiv c b"
  by (simp add: cdiv_nonneg zdiv_mono1)

lemma int_div_le_mult: "0 < d \<Longrightarrow> a div d * d \<le> (a :: int)"
  using minus_mod_eq_div_mult [of a d] pos_mod_sign [of d a] by linarith

lemma int_div_less_iff:
  assumes "0 < d"
  shows "a div d < k \<longleftrightarrow> a < k * (d :: int)"
proof
  assume "a div d < k"
  then have "(a div d + 1) * d \<le> k * d" using assms by (intro mult_right_mono) auto
  then show "a < k * d"
    using minus_mod_eq_div_mult [of a d] pos_mod_bound [OF assms, of a] by (simp add: distrib_right)
next
  assume "a < k * d"
  then show "a div d < k"
    using int_div_le_mult [OF assms, of a] mult_right_mono [of k "a div d" d] assms by linarith
qed

lemmas int_div_less = int_div_less_iff [THEN iffD2]

section \<open>Byte-addressed memory\<close>

type_synonym ipc_mem = "nat \<Rightarrow> u8"

definition mem_read :: "ipc_mem \<Rightarrow> nat \<Rightarrow> nat \<Rightarrow> u8 list" where
  "mem_read m a n = map (\<lambda>i. m (a + i)) [0..<n]"

definition mem_write :: "ipc_mem \<Rightarrow> nat \<Rightarrow> u8 list \<Rightarrow> ipc_mem" where
  "mem_write m a bs = (\<lambda>x. if a \<le> x \<and> x < a + length bs then bs ! (x - a) else m x)"

lemma length_mem_read [simp]: "length (mem_read m a n) = n"
  by (simp add: mem_read_def)

lemma nth_mem_read [simp]: "i < n \<Longrightarrow> mem_read m a n ! i = m (a + i)"
  by (simp add: mem_read_def)

lemma mem_write_Nil [simp]: "mem_write m a [] = m"
  by (rule ext) (auto simp: mem_write_def)

lemma mem_write_in [simp]: "i < length bs \<Longrightarrow> mem_write m a bs (a + i) = bs ! i"
  by (simp add: mem_write_def)

lemma mem_write_out: "x < a \<or> a + length bs \<le> x \<Longrightarrow> mem_write m a bs x = m x"
  by (auto simp: mem_write_def)

lemma mem_read_write_same [simp]: "mem_read (mem_write m a bs) a (length bs) = bs"
  by (rule nth_equalityI) auto

lemma mem_read_write_disjoint:
  "a + n \<le> b \<or> b + length bs \<le> a \<Longrightarrow> mem_read (mem_write m b bs) a n = mem_read m a n"
  by (rule nth_equalityI) (auto simp: mem_write_def)

lemma mem_read_append: "mem_read m a (n + k) = mem_read m a n @ mem_read m (a + n) k"
  by (rule nth_equalityI) (auto simp: nth_append)

lemma mem_write_append:
  "mem_write (mem_write m a xs) (a + length xs) ys = mem_write m a (xs @ ys)"
  by (rule ext) (auto simp: mem_write_def nth_append)

section \<open>C strings\<close>

text \<open>
  A C string is the list of its characters before the terminator. \<open>strlcpy\<close> into a buffer
  of \<open>n\<close> characters keeps at most \<open>n - 1\<close> of them; \<open>strncmp\<close> with bound \<open>n\<close> looks at no
  more than \<open>n\<close> characters.
\<close>

definition strlcpy :: "nat \<Rightarrow> string \<Rightarrow> string" where
  "strlcpy n s = take (n - 1) s"

definition strn_eq :: "nat \<Rightarrow> string \<Rightarrow> string \<Rightarrow> bool" where
  "strn_eq n a b \<longleftrightarrow> take n a = take n b"

lemma strn_eq_refl [simp]: "strn_eq n a a"
  by (simp add: strn_eq_def)

lemma strn_eq_sym: "strn_eq n a b \<longleftrightarrow> strn_eq n b a"
  by (auto simp: strn_eq_def)

lemma strlcpy_short [simp]: "length s < n \<Longrightarrow> strlcpy n s = s"
  by (simp add: strlcpy_def)

lemma length_strlcpy: "0 < n \<Longrightarrow> length (strlcpy n s) < n"
  by (simp add: strlcpy_def)

lemma strn_eq_short: "length a < n \<Longrightarrow> strn_eq n a b \<longleftrightarrow> a = b"
  by (metis le_less_linear length_take less_irrefl min.absorb2 nat_less_le strn_eq_def take_all)

section \<open>Words\<close>

lemma unat_sub_eq:
  fixes a b :: "'a::len word"
  shows "unat (a - b) =
    (if unat b \<le> unat a then unat a - unat b else 2 ^ LENGTH('a) + unat a - unat b)"
  by (simp add: unat_sub_if' add.commute)

lemma unat_ucast_u32_u64 [simp]: "unat (ucast (x :: u32) :: u64) = unat x"
  by (simp add: unsigned_ucast_eq take_bit_nat_eq_self_iff less_trans [OF unsigned_less])

lemma unat_u32_bound: "unat (x :: u32) < 4294967296"
  using unsigned_less [of x] by simp

lemma unat_add_no_wrap:
  fixes a b :: "'a::len word"
  assumes "unat a + unat b < 2 ^ LENGTH('a)"
  shows "unat (a + b) = unat a + unat b"
  using assms by (simp add: unat_word_ariths)

lemma uint_u32_of_int: "0 \<le> x \<Longrightarrow> x < 4294967296 \<Longrightarrow> uint (word_of_int x :: u32) = x"
  by (simp add: unsigned_of_int take_bit_int_eq_self)

lemma int_unat_u32_of_int: "0 \<le> x \<Longrightarrow> x < 4294967296 \<Longrightarrow> int (unat (word_of_int x :: u32)) = x"
  by (metis int_nat_eq uint_u32_of_int unat_eq_nat_uint)

lemma sint_u32_small: "uint (w :: u32) < 2147483648 \<Longrightarrow> sint w = uint w"
  by (simp add: sint_uint signed_take_bit_int_eq_self_iff order.trans [OF _ unsigned_greater_eq])

lemma u32_of_int_inj:
  assumes "(word_of_int x :: u32) = word_of_int y" "- (2 ^ 31) \<le> x" "x < 2 ^ 31" "- (2 ^ 31) \<le> y" "y < 2 ^ 31"
  shows "x = y"
proof -
  have "sint (word_of_int x :: u32) = sint (word_of_int y :: u32)" using assms(1) by simp
  then show ?thesis using assms(2-5) by (simp add: signed_of_int signed_take_bit_int_eq_self)
qed

lemma uint_add_no_wrap: "uint a + uint b < 4294967296 \<Longrightarrow> uint (a + b :: u32) = uint a + uint b"
  using uint_add_lem [of a b] by simp

lemma uint_mult_no_wrap: "uint a * uint b < 4294967296 \<Longrightarrow> uint (a * b :: u32) = uint a * uint b"
  using uint_mult_lem [of a b] by simp

lemma mod_add_once:
  fixes a n s :: nat
  assumes "a < s" "n \<le> s"
  shows "(a + n) mod s = (if a + n < s then a + n else a + n - s)"
  using assms by (auto simp: mod_if)

section \<open>Arrays and scans\<close>

text \<open>
  A C array is a list; an access outside it has no result (\<^term>\<open>None\<close>). \<open>array_fill\<close> stores
  a sequence at the start of an array, \<open>scan_up\<close> is the loop
  \<open>while (i < n && p(i)) i++\<close>, whose condition may itself read out of bounds.
\<close>

named_theorems array_simps

definition arr_get :: "'a list \<Rightarrow> int \<Rightarrow> 'a option" where
  "arr_get xs i = (if 0 \<le> i \<and> i < int (length xs) then Some (xs ! nat i) else None)"

definition array_fill :: "'a list \<Rightarrow> 'a list \<Rightarrow> 'a list" where
  "array_fill xs old = xs @ drop (length xs) old"

lemma arr_get_in [array_simps]: "0 \<le> i \<Longrightarrow> i < int (length xs) \<Longrightarrow> arr_get xs i = Some (xs ! nat i)"
  by (simp add: arr_get_def)

lemma arr_get_None_iff: "arr_get xs i = None \<longleftrightarrow> i < 0 \<or> int (length xs) \<le> i"
  by (auto simp: arr_get_def)

lemma length_array_fill [array_simps]: "length xs \<le> length old \<Longrightarrow> length (array_fill xs old) = length old"
  by (simp add: array_fill_def)

lemma nth_array_fill [array_simps]: "i < length xs \<Longrightarrow> array_fill xs old ! i = xs ! i"
  by (simp add: array_fill_def nth_append)

function scan_up :: "(int \<Rightarrow> bool option) \<Rightarrow> int \<Rightarrow> int \<Rightarrow> int option" where
  "scan_up p n i =
     (if i < n then (case p i of None \<Rightarrow> None | Some True \<Rightarrow> scan_up p n (i + 1) | Some False \<Rightarrow> Some i)
      else Some i)"
  by pat_completeness auto
termination by (relation "measure (\<lambda>(p, n, i). nat (n - i))") auto

declare scan_up.simps [simp del]

lemma scan_up_total:
  assumes "\<And>j. i \<le> j \<Longrightarrow> j < n \<Longrightarrow> p j \<noteq> None"
  shows "\<exists>k. scan_up p n i = Some k \<and> i \<le> k \<and> k \<le> max i n
     \<and> (\<forall>j. i \<le> j \<longrightarrow> j < k \<longrightarrow> p j = Some True) \<and> (k < n \<longrightarrow> p k = Some False)"
  using assms
proof (induction p n i rule: scan_up.induct)
  case (1 p n i)
  show ?case
  proof (cases "i < n \<and> p i = Some True")
    case True
    then obtain k where k: "scan_up p n (i + 1) = Some k" "i + 1 \<le> k" "k \<le> max (i + 1) n"
      "\<forall>j. i + 1 \<le> j \<longrightarrow> j < k \<longrightarrow> p j = Some True" "k < n \<longrightarrow> p k = Some False"
      using "1.IH" "1.prems" by fastforce
    have "p j = Some True" if "i \<le> j" "j < k" for j
      using that k(4) True by (cases "j = i") auto
    then show ?thesis using True k by (simp add: scan_up.simps [of p n i])
  next
    case False
    then consider "\<not> i < n" | "i < n" "p i = Some False" using "1.prems" [of i] by (cases "p i") auto
    then show ?thesis by cases (simp_all add: scan_up.simps [of p n i])
  qed
qed

end
