(* ===== verification/Channel_Interface.thy ===== *)
theory Channel_Interface
  imports Main
begin

text \<open>
  The interface of a channel that carries items in order: what a component that sends and
  receives relies on, whatever the transport is. The byte rings and the message queues of the
  always-on core's IPC provide it (theory \<open>Aoc_Ipc\<close>); the in-order delivery of a whole run
  is proved here once.
\<close>

text \<open>
  Executing a sequence of sends (\<^const>\<open>Inl\<close>) and receives (\<^const>\<open>Inr\<close>): a refused operation leaves
  the state. The result lists the accepted sends, the items received and the last state.
\<close>

fun channel_run ::
  "('i \<Rightarrow> 's \<Rightarrow> 's option) \<Rightarrow> ('j \<Rightarrow> 's \<Rightarrow> ('a list \<times> 's) option) \<Rightarrow> ('i + 'j) list \<Rightarrow> 's
     \<Rightarrow> 'i list \<times> 'a list \<times> 's" where
  "channel_run put get [] s = ([], [], s)"
| "channel_run put get (Inl x # ops) s =
     (case put x s of
        None \<Rightarrow> channel_run put get ops s
      | Some s' \<Rightarrow> (case channel_run put get ops s' of (sent, got, t) \<Rightarrow> (x # sent, got, t)))"
| "channel_run put get (Inr k # ops) s =
     (case get k s of
        None \<Rightarrow> channel_run put get ops s
      | Some (ys, s') \<Rightarrow> (case channel_run put get ops s' of (sent, got, t) \<Rightarrow> (sent, ys @ got, t)))"

locale fifo_channel =
  fixes invar :: "'s \<Rightarrow> bool"
    and pending :: "'s \<Rightarrow> 'a list"
    and put :: "'i \<Rightarrow> 's \<Rightarrow> 's option"
    and payload :: "'i \<Rightarrow> 'a list"
    and get :: "'j \<Rightarrow> 's \<Rightarrow> ('a list \<times> 's) option"
  assumes put_invar: "invar s \<Longrightarrow> put x s = Some s' \<Longrightarrow> invar s'"
    and put_pending: "invar s \<Longrightarrow> put x s = Some s' \<Longrightarrow> pending s' = pending s @ payload x"
    and get_invar: "invar s \<Longrightarrow> get k s = Some (ys, s') \<Longrightarrow> invar s'"
    and get_pending: "invar s \<Longrightarrow> get k s = Some (ys, s') \<Longrightarrow> pending s = ys @ pending s'"
begin

lemma run_in_order:
  "invar s \<Longrightarrow> channel_run put get ops s = (sent, got, t) \<Longrightarrow>
     invar t \<and> pending s @ concat (map payload sent) = got @ pending t"
proof (induction ops arbitrary: s sent got)
  case Nil
  then show ?case by simp
next
  case (Cons op ops)
  show ?case
  proof (cases op)
    case (Inl x)
    show ?thesis
    proof (cases "put x s")
      case None
      then show ?thesis using Cons Inl by simp
    next
      case (Some s')
      then obtain sent' where run: "channel_run put get ops s' = (sent', got, t)" "sent = x # sent'"
        using Cons.prems(2) Inl by (auto split: prod.splits)
      from Cons.IH [OF put_invar [OF Cons.prems(1) Some] run(1)]
      show ?thesis by (simp add: run(2) put_pending [OF Cons.prems(1) Some])
    qed
  next
    case (Inr k)
    show ?thesis
    proof (cases "get k s")
      case None
      then show ?thesis using Cons Inr by simp
    next
      case (Some r)
      obtain ys s' where r: "r = (ys, s')" by (cases r)
      then obtain got' where run: "channel_run put get ops s' = (sent, got', t)" "got = ys @ got'"
        using Cons.prems(2) Inr Some by (auto split: prod.splits)
      from Cons.IH [OF get_invar [OF Cons.prems(1) Some [unfolded r]] run(1)]
      show ?thesis by (simp add: run(2) get_pending [OF Cons.prems(1) Some [unfolded r]])
    qed
  qed
qed

text \<open>From an empty channel, what was received is a prefix of what was sent.\<close>

lemma run_delivers_prefix:
  assumes "invar s" and "pending s = []" and "channel_run put get ops s = (sent, got, t)"
  shows "concat (map payload sent) = got @ pending t"
  using run_in_order [OF assms(1,3)] assms(2) by simp

end

end
