(* ===== verification/Aoc_Ipc.thy ===== *)
theory Aoc_Ipc
  imports Kernel_Prelude Channel_Interface
begin

text \<open>
  The shared-memory IPC between the application processor and the always-on compute core,
  \<^verbatim>\<open>src/google-modules/aoc_ipc/aoc_ipc_core.c\<close>: message queues (fixed-size slots indexed by
  the counters \<open>tx\<close> and \<open>rx\<close>) and byte rings (free-running counters \<open>tx\<close>, \<open>rx\<close> plus the
  positions \<open>wp\<close>, \<open>rp\<close> modulo the ring size).

  A service pointer is an \<^typ>\<open>'a option\<close> (\<^term>\<open>None\<close> is NULL). Addresses are offsets into the
  byte-addressed IPC memory. Counters and sizes are 32-bit words, \<open>size_t\<close> is 64 bits wide.
  An operation that can run into undefined behaviour of C (a region index outside the array of
  two, a remainder by zero, a dereference of NULL) returns an option whose \<^term>\<open>None\<close> is that
  fault.
\<close>

unbundle bit_operations_syntax

section \<open>Data\<close>

record aoc_ipc_memory_region =
  mr_offset :: u32
  mr_size :: u32
  mr_slots :: u32
  mr_tx :: u32
  mr_rx :: u32
  mr_wp :: u32
  mr_rp :: u32

record aoc_ipc_service_header =
  svc_name :: "u8 list"
  svc_flags :: u32
  svc_regions :: "aoc_ipc_memory_region \<times> aoc_ipc_memory_region"

type_synonym aoc_service = "aoc_ipc_service_header option"
type_synonym aoc_direction = int

abbreviation (input) AOC_UP :: aoc_direction where "AOC_UP \<equiv> 0"
abbreviation (input) AOC_DOWN :: aoc_direction where "AOC_DOWN \<equiv> 1"

definition AOC_SERVICE_NAME_LENGTH :: nat where "AOC_SERVICE_NAME_LENGTH = 32"
definition AOC_SERVICE_TYPE_MASK :: u32 where "AOC_SERVICE_TYPE_MASK = 0x00070000"
definition AOC_SERVICE_IRQ_MASK :: u32 where "AOC_SERVICE_IRQ_MASK = 0x00f80000"
definition AOC_SERVICE_IRQ_SHIFT :: nat where "AOC_SERVICE_IRQ_SHIFT = 19"
definition AOC_SERVICE_FLAG_RING_PUSH :: u32 where "AOC_SERVICE_FLAG_RING_PUSH = 0x01000000"

abbreviation (input) AOC_SERVICE_TYPE_QUEUE :: u32 where "AOC_SERVICE_TYPE_QUEUE \<equiv> 0"
abbreviation (input) AOC_SERVICE_TYPE_RING :: u32 where "AOC_SERVICE_TYPE_RING \<equiv> 1"
abbreviation (input) AOC_SERVICE_TYPE_BUFFER :: u32 where "AOC_SERVICE_TYPE_BUFFER \<equiv> 2"

definition VALID_DIRECTION :: "aoc_direction \<Rightarrow> bool" where
  "VALID_DIRECTION d \<longleftrightarrow> d = AOC_UP \<or> d = AOC_DOWN"

definition svc_region :: "aoc_ipc_service_header \<Rightarrow> aoc_direction \<Rightarrow> aoc_ipc_memory_region" where
  "svc_region s d = (if d = AOC_UP then fst (svc_regions s) else snd (svc_regions s))"

definition set_region ::
  "aoc_ipc_service_header \<Rightarrow> aoc_direction \<Rightarrow> aoc_ipc_memory_region \<Rightarrow> aoc_ipc_service_header" where
  "set_region s d r = s\<lparr>svc_regions :=
     (if d = AOC_UP then (r, snd (svc_regions s)) else (fst (svc_regions s), r))\<rparr>"

text \<open>The message header: a 16-bit little-endian length and three reserved 16-bit words.\<close>

abbreviation (input) message_header_size :: nat where "message_header_size \<equiv> 8"

definition message_header_bytes :: "u16 \<Rightarrow> u8 list" where
  "message_header_bytes len = [ucast len, ucast (drop_bit 8 len), 0, 0, 0, 0, 0, 0]"

definition message_header_length :: "ipc_mem \<Rightarrow> nat \<Rightarrow> u16" where
  "message_header_length m p = ucast (m p) OR push_bit 8 (ucast (m (p + 1)))"

section \<open>Regions\<close>

definition region_advance_tx :: "aoc_ipc_memory_region \<Rightarrow> u32 \<Rightarrow> aoc_ipc_memory_region option" where
  "region_advance_tx r amount =
     (if mr_size r = 0 then None
      else Some (r\<lparr>mr_tx := mr_tx r + amount, mr_wp := (mr_wp r + amount) mod mr_size r\<rparr>))"

definition region_advance_rx :: "aoc_ipc_memory_region \<Rightarrow> u32 \<Rightarrow> aoc_ipc_memory_region option" where
  "region_advance_rx r amount =
     (if mr_size r = 0 then None
      else Some (r\<lparr>mr_rx := mr_rx r + amount, mr_rp := (mr_rp r + amount) mod mr_size r\<rparr>))"

text \<open>The expression of the wrapped case is evaluated at 64 bits (\<open>SIZE_MAX\<close>) and truncated.\<close>

definition read_write_delta :: "aoc_ipc_memory_region \<Rightarrow> u32" where
  "read_write_delta r =
     (let tx = mr_tx r; rx = mr_rx r in
      if tx \<ge> rx then tx - rx
      else ucast ((- 1 :: u64) - ucast rx + ucast tx + 1))"

definition aoc_ring_reader_sync_offset ::
  "aoc_ipc_memory_region \<Rightarrow> u64 \<Rightarrow> aoc_ipc_memory_region option" where
  "aoc_ring_reader_sync_offset r bytes_to_leave =
     (let sz = mr_size r;
          delta = read_write_delta r;
          leave1 = (if bytes_to_leave > ucast sz then ucast sz else bytes_to_leave);
          leave2 = (if ucast delta < leave1 then ucast delta else leave1)
      in region_advance_rx r (ucast ((ucast delta :: u64) - leave2)))"

text \<open>
  Reading from a ring: the result is the number of bytes read, the bytes stored at the
  destination and the region (the reader is first moved forward when the writer lapped it).
\<close>

definition aoc_ring_read_buffer ::
  "ipc_mem \<Rightarrow> nat \<Rightarrow> aoc_ipc_memory_region \<Rightarrow> u64 \<Rightarrow> (u32 \<times> u8 list \<times> aoc_ipc_memory_region) option" where
  "aoc_ring_read_buffer m ring r dest_size =
     (let sz = mr_size r in
      case (if read_write_delta r > sz then aoc_ring_reader_sync_offset r (ucast sz) else Some r) of
        None \<Rightarrow> None
      | Some r' \<Rightarrow>
          (let tx = mr_tx r'; rx = mr_rx r'; wp = mr_wp r'; rp = mr_rp r';
               bytes_available =
                 (if wp > rp then wp - rp
                  else if wp < rp then wp + sz - rp
                  else if tx = rx then 0 else sz);
               to_read = (if ucast bytes_available > dest_size then ucast dest_size
                          else bytes_available);
               partial = sz - rp;
               bytes = (if rp + to_read \<le> sz then mem_read m (ring + unat rp) (unat to_read)
                        else mem_read m (ring + unat rp) (unat partial)
                             @ mem_read m ring (unat (to_read - partial)))
           in Some (to_read, bytes, r')))"

definition aoc_ring_write_buffer ::
  "ipc_mem \<Rightarrow> nat \<Rightarrow> aoc_ipc_memory_region \<Rightarrow> u8 list \<Rightarrow> u64 \<Rightarrow> u32 \<times> ipc_mem" where
  "aoc_ring_write_buffer m ring r src src_size =
     (let wp = mr_wp r; sz = mr_size r;
          to_write0 = (ucast src_size :: u32);
          to_write = (if to_write0 > sz then sz else to_write0)
      in if wp + to_write \<le> sz
         then (to_write, mem_write m (ring + unat wp) (take (unat to_write) src))
         else (let partial = sz - wp in
               (to_write,
                mem_write
                  (mem_write m (ring + unat wp) (take (unat partial) src))
                  ring (take (unat (to_write - partial)) (drop (unat partial) src)))))"

definition aoc_queue_write_buffer :: "ipc_mem \<Rightarrow> nat \<Rightarrow> u8 list \<Rightarrow> u32 \<Rightarrow> u32 \<times> ipc_mem" where
  "aoc_queue_write_buffer m dest src len =
     (len, mem_write (mem_write m dest (message_header_bytes (ucast len)))
             (dest + message_header_size) (take (unat len) src))"

section \<open>Services\<close>

definition aoc_service_name :: "aoc_ipc_service_header \<Rightarrow> u8 list option" where
  "aoc_service_name s =
     (if svc_name s ! (AOC_SERVICE_NAME_LENGTH - 1) \<noteq> 0 then None else Some (svc_name s))"

definition aoc_service_type :: "aoc_ipc_service_header \<Rightarrow> u32" where
  "aoc_service_type s = drop_bit 16 (svc_flags s AND AOC_SERVICE_TYPE_MASK)"

definition aoc_service_is_queue :: "aoc_ipc_service_header \<Rightarrow> bool" where
  "aoc_service_is_queue s \<longleftrightarrow> aoc_service_type s = AOC_SERVICE_TYPE_QUEUE"

definition aoc_service_is_ring :: "aoc_ipc_service_header \<Rightarrow> bool" where
  "aoc_service_is_ring s \<longleftrightarrow> aoc_service_type s = AOC_SERVICE_TYPE_RING"

definition aoc_service_is_buffer :: "aoc_ipc_service_header \<Rightarrow> bool" where
  "aoc_service_is_buffer s \<longleftrightarrow> aoc_service_type s = AOC_SERVICE_TYPE_BUFFER"

definition aoc_service_irq_index :: "aoc_ipc_service_header \<Rightarrow> u32" where
  "aoc_service_irq_index s = drop_bit AOC_SERVICE_IRQ_SHIFT (svc_flags s AND AOC_SERVICE_IRQ_MASK)"

definition aoc_ring_bytes_read :: "aoc_service \<Rightarrow> aoc_direction \<Rightarrow> u64" where
  "aoc_ring_bytes_read service dir =
     (case service of None \<Rightarrow> 0
      | Some s \<Rightarrow> if \<not> aoc_service_is_ring s \<or> \<not> VALID_DIRECTION dir then 0
                  else ucast (mr_rx (svc_region s dir)))"

definition aoc_ring_bytes_written :: "aoc_service \<Rightarrow> aoc_direction \<Rightarrow> u64" where
  "aoc_ring_bytes_written service dir =
     (case service of None \<Rightarrow> 0
      | Some s \<Rightarrow> if \<not> aoc_service_is_ring s \<or> \<not> VALID_DIRECTION dir then 0
                  else ucast (mr_tx (svc_region s dir)))"

definition aoc_ring_did_overflow :: "aoc_service \<Rightarrow> aoc_direction \<Rightarrow> bool" where
  "aoc_ring_did_overflow service dir =
     (case service of None \<Rightarrow> False
      | Some s \<Rightarrow> if \<not> aoc_service_is_ring s \<or> \<not> VALID_DIRECTION dir then False
                  else read_write_delta (svc_region s dir) > mr_size (svc_region s dir))"

definition aoc_service_message_size :: "aoc_service \<Rightarrow> aoc_direction \<Rightarrow> u64" where
  "aoc_service_message_size service dir =
     (case service of None \<Rightarrow> 0
      | Some s \<Rightarrow>
          if \<not> VALID_DIRECTION dir then 0
          else if aoc_service_is_ring s \<or> aoc_service_is_buffer s
            then ucast (mr_size (svc_region s dir))
          else if (ucast (mr_size (svc_region s dir)) :: u64) \<le> 8 then 0
          else ucast (mr_size (svc_region s dir)) - 8)"

definition aoc_service_message_slots :: "aoc_service \<Rightarrow> aoc_direction \<Rightarrow> u64" where
  "aoc_service_message_slots service dir =
     (case service of None \<Rightarrow> 0
      | Some s \<Rightarrow> if \<not> VALID_DIRECTION dir then 0 else ucast (mr_slots (svc_region s dir)))"

text \<open>The product is computed at 32 bits before it is widened.\<close>

definition aoc_service_total_size :: "aoc_service \<Rightarrow> aoc_direction \<Rightarrow> u64" where
  "aoc_service_total_size service dir =
     (case service of None \<Rightarrow> 0
      | Some s \<Rightarrow> if \<not> VALID_DIRECTION dir then 0
                  else ucast (mr_slots (svc_region s dir) * mr_size (svc_region s dir)))"

definition aoc_ring_bytes_available_to_read :: "aoc_service \<Rightarrow> aoc_direction \<Rightarrow> u64" where
  "aoc_ring_bytes_available_to_read service dir =
     (case service of None \<Rightarrow> 0
      | Some s \<Rightarrow>
          if \<not> VALID_DIRECTION dir \<or> \<not> aoc_service_is_ring s then 0
          else (let region = svc_region s dir;
                    difference = (ucast (read_write_delta region) :: u64)
                in if difference > ucast (mr_size region) then ucast (mr_size region)
                   else difference))"

definition aoc_ring_bytes_available_to_write :: "aoc_service \<Rightarrow> aoc_direction \<Rightarrow> u64" where
  "aoc_ring_bytes_available_to_write service dir =
     (case service of None \<Rightarrow> 0
      | Some s \<Rightarrow>
          if \<not> VALID_DIRECTION dir \<or> \<not> aoc_service_is_ring s then 0
          else ucast (mr_size (svc_region s dir)) - aoc_ring_bytes_available_to_read service dir)"

definition aoc_service_slots_available_to_read :: "aoc_service \<Rightarrow> aoc_direction \<Rightarrow> u64" where
  "aoc_service_slots_available_to_read service dir =
     (case service of None \<Rightarrow> 0
      | Some s \<Rightarrow>
          if \<not> VALID_DIRECTION dir then 0
          else let region = svc_region s dir in
            if mr_slots region = 0 then 0
            else if aoc_service_is_buffer s then 0
            else if aoc_service_is_ring s then (if mr_tx region \<noteq> mr_rx region then 1 else 0)
            else let diff = (ucast (read_write_delta region) :: u64) in
              if diff > ucast (mr_slots region) then ucast (mr_slots region) else diff)"

definition aoc_service_slots_available_to_write :: "aoc_service \<Rightarrow> aoc_direction \<Rightarrow> u64" where
  "aoc_service_slots_available_to_write service dir =
     (case service of None \<Rightarrow> 0
      | Some s \<Rightarrow>
          if \<not> VALID_DIRECTION dir then 0
          else let region = svc_region s dir in
            if mr_slots region = 0 then 0
            else if aoc_service_is_ring s then 1
            else if aoc_service_is_buffer s then 0
            else ucast (mr_slots region) - (ucast (read_write_delta region) :: u64))"

definition aoc_service_can_read_message :: "aoc_service \<Rightarrow> aoc_direction \<Rightarrow> bool" where
  "aoc_service_can_read_message service dir \<longleftrightarrow> aoc_service_slots_available_to_read service dir > 0"

definition aoc_service_can_write_message :: "aoc_service \<Rightarrow> aoc_direction \<Rightarrow> bool" where
  "aoc_service_can_write_message service dir \<longleftrightarrow> aoc_service_slots_available_to_write service dir > 0"

text \<open>Pointers are offsets; the inner \<^term>\<open>None\<close> is the NULL result, the outer one a fault.\<close>

definition aoc_service_current_read_pointer ::
  "aoc_service \<Rightarrow> nat option \<Rightarrow> aoc_direction \<Rightarrow> nat option option" where
  "aoc_service_current_read_pointer service base dir =
     (case (service, base) of
        (Some s, Some b) \<Rightarrow>
          if \<not> VALID_DIRECTION dir then Some None
          else (let region = svc_region s dir in
            if aoc_service_is_ring s
            then Some (Some (b + unat (mr_offset region) + unat (mr_rp region)))
            else if mr_slots region = 0 then None
            else Some (Some (b + unat (mr_offset region)
                              + unat (mr_size region * (mr_rx region mod mr_slots region)))))
      | _ \<Rightarrow> Some None)"

definition aoc_service_current_write_pointer ::
  "aoc_service \<Rightarrow> nat option \<Rightarrow> aoc_direction \<Rightarrow> nat option option" where
  "aoc_service_current_write_pointer service base dir =
     (case (service, base) of
        (Some s, Some b) \<Rightarrow>
          if \<not> VALID_DIRECTION dir then Some None
          else (let region = svc_region s dir in
            if aoc_service_is_ring s
            then Some (Some (b + unat (mr_offset region) + unat (mr_wp region)))
            else if mr_slots region = 0 then None
            else Some (Some (b + unat (mr_offset region)
                              + unat (mr_size region * (mr_tx region mod mr_slots region)))))
      | _ \<Rightarrow> Some None)"

definition aoc_service_current_message_size ::
  "ipc_mem \<Rightarrow> aoc_service \<Rightarrow> nat option \<Rightarrow> aoc_direction \<Rightarrow> u64 option" where
  "aoc_service_current_message_size m service base dir =
     (if \<not> aoc_service_can_read_message service dir then Some 0
      else case aoc_service_current_read_pointer service base dir of
             Some (Some p) \<Rightarrow> Some (ucast (message_header_length m p))
           | _ \<Rightarrow> None)"

text \<open>With a NULL base the C expression adds 8 to a NULL pointer, which is a fault here.\<close>

definition aoc_service_current_message_pointer ::
  "aoc_service \<Rightarrow> nat option \<Rightarrow> aoc_direction \<Rightarrow> nat option option" where
  "aoc_service_current_message_pointer service base dir =
     (if \<not> aoc_service_can_read_message service dir then Some None
      else case aoc_service_current_read_pointer service base dir of
             Some (Some p) \<Rightarrow> Some (Some (p + message_header_size))
           | _ \<Rightarrow> None)"

definition aoc_service_advance_write_index ::
  "aoc_service \<Rightarrow> aoc_direction \<Rightarrow> u32 \<Rightarrow> (bool \<times> aoc_service) option" where
  "aoc_service_advance_write_index service dir amount =
     (case service of None \<Rightarrow> Some (False, None)
      | Some s \<Rightarrow>
          (let available = (if aoc_service_is_ring s then aoc_service_message_size service dir
                            else aoc_service_slots_available_to_write service dir)
           in if available < ucast amount then Some (False, service)
              else if \<not> VALID_DIRECTION dir then None
              else case region_advance_tx (svc_region s dir) amount of
                     None \<Rightarrow> None
                   | Some r \<Rightarrow> Some (True, Some (set_region s dir r))))"

definition aoc_service_advance_read_index ::
  "aoc_service \<Rightarrow> aoc_direction \<Rightarrow> u32 \<Rightarrow> (bool \<times> aoc_service) option" where
  "aoc_service_advance_read_index service dir amount =
     (case service of None \<Rightarrow> Some (False, None)
      | Some s \<Rightarrow>
          (let bytes_available = (ucast (aoc_ring_bytes_available_to_read service dir) :: u32);
               bytes_to_advance = (if aoc_service_is_ring s \<and> bytes_available < amount
                                   then bytes_available else amount)
           in if \<not> aoc_service_is_ring s \<and> aoc_service_slots_available_to_read service dir < ucast amount
              then Some (False, service)
              else if \<not> VALID_DIRECTION dir then None
              else case region_advance_rx (svc_region s dir) bytes_to_advance of
                     None \<Rightarrow> None
                   | Some r \<Rightarrow> Some (bytes_to_advance = amount, Some (set_region s dir r))))"

definition aoc_service_increment_write_index ::
  "aoc_service \<Rightarrow> aoc_direction \<Rightarrow> (bool \<times> aoc_service) option" where
  "aoc_service_increment_write_index service dir = aoc_service_advance_write_index service dir 1"

definition aoc_service_increment_read_index ::
  "aoc_service \<Rightarrow> aoc_direction \<Rightarrow> (bool \<times> aoc_service) option" where
  "aoc_service_increment_read_index service dir = aoc_service_advance_read_index service dir 1"

definition aoc_ring_flush_read_data ::
  "aoc_service \<Rightarrow> aoc_direction \<Rightarrow> u64 \<Rightarrow> (bool \<times> aoc_service) option" where
  "aoc_ring_flush_read_data service dir bytes_to_leave =
     (case service of None \<Rightarrow> Some (False, None)
      | Some s \<Rightarrow>
          if \<not> aoc_service_is_ring s then Some (False, service)
          else if \<not> VALID_DIRECTION dir then None
          else case aoc_ring_reader_sync_offset (svc_region s dir) bytes_to_leave of
                 None \<Rightarrow> None
               | Some r \<Rightarrow> Some (True, Some (set_region s dir r)))"

text \<open>\<open>bytes_remaining\<close> is a signed 32-bit difference.\<close>

definition aoc_ring_reset_write_pointer ::
  "aoc_service \<Rightarrow> aoc_direction \<Rightarrow> (bool \<times> aoc_service) option" where
  "aoc_ring_reset_write_pointer service dir =
     (case service of None \<Rightarrow> Some (False, None)
      | Some s \<Rightarrow>
          if \<not> aoc_service_is_ring s then Some (False, service)
          else if \<not> VALID_DIRECTION dir then None
          else (let r = svc_region s dir; bytes_remaining = mr_size r - mr_wp r in
            if sint bytes_remaining > 0
            then (case region_advance_tx r bytes_remaining of
                    None \<Rightarrow> None
                  | Some r' \<Rightarrow> Some (True, Some (set_region s dir r')))
            else Some (True, service)))"

definition aoc_service_ring_base :: "aoc_service \<Rightarrow> nat \<Rightarrow> aoc_direction \<Rightarrow> nat option" where
  "aoc_service_ring_base service base dir =
     (case service of None \<Rightarrow> None
      | Some s \<Rightarrow>
          if \<not> aoc_service_is_ring s \<or> \<not> VALID_DIRECTION dir then None
          else if mr_size (svc_region s dir) > 0
            then Some (base + unat (mr_offset (svc_region s dir))) else None)"

definition aoc_service_ring_size :: "aoc_service \<Rightarrow> aoc_direction \<Rightarrow> u64" where
  "aoc_service_ring_size service dir =
     (case service of None \<Rightarrow> 0
      | Some s \<Rightarrow> if \<not> aoc_service_is_ring s \<or> \<not> VALID_DIRECTION dir then 0
                  else ucast (mr_size (svc_region s dir)))"

definition aoc_service_ring_read_offset :: "aoc_service \<Rightarrow> aoc_direction \<Rightarrow> u64" where
  "aoc_service_ring_read_offset service dir =
     (case service of None \<Rightarrow> 0
      | Some s \<Rightarrow> if \<not> aoc_service_is_ring s \<or> \<not> VALID_DIRECTION dir then 0
                  else ucast (mr_rp (svc_region s dir)))"

definition aoc_service_ring_write_offset :: "aoc_service \<Rightarrow> aoc_direction \<Rightarrow> u64" where
  "aoc_service_ring_write_offset service dir =
     (case service of None \<Rightarrow> 0
      | Some s \<Rightarrow> if \<not> aoc_service_is_ring s \<or> \<not> VALID_DIRECTION dir then 0
                  else ucast (mr_wp (svc_region s dir)))"

definition aoc_ring_is_push :: "aoc_service \<Rightarrow> bool" where
  "aoc_ring_is_push service =
     (case service of None \<Rightarrow> False
      | Some s \<Rightarrow> if \<not> aoc_service_is_ring s then False
                  else svc_flags s AND AOC_SERVICE_FLAG_RING_PUSH \<noteq> 0)"

section \<open>Messages\<close>

text \<open>
  Reading returns the C result, the service after the call, the bytes stored into the caller's
  buffer and the value left in \<open>*size\<close>.
\<close>

definition aoc_service_read_message ::
  "ipc_mem \<Rightarrow> aoc_service \<Rightarrow> nat option \<Rightarrow> aoc_direction \<Rightarrow> bool \<Rightarrow> u64 option
     \<Rightarrow> (bool \<times> aoc_service \<times> u8 list \<times> u64 option) option" where
  "aoc_service_read_message m service base dir has_buffer psize =
     (case (service, base, psize) of
        (Some s, Some b, Some sz) \<Rightarrow>
          if \<not> has_buffer \<or> \<not> VALID_DIRECTION dir then Some (False, service, [], psize)
          else if \<not> aoc_service_can_read_message service dir then Some (False, service, [], psize)
          else if aoc_service_is_ring s then
            (case aoc_service_ring_base service b dir of
               None \<Rightarrow> None
             | Some ring \<Rightarrow>
                 (case aoc_ring_read_buffer m ring (svc_region s dir) sz of
                    None \<Rightarrow> None
                  | Some (bytes_read, bytes, r) \<Rightarrow>
                      (case region_advance_rx r bytes_read of
                         None \<Rightarrow> None
                       | Some r' \<Rightarrow>
                           Some (True, Some (set_region s dir r'), bytes, Some (ucast bytes_read)))))
          else
            (case aoc_service_current_read_pointer service base dir of
               Some (Some p) \<Rightarrow>
                 (let len = message_header_length m p in
                  if sz < ucast len then Some (False, service, [], psize)
                  else case aoc_service_increment_read_index service dir of
                         None \<Rightarrow> None
                       | Some (_, service') \<Rightarrow>
                           Some (True, service', mem_read m (p + message_header_size) (unat len),
                                 Some (ucast len)))
             | _ \<Rightarrow> None)
      | _ \<Rightarrow> Some (False, service, [], psize))"

definition aoc_service_write_message ::
  "ipc_mem \<Rightarrow> aoc_service \<Rightarrow> nat option \<Rightarrow> aoc_direction \<Rightarrow> u8 list option \<Rightarrow> u64
     \<Rightarrow> (bool \<times> ipc_mem \<times> aoc_service) option" where
  "aoc_service_write_message m service base dir buffer msg_size =
     (case (service, base, buffer) of
        (Some s, Some b, Some buf) \<Rightarrow>
          if \<not> VALID_DIRECTION dir then Some (False, m, service)
          else if \<not> aoc_service_can_write_message service dir then Some (False, m, service)
          else if msg_size > aoc_service_message_size service dir then Some (False, m, service)
          else if aoc_service_is_ring s then
            (case aoc_service_ring_base service b dir of
               None \<Rightarrow> None
             | Some ring \<Rightarrow>
                 (case aoc_ring_write_buffer m ring (svc_region s dir) buf msg_size of
                    (bytes_written, m') \<Rightarrow>
                      (case region_advance_tx (svc_region s dir) bytes_written of
                         None \<Rightarrow> None
                       | Some r' \<Rightarrow> Some (True, m', Some (set_region s dir r')))))
          else
            (case aoc_service_current_write_pointer service base dir of
               Some (Some p) \<Rightarrow>
                 (let m' = snd (aoc_queue_write_buffer m p buf (ucast msg_size)) in
                  case aoc_service_increment_write_index service dir of
                    None \<Rightarrow> None
                  | Some (_, service') \<Rightarrow> Some (True, m', service'))
             | _ \<Rightarrow> None)
      | _ \<Rightarrow> Some (False, m, service))"

section \<open>Byte rings\<close>

lemma ucast_wrapped_delta: "ucast ((- 1 :: u64) - ucast (rx::u32) + ucast (tx::u32) + 1) = tx - rx"
proof -
  have "(- 1 :: u64) - ucast rx + ucast tx + 1 = ucast tx - ucast rx" by simp
  moreover have "(ucast (ucast tx - ucast rx :: u64) :: u32) = tx - rx"
  proof -
    have u: "uint (ucast (x::u32) :: u64) = uint x" for x
      using uint_lt2p [of x] by (simp add: unsigned_ucast_eq take_bit_int_eq_self_iff)
    have "uint (ucast (ucast tx - ucast rx :: u64) :: u32) = (uint tx - uint rx) mod 2 ^ 64 mod 2 ^ 32"
      by (simp add: unsigned_ucast_eq take_bit_eq_mod uint_word_ariths u mod_simps)
    also have "\<dots> = (uint tx - uint rx) mod 2 ^ 32"
      by (rule mod_mod_cancel) simp
    also have "\<dots> = uint (tx - rx)" by (simp add: uint_word_ariths)
    finally show ?thesis by (simp add: word_uint_eq_iff)
  qed
  ultimately show ?thesis by metis
qed

lemma read_write_delta_eq: "read_write_delta r = mr_tx r - mr_rx r"
  unfolding read_write_delta_def Let_def by (simp only: ucast_wrapped_delta if_cancel)

lemma int_mod_sub_mod:
  fixes a b c s :: int shows "(a mod s + c - b mod s) mod s = (a + c - b) mod s"
  by (metis mod_add_left_eq mod_diff_left_eq mod_diff_right_eq)

lemma ring_offset_mod:
  fixes rp d i s :: nat
  assumes "d \<le> s" "0 < s"
  shows "((rp + i) mod s + s - (rp + d) mod s) mod s = (i + s - d) mod s"
proof -
  have le: "(rp + d) mod s \<le> (rp + i) mod s + s" using assms by (simp add: less_imp_le trans_le_add2)
  have "int (((rp + i) mod s + s - (rp + d) mod s) mod s) = (int ((rp + i) mod s) + int s - int ((rp + d) mod s)) mod int s"
    using le by (simp add: zmod_int of_nat_diff)
  also have "\<dots> = (int (rp + i) + int s - int (rp + d)) mod int s"
    by (simp only: zmod_int int_mod_sub_mod)
  also have "int (rp + i) + int s - int (rp + d) = int (i + s - d)" using assms by (simp add: of_nat_diff)
  finally show ?thesis by (simp only: flip: zmod_int)
qed



definition ring_pos :: "aoc_ipc_memory_region \<Rightarrow> bool" where
  "ring_pos r \<longleftrightarrow> mr_size r \<noteq> 0 \<and> unat (mr_size r) < 2 ^ 31
     \<and> mr_wp r < mr_size r \<and> mr_rp r < mr_size r
     \<and> (unat (mr_rp r) + unat (mr_tx r - mr_rx r)) mod unat (mr_size r) = unat (mr_wp r)"

definition ring_inv :: "aoc_ipc_memory_region \<Rightarrow> bool" where
  "ring_inv r \<longleftrightarrow> ring_pos r \<and> mr_tx r - mr_rx r \<le> mr_size r"

definition ring_content :: "ipc_mem \<Rightarrow> nat \<Rightarrow> aoc_ipc_memory_region \<Rightarrow> u8 list" where
  "ring_content m ring r =
     map (\<lambda>i. m (ring + (unat (mr_rp r) + i) mod unat (mr_size r))) [0..<unat (mr_tx r - mr_rx r)]"

lemma aoc_ring_write_buffer_at:
  assumes pos: "ring_pos r" and n: "n \<le> unat (mr_size r)" and len: "length src = n" and sz: "unat w = n"
    and wr: "aoc_ring_write_buffer m ring r src w = (k, m')"
  shows "unat k = n" and "m' x =
     (if ring \<le> x \<and> x < ring + unat (mr_size r)
         \<and> (x - ring + unat (mr_size r) - unat (mr_wp r)) mod unat (mr_size r) < n
      then src ! ((x - ring + unat (mr_size r) - unat (mr_wp r)) mod unat (mr_size r)) else m x)"
proof -
  let ?S = "unat (mr_size r)" and ?W = "unat (mr_wp r)"
  have W: "?W < ?S" and S31: "?S < 2147483648" using pos by (auto simp: ring_pos_def word_less_nat_alt)
  have uw: "unat (ucast w :: u32) = n"
    using sz n unat_u32_bound [of "mr_size r"] by (simp add: unsigned_ucast_eq take_bit_nat_eq_self_iff)
  have notgt: "\<not> ucast w > mr_size r" using uw n by (simp add: word_less_nat_alt not_less)
  have add: "unat (mr_wp r + ucast w) = ?W + n"
    using uw W n S31 by (subst unat_add_no_wrap) auto
  have cond: "(mr_wp r + ucast w \<le> mr_size r) = (?W + n \<le> ?S)"
    by (simp add: word_le_nat_alt add)
  have part: "unat (mr_size r - mr_wp r) = ?S - ?W" using W by (simp add: unat_sub_eq)
  have wr': "k = ucast w" "m' = (if ?W + n \<le> ?S then mem_write m (ring + ?W) src
      else mem_write (mem_write m (ring + ?W) (take (?S - ?W) src)) ring (drop (?S - ?W) src))"
    using wr notgt len uw cond part
    by (auto simp: aoc_ring_write_buffer_def Let_def unat_sub_eq split: if_splits)
  show "unat k = n" using wr'(1) uw by simp
  show "m' x = (if ring \<le> x \<and> x < ring + ?S \<and> (x - ring + ?S - ?W) mod ?S < n
      then src ! ((x - ring + ?S - ?W) mod ?S) else m x)" (is "_ = ?R")
  proof (cases "ring \<le> x \<and> x < ring + ?S")
    case False
    then show ?thesis using wr'(2) len W n by (auto simp: mem_write_def)
  next
    case True
    then obtain j where j: "x = ring + j" "j < ?S" by (metis le_iff_add nat_add_left_cancel_less)
    have "(j + ?S - ?W) mod ?S = (if ?W \<le> j then j - ?W else j + ?S - ?W)"
      using W j by (auto simp: mod_if)
    then show ?thesis using j W n len wr'(2) by (auto simp: mem_write_def add.commute)
  qed
qed

lemma ring_inv_unat:
  assumes "ring_inv r"
  shows "0 < unat (mr_size r)" "unat (mr_size r) < 2147483648" "unat (mr_wp r) < unat (mr_size r)"
    "unat (mr_rp r) < unat (mr_size r)" "unat (mr_tx r - mr_rx r) \<le> unat (mr_size r)"
    "(unat (mr_rp r) + unat (mr_tx r - mr_rx r)) mod unat (mr_size r) = unat (mr_wp r)"
  using assms by (auto simp: ring_inv_def ring_pos_def word_less_nat_alt word_le_nat_alt unat_gt_0)


text \<open>A write of at most the ring size: the newest bytes of the stream are in place.\<close>

lemma ring_write_general:
  assumes inv: "ring_inv r" and len: "length src = n" and sz: "unat w = n"
    and nS: "n \<le> unat (mr_size r)"
    and wr: "aoc_ring_write_buffer m ring r src w = (k, m')"
    and adv: "region_advance_tx r k = Some r'"
  shows "ring_pos r'" and "unat (mr_tx r' - mr_rx r') = unat (mr_tx r - mr_rx r) + n"
    and "mr_size r' = mr_size r" and "mr_rp r' = mr_rp r"
    and "i < unat (mr_tx r - mr_rx r) + n \<Longrightarrow>
         unat (mr_tx r - mr_rx r) + n \<le> i + unat (mr_size r) \<Longrightarrow>
         m' (ring + (unat (mr_rp r) + i) mod unat (mr_size r)) = (ring_content m ring r @ src) ! i"
proof -
  let ?S = "unat (mr_size r)" and ?R = "unat (mr_rp r)" and ?D = "unat (mr_tx r - mr_rx r)"
  note u = ring_inv_unat [OF inv]
  have pos: "ring_pos r" using inv by (simp add: ring_inv_def)
  note at = aoc_ring_write_buffer_at [OF pos nS len sz wr]
  have r': "mr_size r' = mr_size r" "mr_rp r' = mr_rp r" "mr_rx r' = mr_rx r" "mr_tx r' = mr_tx r + k"
      "mr_wp r' = (mr_wp r + k) mod mr_size r"
    using adv by (auto simp: region_advance_tx_def split: if_splits)
  then show "mr_size r' = mr_size r" and "mr_rp r' = mr_rp r" by simp_all
  have "mr_tx r' - mr_rx r' = (mr_tx r - mr_rx r) + k" by (simp add: r')
  then show D': "unat (mr_tx r' - mr_rx r') = ?D + n"
    using at(1) nS u by (simp add: unat_add_no_wrap)
  have wpk: "unat (mr_wp r + k) = unat (mr_wp r) + n"
    using at(1) nS u by (simp add: unat_add_no_wrap)
  have W': "unat (mr_wp r') = (unat (mr_wp r) + n) mod ?S" by (simp add: r' unat_mod wpk)
  have "(?R + (?D + n)) mod ?S = unat (mr_wp r')"
    unfolding W' u(6) [symmetric] by (simp add: mod_simps add.assoc)
  then show "ring_pos r'"
    using u W' D' pos by (auto simp: ring_pos_def r'(1-2) word_less_nat_alt)
  assume i: "i < ?D + n" and recent: "?D + n \<le> i + ?S"
  let ?x = "ring + (?R + i) mod ?S"
  have off: "(?x - ring + ?S - unat (mr_wp r)) mod ?S = (i + ?S - ?D) mod ?S"
    using ring_offset_mod [of ?D ?S ?R i] u by simp
  show "m' ?x = (ring_content m ring r @ src) ! i"
  proof (cases "i < ?D")
    case True
    then have "(i + ?S - ?D) mod ?S = i + ?S - ?D" using u(1) by (intro mod_less) linarith
    moreover have "\<not> i + ?S - ?D < n" using recent by simp
    ultimately have "m' ?x = m ?x" unfolding at(2) [of ?x] off by simp
    then show ?thesis using True by (simp add: ring_content_def nth_append)
  next
    case False
    then obtain j where j: "i = ?D + j" "j < n" using i by (metis le_iff_add nat_add_left_cancel_less not_less)
    have "i + ?S - ?D = j + ?S" using j by simp
    then have "(i + ?S - ?D) mod ?S = j" using j nS by (simp only: mod_add_self2) simp
    then have "m' ?x = src ! j" unfolding at(2) [of ?x] off using j u by simp
    then show ?thesis using False j by (simp add: ring_content_def nth_append)
  qed
qed

lemma ring_content_nth:
  "i < unat (mr_tx r - mr_rx r) \<Longrightarrow>
     ring_content m ring r ! i = m (ring + (unat (mr_rp r) + i) mod unat (mr_size r))"
  by (simp add: ring_content_def)

lemma length_ring_content [simp]: "length (ring_content m ring r) = unat (mr_tx r - mr_rx r)"
  by (simp add: ring_content_def)

text \<open>Appending to a ring that has room.\<close>

lemma ring_write_content:
  assumes inv: "ring_inv r" and len: "length src = n" and sz: "unat w = n"
    and room: "unat (mr_tx r - mr_rx r) + n \<le> unat (mr_size r)"
    and wr: "aoc_ring_write_buffer m ring r src w = (k, m')"
    and adv: "region_advance_tx r k = Some r'"
  shows "ring_inv r'" and "ring_content m' ring r' = ring_content m ring r @ src"
proof -
  have nS: "n \<le> unat (mr_size r)" using room by simp
  note g = ring_write_general [OF inv len sz nS wr adv]
  show "ring_inv r'" using g(1-3) room by (simp add: ring_inv_def word_le_nat_alt)
  show "ring_content m' ring r' = ring_content m ring r @ src"
    using g(2-5) room len by (intro nth_equalityI) (auto simp: ring_content_nth)
qed

text \<open>Moving the reader forward.\<close>

lemma ring_advance_rx:
  assumes pos: "ring_pos r" and a: "unat a \<le> unat (mr_tx r - mr_rx r)"
    and nw: "unat (mr_rp r) + unat a < 2 ^ 32"
    and adv: "region_advance_rx r a = Some r'"
  shows "ring_pos r'" "unat (mr_tx r' - mr_rx r') = unat (mr_tx r - mr_rx r) - unat a"
    "mr_size r' = mr_size r" "ring_content m ring r' = drop (unat a) (ring_content m ring r)"
proof -
  let ?S = "unat (mr_size r)" and ?R = "unat (mr_rp r)" and ?D = "unat (mr_tx r - mr_rx r)"
  have r': "mr_size r' = mr_size r" "mr_wp r' = mr_wp r" "mr_tx r' = mr_tx r" "mr_rx r' = mr_rx r + a"
      "mr_rp r' = (mr_rp r + a) mod mr_size r"
    using adv by (auto simp: region_advance_rx_def split: if_splits)
  then show sz: "mr_size r' = mr_size r" by simp
  have "mr_tx r' - mr_rx r' = (mr_tx r - mr_rx r) - a" by (simp add: r')
  then show D': "unat (mr_tx r' - mr_rx r') = ?D - unat a" using a by (simp add: unat_sub_eq)
  have R': "unat (mr_rp r') = (?R + unat a) mod ?S"
    using nw by (simp add: r' unat_mod unat_add_no_wrap)
  have S0: "0 < ?S" using pos by (auto simp: ring_pos_def unat_gt_0)
  have shift: "((?R + unat a) mod ?S + j) mod ?S = (?R + (unat a + j)) mod ?S" for j
    by (simp add: mod_simps add.assoc)
  have "((?R + unat a) mod ?S + (?D - unat a)) mod ?S = unat (mr_wp r)"
    using shift [of "?D - unat a"] a pos by (simp add: ring_pos_def)
  then show "ring_pos r'"
    using pos S0 a by (auto simp: ring_pos_def sz r'(2) R' D' word_less_nat_alt)
  show "ring_content m ring r' = drop (unat a) (ring_content m ring r)"
    using a by (intro nth_equalityI) (auto simp: D' ring_content_nth R' sz shift)
qed

lemma ring_advance_rx_some: "ring_pos r \<Longrightarrow> \<exists>r'. region_advance_rx r a = Some r'"
  by (simp add: ring_pos_def region_advance_rx_def)

lemma ring_advance_tx_some: "ring_pos r \<Longrightarrow> \<exists>r'. region_advance_tx r a = Some r'"
  by (simp add: ring_pos_def region_advance_tx_def)

lemma ucast_u64_u32_small: "unat (x::u64) < 2 ^ 32 \<Longrightarrow> unat (ucast x :: u32) = unat x"
  by (simp add: unsigned_ucast_eq take_bit_nat_eq_self_iff)

lemma ring_sync:
  fixes b :: u64
  assumes pos: "ring_pos r"
  defines "leave \<equiv> min (min (unat b) (unat (mr_size r))) (unat (mr_tx r - mr_rx r))"
  assumes nw: "unat (mr_rp r) + (unat (mr_tx r - mr_rx r) - leave) < 2 ^ 32"
  shows "\<exists>r'. aoc_ring_reader_sync_offset r b = Some r' \<and> ring_pos r'
    \<and> mr_size r' = mr_size r \<and> unat (mr_tx r' - mr_rx r') = leave
    \<and> (\<forall>m ring. ring_content m ring r' = drop (unat (mr_tx r - mr_rx r) - leave) (ring_content m ring r))"
proof -
  let ?D = "unat (mr_tx r - mr_rx r)"
  define l1 where "l1 = (if b > ucast (mr_size r) then ucast (mr_size r) else b)"
  define l2 where "l2 = (if ucast (mr_tx r - mr_rx r) < l1 then ucast (mr_tx r - mr_rx r) else l1)"
  define a where "a = (ucast ((ucast (mr_tx r - mr_rx r) :: u64) - l2) :: u32)"
  have "unat l1 = min (unat b) (unat (mr_size r))"
    by (auto simp: l1_def word_less_nat_alt)
  then have l2: "unat l2 = leave"
    by (auto simp: l2_def leave_def word_less_nat_alt)
  then have "unat ((ucast (mr_tx r - mr_rx r) :: u64) - l2) = ?D - leave"
    by (simp add: unat_sub_eq leave_def)
  then have ua: "unat a = ?D - leave"
    using unat_u32_bound [of "mr_tx r - mr_rx r"] by (simp add: a_def ucast_u64_u32_small)
  obtain r' where r': "region_advance_rx r a = Some r'" using ring_advance_rx_some [OF pos] by blast
  have "aoc_ring_reader_sync_offset r b = Some r'"
    using r' by (simp only: aoc_ring_reader_sync_offset_def read_write_delta_eq Let_def a_def l2_def l1_def)
  moreover note ring_advance_rx [OF pos _ _ r']
  ultimately show ?thesis using ua nw by (auto simp: leave_def)
qed

lemma ring_inv_available:
  assumes inv: "ring_inv r"
  shows "(if mr_wp r > mr_rp r then mr_wp r - mr_rp r
          else if mr_wp r < mr_rp r then mr_wp r + mr_size r - mr_rp r
          else if mr_tx r = mr_rx r then 0 else mr_size r) = mr_tx r - mr_rx r"
proof -
  let ?S = "unat (mr_size r)" and ?R = "unat (mr_rp r)" and ?D = "unat (mr_tx r - mr_rx r)"
  note u = ring_inv_unat [OF inv]
  have D0: "mr_tx r = mr_rx r \<longleftrightarrow> ?D = 0" by (metis eq_iff_diff_eq_0 unat_0 unat_eq_zero)
  have wp: "unat (mr_wp r) = (if ?R + ?D < ?S then ?R + ?D else ?R + ?D - ?S)"
    using mod_add_once [OF u(4) u(5)] u(6) by simp
  have ws: "unat (mr_wp r + mr_size r) = unat (mr_wp r) + ?S"
    using u by (simp add: unat_add_no_wrap)
  consider (more) "?R + ?D < ?S" "0 < ?D" | (none) "?D = 0" | (full) "?D = ?S"
    | (wrap) "?S \<le> ?R + ?D" "0 < ?D" "?D < ?S" using u(5) by linarith
  then show ?thesis
  proof cases
    case more
    then have "mr_rp r < mr_wp r" "unat (mr_wp r - mr_rp r) = ?D"
      using wp by (simp_all add: word_less_nat_alt unat_sub_eq)
    then show ?thesis by (simp add: word_unat_eq_iff)
  next
    case none
    then have "mr_wp r = mr_rp r" "mr_tx r = mr_rx r" using wp u(4) D0 by (simp_all add: word_unat_eq_iff)
    then show ?thesis by simp
  next
    case full
    then have "mr_wp r = mr_rp r" "mr_tx r \<noteq> mr_rx r" "mr_tx r - mr_rx r = mr_size r"
      using wp u D0 by (simp_all add: word_unat_eq_iff)
    then show ?thesis by simp
  next
    case wrap
    then have "mr_wp r < mr_rp r" "unat (mr_wp r + mr_size r - mr_rp r) = ?D"
      using wp ws by (simp_all add: word_less_nat_alt unat_sub_eq [of "mr_wp r + mr_size r"])
    then show ?thesis by (auto simp: word_unat_eq_iff)
  qed
qed

lemma ring_content_segment:
  assumes "unat (mr_rp r) < unat (mr_size r)" "k \<le> unat (mr_tx r - mr_rx r)" "k \<le> unat (mr_size r)"
  shows "take k (ring_content m ring r) =
    (if unat (mr_rp r) + k \<le> unat (mr_size r) then mem_read m (ring + unat (mr_rp r)) k
     else mem_read m (ring + unat (mr_rp r)) (unat (mr_size r) - unat (mr_rp r))
          @ mem_read m ring (k - (unat (mr_size r) - unat (mr_rp r))))"
  using assms by (intro nth_equalityI) (auto simp: ring_content_nth nth_append mod_if algebra_simps)

lemma ring_read_in_range:
  fixes d :: u64
  assumes inv: "ring_inv r"
  defines "k \<equiv> min (unat (mr_tx r - mr_rx r)) (unat d)"
  shows "\<exists>c. aoc_ring_read_buffer m ring r d = Some (c, take k (ring_content m ring r), r) \<and> unat c = k"
proof -
  let ?S = "unat (mr_size r)" and ?R = "unat (mr_rp r)" and ?D = "unat (mr_tx r - mr_rx r)"
  note u = ring_inv_unat [OF inv]
  define c where "c = (if ucast (mr_tx r - mr_rx r) > d then ucast d else mr_tx r - mr_rx r)"
  have c: "unat c = k"
    using unat_u32_bound [of "mr_tx r - mr_rx r"]
    by (auto simp: c_def k_def word_less_nat_alt ucast_u64_u32_small)
  have kle: "k \<le> ?D" "k \<le> ?S" using u(5) by (simp_all add: k_def)
  have "unat (mr_rp r + c) = ?R + k" using c kle u by (simp add: unat_add_no_wrap)
  then have cond: "mr_rp r + c \<le> mr_size r \<longleftrightarrow> ?R + k \<le> ?S" by (simp add: word_le_nat_alt)
  have part: "unat (mr_size r - mr_rp r) = ?S - ?R" using u by (simp add: unat_sub_eq)
  have rest: "\<not> ?R + k \<le> ?S \<Longrightarrow> unat (c - (mr_size r - mr_rp r)) = k - (?S - ?R)"
    using u(4) by (simp add: unat_sub_eq [of c] part c)
  have nosync: "\<not> read_write_delta r > mr_size r"
    using u(5) by (simp add: read_write_delta_eq word_less_nat_alt)
  have "aoc_ring_read_buffer m ring r d = Some (c,
      (if mr_rp r + c \<le> mr_size r then mem_read m (ring + ?R) (unat c)
       else mem_read m (ring + ?R) (unat (mr_size r - mr_rp r))
            @ mem_read m ring (unat (c - (mr_size r - mr_rp r)))), r)"
    unfolding aoc_ring_read_buffer_def Let_def if_not_P [OF nosync] option.case
      ring_inv_available [OF inv] c_def by (rule refl)
  also have "\<dots> = Some (c, take k (ring_content m ring r), r)"
    unfolding ring_content_segment [OF u(4) kle] cond part c using rest by simp
  finally show ?thesis using c by blast
qed

lemma ring_read_buffer:
  assumes pos: "ring_pos r" and D: "unat (mr_tx r - mr_rx r) \<le> 2 * unat (mr_size r)"
  shows "\<exists>c r'. ring_inv r' \<and> mr_size r' = mr_size r
     \<and> ring_content m ring r' = drop (unat (mr_tx r - mr_rx r) - unat (mr_size r)) (ring_content m ring r)
     \<and> unat c = min (min (unat (mr_tx r - mr_rx r)) (unat (mr_size r))) (unat d)
     \<and> aoc_ring_read_buffer m ring r d = Some (c, take (unat c) (ring_content m ring r'), r')"
proof (cases "mr_tx r - mr_rx r \<le> mr_size r")
  case True
  then have "ring_inv r" using pos by (simp add: ring_inv_def)
  from ring_read_in_range [OF this, of m ring d] True this show ?thesis
    by (auto simp: word_le_nat_alt)
next
  case False
  let ?S = "unat (mr_size r)" and ?D = "unat (mr_tx r - mr_rx r)"
  have DS: "?S < ?D" using False by (simp add: word_le_nat_alt)
  have pu: "unat (mr_rp r) < ?S" "?S < 2147483648" using pos by (auto simp: ring_pos_def word_less_nat_alt)
  have nw: "unat (mr_rp r) + ?D - ?S < 4294967296" using DS D pu by linarith
  obtain r' where r': "aoc_ring_reader_sync_offset r (ucast (mr_size r)) = Some r'" "ring_pos r'"
      "mr_size r' = mr_size r" "unat (mr_tx r' - mr_rx r') = ?S"
      "\<And>m ring. ring_content m ring r' = drop (?D - ?S) (ring_content m ring r)"
    using ring_sync [OF pos, of "ucast (mr_size r)"] DS nw by auto
  then have inv: "ring_inv r'" by (simp add: ring_inv_def word_le_nat_alt)
  have eq: "aoc_ring_read_buffer m ring r d = aoc_ring_read_buffer m ring r' d"
    using r' DS
    by (simp add: aoc_ring_read_buffer_def read_write_delta_eq word_less_nat_alt Let_def)
  show ?thesis using ring_read_in_range [OF inv, of m ring d] inv r' DS eq by auto
qed

section \<open>Ring services\<close>

definition ring_ok :: "aoc_ipc_service_header \<Rightarrow> aoc_direction \<Rightarrow> bool" where
  "ring_ok s dir \<longleftrightarrow> VALID_DIRECTION dir \<and> aoc_service_is_ring s
     \<and> mr_slots (svc_region s dir) \<noteq> 0 \<and> ring_inv (svc_region s dir)"

definition service_bytes :: "ipc_mem \<Rightarrow> nat \<Rightarrow> aoc_ipc_service_header \<Rightarrow> aoc_direction \<Rightarrow> u8 list" where
  "service_bytes m b s dir = ring_content m (b + unat (mr_offset (svc_region s dir))) (svc_region s dir)"

lemma svc_region_set [simp]: "svc_region (set_region s d r) d = r"
  by (simp add: svc_region_def set_region_def)

lemma svc_region_set_other:
  "VALID_DIRECTION d \<Longrightarrow> VALID_DIRECTION d' \<Longrightarrow> d \<noteq> d' \<Longrightarrow> svc_region (set_region s d r) d' = svc_region s d'"
  by (auto simp: svc_region_def set_region_def VALID_DIRECTION_def)

lemma set_region_type [simp]:
  "aoc_service_is_ring (set_region s d r) = aoc_service_is_ring s"
  "aoc_service_is_buffer (set_region s d r) = aoc_service_is_buffer s"
  "aoc_service_is_queue (set_region s d r) = aoc_service_is_queue s"
  by (simp_all add: aoc_service_is_ring_def aoc_service_is_buffer_def aoc_service_is_queue_def
      aoc_service_type_def set_region_def)

lemma region_advance_frame:
  "region_advance_tx r a = Some r' \<Longrightarrow> mr_offset r' = mr_offset r \<and> mr_slots r' = mr_slots r"
  "region_advance_rx r a = Some r' \<Longrightarrow> mr_offset r' = mr_offset r \<and> mr_slots r' = mr_slots r"
  by (auto simp: region_advance_tx_def region_advance_rx_def split: if_splits)

lemma ring_read_frame:
  "aoc_ring_read_buffer m ring r d = Some (c, bs, r') \<Longrightarrow> mr_offset r' = mr_offset r \<and> mr_slots r' = mr_slots r"
  by (auto simp: aoc_ring_read_buffer_def aoc_ring_reader_sync_offset_def Let_def
      dest: region_advance_frame split: if_splits option.splits)

lemma ring_can_write: "ring_ok s dir \<Longrightarrow> aoc_service_can_write_message (Some s) dir"
  by (simp add: ring_ok_def aoc_service_can_write_message_def aoc_service_slots_available_to_write_def Let_def)

lemma ring_can_read:
  "ring_ok s dir \<Longrightarrow> aoc_service_can_read_message (Some s) dir
     \<longleftrightarrow> mr_tx (svc_region s dir) \<noteq> mr_rx (svc_region s dir)"
  by (auto simp: ring_ok_def aoc_service_can_read_message_def aoc_service_slots_available_to_read_def Let_def
      aoc_service_is_ring_def aoc_service_is_buffer_def)

lemma ring_ok_base:
  "ring_ok s dir \<Longrightarrow> aoc_service_ring_base (Some s) b dir = Some (b + unat (mr_offset (svc_region s dir)))"
  by (auto simp: ring_ok_def ring_inv_def ring_pos_def aoc_service_ring_base_def word_gt_0)

lemma ring_message_size:
  "ring_ok s dir \<Longrightarrow> unat (aoc_service_message_size (Some s) dir) = unat (mr_size (svc_region s dir))"
  by (simp add: ring_ok_def aoc_service_message_size_def)

lemma ring_write_message_split:
  assumes ok: "ring_ok s dir" and n: "unat n \<le> unat (mr_size (svc_region s dir))"
    and len: "length buf = unat n"
  shows "\<exists>k m' r'. aoc_ring_write_buffer m (b + unat (mr_offset (svc_region s dir))) (svc_region s dir) buf n = (k, m')
     \<and> region_advance_tx (svc_region s dir) k = Some r'
     \<and> mr_offset r' = mr_offset (svc_region s dir) \<and> mr_slots r' = mr_slots (svc_region s dir)
     \<and> aoc_service_write_message m (Some s) (Some b) dir (Some buf) n
         = Some (True, m', Some (set_region s dir r'))"
proof -
  let ?r = "svc_region s dir"
  obtain k m' where w: "aoc_ring_write_buffer m (b + unat (mr_offset ?r)) ?r buf n = (k, m')"
    by (metis surj_pair)
  have "ring_pos ?r" using ok by (simp add: ring_ok_def ring_inv_def)
  then obtain r' where a: "region_advance_tx ?r k = Some r'" using ring_advance_tx_some by blast
  have "\<not> n > aoc_service_message_size (Some s) dir"
    using ring_message_size [OF ok] n by (simp add: word_less_nat_alt)
  then have "aoc_service_write_message m (Some s) (Some b) dir (Some buf) n
         = Some (True, m', Some (set_region s dir r'))"
    using ok ring_can_write [OF ok] ring_ok_base [OF ok] w a
    by (simp add: aoc_service_write_message_def ring_ok_def)
  with w a region_advance_frame(1) [OF a] show ?thesis by blast
qed

lemma ring_write_message_ok:
  assumes ok: "ring_ok s dir" and len: "length buf = unat n"
    and room: "length (service_bytes m b s dir) + length buf \<le> unat (mr_size (svc_region s dir))"
  shows "\<exists>m' s'. aoc_service_write_message m (Some s) (Some b) dir (Some buf) n = Some (True, m', Some s')
     \<and> ring_ok s' dir \<and> service_bytes m' b s' dir = service_bytes m b s dir @ buf
     \<and> mr_size (svc_region s' dir) = mr_size (svc_region s dir)"
proof -
  have inv: "ring_inv (svc_region s dir)" using ok by (simp add: ring_ok_def)
  from ring_write_message_split [OF ok _ len, of m b] room len
  obtain k m' r' where w: "aoc_ring_write_buffer m (b + unat (mr_offset (svc_region s dir))) (svc_region s dir) buf n = (k, m')"
     and a: "region_advance_tx (svc_region s dir) k = Some r'"
     and f: "mr_offset r' = mr_offset (svc_region s dir)" "mr_slots r' = mr_slots (svc_region s dir)"
     and res: "aoc_service_write_message m (Some s) (Some b) dir (Some buf) n
         = Some (True, m', Some (set_region s dir r'))" by (auto simp: service_bytes_def)
  have sz: "mr_size r' = mr_size (svc_region s dir)"
    using a by (auto simp: region_advance_tx_def split: if_splits)
  note c = ring_write_content [OF inv len refl _ w a]
  show ?thesis using c room res ok f sz len by (auto simp: ring_ok_def service_bytes_def)
qed

lemma ring_read_message_gen:
  assumes sv: "VALID_DIRECTION dir" "aoc_service_is_ring s" "mr_slots (svc_region s dir) \<noteq> 0"
    and pos: "ring_pos (svc_region s dir)"
    and D: "0 < length (service_bytes m b s dir)"
      "length (service_bytes m b s dir) \<le> 2 * unat (mr_size (svc_region s dir))"
  shows "\<exists>s' n. aoc_service_read_message m (Some s) (Some b) dir True (Some d)
       = Some (True, Some s', take (unat d) (drop (length (service_bytes m b s dir) - unat (mr_size (svc_region s dir)))
                                             (service_bytes m b s dir)), Some n)
     \<and> ring_ok s' dir
     \<and> service_bytes m b s' dir = drop (unat d) (drop (length (service_bytes m b s dir) - unat (mr_size (svc_region s dir)))
                                             (service_bytes m b s dir))
     \<and> unat n = min (min (length (service_bytes m b s dir)) (unat (mr_size (svc_region s dir)))) (unat d)
     \<and> mr_size (svc_region s' dir) = mr_size (svc_region s dir)"
proof -
  let ?r = "svc_region s dir"
  let ?ring = "b + unat (mr_offset ?r)"
  have D': "unat (mr_tx ?r - mr_rx ?r) \<le> 2 * unat (mr_size ?r)" using D by (simp add: service_bytes_def)
  obtain c r1 where r1: "ring_inv r1" "mr_size r1 = mr_size ?r"
     "ring_content m ?ring r1 = drop (unat (mr_tx ?r - mr_rx ?r) - unat (mr_size ?r)) (ring_content m ?ring ?r)"
     "unat c = min (min (unat (mr_tx ?r - mr_rx ?r)) (unat (mr_size ?r))) (unat d)"
     "aoc_ring_read_buffer m ?ring ?r d = Some (c, take (unat c) (ring_content m ?ring r1), r1)"
    using ring_read_buffer [OF pos D', of m ?ring d] by blast
  have len1: "unat (mr_tx r1 - mr_rx r1) = min (unat (mr_tx ?r - mr_rx ?r)) (unat (mr_size ?r))"
    using arg_cong [OF r1(3), of length] by (simp add: min_def)
  note u = ring_inv_unat [OF r1(1)]
  have p1: "ring_pos r1" using r1(1) by (simp add: ring_inv_def)
  obtain r2 where r2: "region_advance_rx r1 c = Some r2" using ring_advance_rx_some [OF p1] by blast
  have cle: "unat c \<le> unat (mr_tx r1 - mr_rx r1)" unfolding r1(4) len1 by (rule min.cobounded1)
  have nw: "unat (mr_rp r1) + unat c < 2 ^ 32" using cle u by simp
  note a = ring_advance_rx [OF p1 cle nw r2]
  have frame: "mr_offset r2 = mr_offset ?r" "mr_slots r2 = mr_slots ?r"
    using ring_read_frame [OF r1(5)] region_advance_frame(2) [OF r2] by simp_all
  have inv2: "ring_inv r2" using a u by (simp add: ring_inv_def word_le_nat_alt r1(2))
  have can: "aoc_service_can_read_message (Some s) dir"
  proof -
    have "mr_tx ?r \<noteq> mr_rx ?r" using D by (auto simp: service_bytes_def)
    then show ?thesis using sv
      by (auto simp: aoc_service_can_read_message_def aoc_service_slots_available_to_read_def Let_def
          aoc_service_is_ring_def aoc_service_is_buffer_def)
  qed
  have base: "aoc_service_ring_base (Some s) b dir = Some ?ring"
    using sv pos by (auto simp: ring_pos_def aoc_service_ring_base_def word_gt_0)
  have tk: "take (unat c) (ring_content m ?ring r1) = take (unat d) (ring_content m ?ring r1)"
    "drop (unat c) (ring_content m ?ring r1) = drop (unat d) (ring_content m ?ring r1)"
    using r1(4) len1 by (auto simp: min_def)
  have "aoc_service_read_message m (Some s) (Some b) dir True (Some d)
      = Some (True, Some (set_region s dir r2), take (unat d) (ring_content m ?ring r1), Some (ucast c))"
    using can base r1(5) r2 sv tk by (simp add: aoc_service_read_message_def)
  moreover have "ring_ok (set_region s dir r2) dir" using sv inv2 frame by (simp add: ring_ok_def)
  moreover have "service_bytes m b (set_region s dir r2) dir = drop (unat d) (ring_content m ?ring r1)"
    by (simp add: service_bytes_def frame a(4) tk(2))
  ultimately show ?thesis using r1(2,3,4) a(3) by (auto simp: service_bytes_def)
qed

lemma ring_read_message_ok:
  assumes ok: "ring_ok s dir" and ne: "service_bytes m b s dir \<noteq> []"
  shows "\<exists>s' n. aoc_service_read_message m (Some s) (Some b) dir True (Some d)
       = Some (True, Some s', take (unat d) (service_bytes m b s dir), Some n)
     \<and> ring_ok s' dir \<and> service_bytes m b s' dir = drop (unat d) (service_bytes m b s dir)
     \<and> unat n = min (length (service_bytes m b s dir)) (unat d)"
proof -
  have "ring_inv (svc_region s dir)" using ok by (simp add: ring_ok_def)
  note u = ring_inv_unat [OF this]
  have "length (service_bytes m b s dir) \<le> unat (mr_size (svc_region s dir))"
    using u by (simp add: service_bytes_def)
  then show ?thesis
    using ring_read_message_gen [of dir s m b d] ok ne by (auto simp: ring_ok_def ring_inv_def min_def)
qed

lemma ring_read_message_empty:
  "ring_ok s dir \<Longrightarrow> service_bytes m b s dir = [] \<Longrightarrow>
     aoc_service_read_message m (Some s) (Some b) dir True (Some d) = Some (False, Some s, [], Some d)"
  by (auto simp: aoc_service_read_message_def ring_can_read service_bytes_def ring_content_def unat_eq_zero)

lemma ring_overflow_write:
  assumes ok: "ring_ok s dir" and len: "length buf = unat n" and n: "unat n \<le> unat (mr_size (svc_region s dir))"
    and over: "unat (mr_size (svc_region s dir)) < length (service_bytes m b s dir) + length buf"
  shows "\<exists>m' s'. aoc_service_write_message m (Some s) (Some b) dir (Some buf) n = Some (True, m', Some s')
     \<and> VALID_DIRECTION dir \<and> aoc_service_is_ring s' \<and> mr_slots (svc_region s' dir) \<noteq> 0
     \<and> ring_pos (svc_region s' dir) \<and> mr_size (svc_region s' dir) = mr_size (svc_region s dir)
     \<and> length (service_bytes m' b s' dir) = length (service_bytes m b s dir) + length buf
     \<and> drop (length (service_bytes m b s dir) + length buf - unat (mr_size (svc_region s dir))) (service_bytes m' b s' dir)
       = drop (length (service_bytes m b s dir) + length buf - unat (mr_size (svc_region s dir))) (service_bytes m b s dir @ buf)"
proof -
  let ?r = "svc_region s dir"
  have inv: "ring_inv ?r" using ok by (simp add: ring_ok_def)
  from ring_write_message_split [OF ok n len, of m b]
  obtain k m' r' where w: "aoc_ring_write_buffer m (b + unat (mr_offset ?r)) ?r buf n = (k, m')"
     and a: "region_advance_tx ?r k = Some r'"
     and f: "mr_offset r' = mr_offset ?r" "mr_slots r' = mr_slots ?r"
     and res: "aoc_service_write_message m (Some s) (Some b) dir (Some buf) n
         = Some (True, m', Some (set_region s dir r'))" by auto
  note g = ring_write_general [OF inv len refl n w a]
  let ?e = "length (service_bytes m b s dir) + length buf - unat (mr_size ?r)"
  have total: "unat (mr_tx ?r - mr_rx ?r) + unat n = ?e + unat (mr_size ?r)"
    using over len by (simp add: service_bytes_def)
  have "drop ?e (service_bytes m' b (set_region s dir r') dir) = drop ?e (service_bytes m b s dir @ buf)"
  proof (rule nth_equalityI)
    show "length (drop ?e (service_bytes m' b (set_region s dir r') dir)) = length (drop ?e (service_bytes m b s dir @ buf))"
      using g(2) len by (simp add: service_bytes_def)
    fix i assume "i < length (drop ?e (service_bytes m' b (set_region s dir r') dir))"
    then have i: "?e + i < unat (mr_tx ?r - mr_rx ?r) + unat n" using g(2) by (simp add: service_bytes_def)
    then have "service_bytes m' b (set_region s dir r') dir ! (?e + i) = (service_bytes m b s dir @ buf) ! (?e + i)"
      using g(5) [OF i] g(2-4) f total by (simp add: service_bytes_def ring_content_nth)
    then show "drop ?e (service_bytes m' b (set_region s dir r') dir) ! i = drop ?e (service_bytes m b s dir @ buf) ! i"
      using i g(2) len by (simp add: service_bytes_def del: drop_append)
  qed
  then show ?thesis using res ok g f len by (auto simp: ring_ok_def service_bytes_def)
qed

subsection \<open>The ring as a channel\<close>

text \<open>
  A client with flow control: it writes only what \<^const>\<open>aoc_ring_bytes_available_to_write\<close>
  promises room for. The state is the IPC memory and the service header.
\<close>

definition ring_put ::
  "nat \<Rightarrow> aoc_direction \<Rightarrow> u8 list \<Rightarrow> ipc_mem \<times> aoc_ipc_service_header \<Rightarrow> (ipc_mem \<times> aoc_ipc_service_header) option" where
  "ring_put b dir buf st = (case st of (m, s) \<Rightarrow>
     if length buf \<le> unat (aoc_ring_bytes_available_to_write (Some s) dir)
     then (case aoc_service_write_message m (Some s) (Some b) dir (Some buf) (of_nat (length buf)) of
             Some (True, m', Some s') \<Rightarrow> Some (m', s') | _ \<Rightarrow> None)
     else None)"

definition ring_get ::
  "nat \<Rightarrow> aoc_direction \<Rightarrow> u64 \<Rightarrow> ipc_mem \<times> aoc_ipc_service_header
     \<Rightarrow> (u8 list \<times> ipc_mem \<times> aoc_ipc_service_header) option" where
  "ring_get b dir d st = (case st of (m, s) \<Rightarrow>
     (case aoc_service_read_message m (Some s) (Some b) dir True (Some d) of
        Some (True, Some s', bytes, _) \<Rightarrow> Some (bytes, m, s') | _ \<Rightarrow> None))"

lemma ring_available_to_write:
  assumes ok: "ring_ok s dir"
  shows "unat (aoc_ring_bytes_available_to_write (Some s) dir)
     = unat (mr_size (svc_region s dir)) - length (service_bytes m b s dir)"
proof -
  have "ring_inv (svc_region s dir)" using ok by (simp add: ring_ok_def)
  note u = ring_inv_unat [OF this]
  show ?thesis using ok u(5)
    by (simp add: ring_ok_def aoc_ring_bytes_available_to_write_def aoc_ring_bytes_available_to_read_def
        read_write_delta_eq Let_def word_less_nat_alt service_bytes_def unat_sub_eq)
qed

lemma ring_put_effect:
  assumes ok: "ring_ok s dir"
  shows "ring_put b dir buf (m, s) = Some (m', s') \<Longrightarrow>
     ring_ok s' dir \<and> service_bytes m' b s' dir = service_bytes m b s dir @ buf"
    and "length (service_bytes m b s dir) + length buf \<le> unat (mr_size (svc_region s dir)) \<Longrightarrow>
     ring_put b dir buf (m, s) \<noteq> None"
proof -
  let ?n = "of_nat (length buf) :: u64"
  have inv: "ring_inv (svc_region s dir)" using ok by (simp add: ring_ok_def)
  note u = ring_inv_unat [OF inv]
  have room: "length (service_bytes m b s dir) \<le> unat (mr_size (svc_region s dir))"
    using u by (simp add: service_bytes_def)
  have n: "length buf = unat ?n" if "length buf \<le> unat (mr_size (svc_region s dir))"
    using that u(2) by (simp add: unsigned_of_nat take_bit_nat_eq_self)
  have w: "\<exists>m' s'. aoc_service_write_message m (Some s) (Some b) dir (Some buf) ?n = Some (True, m', Some s')
     \<and> ring_ok s' dir \<and> service_bytes m' b s' dir = service_bytes m b s dir @ buf"
    if "length (service_bytes m b s dir) + length buf \<le> unat (mr_size (svc_region s dir))"
    using ring_write_message_ok [OF ok n that] that by auto
  show "ring_ok s' dir \<and> service_bytes m' b s' dir = service_bytes m b s dir @ buf"
    if p: "ring_put b dir buf (m, s) = Some (m', s')"
  proof -
    have "length (service_bytes m b s dir) + length buf \<le> unat (mr_size (svc_region s dir))"
      using p room by (auto simp: ring_put_def ring_available_to_write [OF ok, of m b] split: if_splits)
    from w [OF this] p show ?thesis by (auto simp: ring_put_def split: if_splits)
  qed
  show "ring_put b dir buf (m, s) \<noteq> None"
    if "length (service_bytes m b s dir) + length buf \<le> unat (mr_size (svc_region s dir))"
    using w [OF that] that by (auto simp: ring_put_def ring_available_to_write [OF ok, of m b])
qed

lemma ring_get_effect:
  assumes ok: "ring_ok s dir" and g: "ring_get b dir d (m, s) = Some (ys, m', s')"
  shows "m' = m \<and> ring_ok s' dir \<and> service_bytes m b s dir = ys @ service_bytes m b s' dir"
proof (cases "service_bytes m b s dir = []")
  case True
  then show ?thesis using g by (simp add: ring_get_def ring_read_message_empty [OF ok])
next
  case False
  then show ?thesis using g ring_read_message_ok [OF ok False, of d] by (auto simp: ring_get_def)
qed

interpretation ring: fifo_channel
  "\<lambda>(m, s). ring_ok s dir" "\<lambda>(m, s). service_bytes m b s dir" "ring_put b dir" "\<lambda>buf. buf" "ring_get b dir"
  for b dir
  by unfold_locales (auto dest: ring_put_effect ring_get_effect)

section \<open>Message queues\<close>

lemma unat_ucast_u16_u64 [simp]: "unat (ucast (x :: u16) :: u64) = unat x"
  by (simp add: unsigned_ucast_eq take_bit_nat_eq_self_iff less_trans [OF unsigned_less])

definition slot_addr :: "nat \<Rightarrow> aoc_ipc_memory_region \<Rightarrow> nat \<Rightarrow> nat" where
  "slot_addr b r k = b + unat (mr_offset r) + unat (mr_size r) * (k mod unat (mr_slots r))"

definition slot_message :: "ipc_mem \<Rightarrow> nat \<Rightarrow> u8 list" where
  "slot_message m p = mem_read m (p + message_header_size) (unat (message_header_length m p))"

text \<open>
  The counters are reduced modulo the number of slots, so the slot sequence is continuous when
  they wrap only if that number divides \<open>2 ^ 32\<close>.
\<close>

definition queue_ok :: "aoc_ipc_service_header \<Rightarrow> aoc_direction \<Rightarrow> bool" where
  "queue_ok s dir \<longleftrightarrow> VALID_DIRECTION dir \<and> aoc_service_is_queue s
     \<and> (let r = svc_region s dir in
        unat (mr_slots r) dvd 2 ^ 32 \<and> message_header_size < unat (mr_size r)
        \<and> unat (mr_size r) * unat (mr_slots r) \<le> 2 ^ 32
        \<and> mr_tx r - mr_rx r \<le> mr_slots r)"

definition queue_fits :: "ipc_mem \<Rightarrow> nat \<Rightarrow> aoc_ipc_service_header \<Rightarrow> aoc_direction \<Rightarrow> bool" where
  "queue_fits m b s dir \<longleftrightarrow> (let r = svc_region s dir in
     \<forall>i < unat (mr_tx r - mr_rx r).
       unat (message_header_length m (slot_addr b r (unat (mr_rx r) + i))) + message_header_size \<le> unat (mr_size r))"

definition queue_content :: "ipc_mem \<Rightarrow> nat \<Rightarrow> aoc_ipc_service_header \<Rightarrow> aoc_direction \<Rightarrow> u8 list list" where
  "queue_content m b s dir = (let r = svc_region s dir in
     map (\<lambda>i. slot_message m (slot_addr b r (unat (mr_rx r) + i))) [0..<unat (mr_tx r - mr_rx r)])"

lemma u16_bytes_join: "ucast (ucast (len::u16) :: u8) OR push_bit 8 (ucast (ucast (drop_bit 8 len) :: u8)) = len"
  by (rule bit_word_eqI)
     (auto simp: bit_or_iff bit_push_bit_iff bit_ucast_iff bit_drop_bit_eq le_less_trans dest: bit_imp_le_length)

lemma header_round_trip:
  "message_header_length (mem_write (mem_write m p (message_header_bytes len)) (p + message_header_size) bs) p = len"
  using u16_bytes_join [of len]
  by (simp add: message_header_length_def mem_write_def message_header_bytes_def)

lemma slot_message_write:
  assumes "length bs = unat n" "unat n < 2 ^ 16"
  shows "slot_message (snd (aoc_queue_write_buffer m p bs n)) p = bs"
    and "unat (message_header_length (snd (aoc_queue_write_buffer m p bs n)) p) = unat n"
proof -
  have n: "unat (ucast n :: u16) = unat n" using assms(2) by (simp add: unsigned_ucast_eq take_bit_nat_eq_self_iff)
  then show "unat (message_header_length (snd (aoc_queue_write_buffer m p bs n)) p) = unat n"
    by (simp add: aoc_queue_write_buffer_def header_round_trip)
  show "slot_message (snd (aoc_queue_write_buffer m p bs n)) p = bs"
    using n assms(1) mem_read_write_same [of "mem_write m p (message_header_bytes (ucast n))" "p + 8" bs]
    by (simp add: slot_message_def aoc_queue_write_buffer_def header_round_trip)
qed

lemma slot_message_other:
  assumes "unat (message_header_length m p) + message_header_size \<le> S" "unat n + message_header_size \<le> S"
    "length bs = unat n" "p + S \<le> q \<or> q + S \<le> p"
  shows "slot_message (snd (aoc_queue_write_buffer m q bs n)) p = slot_message m p"
    and "message_header_length (snd (aoc_queue_write_buffer m q bs n)) p = message_header_length m p"
proof -
  have h8: "length (message_header_bytes x) = 8" for x by (simp add: message_header_bytes_def)
  have out: "snd (aoc_queue_write_buffer m q bs n) x = m x" if "x < q \<or> q + S \<le> x" for x
    using that assms(2,3) by (auto simp: aoc_queue_write_buffer_def mem_write_out h8)
  show l: "message_header_length (snd (aoc_queue_write_buffer m q bs n)) p = message_header_length m p"
    using assms(1,4) by (simp add: message_header_length_def) (subst (1 2) out; force)
  show "slot_message (snd (aoc_queue_write_buffer m q bs n)) p = slot_message m p"
    unfolding slot_message_def l using assms(1,4) by (intro nth_equalityI) (auto intro!: out)
qed

lemma slot_disjoint:
  fixes s :: nat
  assumes "i < s" "j < s" "i \<noteq> j"
  shows "S * i + S \<le> S * j \<or> S * j + S \<le> S * i"
proof -
  consider "Suc i \<le> j" | "Suc j \<le> i" using assms by linarith
  then show ?thesis by cases (metis add.commute mult_Suc_right mult_le_mono2)+
qed

lemma queue_slot_index:
  assumes q: "unat (mr_slots r) dvd 2 ^ 32" "unat (mr_size r) * unat (mr_slots r) \<le> 2 ^ 32" "0 < unat (mr_slots r)" "0 < unat (mr_size r)"
    and c: "unat (c::u32) mod unat (mr_slots r) = k mod unat (mr_slots r)"
  shows "b + unat (mr_offset r) + unat (mr_size r * (c mod mr_slots r)) = slot_addr b r k"
proof -
  have m: "unat (c mod mr_slots r) = k mod unat (mr_slots r)" by (simp add: unat_mod c)
  have "unat (mr_size r) * (k mod unat (mr_slots r)) < unat (mr_size r) * unat (mr_slots r)"
    using q by simp
  then have "unat (mr_size r) * (k mod unat (mr_slots r)) < 2 ^ 32" using q(2) by (rule less_le_trans)
  then have "unat (mr_size r * (c mod mr_slots r)) = unat (mr_size r) * (k mod unat (mr_slots r))"
    using m by (simp only: unat_word_ariths(2)) simp
  then show ?thesis by (simp add: slot_addr_def)
qed

lemma counter_mod_slots:
  assumes "unat s dvd 2 ^ 32"
  shows "unat ((c::u32) + d) mod unat (s::u32) = (unat c + unat d) mod unat s"
  using assms by (simp add: unat_word_ariths mod_mod_cancel)

lemma queue_ok_unat:
  assumes "queue_ok s dir"
  defines "r \<equiv> svc_region s dir"
  shows "VALID_DIRECTION dir" "\<not> aoc_service_is_ring s" "\<not> aoc_service_is_buffer s"
    "unat (mr_slots r) dvd 2 ^ 32" "message_header_size < unat (mr_size r)"
    "unat (mr_size r) * unat (mr_slots r) \<le> 2 ^ 32" "unat (mr_tx r - mr_rx r) \<le> unat (mr_slots r)"
    "0 < unat (mr_slots r)"
  using assms
  by (auto simp: queue_ok_def Let_def aoc_service_is_queue_def aoc_service_is_ring_def
      aoc_service_is_buffer_def word_le_nat_alt intro: Nat.gr0I)

lemma queue_can_write:
  assumes "queue_ok s dir"
  shows "aoc_service_can_write_message (Some s) dir \<longleftrightarrow> length (queue_content m b s dir) < unat (mr_slots (svc_region s dir))"
    and "\<not> aoc_service_slots_available_to_write (Some s) dir < 1 \<longleftrightarrow> aoc_service_can_write_message (Some s) dir"
proof -
  note u = queue_ok_unat [OF assms]
  have "unat (aoc_service_slots_available_to_write (Some s) dir)
      = unat (mr_slots (svc_region s dir)) - unat (mr_tx (svc_region s dir) - mr_rx (svc_region s dir))"
    using u by (auto simp: aoc_service_slots_available_to_write_def Let_def read_write_delta_eq unat_sub_eq unat_gt_0)
  then show "aoc_service_can_write_message (Some s) dir \<longleftrightarrow> length (queue_content m b s dir) < unat (mr_slots (svc_region s dir))"
    using u(7) by (simp add: aoc_service_can_write_message_def word_less_nat_alt queue_content_def Let_def)
qed (auto simp: aoc_service_can_write_message_def word_less_nat_alt)

lemma queue_can_read:
  assumes "queue_ok s dir"
  shows "aoc_service_can_read_message (Some s) dir \<longleftrightarrow> queue_content m b s dir \<noteq> []"
    and "\<not> aoc_service_slots_available_to_read (Some s) dir < 1 \<longleftrightarrow> aoc_service_can_read_message (Some s) dir"
proof -
  note u = queue_ok_unat [OF assms]
  have "unat (aoc_service_slots_available_to_read (Some s) dir)
      = unat (mr_tx (svc_region s dir) - mr_rx (svc_region s dir))"
    using u by (auto simp: aoc_service_slots_available_to_read_def Let_def read_write_delta_eq unat_gt_0 word_less_nat_alt)
  then show "aoc_service_can_read_message (Some s) dir \<longleftrightarrow> queue_content m b s dir \<noteq> []"
    by (simp add: aoc_service_can_read_message_def word_less_nat_alt queue_content_def Let_def)
qed (auto simp: aoc_service_can_read_message_def word_less_nat_alt)

lemma queue_message_size:
  "queue_ok s dir \<Longrightarrow> unat (aoc_service_message_size (Some s) dir) = unat (mr_size (svc_region s dir)) - 8"
  using queue_ok_unat [of s dir]
  by (auto simp: aoc_service_message_size_def word_le_nat_alt unat_sub_eq)

lemma queue_write_pointer:
  assumes "queue_ok s dir"
  shows "aoc_service_current_write_pointer (Some s) (Some b) dir
     = Some (Some (slot_addr b (svc_region s dir)
         (unat (mr_rx (svc_region s dir)) + unat (mr_tx (svc_region s dir) - mr_rx (svc_region s dir)))))"
    and "aoc_service_current_read_pointer (Some s) (Some b) dir
     = Some (Some (slot_addr b (svc_region s dir) (unat (mr_rx (svc_region s dir)))))"
proof -
  let ?r = "svc_region s dir"
  note u = queue_ok_unat [OF assms]
  have "unat (mr_tx ?r) mod unat (mr_slots ?r) = (unat (mr_rx ?r) + unat (mr_tx ?r - mr_rx ?r)) mod unat (mr_slots ?r)"
    using counter_mod_slots [OF u(4), of "mr_rx ?r" "mr_tx ?r - mr_rx ?r"] by simp
  from queue_slot_index [OF u(4) u(6) u(8) _ this] u(5)
  have e: "b + unat (mr_offset ?r) + unat (mr_size ?r * (mr_tx ?r mod mr_slots ?r))
      = slot_addr b ?r (unat (mr_rx ?r) + unat (mr_tx ?r - mr_rx ?r))" by simp
  then show "aoc_service_current_write_pointer (Some s) (Some b) dir
     = Some (Some (slot_addr b ?r (unat (mr_rx ?r) + unat (mr_tx ?r - mr_rx ?r))))"
    using u by (auto simp: aoc_service_current_write_pointer_def Let_def unat_gt_0)
  have sz: "0 < unat (mr_size ?r)" using u(5) by simp
  show "aoc_service_current_read_pointer (Some s) (Some b) dir = Some (Some (slot_addr b ?r (unat (mr_rx ?r))))"
    using u queue_slot_index [where c = "mr_rx ?r" and k = "unat (mr_rx ?r)" and b = b, OF u(4) u(6) u(8) sz refl]
    by (auto simp: aoc_service_current_read_pointer_def Let_def unat_gt_0)
qed

lemma slot_addr_disjoint:
  assumes "i < d" "d < unat (mr_slots r)"
  shows "slot_addr b r (x + i) + unat (mr_size r) \<le> slot_addr b r (x + d)
     \<or> slot_addr b r (x + d) + unat (mr_size r) \<le> slot_addr b r (x + i)"
proof -
  let ?s = "unat (mr_slots r)"
  have "(x + i) mod ?s \<noteq> (x + d) mod ?s"
  proof
    assume "(x + i) mod ?s = (x + d) mod ?s"
    then have "(d - i) mod ?s = 0" using assms(1) by (metis add_diff_cancel_left less_imp_le mod_eq_dvd_iff_nat nat_add_left_cancel_le mod_eq_0_iff_dvd)
    then show False using assms by simp
  qed
  moreover have "(x + i) mod ?s < ?s" "(x + d) mod ?s < ?s" using assms by simp_all
  ultimately show ?thesis
    using slot_disjoint [of "(x + i) mod ?s" ?s "(x + d) mod ?s" "unat (mr_size r)"] by (simp add: slot_addr_def)
qed

lemma queue_write_message_ok:
  assumes ok: "queue_ok s dir" and fits: "queue_fits m b s dir"
    and len: "length buf = unat n" "unat n < 2 ^ 16" "unat n + message_header_size \<le> unat (mr_size (svc_region s dir))"
    and room: "length (queue_content m b s dir) < unat (mr_slots (svc_region s dir))"
  shows "\<exists>m' s'. aoc_service_write_message m (Some s) (Some b) dir (Some buf) n = Some (True, m', Some s')
     \<and> queue_ok s' dir \<and> queue_fits m' b s' dir
     \<and> queue_content m' b s' dir = queue_content m b s dir @ [buf]"
proof -
  let ?r = "svc_region s dir"
  let ?D = "unat (mr_tx ?r - mr_rx ?r)" and ?x = "unat (mr_rx ?r)"
  note u = queue_ok_unat [OF ok]
  define m' where "m' = snd (aoc_queue_write_buffer m (slot_addr b ?r (?x + ?D)) buf (ucast n))"
  define r' where "r' = ?r\<lparr>mr_tx := mr_tx ?r + 1, mr_wp := (mr_wp ?r + 1) mod mr_size ?r\<rparr>"
  have n32: "unat (ucast n :: u32) = unat n" using len(2) by (simp add: ucast_u64_u32_small)
  have can: "aoc_service_can_write_message (Some s) dir" using room by (simp add: queue_can_write(1) [OF ok, of m b])
  have fitsz: "\<not> n > aoc_service_message_size (Some s) dir"
    using len(3) by (simp add: word_less_nat_alt queue_message_size [OF ok])
  have inc: "aoc_service_increment_write_index (Some s) dir = Some (True, Some (set_region s dir r'))"
    using can u queue_can_write(2) [OF ok]
    by (auto simp: aoc_service_increment_write_index_def aoc_service_advance_write_index_def Let_def
        region_advance_tx_def r'_def)
  have res: "aoc_service_write_message m (Some s) (Some b) dir (Some buf) n = Some (True, m', Some (set_region s dir r'))"
    using can fitsz inc u queue_write_pointer(1) [OF ok, of b]
    by (simp add: aoc_service_write_message_def m'_def Let_def)
  have Dlt: "?D < unat (mr_slots ?r)" using room by (simp add: queue_content_def Let_def)
  have r': "mr_size r' = mr_size ?r" "mr_slots r' = mr_slots ?r" "mr_rx r' = mr_rx ?r" "mr_offset r' = mr_offset ?r"
    by (simp_all add: r'_def)
  have D': "unat (mr_tx r' - mr_rx r') = ?D + 1"
  proof -
    have "mr_tx r' - mr_rx r' = (mr_tx ?r - mr_rx ?r) + 1" by (simp add: r'_def)
    then show ?thesis using Dlt unat_u32_bound [of "mr_slots ?r"] by (simp add: unat_add_no_wrap)
  qed
  have sa: "slot_addr b r' k = slot_addr b ?r k" for k by (simp add: slot_addr_def r')
  have old: "slot_message m' (slot_addr b ?r (?x + i)) = slot_message m (slot_addr b ?r (?x + i))"
      "message_header_length m' (slot_addr b ?r (?x + i)) = message_header_length m (slot_addr b ?r (?x + i))"
    if "i < ?D" for i
    using slot_message_other [of m "slot_addr b ?r (?x + i)" "unat (mr_size ?r)" "ucast n" buf "slot_addr b ?r (?x + ?D)"]
      slot_addr_disjoint [OF that Dlt] fits that len n32
    by (auto simp: m'_def queue_fits_def Let_def)
  have new: "slot_message m' (slot_addr b ?r (?x + ?D)) = buf"
      "unat (message_header_length m' (slot_addr b ?r (?x + ?D))) = unat n"
    using slot_message_write [of buf "ucast n" m] len(1,2) n32
    by (auto simp: m'_def)
  have "queue_ok (set_region s dir r') dir"
    using ok Dlt D' by (auto simp: queue_ok_def Let_def r' word_le_nat_alt)
  moreover have "queue_fits m' b (set_region s dir r') dir"
    using fits old(2) new(2) len(3) D' by (auto simp: queue_fits_def Let_def r' sa less_Suc_eq)
  moreover have "queue_content m' b (set_region s dir r') dir = queue_content m b s dir @ [buf]"
    using old(1) new(1) D' by (simp add: queue_content_def Let_def r' sa)
  ultimately show ?thesis using res by blast
qed

lemma queue_read_message_ok:
  assumes ok: "queue_ok s dir" and fits: "queue_fits m b s dir"
    and c: "queue_content m b s dir = x # xs"
  shows "length x \<le> unat d \<Longrightarrow>
     \<exists>s' n. aoc_service_read_message m (Some s) (Some b) dir True (Some d) = Some (True, Some s', x, Some n)
       \<and> unat n = length x \<and> queue_ok s' dir \<and> queue_fits m b s' dir \<and> queue_content m b s' dir = xs"
    and "unat d < length x \<Longrightarrow>
     aoc_service_read_message m (Some s) (Some b) dir True (Some d) = Some (False, Some s, [], Some d)"
proof -
  let ?r = "svc_region s dir"
  let ?D = "unat (mr_tx ?r - mr_rx ?r)" and ?x = "unat (mr_rx ?r)"
  let ?p = "slot_addr b ?r ?x"
  note u = queue_ok_unat [OF ok]
  define r' where "r' = ?r\<lparr>mr_rx := mr_rx ?r + 1, mr_rp := (mr_rp ?r + 1) mod mr_size ?r\<rparr>"
  have can: "aoc_service_can_read_message (Some s) dir" using c by (simp add: queue_can_read(1) [OF ok, of m b])
  have inc: "aoc_service_increment_read_index (Some s) dir = Some (True, Some (set_region s dir r'))"
    using can u queue_can_read(2) [OF ok]
    by (auto simp: aoc_service_increment_read_index_def aoc_service_advance_read_index_def Let_def
        region_advance_rx_def r'_def)
  have D0: "0 < ?D" using c by (auto simp: queue_content_def Let_def intro: Nat.gr0I)
  have x: "x = slot_message m ?p"
    using arg_cong [OF c, of hd] D0 by (simp add: queue_content_def Let_def upt_conv_Cons)
  have len: "length x = unat (message_header_length m ?p)" by (simp add: x slot_message_def)
  have lt: "d < ucast (message_header_length m ?p) \<longleftrightarrow> unat d < length x"
    by (simp add: word_less_nat_alt len)
  have res: "aoc_service_read_message m (Some s) (Some b) dir True (Some d) =
     (if unat d < length x then Some (False, Some s, [], Some d)
      else Some (True, Some (set_region s dir r'), x, Some (ucast (message_header_length m ?p))))"
    using can inc u queue_write_pointer(2) [OF ok, of b] lt
    by (simp add: aoc_service_read_message_def Let_def x slot_message_def)
  then show "aoc_service_read_message m (Some s) (Some b) dir True (Some d) = Some (False, Some s, [], Some d)"
    if "unat d < length x" using that by simp
  have r': "mr_size r' = mr_size ?r" "mr_slots r' = mr_slots ?r" "mr_tx r' = mr_tx ?r" "mr_offset r' = mr_offset ?r"
    by (simp_all add: r'_def)
  have D': "unat (mr_tx r' - mr_rx r') = ?D - 1"
  proof -
    have "mr_tx r' - mr_rx r' = (mr_tx ?r - mr_rx ?r) - 1" by (simp add: r'_def)
    then show ?thesis using D0 by (simp add: unat_sub_eq)
  qed
  have "unat (mr_rx r') mod unat (mr_slots ?r) = (?x + 1) mod unat (mr_slots ?r)"
    using counter_mod_slots [OF u(4), of "mr_rx ?r" 1] by (simp add: r'_def)
  then have sa: "slot_addr b r' (unat (mr_rx r') + i) = slot_addr b ?r (?x + Suc i)" for i
    using mod_add_cong [of "unat (mr_rx r')" "unat (mr_slots ?r)" "?x + 1" i i] by (simp add: slot_addr_def r')
  have "queue_ok (set_region s dir r') dir"
    using ok D' by (auto simp: queue_ok_def Let_def r' word_le_nat_alt)
  moreover have "queue_fits m b (set_region s dir r') dir"
    using fits D' by (auto simp: queue_fits_def Let_def r' sa simp del: add_Suc_right)
  moreover have "queue_content m b (set_region s dir r') dir = xs"
  proof -
    have "queue_content m b (set_region s dir r') dir = tl (queue_content m b s dir)"
      using D0 D' by (intro nth_equalityI) (auto simp: queue_content_def Let_def sa nth_tl)
    then show ?thesis by (simp add: c)
  qed
  moreover have "unat (ucast (message_header_length m ?p) :: u64) = length x"
    by (simp add: len)
  ultimately show "\<exists>s' n. aoc_service_read_message m (Some s) (Some b) dir True (Some d) = Some (True, Some s', x, Some n)
       \<and> unat n = length x \<and> queue_ok s' dir \<and> queue_fits m b s' dir \<and> queue_content m b s' dir = xs"
    if "length x \<le> unat d" using that res by auto
qed

subsection \<open>The queue as a channel\<close>

definition queue_put ::
  "nat \<Rightarrow> aoc_direction \<Rightarrow> u8 list \<Rightarrow> ipc_mem \<times> aoc_ipc_service_header \<Rightarrow> (ipc_mem \<times> aoc_ipc_service_header) option" where
  "queue_put b dir buf st = (case st of (m, s) \<Rightarrow>
     if length buf < 2 ^ 16
     then (case aoc_service_write_message m (Some s) (Some b) dir (Some buf) (of_nat (length buf)) of
             Some (True, m', Some s') \<Rightarrow> Some (m', s') | _ \<Rightarrow> None)
     else None)"

definition queue_get ::
  "nat \<Rightarrow> aoc_direction \<Rightarrow> u64 \<Rightarrow> ipc_mem \<times> aoc_ipc_service_header
     \<Rightarrow> (u8 list list \<times> ipc_mem \<times> aoc_ipc_service_header) option" where
  "queue_get b dir d st = (case st of (m, s) \<Rightarrow>
     (case aoc_service_read_message m (Some s) (Some b) dir True (Some d) of
        Some (True, Some s', bytes, _) \<Rightarrow> Some ([bytes], m, s') | _ \<Rightarrow> None))"

lemma queue_write_refused:
  assumes ok: "queue_ok s dir"
    and "unat (mr_slots (svc_region s dir)) \<le> length (queue_content m b s dir)
       \<or> unat (mr_size (svc_region s dir)) < unat n + message_header_size"
  shows "aoc_service_write_message m (Some s) (Some b) dir (Some buf) n = Some (False, m, Some s)"
proof -
  have "\<not> aoc_service_can_write_message (Some s) dir \<or> n > aoc_service_message_size (Some s) dir"
    using assms(2) queue_ok_unat(5) [OF ok]
    by (auto simp: queue_can_write(1) [OF ok, of m b] word_less_nat_alt queue_message_size [OF ok])
  then show ?thesis using queue_ok_unat(1) [OF ok] by (auto simp: aoc_service_write_message_def)
qed

lemma queue_put_effect:
  assumes ok: "queue_ok s dir" "queue_fits m b s dir"
    and p: "queue_put b dir buf (m, s) = Some (m', s')"
  shows "queue_ok s' dir \<and> queue_fits m' b s' dir \<and> queue_content m' b s' dir = queue_content m b s dir @ [buf]"
proof -
  let ?n = "of_nat (length buf) :: u64"
  have len: "length buf < 2 ^ 16" using p by (simp add: queue_put_def split: if_splits)
  then have n: "length buf = unat ?n" by (simp add: unsigned_of_nat take_bit_nat_eq_self)
  show ?thesis
  proof (cases "unat (mr_slots (svc_region s dir)) \<le> length (queue_content m b s dir)
       \<or> unat (mr_size (svc_region s dir)) < unat ?n + message_header_size")
    case True
    then show ?thesis using p queue_write_refused [OF ok(1) True] len by (simp add: queue_put_def)
  next
    case False
    then have "unat ?n + message_header_size \<le> unat (mr_size (svc_region s dir))"
      "length (queue_content m b s dir) < unat (mr_slots (svc_region s dir))" by simp_all
    from queue_write_message_ok [OF ok n _ this] p len n show ?thesis by (auto simp: queue_put_def)
  qed
qed

lemma queue_get_effect:
  assumes ok: "queue_ok s dir" "queue_fits m b s dir"
    and g: "queue_get b dir d (m, s) = Some (ys, m', s')"
  shows "m' = m \<and> queue_ok s' dir \<and> queue_fits m b s' dir \<and> queue_content m b s dir = ys @ queue_content m b s' dir"
proof (cases "queue_content m b s dir")
  case Nil
  then have "\<not> aoc_service_can_read_message (Some s) dir" by (simp add: queue_can_read(1) [OF ok(1), of m b])
  then show ?thesis using g queue_ok_unat(1) [OF ok(1)] by (simp add: queue_get_def aoc_service_read_message_def)
next
  case (Cons x xs)
  note r = queue_read_message_ok [OF ok Cons, of d]
  show ?thesis
  proof (cases "length x \<le> unat d")
    case True
    then show ?thesis using r(1) [OF True] g Cons by (auto simp: queue_get_def)
  next
    case False
    then show ?thesis using r(2) g by (simp add: queue_get_def)
  qed
qed

interpretation msgq: fifo_channel
  "\<lambda>(m, s). queue_ok s dir \<and> queue_fits m b s dir" "\<lambda>(m, s). queue_content m b s dir"
  "queue_put b dir" "\<lambda>buf. [buf]" "queue_get b dir"
  for b dir
  by unfold_locales (auto dest: queue_put_effect queue_get_effect)

end
