(* ===== verification/Aoc_Ipc_Props.thy ===== *)
theory Aoc_Ipc_Props
  imports Aoc_Ipc
begin

text \<open>
  The properties of the shared-memory IPC: in-order delivery of rings and queues, the behaviour
  of a ring that overflows, the reader's flush, the arithmetic of the counters, and the limits of
  the protocol (wrap-around of the slot index, 16-bit message length, unchecked direction).
\<close>

unbundle bit_operations_syntax

section \<open>Example services\<close>

definition demo_region :: "u32 \<Rightarrow> u32 \<Rightarrow> u32 \<Rightarrow> aoc_ipc_memory_region" where
  "demo_region off sz slots =
     \<lparr>mr_offset = off, mr_size = sz, mr_slots = slots, mr_tx = 0, mr_rx = 0, mr_wp = 0, mr_rp = 0\<rparr>"

definition demo_ring :: aoc_ipc_service_header where
  "demo_ring = \<lparr>svc_name = replicate 32 0, svc_flags = 0x00010000,
     svc_regions = (demo_region 0 4 1, demo_region 4 4 1)\<rparr>"

definition demo_queue :: aoc_ipc_service_header where
  "demo_queue = \<lparr>svc_name = replicate 32 0, svc_flags = 0,
     svc_regions = (demo_region 0 12 2, demo_region 24 12 2)\<rparr>"

lemmas aoc_type_eval = svc_region_def set_region_def VALID_DIRECTION_def aoc_service_is_ring_def
  aoc_service_is_buffer_def aoc_service_is_queue_def aoc_service_type_def AOC_SERVICE_TYPE_MASK_def

lemmas aoc_eval = ring_put_def ring_get_def queue_put_def queue_get_def
  aoc_ring_bytes_available_to_write_def aoc_ring_bytes_available_to_read_def
  aoc_service_write_message_def aoc_service_read_message_def aoc_service_can_write_message_def
  aoc_service_can_read_message_def aoc_service_slots_available_to_write_def
  aoc_service_slots_available_to_read_def aoc_service_message_size_def
  aoc_service_ring_base_def aoc_ring_write_buffer_def aoc_ring_read_buffer_def
  aoc_ring_reader_sync_offset_def region_advance_tx_def region_advance_rx_def read_write_delta_def
  aoc_service_current_read_pointer_def aoc_service_current_write_pointer_def
  aoc_service_increment_write_index_def aoc_service_increment_read_index_def
  aoc_service_advance_write_index_def aoc_service_advance_read_index_def
  aoc_queue_write_buffer_def message_header_length_def message_header_bytes_def
  mem_read_def mem_write_def upt_rec aoc_type_eval Let_def

lemma demo_ring_ok: "ring_ok demo_ring AOC_UP"
  by (simp add: demo_ring_def demo_region_def ring_ok_def ring_inv_def ring_pos_def aoc_type_eval)

lemma demo_ring_empty: "service_bytes m 0 demo_ring AOC_UP = []"
  by (simp add: service_bytes_def ring_content_def demo_ring_def demo_region_def svc_region_def)

lemma demo_queue_ok: "queue_ok demo_queue AOC_UP" "queue_fits m b demo_queue AOC_UP"
  "queue_content m b demo_queue AOC_UP = []"
  by (simp_all add: demo_queue_def demo_region_def queue_ok_def queue_fits_def queue_content_def aoc_type_eval)

section \<open>Rings\<close>



text \<open>
  C27: a write of any message that fits the ring is accepted and never faults; when it does not fit
  the free space the oldest bytes give way: a following read with a buffer of at least the ring
  size returns the newest \<open>size\<close> bytes of everything pending and written, and leaves the ring
  empty and well formed.
\<close>

theorem ring_overflow_keeps_newest:
  assumes ok: "ring_ok s dir" and len: "length buf = unat n"
    and n: "length buf \<le> unat (mr_size (svc_region s dir))"
    and over: "unat (mr_size (svc_region s dir)) < length (service_bytes m b s dir) + length buf"
    and d: "unat (mr_size (svc_region s dir)) \<le> unat d"
  shows "\<exists>m' s' s'' k.
     aoc_service_write_message m (Some s) (Some b) dir (Some buf) n = Some (True, m', Some s')
     \<and> aoc_ring_did_overflow (Some s') dir
     \<and> aoc_service_read_message m' (Some s') (Some b) dir True (Some d)
       = Some (True, Some s'', drop (length (service_bytes m b s dir) + length buf
                                     - unat (mr_size (svc_region s dir)))
                                 (service_bytes m b s dir @ buf), Some k)
     \<and> ring_ok s'' dir \<and> service_bytes m' b s'' dir = []"
proof -
  let ?S = "unat (mr_size (svc_region s dir))"
  obtain m' s' where w: "aoc_service_write_message m (Some s) (Some b) dir (Some buf) n = Some (True, m', Some s')"
     "VALID_DIRECTION dir" "aoc_service_is_ring s'" "mr_slots (svc_region s' dir) \<noteq> 0"
     "ring_pos (svc_region s' dir)" "mr_size (svc_region s' dir) = mr_size (svc_region s dir)"
     "length (service_bytes m' b s' dir) = length (service_bytes m b s dir) + length buf"
     "drop (length (service_bytes m b s dir) + length buf - ?S) (service_bytes m' b s' dir)
       = drop (length (service_bytes m b s dir) + length buf - ?S) (service_bytes m b s dir @ buf)"
    using ring_overflow_write [OF ok len _ over] n len by auto
  have "ring_inv (svc_region s dir)" using ok by (simp add: ring_ok_def)
  note u = ring_inv_unat [OF this]
  have le2: "length (service_bytes m' b s' dir) \<le> 2 * unat (mr_size (svc_region s' dir))"
    using w(6,7) n u(5) by (simp add: service_bytes_def)
  have gt: "0 < length (service_bytes m' b s' dir)" using w(7) over by linarith
  have ov: "aoc_ring_did_overflow (Some s') dir"
    using w(2,3,6,7) over
    by (simp add: aoc_ring_did_overflow_def read_write_delta_eq word_less_nat_alt service_bytes_def)
  from ring_read_message_gen [OF w(2,3,4,5) gt le2, of d] w ov d show ?thesis by auto
qed

theorem ring_overflow_keeps_newest_witness:
  "\<exists>m' s' s'' k.
     aoc_service_write_message (\<lambda>_. 0) (Some demo_ring) (Some 0) AOC_UP (Some [1, 2, 3]) 3 = Some (True, m', Some s')
     \<and> (\<exists>m2 s2. aoc_service_write_message m' (Some s') (Some 0) AOC_UP (Some [4, 5, 6]) 3 = Some (True, m2, Some s2)
        \<and> aoc_service_read_message m2 (Some s2) (Some 0) AOC_UP True (Some 9) = Some (True, Some s'', [3, 4, 5, 6], Some k))"
proof -
  have demo_size: "mr_size (svc_region demo_ring AOC_UP) = 4"
    by (simp add: demo_ring_def demo_region_def svc_region_def)
  obtain m' s' where w: "aoc_service_write_message (\<lambda>_. 0) (Some demo_ring) (Some 0) AOC_UP (Some [1, 2, 3]) 3
       = Some (True, m', Some s')" "ring_ok s' AOC_UP" "service_bytes m' 0 s' AOC_UP = [1, 2, 3]"
     "mr_size (svc_region s' AOC_UP) = mr_size (svc_region demo_ring AOC_UP)"
    using ring_write_message_ok [OF demo_ring_ok, of "[1, 2, 3]" 3 "\<lambda>_. 0" 0] demo_size
    by (auto simp: demo_ring_empty)
  have sz: "unat (mr_size (svc_region s' AOC_UP)) = 4" by (simp add: w(4) demo_size)
  show ?thesis using ring_overflow_keeps_newest [OF w(2), of "[4, 5, 6]" 3 m' 0 9] w sz by auto
qed

text \<open>
  \<^const>\<open>aoc_ring_flush_read_data\<close> discards pending bytes from the old end: it leaves exactly
  the newest \<open>min bytes_to_leave pending\<close> bytes, and the ring stays well formed.
\<close>

theorem ring_flush_leaves_newest:
  assumes ok: "ring_ok s dir"
  shows "\<exists>s'. aoc_ring_flush_read_data (Some s) dir leave = Some (True, Some s') \<and> ring_ok s' dir
     \<and> service_bytes m b s' dir
       = drop (length (service_bytes m b s dir) - unat leave) (service_bytes m b s dir)"
proof -
  let ?r = "svc_region s dir"
  have inv: "ring_inv ?r" using ok by (simp add: ring_ok_def)
  then have pos: "ring_pos ?r" by (simp add: ring_inv_def)
  note u = ring_inv_unat [OF inv]
  let ?l = "min (min (unat leave) (unat (mr_size ?r))) (unat (mr_tx ?r - mr_rx ?r))"
  have nw: "unat (mr_rp ?r) + (unat (mr_tx ?r - mr_rx ?r) - ?l) < 2 ^ 32" using u by simp
  obtain r' where r': "aoc_ring_reader_sync_offset ?r leave = Some r'" "ring_pos r'" "mr_size r' = mr_size ?r"
     "unat (mr_tx r' - mr_rx r') = ?l"
     "\<And>m ring. ring_content m ring r' = drop (unat (mr_tx ?r - mr_rx ?r) - ?l) (ring_content m ring ?r)"
    using ring_sync [OF pos, of leave, OF nw] by auto
  have f: "mr_offset r' = mr_offset ?r \<and> mr_slots r' = mr_slots ?r"
    using r'(1) by (auto simp: aoc_ring_reader_sync_offset_def Let_def dest: region_advance_frame)
  have eq: "unat (mr_tx ?r - mr_rx ?r) - ?l = unat (mr_tx ?r - mr_rx ?r) - unat leave" using u(5) by linarith
  have "ring_inv r'" using r'(2,3,4) u(5) by (simp add: ring_inv_def word_le_nat_alt)
  then show ?thesis using ok r' f eq by (auto simp: aoc_ring_flush_read_data_def ring_ok_def service_bytes_def)
qed

theorem ring_flush_leaves_newest_witness:
  "ring_ok demo_ring AOC_UP
   \<and> (\<exists>s'. aoc_ring_flush_read_data (Some demo_ring) AOC_UP 1 = Some (True, Some s') \<and> ring_ok s' AOC_UP)"
  using demo_ring_ok ring_flush_leaves_newest [OF demo_ring_ok, of 1 "\<lambda>_. 0" 0] by blast

text \<open>
  the distance of the free-running counters is computed without error across their 32-bit
  wrap-around: the comparison and the 64-bit detour of \<^const>\<open>read_write_delta\<close> equal the wrapped
  difference \<open>tx - rx\<close>, so that advancing \<open>tx\<close> by \<open>n\<close> bytes always adds \<open>n\<close> (modulo \<open>2 ^ 32\<close>).
\<close>

theorem read_write_delta_wraps:
  "read_write_delta r = mr_tx r - mr_rx r \<and>
   unat (read_write_delta (r\<lparr>mr_tx := mr_tx r + n\<rparr>)) = (unat (read_write_delta r) + unat n) mod 2 ^ 32"
proof -
  have "mr_tx r + n - mr_rx r = (mr_tx r - mr_rx r) + n" by simp
  then have "unat (mr_tx r + n - mr_rx r) = (unat (mr_tx r - mr_rx r) + unat n) mod 2 ^ 32"
    by (simp only: unat_word_ariths(1)) simp
  then show ?thesis by (simp add: read_write_delta_eq)
qed

section \<open>Queues\<close>



section \<open>Limits and faults\<close>

lemma advance_write_no_fault:
  assumes "VALID_DIRECTION dir" "mr_size (svc_region s dir) \<noteq> 0"
  shows "aoc_service_advance_write_index (Some s) dir k \<noteq> None"
    and "aoc_service_advance_read_index (Some s) dir k \<noteq> None"
  using assms
  by (auto simp: aoc_service_advance_write_index_def aoc_service_advance_read_index_def Let_def
      region_advance_tx_def region_advance_rx_def)

lemma sync_read_no_fault:
  assumes "mr_size r \<noteq> 0"
  shows "\<exists>k bytes r'. aoc_ring_read_buffer m p r d = Some (k, bytes, r') \<and> mr_size r' \<noteq> 0"
  using assms
  by (auto simp: aoc_ring_read_buffer_def aoc_ring_reader_sync_offset_def region_advance_rx_def Let_def)

lemma current_pointer_no_fault:
  assumes "VALID_DIRECTION dir" "mr_slots (svc_region s dir) \<noteq> 0"
  shows "\<exists>p. aoc_service_current_read_pointer (Some s) (Some b) dir = Some (Some p)"
    and "\<exists>p. aoc_service_current_write_pointer (Some s) (Some b) dir = Some (Some p)"
  using assms by (auto simp: aoc_service_current_read_pointer_def aoc_service_current_write_pointer_def Let_def)

lemma can_transfer_slots:
  "aoc_service_can_read_message (Some s) dir \<Longrightarrow> mr_slots (svc_region s dir) \<noteq> 0"
  "aoc_service_can_write_message (Some s) dir \<Longrightarrow> mr_slots (svc_region s dir) \<noteq> 0"
  by (auto simp: aoc_service_can_read_message_def aoc_service_can_write_message_def Let_def
      aoc_service_slots_available_to_read_def aoc_service_slots_available_to_write_def split: if_splits)

lemma read_message_no_fault:
  assumes v: "VALID_DIRECTION dir" and nz: "mr_size (svc_region s dir) \<noteq> 0"
  shows "aoc_service_read_message m (Some s) base dir has_buffer psize \<noteq> None"
proof (cases "\<exists>b d. base = Some b \<and> psize = Some d \<and> has_buffer \<and> aoc_service_can_read_message (Some s) dir")
  case True
  then obtain b d where bd: "base = Some b" "psize = Some d" "has_buffer" "aoc_service_can_read_message (Some s) dir"
    by blast
  show ?thesis
  proof (cases "aoc_service_is_ring s")
    case True
    then obtain p where "aoc_service_ring_base (Some s) b dir = Some p"
      using v nz by (auto simp: aoc_service_ring_base_def word_gt_0)
    with True bd v sync_read_no_fault [OF nz, of m p d] show ?thesis
      by (auto simp: aoc_service_read_message_def region_advance_rx_def)
  next
    case False
    with bd v current_pointer_no_fault(1) [OF v can_transfer_slots(1), of s b]
      advance_write_no_fault(2) [OF v nz, of 1]
    show ?thesis
      by (auto simp: aoc_service_read_message_def Let_def aoc_service_increment_read_index_def split: option.splits)
  qed
next
  case False
  then show ?thesis by (auto simp: aoc_service_read_message_def split: option.splits)
qed

lemma write_message_no_fault:
  assumes v: "VALID_DIRECTION dir" and nz: "mr_size (svc_region s dir) \<noteq> 0"
  shows "aoc_service_write_message m (Some s) base dir buffer n \<noteq> None"
proof (cases "\<exists>b buf. base = Some b \<and> buffer = Some buf \<and> aoc_service_can_write_message (Some s) dir")
  case True
  then obtain b buf where bd: "base = Some b" "buffer = Some buf" "aoc_service_can_write_message (Some s) dir"
    by blast
  show ?thesis
  proof (cases "aoc_service_is_ring s")
    case True
    then obtain p where "aoc_service_ring_base (Some s) b dir = Some p"
      using v nz by (auto simp: aoc_service_ring_base_def word_gt_0)
    with True bd v nz show ?thesis
      by (auto simp: aoc_service_write_message_def region_advance_tx_def split: prod.split)
  next
    case False
    with bd v current_pointer_no_fault(2) [OF v can_transfer_slots(2), of s b]
      advance_write_no_fault(1) [OF v nz, of 1]
    show ?thesis
      by (auto simp: aoc_service_write_message_def Let_def aoc_service_increment_write_index_def split: option.splits)
  qed
next
  case False
  then show ?thesis by (auto simp: aoc_service_write_message_def split: option.splits)
qed



text \<open>
  Unlike message transfer, \<^const>\<open>aoc_ring_flush_read_data\<close>, \<^const>\<open>aoc_ring_reset_write_pointer\<close>
  and \<^const>\<open>aoc_service_advance_read_index\<close> use the direction as an array index without checking
  it: on every ring service a direction other than up and down is an access outside
  \<open>regions[2]\<close>.
\<close>

theorem ring_direction_unchecked:
  assumes "aoc_service_is_ring s" and "\<not> VALID_DIRECTION dir"
  shows "aoc_ring_flush_read_data (Some s) dir leave = None
     \<and> aoc_ring_reset_write_pointer (Some s) dir = None
     \<and> aoc_service_advance_read_index (Some s) dir amount = None"
  using assms
  by (simp add: aoc_ring_flush_read_data_def aoc_ring_reset_write_pointer_def aoc_service_advance_read_index_def Let_def)

theorem ring_direction_unchecked_witness: "aoc_ring_flush_read_data (Some demo_ring) 2 0 = None"
proof -
  have "aoc_service_is_ring demo_ring" "\<not> VALID_DIRECTION 2"
    by (simp_all add: demo_ring_def aoc_type_eval)
  from ring_direction_unchecked [OF this, of 0 0] show ?thesis by simp
qed

text \<open>
  the length of a queued message is stored in 16 bits although a slot may be larger: the
  receiver sees the length modulo 65536, so a message of 65536 bytes arrives empty.
\<close>

theorem queue_length_is_truncated:
  "unat (message_header_length (snd (aoc_queue_write_buffer m p src n)) p) = unat n mod 65536"
  by (simp add: aoc_queue_write_buffer_def header_round_trip unsigned_ucast_eq take_bit_eq_mod)

text \<open>
  the slot index is a 32-bit counter modulo the number of slots. When that number does not
  divide \<open>2 ^ 32\<close> the sequence of slots jumps as the counter wraps: with three slots and both
  counters at \<open>2 ^ 32 - 1\<close>, two messages are accepted into the same slot and the first is lost.
\<close>

definition demo_queue3 :: aoc_ipc_service_header where
  "demo_queue3 = \<lparr>svc_name = replicate 32 0, svc_flags = 0,
     svc_regions = ((demo_region 0 12 3)\<lparr>mr_tx := 0xFFFFFFFF, mr_rx := 0xFFFFFFFF\<rparr>, demo_region 36 12 3)\<rparr>"

theorem queue_wrap_loses_message:
  "fst (snd (channel_run (queue_put 0 AOC_UP) (queue_get 0 AOC_UP)
      [Inl [1], Inl [2], Inr 4, Inr 4] (\<lambda>_. 0, demo_queue3))) = [[2], [2]]"
  by (simp add: demo_queue3_def demo_region_def aoc_eval)

end
