(* ===== verification/Gvotable.thy ===== *)
theory Gvotable
  imports Kernel_Prelude "HOL-Library.Multiset"
begin

text \<open>
  The election library \<^verbatim>\<open>src/google-modules/bms/misc/gvotable.c\<close>: independent voters cast ballots
  (a reason, a value, enabled or not) into an election, which keeps the ballots in a list ordered
  by its comparator; the first enabled ballot decides the result, the election's callback is told
  about changes.

  The two mutexes of an election are fields of the state. The model follows one thread: taking a
  mutex that is still held never returns, which is the outer \<^term>\<open>None\<close> of an operation. The
  callback is a parameter: a function from the election, the reason (\<^term>\<open>None\<close> is NULL) and the
  value to its return code and the election as it leaves it. The kernel's string hash and the
  outcome of memory allocations are parameters too.
\<close>

unbundle bit_operations_syntax

section \<open>Votes and comparators\<close>

text \<open>
  A \<open>void *\<close> vote is a scalar of pointer width, or a pointer to memory the election copies
  (its address and the bytes there). A \<open>memcpy\<close> from or to a scalar, which the code makes only
  after an allocation or with a vote that was checked against NULL, leaves the destination.
\<close>

datatype vote = Scalar u64 | Ptr u64 "u8 list"

abbreviation (input) null_vote :: vote where "null_vote \<equiv> Scalar 0"

fun vote_word :: "vote \<Rightarrow> u64" where
  "vote_word (Scalar w) = w"
| "vote_word (Ptr a _) = a"

fun vote_memcpy :: "nat \<Rightarrow> vote \<Rightarrow> vote \<Rightarrow> vote" where
  "vote_memcpy n (Ptr a d) (Ptr _ s) = Ptr a (take n s @ drop n d)"
| "vote_memcpy n d _ = d"

text \<open>\<open>*((int *)&l)\<close>: the low 32 bits of the pointer, as signed.\<close>

definition vote_int :: "vote \<Rightarrow> int" where
  "vote_int v = sint (ucast (vote_word v) :: u32)"

definition vote_uint :: "vote \<Rightarrow> nat" where
  "vote_uint v = unat (ucast (vote_word v) :: u32)"

datatype gv_cmp = Cmp_uint_max | Cmp_uint_min | Cmp_int_max | Cmp_int_min
  | Cmp_most_recent | Cmp_least_recent | Cmp_bool | Cmp_none

definition gvotable_comparator_uint_max :: "vote \<Rightarrow> vote \<Rightarrow> int" where
  "gvotable_comparator_uint_max l r =
     (if vote_uint l > vote_uint r then 1 else if vote_uint l < vote_uint r then - 1 else 0)"

definition gvotable_comparator_int :: "vote \<Rightarrow> vote \<Rightarrow> int" where
  "gvotable_comparator_int l r =
     (if vote_int l > vote_int r then 1 else if vote_int l < vote_int r then - 1 else 0)"

definition gvotable_comparator_int_max :: "vote \<Rightarrow> vote \<Rightarrow> int" where
  "gvotable_comparator_int_max a b = - gvotable_comparator_int a b"

definition gvotable_comparator_int_min :: "vote \<Rightarrow> vote \<Rightarrow> int" where
  "gvotable_comparator_int_min a b = gvotable_comparator_int a b"

definition gvotable_comparator_uint_min :: "vote \<Rightarrow> vote \<Rightarrow> int" where
  "gvotable_comparator_uint_min a b = - gvotable_comparator_uint_max a b"

definition gvotable_comparator_most_recent :: "vote \<Rightarrow> vote \<Rightarrow> int" where
  "gvotable_comparator_most_recent a b = - 1"

definition gvotable_comparator_least_recent :: "vote \<Rightarrow> vote \<Rightarrow> int" where
  "gvotable_comparator_least_recent a b = 1"

definition gvotable_comparator_bool :: "vote \<Rightarrow> vote \<Rightarrow> int" where
  "gvotable_comparator_bool a b = gvotable_comparator_most_recent a b"

definition gvotable_comparator_none :: "vote \<Rightarrow> vote \<Rightarrow> int" where
  "gvotable_comparator_none a b = gvotable_comparator_most_recent a b"

text \<open>The call through the function pointer \<open>el->cmp\<close>.\<close>

fun run_cmp :: "gv_cmp \<Rightarrow> vote \<Rightarrow> vote \<Rightarrow> int" where
  "run_cmp Cmp_uint_max = gvotable_comparator_uint_max"
| "run_cmp Cmp_uint_min = gvotable_comparator_uint_min"
| "run_cmp Cmp_int_max = gvotable_comparator_int_max"
| "run_cmp Cmp_int_min = gvotable_comparator_int_min"
| "run_cmp Cmp_most_recent = gvotable_comparator_most_recent"
| "run_cmp Cmp_least_recent = gvotable_comparator_least_recent"
| "run_cmp Cmp_bool = gvotable_comparator_bool"
| "run_cmp Cmp_none = gvotable_comparator_none"

section \<open>Elections\<close>

definition VOTES_HISTORY_DEPTH :: nat where "VOTES_HISTORY_DEPTH = 1"
definition MAX_NAME_LEN :: nat where "MAX_NAME_LEN = 16"
definition GVOTABLE_MAX_REASON_LEN :: nat where "GVOTABLE_MAX_REASON_LEN = 32"
definition DEBUGFS_CAST_VOTE_REASON :: string where "DEBUGFS_CAST_VOTE_REASON = ''DEBUGFS''"
definition DEBUGFS_FORCE_VOTE_REASON :: string where "DEBUGFS_FORCE_VOTE_REASON = ''DEBUGFS_FORCE''"
definition default_reason :: string where "default_reason = ''Default''"

record ballot =
  b_enabled :: bool
  b_reason_hash :: u32
  b_reason :: string
  b_idx :: nat
  b_vote :: "nat \<Rightarrow> vote"
  b_vote_size :: nat
  b_num_votes :: u32

record gvotable_election =
  el_hash :: u32
  el_vote_size :: nat
  el_use_alloc :: bool
  el_name :: string
  el_has_name :: bool
  el_cb_lock :: bool
  el_re_lock :: bool
  el_owner :: bool
  el_result :: vote
  el_reason :: string
  el_result_is_valid :: bool
  el_data :: nat
  el_callback :: bool
  el_cmp :: gv_cmp
  el_auto_callback :: bool
  el_default_vote :: vote
  el_has_default_vote :: int
  el_force_result :: vote
  el_force_result_is_enabled :: bool
  el_votes :: "ballot list"
  el_num_voters :: u32
  el_num_votes :: u32
  el_is_int_type :: bool
  el_is_bool_type :: bool
  el_disable_force_int_entry :: bool

type_synonym gv_hash = "string \<Rightarrow> u32"
type_synonym gv_callback = "gvotable_election \<Rightarrow> string option \<Rightarrow> vote \<Rightarrow> int \<times> gvotable_election"

definition ballot_vote :: "ballot \<Rightarrow> vote" where
  "ballot_vote b = b_vote b (b_idx b)"

subsection \<open>Locks\<close>

definition gvotable_lock_result :: "gvotable_election \<Rightarrow> gvotable_election option" where
  "gvotable_lock_result el = (if el_re_lock el then None else Some (el\<lparr>el_re_lock := True\<rparr>))"

definition gvotable_unlock_result :: "gvotable_election \<Rightarrow> gvotable_election" where
  "gvotable_unlock_result el = el\<lparr>el_re_lock := False\<rparr>"

definition gvotable_lock_election :: "gvotable_election \<Rightarrow> gvotable_election option" where
  "gvotable_lock_election el =
     (if el_cb_lock el then None
      else gvotable_lock_result (el\<lparr>el_cb_lock := True, el_owner := True\<rparr>))"

definition gvotable_unlock_callback :: "gvotable_election \<Rightarrow> gvotable_election" where
  "gvotable_unlock_callback el = el\<lparr>el_owner := False, el_cb_lock := False\<rparr>"

definition gvotable_unlock_election :: "gvotable_election \<Rightarrow> gvotable_election" where
  "gvotable_unlock_election el = gvotable_unlock_callback (gvotable_unlock_result el)"

subsection \<open>Result\<close>

definition gvotable_internal_update_reason :: "gvotable_election \<Rightarrow> string \<Rightarrow> gvotable_election" where
  "gvotable_internal_update_reason el new_reason =
     el\<lparr>el_reason := strlcpy GVOTABLE_MAX_REASON_LEN new_reason\<rparr>"

definition gvotable_internal_copy_result :: "gvotable_election \<Rightarrow> vote \<Rightarrow> vote \<Rightarrow> vote" where
  "gvotable_internal_copy_result el res new_result =
     (if el_use_alloc el then vote_memcpy (el_vote_size el) res new_result else new_result)"

definition gvotable_internal_update_result :: "gvotable_election \<Rightarrow> vote \<Rightarrow> gvotable_election" where
  "gvotable_internal_update_result el new_result =
     el\<lparr>el_result := gvotable_internal_copy_result el (el_result el) new_result,
        el_result_is_valid := True\<rparr>"

abbreviation (input) GVOTABLE_BOOL_TRUE_VALUE :: vote where "GVOTABLE_BOOL_TRUE_VALUE \<equiv> Scalar 1"
abbreviation (input) GVOTABLE_BOOL_FALSE_VALUE :: vote where "GVOTABLE_BOOL_FALSE_VALUE \<equiv> Scalar 0"

definition gvotable_internal_run_election :: "gvotable_election \<Rightarrow> bool \<times> gvotable_election" where
  "gvotable_internal_run_election el =
     (if el_force_result_is_enabled el then (False, el)
      else case find b_enabled (el_votes el) of
        Some ballot \<Rightarrow>
          (let new_reason = \<not> el_result_is_valid el
                 \<or> \<not> strn_eq GVOTABLE_MAX_REASON_LEN (el_reason el) (b_reason ballot);
               el1 = (if new_reason then gvotable_internal_update_reason el (b_reason ballot) else el);
               callback1 = (new_reason \<and> el_auto_callback el);
               new_result = callback1 \<or> run_cmp (el_cmp el) (el_result el1) (ballot_vote ballot) \<noteq> 0;
               el2 = (if new_result
                      then gvotable_internal_update_result el1
                             (if el_is_bool_type el then GVOTABLE_BOOL_TRUE_VALUE else ballot_vote ballot)
                      else el1);
               callback2 = (if new_result then el_auto_callback el else callback1)
           in (callback2 \<and> el_callback el, el2\<lparr>el_result_is_valid := True\<rparr>))
      | None \<Rightarrow>
          if el_has_default_vote el = 1 then
            (let new_reason = \<not> el_result_is_valid el
                   \<or> \<not> strn_eq GVOTABLE_MAX_REASON_LEN (el_reason el) default_reason;
                 el1 = (if new_reason then gvotable_internal_update_reason el default_reason else el);
                 callback1 = (new_reason \<and> el_auto_callback el);
                 new_result = callback1 \<or> run_cmp (el_cmp el) (el_result el1) (el_default_vote el1) \<noteq> 0;
                 el2 = (if new_result then gvotable_internal_update_result el1 (el_default_vote el1) else el1);
                 callback2 = (if new_result then el_auto_callback el else callback1)
             in (callback2 \<and> el_callback el, el2\<lparr>el_result_is_valid := True\<rparr>))
          else ((el_result_is_valid el \<and> el_auto_callback el) \<and> el_callback el,
                el\<lparr>el_result_is_valid := False, el_reason := ''''\<rparr>))"

definition gvotable_run_callback :: "gv_callback \<Rightarrow> gvotable_election \<Rightarrow> int \<times> gvotable_election" where
  "gvotable_run_callback cb el =
     (if el_result_is_valid el then cb el (Some (el_reason el)) (el_result el)
      else cb el None null_vote)"

text \<open>
  The tail that \<open>gvotable_use_default\<close>, \<open>gvotable_recast_ballot\<close> and \<open>gvotable_cast_vote\<close>
  share: run the election, release the result lock, call back if needed, release the callback lock.
\<close>

definition run_and_notify :: "gv_callback \<Rightarrow> int \<Rightarrow> gvotable_election \<Rightarrow> int \<times> gvotable_election" where
  "run_and_notify cb ret el =
     (case gvotable_internal_run_election el of
        (True, el1) \<Rightarrow>
          (case gvotable_run_callback cb (gvotable_unlock_result el1) of
             (ret', el2) \<Rightarrow> (ret', gvotable_unlock_callback el2))
      | (False, el1) \<Rightarrow> (ret, gvotable_unlock_callback (gvotable_unlock_result el1)))"

subsection \<open>Ballots\<close>

definition ballot_matches :: "gv_hash \<Rightarrow> string \<Rightarrow> ballot \<Rightarrow> bool" where
  "ballot_matches hash reason b \<longleftrightarrow>
     hash reason = b_reason_hash b \<and> strn_eq GVOTABLE_MAX_REASON_LEN (b_reason b) reason"

definition gvotable_ballot_find_internal :: "gv_hash \<Rightarrow> gvotable_election \<Rightarrow> string \<Rightarrow> ballot option" where
  "gvotable_ballot_find_internal hash el reason = find (ballot_matches hash reason) (el_votes el)"

text \<open>\<open>list_del\<close> of, and in-place change of, the ballot that the lookup returned.\<close>

fun ballot_del :: "(ballot \<Rightarrow> bool) \<Rightarrow> ballot list \<Rightarrow> ballot list" where
  "ballot_del P [] = []"
| "ballot_del P (b # bs) = (if P b then bs else b # ballot_del P bs)"

fun ballot_replace :: "(ballot \<Rightarrow> bool) \<Rightarrow> ballot \<Rightarrow> ballot list \<Rightarrow> ballot list" where
  "ballot_replace P b' [] = []"
| "ballot_replace P b' (b # bs) = (if P b then b' # bs else b # ballot_replace P b' bs)"

text \<open>\<open>valloc\<close> is the outcome of the allocation of the vote's memory: its address, or failure.\<close>

definition gvotable_update_ballot :: "u64 option \<Rightarrow> ballot \<Rightarrow> vote \<Rightarrow> bool \<Rightarrow> int \<times> ballot" where
  "gvotable_update_ballot valloc ballot v enabled =
     (let idx = (b_idx ballot + 1) mod VOTES_HISTORY_DEPTH;
          b1 = ballot\<lparr>b_enabled := enabled\<rparr>;
          done = (\<lambda>x. (0, b1\<lparr>b_vote := (b_vote b1)(idx := x), b_idx := idx,
                              b_num_votes := b_num_votes b1 + 1\<rparr>))
      in if b_vote_size ballot = 0 then done v
         else if b_vote ballot idx = null_vote
         then (case valloc of
                 None \<Rightarrow> (- ENOMEM, b1)
               | Some a \<Rightarrow> done (vote_memcpy (b_vote_size ballot)
                                   (Ptr a (replicate (b_vote_size ballot) 0)) v))
         else done (vote_memcpy (b_vote_size ballot) (b_vote ballot idx) v))"

text \<open>The scan for the first ballot that the new vote precedes.\<close>

fun ballot_insert :: "(vote \<Rightarrow> vote \<Rightarrow> int) \<Rightarrow> ballot \<Rightarrow> ballot list \<Rightarrow> ballot list option" where
  "ballot_insert cmp b [] = None"
| "ballot_insert cmp b (t # ts) =
     (if cmp (ballot_vote b) (ballot_vote t) < 0 then Some (b # t # ts)
      else map_option ((#) t) (ballot_insert cmp b ts))"

definition gvotable_add_ballot :: "gvotable_election \<Rightarrow> ballot \<Rightarrow> bool \<Rightarrow> gvotable_election" where
  "gvotable_add_ballot el ballot enabled =
     (if el_votes el = [] then el\<lparr>el_votes := [ballot]\<rparr>
      else case (if enabled then ballot_insert (run_cmp (el_cmp el)) ballot (el_votes el) else None) of
             Some vs \<Rightarrow> el\<lparr>el_votes := vs\<rparr>
           | None \<Rightarrow> el\<lparr>el_votes := el_votes el @ [ballot], el_num_votes := el_num_votes el + 1\<rparr>)"

definition new_ballot :: "gv_hash \<Rightarrow> gvotable_election \<Rightarrow> string \<Rightarrow> ballot" where
  "new_ballot hash el reason =
     \<lparr>b_enabled = False, b_reason_hash = hash reason, b_reason = strlcpy GVOTABLE_MAX_REASON_LEN reason,
      b_idx = 0, b_vote = (\<lambda>_. null_vote),
      b_vote_size = (if el_use_alloc el then el_vote_size el else 0), b_num_votes = 0\<rparr>"

section \<open>Voting\<close>

definition gvotable_cast_vote ::
  "gv_hash \<Rightarrow> gv_callback \<Rightarrow> bool \<Rightarrow> u64 option \<Rightarrow> gvotable_election option \<Rightarrow> string option \<Rightarrow> vote \<Rightarrow> bool
     \<Rightarrow> (int \<times> gvotable_election option) option" where
  "gvotable_cast_vote hash cb balloc valloc pel preason v enabled =
     (case (pel, preason) of
        (Some el, Some reason) \<Rightarrow>
          if reason = '''' then Some (- EINVAL, pel)
          else if el_use_alloc el \<and> v = null_vote then Some (- EINVAL, pel)
          else (case gvotable_lock_election el of
            None \<Rightarrow> None
          | Some el0 \<Rightarrow>
              let P = ballot_matches hash reason;
                  found = gvotable_ballot_find_internal hash el0 reason;
                  v' = (if el_is_bool_type el0 then Scalar (if enabled then 1 else 0) else v)
              in (case found of
                None \<Rightarrow>
                  if \<not> balloc then Some (- ENOMEM, Some (gvotable_unlock_election el0))
                  else let el1 = el0\<lparr>el_num_voters := el_num_voters el0 + 1\<rparr> in
                    (case gvotable_update_ballot valloc (new_ballot hash el0 reason) v' enabled of
                       (ret, b') \<Rightarrow>
                         if ret < 0 then Some (ret, Some (gvotable_unlock_election el1))
                         else Some (map_prod id Some
                                (run_and_notify cb ret (gvotable_add_ballot el1 b' enabled))))
              | Some b \<Rightarrow>
                  (case gvotable_update_ballot valloc b v' enabled of
                     (ret, b') \<Rightarrow>
                       let el1 = (if enabled then el0\<lparr>el_votes := ballot_del P (el_votes el0)\<rparr>
                                  else el0\<lparr>el_votes := ballot_replace P b' (el_votes el0)\<rparr>)
                       in if ret < 0 then Some (ret, Some (gvotable_unlock_election el1))
                          else Some (map_prod id Some
                                 (run_and_notify cb ret
                                   (if enabled then gvotable_add_ballot el1 b' enabled else el1))))))
      | _ \<Rightarrow> Some (- EINVAL, pel))"

definition gvotable_recast_ballot ::
  "gv_hash \<Rightarrow> gv_callback \<Rightarrow> u64 option \<Rightarrow> gvotable_election \<Rightarrow> string \<Rightarrow> bool
     \<Rightarrow> (int \<times> gvotable_election) option" where
  "gvotable_recast_ballot hash cb valloc el reason enabled =
     (case gvotable_lock_election el of
        None \<Rightarrow> None
      | Some el0 \<Rightarrow>
          (case gvotable_ballot_find_internal hash el0 reason of
             None \<Rightarrow> Some (- EINVAL, gvotable_unlock_election el0)
           | Some b \<Rightarrow>
               let el1 = el0\<lparr>el_votes := ballot_del (ballot_matches hash reason) (el_votes el0)\<rparr> in
               (case gvotable_update_ballot valloc b (ballot_vote b) enabled of
                  (ret, b') \<Rightarrow>
                    if ret < 0 then Some (ret, gvotable_unlock_election el1)
                    else Some (run_and_notify cb ret (gvotable_add_ballot el1 b' enabled)))))"

definition gvotable_run_election ::
  "gv_callback \<Rightarrow> gvotable_election \<Rightarrow> bool \<Rightarrow> (int \<times> gvotable_election) option" where
  "gvotable_run_election cb el force_callback =
     (case gvotable_lock_election el of
        None \<Rightarrow> None
      | Some el0 \<Rightarrow>
          (case gvotable_internal_run_election el0 of
             (callback, el1) \<Rightarrow>
               let el2 = gvotable_unlock_result el1 in
               (case (if \<not> el_callback el2 then (0, el2)
                      else if el_force_result_is_enabled el2
                        then cb el2 (Some DEBUGFS_FORCE_VOTE_REASON) (el_force_result el2)
                      else if callback \<or> force_callback then gvotable_run_callback cb el2
                      else (0, el2)) of
                  (ret, el3) \<Rightarrow> Some (ret, gvotable_unlock_callback el3))))"

definition gvotable_election_set_result ::
  "gvotable_election option \<Rightarrow> string option \<Rightarrow> vote \<Rightarrow> int \<times> gvotable_election option" where
  "gvotable_election_set_result pel preason res =
     (case (pel, preason) of
        (Some el, Some reason) \<Rightarrow>
          if reason = '''' then (- EINVAL, pel)
          else if el_use_alloc el \<and> res = null_vote then (- EINVAL, pel)
          else if el_cmp el \<noteq> Cmp_none then (- EINVAL, pel)
          else (0, Some (gvotable_internal_update_result (gvotable_internal_update_reason el reason) res))
      | _ \<Rightarrow> (- EINVAL, pel))"

subsection \<open>Default vote\<close>

text \<open>
  When the default changes and the election decides that no callback is needed, the result lock
  is not released on this path of the source.
\<close>

definition gvotable_set_default ::
  "gv_callback \<Rightarrow> gvotable_election option \<Rightarrow> vote \<Rightarrow> (int \<times> gvotable_election option) option" where
  "gvotable_set_default cb pel default_val =
     (case pel of
        None \<Rightarrow> Some (- EINVAL, None)
      | Some el \<Rightarrow>
          if el_is_bool_type el then Some (- EINVAL, pel)
          else (case gvotable_lock_election el of
            None \<Rightarrow> None
          | Some el0 \<Rightarrow>
              let changed = el_has_default_vote el0 = 1 \<and> el_default_vote el0 \<noteq> default_val;
                  el1 = el0\<lparr>el_default_vote := default_val\<rparr>
              in (case (if changed
                        then (case gvotable_internal_run_election el1 of
                                (True, el2) \<Rightarrow> gvotable_run_callback cb (gvotable_unlock_result el2)
                              | (False, el2) \<Rightarrow> (0, el2))
                        else (0, gvotable_unlock_result el1)) of
                    (ret, el3) \<Rightarrow>
                      Some (ret, Some (gvotable_unlock_callback (el3\<lparr>el_has_default_vote := 1\<rparr>))))))"

definition gvotable_get_default ::
  "gvotable_election option \<Rightarrow> vote \<Rightarrow> (int \<times> vote \<times> gvotable_election option) option" where
  "gvotable_get_default pel res =
     (case pel of
        None \<Rightarrow> Some (- EINVAL, res, None)
      | Some el \<Rightarrow>
          if el_has_default_vote el = 0 then Some (- EINVAL, res, pel)
          else (case gvotable_lock_election el of
            None \<Rightarrow> None
          | Some el0 \<Rightarrow> Some (0, gvotable_internal_copy_result el0 res (el_default_vote el0),
                              Some (gvotable_unlock_election el0))))"

definition gvotable_use_default ::
  "gv_callback \<Rightarrow> gvotable_election option \<Rightarrow> bool \<Rightarrow> (int \<times> gvotable_election option) option" where
  "gvotable_use_default cb pel default_is_enabled =
     (case pel of
        None \<Rightarrow> Some (- EINVAL, None)
      | Some el \<Rightarrow>
          if el_is_bool_type el then Some (- EINVAL, pel)
          else (case gvotable_lock_election el of
            None \<Rightarrow> None
          | Some el0 \<Rightarrow>
              Some (map_prod id Some
                (run_and_notify cb 0
                  (el0\<lparr>el_has_default_vote := (if default_is_enabled then 1 else 0)\<rparr>)))))"

subsection \<open>Queries\<close>

definition gvotable_get_data :: "gvotable_election option \<Rightarrow> nat option" where
  "gvotable_get_data pel = map_option el_data pel"

definition gvotable_get_current_result_unlocked :: "gvotable_election \<Rightarrow> int + vote" where
  "gvotable_get_current_result_unlocked el =
     (if el_force_result_is_enabled el then Inr (el_force_result el)
      else if el_result_is_valid el then Inr (el_result el)
      else Inl (- EAGAIN))"

definition gvotable_get_current_vote :: "gvotable_election option \<Rightarrow> bool \<Rightarrow> (int + vote) option" where
  "gvotable_get_current_vote pel has_vote =
     (case pel of
        None \<Rightarrow> Some (Inl (- EINVAL))
      | Some el \<Rightarrow>
          if \<not> has_vote then Some (Inl (- EINVAL))
          else (case gvotable_lock_result el of
                  None \<Rightarrow> None
                | Some el0 \<Rightarrow> Some (gvotable_get_current_result_unlocked el0)))"

definition gvotable_get_current_int_vote :: "gvotable_election option \<Rightarrow> int option" where
  "gvotable_get_current_int_vote pel =
     map_option (\<lambda>r. case r of Inl e \<Rightarrow> e | Inr v \<Rightarrow> vote_int v) (gvotable_get_current_vote pel True)"

definition gvotable_copy_current_result ::
  "gvotable_election option \<Rightarrow> vote \<Rightarrow> nat \<Rightarrow> (int \<times> vote) option" where
  "gvotable_copy_current_result pel dst vote_size =
     (case pel of
        None \<Rightarrow> Some (- EINVAL, dst)
      | Some el \<Rightarrow>
          if dst = null_vote then Some (- EINVAL, dst)
          else if vote_size \<noteq> el_vote_size el then Some (- ERANGE, dst)
          else (case gvotable_lock_result el of
                  None \<Rightarrow> None
                | Some el0 \<Rightarrow>
                    (case gvotable_get_current_result_unlocked el0 of
                       Inl e \<Rightarrow> Some (e, dst)
                     | Inr v \<Rightarrow> Some (0, vote_memcpy vote_size dst v))))"

text \<open>The length that \<open>strlcpy\<close> returns is that of its source; the buffer gets a truncated copy.\<close>

definition gvotable_get_current_reason_unlocked :: "gvotable_election \<Rightarrow> nat \<Rightarrow> int \<times> string option" where
  "gvotable_get_current_reason_unlocked el max_len =
     (if el_force_result_is_enabled el
      then (int (length DEBUGFS_FORCE_VOTE_REASON), Some (strlcpy max_len DEBUGFS_FORCE_VOTE_REASON))
      else if el_result_is_valid el
      then (int (length (el_reason el)), Some (strlcpy max_len (el_reason el)))
      else (- EAGAIN, None))"

definition gvotable_get_current_reason ::
  "gvotable_election option \<Rightarrow> bool \<Rightarrow> nat \<Rightarrow> (int \<times> string option) option" where
  "gvotable_get_current_reason pel has_reason max_len =
     (case pel of
        None \<Rightarrow> Some (- EINVAL, None)
      | Some el \<Rightarrow>
          if \<not> has_reason then Some (- EINVAL, None)
          else (case gvotable_lock_result el of
                  None \<Rightarrow> None
                | Some el0 \<Rightarrow> Some (gvotable_get_current_reason_unlocked el0 max_len)))"

text \<open>Result code and, when it is stored, the value of \<open>*vote\<close>.\<close>

definition gvotable_get_vote ::
  "gv_hash \<Rightarrow> gvotable_election option \<Rightarrow> string option \<Rightarrow> bool \<Rightarrow> (int \<times> vote option) option" where
  "gvotable_get_vote hash pel preason has_vote =
     (case (pel, preason) of
        (Some el, Some reason) \<Rightarrow>
          if \<not> has_vote then Some (- EINVAL, None)
          else (case gvotable_lock_result el of
                  None \<Rightarrow> None
                | Some el0 \<Rightarrow>
                    (case gvotable_ballot_find_internal hash el0 reason of
                       None \<Rightarrow> Some (if el_is_bool_type el0 then 0 else - ENODEV, Some null_vote)
                     | Some b \<Rightarrow>
                         if \<not> el_is_bool_type el0 \<and> \<not> b_enabled b then Some (- EINVAL, None)
                         else Some (0, Some (ballot_vote b))))
      | _ \<Rightarrow> Some (- EINVAL, None))"

definition gvotable_get_int_vote :: "gv_hash \<Rightarrow> gvotable_election option \<Rightarrow> string option \<Rightarrow> int option" where
  "gvotable_get_int_vote hash pel preason =
     map_option (\<lambda>(ret, v). if ret \<noteq> 0 then ret else vote_int (case v of Some x \<Rightarrow> x | None \<Rightarrow> null_vote))
       (gvotable_get_vote hash pel preason True)"

definition gvotable_is_enabled ::
  "gv_hash \<Rightarrow> gvotable_election option \<Rightarrow> string option \<Rightarrow> bool \<Rightarrow> (int \<times> bool option) option" where
  "gvotable_is_enabled hash pel preason has_enabled =
     (case (pel, preason) of
        (Some el, Some reason) \<Rightarrow>
          if \<not> has_enabled then Some (- EINVAL, None)
          else (case gvotable_lock_result el of
                  None \<Rightarrow> None
                | Some el0 \<Rightarrow>
                    (case gvotable_ballot_find_internal hash el0 reason of
                       None \<Rightarrow> Some (- ENODEV, None)
                     | Some b \<Rightarrow> Some (0, Some (b_enabled b))))
      | _ \<Rightarrow> Some (- EINVAL, None))"

text \<open>Visiting the enabled ballots: the visitor returns a code and its own state.\<close>

fun for_each_ballot :: "('d \<Rightarrow> string \<Rightarrow> vote \<Rightarrow> int \<times> 'd) \<Rightarrow> 'd \<Rightarrow> int \<Rightarrow> ballot list \<Rightarrow> int \<times> 'd" where
  "for_each_ballot f d ret [] = (ret, d)"
| "for_each_ballot f d ret (b # bs) =
     (if \<not> b_enabled b then for_each_ballot f d ret bs
      else case f d (b_reason b) (ballot_vote b) of
             (r, d') \<Rightarrow> if r < 0 then (r, d') else for_each_ballot f d' r bs)"

definition gvotable_election_for_each ::
  "gvotable_election \<Rightarrow> ('d \<Rightarrow> string \<Rightarrow> vote \<Rightarrow> int \<times> 'd) \<Rightarrow> 'd \<Rightarrow> (int \<times> 'd) option" where
  "gvotable_election_for_each el f d =
     (if el_force_result_is_enabled el
      then Some (f d DEBUGFS_FORCE_VOTE_REASON (el_force_result el))
      else (case gvotable_lock_result el of
              None \<Rightarrow> None
            | Some el0 \<Rightarrow> Some (for_each_ballot f d 0 (el_votes el0))))"

subsection \<open>Debug interface that changes an election\<close>

definition debugfs_cast_int_vote ::
  "gv_hash \<Rightarrow> gv_callback \<Rightarrow> bool \<Rightarrow> u64 option \<Rightarrow> gvotable_election \<Rightarrow> u64
     \<Rightarrow> (int \<times> gvotable_election option) option" where
  "debugfs_cast_int_vote hash cb balloc valloc el val =
     (case gvotable_is_enabled hash (Some el) (Some DEBUGFS_CAST_VOTE_REASON) True of
        None \<Rightarrow> None
      | Some (_, en) \<Rightarrow>
          gvotable_cast_vote hash cb balloc valloc (Some el) (Some DEBUGFS_CAST_VOTE_REASON) (Scalar val)
            (case en of None \<Rightarrow> False | Some e \<Rightarrow> e))"

definition debugfs_force_int_value ::
  "gv_callback \<Rightarrow> gvotable_election \<Rightarrow> u64 \<Rightarrow> (int \<times> gvotable_election) option" where
  "debugfs_force_int_value cb el val =
     (let pre_val = vote_word (el_force_result el) in
      case gvotable_lock_election el of
        None \<Rightarrow> None
      | Some el0 \<Rightarrow>
          let el1 = gvotable_unlock_result (el0\<lparr>el_force_result := Scalar val\<rparr>) in
          (case (if el_callback el1 \<and> el_force_result_is_enabled el1 \<and> pre_val \<noteq> val
                 then cb el1 (Some DEBUGFS_FORCE_VOTE_REASON) (el_force_result el1) else (0, el1)) of
             (ret, el2) \<Rightarrow> Some (ret, gvotable_unlock_callback el2)))"

definition debugfs_force_int_active ::
  "gv_callback \<Rightarrow> gvotable_election \<Rightarrow> u64 \<Rightarrow> (int \<times> gvotable_election) option" where
  "debugfs_force_int_active cb el val =
     (case gvotable_lock_election el of
        None \<Rightarrow> None
      | Some el0 \<Rightarrow>
          let el1 = gvotable_unlock_result (el0\<lparr>el_force_result_is_enabled := (val \<noteq> 0)\<rparr>) in
          (case (if \<not> el_callback el1 then (0, el1)
                 else if el_force_result_is_enabled el1
                   then cb el1 (Some DEBUGFS_FORCE_VOTE_REASON) (el_force_result el1)
                 else gvotable_run_callback cb el1) of
             (ret, el2) \<Rightarrow> Some (ret, gvotable_unlock_callback el2)))"

end
