(* ===== verification/Gvotable_Votes.thy ===== *)
theory Gvotable_Votes
  imports Gvotable
begin

text \<open>
  The list of ballots of an election: the order in which the comparators keep it, the tally (a map
  from reasons to votes) it stands for, and how adding, removing, replacing and casting a ballot
  change both. What the election relies on in a comparator is the locale \<open>vote_comparator\<close>,
  interpreted on the comparators of the source.
\<close>

section \<open>Ordered ballots\<close>

text \<open>
  The order the ballots are kept in: a ballot may stand before an enabled one only if its key is
  not greater. Disabled ballots may stand anywhere in front of enabled ballots of greater keys.
\<close>

definition ballots_ordered :: "(vote \<Rightarrow> 'k::linorder) \<Rightarrow> ballot list \<Rightarrow> bool" where
  "ballots_ordered key bs \<longleftrightarrow>
     sorted_wrt (\<lambda>x y. b_enabled y \<longrightarrow> key (ballot_vote x) \<le> key (ballot_vote y)) bs"

lemma ballot_insert_set: "ballot_insert cmp b bs = Some bs' \<Longrightarrow> set bs' = insert b (set bs)"
  by (induction bs arbitrary: bs') (auto split: if_splits)

lemma ballot_del_subset: "set (ballot_del P bs) \<subseteq> set bs"
  by (induction bs) auto

lemma ballots_ordered_del: "ballots_ordered key bs \<Longrightarrow> ballots_ordered key (ballot_del P bs)"
proof (induction bs)
  case (Cons a bs)
  then show ?case using ballot_del_subset [of P bs] by (auto simp: ballots_ordered_def)
qed (simp add: ballots_ordered_def)

lemma ballots_ordered_snoc:
  "ballots_ordered key bs \<Longrightarrow> (b_enabled b \<Longrightarrow> \<forall>x \<in> set bs. key (ballot_vote x) \<le> key (ballot_vote b)) \<Longrightarrow>
     ballots_ordered key (bs @ [b])"
  by (auto simp: ballots_ordered_def sorted_wrt_append)

lemma ballots_ordered_replace:
  assumes "ballots_ordered key bs" "\<not> b_enabled b'"
    "\<And>b. find P bs = Some b \<Longrightarrow> key (ballot_vote b') \<le> key (ballot_vote b)"
  shows "ballots_ordered key (ballot_replace P b' bs)"
  using assms
proof (induction bs)
  case Nil
  then show ?case by (simp add: ballots_ordered_def)
next
  case (Cons a bs)
  have sub: "set (ballot_replace P b' bs) \<subseteq> insert b' (set bs)" by (induction bs) auto
  show ?case
  proof (cases "P a")
    case True
    then have "key (ballot_vote b') \<le> key (ballot_vote a)" using Cons.prems(3) [of a] by simp
    then show ?thesis using True Cons.prems(1) by (auto simp: ballots_ordered_def intro: order.trans)
  next
    case False
    have "ballots_ordered key (ballot_replace P b' bs)"
      using Cons False by (auto simp: ballots_ordered_def)
    then show ?thesis using False Cons.prems(1,2) sub by (auto simp: ballots_ordered_def)
  qed
qed

lemma ballots_ordered_first:
  assumes "ballots_ordered key bs" "find b_enabled bs = Some b" "y \<in> set bs" "b_enabled y"
  shows "key (ballot_vote b) \<le> key (ballot_vote y)"
  using assms by (induction bs) (auto simp: ballots_ordered_def split: if_splits)

text \<open>What the election relies on in a comparator: it compares the keys of a linear order.\<close>

locale vote_comparator =
  fixes cmp :: "vote \<Rightarrow> vote \<Rightarrow> int" and key :: "vote \<Rightarrow> 'k::linorder"
  assumes cmp_less: "cmp a b < 0 \<longleftrightarrow> key a < key b"
    and cmp_zero: "cmp a b = 0 \<longleftrightarrow> key a = key b"
begin

lemma insert_None: "ballot_insert cmp b bs = None \<Longrightarrow> x \<in> set bs \<Longrightarrow> key (ballot_vote x) \<le> key (ballot_vote b)"
  by (induction bs) (auto simp: cmp_less not_less split: if_splits)

lemma insert_ordered:
  "ballots_ordered key bs \<Longrightarrow> ballot_insert cmp b bs = Some bs' \<Longrightarrow> ballots_ordered key bs'"
proof (induction bs arbitrary: bs')
  case Nil
  then show ?case by simp
next
  case (Cons a bs)
  show ?case
  proof (cases "cmp (ballot_vote b) (ballot_vote a) < 0")
    case True
    then have "key (ballot_vote b) \<le> key (ballot_vote a)" by (simp add: cmp_less)
    then show ?thesis using True Cons.prems by (auto simp: ballots_ordered_def) (meson order.trans)
  next
    case False
    then obtain bs'' where bs'': "ballot_insert cmp b bs = Some bs''" "bs' = a # bs''" using Cons.prems by auto
    with Cons have "ballots_ordered key bs''" by (auto simp: ballots_ordered_def)
    then show ?thesis
      using Cons.prems(1) False ballot_insert_set [OF bs''(1)]
      by (auto simp: ballots_ordered_def bs''(2) cmp_less not_less)
  qed
qed

end

interpretation int_min: vote_comparator "run_cmp Cmp_int_min" vote_int
  by unfold_locales (auto simp: gvotable_comparator_int_min_def gvotable_comparator_int_def)

interpretation int_max: vote_comparator "run_cmp Cmp_int_max" "\<lambda>v. - vote_int v"
  by unfold_locales (auto simp: gvotable_comparator_int_max_def gvotable_comparator_int_def)

interpretation uint_max: vote_comparator "run_cmp Cmp_uint_max" "\<lambda>v. int (vote_uint v)"
  by unfold_locales (auto simp: gvotable_comparator_uint_max_def)

interpretation uint_min: vote_comparator "run_cmp Cmp_uint_min" "\<lambda>v. - int (vote_uint v)"
  by unfold_locales (auto simp: gvotable_comparator_uint_min_def gvotable_comparator_uint_max_def)

section \<open>The tally of an election\<close>

text \<open>
  The abstract election: a finite map from reasons to a value and whether it is enabled.
\<close>

definition votes_tally :: "ballot list \<Rightarrow> string \<Rightarrow> (vote \<times> bool) option" where
  "votes_tally bs = map_of (map (\<lambda>b. (b_reason b, (ballot_vote b, b_enabled b))) bs)"

abbreviation (input) tally :: "gvotable_election \<Rightarrow> string \<Rightarrow> (vote \<times> bool) option" where
  "tally el \<equiv> votes_tally (el_votes el)"

definition ballot_wf :: "gv_hash \<Rightarrow> ballot \<Rightarrow> bool" where
  "ballot_wf hash b \<longleftrightarrow> b_reason_hash b = hash (b_reason b) \<and> length (b_reason b) < GVOTABLE_MAX_REASON_LEN
     \<and> b_vote_size b = 0"

definition election_wf :: "gv_hash \<Rightarrow> gvotable_election \<Rightarrow> bool" where
  "election_wf hash el \<longleftrightarrow> \<not> el_use_alloc el \<and> distinct (map b_reason (el_votes el))
     \<and> (\<forall>b \<in> set (el_votes el). ballot_wf hash b)"

definition unlocked :: "gvotable_election \<Rightarrow> bool" where
  "unlocked el \<longleftrightarrow> \<not> el_cb_lock el \<and> \<not> el_re_lock el"

lemma ballot_matches_wf:
  "ballot_wf hash b \<Longrightarrow> ballot_matches hash reason b \<longleftrightarrow> b_reason b = reason"
  by (auto simp: ballot_wf_def ballot_matches_def strn_eq_short)

lemma votes_tally_simps [simp]:
  "votes_tally [] = Map.empty"
  "votes_tally (b # bs) = (votes_tally bs)(b_reason b \<mapsto> (ballot_vote b, b_enabled b))"
  by (auto simp: votes_tally_def)

lemma votes_tally_append: "votes_tally (xs @ ys) = votes_tally ys ++ votes_tally xs"
  by (simp add: votes_tally_def)

lemma votes_tally_None: "votes_tally bs r = None \<longleftrightarrow> r \<notin> b_reason ` set bs"
  by (auto simp: votes_tally_def map_of_eq_None_iff image_image)

lemma ballot_insert_tally:
  "b_reason b \<notin> b_reason ` set bs \<Longrightarrow> ballot_insert cmp b bs = Some bs' \<Longrightarrow>
     votes_tally bs' = (votes_tally bs)(b_reason b \<mapsto> (ballot_vote b, b_enabled b))"
  by (induction bs arbitrary: bs') (auto split: if_splits simp: fun_upd_twist)

lemma snoc_tally:
  "b_reason b \<notin> b_reason ` set bs \<Longrightarrow>
     votes_tally (bs @ [b]) = (votes_tally bs)(b_reason b \<mapsto> (ballot_vote b, b_enabled b))"
  by (induction bs) (auto simp: fun_upd_twist)

lemma ballot_insert_reasons:
  "ballot_insert cmp b bs = Some bs' \<Longrightarrow> image_mset b_reason (mset bs') = add_mset (b_reason b) (image_mset b_reason (mset bs))"
  by (induction bs arbitrary: bs') (auto split: if_splits)

subsection \<open>Adding, removing and replacing a ballot\<close>

definition add_votes :: "(vote \<Rightarrow> vote \<Rightarrow> int) \<Rightarrow> ballot list \<Rightarrow> ballot \<Rightarrow> bool \<Rightarrow> ballot list" where
  "add_votes cmp vs b enabled =
     (if vs = [] then [b]
      else case (if enabled then ballot_insert cmp b vs else None) of Some vs' \<Rightarrow> vs' | None \<Rightarrow> vs @ [b])"

lemma add_ballot_frame:
  "\<exists>n. gvotable_add_ballot el b en = el\<lparr>el_votes := add_votes (run_cmp (el_cmp el)) (el_votes el) b en, el_num_votes := n\<rparr>"
  by (cases "if en then ballot_insert (run_cmp (el_cmp el)) b (el_votes el) else None")
     (auto simp: gvotable_add_ballot_def add_votes_def intro: exI [of _ "el_num_votes el"])

lemma add_votes_reasons:
  "mset (map b_reason (add_votes cmp vs b en)) = add_mset (b_reason b) (mset (map b_reason vs))"
  "set (add_votes cmp vs b en) = insert b (set vs)"
  by (auto simp: add_votes_def ballot_insert_reasons ballot_insert_set split: option.splits if_splits)

lemma distinct_add_votes:
  "distinct (map b_reason vs) \<Longrightarrow> b_reason b \<notin> b_reason ` set vs \<Longrightarrow> distinct (map b_reason (add_votes cmp vs b en))"
proof -
  assume d: "distinct (map b_reason vs)" "b_reason b \<notin> b_reason ` set vs"
  have "mset (map b_reason (add_votes cmp vs b en)) = mset (b_reason b # map b_reason vs)"
    by (subst add_votes_reasons(1)) simp
  from mset_eq_imp_distinct_iff [OF this] d show ?thesis by simp
qed

lemma add_votes_tally:
  "b_reason b \<notin> b_reason ` set vs \<Longrightarrow>
     votes_tally (add_votes cmp vs b en) = (votes_tally vs)(b_reason b \<mapsto> (ballot_vote b, b_enabled b))"
  by (auto simp: add_votes_def ballot_insert_tally snoc_tally split: option.splits if_splits)

context vote_comparator
begin

lemma add_votes_ordered:
  "ballots_ordered key vs \<Longrightarrow> b_enabled b = en \<Longrightarrow> ballots_ordered key (add_votes cmp vs b en)"
  by (auto simp: add_votes_def insert_ordered insert_None intro!: ballots_ordered_snoc
      split: option.splits if_splits) (simp_all add: ballots_ordered_def)

end

lemma ballot_del_effect:
  assumes "distinct (map b_reason vs)" "\<And>b. b \<in> set vs \<Longrightarrow> P b \<longleftrightarrow> b_reason b = r"
  shows "ballot_del P vs = filter (\<lambda>b. b_reason b \<noteq> r) vs"
  using assms
proof (induction vs)
  case (Cons a vs)
  show ?case
  proof (cases "b_reason a = r")
    case True
    then have "filter (\<lambda>b. b_reason b \<noteq> r) vs = vs" using Cons.prems(1) by (auto simp: filter_id_conv image_iff)
    then show ?thesis using True Cons.prems by simp
  qed (use Cons in auto)
qed simp

lemma filter_tally: "votes_tally (filter (\<lambda>b. b_reason b \<noteq> r) vs) = (votes_tally vs)(r := None)"
  by (induction vs) (auto simp: fun_upd_twist)

lemma ballot_replace_effect:
  assumes "distinct (map b_reason vs)" "\<And>b. b \<in> set vs \<Longrightarrow> P b \<longleftrightarrow> b_reason b = r"
    and "r \<in> b_reason ` set vs" and "b_reason b' = r"
  shows "map b_reason (ballot_replace P b' vs) = map b_reason vs"
    and "votes_tally (ballot_replace P b' vs) = (votes_tally vs)(r \<mapsto> (ballot_vote b', b_enabled b'))"
    and "set (ballot_replace P b' vs) \<subseteq> insert b' (set vs)"
  using assms by (induction vs) (auto simp: fun_upd_twist)

section \<open>Running an election\<close>

lemma run_election_fields:
  "el\<lparr>el_result := el_result (snd (gvotable_internal_run_election el)),
      el_reason := el_reason (snd (gvotable_internal_run_election el)),
      el_result_is_valid := el_result_is_valid (snd (gvotable_internal_run_election el))\<rparr>
   = snd (gvotable_internal_run_election el)"
  by (simp add: gvotable_internal_run_election_def Let_def gvotable_internal_update_reason_def
      gvotable_internal_update_result_def split: option.split)

lemma run_election_frame:
  "\<exists>x y z. snd (gvotable_internal_run_election el) = el\<lparr>el_result := x, el_reason := y, el_result_is_valid := z\<rparr>"
  using run_election_fields [of el, symmetric] by blast

text \<open>A callback that does not vote itself leaves the election as it is.\<close>

definition passive_callback :: "gv_callback \<Rightarrow> bool" where
  "passive_callback cb \<longleftrightarrow> (\<forall>e r x. snd (cb e r x) = e)"

lemma run_and_notify_passive:
  assumes "passive_callback cb"
  shows "snd (run_and_notify cb ret el) = gvotable_unlock_election (snd (gvotable_internal_run_election el))"
proof -
  obtain c el1 where r: "gvotable_internal_run_election el = (c, el1)" by fastforce
  have "snd (gvotable_run_callback cb e) = e" for e using assms by (simp add: gvotable_run_callback_def passive_callback_def)
  then show ?thesis
    by (cases c) (auto simp: run_and_notify_def r gvotable_unlock_election_def split: prod.splits, metis snd_conv)
qed

section \<open>Casting a vote\<close>

definition upd_ballot :: "ballot \<Rightarrow> vote \<Rightarrow> bool \<Rightarrow> ballot" where
  "upd_ballot b v en = snd (gvotable_update_ballot None b v en)"

lemma update_ballot_scalar:
  assumes "b_vote_size b = 0"
  shows "gvotable_update_ballot a b v en = (0, upd_ballot b v en)"
    and "ballot_vote (upd_ballot b v en) = v" "b_enabled (upd_ballot b v en) = en"
    "b_reason (upd_ballot b v en) = b_reason b" "b_reason_hash (upd_ballot b v en) = b_reason_hash b"
    "b_vote_size (upd_ballot b v en) = 0"
  using assms by (simp_all add: upd_ballot_def gvotable_update_ballot_def Let_def VOTES_HISTORY_DEPTH_def ballot_vote_def)

definition cast_votes ::
  "(ballot \<Rightarrow> bool) \<Rightarrow> (vote \<Rightarrow> vote \<Rightarrow> int) \<Rightarrow> ballot list \<Rightarrow> ballot \<Rightarrow> vote \<Rightarrow> bool \<Rightarrow> ballot list" where
  "cast_votes P cmp vs nb v en =
     (case find P vs of
        None \<Rightarrow> add_votes cmp vs (upd_ballot nb v en) en
      | Some b \<Rightarrow> if en then add_votes cmp (ballot_del P vs) (upd_ballot b v en) en
                  else ballot_replace P (upd_ballot b v en) vs)"

lemma find_matches:
  assumes "distinct (map b_reason vs)" "\<And>b. b \<in> set vs \<Longrightarrow> P b \<longleftrightarrow> b_reason b = r"
  shows "find P vs = None \<longleftrightarrow> r \<notin> b_reason ` set vs"
    and "find P vs = Some b \<Longrightarrow> b \<in> set vs \<and> b_reason b = r"
  using assms(2) by (auto simp: find_None_iff find_Some_iff)

lemma cast_votes_effect:
  assumes d: "distinct (map b_reason vs)" and m: "\<And>b. b \<in> set vs \<Longrightarrow> P b \<longleftrightarrow> b_reason b = r"
    and wf: "\<forall>b \<in> set vs. ballot_wf hash b" "ballot_wf hash nb" "b_reason nb = r"
  shows "votes_tally (cast_votes P cmp vs nb v en) = (votes_tally vs)(r \<mapsto> (v, en))"
    and "distinct (map b_reason (cast_votes P cmp vs nb v en))"
    and "\<forall>b \<in> set (cast_votes P cmp vs nb v en). ballot_wf hash b"
proof -
  have u: "ballot_wf hash (upd_ballot b v en)" if "ballot_wf hash b" for b
    using that by (simp add: ballot_wf_def update_ballot_scalar)
  have goal: "votes_tally (cast_votes P cmp vs nb v en) = (votes_tally vs)(r \<mapsto> (v, en))
     \<and> distinct (map b_reason (cast_votes P cmp vs nb v en))
     \<and> (\<forall>b \<in> set (cast_votes P cmp vs nb v en). ballot_wf hash b)"
  proof (cases "find P vs")
    case None
    then have r: "r \<notin> b_reason ` set vs" using find_matches(1) [OF d m] by simp
    have "distinct (map b_reason (add_votes cmp vs (upd_ballot nb v en) en))"
      by (rule distinct_add_votes) (use d r wf in \<open>auto simp: ballot_wf_def update_ballot_scalar\<close>)
    then show ?thesis
      using None r wf u [OF wf(2)]
      by (auto simp: cast_votes_def add_votes_tally add_votes_reasons(2) ballot_wf_def update_ballot_scalar)
  next
    case (Some b)
    then have b: "b \<in> set vs" "b_reason b = r" using find_matches(2) [OF d m] by auto
    then have bw: "ballot_wf hash b" "b_vote_size b = 0" using wf(1) by (auto simp: ballot_wf_def)
    show ?thesis
    proof (cases en)
      case True
      have del: "ballot_del P vs = filter (\<lambda>b. b_reason b \<noteq> r) vs" by (rule ballot_del_effect [OF d m])
      have "distinct (map b_reason (add_votes cmp (ballot_del P vs) (upd_ballot b v en) en))"
        by (rule distinct_add_votes) (use d b bw in \<open>auto simp: del distinct_map_filter update_ballot_scalar\<close>)
      moreover have "b_reason (upd_ballot b v en) \<notin> b_reason ` set (ballot_del P vs)"
        using b bw by (auto simp: del update_ballot_scalar)
      note add_votes_tally [OF this, of cmp en]
      ultimately show ?thesis
        using Some True b bw wf(1) u [OF bw(1)]
        by (auto simp: cast_votes_def add_votes_reasons(2) del filter_tally update_ballot_scalar)
    next
      case False
      have r: "r \<in> b_reason ` set vs" using b by auto
      have ub: "b_reason (upd_ballot b v en) = r" using b bw by (simp add: update_ballot_scalar)
      note e = ballot_replace_effect [OF d m r ub]
      show ?thesis using Some False e d wf(1) u [OF bw(1)] bw(2)
        by (auto simp: cast_votes_def update_ballot_scalar)
    qed
  qed
  then show "votes_tally (cast_votes P cmp vs nb v en) = (votes_tally vs)(r \<mapsto> (v, en))"
    and "distinct (map b_reason (cast_votes P cmp vs nb v en))"
    and "\<forall>b \<in> set (cast_votes P cmp vs nb v en). ballot_wf hash b" by blast+
qed

context vote_comparator
begin

lemma cast_votes_ordered:
  assumes o: "ballots_ordered key vs" and wf: "\<forall>b \<in> set vs. b_vote_size b = 0" "b_vote_size nb = 0"
    and dis: "\<And>b. \<not> en \<Longrightarrow> find P vs = Some b \<Longrightarrow> key v \<le> key (ballot_vote b)"
  shows "ballots_ordered key (cast_votes P cmp vs nb v en)"
proof (cases "find P vs")
  case None
  then show ?thesis using o wf by (simp add: cast_votes_def add_votes_ordered update_ballot_scalar)
next
  case (Some b)
  then have "b_vote_size b = 0" using wf by (auto simp: find_Some_iff)
  then show ?thesis using Some o dis
    by (auto simp: cast_votes_def update_ballot_scalar intro!: add_votes_ordered ballots_ordered_del ballots_ordered_replace)
qed

end

end
