(* ===== verification/Gvotable_Elections.thy ===== *)
theory Gvotable_Elections
  imports Gvotable_Votes
begin

text \<open>
  What a cast vote does to an election: its ballots, the state in which the election runs, the
  result it decides, and sequences of casts. The decision is proved once for every comparator
  that meets the locale \<open>vote_comparator\<close>.
\<close>

section \<open>Casting into an election\<close>

definition vote_value :: "gvotable_election \<Rightarrow> vote \<Rightarrow> bool \<Rightarrow> vote" where
  "vote_value el v en = (if el_is_bool_type el then Scalar (if en then 1 else 0) else v)"

lemma lock_unlocked:
  "unlocked el \<Longrightarrow> gvotable_lock_election el = Some (el\<lparr>el_cb_lock := True, el_owner := True, el_re_lock := True\<rparr>)"
  by (simp add: unlocked_def gvotable_lock_election_def gvotable_lock_result_def)

lemma unlock_election_unlocked [simp]:
  "unlocked (gvotable_unlock_election el)" "unlocked (gvotable_unlock_callback (gvotable_unlock_result el))"
  by (simp_all add: unlocked_def gvotable_unlock_election_def gvotable_unlock_callback_def gvotable_unlock_result_def)

lemma new_ballot_wf:
  "length reason < GVOTABLE_MAX_REASON_LEN \<Longrightarrow> \<not> el_use_alloc el \<Longrightarrow>
     ballot_wf hash (new_ballot hash el reason) \<and> b_reason (new_ballot hash el reason) = reason"
  by (simp add: ballot_wf_def new_ballot_def)

lemma find_wf_size:
  "election_wf hash el \<Longrightarrow> find P (el_votes el) = Some b \<Longrightarrow> b_vote_size b = 0"
  by (auto simp: election_wf_def ballot_wf_def find_Some_iff)

text \<open>The state in which \<open>gvotable_cast_vote\<close> runs the election, up to its two counters.\<close>

definition cast_state ::
  "gv_hash \<Rightarrow> gvotable_election \<Rightarrow> string \<Rightarrow> vote \<Rightarrow> bool \<Rightarrow> u32 \<Rightarrow> u32 \<Rightarrow> gvotable_election" where
  "cast_state hash el reason v en n m =
     el\<lparr>el_cb_lock := True, el_owner := True, el_re_lock := True, el_num_voters := n,
        el_votes := cast_votes (ballot_matches hash reason) (run_cmp (el_cmp el)) (el_votes el)
                      (new_ballot hash el reason) (vote_value el v en) en, el_num_votes := m\<rparr>"

lemma cast_vote_runs:
  assumes wf: "election_wf hash el" and u: "unlocked el" and r: "reason \<noteq> ''''"
  shows "\<exists>n m. gvotable_cast_vote hash cb True va (Some el) (Some reason) v en =
     Some (map_prod id Some (run_and_notify cb 0 (cast_state hash el reason v en n m)))"
proof -
  let ?P = "ballot_matches hash reason" and ?v = "vote_value el v en"
  let ?l = "el\<lparr>el_cb_lock := True, el_owner := True, el_re_lock := True\<rparr>"
  have a: "\<not> el_use_alloc el" using wf by (simp add: election_wf_def)
  have nb: "new_ballot hash ?l reason = new_ballot hash el reason" "b_vote_size (new_ballot hash el reason) = 0"
    using a by (simp_all add: new_ballot_def)
  note cast = gvotable_cast_vote_def r a lock_unlocked [OF u] gvotable_ballot_find_internal_def Let_def vote_value_def
  show ?thesis
  proof (cases "find ?P (el_votes el)")
    case None
    let ?e = "?l\<lparr>el_num_voters := el_num_voters el + 1\<rparr>"
    obtain m where "gvotable_add_ballot ?e (upd_ballot (new_ballot hash el reason) ?v en) en =
       cast_state hash el reason v en (el_num_voters el + 1) m"
      using add_ballot_frame [of ?e "upd_ballot (new_ballot hash el reason) ?v en" en] None
      by (auto simp: cast_votes_def cast_state_def)
    then show ?thesis using None
      by (intro exI [of _ "el_num_voters el + 1"] exI [of _ m])
         (simp add: cast nb update_ballot_scalar(1) split del: if_split)
  next
    case (Some b)
    note s = update_ballot_scalar(1) [OF find_wf_size [OF wf Some]]
    show ?thesis
    proof (cases en)
      case True
      let ?e = "?l\<lparr>el_votes := ballot_del ?P (el_votes el)\<rparr>"
      obtain m where "gvotable_add_ballot ?e (upd_ballot b ?v en) en =
         cast_state hash el reason v en (el_num_voters el) m"
        using add_ballot_frame [of ?e "upd_ballot b ?v en" en] Some True
        by (auto simp: cast_votes_def cast_state_def)
      then show ?thesis using Some True
        by (intro exI [of _ "el_num_voters el"] exI [of _ m]) (simp add: cast s)
    next
      case False
      then show ?thesis using Some
        by (intro exI [of _ "el_num_voters el"] exI [of _ "el_num_votes el"])
           (simp add: cast s cast_votes_def cast_state_def)
    qed
  qed
qed


section \<open>The decision of an election\<close>

text \<open>
  What an election promises: an enabled vote of least key decides, and its reason is reported;
  without enabled votes the default decides, and without a default there is no result.
\<close>

definition decided :: "(vote \<Rightarrow> 'k::linorder) \<Rightarrow> (string \<Rightarrow> (vote \<times> bool) option) \<Rightarrow> gvotable_election \<Rightarrow> bool" where
  "decided key m el \<longleftrightarrow>
     (if \<exists>r v. m r = Some (v, True)
      then el_result_is_valid el
         \<and> (\<exists>v. m (el_reason el) = Some (v, True) \<and> key (el_result el) = key v)
         \<and> (\<forall>r v. m r = Some (v, True) \<longrightarrow> key (el_result el) \<le> key v)
      else if el_has_default_vote el = 1
      then el_result_is_valid el \<and> el_reason el = default_reason \<and> key (el_result el) = key (el_default_vote el)
      else \<not> el_result_is_valid el \<and> el_reason el = '''')"

lemma tally_enabled:
  assumes "distinct (map b_reason vs)" "b \<in> set vs"
  shows "votes_tally vs (b_reason b) = Some (ballot_vote b, b_enabled b)"
  using assms by (induction vs) (auto simp: rev_image_eqI)

lemma tally_enabledD:
  assumes "votes_tally vs r = Some (v, en)"
  shows "\<exists>b \<in> set vs. b_reason b = r \<and> ballot_vote b = v \<and> b_enabled b = en"
  using assms by (induction vs) (auto split: if_splits)

lemma run_election_votes [simp]:
  "el_votes (snd (gvotable_internal_run_election el)) = el_votes el"
  "el_cmp (snd (gvotable_internal_run_election el)) = el_cmp el"
  "el_use_alloc (snd (gvotable_internal_run_election el)) = el_use_alloc el"
  "el_is_bool_type (snd (gvotable_internal_run_election el)) = el_is_bool_type el"
  "el_force_result_is_enabled (snd (gvotable_internal_run_election el)) = el_force_result_is_enabled el"
  "el_has_default_vote (snd (gvotable_internal_run_election el)) = el_has_default_vote el"
  "el_default_vote (snd (gvotable_internal_run_election el)) = el_default_vote el"
  using run_election_frame [of el] by auto

lemma unlock_election_fields [simp]:
  "el_votes (gvotable_unlock_election el) = el_votes el"
  "el_cmp (gvotable_unlock_election el) = el_cmp el"
  "el_use_alloc (gvotable_unlock_election el) = el_use_alloc el"
  "el_is_bool_type (gvotable_unlock_election el) = el_is_bool_type el"
  "el_force_result_is_enabled (gvotable_unlock_election el) = el_force_result_is_enabled el"
  "el_has_default_vote (gvotable_unlock_election el) = el_has_default_vote el"
  "el_default_vote (gvotable_unlock_election el) = el_default_vote el"
  "el_result (gvotable_unlock_election el) = el_result el"
  "el_reason (gvotable_unlock_election el) = el_reason el"
  "el_result_is_valid (gvotable_unlock_election el) = el_result_is_valid el"
  by (simp_all add: gvotable_unlock_election_def gvotable_unlock_callback_def gvotable_unlock_result_def)

lemma decided_unlock [simp]: "decided key m (gvotable_unlock_election el) = decided key m el"
  by (simp add: decided_def)

text \<open>The result and the reason that a run with an enabled ballot, or with a default, leaves.\<close>

definition result_after :: "gvotable_election \<Rightarrow> string \<Rightarrow> vote \<Rightarrow> vote \<Rightarrow> gvotable_election \<Rightarrow> bool" where
  "result_after el r v w el' \<longleftrightarrow> el_result_is_valid el' \<and> el_reason el' = r
     \<and> (el_result el' = w \<or> el_result el' = el_result el \<and> run_cmp (el_cmp el) (el_result el) v = 0)"

lemma run_election_enabled:
  assumes "\<not> el_use_alloc el" "\<not> el_force_result_is_enabled el" "find b_enabled (el_votes el) = Some b"
    "length (b_reason b) < GVOTABLE_MAX_REASON_LEN"
  shows "result_after el (b_reason b) (ballot_vote b)
    (if el_is_bool_type el then Scalar 1 else ballot_vote b) (snd (gvotable_internal_run_election el))"
  using assms
  by (auto simp: result_after_def gvotable_internal_run_election_def Let_def gvotable_internal_update_reason_def
      gvotable_internal_update_result_def gvotable_internal_copy_result_def strn_eq_sym [of _ "el_reason el"] strn_eq_short)

lemma run_election_default:
  assumes "\<not> el_use_alloc el" "\<not> el_force_result_is_enabled el" "find b_enabled (el_votes el) = None"
    "el_has_default_vote el = 1"
  shows "result_after el default_reason (el_default_vote el) (el_default_vote el)
     (snd (gvotable_internal_run_election el))"
proof -
  have "length default_reason < GVOTABLE_MAX_REASON_LEN" by (simp add: default_reason_def GVOTABLE_MAX_REASON_LEN_def)
  then show ?thesis using assms
    by (auto simp: result_after_def gvotable_internal_run_election_def Let_def gvotable_internal_update_reason_def
        gvotable_internal_update_result_def gvotable_internal_copy_result_def strn_eq_sym [of _ "el_reason el"] strn_eq_short)
qed

lemma run_election_no_result:
  assumes "\<not> el_force_result_is_enabled el" "find b_enabled (el_votes el) = None" "el_has_default_vote el \<noteq> 1"
  shows "\<not> el_result_is_valid (snd (gvotable_internal_run_election el))
     \<and> el_reason (snd (gvotable_internal_run_election el)) = ''''"
  using assms by (simp add: gvotable_internal_run_election_def)

lemma some_enabled_iff:
  assumes "distinct (map b_reason vs)"
  shows "(\<exists>r v. votes_tally vs r = Some (v, True)) \<longleftrightarrow> find b_enabled vs \<noteq> None"
  using tally_enabled [OF assms] tally_enabledD [of vs _ _ True] by (metis find_None_iff)

text \<open>An election of scalar votes, kept in the order of a key, and nobody inside it.\<close>

definition election_ok :: "gv_hash \<Rightarrow> (vote \<Rightarrow> 'k::linorder) \<Rightarrow> gvotable_election \<Rightarrow> bool" where
  "election_ok hash key el \<longleftrightarrow> election_wf hash el \<and> unlocked el \<and> \<not> el_is_bool_type el
     \<and> \<not> el_force_result_is_enabled el \<and> ballots_ordered key (el_votes el)"

text \<open>A sequence of votes, and the tally it leaves.\<close>

type_synonym cast = "string \<times> vote \<times> bool"

fun gvotable_casts ::
  "gv_hash \<Rightarrow> gv_callback \<Rightarrow> gvotable_election \<Rightarrow> cast list \<Rightarrow> gvotable_election option" where
  "gvotable_casts hash cb el [] = Some el"
| "gvotable_casts hash cb el ((r, v, en) # cs) =
     (case gvotable_cast_vote hash cb True None (Some el) (Some r) v en of
        Some (_, Some el') \<Rightarrow> gvotable_casts hash cb el' cs
      | _ \<Rightarrow> None)"

fun tally_casts :: "(string \<Rightarrow> (vote \<times> bool) option) \<Rightarrow> cast list \<Rightarrow> string \<Rightarrow> (vote \<times> bool) option" where
  "tally_casts m [] = m"
| "tally_casts m ((r, v, en) # cs) = tally_casts (m(r \<mapsto> (v, en))) cs"

fun casts_ok :: "(vote \<Rightarrow> 'k::linorder) \<Rightarrow> (string \<Rightarrow> (vote \<times> bool) option) \<Rightarrow> cast list \<Rightarrow> bool" where
  "casts_ok key m [] = True"
| "casts_ok key m ((r, v, en) # cs) =
     (r \<noteq> '''' \<and> length r < GVOTABLE_MAX_REASON_LEN
      \<and> (en \<or> (case m r of None \<Rightarrow> True | Some (w, _) \<Rightarrow> key v \<le> key w))
      \<and> casts_ok key (m(r \<mapsto> (v, en))) cs)"

context vote_comparator
begin

lemma run_decided:
  assumes wf: "election_wf hash el" and "\<not> el_is_bool_type el" "\<not> el_force_result_is_enabled el"
    and o: "ballots_ordered key (el_votes el)" and c: "run_cmp (el_cmp el) = cmp"
  shows "decided key (tally el) (snd (gvotable_internal_run_election el))"
proof (cases "find b_enabled (el_votes el)")
  case None
  then show ?thesis
    using assms some_enabled_iff [of "el_votes el"] run_election_default [of el] run_election_no_result [of el]
    by (auto simp: decided_def election_wf_def result_after_def cmp_zero)
next
  case (Some b)
  then have b: "b \<in> set (el_votes el)" "b_enabled b" by (auto simp: find_Some_iff)
  have d: "distinct (map b_reason (el_votes el))" and l: "length (b_reason b) < GVOTABLE_MAX_REASON_LEN"
    using wf b by (auto simp: election_wf_def ballot_wf_def)
  have "result_after el (b_reason b) (ballot_vote b) (ballot_vote b) (snd (gvotable_internal_run_election el))"
    using run_election_enabled [OF _ assms(3) Some l] assms(2) wf by (simp add: election_wf_def)
  then have res: "el_result_is_valid (snd (gvotable_internal_run_election el))"
    "el_reason (snd (gvotable_internal_run_election el)) = b_reason b"
    "key (el_result (snd (gvotable_internal_run_election el))) = key (ballot_vote b)"
    using c by (auto simp: result_after_def cmp_zero)
  have "key (ballot_vote b) \<le> key v" if "tally el r = Some (v, True)" for r v
    using tally_enabledD [OF that] ballots_ordered_first [OF o Some] by blast
  then show ?thesis
    using res tally_enabled [OF d b(1)] b(2) Some some_enabled_iff [OF d] by (auto simp: decided_def)
qed

lemma cast_vote_decided:
  assumes ok: "election_ok hash key el" and c: "run_cmp (el_cmp el) = cmp"
    and cb: "passive_callback cb" and cs: "casts_ok key (tally el) [(r, v, en)]"
  shows "\<exists>ret el'. gvotable_cast_vote hash cb True va (Some el) (Some r) v en = Some (ret, Some el')
     \<and> election_ok hash key el' \<and> el_cmp el' = el_cmp el \<and> tally el' = (tally el)(r \<mapsto> (v, en))
     \<and> decided key (tally el') el'"
proof -
  have wf: "election_wf hash el" and u: "unlocked el" and nb: "\<not> el_is_bool_type el"
    and nf: "\<not> el_force_result_is_enabled el" and o: "ballots_ordered key (el_votes el)"
    using ok by (auto simp: election_ok_def)
  have r: "r \<noteq> ''''" "length r < GVOTABLE_MAX_REASON_LEN" using cs by auto
  let ?P = "ballot_matches hash r" and ?n = "new_ballot hash el r"
  have wfv: "\<forall>b \<in> set (el_votes el). ballot_wf hash b" and d: "distinct (map b_reason (el_votes el))"
    using wf by (auto simp: election_wf_def)
  have m: "?P b \<longleftrightarrow> b_reason b = r" if "b \<in> set (el_votes el)" for b
    using that wfv by (auto simp: ballot_matches_wf)
  have n: "ballot_wf hash ?n" "b_reason ?n = r" using new_ballot_wf [OF r(2)] wf by (auto simp: election_wf_def)
  obtain i j where run: "gvotable_cast_vote hash cb True va (Some el) (Some r) v en =
     Some (map_prod id Some (run_and_notify cb 0 (cast_state hash el r v en i j)))"
    using cast_vote_runs [OF wf u r(1)] by blast
  let ?e = "cast_state hash el r v en i j"
  let ?el' = "gvotable_unlock_election (snd (gvotable_internal_run_election ?e))"
  have el': "snd (run_and_notify cb 0 ?e) = ?el'" by (rule run_and_notify_passive [OF cb])
  have vs: "el_votes ?e = cast_votes ?P (run_cmp (el_cmp el)) (el_votes el) ?n v en"
    using nb by (simp add: cast_state_def vote_value_def)
  note eff = cast_votes_effect [OF d m wfv n, of "run_cmp (el_cmp el)" v en]
  have "key v \<le> key (ballot_vote b)" if "\<not> en" "find ?P (el_votes el) = Some b" for b
  proof -
    have "b \<in> set (el_votes el) \<and> b_reason b = r" by (rule find_matches(2) [OF d m that(2)])
    then show ?thesis using tally_enabled [OF d, of b] cs that(1) by simp
  qed
  then have o': "ballots_ordered key (el_votes ?e)" unfolding vs c
    using cast_votes_ordered [OF o] wfv n(1) by (auto simp: ballot_wf_def)
  have wf': "election_wf hash ?e" using eff vs wf by (simp add: election_wf_def cast_state_def)
  have flds: "\<not> el_is_bool_type ?e" "\<not> el_force_result_is_enabled ?e" "el_cmp ?e = el_cmp el"
    using nb nf by (simp_all add: cast_state_def)
  have "decided key (tally ?e) (snd (gvotable_internal_run_election ?e))"
    using run_decided [OF wf' flds(1,2) o'] c flds(3) by simp
  moreover have "election_ok hash key ?el'" using wf' o' flds by (simp add: election_ok_def election_wf_def)
  moreover have "tally ?e = (tally el)(r \<mapsto> (v, en))" using eff(1) vs by simp
  ultimately show ?thesis using run el' flds(3)
    by (intro exI [of _ "fst (run_and_notify cb 0 ?e)"] exI [of _ ?el'])
       (simp add: map_prod_def split_beta)
qed

lemma casts_decided:
  assumes "election_ok hash key el" "run_cmp (el_cmp el) = cmp" "passive_callback cb"
    "casts_ok key (tally el) cs" "cs \<noteq> []"
  shows "\<exists>el'. gvotable_casts hash cb el cs = Some el' \<and> election_ok hash key el'
     \<and> tally el' = tally_casts (tally el) cs \<and> decided key (tally_casts (tally el) cs) el'"
  using assms
proof (induction cs arbitrary: el)
  case (Cons c cs)
  obtain r v en where c: "c = (r, v, en)" by (cases c)
  obtain ret el1 where e1: "gvotable_cast_vote hash cb True None (Some el) (Some r) v en = Some (ret, Some el1)"
    "election_ok hash key el1" "el_cmp el1 = el_cmp el" "tally el1 = (tally el)(r \<mapsto> (v, en))" "decided key (tally el1) el1"
    using cast_vote_decided [OF Cons.prems(1-3), of r v en None] Cons.prems(4) c by auto
  show ?case
  proof (cases cs)
    case Nil
    then show ?thesis using e1(1,2,5) c unfolding e1(4) by (intro exI [of _ el1]) (simp add: e1(4) del: fun_upd_apply)
  next
    case (Cons x xs)
    note xs = this
    have "casts_ok key (tally el1) cs" using Cons.prems(4) c unfolding e1(4) by simp
    moreover have "run_cmp (el_cmp el1) = cmp" using e1(3) Cons.prems(2) by simp
    ultimately have "\<exists>el'. gvotable_casts hash cb el1 cs = Some el' \<and> election_ok hash key el'
      \<and> tally el' = tally_casts (tally el1) cs \<and> decided key (tally_casts (tally el1) cs) el'"
      using Cons.IH [OF e1(2) _ Cons.prems(3)] xs by blast
    then show ?thesis using e1(1) c unfolding e1(4) by simp
  qed
qed simp

end

end
