(* ===== verification/Gvotable_Registry.thy ===== *)
theory Gvotable_Registry
  imports Gvotable
begin

text \<open>
  The registry of elections of \<^verbatim>\<open>gvotable.c\<close>: the list \<open>gvotables\<close> of slots, creation,
  naming, lookup by name and destruction. Elections live in a heap indexed by pointer; a slot is
  the pointer it holds. Allocation outcomes are parameters (\<open>slot_ok\<close>, the fresh pointer
  \<open>p\<close> of the election, the address of the result buffer). The debugfs entries that creation
  and naming add are not modelled.
\<close>

record gv_state =
  gv_heap :: "nat \<Rightarrow> gvotable_election option"
  gv_slots :: "nat list"

definition slot_matches :: "gv_hash \<Rightarrow> gv_state \<Rightarrow> string \<Rightarrow> nat \<Rightarrow> bool" where
  "slot_matches hash st name p \<longleftrightarrow>
     (case gv_heap st p of
        None \<Rightarrow> False
      | Some el \<Rightarrow> hash name = el_hash el \<and> el_has_name el \<and> strn_eq MAX_NAME_LEN (el_name el) name)"

definition gvotable_find_internal :: "gv_hash \<Rightarrow> gv_state \<Rightarrow> string option \<Rightarrow> nat option" where
  "gvotable_find_internal hash st pname =
     (case pname of None \<Rightarrow> None | Some name \<Rightarrow> find (slot_matches hash st name) (gv_slots st))"

definition gvotable_find_internal_ptr :: "gv_state \<Rightarrow> nat \<Rightarrow> nat option" where
  "gvotable_find_internal_ptr st p = find (\<lambda>q. q = p) (gv_slots st)"

definition gvotable_add_internal :: "gv_state \<Rightarrow> nat \<Rightarrow> gv_state" where
  "gvotable_add_internal st p = st\<lparr>gv_slots := p # gv_slots st\<rparr>"

definition gvotable_delete_internal :: "gv_state \<Rightarrow> nat \<Rightarrow> gv_state" where
  "gvotable_delete_internal st p = st\<lparr>gv_slots := remove1 p (gv_slots st)\<rparr>"

text \<open>\<open>sizeof(vote[0])\<close> is the pointer size, 8 bytes.\<close>

definition gvotable_needs_alloc :: "nat \<Rightarrow> bool" where
  "gvotable_needs_alloc vote_size \<longleftrightarrow> vote_size > 8"

definition zero_election :: gvotable_election where
  "zero_election = \<lparr>el_hash = 0, el_vote_size = 0, el_use_alloc = False, el_name = '''', el_has_name = False,
     el_cb_lock = False, el_re_lock = False, el_owner = False, el_result = null_vote, el_reason = '''',
     el_result_is_valid = False, el_data = 0, el_callback = False, el_cmp = Cmp_none, el_auto_callback = False,
     el_default_vote = null_vote, el_has_default_vote = 0, el_force_result = null_vote,
     el_force_result_is_enabled = False, el_votes = [], el_num_voters = 0, el_num_votes = 0,
     el_is_int_type = False, el_is_bool_type = False, el_disable_force_int_entry = False\<rparr>"

definition gvotable_create_election ::
  "gv_hash \<Rightarrow> bool \<Rightarrow> nat option \<Rightarrow> u64 option \<Rightarrow> gv_state \<Rightarrow> string option \<Rightarrow> nat \<Rightarrow> gv_cmp option \<Rightarrow> bool \<Rightarrow> nat
     \<Rightarrow> nat option \<times> gv_state" where
  "gvotable_create_election hash slot_ok pfresh result_addr st pname vote_size cmp_fn callback_fn data =
     (let cmp = (case cmp_fn of None \<Rightarrow> Cmp_none | Some c \<Rightarrow> c) in
      if pname \<noteq> None \<and> gvotable_find_internal hash st pname \<noteq> None then (None, st)
      else if \<not> slot_ok then (None, st)
      else case pfresh of
        None \<Rightarrow> (None, st)
      | Some p \<Rightarrow>
          (let el0 = zero_election\<lparr>el_callback := callback_fn, el_auto_callback := True, el_cmp := cmp,
                       el_data := data, el_has_default_vote := - 1, el_vote_size := vote_size,
                       el_use_alloc := gvotable_needs_alloc vote_size\<rparr>;
               el1 = (if el_use_alloc el0
                      then map_option (\<lambda>a. el0\<lparr>el_result := Ptr a (replicate vote_size 0)\<rparr>) result_addr
                      else Some el0)
           in case el1 of
                None \<Rightarrow> (None, st)
              | Some el \<Rightarrow>
                  (let el' = (case pname of
                                None \<Rightarrow> el
                              | Some name \<Rightarrow> el\<lparr>el_has_name := True, el_hash := hash name,
                                                el_name := strlcpy MAX_NAME_LEN name\<rparr>)
                   in (Some p, gvotable_add_internal (st\<lparr>gv_heap := (gv_heap st)(p := Some el')\<rparr>) p))))"

definition gvotable_create_int_election ::
  "gv_hash \<Rightarrow> bool \<Rightarrow> nat option \<Rightarrow> gv_state \<Rightarrow> string option \<Rightarrow> gv_cmp option \<Rightarrow> bool \<Rightarrow> nat
     \<Rightarrow> nat option \<times> gv_state" where
  "gvotable_create_int_election hash slot_ok pfresh st pname cmp_fn callback_fn data =
     (case gvotable_create_election hash slot_ok pfresh None st pname 4 cmp_fn callback_fn data of
        (None, st') \<Rightarrow> (None, st')
      | (Some p, st') \<Rightarrow>
          (Some p, st'\<lparr>gv_heap := (gv_heap st')
             (p := map_option (\<lambda>el. el\<lparr>el_is_int_type := True\<rparr>) (gv_heap st' p))\<rparr>))"

text \<open>
  A bool election takes the false default (its first setting runs no election), runs the election
  once and becomes of bool type. The callback cannot be called here: no callback is run by
  \<open>gvotable_internal_run_election\<close> itself, and the first setting of a default does not notify.
\<close>

definition bool_election_setup :: "gv_callback \<Rightarrow> gvotable_election \<Rightarrow> gvotable_election option" where
  "bool_election_setup cb el =
     (case gvotable_set_default cb (Some el) GVOTABLE_BOOL_FALSE_VALUE of
        Some (_, Some el1) \<Rightarrow> Some ((snd (gvotable_internal_run_election el1))\<lparr>el_is_bool_type := True\<rparr>)
      | _ \<Rightarrow> None)"

definition gvotable_create_bool_election ::
  "gv_hash \<Rightarrow> gv_callback \<Rightarrow> bool \<Rightarrow> nat option \<Rightarrow> gv_state \<Rightarrow> string option \<Rightarrow> bool \<Rightarrow> nat
     \<Rightarrow> nat option \<times> gv_state" where
  "gvotable_create_bool_election hash cb slot_ok pfresh st pname callback_fn data =
     (case gvotable_create_election hash slot_ok pfresh None st pname 4 (Some Cmp_bool) callback_fn data of
        (None, st') \<Rightarrow> (None, st')
      | (Some p, st') \<Rightarrow>
          (Some p, st'\<lparr>gv_heap := (gv_heap st')
             (p := Option.bind (gv_heap st' p) (bool_election_setup cb))\<rparr>))"

text \<open>The loop that deletes every slot of the election.\<close>

function delete_slots :: "gv_state \<Rightarrow> nat \<Rightarrow> gv_state" where
  "delete_slots st p =
     (case gvotable_find_internal_ptr st p of
        None \<Rightarrow> st
      | Some q \<Rightarrow> delete_slots (gvotable_delete_internal st q) p)"
  by pat_completeness auto
termination
proof (relation "measure (\<lambda>(st, p). length (gv_slots st))", simp, simp)
  fix st p q
  assume "gvotable_find_internal_ptr st p = Some q"
  then have "q \<in> set (gv_slots st)" by (auto simp: gvotable_find_internal_ptr_def find_Some_iff)
  then show "length (gv_slots (gvotable_delete_internal st q)) < length (gv_slots st)"
    using length_pos_if_in_set [of q "gv_slots st"] by (simp add: gvotable_delete_internal_def length_remove1)
qed

declare delete_slots.simps [simp del]

definition gvotable_destroy_election :: "gv_state \<Rightarrow> nat option \<Rightarrow> (int \<times> gv_state) option" where
  "gvotable_destroy_election st pel =
     (case pel of
        None \<Rightarrow> Some (- EINVAL, st)
      | Some p \<Rightarrow>
          (case gv_heap st p of
             None \<Rightarrow> None
           | Some el \<Rightarrow>
               (case gvotable_lock_result el of
                  None \<Rightarrow> None
                | Some _ \<Rightarrow>
                    let st' = delete_slots st p in
                    Some (0, st'\<lparr>gv_heap := (gv_heap st')(p := None)\<rparr>))))"

definition gvotable_election_get_handle :: "gv_hash \<Rightarrow> gv_state \<Rightarrow> string option \<Rightarrow> nat option" where
  "gvotable_election_get_handle hash st pname =
     (case pname of None \<Rightarrow> None | Some name \<Rightarrow> gvotable_find_internal hash st (Some name))"

definition gvotable_election_set_name ::
  "gv_hash \<Rightarrow> gv_state \<Rightarrow> nat option \<Rightarrow> string option \<Rightarrow> (int \<times> gv_state) option" where
  "gvotable_election_set_name hash st pel pname =
     (case (pel, pname) of
        (Some p, Some name) \<Rightarrow>
          (case gv_heap st p of
             None \<Rightarrow> None
           | Some el \<Rightarrow>
               if el_has_name el \<or> gvotable_find_internal hash st (Some name) \<noteq> None
               then Some (- EEXIST, st)
               else Some (0, st\<lparr>gv_heap := (gv_heap st)(p := Some (el\<lparr>el_has_name := True,
                       el_hash := hash name, el_name := strlcpy MAX_NAME_LEN name\<rparr>))\<rparr>))
      | _ \<Rightarrow> Some (- EINVAL, st))"

definition gvotable_disable_force_int_entry :: "gvotable_election option \<Rightarrow> int \<times> gvotable_election option" where
  "gvotable_disable_force_int_entry pel =
     (case pel of
        None \<Rightarrow> (- EINVAL, None)
      | Some el \<Rightarrow> if el_has_name el then (- EINVAL, pel)
                  else (0, Some (el\<lparr>el_disable_force_int_entry := True\<rparr>)))"

section \<open>Lookup\<close>

text \<open>
  The registry is well formed when its slots are distinct, all point into the heap, and no two
  named elections of the list are found under the same name.
\<close>

definition registry_ok :: "gv_hash \<Rightarrow> gv_state \<Rightarrow> bool" where
  "registry_ok hash st \<longleftrightarrow> distinct (gv_slots st) \<and> (\<forall>p \<in> set (gv_slots st). gv_heap st p \<noteq> None)
     \<and> (\<forall>p \<in> set (gv_slots st). \<forall>q \<in> set (gv_slots st). \<forall>name.
          slot_matches hash st name p \<longrightarrow> slot_matches hash st name q \<longrightarrow> p = q)"

lemma find_internal_None:
  "gvotable_find_internal hash st (Some name) = None \<longleftrightarrow> (\<forall>p \<in> set (gv_slots st). \<not> slot_matches hash st name p)"
  by (auto simp: gvotable_find_internal_def find_None_iff)

lemma find_internal_Some:
  "gvotable_find_internal hash st (Some name) = Some p \<Longrightarrow> p \<in> set (gv_slots st) \<and> slot_matches hash st name p"
  by (auto simp: gvotable_find_internal_def find_Some_iff)

lemma find_internal_unique:
  assumes "registry_ok hash st" "p \<in> set (gv_slots st)" "slot_matches hash st name p"
  shows "gvotable_find_internal hash st (Some name) = Some p"
proof (cases "gvotable_find_internal hash st (Some name)")
  case None
  then show ?thesis using assms by (auto simp: find_internal_None)
next
  case (Some q)
  then show ?thesis using assms find_internal_Some [OF Some] by (auto simp: registry_ok_def)
qed

lemma delete_slots_eq:
  "delete_slots st p = st\<lparr>gv_slots := filter (\<lambda>q. q \<noteq> p) (gv_slots st)\<rparr>"
proof (induction st p rule: delete_slots.induct)
  case (1 st p)
  show ?case
  proof (cases "gvotable_find_internal_ptr st p")
    case None
    then have "filter (\<lambda>q. q \<noteq> p) (gv_slots st) = gv_slots st"
      by (auto simp: gvotable_find_internal_ptr_def find_None_iff intro!: filter_True)
    then show ?thesis using None by (simp add: delete_slots.simps [of st p])
  next
    case (Some q)
    then have "q = p" by (auto simp: gvotable_find_internal_ptr_def find_Some_iff)
    moreover have "filter (\<lambda>q. q \<noteq> p) (remove1 p xs) = filter (\<lambda>q. q \<noteq> p) xs" for xs
      by (induction xs) auto
    ultimately show ?thesis using Some "1.IH" [OF Some]
      by (simp add: delete_slots.simps [of st p] gvotable_delete_internal_def)
  qed
qed

lemma create_election_named:
  assumes c: "gvotable_create_election hash slot_ok pfresh addr st (Some name) vs cmp cbf data = (Some p, st')"
  shows "pfresh = Some p" "gvotable_find_internal hash st (Some name) = None" "gv_slots st' = p # gv_slots st"
    "\<exists>el. gv_heap st' = (gv_heap st)(p := Some el) \<and> el_has_name el \<and> el_hash el = hash name
       \<and> el_name el = strlcpy MAX_NAME_LEN name \<and> el_votes el = [] \<and> \<not> el_re_lock el \<and> \<not> el_cb_lock el"
  using c by (auto simp: gvotable_create_election_def Let_def gvotable_add_internal_def zero_election_def
      split: if_splits option.splits)

lemma registry_ok_create:
  assumes ok: "registry_ok hash st" and fresh: "gv_heap st p = None" and short: "length name < MAX_NAME_LEN"
    and c: "gvotable_create_election hash slot_ok (Some p) addr st (Some name) vs cmp cbf data = (Some p, st')"
  shows "registry_ok hash st'" and "slot_matches hash st' name p"
proof -
  note n = create_election_named [OF c]
  obtain el where el: "gv_heap st' = (gv_heap st)(p := Some el)" "el_has_name el" "el_hash el = hash name"
     "el_name el = name" using n(4) short by auto
  have notin: "p \<notin> set (gv_slots st)" using ok fresh by (auto simp: registry_ok_def)
  have m1: "slot_matches hash st' x p \<longleftrightarrow> x = name" for x
    using el short by (auto simp: slot_matches_def strn_eq_short)
  have m2: "slot_matches hash st' x q \<longleftrightarrow> slot_matches hash st x q" if "q \<noteq> p" for x q
    using that el by (simp add: slot_matches_def)
  have none: "\<forall>q \<in> set (gv_slots st). \<not> slot_matches hash st name q" using n(2) by (simp add: find_internal_None)
  show "slot_matches hash st' name p" by (simp add: m1)
  show "registry_ok hash st'"
    using ok notin m1 m2 none n(3) el by (auto simp: registry_ok_def) (metis m2)+
qed

end
