(* ===== verification/Gvotable_Props.thy ===== *)
theory Gvotable_Props
  imports Gvotable_Elections Gvotable_Registry
begin

text \<open>
  The properties of the election library: what integer and boolean elections decide, what the
  queries report, when the callback runs, that the locks are free between operations, and how
  the registry finds elections; with the cases in which the library departs from them.
\<close>

section \<open>Auxiliary facts\<close>

definition no_hash :: gv_hash where "no_hash s = 0"
definition no_callback :: gv_callback where "no_callback el r v = (0, el)"

definition int_election :: "gv_cmp \<Rightarrow> gvotable_election" where
  "int_election c = zero_election\<lparr>el_cmp := c, el_auto_callback := True, el_has_default_vote := - 1,
     el_vote_size := 4, el_is_int_type := True\<rparr>"

lemmas election_eval = int_election_def zero_election_def no_hash_def no_callback_def gvotable_cast_vote_def
  gvotable_lock_election_def gvotable_lock_result_def gvotable_unlock_election_def gvotable_unlock_callback_def
  gvotable_unlock_result_def gvotable_ballot_find_internal_def ballot_matches_def new_ballot_def
  gvotable_update_ballot_def gvotable_add_ballot_def run_and_notify_def gvotable_internal_run_election_def
  gvotable_internal_update_reason_def gvotable_internal_update_result_def gvotable_internal_copy_result_def
  gvotable_run_callback_def ballot_vote_def strn_eq_def strlcpy_def VOTES_HISTORY_DEPTH_def
  GVOTABLE_MAX_REASON_LEN_def MAX_NAME_LEN_def default_reason_def Let_def
  gvotable_comparator_int_def gvotable_comparator_int_max_def gvotable_comparator_int_min_def
  gvotable_comparator_uint_max_def gvotable_comparator_uint_min_def gvotable_comparator_bool_def
  gvotable_comparator_most_recent_def vote_int_def vote_uint_def

lemma no_callback_passive: "passive_callback no_callback"
  by (simp add: passive_callback_def no_callback_def)

lemma int_election_ok: "election_ok no_hash key (int_election c)" "tally (int_election c) = Map.empty"
  by (simp_all add: election_ok_def election_wf_def unlocked_def ballots_ordered_def int_election_def zero_election_def)

section \<open>Integer elections\<close>



text \<open>
  Disabling an existing ballot changes its value in place. In a maximum election this breaks
  the order of the ballots: after votes of 20 and 5, the withdrawal of the first with the value 0
  and a third vote of 3, the election reports 3 although a vote of 5 is enabled.
\<close>

theorem int_max_disable_in_place:
  "\<exists>el'. gvotable_casts no_hash no_callback (int_election Cmp_int_max)
        [(''A'', Scalar 20, True), (''B'', Scalar 5, True), (''A'', Scalar 0, False), (''C'', Scalar 3, True)]
      = Some el'
     \<and> gvotable_get_current_int_vote (Some el') = Some 3
     \<and> gvotable_get_int_vote no_hash (Some el') (Some ''B'') = Some 5"
  by (simp add: election_eval gvotable_get_current_int_vote_def gvotable_get_current_vote_def
      gvotable_get_current_result_unlocked_def gvotable_get_int_vote_def gvotable_get_vote_def)

text \<open>
  The comparators for unsigned votes are not swapped the way those for signed votes are: an
  election with the comparator called \<open>uint_max\<close> reports a smallest enabled vote, one with
  \<open>uint_min\<close> a largest.
\<close>

theorem uint_comparators_inverted:
  fixes key :: "vote \<Rightarrow> int"
  assumes "el_cmp el = Cmp_uint_max \<and> key = (\<lambda>v. int (vote_uint v))
      \<or> el_cmp el = Cmp_uint_min \<and> key = (\<lambda>v. - int (vote_uint v))"
    and "election_ok hash key el" and "passive_callback cb"
    and "casts_ok key (tally el) cs" and "cs \<noteq> []"
  shows "\<exists>el'. gvotable_casts hash cb el cs = Some el' \<and> decided key (tally_casts (tally el) cs) el'"
  using assms uint_max.casts_decided [of hash el cb cs] uint_min.casts_decided [of hash el cb cs] by auto

theorem uint_comparators_inverted_witness:
  "\<exists>el'. gvotable_casts no_hash no_callback (int_election Cmp_uint_max)
        [(''A'', Scalar 20, True), (''B'', Scalar 5, True)] = Some el' \<and> vote_uint (el_result el') = 5"
proof -
  let ?cs = "[(''A'', Scalar 20, True), (''B'', Scalar 5, True)]" and ?k = "\<lambda>v. int (vote_uint v)"
  have "casts_ok ?k (tally (int_election Cmp_uint_max)) ?cs"
    by (simp add: int_election_ok GVOTABLE_MAX_REASON_LEN_def)
  then obtain el' where el': "gvotable_casts no_hash no_callback (int_election Cmp_uint_max) ?cs = Some el'"
    "decided ?k (tally_casts (tally (int_election Cmp_uint_max)) ?cs) el'"
    using uint_comparators_inverted [of "int_election Cmp_uint_max" ?k no_hash no_callback ?cs]
      int_election_ok(1) no_callback_passive by (auto simp: int_election_def)
  from el'(2) have "vote_uint (el_result el') \<le> vote_uint (Scalar 5)"
    "el_result el' = el_result el' \<and> (vote_uint (el_result el') = vote_uint (Scalar 20) \<or> vote_uint (el_result el') = vote_uint (Scalar 5))"
    by (auto simp: decided_def int_election_ok split: if_splits)
  then show ?thesis using el'(1) by (auto simp: vote_uint_def)
qed


section \<open>Queries\<close>

lemma find_tally:
  assumes wf: "election_wf hash el"
  shows "tally el r = map_option (\<lambda>b. (ballot_vote b, b_enabled b)) (gvotable_ballot_find_internal hash el r)"
proof -
  have d: "distinct (map b_reason (el_votes el))" and w: "\<forall>b \<in> set (el_votes el). ballot_wf hash b"
    using wf by (auto simp: election_wf_def)
  have m: "ballot_matches hash r b \<longleftrightarrow> b_reason b = r" if "b \<in> set (el_votes el)" for b
    using that w ballot_matches_wf by blast
  show ?thesis
  proof (cases "find (ballot_matches hash r) (el_votes el)")
    case None
    then show ?thesis
      using find_matches(1) [OF d m] votes_tally_None [of "el_votes el" r] by (simp add: gvotable_ballot_find_internal_def)
  next
    case (Some b)
    then have "b \<in> set (el_votes el) \<and> b_reason b = r" using find_matches(2) [OF d m] by blast
    then show ?thesis using Some tally_enabled [OF d, of b] by (auto simp: gvotable_ballot_find_internal_def)
  qed
qed

lemma get_vote_tally:
  assumes "election_wf hash el" "unlocked el" "\<not> el_is_bool_type el"
  shows "gvotable_get_vote hash (Some el) (Some r) True = Some
     (case tally el r of None \<Rightarrow> (- ENODEV, Some null_vote)
      | Some (v, en) \<Rightarrow> if en then (0, Some v) else (- EINVAL, None))"
proof -
  have "election_wf hash (el\<lparr>el_re_lock := True\<rparr>)" using assms by (simp add: election_wf_def)
  from find_tally [OF this, of r] show ?thesis using assms(2,3)
    by (auto simp: gvotable_get_vote_def gvotable_lock_result_def unlocked_def split: option.splits)
qed

lemma is_enabled_tally:
  assumes "election_wf hash el" "unlocked el"
  shows "gvotable_is_enabled hash (Some el) (Some r) True = Some
     (case tally el r of None \<Rightarrow> (- ENODEV, None) | Some (v, en) \<Rightarrow> (0, Some en))"
proof -
  have "election_wf hash (el\<lparr>el_re_lock := True\<rparr>)" using assms by (simp add: election_wf_def)
  from find_tally [OF this, of r] show ?thesis using assms(2)
    by (auto simp: gvotable_is_enabled_def gvotable_lock_result_def unlocked_def split: option.splits)
qed

lemma cast_vote_wf:
  assumes wf: "election_wf hash el" and u: "unlocked el" and cb: "passive_callback cb"
    and r: "r \<noteq> ''''" "length r < GVOTABLE_MAX_REASON_LEN"
  shows "\<exists>ret el' i j. gvotable_cast_vote hash cb True va (Some el) (Some r) v en = Some (ret, Some el')
     \<and> el' = gvotable_unlock_election (snd (gvotable_internal_run_election (cast_state hash el r v en i j)))
     \<and> election_wf hash (cast_state hash el r v en i j)
     \<and> tally (cast_state hash el r v en i j) = (tally el)(r \<mapsto> (vote_value el v en, en))"
proof -
  let ?P = "ballot_matches hash r" and ?n = "new_ballot hash el r" and ?v = "vote_value el v en"
  have wfv: "\<forall>b \<in> set (el_votes el). ballot_wf hash b" and d: "distinct (map b_reason (el_votes el))"
    using wf by (auto simp: election_wf_def)
  have m: "?P b \<longleftrightarrow> b_reason b = r" if "b \<in> set (el_votes el)" for b
    using that wfv by (auto simp: ballot_matches_wf)
  have n: "ballot_wf hash ?n" "b_reason ?n = r" using new_ballot_wf [OF r(2)] wf by (auto simp: election_wf_def)
  obtain i j where run: "gvotable_cast_vote hash cb True va (Some el) (Some r) v en =
     Some (map_prod id Some (run_and_notify cb 0 (cast_state hash el r v en i j)))"
    using cast_vote_runs [OF wf u r(1)] by blast
  note eff = cast_votes_effect [OF d m wfv n, of "run_cmp (el_cmp el)" ?v en]
  have "election_wf hash (cast_state hash el r v en i j)"
    using eff(2,3) wf by (simp add: election_wf_def cast_state_def)
  moreover have "tally (cast_state hash el r v en i j) = (tally el)(r \<mapsto> (?v, en))"
    using eff(1) by (simp add: cast_state_def)
  ultimately show ?thesis using run run_and_notify_passive [OF cb, of 0]
    by (intro exI [of _ "fst (run_and_notify cb 0 (cast_state hash el r v en i j))"]
        exI [of _ "snd (run_and_notify cb 0 (cast_state hash el r v en i j))"] exI [of _ i] exI [of _ j])
       (simp add: map_prod_def split_beta)
qed

lemma election_wf_run [simp]:
  "election_wf hash (gvotable_unlock_election (snd (gvotable_internal_run_election el))) = election_wf hash el"
  by (simp add: election_wf_def)

text \<open>
  C29: A vote can be read back: after \<open>gvotable_cast_vote\<close> with a reason of less than 32
  characters, \<open>gvotable_is_enabled\<close> and \<open>gvotable_get_vote\<close> return for that reason the vote
  cast (an error when it was cast disabled), and for every other reason what they returned before.
\<close>

theorem cast_vote_read_back:
  assumes "election_wf hash el" "unlocked el" "\<not> el_is_bool_type el" "passive_callback cb"
    and "r \<noteq> ''''" "length r < GVOTABLE_MAX_REASON_LEN"
  shows "\<exists>ret el'. gvotable_cast_vote hash cb True va (Some el) (Some r) v en = Some (ret, Some el')
     \<and> election_wf hash el' \<and> unlocked el'
     \<and> gvotable_is_enabled hash (Some el') (Some r) True = Some (0, Some en)
     \<and> gvotable_get_vote hash (Some el') (Some r) True = Some (if en then (0, Some v) else (- EINVAL, None))
     \<and> (\<forall>q. q \<noteq> r \<longrightarrow> gvotable_is_enabled hash (Some el') (Some q) True = gvotable_is_enabled hash (Some el) (Some q) True
           \<and> gvotable_get_vote hash (Some el') (Some q) True = gvotable_get_vote hash (Some el) (Some q) True)"
proof -
  obtain ret el' i j where c: "gvotable_cast_vote hash cb True va (Some el) (Some r) v en = Some (ret, Some el')"
    and el': "el' = gvotable_unlock_election (snd (gvotable_internal_run_election (cast_state hash el r v en i j)))"
    and s: "election_wf hash (cast_state hash el r v en i j)"
      "tally (cast_state hash el r v en i j) = (tally el)(r \<mapsto> (vote_value el v en, en))"
    using cast_vote_wf [OF assms(1,2,4-6)] by blast
  have wf: "election_wf hash el'" "unlocked el'" "\<not> el_is_bool_type el'"
    using s(1) assms(3) by (simp_all add: el' cast_state_def)
  have t: "tally el' = (tally el)(r \<mapsto> (v, en))" using s(2) assms(3) by (simp add: el' vote_value_def)
  show ?thesis using c wf
    by (intro exI [of _ ret] exI [of _ el'])
       (simp add: get_vote_tally [OF wf] is_enabled_tally [OF wf(1,2)] get_vote_tally [OF assms(1-3)]
         is_enabled_tally [OF assms(1,2)] t)
qed

theorem cast_vote_read_back_witness:
  "\<exists>ret el'. gvotable_cast_vote no_hash no_callback True None (Some (int_election Cmp_int_max)) (Some ''USB'') (Scalar 9) True
     = Some (ret, Some el') \<and> gvotable_get_vote no_hash (Some el') (Some ''USB'') True = Some (0, Some (Scalar 9))"
  using cast_vote_read_back [of no_hash "int_election Cmp_int_max" no_callback "''USB''" None "Scalar 9" True]
    no_callback_passive
  by (auto simp: election_wf_def unlocked_def int_election_def zero_election_def GVOTABLE_MAX_REASON_LEN_def)

text \<open>
  A reason of 32 or more characters is stored truncated but compared in full, so no ballot is
  ever found under it: every cast with it adds one more ballot, the vote cannot be read back, and
  a later cast that disables the reason leaves the first ballot in force.
\<close>

theorem long_reason_not_found:
  assumes "\<forall>b \<in> set (el_votes el). length (b_reason b) < GVOTABLE_MAX_REASON_LEN"
    and "length r \<ge> GVOTABLE_MAX_REASON_LEN" and "unlocked el" and "\<not> el_use_alloc el" and "\<not> el_is_bool_type el"
    and "passive_callback cb"
  shows "\<exists>ret el'. gvotable_cast_vote hash cb True va (Some el) (Some r) v en = Some (ret, Some el')
     \<and> length (el_votes el') = length (el_votes el) + 1
     \<and> (\<forall>b \<in> set (el_votes el). b \<in> set (el_votes el'))
     \<and> gvotable_get_vote hash (Some el') (Some r) True = Some (- ENODEV, Some null_vote)"
proof -
  have nm: "find (ballot_matches hash r) vs = None"
    if "\<forall>b \<in> set vs. length (b_reason b) < GVOTABLE_MAX_REASON_LEN" for vs
  proof -
    have "r \<noteq> b_reason b" if "length (b_reason b) < GVOTABLE_MAX_REASON_LEN" for b using that assms(2) by auto
    then show ?thesis using that by (auto simp: find_None_iff ballot_matches_def strn_eq_short)
  qed
  have r: "r \<noteq> ''''" using assms(2) by (auto simp: GVOTABLE_MAX_REASON_LEN_def)
  let ?nb = "new_ballot hash el r"
  let ?l = "el\<lparr>el_cb_lock := True, el_owner := True, el_re_lock := True, el_num_voters := el_num_voters el + 1\<rparr>"
  have nb: "new_ballot hash (el\<lparr>el_cb_lock := True, el_owner := True, el_re_lock := True\<rparr>) r = ?nb" "b_vote_size ?nb = 0"
    "length (b_reason ?nb) < GVOTABLE_MAX_REASON_LEN"
    using assms(4) by (simp_all add: new_ballot_def length_strlcpy GVOTABLE_MAX_REASON_LEN_def)
  let ?b = "upd_ballot ?nb v en" and ?e = "gvotable_add_ballot ?l (upd_ballot ?nb v en) en"
  let ?el' = "gvotable_unlock_election (snd (gvotable_internal_run_election ?e))"
  have c: "gvotable_cast_vote hash cb True va (Some el) (Some r) v en = Some (map_prod id Some (run_and_notify cb 0 ?e))"
    using assms(4,5) r nm [OF assms(1)]
    by (simp add: gvotable_cast_vote_def lock_unlocked [OF assms(3)] gvotable_ballot_find_internal_def Let_def nb(1)
        update_ballot_scalar(1) [OF nb(2)])
  obtain m where e: "?e = ?l\<lparr>el_votes := add_votes (run_cmp (el_cmp el)) (el_votes el) ?b en, el_num_votes := m\<rparr>"
    using add_ballot_frame [of ?l ?b en] by auto
  have vs: "el_votes ?el' = add_votes (run_cmp (el_cmp el)) (el_votes el) ?b en" by (simp add: e)
  have len: "length (el_votes ?el') = length (el_votes el) + 1"
    unfolding vs using arg_cong [OF add_votes_reasons(1), of size] by (simp del: mset_map)
  have "find (ballot_matches hash r) (el_votes ?el') = None"
    by (rule nm) (use assms(1) nb(2,3) in \<open>unfold vs, auto simp: add_votes_reasons(2) update_ballot_scalar(4)\<close>)
  then have g: "gvotable_get_vote hash (Some ?el') (Some r) True = Some (- ENODEV, Some null_vote)"
    using assms(5) by (simp add: gvotable_get_vote_def gvotable_lock_result_def gvotable_ballot_find_internal_def e
        gvotable_unlock_election_def gvotable_unlock_callback_def gvotable_unlock_result_def)
  show ?thesis using c len g
    by (intro exI [of _ "fst (run_and_notify cb 0 ?e)"] exI [of _ ?el'])
       (simp add: map_prod_def split_beta run_and_notify_passive [OF assms(6)] e add_votes_reasons(2))
qed

theorem long_reason_not_found_witness:
  "\<exists>ret el'. gvotable_cast_vote no_hash no_callback True None (Some (int_election Cmp_int_max))
       (Some (replicate 40 CHR ''r'')) (Scalar 9) True = Some (ret, Some el')
     \<and> gvotable_get_vote no_hash (Some el') (Some (replicate 40 CHR ''r'')) True = Some (- ENODEV, Some null_vote)"
  using long_reason_not_found [of "int_election Cmp_int_max" "replicate 40 CHR ''r''" no_callback no_hash None "Scalar 9" True]
    no_callback_passive
  by (auto simp: unlocked_def int_election_def zero_election_def GVOTABLE_MAX_REASON_LEN_def)

section \<open>Boolean elections\<close>

definition bool_ok :: "gv_hash \<Rightarrow> gvotable_election \<Rightarrow> bool" where
  "bool_ok hash el \<longleftrightarrow> election_wf hash el \<and> unlocked el \<and> el_is_bool_type el \<and> el_cmp el = Cmp_bool
     \<and> el_has_default_vote el = 1 \<and> el_default_vote el = Scalar 0 \<and> \<not> el_force_result_is_enabled el
     \<and> el_result_is_valid el"

definition enabled_reasons :: "gvotable_election \<Rightarrow> string set" where
  "enabled_reasons el = {r. \<exists>v. tally el r = Some (v, True)}"

definition bool_result :: "gvotable_election \<Rightarrow> bool" where
  "bool_result el \<longleftrightarrow> el_result el = Scalar (if enabled_reasons el \<noteq> {} then 1 else 0)"

fun casts_enabled :: "string set \<Rightarrow> cast list \<Rightarrow> string set" where
  "casts_enabled S [] = S"
| "casts_enabled S ((r, v, en) # cs) = casts_enabled (if en then insert r S else S - {r}) cs"

lemma bool_run:
  assumes wf: "election_wf hash el" and b: "el_is_bool_type el" "el_cmp el = Cmp_bool" "el_has_default_vote el = 1"
    "el_default_vote el = Scalar 0" "\<not> el_force_result_is_enabled el"
  shows "bool_result (snd (gvotable_internal_run_election el))
     \<and> el_result_is_valid (snd (gvotable_internal_run_election el))"
proof (cases "find b_enabled (el_votes el)")
  case None
  then show ?thesis
    using run_election_default [of el] some_enabled_iff [of "el_votes el"] wf b
    by (auto simp: bool_result_def enabled_reasons_def result_after_def election_wf_def
        gvotable_comparator_bool_def gvotable_comparator_most_recent_def)
next
  case (Some x)
  then have "length (b_reason x) < GVOTABLE_MAX_REASON_LEN"
    using wf by (auto simp: election_wf_def ballot_wf_def find_Some_iff)
  then show ?thesis
    using run_election_enabled [OF _ b(5) Some] some_enabled_iff [of "el_votes el"] wf b Some
    by (auto simp: bool_result_def enabled_reasons_def result_after_def election_wf_def
        gvotable_comparator_bool_def gvotable_comparator_most_recent_def)
qed

lemma bool_cast:
  assumes ok: "bool_ok hash el" and cb: "passive_callback cb"
    and r: "r \<noteq> ''''" "length r < GVOTABLE_MAX_REASON_LEN"
  shows "\<exists>ret el'. gvotable_cast_vote hash cb True va (Some el) (Some r) v en = Some (ret, Some el') \<and> bool_ok hash el'
     \<and> bool_result el' \<and> enabled_reasons el' = (if en then insert r (enabled_reasons el) else enabled_reasons el - {r})"
proof -
  obtain ret el' i j where c: "gvotable_cast_vote hash cb True va (Some el) (Some r) v en = Some (ret, Some el')"
    and el': "el' = gvotable_unlock_election (snd (gvotable_internal_run_election (cast_state hash el r v en i j)))"
    and s: "election_wf hash (cast_state hash el r v en i j)"
      "tally (cast_state hash el r v en i j) = (tally el)(r \<mapsto> (vote_value el v en, en))"
    using cast_vote_wf [OF _ _ cb r] ok unfolding bool_ok_def by blast
  have b: "el_is_bool_type (cast_state hash el r v en i j)" "el_cmp (cast_state hash el r v en i j) = Cmp_bool"
    "el_has_default_vote (cast_state hash el r v en i j) = 1" "el_default_vote (cast_state hash el r v en i j) = Scalar 0"
    "\<not> el_force_result_is_enabled (cast_state hash el r v en i j)"
    using ok by (simp_all add: bool_ok_def cast_state_def)
  note run = bool_run [OF s(1) b]
  have "bool_ok hash el'" using s(1) b run by (simp add: bool_ok_def el')
  moreover have "bool_result el'" using run by (simp add: bool_result_def enabled_reasons_def el')
  moreover have "enabled_reasons el' = (if en then insert r (enabled_reasons el) else enabled_reasons el - {r})"
    using s(2) by (auto simp: enabled_reasons_def el')
  ultimately show ?thesis using c by blast
qed

lemma bool_casts:
  assumes "bool_ok hash el" "bool_result el" "passive_callback cb"
    "\<forall>(r, v, en) \<in> set cs. r \<noteq> '''' \<and> length r < GVOTABLE_MAX_REASON_LEN"
  shows "\<exists>el'. gvotable_casts hash cb el cs = Some el' \<and> bool_ok hash el' \<and> bool_result el'
     \<and> enabled_reasons el' = casts_enabled (enabled_reasons el) cs"
  using assms
proof (induction cs arbitrary: el)
  case (Cons c cs)
  obtain r v en where c: "c = (r, v, en)" by (cases c)
  obtain ret el1 where e1: "gvotable_cast_vote hash cb True None (Some el) (Some r) v en = Some (ret, Some el1)"
    "bool_ok hash el1" "bool_result el1"
    "enabled_reasons el1 = (if en then insert r (enabled_reasons el) else enabled_reasons el - {r})"
    using bool_cast [OF Cons.prems(1,3), of r None v en] Cons.prems(4) c by auto
  have "\<forall>(r, v, en) \<in> set cs. r \<noteq> '''' \<and> length r < GVOTABLE_MAX_REASON_LEN" using Cons.prems(4) by simp
  from Cons.IH [OF e1(2,3) Cons.prems(3) this] show ?case using e1(1,4) c by auto
qed simp

definition fresh_election :: "gvotable_election \<Rightarrow> bool" where
  "fresh_election el \<longleftrightarrow> el_votes el = [] \<and> unlocked el \<and> \<not> el_is_bool_type el \<and> el_has_default_vote el = - 1
     \<and> \<not> el_force_result_is_enabled el \<and> \<not> el_result_is_valid el"

lemma create_election_fresh:
  assumes "gvotable_create_election hash slot_ok pfresh addr st pname vs cmp_fn cbf data = (Some p, st')"
  shows "\<exists>el. gv_heap st' p = Some el \<and> fresh_election el \<and> el_use_alloc el = gvotable_needs_alloc vs
     \<and> el_cmp el = (case cmp_fn of None \<Rightarrow> Cmp_none | Some c \<Rightarrow> c)"
  using assms
  by (auto simp: gvotable_create_election_def Let_def gvotable_add_internal_def zero_election_def unlocked_def
      fresh_election_def split: if_splits option.splits)

lemma bool_election_setup_ok:
  assumes "fresh_election el" "\<not> el_use_alloc el" "el_cmp el = Cmp_bool"
  shows "\<exists>el'. bool_election_setup cb el = Some el' \<and> bool_ok hash el' \<and> bool_result el' \<and> enabled_reasons el' = {}"
  using assms
  by (auto simp: fresh_election_def bool_election_setup_def gvotable_set_default_def lock_unlocked gvotable_internal_run_election_def Let_def
      gvotable_internal_update_reason_def gvotable_internal_update_result_def gvotable_internal_copy_result_def
      bool_ok_def bool_result_def enabled_reasons_def election_wf_def unlocked_def gvotable_unlock_callback_def
      gvotable_unlock_result_def gvotable_comparator_bool_def gvotable_comparator_most_recent_def)

text \<open>
  A boolean election, from its creation and through any sequence of votes, reports 1 when
  some reason was last cast enabled, and 0 otherwise, whatever values the votes carry.
\<close>

theorem bool_election_any:
  assumes "gvotable_create_bool_election hash cb slot_ok pfresh st pname cbf data = (Some p, st')"
    and "passive_callback cb"
    and "\<forall>(r, v, en) \<in> set cs. r \<noteq> '''' \<and> length r < GVOTABLE_MAX_REASON_LEN"
  shows "\<exists>el el'. gv_heap st' p = Some el \<and> gvotable_casts hash cb el cs = Some el'
     \<and> gvotable_get_current_int_vote (Some el') = Some (if casts_enabled {} cs \<noteq> {} then 1 else 0)"
proof -
  obtain st1 where c: "gvotable_create_election hash slot_ok pfresh None st pname 4 (Some Cmp_bool) cbf data = (Some p, st1)"
    and h: "gv_heap st' p = Option.bind (gv_heap st1 p) (bool_election_setup cb)"
    using assms(1) by (auto simp: gvotable_create_bool_election_def split: prod.splits option.splits)
  obtain el0 where el0: "gv_heap st1 p = Some el0" "fresh_election el0" "\<not> el_use_alloc el0" "el_cmp el0 = Cmp_bool"
    using create_election_fresh [OF c] by (auto simp: gvotable_needs_alloc_def)
  obtain el where el: "gv_heap st' p = Some el" "bool_ok hash el" "bool_result el" "enabled_reasons el = {}"
    using bool_election_setup_ok [OF el0(2-4), of cb hash] h el0(1) by auto
  obtain el' where el': "gvotable_casts hash cb el cs = Some el'" "bool_ok hash el'" "bool_result el'"
    "enabled_reasons el' = casts_enabled {} cs" using bool_casts [OF el(2,3) assms(2,3)] el(4) by auto
  then have "gvotable_get_current_int_vote (Some el') = Some (if casts_enabled {} cs \<noteq> {} then 1 else 0)"
    by (simp add: gvotable_get_current_int_vote_def gvotable_get_current_vote_def gvotable_lock_result_def bool_ok_def
        unlocked_def gvotable_get_current_result_unlocked_def bool_result_def vote_int_def)
  then show ?thesis using el(1) el'(1) by blast
qed

theorem bool_election_any_witness:
  "\<exists>p st' el el'. gvotable_create_bool_election no_hash no_callback True (Some 1)
         \<lparr>gv_heap = Map.empty, gv_slots = []\<rparr> (Some ''DISABLE'') False 0 = (Some p, st')
     \<and> gv_heap st' p = Some el
     \<and> gvotable_casts no_hash no_callback el [(''A'', Scalar 0, True), (''B'', Scalar 7, False)] = Some el'
     \<and> gvotable_get_current_int_vote (Some el') = Some 1"
proof -
  let ?st = "\<lparr>gv_heap = Map.empty, gv_slots = []\<rparr>"
  let ?c = "gvotable_create_bool_election no_hash no_callback True (Some 1) ?st (Some ''DISABLE'') False 0"
  have "fst ?c = Some 1"
    by (simp add: gvotable_create_bool_election_def gvotable_create_election_def Let_def gvotable_needs_alloc_def
        gvotable_find_internal_def zero_election_def)
  then obtain st' where c: "?c = (Some 1, st')" by (metis prod.collapse)
  show ?thesis
    using bool_election_any [OF c no_callback_passive, of "[(''A'', Scalar 0, True), (''B'', Scalar 7, False)]"] c
    by (auto simp: GVOTABLE_MAX_REASON_LEN_def)
qed

section \<open>Locks\<close>

lemma run_callback_frame [simp]: "passive_callback cb \<Longrightarrow> snd (gvotable_run_callback cb el) = el"
  by (simp add: gvotable_run_callback_def passive_callback_def)

lemma passive_snd: "passive_callback cb \<Longrightarrow> snd (cb el r v) = el"
  by (simp add: passive_callback_def)

lemma run_and_notify_unlocked: "passive_callback cb \<Longrightarrow> unlocked (snd (run_and_notify cb ret el))"
  using run_and_notify_passive [of cb ret el] by simp

lemma run_and_notify_split:
  "Some (run_and_notify cb ret el) = Some (x, el') \<Longrightarrow> el' = snd (run_and_notify cb ret el)"
  "Some (map_prod id Some (run_and_notify cb ret el)) = Some (x, Some el') \<Longrightarrow> el' = snd (run_and_notify cb ret el)"
  by (cases "run_and_notify cb ret el"; simp)+

definition returns_unlocked :: "(int \<times> gvotable_election) option \<Rightarrow> bool" where
  "returns_unlocked res \<longleftrightarrow> (\<exists>x el'. res = Some (x, el') \<and> unlocked el')"

definition returns_unlocked_opt :: "(int \<times> gvotable_election option) option \<Rightarrow> bool" where
  "returns_unlocked_opt res \<longleftrightarrow> (\<exists>x el'. res = Some (x, Some el') \<and> unlocked el')"

lemma returns_unlocked_simps [simp]:
  "returns_unlocked (Some (x, el)) = unlocked el" "returns_unlocked_opt (Some (x, Some el)) = unlocked el"
  by (simp_all add: returns_unlocked_def returns_unlocked_opt_def)

lemma returns_notify [simp]:
  assumes "passive_callback cb"
  shows "returns_unlocked (Some (run_and_notify cb ret el))"
    "returns_unlocked_opt (Some (map_prod id Some (run_and_notify cb ret el)))"
  using run_and_notify_unlocked [OF assms, of ret el] by (cases "run_and_notify cb ret el"; simp)+

lemma unlock_callback_unlocked: "unlocked (gvotable_unlock_callback el) \<longleftrightarrow> \<not> el_re_lock el"
  by (simp add: unlocked_def gvotable_unlock_callback_def)



text \<open>
  \<open>gvotable_set_default\<close> does not release the result mutex when it changes the default of an
  election without callback: the next vote, and the next query, never return.
\<close>

theorem set_default_keeps_result_lock:
  assumes "unlocked el" "\<not> el_is_bool_type el" "\<not> el_callback el"
    and "el_has_default_vote el = 1" "el_default_vote el \<noteq> d"
    and "reason \<noteq> ''''" "\<not> el_use_alloc el"
  shows "\<exists>el'. gvotable_set_default cb (Some el) d = Some (0, Some el')
     \<and> gvotable_cast_vote hash cb balloc valloc (Some el') (Some reason) v en = None
     \<and> gvotable_get_current_vote (Some el') True = None"
proof -
  let ?e = "el\<lparr>el_cb_lock := True, el_owner := True, el_re_lock := True, el_default_vote := d\<rparr>"
  have "\<not> fst (gvotable_internal_run_election ?e)"
    using assms(3) by (auto simp: gvotable_internal_run_election_def Let_def split: option.split)
  then obtain el2 where r: "gvotable_internal_run_election ?e = (False, el2)"
    by (metis prod.collapse)
  then have e2: "el_re_lock el2" "\<not> el_use_alloc el2" using run_election_frame [of ?e] assms(7) by auto
  have "gvotable_set_default cb (Some el) d = Some (0, Some (gvotable_unlock_callback (el2\<lparr>el_has_default_vote := 1\<rparr>)))"
    using assms(2,4,5) r by (simp add: gvotable_set_default_def lock_unlocked [OF assms(1)] Let_def)
  then show ?thesis using assms(6) e2
    by (simp add: gvotable_cast_vote_def gvotable_get_current_vote_def gvotable_lock_election_def
        gvotable_lock_result_def gvotable_unlock_callback_def)
qed

theorem set_default_keeps_result_lock_witness:
  "\<exists>el'. gvotable_set_default no_callback (Some ((int_election Cmp_int_min)\<lparr>el_has_default_vote := 1\<rparr>)) (Scalar 3) = Some (0, Some el')
     \<and> gvotable_cast_vote no_hash no_callback True None (Some el') (Some ''A'') (Scalar 1) True = None"
proof -
  let ?el = "(int_election Cmp_int_min)\<lparr>el_has_default_vote := 1\<rparr>"
  have "unlocked ?el" "\<not> el_is_bool_type ?el" "\<not> el_callback ?el" "el_has_default_vote ?el = 1"
    "el_default_vote ?el \<noteq> Scalar 3" "''A'' \<noteq> ''''" "\<not> el_use_alloc ?el"
    by (simp_all add: int_election_def zero_election_def unlocked_def)
  from set_default_keeps_result_lock [OF this, of no_callback no_hash True None "Scalar 1" True] show ?thesis by blast
qed

section \<open>Forced results and notification\<close>

text \<open>
  While a result is forced, votes are recorded but the reported value stays the forced one; when
  the force is lifted the election is not run again, so the value reported is the one decided
  before the force, whatever was voted in between.
\<close>

theorem forced_result_stands:
  assumes wf: "election_wf hash el" "unlocked el" and cb: "passive_callback cb"
    and f: "el_force_result_is_enabled el" and r: "r \<noteq> ''''" "length r < GVOTABLE_MAX_REASON_LEN"
  shows "\<exists>ret el' ret'' el''. gvotable_cast_vote hash cb True va (Some el) (Some r) v en = Some (ret, Some el')
     \<and> tally el' = (tally el)(r \<mapsto> (vote_value el v en, en))
     \<and> gvotable_get_current_vote (Some el') True = Some (Inr (el_force_result el))
     \<and> debugfs_force_int_active cb el' 0 = Some (ret'', el'')
     \<and> gvotable_get_current_vote (Some el'') True
         = Some (if el_result_is_valid el then Inr (el_result el) else Inl (- EAGAIN))"
proof -
  obtain ret el' i j where c: "gvotable_cast_vote hash cb True va (Some el) (Some r) v en = Some (ret, Some el')"
    and el': "el' = gvotable_unlock_election (snd (gvotable_internal_run_election (cast_state hash el r v en i j)))"
    and s: "tally (cast_state hash el r v en i j) = (tally el)(r \<mapsto> (vote_value el v en, en))"
    using cast_vote_wf [OF wf cb r] by blast
  have e: "el' = gvotable_unlock_election (cast_state hash el r v en i j)"
    using f by (simp add: el' gvotable_internal_run_election_def cast_state_def)
  have u: "unlocked el'" by (simp add: el')
  have fields: "el_force_result_is_enabled el'" "el_force_result el' = el_force_result el" "el_result el' = el_result el"
    "el_result_is_valid el' = el_result_is_valid el"
    using f by (simp_all add: e cast_state_def gvotable_unlock_election_def gvotable_unlock_callback_def gvotable_unlock_result_def)
  define el'' where a: "el'' = gvotable_unlock_callback (gvotable_unlock_result (el'\<lparr>el_cb_lock := True, el_owner := True,
         el_re_lock := True, el_force_result_is_enabled := False\<rparr>))"
  have x: "\<exists>x. debugfs_force_int_active cb el' 0 = Some (x, el'')"
    using run_callback_frame [OF cb]
    by (auto simp: a debugfs_force_int_active_def lock_unlocked [OF u] Let_def split_beta gvotable_unlock_result_def)
  have "gvotable_get_current_vote (Some el'') True
         = Some (if el_result_is_valid el then Inr (el_result el) else Inl (- EAGAIN))"
    using fields by (simp add: a gvotable_get_current_vote_def gvotable_lock_result_def gvotable_unlock_result_def
        gvotable_unlock_callback_def gvotable_get_current_result_unlocked_def)
  moreover have "gvotable_get_current_vote (Some el') True = Some (Inr (el_force_result el))"
    using fields u by (simp add: gvotable_get_current_vote_def gvotable_lock_result_def unlocked_def gvotable_get_current_result_unlocked_def)
  moreover have "tally el' = (tally el)(r \<mapsto> (vote_value el v en, en))" using s by (simp add: el')
  ultimately show ?thesis using c x by blast
qed

theorem forced_result_stands_witness:
  "\<exists>ret el' ret'' el''. gvotable_cast_vote no_hash no_callback True None
        (Some ((int_election Cmp_int_max)\<lparr>el_force_result_is_enabled := True, el_force_result := Scalar 7\<rparr>))
        (Some ''A'') (Scalar 9) True = Some (ret, Some el')
     \<and> gvotable_get_current_vote (Some el') True = Some (Inr (Scalar 7))
     \<and> debugfs_force_int_active no_callback el' 0 = Some (ret'', el'')
     \<and> gvotable_get_current_vote (Some el'') True = Some (Inl (- EAGAIN))"
proof -
  let ?el = "(int_election Cmp_int_max)\<lparr>el_force_result_is_enabled := True, el_force_result := Scalar 7\<rparr>"
  have "election_wf no_hash ?el" "unlocked ?el" "el_force_result_is_enabled ?el" "\<not> el_result_is_valid ?el"
    by (simp_all add: int_election_def zero_election_def unlocked_def election_wf_def)
  then show ?thesis
    using forced_result_stands [of no_hash ?el no_callback "''A''" None "Scalar 9" True] no_callback_passive
    by (auto simp: GVOTABLE_MAX_REASON_LEN_def)
qed

text \<open>
  An integer election asks for its callback exactly when it has one, automatic callbacks are on,
  no result is forced, and the outcome changed: there is now a result and there was none or the
  other way round, or the deciding reason changed, or the integer value of the result changed.
\<close>

theorem callback_iff_changed:
  assumes wf: "election_wf hash el" and c: "el_cmp el = Cmp_int_min \<or> el_cmp el = Cmp_int_max"
    and b: "\<not> el_is_bool_type el" and run: "gvotable_internal_run_election el = (callback, el')"
  shows "callback \<longleftrightarrow> el_callback el \<and> el_auto_callback el \<and> \<not> el_force_result_is_enabled el
     \<and> (el_result_is_valid el \<noteq> el_result_is_valid el'
        \<or> el_result_is_valid el' \<and> (el_reason el \<noteq> el_reason el' \<or> vote_int (el_result el) \<noteq> vote_int (el_result el')))"
proof (cases "el_force_result_is_enabled el")
  case True
  then show ?thesis using run by (auto simp: gvotable_internal_run_election_def)
next
  case nf: False
  have d: "length default_reason < GVOTABLE_MAX_REASON_LEN" by (simp add: default_reason_def GVOTABLE_MAX_REASON_LEN_def)
  have cmp: "run_cmp (el_cmp el) v w = 0 \<longleftrightarrow> vote_int v = vote_int w" for v w
    using c int_min.cmp_zero int_max.cmp_zero by auto
  have a: "\<not> el_use_alloc el" using wf by (simp add: election_wf_def)
  note defs = gvotable_internal_run_election_def Let_def gvotable_internal_update_reason_def
      gvotable_internal_update_result_def gvotable_internal_copy_result_def strn_eq_sym [of _ "el_reason el"]
  show ?thesis
  proof (cases "find b_enabled (el_votes el)")
    case None
    then show ?thesis using run nf a b d
      by (auto simp: defs strn_eq_short cmp split: if_splits)
  next
    case (Some x)
    then have l: "length (b_reason x) < GVOTABLE_MAX_REASON_LEN"
      using wf by (auto simp: election_wf_def ballot_wf_def find_Some_iff)
    have e: "callback = fst (gvotable_internal_run_election el)" "el' = snd (gvotable_internal_run_election el)"
      using run by simp_all
    show ?thesis unfolding e
      by (cases "el_result_is_valid el"; cases "el_reason el = b_reason x"; cases "el_auto_callback el";
          cases "vote_int (el_result el) = vote_int (ballot_vote x)"; simp add: defs strn_eq_short l cmp nf a b Some)
  qed
qed

theorem callback_iff_changed_witness:
  "\<not> fst (gvotable_internal_run_election ((int_election Cmp_int_max)\<lparr>el_callback := True\<rparr>))
   \<and> fst (gvotable_internal_run_election ((int_election Cmp_int_max)\<lparr>el_callback := True, el_has_default_vote := 1\<rparr>))"
proof -
  let ?a = "(int_election Cmp_int_max)\<lparr>el_callback := True\<rparr>" and ?b = "(int_election Cmp_int_max)\<lparr>el_callback := True, el_has_default_vote := 1\<rparr>"
  have r: "gvotable_internal_run_election e = (fst (gvotable_internal_run_election e), snd (gvotable_internal_run_election e))" for e
    by simp
  have e: "election_wf no_hash ?a" "election_wf no_hash ?b" "el_cmp ?a = Cmp_int_min \<or> el_cmp ?a = Cmp_int_max"
    "el_cmp ?b = Cmp_int_min \<or> el_cmp ?b = Cmp_int_max" "\<not> el_is_bool_type ?a" "\<not> el_is_bool_type ?b"
    by (simp_all add: int_election_def zero_election_def election_wf_def)
  have "el_result_is_valid (snd (gvotable_internal_run_election ?b))" "\<not> el_result_is_valid (snd (gvotable_internal_run_election ?a))"
    by (simp_all add: election_eval)
  then show ?thesis
    using callback_iff_changed [OF e(1,3,5) r] callback_iff_changed [OF e(2,4,6) r]
    by (simp add: int_election_def zero_election_def)
qed

section \<open>The registry\<close>

abbreviation (input) empty_registry :: gv_state where
  "empty_registry \<equiv> \<lparr>gv_heap = Map.empty, gv_slots = []\<rparr>"

lemma find_other:
  assumes "\<forall>q \<in> set (gv_slots st). slot_matches hash st' x q = slot_matches hash st x q"
  shows "find (slot_matches hash st' x) (gv_slots st) = find (slot_matches hash st x) (gv_slots st)"
  by (rule find_cong) (use assms in auto)

text \<open>
  C34: An election created under a name of less than 16 characters is the one that
  \<open>gvotable_election_get_handle\<close> returns for it, other names resolve as before, a second
  creation under the same name fails, and after \<open>gvotable_destroy_election\<close> the name is free and
  the registry is as it was.
\<close>

theorem registry_create_lookup_destroy:
  assumes ok: "registry_ok hash st" and fresh: "gv_heap st p = None" and short: "length name < MAX_NAME_LEN"
    and c: "gvotable_create_election hash slot_ok (Some p) addr st (Some name) vs cmp cbf data = (Some p, st')"
  shows "registry_ok hash st'
     \<and> gvotable_election_get_handle hash st' (Some name) = Some p
     \<and> (\<forall>x. x \<noteq> name \<longrightarrow> gvotable_election_get_handle hash st' (Some x) = gvotable_election_get_handle hash st (Some x))
     \<and> gvotable_create_election hash slot_ok' p' addr' st' (Some name) vs' cmp' cbf' data' = (None, st')
     \<and> gvotable_destroy_election st' (Some p) = Some (0, st)
     \<and> gvotable_election_get_handle hash st (Some name) = None"
proof (intro conjI allI impI)
  note n = create_election_named [OF c]
  note rc = registry_ok_create [OF ok fresh short c]
  obtain el where el: "gv_heap st' = (gv_heap st)(p := Some el)" "el_has_name el" "el_hash el = hash name"
     "el_name el = name" "\<not> el_re_lock el" using n(4) short by auto
  have notin: "p \<notin> set (gv_slots st)" using ok fresh by (auto simp: registry_ok_def)
  show "registry_ok hash st'" by (rule rc(1))
  have f: "gvotable_find_internal hash st' (Some name) = Some p"
    by (rule find_internal_unique [OF rc(1) _ rc(2)]) (simp add: n(3))
  then show "gvotable_election_get_handle hash st' (Some name) = Some p"
    by (simp add: gvotable_election_get_handle_def)
  show "gvotable_create_election hash slot_ok' p' addr' st' (Some name) vs' cmp' cbf' data' = (None, st')"
    using f by (simp add: gvotable_create_election_def Let_def)
  show "gvotable_election_get_handle hash st (Some name) = None"
    using n(2) by (simp add: gvotable_election_get_handle_def)
  have "gv_slots (delete_slots st' p) = gv_slots st" "gv_heap (delete_slots st' p) = (gv_heap st)(p := Some el)"
    using notin el(1) by (simp_all add: delete_slots_eq n(3), auto intro: filter_True)
  moreover have "(gv_heap st)(p := None) = gv_heap st" using fresh by auto
  ultimately show "gvotable_destroy_election st' (Some p) = Some (0, st)"
    using el(5) by (simp add: gvotable_destroy_election_def gvotable_lock_result_def el(1))
  fix x assume "x \<noteq> name"
  then have "\<not> slot_matches hash st' x p" using el short by (auto simp: slot_matches_def strn_eq_short)
  moreover have "find (slot_matches hash st' x) (gv_slots st) = find (slot_matches hash st x) (gv_slots st)"
    by (rule find_other) (use el(1) notin in \<open>auto simp: slot_matches_def\<close>)
  ultimately show "gvotable_election_get_handle hash st' (Some x) = gvotable_election_get_handle hash st (Some x)"
    by (simp add: gvotable_election_get_handle_def gvotable_find_internal_def n(3))
qed

theorem registry_create_lookup_destroy_witness:
  "\<exists>st'. gvotable_create_election no_hash True (Some 1) None empty_registry (Some ''FCC'') 4 (Some Cmp_int_min) True 0 = (Some 1, st')
     \<and> gvotable_election_get_handle no_hash st' (Some ''FCC'') = Some 1
     \<and> gvotable_destroy_election st' (Some 1) = Some (0, empty_registry)"
proof -
  let ?c = "gvotable_create_election no_hash True (Some 1) None empty_registry (Some ''FCC'') 4 (Some Cmp_int_min) True 0"
  have "fst ?c = Some 1"
    by (simp add: gvotable_create_election_def Let_def gvotable_needs_alloc_def gvotable_find_internal_def zero_election_def)
  then obtain st' where c: "?c = (Some 1, st')" by (metis prod.collapse)
  have "registry_ok no_hash empty_registry" "gv_heap empty_registry 1 = None" "length ''FCC'' < MAX_NAME_LEN"
    by (simp_all add: registry_ok_def MAX_NAME_LEN_def)
  from registry_create_lookup_destroy [OF this c] c show ?thesis by blast
qed

text \<open>
  An election created under a name of 16 or more characters is never found by that name: the
  name is stored truncated but compared over 16 characters. The check for duplicates does not
  see it either, and a second election of the same name is created beside it.
\<close>

theorem long_name_not_found:
  assumes "\<forall>q \<in> set (gv_slots st). \<forall>el. gv_heap st q = Some el \<longrightarrow> length (el_name el) < MAX_NAME_LEN"
    and "length name \<ge> MAX_NAME_LEN" and "p \<notin> set (gv_slots st)"
    and "\<not> gvotable_needs_alloc vs"
  shows "\<exists>st'. gvotable_create_election hash True (Some p) addr st (Some name) vs cmp cbf data = (Some p, st')
     \<and> gvotable_election_get_handle hash st' (Some name) = None"
proof -
  have nm: "gvotable_find_internal hash s (Some name) = None"
    if "\<forall>q \<in> set (gv_slots s). \<forall>el. gv_heap s q = Some el \<longrightarrow> length (el_name el) < MAX_NAME_LEN" for s
    using that assms(2) by (fastforce simp: find_internal_None slot_matches_def strn_eq_short split: option.splits)
  obtain st' where c: "gvotable_create_election hash True (Some p) addr st (Some name) vs cmp cbf data = (Some p, st')"
    using nm [OF assms(1)] assms(4) by (auto simp: gvotable_create_election_def Let_def)
  note n = create_election_named [OF c]
  have "gvotable_find_internal hash st' (Some name) = None"
    by (rule nm) (use n(3,4) assms(1) in \<open>auto simp: length_strlcpy MAX_NAME_LEN_def split: if_splits\<close>)
  then show ?thesis using c by (auto simp: gvotable_election_get_handle_def)
qed

theorem long_name_not_found_witness:
  "\<exists>st'. gvotable_create_election no_hash True (Some 1) None empty_registry (Some ''CHARGER_CURRENT_LIMIT'') 4 None False 0 = (Some 1, st')
     \<and> gvotable_election_get_handle no_hash st' (Some ''CHARGER_CURRENT_LIMIT'') = None"
  using long_name_not_found [of empty_registry "''CHARGER_CURRENT_LIMIT''" 1 4 no_hash None None False 0]
  by (simp add: MAX_NAME_LEN_def gvotable_needs_alloc_def)

end
