(* ===== verification/Chg_Profile.thy ===== *)
theory Chg_Profile
  imports Kernel_Prelude
begin

text \<open>
  The charge profile of \<^verbatim>\<open>src/google-modules/bms/google_bms.c\<close>: the tables of temperature and
  voltage limits with the charge current of each pair of tiers, how they are loaded from the device
  tree, converted to currents, and looked up while charging; with the aging tables (capacity fade,
  float-voltage offsets, adaptive charge tables, cycle weights) that are part of a profile.

  Signed C integers are \<^typ>\<open>int\<close>, unsigned ones words of 32 bits; arrays are lists of their
  declared length. An operation that would read or write outside an array, or divide by zero, has
  the result \<^term>\<open>None\<close>. The device tree is a parameter: a node gives the number of
  elements of a property, its first elements, a single value and a flag, each with the error code
  the kernel returns. The outcome of an allocation is a parameter too.
\<close>

section \<open>Data\<close>

abbreviation (input) GBMS_CHG_TEMP_NB_LIMITS_MAX :: int where "GBMS_CHG_TEMP_NB_LIMITS_MAX \<equiv> 10"
abbreviation (input) GBMS_CHG_VOLT_NB_LIMITS_MAX :: int where "GBMS_CHG_VOLT_NB_LIMITS_MAX \<equiv> 10"
abbreviation (input) GBMS_CHG_TOPOFF_NB_LIMITS_MAX :: int where "GBMS_CHG_TOPOFF_NB_LIMITS_MAX \<equiv> 10"
abbreviation (input) GBMS_AACR_DATA_MAX :: int where "GBMS_AACR_DATA_MAX \<equiv> 10"
abbreviation (input) GBMS_AAFV_DATA_MAX :: int where "GBMS_AAFV_DATA_MAX \<equiv> 16"
abbreviation (input) GBMS_AACT_NB_LIMITS_MAX :: int where "GBMS_AACT_NB_LIMITS_MAX \<equiv> 5"
abbreviation (input) GBMS_AACC_TEMP_NB_MAX :: int where "GBMS_AACC_TEMP_NB_MAX \<equiv> 10"
abbreviation (input) GBMS_AACC_SOC_SIZE :: int where "GBMS_AACC_SOC_SIZE \<equiv> 100"

record aacc_weight_profile =
  aw_temp_nb_limits :: int
  aw_temp_limits :: "int list"
  aw_weight_limits :: "u32 list option"

text \<open>A pointer to a table is \<^term>\<open>None\<close> when it is NULL.\<close>

record gbms_chg_profile =
  temp_nb_limits :: int
  temp_limits :: "int list"
  volt_nb_limits :: int
  volt_limits :: "int list"
  topoff_nb_limits :: int
  topoff_limits :: "int list"
  cccm_limits :: "u32 list option"
  capacity_ma :: u32
  last_volt :: u32
  fv_uv_margin_dpct :: u32
  fv_dc_ratio :: u32
  cv_range_accuracy :: u32
  cv_debounce_cnt :: u32
  cv_update_interval :: u32
  cv_tier_ov_cnt :: u32
  cv_tier_switch_cnt :: u32
  fv_uv_resolution :: u32
  cv_otv_margin :: u32
  cc_ua_resolution :: u32
  aacr_reference_cycles :: "u32 list"
  aacr_reference_fade10 :: "u32 list"
  aacr_nb_limits :: u32
  aafv_cycles :: "u32 list"
  aafv_offsets :: "u32 list"
  aafv_nb_limits :: u32
  aact_temp_nb_limits :: int
  aact_temp_limits :: "int list"
  aact_volt_nb_limits :: int
  aact_volt_limits :: "int list"
  aact_nb_limits :: int
  aact_limits :: "int list"
  aact_idx :: int
  aact_init_profile :: bool
  aact_update_profile :: bool
  aact_support_multiple_profiles :: bool
  aact_load_chg_ecc :: bool
  aact_cccm_limits :: "u32 list option"
  aacc_chg :: aacc_weight_profile
  aacc_dsg :: aacc_weight_profile
  enable_switch_chg_profile :: bool

text \<open>
  A node of the device tree: \<open>of_property_count_elems_of_size\<close>, \<open>of_property_read_u32_array\<close>,
  \<open>of_property_read_u32\<close> and \<open>of_property_read_bool\<close>.
\<close>

record dt_node =
  dt_count :: "string \<Rightarrow> int"
  dt_array :: "string \<Rightarrow> nat \<Rightarrow> int + u32 list"
  dt_u32 :: "string \<Rightarrow> int + u32"
  dt_bool :: "string \<Rightarrow> bool"

text \<open>
  A read of an array that succeeds stores as many elements as were asked for; one that fails
  returns a negative error code.
\<close>

definition dt_ok :: "dt_node \<Rightarrow> bool" where
  "dt_ok node \<longleftrightarrow> (\<forall>name n. case dt_array node name n of Inr xs \<Rightarrow> length xs = n | Inl e \<Rightarrow> e < 0)"

lemma dt_array_ok: "dt_ok node \<Longrightarrow> dt_array node name n = Inr xs \<Longrightarrow> length xs = n"
  unfolding dt_ok_def by (drule spec [of _ name], drule spec [of _ n]) simp

lemma dt_array_err: "dt_ok node \<Longrightarrow> dt_array node name n = Inl e \<Longrightarrow> e < 0"
  unfolding dt_ok_def by (drule spec [of _ name], drule spec [of _ n]) simp

section \<open>Names of charger states\<close>

text \<open>
  The tables of names are arrays of pointers, where entries without initializer are NULL
  (\<^term>\<open>None\<close>). The value of \<open>POWER_SUPPLY_CHARGE_TYPE_TAPER_EXT\<close>, which the kernel defines
  beyond the standard charge types, is the parameter \<open>taper_ext\<close>.
\<close>

definition psy_chgt_str :: "nat \<Rightarrow> string option list" where
  "psy_chgt_str taper_ext =
     map Some [''Unknown'', ''N/A'', ''Trickle'', ''Fast'', ''Standard'', ''Adaptive'', ''Custom'', ''Long Life'']
     @ replicate (taper_ext - 8) None @ [Some ''Taper'']"

definition psy_chgs_str :: "string option list" where
  "psy_chgs_str = map Some [''Unknown'', ''Charging'', ''Discharging'', ''Not Charging'', ''Full'']"

definition chg_ev_adapter_type_str :: "string option list" where
  "chg_ev_adapter_type_str = map Some [''UNKNOWN'', ''USB'', ''USB_SDP'', ''USB_DCP'', ''USB_CDP'', ''USB_ACA'', ''USB_C'', ''USB_PD'',
     ''USB_PD_DRP'', ''USB_PD_PPS'', ''USB_BRICKID'', ''USB_HVDCP'', ''USB_HVDCP3'', ''FLOAT'', ''WLC'', ''WLC_EPP'', ''WLC_SPP'',
     ''GPP'', ''10W'', ''L7'', ''DL'', ''WPC_EPP'', ''WPC_GPP'', ''WPC_10W'', ''WPC_BPP'', ''WPC_L7'', ''EXT'', ''EXT1'', ''EXT2'',
     ''EXT_UNKNOWN'', ''USB_UNKNOWN'', ''WLC_UNKNOWN'']"

text \<open>The comparison of the index with \<open>ARRAY_SIZE\<close> lets the size itself pass.\<close>

definition name_lookup :: "string option list \<Rightarrow> int \<Rightarrow> string option option" where
  "name_lookup names i = (if i < 0 \<or> i > int (length names) then Some (Some ''<err>'') else arr_get names i)"

definition gbms_chg_type_s :: "nat \<Rightarrow> int \<Rightarrow> string option option" where
  "gbms_chg_type_s taper_ext cgh_type = name_lookup (psy_chgt_str taper_ext) cgh_type"

definition gbms_chg_status_s :: "int \<Rightarrow> string option option" where
  "gbms_chg_status_s chg_status = name_lookup psy_chgs_str chg_status"

definition gbms_chg_ev_adapter_s :: "int \<Rightarrow> string option option" where
  "gbms_chg_ev_adapter_s adapter = name_lookup chg_ev_adapter_type_str adapter"

definition msc_codes :: "string list" where
  "msc_codes = [''n'', ''s'', ''d'', ''l'', ''v'', ''vo'', ''p'', ''f'', ''t'', ''dl'', ''st'', ''tc'', ''r'', ''w'', ''rs'',
     ''n'', ''ny'', ''do'', ''h'', ''hp'', ''ha'']"

definition gbms_get_code :: "int \<Rightarrow> string" where
  "gbms_get_code index = (case arr_get msc_codes index of Some c \<Rightarrow> c | None \<Rightarrow> ''?'')"

section \<open>The battery's node of the device tree\<close>

abbreviation (input) GBMS_STORAGE_READ_RETRIES :: nat where "GBMS_STORAGE_READ_RETRIES \<equiv> 20"

text \<open>The read of the battery id is retried while its storage is not there yet.\<close>

fun batt_id_read :: "(nat \<Rightarrow> int \<times> u32) \<Rightarrow> nat \<Rightarrow> nat \<Rightarrow> int \<times> u32" where
  "batt_id_read rd attempt 0 = rd attempt"
| "batt_id_read rd attempt (Suc retry_cnt) =
     (if fst (rd attempt) \<noteq> - EPROBE_DEFER then rd attempt else batt_id_read rd (attempt + 1) retry_cnt)"

definition gbms_batt_id_node :: "(nat \<Rightarrow> int \<times> u32) \<Rightarrow> dt_node list \<Rightarrow> dt_node \<Rightarrow> dt_node" where
  "gbms_batt_id_node rd child_nodes config_node =
     (case batt_id_read rd 0 GBMS_STORAGE_READ_RETRIES of
        (ret, batt_id) \<Rightarrow>
          if ret < 0 then config_node
          else case find (\<lambda>c. dt_u32 c ''google,batt-id'' = Inr batt_id) child_nodes of
                 Some c \<Rightarrow> c | None \<Rightarrow> config_node)"

section \<open>Reading a profile\<close>

text \<open>
  \<open>read_limits\<close> is the step that every table goes through: count the elements, reject none or
  more than the array holds, read them. With two nodes, the second is asked when the first fails.
\<close>

definition count_or :: "dt_node \<Rightarrow> dt_node \<Rightarrow> string \<Rightarrow> int" where
  "count_or node node' name = (if dt_count node name \<le> 0 then dt_count node' name else dt_count node name)"

definition array_or :: "dt_node \<Rightarrow> dt_node \<Rightarrow> string \<Rightarrow> nat \<Rightarrow> int + u32 list" where
  "array_or node node' name n =
     (case dt_array node name n of
        Inr xs \<Rightarrow> Inr xs
      | Inl e \<Rightarrow> dt_array node' name n)"

definition read_limits :: "int \<Rightarrow> int \<Rightarrow> int + u32 list \<Rightarrow> int list \<Rightarrow> int \<times> int list" where
  "read_limits nb_max nb table old =
     (if nb \<le> 0 then (- EINVAL, old)
      else if nb > nb_max then (- EINVAL, old)
      else case table of Inl e \<Rightarrow> (e, old) | Inr xs \<Rightarrow> (0, array_fill (map sint xs) old))"

definition gbms_read_cccm_limits :: "dt_node \<Rightarrow> dt_node \<Rightarrow> gbms_chg_profile \<Rightarrow> int \<times> gbms_chg_profile" where
  "gbms_read_cccm_limits node batt profile =
     (let nb = dt_count node ''google,chg-temp-limits'';
          (ret, ts) = read_limits GBMS_CHG_TEMP_NB_LIMITS_MAX nb (dt_array node ''google,chg-temp-limits'' (nat nb)) (temp_limits profile);
          p1 = profile\<lparr>temp_nb_limits := nb, temp_limits := ts\<rparr>
      in if ret < 0 then (ret, p1)
      else let
          vnb = count_or batt node ''google,chg-cv-limits'';
          (ret, vs) = read_limits GBMS_CHG_VOLT_NB_LIMITS_MAX vnb (array_or batt node ''google,chg-cv-limits'' (nat vnb)) (volt_limits p1);
          p2 = p1\<lparr>volt_nb_limits := vnb, volt_limits := vs\<rparr>
      in if ret < 0 then (ret, p2)
      else let
          tnb = dt_count node ''google,chg-topoff-limits'';
          p3 = p2\<lparr>topoff_limits := map (\<lambda>_. 0) (topoff_limits p2), topoff_nb_limits := tnb\<rparr>
      in if tnb > 0
         then let (ret, os) = read_limits GBMS_CHG_TOPOFF_NB_LIMITS_MAX tnb (dt_array node ''google,chg-topoff-limits'' (nat tnb)) (topoff_limits p3)
              in (if ret < 0 then ret else 0, p3\<lparr>topoff_limits := os\<rparr>)
         else (0, p3))"

text \<open>\<open>u32 x = int_expr;\<close> keeps the low 32 bits.\<close>

definition cccm_array_size :: "int \<Rightarrow> int \<Rightarrow> nat" where
  "cccm_array_size temps volts = unat (word_of_int (temps * volts) :: u32)"

definition dt_u32_or :: "dt_node \<Rightarrow> string \<Rightarrow> u32 \<Rightarrow> u32" where
  "dt_u32_or node name dflt =
     (case dt_u32 node name of Inr x \<Rightarrow> x | Inl e \<Rightarrow> dflt)"

text \<open>\<open>volt_limits[vi] / fv_uv_resolution * fv_uv_resolution\<close> in unsigned arithmetic.\<close>

definition round_volt :: "u32 \<Rightarrow> int \<Rightarrow> int" where
  "round_volt res v = sint (((word_of_int v :: u32) div res) * res)"

definition gbms_init_chg_profile_internal ::
  "bool \<Rightarrow> dt_node \<Rightarrow> dt_node \<Rightarrow> gbms_chg_profile \<Rightarrow> (int \<times> gbms_chg_profile) option" where
  "gbms_init_chg_profile_internal alloc_ok node batt profile =
     (case gbms_read_cccm_limits node batt profile of
        (ret, p1) \<Rightarrow>
          if ret < 0 then Some (ret, p1)
          else let size = cccm_array_size (temp_nb_limits p1 - 1) (volt_nb_limits p1) in
            if \<not> alloc_ok then Some (- ENOMEM, p1\<lparr>cccm_limits := None\<rparr>)
            else case dt_array node ''google,chg-cc-limits'' size of
              Inl e \<Rightarrow> Some (- EINVAL, p1\<lparr>cccm_limits := None\<rparr>)
            | Inr ccm \<Rightarrow>
               (let res = dt_u32_or node ''google,fv-uv-resolution'' 25000;
                    p2 = p1\<lparr>cccm_limits := Some ccm,
                      fv_uv_resolution := res,
                      cc_ua_resolution := dt_u32_or node ''google,chg-cc-ua-resolution'' res,
                      cv_range_accuracy := dt_u32_or node ''google,cv-range-accuracy'' (res div 2),
                      fv_uv_margin_dpct := dt_u32_or node ''google,fv-uv-margin-dpct'' 1020,
                      fv_dc_ratio := dt_u32_or node ''google,fv-dc-ratio'' 20,
                      cv_debounce_cnt := dt_u32_or node ''google,cv-debounce-cnt'' 3,
                      cv_update_interval := dt_u32_or node ''google,cv-update-interval'' 2000,
                      cv_tier_ov_cnt := dt_u32_or node ''google,cv-tier-ov-cnt'' 10,
                      cv_tier_switch_cnt := dt_u32_or node ''google,cv-tier-switch-cnt'' 3,
                      cv_otv_margin := dt_u32_or node ''google,cv-otv-margin'' 0,
                      enable_switch_chg_profile := dt_bool node ''google,enable-switch-chg-profile''\<rparr>
                in if res = 0 then None
                   else let vs = map (round_volt res) (take (nat (volt_nb_limits p2)) (volt_limits p2))
                                 @ drop (nat (volt_nb_limits p2)) (volt_limits p2)
                        in case arr_get vs (volt_nb_limits p2 - 1) of
                             None \<Rightarrow> None
                           | Some lv \<Rightarrow> Some (0, p2\<lparr>volt_limits := vs, last_volt := word_of_int lv,
                                aact_init_profile := False, aact_update_profile := False\<rparr>)))"

definition gbms_free_chg_profile :: "gbms_chg_profile \<Rightarrow> gbms_chg_profile" where
  "gbms_free_chg_profile profile = profile\<lparr>cccm_limits := None\<rparr>"

section \<open>The table of currents\<close>

definition GBMS_AACT_TI :: "gbms_chg_profile \<Rightarrow> int" where
  "GBMS_AACT_TI profile =
     (if aact_support_multiple_profiles profile then 0 else aact_idx profile * (temp_nb_limits profile - 1))"

definition GBMS_AACT_IDX :: "gbms_chg_profile \<Rightarrow> int" where
  "GBMS_AACT_IDX profile = (if aact_support_multiple_profiles profile then aact_idx profile else 0)"

definition GBMS_AACT_NB_LIMITS :: "gbms_chg_profile \<Rightarrow> int" where
  "GBMS_AACT_NB_LIMITS profile = (if aact_support_multiple_profiles profile then 1 else aact_nb_limits profile)"

definition GBMS_CCCM_LIMITS :: "gbms_chg_profile \<Rightarrow> int \<Rightarrow> int \<Rightarrow> u32 option" where
  "GBMS_CCCM_LIMITS profile ti vi =
     (if ti \<ge> 0 \<and> vi \<ge> 0
      then Option.bind (cccm_limits profile) (\<lambda>t. arr_get t ((ti + GBMS_AACT_TI profile) * volt_nb_limits profile + vi))
      else Some 0)"

text \<open>\<open>ccm *= capacity_ma * 10\<close>, then \<open>DIV_ROUND_CLOSEST\<close> with an unsigned dividend.\<close>

definition ccm_to_current :: "u32 \<Rightarrow> u32 \<Rightarrow> u32 \<Rightarrow> u32" where
  "ccm_to_current step capacity ccm =
     (let ua = ccm * (capacity * 10)
      in if step = 0 then ua
         else ((ua + word_of_int (cdiv (sint step) 2)) div step) * step)"

text \<open>The two nested loops over the tiers, one cell at a time.\<close>

definition table_cells :: "int \<Rightarrow> int \<Rightarrow> (int \<times> int) list" where
  "table_cells temps volts = List.product [0..temps - 1] [0..volts - 1]"

fun convert_cells :: "(u32 \<Rightarrow> u32) \<Rightarrow> int \<Rightarrow> u32 list \<Rightarrow> (int \<times> int) list \<Rightarrow> u32 list option" where
  "convert_cells f volts t [] = Some t"
| "convert_cells f volts t ((ti, vi) # cells) =
     (case arr_get t (ti * volts + vi) of
        None \<Rightarrow> None
      | Some ccm \<Rightarrow> convert_cells f volts (t[nat (ti * volts + vi) := f ccm]) cells)"

definition aact_cc_names :: "string list" where
  "aact_cc_names = [''google,aact-cc-limits'', ''google,aact-cc-limits-1'', ''google,aact-cc-limits-2'',
     ''google,aact-cc-limits-3'', ''google,aact-cc-limits-4'']"

definition aact_temp_names :: "string list" where
  "aact_temp_names = [''google,aact-temp-limits'', ''google,aact-temp-limits-1'', ''google,aact-temp-limits-2'',
     ''google,aact-temp-limits-3'', ''google,aact-temp-limits-4'']"

definition aact_cv_names :: "string list" where
  "aact_cv_names = [''google,aact-cv-limits'', ''google,aact-cv-limits-1'', ''google,aact-cv-limits-2'',
     ''google,aact-cv-limits-3'', ''google,aact-cv-limits-4'']"

text \<open>
  The copy of, or the read into, the table: a fault when it is NULL or shorter than the data.
\<close>

definition fill_table :: "u32 list option \<Rightarrow> u32 list \<Rightarrow> u32 list option" where
  "fill_table table xs =
     (case table of None \<Rightarrow> None | Some t \<Rightarrow> if length xs \<le> length t then Some (array_fill xs t) else None)"

definition gbms_init_chg_table ::
  "dt_node \<Rightarrow> dt_node \<Rightarrow> gbms_chg_profile \<Rightarrow> u32 \<Rightarrow> gbms_chg_profile option" where
  "gbms_init_chg_table node batt profile capacity =
     (let aact_count = (temp_nb_limits profile - 1) * GBMS_AACT_NB_LIMITS profile;
          count = (if aact_init_profile profile then aact_count else temp_nb_limits profile - 1);
          size = cccm_array_size count (volt_nb_limits profile);
          p1 = profile\<lparr>capacity_ma := capacity\<rparr>;
          loaded =
            (if aact_init_profile profile \<and> aact_update_profile profile
             then (case aact_cccm_limits profile of
                     None \<Rightarrow> None
                   | Some a \<Rightarrow> if size \<le> length a then fill_table (cccm_limits profile) (take size a) else None)
             else if \<not> aact_init_profile profile
             then (case dt_array node ''google,chg-cc-limits'' size of
                     Inr xs \<Rightarrow> fill_table (cccm_limits profile) xs | Inl e \<Rightarrow> cccm_limits profile)
             else (case arr_get aact_cc_names (GBMS_AACT_IDX profile) of
                     None \<Rightarrow> None
                   | Some name \<Rightarrow>
                       (case array_or batt node name size of
                          Inr xs \<Rightarrow> fill_table (cccm_limits profile) xs | Inl e \<Rightarrow> cccm_limits profile)))
      in case loaded of
           None \<Rightarrow> None
         | Some t \<Rightarrow>
             map_option (\<lambda>t'. p1\<lparr>cccm_limits := Some t'\<rparr>)
               (convert_cells (ccm_to_current (cc_ua_resolution profile) capacity) (volt_nb_limits profile) t
                  (table_cells count (volt_nb_limits profile))))"

section \<open>Aging tables\<close>

subsection \<open>Capacity fade\<close>

text \<open>
  The two tables of a feature are read when both exist, with the same number of elements.
\<close>

definition read_pair ::
  "dt_node \<Rightarrow> string \<Rightarrow> string \<Rightarrow> int \<Rightarrow> u32 list \<Rightarrow> u32 list \<Rightarrow> u32 \<Rightarrow> int \<times> u32 list \<times> u32 list \<times> u32" where
  "read_pair node name1 name2 nb_max old1 old2 old_nb =
     (let n1 = dt_count node name1 in
      if n1 < 0 then (n1, old1, old2, 0)
      else let n2 = dt_count node name2 in
      if n2 < 0 then (n2, old1, old2, 0)
      else if n1 \<noteq> n2 \<or> n1 > nb_max \<or> n1 = 0 then (- ERANGE, old1, old2, 0)
      else case dt_array node name1 (nat n1) of
        Inl e \<Rightarrow> (e, old1, old2, old_nb)
      | Inr xs \<Rightarrow>
          (case dt_array node name2 (nat n2) of
             Inl e \<Rightarrow> (e, array_fill xs old1, old2, old_nb)
           | Inr ys \<Rightarrow> (0, array_fill xs old1, array_fill ys old2, word_of_int n1)))"

definition gbms_read_aacr_limits :: "dt_node option \<Rightarrow> gbms_chg_profile option \<Rightarrow> int \<times> gbms_chg_profile option" where
  "gbms_read_aacr_limits pnode pprofile =
     (case (pprofile, pnode) of
        (Some profile, Some node) \<Rightarrow>
          (case read_pair node ''google,aacr-ref-cycles'' ''google,aacr-ref-fade10'' GBMS_AACR_DATA_MAX
                 (aacr_reference_cycles profile) (aacr_reference_fade10 profile) (aacr_nb_limits profile) of
             (ret, cs, fs, nb) \<Rightarrow>
               (ret, Some (profile\<lparr>aacr_reference_cycles := cs, aacr_reference_fade10 := fs, aacr_nb_limits := nb\<rparr>)))
      | _ \<Rightarrow> (- ENODEV, pprofile))"

text \<open>The index of the first reference above \<open>cycles\<close>, at most the last one.\<close>

definition ref_index :: "u32 list \<Rightarrow> u32 \<Rightarrow> int \<Rightarrow> int option" where
  "ref_index refs nb cycles =
     scan_up (\<lambda>idx. map_option (\<lambda>c. \<not> cycles < uint c) (arr_get refs idx)) (uint (nb - 1)) 0"

definition gbms_aacr_fade10 :: "gbms_chg_profile \<Rightarrow> int \<Rightarrow> int option" where
  "gbms_aacr_fade10 profile cycles =
     (if aacr_nb_limits profile = 0 \<or> cycles < 0 then Some (- EINVAL)
      else case ref_index (aacr_reference_cycles profile) (aacr_nb_limits profile) cycles of
        None \<Rightarrow> None
      | Some idx \<Rightarrow>
          (case (arr_get (aacr_reference_cycles profile) idx, arr_get (aacr_reference_fade10 profile) idx) of
             (Some cf, Some ff) \<Rightarrow>
               (let cycle_f = sint cf; fade_f = sint ff;
                    start = (if idx > 0
                             then (case (arr_get (aacr_reference_cycles profile) (idx - 1),
                                         arr_get (aacr_reference_fade10 profile) (idx - 1)) of
                                     (Some cs, Some fs) \<Rightarrow> Some (sint cs, sint fs) | _ \<Rightarrow> None)
                             else Some (0, 0))
                in case start of
                     None \<Rightarrow> None
                   | Some (cycle_s, fade_s) \<Rightarrow>
                       if cycle_f - cycle_s = 0 then None
                       else Some (cdiv ((cycles - cycle_s) * (fade_f - fade_s)) (cycle_f - cycle_s) + fade_s))
           | _ \<Rightarrow> None))"

subsection \<open>Float-voltage offsets\<close>

definition gbms_read_aafv_limits :: "dt_node option \<Rightarrow> gbms_chg_profile option \<Rightarrow> int \<times> gbms_chg_profile option" where
  "gbms_read_aafv_limits pnode pprofile =
     (case (pprofile, pnode) of
        (Some profile, Some node) \<Rightarrow>
          (case read_pair node ''google,aafv-ref-cycles'' ''google,aafv-ref-offset'' GBMS_AAFV_DATA_MAX
                 (aafv_cycles profile) (aafv_offsets profile) (aafv_nb_limits profile) of
             (ret, cs, os, nb) \<Rightarrow>
               (ret, Some (profile\<lparr>aafv_cycles := cs, aafv_offsets := os, aafv_nb_limits := nb\<rparr>)))
      | _ \<Rightarrow> (- ENODEV, pprofile))"

definition gbms_aafv_get_offset :: "gbms_chg_profile \<Rightarrow> int \<Rightarrow> int option" where
  "gbms_aafv_get_offset profile cycles =
     (if aafv_nb_limits profile = 0 \<or> cycles < 0 then Some 0
      else Option.bind (ref_index (aafv_cycles profile) (aafv_nb_limits profile) cycles)
             (\<lambda>idx. map_option sint (arr_get (aafv_offsets profile) idx)))"

text \<open>The comparison \<open>offset >= 0\<close> of an unsigned value always holds.\<close>

definition gbms_aafv_offset_is_valid :: "gbms_chg_profile \<Rightarrow> u32 \<Rightarrow> u32 \<Rightarrow> bool option" where
  "gbms_aafv_offset_is_valid profile offset len =
     (case (if volt_nb_limits profile > 1
            then map_option word_of_int (arr_get (volt_limits profile) (volt_nb_limits profile - 2)) else Some 0) of
        None \<Rightarrow> None
      | Some penultimate_fv \<Rightarrow>
          let delta = (last_volt profile - penultimate_fv) div 1000
          in Some (offset < delta \<and> len > 0))"

definition gbms_aafv_get_last_entry :: "gbms_chg_profile \<Rightarrow> int option" where
  "gbms_aafv_get_last_entry profile =
     (if aafv_nb_limits profile > 1
      then map_option sint (arr_get (aafv_cycles profile) (uint (aafv_nb_limits profile - 2))) else Some 0)"

subsection \<open>Cycle weights\<close>

text \<open>The body that the charge and the discharge table share.\<close>

definition read_weights ::
  "bool \<Rightarrow> dt_node \<Rightarrow> string \<Rightarrow> string \<Rightarrow> aacc_weight_profile \<Rightarrow> int \<times> aacc_weight_profile" where
  "read_weights alloc_ok node temp_name weight_name w =
     (let nb = dt_count node temp_name;
          (ret, ts) = read_limits GBMS_AACC_TEMP_NB_MAX nb (dt_array node temp_name (nat nb)) (aw_temp_limits w);
          w1 = w\<lparr>aw_temp_nb_limits := nb, aw_temp_limits := ts\<rparr>
      in if ret < 0 then (- EINVAL, w1)
         else if \<not> alloc_ok then (- ENOMEM, w1\<lparr>aw_weight_limits := None\<rparr>)
         else case dt_array node weight_name (cccm_array_size (nb - 1) GBMS_AACC_SOC_SIZE) of
                Inl e \<Rightarrow> (- EINVAL, w1\<lparr>aw_weight_limits := None\<rparr>)
              | Inr xs \<Rightarrow> (0, w1\<lparr>aw_weight_limits := Some xs\<rparr>))"

definition gbms_read_aacc_chg_weights ::
  "bool \<Rightarrow> dt_node option \<Rightarrow> gbms_chg_profile option \<Rightarrow> int \<times> gbms_chg_profile option" where
  "gbms_read_aacc_chg_weights alloc_ok pnode pprofile =
     (case (pprofile, pnode) of
        (Some profile, Some node) \<Rightarrow>
          (case read_weights alloc_ok node ''google,aacc-chg-temp'' ''google,aacc-chg-weights'' (aacc_chg profile) of
             (ret, w) \<Rightarrow> (ret, Some (profile\<lparr>aacc_chg := w\<rparr>)))
      | _ \<Rightarrow> (- ENODEV, pprofile))"

definition gbms_read_aacc_dsg_weights ::
  "bool \<Rightarrow> dt_node option \<Rightarrow> gbms_chg_profile option \<Rightarrow> int \<times> gbms_chg_profile option" where
  "gbms_read_aacc_dsg_weights alloc_ok pnode pprofile =
     (case (pprofile, pnode) of
        (Some profile, Some node) \<Rightarrow>
          (case read_weights alloc_ok node ''google,aacc-dsg-temp'' ''google,aacc-dsg-weights'' (aacc_dsg profile) of
             (ret, w) \<Rightarrow> (ret, Some (profile\<lparr>aacc_dsg := w\<rparr>)))
      | _ \<Rightarrow> (- ENODEV, pprofile))"

text \<open>The tier of a value in a table of limits: the search that the temperature lookups share.\<close>

definition tier_search :: "int list \<Rightarrow> int \<Rightarrow> int \<Rightarrow> int option" where
  "tier_search limits nb x = scan_up (\<lambda>i. map_option (\<lambda>l. x \<ge> l) (arr_get limits (i + 1))) (nb - 2) 0"

definition gbms_aacc_temp_idx :: "gbms_chg_profile \<Rightarrow> int \<Rightarrow> bool \<Rightarrow> int option" where
  "gbms_aacc_temp_idx profile temp is_charge =
     (let w = (if is_charge then aacc_chg profile else aacc_dsg profile)
      in tier_search (aw_temp_limits w) (aw_temp_nb_limits w) temp)"

subsection \<open>Adaptive charge tables\<close>

definition gbms_read_chg_aact_ecc :: "dt_node \<Rightarrow> dt_node \<Rightarrow> gbms_chg_profile \<Rightarrow> int \<times> gbms_chg_profile" where
  "gbms_read_chg_aact_ecc node batt profile =
     (let multi = ''google,aact-support-multiple-profiles'';
          nb = count_or batt node ''google,chg-aact-ecc'';
          (ret, ls) = read_limits GBMS_AACT_NB_LIMITS_MAX nb (array_or batt node ''google,chg-aact-ecc'' (nat nb)) (aact_limits profile);
          p1 = profile\<lparr>aact_support_multiple_profiles := (dt_bool batt multi \<or> dt_bool node multi),
                 aact_nb_limits := nb, aact_limits := ls\<rparr>
      in if ret < 0 then (ret, p1) else (0, p1\<lparr>aact_load_chg_ecc := True\<rparr>))"

definition gbms_read_aact_cccm_limits ::
  "dt_node \<Rightarrow> dt_node \<Rightarrow> gbms_chg_profile \<Rightarrow> (int \<times> gbms_chg_profile) option" where
  "gbms_read_aact_cccm_limits node batt profile =
     (case (if aact_load_chg_ecc profile then (0, profile) else gbms_read_chg_aact_ecc node batt profile) of
        (ret, p1) \<Rightarrow>
          if ret < 0 then Some (ret, p1)
          else case (arr_get aact_temp_names (GBMS_AACT_IDX p1), arr_get aact_cv_names (GBMS_AACT_IDX p1)) of
            (Some tname, Some vname) \<Rightarrow>
              (let nb = count_or batt node tname;
                   (ret, ts) = read_limits GBMS_CHG_TEMP_NB_LIMITS_MAX nb (array_or batt node tname (nat nb)) (aact_temp_limits p1);
                   p2 = p1\<lparr>aact_temp_nb_limits := nb, aact_temp_limits := ts\<rparr>
               in if ret < 0 then Some (ret, p2)
               else let
                   vnb = count_or batt node vname;
                   (ret, vs) = read_limits GBMS_CHG_VOLT_NB_LIMITS_MAX vnb (array_or batt node vname (nat vnb)) (aact_volt_limits p2);
                   p3 = p2\<lparr>aact_volt_nb_limits := vnb, aact_volt_limits := vs\<rparr>
               in Some (if ret < 0 then ret else 0, p3))
          | _ \<Rightarrow> None)"

text \<open>When the read of the new table fails, it is the other table that is released.\<close>

definition gbms_init_aact_profile_internal ::
  "bool \<Rightarrow> dt_node \<Rightarrow> dt_node \<Rightarrow> gbms_chg_profile \<Rightarrow> (int \<times> gbms_chg_profile) option" where
  "gbms_init_aact_profile_internal alloc_ok node batt profile =
     (if aact_update_profile profile then Some (0, profile)
      else case gbms_read_aact_cccm_limits node batt profile of
        None \<Rightarrow> None
      | Some (ret, p1) \<Rightarrow>
          if ret < 0 then Some (ret, p1)
          else let size = unat (word_of_int ((aact_temp_nb_limits p1 - 1) * aact_volt_nb_limits p1 * GBMS_AACT_NB_LIMITS p1) :: u32) in
            if \<not> alloc_ok then Some (- ENOMEM, p1\<lparr>aact_cccm_limits := None\<rparr>)
            else case arr_get aact_cc_names (GBMS_AACT_IDX p1) of
              None \<Rightarrow> None
            | Some name \<Rightarrow>
                (case array_or batt node name size of
                   Inl e \<Rightarrow> Some (- EINVAL, p1\<lparr>aact_cccm_limits := Some (replicate size 0), cccm_limits := None\<rparr>)
                 | Inr xs \<Rightarrow> Some (0, p1\<lparr>aact_cccm_limits := Some xs\<rparr>)))"

definition gbms_update_chg_profile_from_aact :: "bool \<Rightarrow> gbms_chg_profile \<Rightarrow> (int \<times> gbms_chg_profile) option" where
  "gbms_update_chg_profile_from_aact alloc_ok profile =
     (let size = unat (word_of_int ((aact_temp_nb_limits profile - 1) * aact_volt_nb_limits profile * GBMS_AACT_NB_LIMITS profile) :: u32);
          tn = nat (aact_temp_nb_limits profile);
          vn = nat (aact_volt_nb_limits profile)
      in if \<not> alloc_ok then Some (- ENOMEM, profile\<lparr>cccm_limits := None\<rparr>)
         else case aact_cccm_limits profile of
           None \<Rightarrow> None
         | Some a \<Rightarrow>
             if length a < size \<or> length (aact_temp_limits profile) < tn \<or> length (temp_limits profile) < tn
                \<or> length (aact_volt_limits profile) < vn \<or> length (volt_limits profile) < vn then None
             else let vs = array_fill (take vn (aact_volt_limits profile)) (volt_limits profile) in
               case arr_get vs (aact_volt_nb_limits profile - 1) of
                 None \<Rightarrow> None
               | Some lv \<Rightarrow> Some (0, profile\<lparr>cccm_limits := Some (take size a),
                   temp_limits := array_fill (take tn (aact_temp_limits profile)) (temp_limits profile),
                   volt_limits := vs,
                   temp_nb_limits := aact_temp_nb_limits profile, volt_nb_limits := aact_volt_nb_limits profile,
                   last_volt := word_of_int lv, aact_init_profile := True\<rparr>))"

definition gbms_aact_get_index :: "gbms_chg_profile \<Rightarrow> int \<Rightarrow> int option" where
  "gbms_aact_get_index profile cycles =
     (if \<not> aact_load_chg_ecc profile \<and> \<not> aact_update_profile profile then Some 0
      else map_option (\<lambda>idx. idx - 1)
             (scan_up (\<lambda>idx. map_option (\<lambda>l. cycles \<ge> l) (arr_get (aact_limits profile) idx)) (aact_nb_limits profile) 0))"

section \<open>Lookups while charging\<close>

text \<open>
  All intermediate values of \<open>gbms_msc_round_fv_uv\<close> are unsigned because one operand always is.
\<close>

definition gbms_msc_round_fv_uv :: "gbms_chg_profile \<Rightarrow> int \<Rightarrow> int \<Rightarrow> int \<Rightarrow> bool \<Rightarrow> int option" where
  "gbms_msc_round_fv_uv profile vtier fv_uv cc_ua allow_higher_fv =
     (case arr_get (volt_limits profile) (volt_nb_limits profile - 1) of
        None \<Rightarrow> None
      | Some lv \<Rightarrow>
          (let fv_uv_max = (word_of_int (cdiv vtier 1000) :: u32) * fv_uv_margin_dpct profile;
               dc_fv_uv_max = (word_of_int vtier :: u32) + word_of_int (cdiv cc_ua 1000) * fv_dc_ratio profile;
               last_fv = (word_of_int lv :: u32);
               fv_max = (if cc_ua = 0 then fv_uv_max
                         else if \<not> allow_higher_fv \<and> dc_fv_uv_max \<ge> last_fv
                         then last_fv - fv_uv_resolution profile
                         else dc_fv_uv_max);
               fv1 = (if fv_max \<noteq> 0 \<and> (word_of_int fv_uv :: u32) > fv_max then fv_max else word_of_int fv_uv);
               fv2 = fv1 + fv_uv_resolution profile div 2
           in if fv_uv_resolution profile = 0 then None
              else Some (sint (fv2 - fv2 mod fv_uv_resolution profile))))"

text \<open>The downward loop \<open>while (i > 0 && !limit(i)) i--\<close>.\<close>

fun last_nonzero :: "(nat \<Rightarrow> u32 option) \<Rightarrow> nat \<Rightarrow> int option" where
  "last_nonzero f 0 = Some 0"
| "last_nonzero f (Suc i) =
     (case f (Suc i) of None \<Rightarrow> None
      | Some c \<Rightarrow> if c = 0 then last_nonzero f i else Some (int (Suc i)))"

definition gbms_msc_get_last_voltage_idx :: "gbms_chg_profile \<Rightarrow> int \<Rightarrow> int option" where
  "gbms_msc_get_last_voltage_idx profile temp_idx =
     (let i = volt_nb_limits profile - 1
      in if i > 0 then last_nonzero (\<lambda>k. GBMS_CCCM_LIMITS profile temp_idx (int k)) (nat i) else Some i)"

definition gbms_msc_temp_idx :: "gbms_chg_profile \<Rightarrow> int \<Rightarrow> int option" where
  "gbms_msc_temp_idx profile temp = tier_search (temp_limits profile) (temp_nb_limits profile) temp"

definition gbms_msc_voltage_idx :: "gbms_chg_profile \<Rightarrow> int \<Rightarrow> int option" where
  "gbms_msc_voltage_idx profile vbatt =
     (case scan_up (\<lambda>i. map_option (\<lambda>l. vbatt > l) (arr_get (volt_limits profile) i)) (volt_nb_limits profile - 1) 0 of
        None \<Rightarrow> None
      | Some i \<Rightarrow>
          if i \<noteq> volt_nb_limits profile - 1
          then map_option (\<lambda>vt. if vt - vbatt < sint (fv_uv_resolution profile * 3) then i + 1 else i)
                 (arr_get (volt_limits profile) i)
          else Some i)"

definition gbms_msc_voltage_idx_merge_tiers :: "gbms_chg_profile option \<Rightarrow> int \<Rightarrow> int \<Rightarrow> int option" where
  "gbms_msc_voltage_idx_merge_tiers pprofile vbatt temp_idx =
     (case pprofile of
        None \<Rightarrow> Some 0
      | Some profile \<Rightarrow>
          (case gbms_msc_voltage_idx profile vbatt of
             None \<Rightarrow> None
           | Some i \<Rightarrow>
               if temp_idx < 0 \<or> temp_idx \<ge> temp_nb_limits profile then Some i
               else case GBMS_CCCM_LIMITS profile temp_idx i of
                      None \<Rightarrow> None
                    | Some cc_max \<Rightarrow>
                        scan_up (\<lambda>k. map_option (\<lambda>c. cc_max = c) (GBMS_CCCM_LIMITS profile temp_idx (k + 1)))
                          (volt_nb_limits profile - 2) i))"

end
