(* ===== verification/Chg_Profile_Props.thy ===== *)
theory Chg_Profile_Props
  imports Chg_Profile
begin

text \<open>
  Charge profiles: what a successful load establishes, that the conversion of the table of
  currents is exact, that every lookup made while charging stays inside the tables and finds the
  tier it should, and what the rounding of the float voltage guarantees.
\<close>

section \<open>Well-formed profiles\<close>

text \<open>The arrays of a profile have their declared lengths.\<close>

definition arrays_ok :: "gbms_chg_profile \<Rightarrow> bool" where
  "arrays_ok p \<longleftrightarrow> length (temp_limits p) = 10 \<and> length (volt_limits p) = 10 \<and> length (topoff_limits p) = 10
     \<and> length (aacr_reference_cycles p) = 10 \<and> length (aacr_reference_fade10 p) = 10
     \<and> length (aafv_cycles p) = 16 \<and> length (aafv_offsets p) = 16 \<and> length (aact_limits p) = 5"

definition profile_ok :: "gbms_chg_profile \<Rightarrow> bool" where
  "profile_ok p \<longleftrightarrow> arrays_ok p \<and> 1 \<le> temp_nb_limits p \<and> temp_nb_limits p \<le> 10
     \<and> 1 \<le> volt_nb_limits p \<and> volt_nb_limits p \<le> 10 \<and> fv_uv_resolution p \<noteq> 0
     \<and> (\<exists>t. cccm_limits p = Some t \<and> int (length t) = (temp_nb_limits p - 1) * volt_nb_limits p)"

lemma array_or_ok: "dt_ok batt \<Longrightarrow> dt_ok node \<Longrightarrow> array_or batt node name n = Inr xs \<Longrightarrow> length xs = n"
  unfolding array_or_def by (auto dest: dt_array_ok split: sum.splits)

lemma array_or_err: "dt_ok batt \<Longrightarrow> dt_ok node \<Longrightarrow> array_or batt node name n = Inl e \<Longrightarrow> e < 0"
  unfolding array_or_def by (auto dest: dt_array_err split: sum.splits)

lemma read_limits_ok:
  assumes "read_limits m nb table old = (ret, ls)" "\<And>xs. table = Inr xs \<Longrightarrow> length xs = nat nb"
    "\<And>e. table = Inl e \<Longrightarrow> e < 0" "m \<le> int (length old)"
  shows "length ls = length old" "\<not> ret < 0 \<Longrightarrow> 1 \<le> nb \<and> nb \<le> m"
  using assms by (auto simp: read_limits_def array_simps split: if_splits sum.splits)

lemma read_cccm_limits_ok:
  assumes ok: "dt_ok node" "dt_ok batt" "arrays_ok p" and r: "gbms_read_cccm_limits node batt p = (ret, p')"
  shows "arrays_ok p'" and "\<not> ret < 0 \<Longrightarrow> 1 \<le> temp_nb_limits p' \<and> temp_nb_limits p' \<le> 10
     \<and> 1 \<le> volt_nb_limits p' \<and> volt_nb_limits p' \<le> 10"
proof -
  let ?tn = "dt_count node ''google,chg-temp-limits''" and ?vn = "count_or batt node ''google,chg-cv-limits''"
    and ?on = "dt_count node ''google,chg-topoff-limits''"
  obtain r1 ts where t: "read_limits 10 ?tn (dt_array node ''google,chg-temp-limits'' (nat ?tn)) (temp_limits p) = (r1, ts)" by fastforce
  obtain r2 vs where v: "read_limits 10 ?vn (array_or batt node ''google,chg-cv-limits'' (nat ?vn)) (volt_limits p) = (r2, vs)" by fastforce
  obtain r3 os where o: "read_limits 10 ?on (dt_array node ''google,chg-topoff-limits'' (nat ?on)) (map (\<lambda>_. 0) (topoff_limits p)) = (r3, os)" by fastforce
  have L: "length (temp_limits p) = 10" "length (volt_limits p) = 10" "length (topoff_limits p) = 10" using ok(3) by (auto simp: arrays_ok_def)
  note T = read_limits_ok [OF t dt_array_ok [OF ok(1)] dt_array_err [OF ok(1)]]
    and V = read_limits_ok [OF v array_or_ok [OF ok(2,1)] array_or_err [OF ok(2,1)]]
    and O = read_limits_ok [OF o dt_array_ok [OF ok(1)] dt_array_err [OF ok(1)]]
  have len: "length ts = 10" "length vs = 10" "length os = 10" using T(1) V(1) O(1) L by simp_all
  let ?p1 = "p\<lparr>temp_nb_limits := ?tn, temp_limits := ts\<rparr>"
  let ?p2 = "?p1\<lparr>volt_nb_limits := ?vn, volt_limits := vs\<rparr>"
  have r': "(ret, p') = (if r1 < 0 then (r1, ?p1) else if r2 < 0 then (r2, ?p2)
      else if ?on > 0 then (if r3 < 0 then r3 else 0, ?p2\<lparr>topoff_nb_limits := ?on, topoff_limits := os\<rparr>)
      else (0, ?p2\<lparr>topoff_limits := map (\<lambda>_. 0) (topoff_limits p), topoff_nb_limits := ?on\<rparr>))"
    using r by (cases "r1 < 0"; cases "r2 < 0"; cases "?on > 0"; simp add: gbms_read_cccm_limits_def t v o Let_def)
  have "arrays_ok p' \<and> (\<not> ret < 0 \<longrightarrow> 1 \<le> temp_nb_limits p' \<and> temp_nb_limits p' \<le> 10
     \<and> 1 \<le> volt_nb_limits p' \<and> volt_nb_limits p' \<le> 10)"
    using r' T(2) V(2) ok(3) len by (cases "r1 < 0"; cases "r2 < 0"; cases "?on > 0"; simp add: arrays_ok_def L)
  then show "arrays_ok p'" and "\<not> ret < 0 \<Longrightarrow> 1 \<le> temp_nb_limits p' \<and> temp_nb_limits p' \<le> 10
     \<and> 1 \<le> volt_nb_limits p' \<and> volt_nb_limits p' \<le> 10" by blast+
qed

lemma cccm_array_size_small:
  assumes "0 \<le> t" "t \<le> 50" "0 \<le> v" "v \<le> 100"
  shows "int (cccm_array_size t v) = t * v"
proof -
  have "0 \<le> t * v" using assms by simp
  moreover have "t * v \<le> 50 * 100" using assms by (intro mult_mono) simp_all
  ultimately show ?thesis unfolding cccm_array_size_def by (intro int_unat_u32_of_int) simp_all
qed

lemma round_volt_multiple: "(word_of_int (round_volt res v) :: u32) mod res = 0"
proof -
  let ?w = "word_of_int v :: u32"
  have "0 \<le> uint ?w mod uint res"
    by (cases "uint res = 0") (auto simp: order_less_le unsigned_greater_eq)
  then have "uint (?w div res) * uint res \<le> uint ?w" by (simp add: uint_div minus_mod_eq_div_mult [symmetric])
  then have "uint (?w div res * res) = uint ?w div uint res * uint res"
    using uint_bounded [of ?w] by (subst uint_mult_no_wrap) (simp_all add: uint_div)
  then have "uint (?w div res * res mod res) = 0" by (simp add: uint_mod)
  then show ?thesis by (simp add: round_volt_def unsigned_eq_0_iff)
qed


section \<open>Conversion of the table of currents\<close>

lemma convert_cells_prefix:
  assumes "0 \<le> volts" "k \<le> length t" "cells = map (\<lambda>i. (int i div volts, int i mod volts)) [k..<n]" "n \<le> length t"
    "\<forall>i < k. t ! i = f (xs ! i)" "\<forall>i. k \<le> i \<longrightarrow> i < length t \<longrightarrow> t ! i = xs ! i" "length xs = length t"
  shows "convert_cells f volts t cells = Some (map f (take (max k n) xs) @ drop (max k n) xs)"
  using assms
proof (induction cells arbitrary: t k)
  case Nil
  then have "max k n = k" by auto
  moreover have "t = map f (take k xs) @ drop k xs"
    by (rule nth_equalityI) (use Nil in \<open>auto simp: nth_append\<close>)
  ultimately show ?case by simp
next
  case (Cons c cells)
  then have kn: "k < n" by (cases "k < n") auto
  then have c: "c = (int k div volts, int k mod volts)" and cells: "cells = map (\<lambda>i. (int i div volts, int i mod volts)) [Suc k..<n]"
    using Cons.prems(3) by (auto simp: upt_conv_Cons)
  have idx: "int k div volts * volts + int k mod volts = int k" by simp
  have t': "\<forall>i < Suc k. (t[k := f (t ! k)]) ! i = f (xs ! i)" "\<forall>i. Suc k \<le> i \<longrightarrow> i < length t \<longrightarrow> (t[k := f (t ! k)]) ! i = xs ! i"
    using Cons.prems kn by (auto simp: nth_list_update less_Suc_eq)
  have "convert_cells f volts (t[k := f (t ! k)]) cells = Some (map f (take (max (Suc k) n) xs) @ drop (max (Suc k) n) xs)"
    by (rule Cons.IH) (use Cons.prems kn cells t' in auto)
  then show ?case using Cons.prems(4,6,7) kn unfolding c by (simp add: idx arr_get_def max_def)
qed

lemma table_cells_eq:
  assumes "0 \<le> temps" "0 < volts"
  shows "table_cells temps volts = map (\<lambda>i. (int i div volts, int i mod volts)) [0..<nat (temps * volts)]"
proof -
  obtain m n where m: "temps = int m" and n: "volts = int n" "0 < n" using assms by (metis nonneg_int_cases of_nat_0_less_iff order_less_imp_le)
  have u: "[0..int k - 1] = map int [0..<k]" for k :: nat
    by (induction k) (simp_all add: upto_rec2)
  have p: "List.product [0..<m] [0..<n] = map (\<lambda>i. (i div n, i mod n)) [0..<m * n]"
    by (rule nth_equalityI) (use n(2) in \<open>auto simp: product_nth less_mult_imp_div_less\<close>)
  have "table_cells temps volts = map (\<lambda>(a, b). (int a, int b)) (List.product [0..<m] [0..<n])"
    by (simp add: table_cells_def m n(1) u product_concat_map map_concat comp_def)
  also have "\<dots> = map (\<lambda>i. (int i div volts, int i mod volts)) [0..<nat (temps * volts)]"
    unfolding p by (simp add: n(1) m comp_def zdiv_int zmod_int nat_mult_distrib flip: of_nat_mult)
  finally show ?thesis .
qed

lemma convert_table:
  assumes "0 \<le> temps" "0 < volts" "int (length t) = temps * volts"
  shows "convert_cells f volts t (table_cells temps volts) = Some (map f t)"
  using convert_cells_prefix [of volts 0 t _ "length t" f t] assms table_cells_eq [OF assms(1,2)]
  by (simp add: assms(3) [symmetric])

lemma nearest_multiple:
  fixes s x :: int
  assumes "0 < s"
  shows "2 * \<bar>(x + s div 2) div s * s - x\<bar> \<le> s"
proof -
  have half: "2 * \<bar>h - m\<bar> \<le> s" if "2 * h \<le> s" "s \<le> 2 * h + 1" "0 \<le> m" "m < s" for h m
    using that by (cases "m \<le> h") auto
  have "(x + s div 2) div s * s - x = s div 2 - (x + s div 2) mod s" by (simp add: minus_mod_eq_div_mult [symmetric])
  moreover have h: "2 * (s div 2) \<le> s" "s \<le> 2 * (s div 2) + 1" by presburger+
  moreover have m: "0 \<le> (x + s div 2) mod s" "(x + s div 2) mod s < s" using assms by simp_all
  ultimately show ?thesis using half [OF h m] by simp
qed

lemma ccm_to_current_nearest:
  assumes "step \<noteq> 0" "uint step < 2147483648" "uint ccm * uint cap * 10 + uint step div 2 < 4294967296"
  shows "uint step dvd uint (ccm_to_current step cap ccm)
     \<and> 2 * \<bar>uint (ccm_to_current step cap ccm) - uint ccm * uint cap * 10\<bar> \<le> uint step"
proof -
  let ?s = "uint step" and ?x = "uint ccm * uint cap * 10"
  have s0: "0 < ?s" using assms(1) by (simp add: unsigned_eq_0_iff order_less_le [of 0 "?s"])
  have "0 \<le> ?s div 2" using s0 by simp
  then have xb: "?x < 4294967296" using assms(3) by linarith
  have "uint (ccm * (cap * 10)) = ?x"
  proof (cases "ccm = 0")
    case False
    then have c1: "1 \<le> uint ccm" using unsigned_eq_0_iff [of ccm] unsigned_greater_eq [of ccm] by (metis int_one_le_iff_zero_less order_less_le)
    have "uint cap * 10 \<le> ?x" using mult_right_mono [OF c1, of "uint cap * 10"] by (simp only: mult.assoc mult_1 unsigned_greater_eq zero_le_mult_iff zero_le_numeral simp_thms)
    then have "uint (cap * 10) = uint cap * 10" using uint_mult_no_wrap [of cap 10] xb by simp
    then show ?thesis using uint_mult_no_wrap [of ccm "cap * 10"] xb by (simp add: mult.assoc)
  qed simp
  moreover have h: "uint (word_of_int (cdiv (sint step) 2) :: u32) = ?s div 2"
    using s0 assms(2) by (simp add: sint_u32_small cdiv_nonneg uint_u32_of_int)
  ultimately have sum: "uint (ccm * (cap * 10) + word_of_int (cdiv (sint step) 2)) = ?x + ?s div 2"
    using uint_add_no_wrap assms(3) by metis
  let ?q = "(?x + ?s div 2) div ?s"
  have qs: "?q * ?s = ?x + ?s div 2 - (?x + ?s div 2) mod ?s" by (simp add: minus_mod_eq_div_mult)
  have m: "0 \<le> (?x + ?s div 2) mod ?s" "(?x + ?s div 2) mod ?s < ?s" using s0 by simp_all
  have le: "?q * ?s < 4294967296" using qs m assms(3) by linarith
  have q: "uint ((ccm * (cap * 10) + word_of_int (cdiv (sint step) 2)) div step) = ?q" by (simp add: uint_div sum)
  then have r: "uint (ccm_to_current step cap ccm) = ?q * ?s"
    using assms(1) le uint_mult_no_wrap [of "(ccm * (cap * 10) + word_of_int (cdiv (sint step) 2)) div step" step]
    by (simp add: ccm_to_current_def Let_def)
  then show ?thesis using nearest_multiple [OF s0, of ?x] by simp
qed

text \<open>
  The conversion of the C rates of a profile to currents covers the whole table and rounds
  every product of rate and capacity to the nearest multiple of the resolution (as long as the
  product fits 32 bits).
\<close>

theorem init_chg_table_converts:
  assumes p: "profile_ok p" "\<not> aact_init_profile p" and node: "dt_ok node"
    and xs: "dt_array node ''google,chg-cc-limits'' (cccm_array_size (temp_nb_limits p - 1) (volt_nb_limits p)) = Inr xs"
    and step: "cc_ua_resolution p \<noteq> 0" "uint (cc_ua_resolution p) < 2147483648"
    and fits: "\<forall>x \<in> set xs. uint x * uint cap * 10 + uint (cc_ua_resolution p) div 2 < 4294967296"
  shows "\<exists>t. gbms_init_chg_table node batt p cap = Some (p\<lparr>capacity_ma := cap, cccm_limits := Some t\<rparr>)
     \<and> length t = length xs \<and> int (length t) = (temp_nb_limits p - 1) * volt_nb_limits p
     \<and> (\<forall>i < length t. uint (cc_ua_resolution p) dvd uint (t ! i)
          \<and> 2 * \<bar>uint (t ! i) - uint (xs ! i) * uint cap * 10\<bar> \<le> uint (cc_ua_resolution p))"
proof -
  let ?f = "ccm_to_current (cc_ua_resolution p) cap"
  obtain t0 where t0: "cccm_limits p = Some t0" "int (length t0) = (temp_nb_limits p - 1) * volt_nb_limits p"
    and nb: "1 \<le> temp_nb_limits p" "temp_nb_limits p \<le> 10" "1 \<le> volt_nb_limits p" "volt_nb_limits p \<le> 10"
    using p(1) by (auto simp: profile_ok_def)
  have len: "int (length xs) = (temp_nb_limits p - 1) * volt_nb_limits p"
    using dt_array_ok [OF node xs] nb by (simp add: cccm_array_size_small)
  then have eq: "length xs = length t0" using t0(2) by linarith
  then have fill: "fill_table (cccm_limits p) xs = Some xs" using t0(1) by (simp add: fill_table_def array_fill_def)
  have "convert_cells ?f (volt_nb_limits p) xs (table_cells (temp_nb_limits p - 1) (volt_nb_limits p)) = Some (map ?f xs)"
    by (rule convert_table) (use nb len in auto)
  then have "gbms_init_chg_table node batt p cap = Some (p\<lparr>capacity_ma := cap, cccm_limits := Some (map ?f xs)\<rparr>)"
    using p(2) xs fill by (simp add: gbms_init_chg_table_def Let_def)
  moreover have "uint (cc_ua_resolution p) dvd uint (map ?f xs ! i)
          \<and> 2 * \<bar>uint (map ?f xs ! i) - uint (xs ! i) * uint cap * 10\<bar> \<le> uint (cc_ua_resolution p)" if "i < length xs" for i
    using that ccm_to_current_nearest [OF step, of "xs ! i" cap] fits by simp
  ultimately show ?thesis using len by auto
qed

section \<open>Lookups\<close>

lemma tier_search_spec:
  assumes "nb \<le> int (length ls)"
  shows "\<exists>i. tier_search ls nb x = Some i \<and> 0 \<le> i \<and> i \<le> max 0 (nb - 2)
     \<and> (\<forall>j. 0 < j \<longrightarrow> j \<le> i \<longrightarrow> ls ! nat j \<le> x) \<and> (i < nb - 2 \<longrightarrow> x < ls ! nat (i + 1))"
proof -
  let ?p = "\<lambda>i. map_option (\<lambda>l. x \<ge> l) (arr_get ls (i + 1))"
  have "?p j \<noteq> None" if "0 \<le> j" "j < nb - 2" for j using that assms by (simp add: arr_get_def)
  from scan_up_total [of 0 "nb - 2" ?p, OF this] obtain i where i: "tier_search ls nb x = Some i" "0 \<le> i" "i \<le> max 0 (nb - 2)"
    "\<forall>j. 0 \<le> j \<longrightarrow> j < i \<longrightarrow> ?p j = Some True" "i < nb - 2 \<longrightarrow> ?p i = Some False"
    unfolding tier_search_def by auto
  have "ls ! nat j \<le> x" if "0 < j" "j \<le> i" for j
    using i(3) i(4) [rule_format, of "j - 1"] that assms by (auto simp: arr_get_def split: if_splits)
  moreover have "i < nb - 2 \<longrightarrow> x < ls ! nat (i + 1)" using i(2,5) assms by (auto simp: arr_get_def split: if_splits)
  ultimately show ?thesis using i(1-3) by blast
qed

lemma cccm_in_table:
  assumes ok: "profile_ok p" and a: "aact_support_multiple_profiles p \<or> aact_idx p = 0"
    and i: "0 \<le> i" "i \<le> temp_nb_limits p - 2" and v: "0 \<le> v" "v < volt_nb_limits p"
  shows "GBMS_CCCM_LIMITS p i v \<noteq> None"
proof -
  obtain t where t: "cccm_limits p = Some t" "int (length t) = (temp_nb_limits p - 1) * volt_nb_limits p"
    using ok by (auto simp: profile_ok_def)
  have "i * volt_nb_limits p + v < (i + 1) * volt_nb_limits p" using v by (simp add: distrib_right)
  also have "\<dots> \<le> (temp_nb_limits p - 1) * volt_nb_limits p" using i(2) v by (intro mult_right_mono) auto
  finally have "i * volt_nb_limits p + v < int (length t)" using t(2) by simp
  then show ?thesis using v i(1) t(1) a by (auto simp: GBMS_CCCM_LIMITS_def GBMS_AACT_TI_def arr_get_def)
qed


lemma voltage_scan:
  assumes "profile_ok p"
  shows "\<exists>i. scan_up (\<lambda>i. map_option (\<lambda>l. v > l) (arr_get (volt_limits p) i)) (volt_nb_limits p - 1) 0 = Some i
     \<and> 0 \<le> i \<and> i \<le> volt_nb_limits p - 1 \<and> (\<forall>j. 0 \<le> j \<longrightarrow> j < i \<longrightarrow> volt_limits p ! nat j < v)
     \<and> (i < volt_nb_limits p - 1 \<longrightarrow> v \<le> volt_limits p ! nat i)"
proof -
  let ?q = "\<lambda>i. map_option (\<lambda>l. v > l) (arr_get (volt_limits p) i)"
  have n: "1 \<le> volt_nb_limits p" "volt_nb_limits p \<le> int (length (volt_limits p))"
    using assms by (auto simp: profile_ok_def arrays_ok_def)
  have "?q j \<noteq> None" if "0 \<le> j" "j < volt_nb_limits p - 1" for j using that n by (simp add: arr_get_def)
  from scan_up_total [of 0 "volt_nb_limits p - 1" ?q, OF this] obtain i where i:
    "scan_up ?q (volt_nb_limits p - 1) 0 = Some i" "0 \<le> i" "i \<le> volt_nb_limits p - 1"
    "\<forall>j. 0 \<le> j \<longrightarrow> j < i \<longrightarrow> ?q j = Some True" "i < volt_nb_limits p - 1 \<longrightarrow> ?q i = Some False"
    using n by auto
  have "volt_limits p ! nat j < v" if "0 \<le> j" "j < i" for j
    using i(3) i(4) [rule_format, OF that] that n by (auto simp: arr_get_def split: if_splits)
  moreover have "i < volt_nb_limits p - 1 \<longrightarrow> v \<le> volt_limits p ! nat i"
    using i(2,5) n by (auto simp: arr_get_def split: if_splits)
  ultimately show ?thesis using i by blast
qed

lemma voltage_idx_bounds:
  assumes ok: "profile_ok p"
  shows "\<exists>i. gbms_msc_voltage_idx p vbatt = Some i \<and> 0 \<le> i \<and> i \<le> volt_nb_limits p - 1"
proof -
  obtain i where i: "scan_up (\<lambda>i. map_option (\<lambda>l. vbatt > l) (arr_get (volt_limits p) i)) (volt_nb_limits p - 1) 0 = Some i"
    "0 \<le> i" "i \<le> volt_nb_limits p - 1" using voltage_scan [OF ok] by blast
  obtain y where "arr_get (volt_limits p) i = Some y" using i ok by (auto simp: profile_ok_def arrays_ok_def arr_get_def)
  then show ?thesis using i
    by (cases "i = volt_nb_limits p - 1"; cases "y - vbatt < sint (fv_uv_resolution p * 3)")
       (simp_all add: gbms_msc_voltage_idx_def)
qed

text \<open>The tiers are at least three steps of the voltage resolution apart.\<close>

definition tiers_apart :: "gbms_chg_profile \<Rightarrow> bool" where
  "tiers_apart p \<longleftrightarrow> 3 * uint (fv_uv_resolution p) < 2147483648
     \<and> (\<forall>i. 0 \<le> i \<longrightarrow> i < volt_nb_limits p - 1 \<longrightarrow>
          volt_limits p ! nat i + 3 * uint (fv_uv_resolution p) \<le> volt_limits p ! nat (i + 1))"

lemma headroom_value: "tiers_apart p \<Longrightarrow> sint (fv_uv_resolution p * 3) = 3 * uint (fv_uv_resolution p)"
  using uint_mult_no_wrap [of "fv_uv_resolution p" 3] by (simp add: tiers_apart_def sint_u32_small)

lemma tiers_sorted:
  assumes "tiers_apart p" "0 \<le> i" "i \<le> j" "j \<le> volt_nb_limits p - 1"
  shows "volt_limits p ! nat i \<le> volt_limits p ! nat j"
  using assms(3,4)
proof (induction j rule: int_ge_induct)
  case (step j)
  then have "volt_limits p ! nat j + 3 * uint (fv_uv_resolution p) \<le> volt_limits p ! nat (j + 1)"
    using assms(1,2) by (simp add: tiers_apart_def)
  moreover have "0 \<le> uint (fv_uv_resolution p)" by simp
  moreover have "volt_limits p ! nat i \<le> volt_limits p ! nat j" using step by simp
  ultimately show ?case by linarith
qed simp

text \<open>
  The voltage lookup returns the first tier that leaves the battery a headroom of three steps
  of the resolution, or the last tier when none does; it never reads outside the limits.
\<close>

theorem voltage_idx_first_with_headroom:
  assumes ok: "profile_ok p" and t: "tiers_apart p"
  shows "\<exists>i. gbms_msc_voltage_idx p vbatt = Some i \<and> 0 \<le> i \<and> i \<le> volt_nb_limits p - 1
     \<and> (i < volt_nb_limits p - 1 \<longrightarrow> volt_limits p ! nat i - vbatt \<ge> 3 * uint (fv_uv_resolution p))
     \<and> (\<forall>j. 0 \<le> j \<longrightarrow> j < i \<longrightarrow> volt_limits p ! nat j - vbatt < 3 * uint (fv_uv_resolution p))"
proof -
  let ?h = "3 * uint (fv_uv_resolution p)" and ?l = "\<lambda>i. volt_limits p ! nat i" and ?n = "volt_nb_limits p"
  obtain i where i: "scan_up (\<lambda>i. map_option (\<lambda>l. vbatt > l) (arr_get (volt_limits p) i)) (?n - 1) 0 = Some i"
    "0 \<le> i" "i \<le> ?n - 1" "\<forall>j. 0 \<le> j \<longrightarrow> j < i \<longrightarrow> ?l j < vbatt" "i < ?n - 1 \<longrightarrow> vbatt \<le> ?l i"
    using voltage_scan [OF ok] by blast
  have h: "sint (fv_uv_resolution p * 3) = ?h" using headroom_value [OF t] by simp
  have res: "0 < ?h" using ok by (simp add: profile_ok_def unsigned_eq_0_iff order_less_le)
  have low: "?l j - vbatt < ?h" if "0 \<le> j" "j < i" for j using i(4) [rule_format, OF that] res by linarith
  have n: "?n \<le> int (length (volt_limits p))" using ok by (auto simp: profile_ok_def arrays_ok_def)
  show ?thesis
  proof (cases "i = ?n - 1")
    case True
    then show ?thesis using i low by (auto simp: gbms_msc_voltage_idx_def)
  next
    case False
    then have lt: "i < ?n - 1" using i(3) by simp
    then have get: "arr_get (volt_limits p) i = Some (?l i)" using i(2) n by (simp add: arr_get_def)
    show ?thesis
    proof (cases "?l i - vbatt < ?h")
      case True
      have "i + 1 < ?n - 1 \<Longrightarrow> ?l (i + 1) - vbatt \<ge> ?h" using t i(2,5) lt by (auto simp: tiers_apart_def)
      moreover have "?l j - vbatt < ?h" if "0 \<le> j" "j < i + 1" for j
        using low [OF that(1)] that True by (cases "j = i") auto
      ultimately show ?thesis using i lt get h True by (auto simp: gbms_msc_voltage_idx_def)
    next
      case False
      then show ?thesis using i lt get h low by (auto simp: gbms_msc_voltage_idx_def)
    qed
  qed
qed

text \<open>
  Merging tiers of equal current, for a row of the table, moves from the tier of the battery
  voltage over tiers of the same current only and stays inside the table. The guard on the row
  also lets the number of limits minus one pass, which is one row too many: that lookup reads
  past the end of the table.
\<close>

theorem merge_tiers_same_current:
  assumes ok: "profile_ok p" and a: "aact_support_multiple_profiles p \<or> aact_idx p = 0"
  shows "(0 \<le> ti \<and> ti \<le> temp_nb_limits p - 2 \<longrightarrow>
     (\<exists>i k. gbms_msc_voltage_idx p vbatt = Some i \<and> gbms_msc_voltage_idx_merge_tiers (Some p) vbatt ti = Some k
        \<and> i \<le> k \<and> k \<le> volt_nb_limits p - 1 \<and> (\<forall>j. i \<le> j \<longrightarrow> j \<le> k \<longrightarrow> GBMS_CCCM_LIMITS p ti j = GBMS_CCCM_LIMITS p ti i)))
   \<and> (ti = temp_nb_limits p - 1 \<longrightarrow> gbms_msc_voltage_idx_merge_tiers (Some p) vbatt ti = None)"
proof (intro conjI impI)
  obtain i where i: "gbms_msc_voltage_idx p vbatt = Some i" "0 \<le> i" "i \<le> volt_nb_limits p - 1"
    using voltage_idx_bounds [OF ok, of vbatt] by blast
  {
    assume ti: "0 \<le> ti \<and> ti \<le> temp_nb_limits p - 2"
    have some: "GBMS_CCCM_LIMITS p ti v \<noteq> None" if "0 \<le> v" "v < volt_nb_limits p" for v
      using cccm_in_table [OF ok a _ _ that, of ti] ti by simp
    obtain c where c: "GBMS_CCCM_LIMITS p ti i = Some c" using some [of i] i by auto
    let ?q = "\<lambda>k. map_option (\<lambda>x. c = x) (GBMS_CCCM_LIMITS p ti (k + 1))"
    have "?q j \<noteq> None" if "i \<le> j" "j < volt_nb_limits p - 2" for j using some [of "j + 1"] that i(2) by simp
    from scan_up_total [of i "volt_nb_limits p - 2" ?q, OF this] obtain k where
      k: "scan_up ?q (volt_nb_limits p - 2) i = Some k" "i \<le> k" "k \<le> max i (volt_nb_limits p - 2)"
        "\<forall>j. i \<le> j \<longrightarrow> j < k \<longrightarrow> ?q j = Some True" by blast
    have "GBMS_CCCM_LIMITS p ti j = Some c" if "i \<le> j" "j \<le> k" for j
      using k(4) [rule_format, of "j - 1"] c that by (cases "j = i") auto
    then show "\<exists>i k. gbms_msc_voltage_idx p vbatt = Some i \<and> gbms_msc_voltage_idx_merge_tiers (Some p) vbatt ti = Some k
        \<and> i \<le> k \<and> k \<le> volt_nb_limits p - 1 \<and> (\<forall>j. i \<le> j \<longrightarrow> j \<le> k \<longrightarrow> GBMS_CCCM_LIMITS p ti j = GBMS_CCCM_LIMITS p ti i)"
      using i k ti c by (intro exI [of _ i] exI [of _ k]) (auto simp: gbms_msc_voltage_idx_merge_tiers_def)
  next
    assume ti: "ti = temp_nb_limits p - 1"
    obtain t where t: "cccm_limits p = Some t" "int (length t) = (temp_nb_limits p - 1) * volt_nb_limits p"
      and nb: "1 \<le> temp_nb_limits p" using ok by (auto simp: profile_ok_def)
    have "GBMS_CCCM_LIMITS p ti i = None"
      using ti t i nb a by (auto simp: GBMS_CCCM_LIMITS_def GBMS_AACT_TI_def arr_get_def)
    then show "gbms_msc_voltage_idx_merge_tiers (Some p) vbatt ti = None"
      using i(1) ti nb by (simp add: gbms_msc_voltage_idx_merge_tiers_def)
  }
qed

section \<open>Rounding of the float voltage\<close>

text \<open>The cap on the float voltage, in integers.\<close>

definition fv_cap :: "gbms_chg_profile \<Rightarrow> int \<Rightarrow> int \<Rightarrow> bool \<Rightarrow> int" where
  "fv_cap p vtier cc_ua allow_higher_fv =
     (let last_fv = volt_limits p ! nat (volt_nb_limits p - 1);
          dc_max = vtier + cc_ua div 1000 * uint (fv_dc_ratio p)
      in if cc_ua = 0 then vtier div 1000 * uint (fv_uv_margin_dpct p)
         else if \<not> allow_higher_fv \<and> dc_max \<ge> last_fv then last_fv - uint (fv_uv_resolution p)
         else dc_max)"

definition fv_in_range :: "gbms_chg_profile \<Rightarrow> int \<Rightarrow> int \<Rightarrow> int \<Rightarrow> bool" where
  "fv_in_range p vtier fv_uv cc_ua \<longleftrightarrow> 0 \<le> vtier \<and> 0 \<le> fv_uv \<and> 0 \<le> cc_ua
     \<and> vtier div 1000 * uint (fv_uv_margin_dpct p) < 1000000000
     \<and> vtier + cc_ua div 1000 * uint (fv_dc_ratio p) < 1000000000
     \<and> fv_uv < 1000000000 \<and> uint (fv_uv_resolution p) < 1000000000
     \<and> uint (fv_uv_resolution p) < volt_limits p ! nat (volt_nb_limits p - 1)
     \<and> volt_limits p ! nat (volt_nb_limits p - 1) < 1000000000"

lemma round_nearest_word:
  fixes a res :: u32
  assumes "uint a < 1000000000" "uint res < 1000000000" "res \<noteq> 0"
  shows "sint ((a + res div 2) - (a + res div 2) mod res) = (uint a + uint res div 2) div uint res * uint res"
proof -
  have r: "0 < uint res" using assms(3) by (simp add: unsigned_eq_0_iff order_less_le [of 0])
  have h: "uint (a + res div 2) = uint a + uint res div 2"
    using assms uint_add_no_wrap [of a "res div 2"] by (simp add: uint_div)
  have m: "uint ((a + res div 2) mod res) = (uint a + uint res div 2) mod uint res" by (simp add: uint_mod h)
  have le: "(uint a + uint res div 2) mod uint res \<le> uint a + uint res div 2" by (rule zmod_le_nonneg_dividend) simp
  then have "uint ((a + res div 2) - (a + res div 2) mod res)
      = uint a + uint res div 2 - (uint a + uint res div 2) mod uint res"
    using uint_sub_lem [of "(a + res div 2) mod res" "a + res div 2"] by (simp add: h m)
  moreover have "uint a + uint res div 2 - (uint a + uint res div 2) mod uint res < 2147483648"
    using assms(1,2) r pos_mod_sign [OF r, of "uint a + uint res div 2"] by linarith
  ultimately show ?thesis by (simp add: sint_u32_small minus_mod_eq_div_mult)
qed

lemma uint_of_int_mult:
  fixes w :: u32
  assumes "0 \<le> x" "x * uint w < 4294967296"
  shows "uint (word_of_int x * w) = x * uint w"
proof (cases "w = 0")
  case False
  then have "1 \<le> uint w" using unsigned_eq_0_iff [of w] unsigned_greater_eq [of w] by (metis int_one_le_iff_zero_less order_less_le)
  then have "x * 1 \<le> x * uint w" using assms(1) by (intro mult_left_mono) auto
  then have "uint (word_of_int x :: u32) = x" using assms by (intro uint_u32_of_int) auto
  then show ?thesis using uint_mult_no_wrap [of "word_of_int x" w] assms(2) by simp
qed simp

text \<open>The cap as the code computes it.\<close>

definition fv_max_word :: "gbms_chg_profile \<Rightarrow> int \<Rightarrow> int \<Rightarrow> bool \<Rightarrow> u32" where
  "fv_max_word p vtier cc_ua allow =
     (let dc = (word_of_int vtier :: u32) + word_of_int (cdiv cc_ua 1000) * fv_dc_ratio p;
          last_fv = word_of_int (volt_limits p ! nat (volt_nb_limits p - 1))
      in if cc_ua = 0 then (word_of_int (cdiv vtier 1000) :: u32) * fv_uv_margin_dpct p
         else if \<not> allow \<and> dc \<ge> last_fv then last_fv - fv_uv_resolution p else dc)"

lemma fv_max_word_cap:
  assumes r: "fv_in_range p vtier fv_uv cc_ua"
  shows "uint (fv_max_word p vtier cc_ua allow) = fv_cap p vtier cc_ua allow"
proof -
  let ?lv = "volt_limits p ! nat (volt_nb_limits p - 1)" and ?res = "fv_uv_resolution p"
  let ?c = "cc_ua div 1000 * uint (fv_dc_ratio p)"
  have R: "0 \<le> vtier" "0 \<le> cc_ua" "vtier div 1000 * uint (fv_uv_margin_dpct p) < 1000000000"
    "vtier + ?c < 1000000000" "uint ?res < ?lv" "?lv < 1000000000" using r by (auto simp: fv_in_range_def)
  have c0: "0 \<le> ?c" using R(2) by simp
  have m: "uint (word_of_int (cdiv vtier 1000) * fv_uv_margin_dpct p) = vtier div 1000 * uint (fv_uv_margin_dpct p)"
    using R(1,3) by (subst uint_of_int_mult) (simp_all add: cdiv_nonneg)
  have "uint (word_of_int (cdiv cc_ua 1000) * fv_dc_ratio p) = ?c"
    using R c0 by (subst uint_of_int_mult) (simp_all add: cdiv_nonneg)
  moreover have "uint (word_of_int vtier :: u32) = vtier" using R(1,4) c0 by (intro uint_u32_of_int) auto
  ultimately have d: "uint ((word_of_int vtier :: u32) + word_of_int (cdiv cc_ua 1000) * fv_dc_ratio p) = vtier + ?c"
    using R(4) uint_add_no_wrap [of "word_of_int vtier" "word_of_int (cdiv cc_ua 1000) * fv_dc_ratio p"] by simp
  have "0 \<le> uint ?res" by simp
  then have l: "uint (word_of_int ?lv :: u32) = ?lv" using R(5,6) by (intro uint_u32_of_int) linarith+
  then have "uint ((word_of_int ?lv :: u32) - ?res) = ?lv - uint ?res"
    using uint_sub_lem [of ?res "word_of_int ?lv"] R(5) by simp
  then show ?thesis using m d l by (simp add: fv_max_word_def fv_cap_def Let_def word_le_def)
qed

text \<open>
  For voltages and currents of a battery (up to 1000 V and kA in micro units), the float voltage
  that \<open>gbms_msc_round_fv_uv\<close> returns is a multiple of the resolution, nearest to the
  requested value limited by the cap. It can exceed the cap by at most half the resolution.
\<close>

theorem round_fv_uv_nearest:
  assumes ok: "profile_ok p" and r: "fv_in_range p vtier fv_uv cc_ua"
  shows "\<exists>x. gbms_msc_round_fv_uv p vtier fv_uv cc_ua allow = Some x \<and> uint (fv_uv_resolution p) dvd x
     \<and> 2 * \<bar>x - (if fv_cap p vtier cc_ua allow = 0 then fv_uv else min fv_uv (fv_cap p vtier cc_ua allow))\<bar>
         \<le> uint (fv_uv_resolution p)"
proof -
  let ?cap = "fv_cap p vtier cc_ua allow" and ?res = "fv_uv_resolution p" and ?m = "fv_max_word p vtier cc_ua allow"
  let ?w = "word_of_int fv_uv :: u32"
  let ?fv1 = "if ?m \<noteq> 0 \<and> ?w > ?m then ?m else ?w"
  have R: "0 \<le> fv_uv" "fv_uv < 1000000000" "uint ?res < 1000000000" using r by (auto simp: fv_in_range_def)
  have res: "?res \<noteq> 0" "0 < uint ?res" using ok by (simp_all add: profile_ok_def unsigned_eq_0_iff order_less_le [of 0])
  have lv: "arr_get (volt_limits p) (volt_nb_limits p - 1) = Some (volt_limits p ! nat (volt_nb_limits p - 1))"
    using ok by (simp add: profile_ok_def arrays_ok_def arr_get_def)
  have w: "uint ?w = fv_uv" using R by (intro uint_u32_of_int) auto
  have cap: "uint ?m = ?cap" by (rule fv_max_word_cap [OF r])
  have z: "?m = 0 \<longleftrightarrow> ?cap = 0" using cap by (metis unsigned_eq_0_iff)
  have f: "uint ?fv1 = (if ?cap = 0 then fv_uv else min fv_uv ?cap)"
    using w cap z by (auto simp: word_less_def min_def)
  then have small: "uint ?fv1 < 1000000000" using R w by (auto simp: min_def split: if_splits)
  have "gbms_msc_round_fv_uv p vtier fv_uv cc_ua allow = Some (sint (?fv1 + ?res div 2 - (?fv1 + ?res div 2) mod ?res))"
    using res(1) lv by (simp add: gbms_msc_round_fv_uv_def fv_max_word_def Let_def)
  then show ?thesis using nearest_multiple [OF res(2), of "uint ?fv1"] f round_nearest_word [OF small R(3) res(1)] by simp
qed

section \<open>Aging tables\<close>

lemma ref_index_spec:
  assumes "nb \<noteq> 0" "unat nb \<le> length refs"
  shows "\<exists>k. ref_index refs nb cycles = Some (int k) \<and> k < unat nb \<and> (\<forall>j < k. uint (refs ! j) \<le> cycles)
     \<and> (k < unat nb - 1 \<longrightarrow> cycles < uint (refs ! k))"
proof -
  let ?p = "\<lambda>idx. map_option (\<lambda>c. \<not> cycles < uint c) (arr_get refs idx)"
  obtain N where N: "unat nb = N" "uint nb = int N" "0 < N" using assms(1) by (simp add: unat_gt_0)
  have u: "uint (nb - 1) = int N - 1" using N(2,3) uint_sub_lem [of 1 nb] by simp
  have L: "N \<le> length refs" using assms(2) N(1) by simp
  have "?p j \<noteq> None" if "0 \<le> j" "j < int N - 1" for j using that L by (simp add: arr_get_def)
  from scan_up_total [of 0 "int N - 1" ?p, OF this] obtain i where i: "ref_index refs nb cycles = Some i" "0 \<le> i"
    "i \<le> max 0 (int N - 1)" "\<forall>j. 0 \<le> j \<longrightarrow> j < i \<longrightarrow> ?p j = Some True" "i < int N - 1 \<longrightarrow> ?p i = Some False"
    unfolding ref_index_def u by blast
  obtain k where k: "i = int k" using i(2) nonneg_int_cases by blast
  have kn: "k < N" using i(3) N(3) k by linarith
  have "uint (refs ! j) \<le> cycles" if "j < k" for j
    using i(4) [rule_format, of "int j"] that k kn L by (auto simp: arr_get_def split: if_splits)
  moreover have "k < N - 1 \<longrightarrow> cycles < uint (refs ! k)"
    using i(5) k L by (auto simp: arr_get_def split: if_splits)
  ultimately show ?thesis using i(1) k kn N(1) by blast
qed

text \<open>Reference cycles that strictly increase from above zero, and fades that do not decrease.\<close>

definition fade_table_ok :: "gbms_chg_profile \<Rightarrow> bool" where
  "fade_table_ok p \<longleftrightarrow> aacr_nb_limits p \<noteq> 0
     \<and> unat (aacr_nb_limits p) \<le> length (aacr_reference_cycles p) \<and> unat (aacr_nb_limits p) \<le> length (aacr_reference_fade10 p)
     \<and> (\<forall>i < unat (aacr_nb_limits p). uint (aacr_reference_cycles p ! i) < 2147483648 \<and> uint (aacr_reference_fade10 p ! i) < 2147483648
          \<and> (if i = 0 then 0 < uint (aacr_reference_cycles p ! 0)
             else uint (aacr_reference_cycles p ! (i - 1)) < uint (aacr_reference_cycles p ! i)
                \<and> uint (aacr_reference_fade10 p ! (i - 1)) \<le> uint (aacr_reference_fade10 p ! i)))"

lemma fade10_segment:
  assumes ok: "fade_table_ok p" and k: "k < unat (aacr_nb_limits p)" "0 \<le> cycles"
    and r: "ref_index (aacr_reference_cycles p) (aacr_nb_limits p) cycles = Some (int k)"
  defines "cs \<equiv> (if k = 0 then 0 else uint (aacr_reference_cycles p ! (k - 1)))"
    and "fs \<equiv> (if k = 0 then 0 else uint (aacr_reference_fade10 p ! (k - 1)))"
    and "cf \<equiv> uint (aacr_reference_cycles p ! k)" and "ff \<equiv> uint (aacr_reference_fade10 p ! k)"
  shows "gbms_aacr_fade10 p cycles = Some (cdiv ((cycles - cs) * (ff - fs)) (cf - cs) + fs)" "cs < cf" "fs \<le> ff"
proof -
  have K: "uint (aacr_reference_cycles p ! k) < 2147483648" "uint (aacr_reference_fade10 p ! k) < 2147483648"
    "k < length (aacr_reference_cycles p)" "k < length (aacr_reference_fade10 p)" "aacr_nb_limits p \<noteq> 0"
    using ok k by (auto simp: fade_table_ok_def)
  show lt: "cs < cf" "fs \<le> ff" using ok k by (auto simp: fade_table_ok_def cs_def cf_def fs_def ff_def)
  have P: "uint (aacr_reference_cycles p ! (k - 1)) < 2147483648 \<and> uint (aacr_reference_fade10 p ! (k - 1)) < 2147483648" if "k \<noteq> 0"
    using ok k that by (auto simp: fade_table_ok_def)
  have n: "nat (int k - 1) = k - 1" by simp
  show "gbms_aacr_fade10 p cycles = Some (cdiv ((cycles - cs) * (ff - fs)) (cf - cs) + fs)"
  proof (cases "k = 0")
    case True
    then show ?thesis using r K k lt
      by (simp add: gbms_aacr_fade10_def arr_get_def sint_u32_small cs_def cf_def fs_def ff_def)
  next
    case False
    then show ?thesis using r K k lt P
      by (simp add: gbms_aacr_fade10_def arr_get_def sint_u32_small cs_def cf_def fs_def ff_def n)
  qed
qed

lemma cdiv_interp:
  assumes "0 \<le> a" "a \<le> d" "0 < d" "0 \<le> f"
  shows "0 \<le> cdiv (a * f) d" "cdiv (a * f) d \<le> f"
proof -
  have "a * f \<le> d * f" using assms by (intro mult_right_mono) auto
  then have "a * f div d \<le> f" using assms(3) zdiv_mono1 [of "a * f" "d * f" d] by simp
  then show "cdiv (a * f) d \<le> f" "0 \<le> cdiv (a * f) d"
    using assms by (simp_all add: cdiv_nonneg pos_imp_zdiv_nonneg_iff)
qed

text \<open>
  The capacity fade is the table's value at every reference cycle count, and between two
  reference points (or before the first) it lies between their fades.
\<close>

theorem aacr_fade10_interpolates:
  assumes ok: "fade_table_ok p"
  shows "(\<forall>i < unat (aacr_nb_limits p).
       gbms_aacr_fade10 p (uint (aacr_reference_cycles p ! i)) = Some (uint (aacr_reference_fade10 p ! i)))
   \<and> (\<forall>cycles. 0 \<le> cycles \<longrightarrow> cycles \<le> uint (aacr_reference_cycles p ! (unat (aacr_nb_limits p) - 1)) \<longrightarrow>
       (\<exists>k y. k < unat (aacr_nb_limits p) \<and> gbms_aacr_fade10 p cycles = Some y
          \<and> (if k = 0 then 0 else uint (aacr_reference_cycles p ! (k - 1))) \<le> cycles
          \<and> cycles \<le> uint (aacr_reference_cycles p ! k)
          \<and> (if k = 0 then 0 else uint (aacr_reference_fade10 p ! (k - 1))) \<le> y
          \<and> y \<le> uint (aacr_reference_fade10 p ! k)))"
proof -
  let ?c = "\<lambda>i. uint (aacr_reference_cycles p ! i)" and ?f = "\<lambda>i. uint (aacr_reference_fade10 p ! i)" and ?n = "unat (aacr_nb_limits p)"
  have nz: "aacr_nb_limits p \<noteq> 0" "?n \<le> length (aacr_reference_cycles p)"
    using ok by (auto simp: fade_table_ok_def)
  have step: "?c i < ?c (Suc i)" if "Suc i < ?n" for i
    using ok that unfolding fade_table_ok_def by (metis Suc_neq_Zero diff_Suc_1)
  have mono: "?c i < ?c j" if "i < j" "j < ?n" for i j
    using that
  proof (induction j)
    case (Suc j)
    then show ?case using step [of j] by (cases "i = j") auto
  qed simp
  show ?thesis
  proof (intro conjI allI impI)
    fix i assume i: "i < ?n"
    obtain k where k: "ref_index (aacr_reference_cycles p) (aacr_nb_limits p) (?c i) = Some (int k)" "k < ?n"
      "\<forall>j < k. ?c j \<le> ?c i" "k < ?n - 1 \<longrightarrow> ?c i < ?c k" using ref_index_spec [OF nz] by blast
    note F = fade10_segment [OF ok k(2) _ k(1)]
    have "\<not> k < i" using k(4) mono [of k i] i by fastforce
    moreover have "\<not> i + 1 < k" using k(3) mono [of i "k - 1"] k(2) by (metis Suc_eq_plus1 diff_less less_diff_conv less_imp_diff_less linorder_not_less zero_less_one less_nat_zero_code not_gr_zero)
    ultimately consider "k = i" | "k = i + 1" by linarith
    then show "gbms_aacr_fade10 p (?c i) = Some (?f i)"
    proof cases
      case 1
      have "cdiv ((?c i - x) * (?f i - y)) (?c i - x) + y = ?f i" if "x < ?c i" "y \<le> ?f i" for x y
        using that by (simp add: cdiv_nonneg)
      then show ?thesis using F 1 by simp
    next
      case 2
      then show ?thesis using F by simp
    qed
  next
    fix cycles assume c: "0 \<le> cycles" "cycles \<le> ?c (?n - 1)"
    obtain k where k: "ref_index (aacr_reference_cycles p) (aacr_nb_limits p) cycles = Some (int k)" "k < ?n"
      "\<forall>j < k. ?c j \<le> cycles" "k < ?n - 1 \<longrightarrow> cycles < ?c k" using ref_index_spec [OF nz] by blast
    note F = fade10_segment [OF ok k(2) c(1) k(1)]
    let ?cs = "if k = 0 then 0 else ?c (k - 1)" and ?fs = "if k = 0 then 0 else ?f (k - 1)"
    have lo: "?cs \<le> cycles" using k(3) c(1) by auto
    have hi: "cycles \<le> ?c k" using k(2,4) c(2) by (cases "k = ?n - 1") auto
    have I: "0 \<le> cdiv ((cycles - ?cs) * (?f k - ?fs)) (?c k - ?cs)" "cdiv ((cycles - ?cs) * (?f k - ?fs)) (?c k - ?cs) \<le> ?f k - ?fs"
      by (rule cdiv_interp; use lo hi F(2,3) in linarith)+
    then show "\<exists>k y. k < ?n \<and> gbms_aacr_fade10 p cycles = Some y \<and> (if k = 0 then 0 else ?c (k - 1)) \<le> cycles
          \<and> cycles \<le> ?c k \<and> (if k = 0 then 0 else ?f (k - 1)) \<le> y \<and> y \<le> ?f k"
      using k(2) F(1) lo hi by (intro exI [of _ k] exI [of _ "cdiv ((cycles - ?cs) * (?f k - ?fs)) (?c k - ?cs) + ?fs"] conjI) (assumption | linarith)+
  qed
qed

text \<open>
  The index of the adaptive charge table is that of the last cycle limit reached. Below the
  first limit it is -1, and a profile with one table per limit that is read with this index
  accesses the property names out of bounds.
\<close>

theorem aact_index_selects_table:
  assumes ok: "arrays_ok p" and n: "0 \<le> aact_nb_limits p" "aact_nb_limits p \<le> 5" and l: "aact_load_chg_ecc p"
  shows "\<exists>i. gbms_aact_get_index p cycles = Some i \<and> - 1 \<le> i \<and> i \<le> aact_nb_limits p - 1
     \<and> (\<forall>j. 0 \<le> j \<longrightarrow> j \<le> i \<longrightarrow> aact_limits p ! nat j \<le> cycles)
     \<and> (i < aact_nb_limits p - 1 \<longrightarrow> cycles < aact_limits p ! nat (i + 1))
     \<and> (i = - 1 \<and> aact_support_multiple_profiles p \<longrightarrow> gbms_read_aact_cccm_limits node batt (p\<lparr>aact_idx := i\<rparr>) = None)"
proof -
  let ?q = "\<lambda>idx. map_option (\<lambda>l. cycles \<ge> l) (arr_get (aact_limits p) idx)"
  have len: "aact_nb_limits p \<le> int (length (aact_limits p))" using ok n by (simp add: arrays_ok_def)
  have "?q j \<noteq> None" if "0 \<le> j" "j < aact_nb_limits p" for j using that len by (simp add: arr_get_def)
  from scan_up_total [of 0 "aact_nb_limits p" ?q, OF this] obtain i where i: "scan_up ?q (aact_nb_limits p) 0 = Some i"
    "0 \<le> i" "i \<le> max 0 (aact_nb_limits p)" "\<forall>j. 0 \<le> j \<longrightarrow> j < i \<longrightarrow> ?q j = Some True"
    "i < aact_nb_limits p \<longrightarrow> ?q i = Some False" by blast
  have "aact_limits p ! nat j \<le> cycles" if "0 \<le> j" "j \<le> i - 1" for j
    using i(3) i(4) [rule_format, of j] that len by (auto simp: arr_get_def split: if_splits)
  moreover have "i < aact_nb_limits p \<longrightarrow> cycles < aact_limits p ! nat i"
    using i(2,5) len by (auto simp: arr_get_def split: if_splits)
  moreover have "aact_support_multiple_profiles p \<longrightarrow> gbms_read_aact_cccm_limits node batt (p\<lparr>aact_idx := - 1\<rparr>) = None"
    using l by (simp add: gbms_read_aact_cccm_limits_def GBMS_AACT_IDX_def arr_get_def)
  ultimately show ?thesis using i n l by (intro exI [of _ "i - 1"]) (auto simp: gbms_aact_get_index_def)
qed

section \<open>Examples\<close>

text \<open>A device-tree node given by the list of its properties.\<close>

definition demo_node :: "(string \<times> u32 list) list \<Rightarrow> dt_node" where
  "demo_node ps = \<lparr>dt_count = (\<lambda>n. case map_of ps n of None \<Rightarrow> - 22 | Some xs \<Rightarrow> int (length xs)),
     dt_array = (\<lambda>n k. case map_of ps n of None \<Rightarrow> Inl (- 22)
                  | Some xs \<Rightarrow> if k \<le> length xs then Inr (take k xs) else Inl (- 75)),
     dt_u32 = (\<lambda>n. case map_of ps n of Some (x # _) \<Rightarrow> Inr x | _ \<Rightarrow> Inl (- 22)),
     dt_bool = (\<lambda>n. map_of ps n \<noteq> None)\<rparr>"

lemma demo_node_ok: "dt_ok (demo_node ps)"
  by (auto simp: dt_ok_def demo_node_def split: option.split)

definition demo_tree :: dt_node where
  "demo_tree = demo_node [(''google,chg-temp-limits'', [0, 100, 200]), (''google,chg-cv-limits'', [4200000, 4450000]),
     (''google,chg-cc-limits'', [30, 10, 50, 20])]"

definition demo_profile :: gbms_chg_profile where
  "demo_profile = \<lparr>temp_nb_limits = 3, temp_limits = [0, 100, 200, 0, 0, 0, 0, 0, 0, 0],
     volt_nb_limits = 2, volt_limits = [4200000, 4450000, 0, 0, 0, 0, 0, 0, 0, 0],
     topoff_nb_limits = 0, topoff_limits = replicate 10 0, cccm_limits = Some [30, 10, 50, 20],
     capacity_ma = 0, last_volt = 4450000, fv_uv_margin_dpct = 1020, fv_dc_ratio = 20, cv_range_accuracy = 12500,
     cv_debounce_cnt = 3, cv_update_interval = 2000, cv_tier_ov_cnt = 10, cv_tier_switch_cnt = 3,
     fv_uv_resolution = 25000, cv_otv_margin = 0, cc_ua_resolution = 25000,
     aacr_reference_cycles = [100, 200, 0, 0, 0, 0, 0, 0, 0, 0], aacr_reference_fade10 = [10, 40, 0, 0, 0, 0, 0, 0, 0, 0],
     aacr_nb_limits = 2, aafv_cycles = replicate 16 0, aafv_offsets = replicate 16 0, aafv_nb_limits = 0,
     aact_temp_nb_limits = 0, aact_temp_limits = replicate 10 0, aact_volt_nb_limits = 0, aact_volt_limits = replicate 10 0,
     aact_nb_limits = 2, aact_limits = [100, 400, 0, 0, 0], aact_idx = 0, aact_init_profile = False, aact_update_profile = False,
     aact_support_multiple_profiles = True, aact_load_chg_ecc = True, aact_cccm_limits = None,
     aacc_chg = \<lparr>aw_temp_nb_limits = 0, aw_temp_limits = replicate 10 0, aw_weight_limits = None\<rparr>,
     aacc_dsg = \<lparr>aw_temp_nb_limits = 0, aw_temp_limits = replicate 10 0, aw_weight_limits = None\<rparr>,
     enable_switch_chg_profile = False\<rparr>"

lemma demo_profile_ok: "profile_ok demo_profile" "tiers_apart demo_profile" "fade_table_ok demo_profile"
proof -
  show "profile_ok demo_profile" by (simp add: profile_ok_def arrays_ok_def demo_profile_def)
  have "i = 0" if "0 \<le> i" "i < (1 :: int)" for i using that by simp
  then show "tiers_apart demo_profile" by (auto simp: tiers_apart_def demo_profile_def)
  have "i = 0 \<or> i = 1" if "i < (2 :: nat)" for i using that by auto
  then show "fade_table_ok demo_profile" by (auto simp: fade_table_ok_def demo_profile_def)
qed


theorem init_chg_table_converts_witness:
  "\<exists>t. gbms_init_chg_table demo_tree demo_tree demo_profile 4000 = Some (demo_profile\<lparr>capacity_ma := 4000, cccm_limits := Some t\<rparr>)
     \<and> length t = 4"
proof -
  have "dt_array demo_tree ''google,chg-cc-limits'' (cccm_array_size (temp_nb_limits demo_profile - 1) (volt_nb_limits demo_profile))
      = Inr [30, 10, 50, 20]"
    by (simp add: demo_tree_def demo_node_def demo_profile_def cccm_array_size_def)
  from init_chg_table_converts [OF demo_profile_ok(1) _ _ this, of 4000 demo_tree] show ?thesis
    using demo_node_ok by (auto simp: demo_tree_def demo_profile_def)
qed


theorem voltage_idx_first_with_headroom_witness: "\<exists>i. gbms_msc_voltage_idx demo_profile 4150000 = Some i \<and> 0 < i"
proof -
  obtain i where i: "gbms_msc_voltage_idx demo_profile 4150000 = Some i" "0 \<le> i" "i \<le> volt_nb_limits demo_profile - 1"
    "i < volt_nb_limits demo_profile - 1 \<longrightarrow> volt_limits demo_profile ! nat i - 4150000 \<ge> 3 * uint (fv_uv_resolution demo_profile)"
    using voltage_idx_first_with_headroom [OF demo_profile_ok(1,2), of 4150000] by blast
  have "i \<noteq> 0" using i(4) by (auto simp: demo_profile_def)
  then show ?thesis using i(1,2) by auto
qed

theorem merge_tiers_same_current_witness: "gbms_msc_voltage_idx_merge_tiers (Some demo_profile) 4150000 2 = None"
  using merge_tiers_same_current [OF demo_profile_ok(1), of 2 4150000] by (simp add: demo_profile_def)

text \<open>The rounding takes the float voltage above its cap of 4.539 V.\<close>

theorem round_fv_uv_nearest_witness:
  "\<exists>x. gbms_msc_round_fv_uv demo_profile 4450000 4600000 0 False = Some x \<and> x > fv_cap demo_profile 4450000 0 False"
proof -
  have cap: "fv_cap demo_profile 4450000 0 False = 4539000" by (simp add: fv_cap_def demo_profile_def)
  have "fv_in_range demo_profile 4450000 4600000 0" by (simp add: fv_in_range_def demo_profile_def)
  from round_fv_uv_nearest [OF demo_profile_ok(1) this, of False] obtain x where
    x: "gbms_msc_round_fv_uv demo_profile 4450000 4600000 0 False = Some x" "25000 dvd x" "2 * \<bar>x - 4539000\<bar> \<le> 25000"
    by (auto simp: cap) (simp add: demo_profile_def)
  have "x = 4550000" using x(2,3) by (auto elim!: dvdE)
  then show ?thesis using x(1) cap by simp
qed

theorem aacr_fade10_interpolates_witness: "gbms_aacr_fade10 demo_profile 100 = Some 10"
  using aacr_fade10_interpolates [OF demo_profile_ok(3)] by (auto simp: demo_profile_def dest: spec [of _ 0])

theorem aact_index_selects_table_witness:
  "\<exists>i. gbms_aact_get_index demo_profile 150 = Some i \<and> i \<le> 1"
  using aact_index_selects_table [of demo_profile 150 demo_tree demo_tree] demo_profile_ok(1)
  by (auto simp: profile_ok_def) (auto simp: demo_profile_def)

end
