(* ===== verification/Chg_Stats.thy ===== *)
theory Chg_Stats
  imports Chg_Profile
begin

text \<open>
  The rest of \<^verbatim>\<open>src/google-modules/bms/google_bms.c\<close>: the state word that a charger reports,
  the properties of a power supply, the statistics of a charge tier, the text form of the
  cycle-count bins, and the splitting of a text into log lines.
\<close>

unbundle bit_operations_syntax

section \<open>Charger state\<close>

text \<open>
  The union of a 64-bit word with its fields, in the little-endian layout of the target.
\<close>

record gbms_charger_state =
  cs_flags :: u8
  cs_pad :: u8
  cs_chg_status :: u8
  cs_chg_type :: u8
  cs_vchrg :: u16
  cs_icl :: u16

definition charger_state_of :: "u64 \<Rightarrow> gbms_charger_state" where
  "charger_state_of v = \<lparr>cs_flags = ucast v, cs_pad = ucast (drop_bit 8 v), cs_chg_status = ucast (drop_bit 16 v),
     cs_chg_type = ucast (drop_bit 24 v), cs_vchrg = ucast (drop_bit 32 v), cs_icl = ucast (drop_bit 48 v)\<rparr>"

abbreviation (input) GBMS_CS_FLAG_BUCK_EN :: u8 where "GBMS_CS_FLAG_BUCK_EN \<equiv> 1"
abbreviation (input) GBMS_CS_FLAG_DONE :: u8 where "GBMS_CS_FLAG_DONE \<equiv> 2"
abbreviation (input) GBMS_CS_FLAG_CC :: u8 where "GBMS_CS_FLAG_CC \<equiv> 4"
abbreviation (input) GBMS_CS_FLAG_CV :: u8 where "GBMS_CS_FLAG_CV \<equiv> 8"
abbreviation (input) GBMS_CS_FLAG_INPUT_SUSPEND :: u8 where "GBMS_CS_FLAG_INPUT_SUSPEND \<equiv> 128"

abbreviation (input) POWER_SUPPLY_STATUS_UNKNOWN :: int where "POWER_SUPPLY_STATUS_UNKNOWN \<equiv> 0"
abbreviation (input) POWER_SUPPLY_STATUS_CHARGING :: int where "POWER_SUPPLY_STATUS_CHARGING \<equiv> 1"
abbreviation (input) POWER_SUPPLY_STATUS_DISCHARGING :: int where "POWER_SUPPLY_STATUS_DISCHARGING \<equiv> 2"
abbreviation (input) POWER_SUPPLY_STATUS_FULL :: int where "POWER_SUPPLY_STATUS_FULL \<equiv> 4"
abbreviation (input) POWER_SUPPLY_CHARGE_TYPE_FAST :: int where "POWER_SUPPLY_CHARGE_TYPE_FAST \<equiv> 3"

definition gbms_gen_chg_flags :: "nat \<Rightarrow> int \<Rightarrow> int \<Rightarrow> u8" where
  "gbms_gen_chg_flags taper_ext chg_status chg_type =
     (if chg_status \<noteq> POWER_SUPPLY_STATUS_DISCHARGING
      then GBMS_CS_FLAG_BUCK_EN OR (if chg_status = POWER_SUPPLY_STATUS_FULL then GBMS_CS_FLAG_DONE else 0)
      else 0)
     OR (if chg_type = POWER_SUPPLY_CHARGE_TYPE_FAST then GBMS_CS_FLAG_CC else 0)
     OR (if chg_type = int taper_ext then GBMS_CS_FLAG_CV else 0)"

text \<open>
  A charger's power supply is a parameter: each property read returns an error code or a value.
  A read whose error is not asked for returns the error code as if it were the value.
\<close>

record chg_psy =
  psy_voltage_now :: "int + int"
  psy_charge_type :: "int + int"
  psy_status :: "int + int"
  psy_current_now :: "int + int"
  psy_charger_state :: "int + u64"

definition prop_value :: "int + int \<Rightarrow> int" where
  "prop_value r = (case r of Inl e \<Rightarrow> e | Inr x \<Rightarrow> x)"

definition gbms_gen_state :: "nat \<Rightarrow> chg_psy \<Rightarrow> gbms_charger_state \<Rightarrow> int \<times> gbms_charger_state" where
  "gbms_gen_state taper_ext psy st =
     (let vchrg = prop_value (psy_voltage_now psy); chg_type = prop_value (psy_charge_type psy)
      in if vchrg < 0 \<or> chg_type < 0 \<or> (case psy_status psy of Inl e \<Rightarrow> e < 0 | Inr _ \<Rightarrow> False)
         then (- EINVAL, st)
         else let s1 = st\<lparr>cs_chg_status := word_of_int (prop_value (psy_status psy)), cs_chg_type := word_of_int chg_type\<rparr>
              in (0, s1\<lparr>cs_flags := gbms_gen_chg_flags taper_ext (uint (cs_chg_status s1)) (uint (cs_chg_type s1)),
                        cs_vchrg := word_of_int (cdiv vchrg 1000)\<rparr>))"

definition gbms_read_charger_state :: "nat \<Rightarrow> chg_psy \<Rightarrow> gbms_charger_state \<Rightarrow> int \<times> gbms_charger_state" where
  "gbms_read_charger_state taper_ext psy st =
     (case psy_charger_state psy of
        Inr val \<Rightarrow> (0, charger_state_of val)
      | Inl ret \<Rightarrow>
          if ret = - EAGAIN then (ret, st)
          else (case gbms_gen_state taper_ext psy st of
                  (r, s1) \<Rightarrow>
                    if r < 0 then (r, s1)
                    else let ichg = prop_value (psy_current_now psy)
                         in (0, if ichg > 0 then s1\<lparr>cs_icl := word_of_int (cdiv ichg 1000)\<rparr> else s1)))"

definition chg_state_is_disconnected :: "gbms_charger_state \<Rightarrow> bool" where
  "chg_state_is_disconnected st \<longleftrightarrow>
     (cs_flags st AND GBMS_CS_FLAG_BUCK_EN = 0
      \<and> (uint (cs_chg_status st) = POWER_SUPPLY_STATUS_DISCHARGING \<or> uint (cs_chg_status st) = POWER_SUPPLY_STATUS_UNKNOWN))
     \<or> cs_flags st AND GBMS_CS_FLAG_INPUT_SUSPEND \<noteq> 0"

section \<open>Power-supply properties\<close>

text \<open>
  The driver's own handlers come first; the standard property interface is asked only when they
  fail and forwarding is on. \<open>gd_get\<close> and \<open>gd_set\<close> are \<^term>\<open>None\<close> when the driver has no handler;
  the standard interface is a parameter.
\<close>

record ('p, 'v) gbms_desc =
  gd_get :: "('p \<Rightarrow> int \<times> 'v) option"
  gd_set :: "('p \<Rightarrow> 'v \<Rightarrow> int) option"
  gd_writeable :: "('p \<Rightarrow> bool) option"
  gd_forward :: bool

definition gbms_set_property ::
  "('p \<Rightarrow> 'v \<Rightarrow> int) \<Rightarrow> ('p, 'v) gbms_desc option \<Rightarrow> 'p \<Rightarrow> 'v \<Rightarrow> int" where
  "gbms_set_property psy_set psy psp val =
     (case psy of
        None \<Rightarrow> - EINVAL
      | Some dsc \<Rightarrow>
          let own = (case gd_set dsc of
                       None \<Rightarrow> None
                     | Some f \<Rightarrow> if (case gd_writeable dsc of Some w \<Rightarrow> w psp | None \<Rightarrow> False) then Some (f psp val) else None)
          in if own = Some 0 then 0
             else if \<not> gd_forward dsc then - ENODEV
             else psy_set psp val)"

definition gbms_get_property ::
  "('p \<Rightarrow> int \<times> 'v) \<Rightarrow> ('p, 'v) gbms_desc option \<Rightarrow> 'p \<Rightarrow> 'v \<Rightarrow> int \<times> 'v" where
  "gbms_get_property psy_get psy psp val =
     (case psy of
        None \<Rightarrow> (- EINVAL, val)
      | Some dsc \<Rightarrow>
          let (ret, v) = (case gd_get dsc of Some f \<Rightarrow> f psp | None \<Rightarrow> (- 1, val))
          in if ret = 0 then (0, v)
             else if \<not> gd_forward dsc then (- ENODEV, v)
             else psy_get psp)"

section \<open>Tier statistics\<close>

abbreviation (input) MSC_STATES_COUNT :: nat where "MSC_STATES_COUNT \<equiv> 21"

text \<open>The value that a signed or unsigned field of a width keeps of an integer.\<close>

definition swrap :: "nat \<Rightarrow> int \<Rightarrow> int" where
  "swrap w x = (x + 2 ^ (w - 1)) mod 2 ^ w - 2 ^ (w - 1)"

definition uwrap :: "nat \<Rightarrow> int \<Rightarrow> int" where
  "uwrap w x = x mod 2 ^ w"

record gbms_ce_tier_stats =
  ts_temp_idx :: int
  ts_vtier_idx :: int
  ts_soc_in :: int
  ts_cc_in :: int
  ts_cc_total :: int
  ts_time_fast :: int
  ts_time_taper :: int
  ts_time_other :: int
  ts_temp_in :: int
  ts_temp_min :: int
  ts_temp_max :: int
  ts_ibatt_min :: int
  ts_ibatt_max :: int
  ts_icl_min :: int
  ts_icl_max :: int
  ts_icl_sum :: int
  ts_temp_sum :: int
  ts_ibatt_sum :: int
  ts_sample_count :: int
  ts_msc_cnt :: "int list"
  ts_msc_elap :: "int list"

definition gbms_tier_stats_init :: "gbms_ce_tier_stats \<Rightarrow> int \<Rightarrow> gbms_ce_tier_stats" where
  "gbms_tier_stats_init stats idx = stats\<lparr>ts_vtier_idx := idx, ts_temp_idx := - 1, ts_soc_in := - 1\<rparr>"

definition gbms_chg_stats_tier :: "gbms_ce_tier_stats \<Rightarrow> int \<Rightarrow> int \<Rightarrow> gbms_ce_tier_stats" where
  "gbms_chg_stats_tier tier msc_state elap =
     (if msc_state < 0 \<or> msc_state \<ge> int MSC_STATES_COUNT then tier
      else let s = nat msc_state
           in tier\<lparr>ts_msc_cnt := (ts_msc_cnt tier)[s := uwrap 16 (ts_msc_cnt tier ! s + 1)],
                   ts_msc_elap := (ts_msc_elap tier)[s := uwrap 32 (ts_msc_elap tier ! s + elap)]\<rparr>)"

definition gbms_stats_update_tier ::
  "nat \<Rightarrow> int \<Rightarrow> int \<Rightarrow> int \<Rightarrow> int \<Rightarrow> int \<Rightarrow> gbms_charger_state \<Rightarrow> int \<Rightarrow> int \<Rightarrow> gbms_ce_tier_stats \<Rightarrow> gbms_ce_tier_stats" where
  "gbms_stats_update_tier taper_ext temp_idx ibatt_ma temp elap cc chg_state msc_state soc_in tier =
     (let icl_settled = uint (cs_icl chg_state);
          t0 = gbms_chg_stats_tier tier msc_state elap;
          t1 = t0\<lparr>ts_sample_count := uwrap 32 (ts_sample_count t0 + 1)\<rparr>
      in if ts_soc_in t1 = - 1
         then t1\<lparr>ts_temp_idx := swrap 8 temp_idx, ts_temp_in := swrap 16 temp, ts_temp_min := swrap 16 temp,
                 ts_temp_max := swrap 16 temp, ts_ibatt_min := swrap 16 ibatt_ma, ts_ibatt_max := swrap 16 ibatt_ma,
                 ts_icl_min := icl_settled, ts_icl_max := icl_settled, ts_soc_in := swrap 16 soc_in,
                 ts_cc_in := uwrap 16 cc, ts_cc_total := 0\<rparr>
         else
           let t2 = (if temp_idx \<noteq> ts_temp_idx t1 then t1\<lparr>ts_temp_idx := - 1\<rparr> else t1);
               t3 = (if uint (cs_chg_type chg_state) = POWER_SUPPLY_CHARGE_TYPE_FAST
                     then t2\<lparr>ts_time_fast := uwrap 32 (ts_time_fast t2 + elap)\<rparr>
                     else if uint (cs_chg_type chg_state) = int taper_ext
                     then t2\<lparr>ts_time_taper := uwrap 32 (ts_time_taper t2 + elap)\<rparr>
                     else t2\<lparr>ts_time_other := uwrap 32 (ts_time_other t2 + elap)\<rparr>);
               t4 = t3\<lparr>ts_temp_min := (if temp < ts_temp_min t3 then swrap 16 temp else ts_temp_min t3),
                       ts_temp_max := (if temp > ts_temp_max t3 then swrap 16 temp else ts_temp_max t3),
                       ts_temp_sum := swrap 64 (ts_temp_sum t3 + temp * elap),
                       ts_icl_min := (if icl_settled < ts_icl_min t3 then icl_settled else ts_icl_min t3),
                       ts_icl_max := (if icl_settled > ts_icl_max t3 then icl_settled else ts_icl_max t3),
                       ts_icl_sum := swrap 64 (ts_icl_sum t3 + icl_settled * elap),
                       ts_ibatt_min := (if ibatt_ma < ts_ibatt_min t3 then swrap 16 ibatt_ma else ts_ibatt_min t3),
                       ts_ibatt_max := (if ibatt_ma > ts_ibatt_max t3 then swrap 16 ibatt_ma else ts_ibatt_max t3),
                       ts_ibatt_sum := swrap 64 (ts_ibatt_sum t3 + ibatt_ma * elap)\<rparr>
           in t4\<lparr>ts_cc_total := uwrap 16 (cc - ts_cc_in t4)\<rparr>)"

section \<open>Cycle counts as text\<close>

definition digit_char :: "nat \<Rightarrow> char" where
  "digit_char d = char_of (48 + d)"

fun dec_string :: "nat \<Rightarrow> string" where
  "dec_string n = (if n < 10 then [digit_char n] else dec_string (n div 10) @ [digit_char (n mod 10)])"

declare dec_string.simps [simp del]

text \<open>
  \<open>scnprintf\<close> stores at most one character less than the room left, and returns how many; the
  text is what the buffer holds so far.
\<close>

definition scnprintf :: "nat \<Rightarrow> string \<Rightarrow> string \<Rightarrow> string" where
  "scnprintf room txt s = txt @ take (room - length txt - 1) s"

definition gbms_cycle_count_cstr_bc :: "nat \<Rightarrow> u16 list \<Rightarrow> nat \<Rightarrow> string option" where
  "gbms_cycle_count_cstr_bc room ccount bcnt =
     (let txt = foldl (\<lambda>t c. scnprintf room t (dec_string (unat c) @ '' '')) [] (take bcnt ccount)
      in if length ccount < bcnt \<or> txt = [] then None else Some (butlast txt @ [CHR 0x0A]))"

definition is_space :: "char \<Rightarrow> bool" where
  "is_space c \<longleftrightarrow> c = CHR '' '' \<or> of_char c \<in> {9 .. (13 :: nat)}"

definition is_digit :: "char \<Rightarrow> bool" where
  "is_digit c \<longleftrightarrow> of_char c \<in> {48 .. (57 :: nat)}"

definition digits_value :: "string \<Rightarrow> nat" where
  "digits_value ds = foldl (\<lambda>n d. 10 * n + (of_char d - 48)) 0 ds"

text \<open>One \<open>%d\<close> conversion: skip blanks, an optional minus sign, at least one digit.\<close>

definition scan_int :: "string \<Rightarrow> (int \<times> string) option" where
  "scan_int s =
     (let s1 = dropWhile is_space s;
          neg = (s1 \<noteq> [] \<and> hd s1 = CHR ''-'');
          s2 = (if neg then tl s1 else s1);
          ds = takeWhile is_digit s2
      in if ds = [] then None
         else Some ((if neg then - int (digits_value ds) else int (digits_value ds)), dropWhile is_digit s2))"

fun scan_ints :: "nat \<Rightarrow> string \<Rightarrow> int list" where
  "scan_ints 0 s = []"
| "scan_ints (Suc n) s = (case scan_int s of None \<Rightarrow> [] | Some (x, s') \<Rightarrow> x # scan_ints n s')"

abbreviation (input) U16_MAX :: int where "U16_MAX \<equiv> 65535"

definition gbms_cycle_count_sscan_bc :: "u16 list \<Rightarrow> nat \<Rightarrow> string \<Rightarrow> int \<times> u16 list" where
  "gbms_cycle_count_sscan_bc ccount bcnt buff =
     (if bcnt \<noteq> 10 then (- ERANGE, ccount)
      else let val = scan_ints 10 buff
           in if length val \<noteq> bcnt then (- EINVAL, ccount)
              else (0, map2 (\<lambda>v c. if v \<ge> 0 \<and> v < U16_MAX then word_of_int v else c) val (take bcnt ccount)
                       @ drop bcnt ccount))"

section \<open>Log lines\<close>

abbreviation (input) LOG_BUFFER_ENTRY_SIZE :: nat where "LOG_BUFFER_ENTRY_SIZE \<equiv> 256"

text \<open>
  The loop over the characters: \<open>i\<close> is the position, \<open>tmp\<close> the line collected so far. A full line
  is logged without consuming the character.
\<close>

function log_lines :: "nat \<Rightarrow> string \<Rightarrow> string \<Rightarrow> string list" where
  "log_lines i tmp [] = []"
| "log_lines i tmp (c # cs) =
     (if c = CHR 0x0A then (if i \<noteq> 0 then [tmp] else []) @ log_lines (i + 1) [] cs
      else if length tmp \<ge> LOG_BUFFER_ENTRY_SIZE - 1 then tmp # log_lines i [] (c # cs)
      else log_lines (i + 1) (tmp @ [c]) cs)"
  by pat_completeness auto
termination by (relation "measure (\<lambda>(i, tmp, cs). 2 * length cs + (if length tmp \<ge> 255 then 1 else 0))") auto

definition gbms_log_cstr_handler :: "string \<Rightarrow> string list" where
  "gbms_log_cstr_handler buf = log_lines 0 [] (buf @ [CHR 0x0A])"

end
