(* ===== verification/Chg_Stats_Props.thy ===== *)
theory Chg_Stats_Props
  imports Chg_Stats
begin

text \<open>
  Charger state and statistics: the time accounting of a charge tier, the round trip of the cycle
  counts through their text form, and the completeness of the log lines.
\<close>

section \<open>Time accounting\<close>

record tier_sample =
  sm_temp_idx :: int
  sm_ibatt :: int
  sm_temp :: int
  sm_elap :: int
  sm_cc :: int
  sm_state :: gbms_charger_state
  sm_msc :: int
  sm_soc :: int

definition tier_update :: "nat \<Rightarrow> gbms_ce_tier_stats \<Rightarrow> tier_sample \<Rightarrow> gbms_ce_tier_stats" where
  "tier_update taper_ext t s =
     gbms_stats_update_tier taper_ext (sm_temp_idx s) (sm_ibatt s) (sm_temp s) (sm_elap s) (sm_cc s) (sm_state s)
       (sm_msc s) (sm_soc s) t"

definition sample_ok :: "tier_sample \<Rightarrow> bool" where
  "sample_ok s \<longleftrightarrow> 0 \<le> sm_msc s \<and> sm_msc s < 21 \<and> - 32768 \<le> sm_temp s \<and> sm_temp s < 32768 \<and> 0 \<le> sm_soc s \<and> sm_soc s < 32768"

definition tier_time :: "gbms_ce_tier_stats \<Rightarrow> int" where
  "tier_time t = ts_time_fast t + ts_time_taper t + ts_time_other t"

lemma swrap_id: "- (2 ^ (w - 1)) \<le> x \<Longrightarrow> x < 2 ^ (w - 1) \<Longrightarrow> 0 < w \<Longrightarrow> swrap w x = x"
  by (cases w) (auto simp: swrap_def)

lemma sum_list_upd: "s < length xs \<Longrightarrow> sum_list (xs[s := x]) = sum_list xs + (x - xs ! s)" for xs :: "int list"
  by (induction xs arbitrary: s) (auto simp: nth_Cons split: nat.split)

lemma sum_list_update_mod:
  assumes "s < length (xs :: int list)"
  shows "sum_list (xs[s := uwrap w (xs ! s + e)]) mod 2 ^ w = (sum_list xs + e) mod 2 ^ w"
proof -
  have "sum_list (xs[s := x]) = sum_list xs + (x - xs ! s)" for x
    using assms by (rule sum_list_upd)
  then show ?thesis unfolding uwrap_def
    by (metis (no_types, opaque_lifting) add.commute add_diff_cancel_left' diff_add_eq mod_add_left_eq mod_diff_left_eq)
qed

lemma uwrap_sum: "x = uwrap w a + b \<Longrightarrow> a + b = c \<Longrightarrow> x mod 2 ^ w = c mod 2 ^ w"
  by (auto simp: uwrap_def mod_add_left_eq)

text \<open>The accounts after one sample: the first one (no entry yet) starts the tier.\<close>

lemma tier_update_accounts:
  fixes taper_ext :: nat
  assumes ok: "sample_ok s" and len: "length (ts_msc_elap t) = 21"
  defines "u \<equiv> tier_update taper_ext t s"
  shows "length (ts_msc_elap u) = 21"
    and "sum_list (ts_msc_elap u) mod 2 ^ 32 = (sum_list (ts_msc_elap t) + sm_elap s) mod 2 ^ 32"
    and "ts_sample_count u = uwrap 32 (ts_sample_count t + 1)"
    and "tier_time u mod 2 ^ 32 = (tier_time t + (if ts_soc_in t = - 1 then 0 else sm_elap s)) mod 2 ^ 32"
    and "ts_soc_in u \<noteq> - 1"
    and "ts_temp_min u = (if ts_soc_in t = - 1 then sm_temp s else min (ts_temp_min t) (sm_temp s))"
    and "ts_temp_max u = (if ts_soc_in t = - 1 then sm_temp s else max (ts_temp_max t) (sm_temp s))"
proof -
  have st: "0 \<le> sm_msc s" "sm_msc s < 21" "swrap 16 (sm_temp s) = sm_temp s" "swrap 16 (sm_soc s) = sm_soc s" "0 \<le> sm_soc s"
    using ok by (auto simp: sample_ok_def intro!: swrap_id)
  note defs = u_def tier_update_def gbms_stats_update_tier_def gbms_chg_stats_tier_def Let_def
  show "length (ts_msc_elap u) = 21" using st len by (simp add: defs)
  have "ts_msc_elap u = (ts_msc_elap t)[nat (sm_msc s) := uwrap 32 (ts_msc_elap t ! nat (sm_msc s) + sm_elap s)]"
    using st by (simp add: defs)
  then show "sum_list (ts_msc_elap u) mod 2 ^ 32 = (sum_list (ts_msc_elap t) + sm_elap s) mod 2 ^ 32"
    using sum_list_update_mod [of "nat (sm_msc s)" "ts_msc_elap t" 32 "sm_elap s"] st len by simp
  show "ts_sample_count u = uwrap 32 (ts_sample_count t + 1)" using st by (simp add: defs)
  show "tier_time u mod 2 ^ 32 = (tier_time t + (if ts_soc_in t = - 1 then 0 else sm_elap s)) mod 2 ^ 32"
  proof (cases "ts_soc_in t = - 1")
    case True
    then show ?thesis using st by (simp add: defs tier_time_def)
  next
    case False
    then consider "tier_time u = uwrap 32 (ts_time_fast t + sm_elap s) + (ts_time_taper t + ts_time_other t)"
      | "tier_time u = uwrap 32 (ts_time_taper t + sm_elap s) + (ts_time_fast t + ts_time_other t)"
      | "tier_time u = uwrap 32 (ts_time_other t + sm_elap s) + (ts_time_fast t + ts_time_taper t)"
      using st by (cases "uint (cs_chg_type (sm_state s)) = 3"; cases "uint (cs_chg_type (sm_state s)) = int taper_ext")
        (simp_all add: defs tier_time_def)
    then show ?thesis using False by cases (erule uwrap_sum, simp add: tier_time_def)+
  qed
  show "ts_soc_in u \<noteq> - 1" using st by (simp add: defs)
  show "ts_temp_min u = (if ts_soc_in t = - 1 then sm_temp s else min (ts_temp_min t) (sm_temp s))"
    using st by (simp add: defs min_def)
  show "ts_temp_max u = (if ts_soc_in t = - 1 then sm_temp s else max (ts_temp_max t) (sm_temp s))"
    using st by (simp add: defs max_def)
qed

lemma mod_step: "a mod m = (b + e) mod m \<Longrightarrow> (a + r) mod m = (b + (e + r)) mod m" for a :: int
  by (metis add.assoc mod_add_left_eq)


definition demo_sample :: "int \<Rightarrow> tier_sample" where
  "demo_sample elap = \<lparr>sm_temp_idx = 1, sm_ibatt = 900, sm_temp = 250 + elap, sm_elap = elap, sm_cc = 100,
     sm_state = \<lparr>cs_flags = 5, cs_pad = 0, cs_chg_status = 1, cs_chg_type = 3, cs_vchrg = 4200, cs_icl = 3000\<rparr>,
     sm_msc = 7, sm_soc = 5120\<rparr>"

definition demo_tier :: gbms_ce_tier_stats where
  "demo_tier = \<lparr>ts_temp_idx = - 1, ts_vtier_idx = 0, ts_soc_in = - 1, ts_cc_in = 0, ts_cc_total = 0, ts_time_fast = 0,
     ts_time_taper = 0, ts_time_other = 0, ts_temp_in = 0, ts_temp_min = 0, ts_temp_max = 0, ts_ibatt_min = 0,
     ts_ibatt_max = 0, ts_icl_min = 0, ts_icl_max = 0, ts_icl_sum = 0, ts_temp_sum = 0, ts_ibatt_sum = 0,
     ts_sample_count = 0, ts_msc_cnt = replicate 21 0, ts_msc_elap = replicate 21 0\<rparr>"


section \<open>Log lines\<close>

lemma log_lines_complete:
  assumes "cs \<noteq> []" "last cs = CHR 0x0A" "i = 0 \<longrightarrow> tmp = []"
  shows "concat (log_lines i tmp cs) = tmp @ filter (\<lambda>c. c \<noteq> CHR 0x0A) cs"
  using assms
proof (induction i tmp cs rule: log_lines.induct)
  case (2 i tmp c cs)
  then show ?case by (cases "cs = []") (auto split: if_splits)
qed simp

lemma log_lines_short:
  assumes "length tmp \<le> 255" "CHR 0x0A \<notin> set tmp" "l \<in> set (log_lines i tmp cs)"
  shows "length l \<le> 255 \<and> CHR 0x0A \<notin> set l"
  using assms by (induction i tmp cs rule: log_lines.induct) (auto split: if_splits)

text \<open>
  Splitting a text into log lines loses no character: the lines, joined, are the text without
  its newlines, and every line is free of newlines and fits a log entry.
\<close>

theorem log_cstr_handler_complete:
  "concat (gbms_log_cstr_handler buf) = filter (\<lambda>c. c \<noteq> CHR 0x0A) buf
   \<and> (\<forall>l \<in> set (gbms_log_cstr_handler buf). length l \<le> 255 \<and> CHR 0x0A \<notin> set l)"
  using log_lines_complete [of "buf @ [CHR 0x0A]" 0 "[]"] log_lines_short [of "[]" _ 0 "buf @ [CHR 0x0A]"]
  by (simp add: gbms_log_cstr_handler_def)

theorem log_cstr_handler_complete_witness:
  "concat (gbms_log_cstr_handler [CHR ''a'', CHR 0x0A, CHR ''b'']) = ''ab''"
  using log_cstr_handler_complete [of "[CHR ''a'', CHR 0x0A, CHR ''b'']"] by simp

section \<open>Cycle counts through text\<close>

lemma digit_char_code: "d < 10 \<Longrightarrow> of_char (digit_char d) = 48 + d"
  by (simp add: digit_char_def)

lemma dec_string_digits: "\<forall>c \<in> set (dec_string n). is_digit c"
  by (induction n rule: dec_string.induct)
     (subst dec_string.simps, auto simp: is_digit_def digit_char_code)

lemma dec_string_nonempty: "dec_string n \<noteq> []"
  by (subst dec_string.simps) simp

lemma digits_value_snoc: "digits_value (ds @ [d]) = 10 * digits_value ds + (of_char d - 48)"
  by (simp add: digits_value_def)

lemma dec_string_value: "digits_value (dec_string n) = n"
proof (induction n rule: dec_string.induct)
  case (1 n)
  show ?case
  proof (cases "n < 10")
    case True
    then show ?thesis by (simp add: dec_string.simps [of n] digits_value_def digit_char_code)
  next
    case False
    then show ?thesis using 1 by (simp add: dec_string.simps [of n] digits_value_snoc digit_char_code)
  qed
qed

lemma length_dec_string: "0 < k \<Longrightarrow> n < 10 ^ k \<Longrightarrow> length (dec_string n) \<le> k"
proof (induction k arbitrary: n)
  case (Suc k)
  show ?case
  proof (cases "n < 10")
    case True
    then show ?thesis by (simp add: dec_string.simps [of n])
  next
    case False
    then have "0 < k" "n div 10 < 10 ^ k" using Suc.prems by (cases k; simp add: less_mult_imp_div_less mult.commute)+
    then show ?thesis using Suc.IH False by (simp add: dec_string.simps [of n])
  qed
qed simp

lemma scan_int_space: "scan_int (CHR '' '' # s) = scan_int s"
  by (simp add: scan_int_def is_space_def)

lemma scan_int_dec:
  assumes "\<not> is_digit c"
  shows "scan_int (dec_string n @ c # rest) = Some (int n, c # rest)"
proof -
  obtain d ds where d: "dec_string n = d # ds" using dec_string_nonempty [of n] by (cases "dec_string n") auto
  have dd: "is_digit d" using dec_string_digits [of n] d by simp
  then have "\<not> is_space d" "d \<noteq> CHR ''-''" by (auto simp: is_digit_def is_space_def)
  then have "dropWhile is_space (dec_string n @ c # rest) = dec_string n @ c # rest" "hd (dec_string n @ c # rest) \<noteq> CHR ''-''"
    using d by simp_all
  moreover have "takeWhile is_digit (dec_string n @ c # rest) = dec_string n" "dropWhile is_digit (dec_string n @ c # rest) = c # rest"
    using dec_string_digits [of n] assms by (auto simp: takeWhile_append2 dropWhile_append2)
  ultimately show ?thesis using dec_string_nonempty [of n] by (simp add: scan_int_def Let_def dec_string_value)
qed

abbreviation (input) counts_text :: "u16 list \<Rightarrow> string" where
  "counts_text cs \<equiv> concat (map (\<lambda>c. dec_string (unat c) @ '' '') cs)"

lemma scan_counts:
  "cs \<noteq> [] \<Longrightarrow> scan_ints (length cs) (butlast (counts_text cs) @ [CHR 0x0A]) = map (\<lambda>c. int (unat c)) cs"
proof (induction cs)
  case (Cons c cs)
  have nd: "\<not> is_digit (CHR 0x0A)" "\<not> is_digit (CHR '' '')" by (simp_all add: is_digit_def)
  show ?case
  proof (cases cs)
    case Nil
    then show ?thesis using scan_int_dec [OF nd(1), of "unat c" "[]"] by (simp add: butlast_append)
  next
    case (Cons c' cs')
    have ne: "counts_text cs \<noteq> []" using Cons dec_string_nonempty by simp
    have t: "butlast (counts_text (c # cs)) @ [CHR 0x0A]
        = dec_string (unat c) @ CHR '' '' # (butlast (counts_text cs) @ [CHR 0x0A])"
      using ne by (simp add: butlast_append)
    have "scan_ints n (CHR '' '' # x) = scan_ints n x" for n x
      by (cases n) (simp_all add: scan_int_space)
    then show ?thesis using Cons.IH Cons scan_int_dec [OF nd(2), of "unat c"] unfolding t by (simp add: scan_int_space)
  qed
qed simp

lemma cstr_text:
  assumes "\<forall>c \<in> set cs. unat c < 65536" "length t + 6 * length cs < room"
  shows "foldl (\<lambda>t c. scnprintf room t (dec_string (unat c) @ '' '')) t cs = t @ counts_text cs"
  using assms
proof (induction cs arbitrary: t)
  case (Cons c cs)
  have l: "length (dec_string (unat c)) \<le> 5" using Cons.prems(1) by (intro length_dec_string) auto
  then have s: "scnprintf room t (dec_string (unat c) @ '' '') = t @ dec_string (unat c) @ '' ''"
    using Cons.prems(2) by (simp add: scnprintf_def)
  show ?case using Cons.IH [of "t @ dec_string (unat c) @ '' ''"] Cons.prems l by (simp add: s)
qed simp

text \<open>
  Cycle counts written as text and parsed back give the ten counts again, in every buffer of
  more than 60 characters, except that a count of 65535 is not stored and the old value stays.
\<close>

theorem cycle_count_round_trip:
  assumes "length cs = 10" "length old = 10" "60 < room"
  shows "\<exists>str. gbms_cycle_count_cstr_bc room cs 10 = Some str
     \<and> gbms_cycle_count_sscan_bc old 10 str = (0, map2 (\<lambda>c d. if c = 65535 then d else c) cs old)"
proof -
  have b: "unat (c :: u16) < 65536" for c using unsigned_less [of c] by simp
  have nonempty: "cs \<noteq> []" "counts_text cs \<noteq> []" using assms(1) dec_string_nonempty by (cases cs; simp)+
  have tx: "gbms_cycle_count_cstr_bc room cs 10 = Some (butlast (counts_text cs) @ [CHR 0x0A])"
    using cstr_text [of cs "[]" room] b assms nonempty(2) by (simp add: gbms_cycle_count_cstr_bc_def)
  have v: "scan_ints 10 (butlast (counts_text cs) @ [CHR 0x0A]) = map (\<lambda>c. int (unat c)) cs"
    using scan_counts [OF nonempty(1)] assms(1) by simp
  have "int (unat c) < 65535 \<longleftrightarrow> (c :: u16) \<noteq> 65535" for c
  proof -
    have "c = 65535 \<longleftrightarrow> unat c = 65535" by (simp add: word_unat_eq_iff)
    then show ?thesis using b [of c] by linarith
  qed
  then have "map2 (\<lambda>v c. if v \<ge> 0 \<and> v < 65535 then word_of_int v else c) (map (\<lambda>c. int (unat c)) cs) old
      = map2 (\<lambda>c d. if c = 65535 then d else c) cs old"
    by (rule_tac nth_equalityI) (auto simp: assms)
  then show ?thesis using tx v assms by (simp add: gbms_cycle_count_sscan_bc_def Let_def)
qed

theorem cycle_count_round_trip_witness:
  "\<exists>str. gbms_cycle_count_cstr_bc 64 [1, 2, 3, 4, 5, 6, 7, 8, 9, 65535] 10 = Some str
     \<and> gbms_cycle_count_sscan_bc [0, 0, 0, 0, 0, 0, 0, 0, 0, 0] 10 str = (0, [1, 2, 3, 4, 5, 6, 7, 8, 9, 0])"
  using cycle_count_round_trip [of "[1, 2, 3, 4, 5, 6, 7, 8, 9, 65535]" "[0, 0, 0, 0, 0, 0, 0, 0, 0, 0]" 64]
  by simp

end
