(* ===== verification/Ttf.thy ===== *)
theory Ttf
  imports Chg_Stats "HOL-Library.Monad_Syntax"
begin

text \<open>
  The time-to-full estimate of \<^verbatim>\<open>src/google-modules/bms/google_ttf.c\<close>: the ratio between the
  current a state of charge asks for and what adapter, battery and temperature allow, the sum of
  the times per percent, the statistics learned from a charging event, and the reference tables
  from the device tree. The logging and the text dumps are not part of it.

  An access outside an array or a division by zero has the result \<^term>\<open>None\<close>; error codes are
  returned as the code returns them. Percentages of charge are fixed-point numbers with 24
  fractional bits (\<^verbatim>\<open>qmath.h\<close>), times are in seconds.
\<close>

section \<open>Data\<close>

abbreviation (input) GBMS_STATS_TIER_COUNT :: int where "GBMS_STATS_TIER_COUNT \<equiv> 3"
abbreviation (input) GBMS_SOC_STATS_LEN :: int where "GBMS_SOC_STATS_LEN \<equiv> 101"
abbreviation (input) ELAP_LIMIT_S :: int where "ELAP_LIMIT_S \<equiv> 60"

record ttf_soc_stats =
  ss_cc :: "int list"
  ss_elap :: "int list"

record ttf_tier_stat =
  tt_soc_in :: int
  tt_cc_in :: int
  tt_cc_total :: int
  tt_avg_time :: int

record batt_ttf_stats =
  soc_ref :: ttf_soc_stats
  ref_temp_idx :: int
  ref_watts :: int
  soc_stats :: ttf_soc_stats
  tier_stats :: "ttf_tier_stat list"
  report_max_ratio :: int
  fcc_now :: int

datatype chg_health_state = CHG_HEALTH_CCLVL_DISABLED | CHG_HEALTH_BD_DISABLED | CHG_HEALTH_USER_DISABLED
  | CHG_HEALTH_DISABLED | CHG_HEALTH_DONE | CHG_HEALTH_INACTIVE | CHG_HEALTH_ENABLED | CHG_HEALTH_ACTIVE | CHG_HEALTH_PAUSE

record batt_chg_health =
  rest_soc :: int
  always_on_soc :: int
  rest_rate :: int
  rest_state :: chg_health_state
  rest_cc_max :: int

record gbms_charging_event =
  ad_voltage :: u8
  ad_amperage :: u8
  ce_profile :: gbms_chg_profile
  ce_ssoc_in :: int
  ce_ssoc_out :: int
  ce_tier_stats :: "gbms_ce_tier_stats list"
  ce_soc_stats :: ttf_soc_stats
  ce_last_soc :: int
  ce_health :: batt_chg_health
  ce_health_stats :: gbms_ce_tier_stats

section \<open>Fixed-point percentages\<close>

definition qnum_toint :: "int \<Rightarrow> int" where
  "qnum_toint f = f div 2 ^ 24"

text \<open>The first two decimal digits of the fractional part.\<close>

definition qnum_frac2 :: "int \<Rightarrow> int" where
  "qnum_frac2 f = ((f mod 2 ^ 24) * 256 * 100 div 2 ^ 32) mod 100"

text \<open>\<open>qnum_rconst(100)\<close>: 100 times one half more than the scale.\<close>

definition qnum_100 :: int where "qnum_100 = 1677721650"

section \<open>Power ratio\<close>

text \<open>Time in tier as the code adds it up: unsigned fields into an \<open>int\<close>.\<close>

definition tier_elap :: "gbms_ce_tier_stats \<Rightarrow> int" where
  "tier_elap ts = swrap 32 (ts_time_fast ts + ts_time_taper ts)"

definition tier_average :: "int \<Rightarrow> gbms_ce_tier_stats \<Rightarrow> int option" where
  "tier_average acc ts =
     (let d = swrap 32 (tier_elap ts + ts_time_other ts)
      in if d = 0 then None else Some (swrap 32 (cdiv acc d)))"

definition ttf_pwr_icl :: "gbms_ce_tier_stats \<Rightarrow> gbms_charging_event \<Rightarrow> int option" where
  "ttf_pwr_icl ts ce =
     (if tier_elap ts \<le> ELAP_LIMIT_S then Some (uint (ad_amperage ce) * 100)
      else tier_average (ts_icl_sum ts) ts)"

definition ttf_pwr_ibatt :: "gbms_ce_tier_stats \<Rightarrow> int option" where
  "ttf_pwr_ibatt ts =
     (if tier_elap ts \<le> ELAP_LIMIT_S then Some 0
      else do {
        avg_ibatt \<leftarrow> tier_average (ts_ibatt_sum ts) ts;
        let sign = (if avg_ibatt < 0 then - 1 else 1);
        Some (avg_ibatt * sign)
      })"

definition ttf_pwr_vtier_idx :: "batt_ttf_stats \<Rightarrow> int \<Rightarrow> int option" where
  "ttf_pwr_vtier_idx stats soc =
     map_option (\<lambda>i. i - 1)
       (scan_up (\<lambda>i. map_option (\<lambda>t. \<not> soc < tt_soc_in t div 256) (arr_get (tier_stats stats) i)) GBMS_STATS_TIER_COUNT 1)"

definition ttf_cc_check :: "ttf_soc_stats \<Rightarrow> int \<Rightarrow> bool option" where
  "ttf_cc_check st soc = do {
     c0 \<leftarrow> arr_get (ss_cc st) soc;
     if c0 = 0 then Some False
     else do {
       c1 \<leftarrow> arr_get (ss_cc st) (soc + 1);
       Some (c1 \<noteq> 0 \<and> c0 < c1)
     }
   }"

definition soc_demand :: "ttf_soc_stats \<Rightarrow> int \<Rightarrow> (bool \<times> int) option" where
  "soc_demand st soc = do {
     ok \<leftarrow> ttf_cc_check st soc;
     if \<not> ok then Some (False, 0)
     else do {
       e \<leftarrow> arr_get (ss_elap st) soc;
       if e = 0 then Some (False, 0)
       else do {
         c0 \<leftarrow> arr_get (ss_cc st) soc;
         c1 \<leftarrow> arr_get (ss_cc st) (soc + 1);
         Some (True, swrap 32 (((c1 - c0) * 3600) div uwrap 64 e))
       }
     }
   }"

definition ttf_ref_cc :: "batt_ttf_stats \<Rightarrow> int \<Rightarrow> int option" where
  "ttf_ref_cc stats soc =
     (if soc + 1 \<ge> GBMS_SOC_STATS_LEN then Some 0
      else do {
        (known, cc) \<leftarrow> soc_demand (soc_stats stats) soc;
        if known then Some cc
        else do {
          (known_ref, cc_ref) \<leftarrow> soc_demand (soc_ref stats) soc;
          Some (if known_ref then cc_ref else 0)
        }
      })"

definition CHG_HEALTH_REST_SOC :: "batt_chg_health \<Rightarrow> int" where
  "CHG_HEALTH_REST_SOC h = (if always_on_soc h \<noteq> - 1 then always_on_soc h else rest_soc h)"

definition ttf_pwr_health :: "gbms_charging_event \<Rightarrow> int \<Rightarrow> bool" where
  "ttf_pwr_health ce soc \<longleftrightarrow> rest_state (ce_health ce) = CHG_HEALTH_ACTIVE \<and> soc \<ge> CHG_HEALTH_REST_SOC (ce_health ce)"

definition ttf_pwr_health_pause :: "gbms_charging_event \<Rightarrow> int \<Rightarrow> bool" where
  "ttf_pwr_health_pause ce soc \<longleftrightarrow> rest_state (ce_health ce) = CHG_HEALTH_PAUSE \<and> soc \<ge> CHG_HEALTH_REST_SOC (ce_health ce)"

text \<open>The tier that collects the statistics, and the current that health charging imposes.\<close>

definition health_tier :: "gbms_charging_event \<Rightarrow> int \<Rightarrow> int \<Rightarrow> (int \<times> gbms_ce_tier_stats) option" where
  "health_tier ce vbatt_idx soc =
     (if ttf_pwr_health ce soc then Some (cdiv (rest_cc_max (ce_health ce)) 1000, ce_health_stats ce)
      else if ttf_pwr_health_pause ce soc
      then Some (sint ((capacity_ma (ce_profile ce) * word_of_int (rest_rate (ce_health ce)) * 10) div 1000), ce_health_stats ce)
      else do { t \<leftarrow> arr_get (ce_tier_stats ce) vbatt_idx; Some (- 1, t) })"

definition ttf_pwr_equiv_icl :: "gbms_charging_event \<Rightarrow> int \<Rightarrow> int \<Rightarrow> int \<Rightarrow> int option" where
  "ttf_pwr_equiv_icl ce vbatt_idx soc fcc = do {
     v \<leftarrow> arr_get (volt_limits (ce_profile ce)) vbatt_idx;
     volt_limit \<leftarrow> (if v = 0 then arr_get (volt_limits (ce_profile ce)) (volt_nb_limits (ce_profile ce) - 1) else Some v);
     if cdiv volt_limit 1000 = 0 then None
     else do {
       let aratio = cdiv (uint (ad_voltage ce) * 10000) (cdiv volt_limit 1000);
       (health_ibatt, ts) \<leftarrow> health_tier ce vbatt_idx soc;
       act_icl \<leftarrow> ttf_pwr_icl ts ce;
       if act_icl \<le> 0 then Some (- EINVAL)
       else do {
         let equiv_icl = cdiv (act_icl * aratio * 95) 10000;
         ibatt \<leftarrow> ttf_pwr_ibatt ts;
         let act_ibatt = (if ibatt = 0 \<and> health_ibatt > 0 then health_ibatt
                          else if fcc > 0 \<and> (ibatt = 0 \<or> fcc < ibatt) then fcc else ibatt);
         Some (if act_ibatt < 0 then - EINVAL
               else if act_ibatt > 0 \<and> act_ibatt < equiv_icl then act_ibatt else equiv_icl)
       }
     }
   }"

text \<open>
  The temperature row: that of the tier, or the row of the temperature at the entry of the tier
  when it crossed rows (25 degrees when there is none).
\<close>

definition ratio_temp_idx :: "gbms_charging_event \<Rightarrow> gbms_ce_tier_stats \<Rightarrow> int option" where
  "ratio_temp_idx ce ts =
     (if ts_temp_idx ts = - 1
      then let elap = swrap 32 (ts_time_fast ts + ts_time_taper ts + ts_time_other ts);
               t_avg = (if ts_temp_sum ts \<noteq> 0 \<or> elap = 0 then ts_temp_in ts else 0);
               t_avg' = (if t_avg = 0 then 250 else t_avg)
           in gbms_msc_temp_idx (ce_profile ce) t_avg'
      else Some (ts_temp_idx ts))"

definition ttf_pwr_ratio :: "batt_ttf_stats \<Rightarrow> gbms_charging_event \<Rightarrow> int \<Rightarrow> int \<Rightarrow> int option" where
  "ttf_pwr_ratio stats ce soc vbatt_idx =
     (if vbatt_idx < 0 then Some (- EINVAL)
      else do {
        ts \<leftarrow> arr_get (ce_tier_stats ce) vbatt_idx;
        temp_idx \<leftarrow> ratio_temp_idx ce ts;
        if ts_temp_idx ts = - 1 \<and> temp_idx < 0 then Some (- EINVAL)
        else do {
          let vi = (if vbatt_idx > volt_nb_limits (ce_profile ce) - 1 then volt_nb_limits (ce_profile ce) - 1 else vbatt_idx);
          cc \<leftarrow> GBMS_CCCM_LIMITS (ce_profile ce) temp_idx vi;
          let cc_max = sint (cc div 1000);
          ref_cc \<leftarrow> ttf_ref_cc stats soc;
          let avg_cc = (if ref_cc \<le> 0 then cc_max else ref_cc);
          icl \<leftarrow> ttf_pwr_equiv_icl ce vi soc (cdiv (fcc_now stats) 1000);
          if icl \<le> 0 then Some (- EINVAL)
          else do {
            let equiv_icl = (if cc_max < icl then cc_max else icl);
            if equiv_icl = 0 then Some (- EINVAL)
            else if equiv_icl < avg_cc then Some (cdiv (avg_cc * 100) equiv_icl)
            else Some 100
          }
        }
      })"

section \<open>Estimate per percent of charge\<close>

definition ttf_ref_elap :: "batt_ttf_stats \<Rightarrow> int \<Rightarrow> int option" where
  "ttf_ref_elap stats soc =
     (if soc < 0 \<or> soc \<ge> 100 then Some 0
      else do {
        e \<leftarrow> arr_get (ss_elap (soc_stats stats)) soc;
        if e = 0 then map_option (swrap 32) (arr_get (ss_elap (soc_ref stats)) soc) else Some (swrap 32 e)
      })"

text \<open>Return code (the ratio, or an error) and, without error, the estimate.\<close>

definition ttf_elap :: "batt_ttf_stats \<Rightarrow> gbms_charging_event \<Rightarrow> int \<Rightarrow> int \<Rightarrow> (int \<times> int) option" where
  "ttf_elap stats ce soc tier_idx = do {
     elap \<leftarrow> ttf_ref_elap stats soc;
     if elap = 0 then Some (- EINVAL, 0)
     else do {
       ratio \<leftarrow> ttf_pwr_ratio stats ce soc tier_idx;
       Some (if ratio < 0 then (- EINVAL, 0) else (ratio, elap * ratio))
     }
   }"

text \<open>
  The loop over the whole percents: the accumulated estimate and the largest ratio, or the error
  that ends it (\<^term>\<open>Inl\<close>).
\<close>

fun soc_loop ::
  "batt_ttf_stats \<Rightarrow> gbms_charging_event \<Rightarrow> int \<Rightarrow> int list \<Rightarrow> int \<Rightarrow> int \<Rightarrow> (int + int \<times> int) option" where
  "soc_loop stats ce tier_idx [] estimate max_ratio = Some (Inr (estimate, max_ratio))"
| "soc_loop stats ce tier_idx (i # is) estimate max_ratio =
     (if i \<ge> ce_ssoc_in ce \<and> i < ce_last_soc ce
      then do {
        e \<leftarrow> arr_get (ss_elap (ce_soc_stats ce)) i;
        soc_loop stats ce tier_idx is (estimate + e * 100) max_ratio
      }
      else do {
        (ratio, elap) \<leftarrow> ttf_elap stats ce i tier_idx;
        if ratio < 0 then Some (Inl ratio)
        else soc_loop stats ce tier_idx is (estimate + elap) (max max_ratio ratio)
      })"

text \<open>Return code and the value stored in \<open>*res\<close>, if any.\<close>

definition ttf_soc_estimate ::
  "batt_ttf_stats \<Rightarrow> gbms_charging_event \<Rightarrow> int \<Rightarrow> int \<Rightarrow> int \<Rightarrow> (int \<times> int option) option" where
  "ttf_soc_estimate stats ce soc last_q tier_idx =
     (if last_q > qnum_100 \<or> last_q < soc then Some (- EINVAL, None)
      else if last_q = soc then Some (0, Some 0)
      else do {
        let frac = qnum_frac2 soc;
        (est0, max0, i) \<leftarrow>
          (if frac \<noteq> 0
           then do {
             (ratio, elap) \<leftarrow> ttf_elap stats ce (qnum_toint soc) tier_idx;
             Some (if ratio \<ge> 0 then cdiv (elap * (100 - frac)) 100 else 0, max 0 ratio, 1)
           }
           else Some (0, 0, 0));
        r \<leftarrow> soc_loop stats ce tier_idx [i + qnum_toint soc..qnum_toint last_q - 1] est0 max0;
        (case r of
           Inl e \<Rightarrow> Some (e, None)
         | Inr (est1, max1) \<Rightarrow>
             (let frac2 = qnum_frac2 last_q in
              if frac2 \<noteq> 0
              then do {
                (ratio, elap) \<leftarrow> ttf_elap stats ce (qnum_toint last_q) tier_idx;
                Some (max max1 ratio, Some (cdiv (est1 + (if ratio \<ge> 0 then cdiv (elap * frac2) 100 else 0)) 100))
              }
              else Some (max1, Some (cdiv est1 100))))
      })"

section \<open>Learning from a charging event\<close>

text \<open>Both checks of a new value: against the value so far, then against the reference.\<close>

definition qual_clip :: "int \<Rightarrow> int \<Rightarrow> int \<Rightarrow> int \<Rightarrow> int \<Rightarrow> int" where
  "qual_clip delta lo hi cur x =
     (let x1 = (if x > cur + delta then cur + delta else if x < cur - delta then cur - delta else x)
      in if x1 > hi then hi else if x1 < lo then lo else x1)"

definition ttf_soc_qual_elap :: "batt_ttf_stats \<Rightarrow> gbms_charging_event \<Rightarrow> int \<Rightarrow> int \<Rightarrow> int option" where
  "ttf_soc_qual_elap stats ce i tier_idx = do {
     ref \<leftarrow> arr_get (ss_elap (soc_ref stats)) i;
     src \<leftarrow> arr_get (ss_elap (ce_soc_stats ce)) i;
     let max_elap = swrap 32 (cdiv ((100 + 20) * ref) 100);
     let min_elap = swrap 32 (cdiv ((100 - 20) * ref) 100);
     if src = 0 then Some 0
     else do {
       ratio \<leftarrow> ttf_pwr_ratio stats ce i tier_idx;
       if ratio \<le> 0 \<or> ratio > 200 then Some 0
       else do {
         dst \<leftarrow> arr_get (ss_elap (soc_stats stats)) i;
         let elap_new = cdiv (src * 100) ratio;
         let elap_cur = (if dst = 0 then ref else dst);
         Some (qual_clip 60 min_elap max_elap elap_cur (cdiv (elap_cur + elap_new) 2))
       }
     }
   }"

definition ttf_soc_qual_cc :: "batt_ttf_stats \<Rightarrow> gbms_charging_event \<Rightarrow> int \<Rightarrow> int option" where
  "ttf_soc_qual_cc stats ce i = do {
     ref \<leftarrow> arr_get (ss_cc (soc_ref stats)) i;
     src \<leftarrow> arr_get (ss_cc (ce_soc_stats ce)) i;
     let max_cc = cdiv ((100 + 20) * ref) 100;
     let min_cc = cdiv ((100 - 20) * ref) 100;
     if src = 0 then Some 0
     else do {
       dst \<leftarrow> arr_get (ss_cc (soc_stats stats)) i;
       let cc_cur = (if dst \<le> 0 then ref else dst);
       Some (qual_clip 40 min_cc max_cc cc_cur (cdiv (cc_cur + src) 2))
     }
   }"

definition set_elap :: "int \<Rightarrow> int \<Rightarrow> batt_ttf_stats \<Rightarrow> batt_ttf_stats" where
  "set_elap i e stats = stats\<lparr>soc_stats := (soc_stats stats)\<lparr>ss_elap := (ss_elap (soc_stats stats))[nat i := e]\<rparr>\<rparr>"

definition set_cc :: "int \<Rightarrow> int \<Rightarrow> batt_ttf_stats \<Rightarrow> batt_ttf_stats" where
  "set_cc i c stats = stats\<lparr>soc_stats := (soc_stats stats)\<lparr>ss_cc := (ss_cc (soc_stats stats))[nat i := c]\<rparr>\<rparr>"

text \<open>One percent of the update: only with both a time and a charge in the event.\<close>

definition soc_update_one :: "gbms_charging_event \<Rightarrow> int \<Rightarrow> batt_ttf_stats \<Rightarrow> batt_ttf_stats option" where
  "soc_update_one ce i stats = do {
     src_elap \<leftarrow> arr_get (ss_elap (ce_soc_stats ce)) i;
     src_cc \<leftarrow> arr_get (ss_cc (ce_soc_stats ce)) i;
     if src_elap = 0 \<or> src_cc = 0 then Some stats
     else do {
       tier \<leftarrow> ttf_pwr_vtier_idx stats i;
       elap \<leftarrow> ttf_soc_qual_elap stats ce i tier;
       let stats1 = (if elap \<noteq> 0 then set_elap i elap stats else stats);
       cc \<leftarrow> ttf_soc_qual_cc stats1 ce i;
       Some (if cc \<noteq> 0 then set_cc i cc stats1 else stats1)
     }
   }"

fun soc_updates :: "gbms_charging_event \<Rightarrow> int list \<Rightarrow> batt_ttf_stats \<Rightarrow> batt_ttf_stats option" where
  "soc_updates ce [] stats = Some stats"
| "soc_updates ce (i # is) stats = do { stats1 \<leftarrow> soc_update_one ce i stats; soc_updates ce is stats1 }"

definition ttf_soc_update :: "batt_ttf_stats \<Rightarrow> gbms_charging_event \<Rightarrow> int \<Rightarrow> int \<Rightarrow> batt_ttf_stats option" where
  "ttf_soc_update stats ce first_soc last_soc = do {
     stats1 \<leftarrow> soc_updates ce [first_soc..last_soc] stats;
     if last_soc = 98
     then do {
       ok \<leftarrow> ttf_cc_check (soc_ref stats1) 98;
       if ok
       then do {
         c98 \<leftarrow> arr_get (ss_cc (soc_stats stats1)) 98;
         r99 \<leftarrow> arr_get (ss_cc (soc_ref stats1)) 99;
         r98 \<leftarrow> arr_get (ss_cc (soc_ref stats1)) 98;
         Some (set_cc 99 (c98 + (r99 - r98)) stats1)
       }
       else Some stats1
     }
     else Some stats1
   }"

definition ttf_soc_init :: "ttf_soc_stats \<Rightarrow> ttf_soc_stats" where
  "ttf_soc_init dst = \<lparr>ss_cc = map (\<lambda>_. 0) (ss_cc dst), ss_elap = map (\<lambda>_. 0) (ss_elap dst)\<rparr>"

section \<open>Tier statistics\<close>

definition BATT_TTF_TS_VALID :: "ttf_tier_stat \<Rightarrow> bool" where
  "BATT_TTF_TS_VALID ts \<longleftrightarrow> tt_cc_total ts \<noteq> 0 \<and> tt_avg_time ts \<noteq> 0"

text \<open>
  The pointer \<open>ts\<close> into the array of tiers is the index \<open>base\<close>; \<open>ts[k]\<close> is the entry \<open>base + k\<close>.
\<close>

fun tier_sum :: "ttf_tier_stat list \<Rightarrow> int \<Rightarrow> int list \<Rightarrow> int \<Rightarrow> int option" where
  "tier_sum tiers base [] estimate = Some estimate"
| "tier_sum tiers base (k # ks) estimate = do {
     t0 \<leftarrow> arr_get tiers base;
     if \<not> BATT_TTF_TS_VALID t0 then Some (- ENODATA)
     else do {
       t \<leftarrow> arr_get tiers (base + k);
       tier_sum tiers base ks (estimate + tt_avg_time t)
     }
   }"

definition ttf_tier_accumulate :: "batt_ttf_stats \<Rightarrow> int \<Rightarrow> int \<Rightarrow> int option" where
  "ttf_tier_accumulate stats base vbatt_idx =
     (if vbatt_idx \<ge> GBMS_STATS_TIER_COUNT then Some 0
      else tier_sum (tier_stats stats) base [vbatt_idx..GBMS_STATS_TIER_COUNT - 1] 0)"

definition ttf_tier_estimate :: "batt_ttf_stats \<Rightarrow> int \<Rightarrow> int \<Rightarrow> (int \<times> int option) option" where
  "ttf_tier_estimate stats temp_idx vbatt_idx =
     (if vbatt_idx = - 1 \<and> temp_idx = - 1 then Some (- EINVAL, None)
      else do {
        ts \<leftarrow> arr_get (tier_stats stats) vbatt_idx;
        if \<not> BATT_TTF_TS_VALID ts then Some (- ENODATA, None)
        else do {
          estimate \<leftarrow> ttf_tier_accumulate stats vbatt_idx (vbatt_idx + 1);
          Some (if estimate < 0 then (- ENODATA, None) else (0, Some estimate))
        }
      })"

definition ttf_tier_update_stats :: "ttf_tier_stat \<Rightarrow> gbms_ce_tier_stats \<Rightarrow> bool \<Rightarrow> ttf_tier_stat" where
  "ttf_tier_update_stats ttf_ts chg_ts force =
     (if \<not> force \<and> ts_cc_total chg_ts = 0 then ttf_ts
      else let
        soc = (if tt_soc_in ttf_ts = 0 then ts_soc_in chg_ts else tt_soc_in ttf_ts);
        cc = (if tt_cc_in ttf_ts = 0 then ts_cc_in chg_ts else tt_cc_in ttf_ts);
        tot = (if tt_cc_total ttf_ts = 0 then ts_cc_total chg_ts else tt_cc_total ttf_ts);
        elap = swrap 32 (ts_time_fast chg_ts + ts_time_taper chg_ts + ts_time_other chg_ts);
        avg = (if tt_avg_time ttf_ts = 0 then elap else tt_avg_time ttf_ts)
      in \<lparr>tt_soc_in = cdiv (soc + ts_soc_in chg_ts) 2, tt_cc_in = cdiv (cc + ts_cc_in chg_ts) 2,
          tt_cc_total = cdiv (tot + ts_cc_total chg_ts) 2, tt_avg_time = cdiv (avg + elap) 2\<rparr>)"

definition tier_update_one :: "gbms_charging_event \<Rightarrow> bool \<Rightarrow> nat \<Rightarrow> ttf_tier_stat list \<Rightarrow> ttf_tier_stat list" where
  "tier_update_one ce force i tiers =
     (let chg_ts = ce_tier_stats ce ! i;
          elap = uwrap 32 (ts_time_fast chg_ts + ts_time_taper chg_ts)
      in if ts_temp_idx chg_ts = - 1 then tiers
         else if elap = 0 then tiers
         else if \<not> force \<and> i = 0 \<and> ts_soc_in chg_ts div 256 > 1 then tiers
         else if \<not> force \<and> i = 2 \<and> ce_ssoc_out ce \<noteq> 100 then tiers
         else tiers[i := ttf_tier_update_stats (tiers ! i) chg_ts False])"

definition ttf_tier_update :: "batt_ttf_stats \<Rightarrow> gbms_charging_event \<Rightarrow> bool \<Rightarrow> batt_ttf_stats" where
  "ttf_tier_update stats ce force = stats\<lparr>tier_stats := fold (tier_update_one ce force) [0, 1, 2] (tier_stats stats)\<rparr>"

definition ttf_stats_update :: "batt_ttf_stats \<Rightarrow> gbms_charging_event \<Rightarrow> bool \<Rightarrow> batt_ttf_stats option" where
  "ttf_stats_update stats ce force =
     (if ce_last_soc ce - ce_ssoc_in ce < 3 then Some stats
      else do {
        first_soc \<leftarrow> scan_up (\<lambda>i. map_option (\<lambda>e. e = 0) (arr_get (ss_elap (ce_soc_stats ce)) i)) (ce_last_soc ce + 1) (ce_ssoc_in ce);
        stats1 \<leftarrow> ttf_soc_update stats ce (first_soc + 1) (ce_last_soc ce - 1);
        Some (ttf_tier_update stats1 ce force)
      })"

section \<open>Reference tables\<close>

text \<open>
  The two tables lie one after the other in one allocation \<open>mem\<close> of twice \<open>count\<close> entries.
\<close>

definition ttf_as_default :: "u32 list \<Rightarrow> int \<Rightarrow> int \<Rightarrow> int \<Rightarrow> int option" where
  "ttf_as_default mem count i table_i =
     (case arr_get mem table_i of
        None \<Rightarrow> None
      | Some _ \<Rightarrow> scan_up (\<lambda>k. map_option (\<lambda>s. i > uint s) (arr_get mem k)) count table_i)"

fun soc_ref_fill :: "u32 list \<Rightarrow> int \<Rightarrow> int \<Rightarrow> int list \<Rightarrow> int \<Rightarrow> ttf_soc_stats \<Rightarrow> ttf_soc_stats option" where
  "soc_ref_fill mem count cc [] table_i ref = Some ref"
| "soc_ref_fill mem count cc (i # is) table_i ref = do {
     k \<leftarrow> ttf_as_default mem count i table_i;
     e \<leftarrow> arr_get mem (count + k);
     soc_ref_fill mem count cc is k
       (ref\<lparr>ss_elap := (ss_elap ref)[nat i := uint e], ss_cc := (ss_cc ref)[nat i := cdiv (cc * i) 100]\<rparr>)
   }"

definition ttf_init_soc_parse_dt ::
  "bool \<Rightarrow> dt_node \<Rightarrow> int \<Rightarrow> batt_ttf_stats \<Rightarrow> (int \<times> batt_ttf_stats) option" where
  "ttf_init_soc_parse_dt alloc_ok node capacity stats =
     (let cc = cdiv (capacity * 100) GBMS_SOC_STATS_LEN;
          count = dt_count node ''google,ttf-soc-table''
      in if count \<le> 0 then Some (- EINVAL, stats)
         else if cmod count 2 \<noteq> 0 then Some (- EINVAL, stats)
         else if \<not> alloc_ok then Some (- ENOMEM, stats)
         else case dt_array node ''google,ttf-soc-table'' (nat count) of
           Inl e \<Rightarrow> Some (e, stats)
         | Inr socs \<Rightarrow>
             (case dt_array node ''google,ttf-elap-table'' (nat count) of
                Inl e \<Rightarrow> Some (e, stats)
              | Inr elaps \<Rightarrow>
                  do {
                    ref \<leftarrow> soc_ref_fill (socs @ elaps) count cc [0..GBMS_SOC_STATS_LEN - 1] 0 (soc_ref stats);
                    Some (0, stats\<lparr>soc_ref := ref\<rparr>)
                  }))"

definition ttf_tier_reset :: "batt_ttf_stats \<Rightarrow> batt_ttf_stats" where
  "ttf_tier_reset stats =
     stats\<lparr>tier_stats := map (\<lambda>t. t\<lparr>tt_cc_in := 0, tt_cc_total := 0, tt_avg_time := 0\<rparr>) (tier_stats stats)\<rparr>"

definition ttf_init_tier_parse_dt :: "dt_node \<Rightarrow> int \<Rightarrow> batt_ttf_stats \<Rightarrow> int \<times> batt_ttf_stats" where
  "ttf_init_tier_parse_dt node capacity stats =
     (if dt_count node ''google,ttf-tier-table'' \<noteq> GBMS_STATS_TIER_COUNT then (- EINVAL, stats)
      else case dt_array node ''google,ttf-tier-table'' 3 of
        Inl e \<Rightarrow> (e, stats)
      | Inr table \<Rightarrow>
          (let soc = map (\<lambda>x. swrap 16 (uint (push_bit 8 x))) table;
               diff = swrap 16 (soc ! 2 - soc ! 1);
               cc1 = cdiv (capacity * (soc ! 1)) 100;
               cc2 = cdiv (capacity * (soc ! 2)) 100
           in (0, stats\<lparr>tier_stats :=
                 [\<lparr>tt_soc_in = soc ! 0, tt_cc_in = 0, tt_cc_total = 0, tt_avg_time = 0\<rparr>,
                  \<lparr>tt_soc_in = soc ! 1, tt_cc_in = cc1, tt_cc_total = cdiv (capacity * diff) 100, tt_avg_time = 0\<rparr>,
                  \<lparr>tt_soc_in = soc ! 2, tt_cc_in = cc2, tt_cc_total = capacity - cc2, tt_avg_time = 0\<rparr>]\<rparr>)))"

definition ttf_stats_dup :: "batt_ttf_stats \<Rightarrow> batt_ttf_stats" where
  "ttf_stats_dup src = src\<lparr>soc_stats := ttf_soc_init (soc_stats src),
     tier_stats := map (\<lambda>_. \<lparr>tt_soc_in = 0, tt_cc_in = 0, tt_cc_total = 0, tt_avg_time = 0\<rparr>) (tier_stats src)\<rparr>"

definition zero_soc_stats :: ttf_soc_stats where
  "zero_soc_stats = \<lparr>ss_cc = replicate 101 0, ss_elap = replicate 101 0\<rparr>"

definition zero_ttf_stats :: batt_ttf_stats where
  "zero_ttf_stats = \<lparr>soc_ref = zero_soc_stats, ref_temp_idx = 0, ref_watts = 0, soc_stats = zero_soc_stats,
     tier_stats = replicate 3 \<lparr>tt_soc_in = 0, tt_cc_in = 0, tt_cc_total = 0, tt_avg_time = 0\<rparr>,
     report_max_ratio = 0, fcc_now = 0\<rparr>"

definition ttf_stats_init :: "bool \<Rightarrow> dt_node \<Rightarrow> int \<Rightarrow> (int \<times> batt_ttf_stats) option" where
  "ttf_stats_init alloc_ok node capacity =
     (case dt_u32 node ''google,ttf-adapter'' of
        Inl e \<Rightarrow> Some (e, zero_ttf_stats)
      | Inr watts \<Rightarrow>
          (let s1 = zero_ttf_stats\<lparr>ref_watts := sint watts\<rparr>
           in case dt_u32 node ''google,ttf-temp-idx'' of
                Inl e \<Rightarrow> Some (e, s1)
              | Inr temp \<Rightarrow>
                  do {
                    let s2 = s1\<lparr>ref_temp_idx := sint temp,
                               report_max_ratio := sint (dt_u32_or node ''google,ttf-report-max-ratio'' 300)\<rparr>;
                    (ret, s3) \<leftarrow> ttf_init_soc_parse_dt alloc_ok node capacity s2;
                    Some (if ret < 0 then (ret, s3) else ttf_init_tier_parse_dt node capacity s3)
                  }))"

end
