(* ===== verification/Ttf_Props.thy ===== *)
theory Ttf_Props
  imports Ttf Chg_Profile_Props Chg_Stats_Props
begin

text \<open>
  Time to full: the power ratio never shortens the reference time, the estimate is the sum over the
  percents of charge, what is learned stays close to the reference, and the reference table
  is the step function of the device tree; with the accesses out of bounds that the tier
  estimate and the reference table allow.
\<close>

section \<open>Ratio\<close>

lemma cdiv_ge:
  assumes "0 < b" "b * q \<le> a" "0 \<le> q"
  shows "q \<le> cdiv a b"
proof -
  have "0 \<le> a" using assms by (meson mult_nonneg_nonneg order.strict_implies_order order.trans)
  then show ?thesis using assms zdiv_mono1 [OF assms(2,1)] by (simp add: cdiv_nonneg)
qed

lemma cc_max_nonneg: "0 \<le> sint ((c :: u32) div 1000)"
proof -
  have "uint c < 4294967296" using uint_bounded [of c] by simp
  then have "uint (c div 1000) < 2147483648" by (simp add: uint_div)
  then show ?thesis by (simp add: sint_u32_small)
qed

text \<open>
  The power ratio is an error or at least 100 percent: a weak adapter, a low battery current or
  a temperature limit can only lengthen the time of a percent of charge.
\<close>

theorem pwr_ratio_at_least_100:
  assumes "ttf_pwr_ratio stats ce soc vbatt_idx = Some r"
  shows "r = - EINVAL \<or> 100 \<le> r"
proof -
  have q: "100 \<le> cdiv (a * 100) b" if "0 \<le> b" "b \<noteq> 0" "b < a" for a b :: int
    using that by (intro cdiv_ge) auto
  show ?thesis
    using assms cc_max_nonneg
    by (auto simp: ttf_pwr_ratio_def Let_def bind_eq_Some_conv split: if_splits intro!: q)
qed

section \<open>Estimate\<close>

text \<open>
  The time of one percent, in hundredths: measured in this charging event, or the reference
  stretched by the power ratio.
\<close>

definition soc_cost :: "batt_ttf_stats \<Rightarrow> gbms_charging_event \<Rightarrow> int \<Rightarrow> int \<Rightarrow> int option" where
  "soc_cost stats ce tier_idx i =
     (if i \<ge> ce_ssoc_in ce \<and> i < ce_last_soc ce
      then map_option (\<lambda>e. e * 100) (arr_get (ss_elap (ce_soc_stats ce)) i)
      else case ttf_elap stats ce i tier_idx of
             Some (ratio, elap) \<Rightarrow> if ratio < 0 then None else Some elap
           | None \<Rightarrow> None)"

lemma soc_loop_sum:
  assumes "\<forall>i \<in> set is. soc_cost stats ce t i \<noteq> None" "0 \<le> m"
  shows "\<exists>r. soc_loop stats ce t is est m = Some (Inr (est + (\<Sum>i \<leftarrow> is. the (soc_cost stats ce t i)), r)) \<and> 0 \<le> r"
  using assms
proof (induction "is" arbitrary: est m)
  case (Cons i "is")
  then obtain c where c: "soc_cost stats ce t i = Some c" by auto
  show ?case
  proof (cases "i \<ge> ce_ssoc_in ce \<and> i < ce_last_soc ce")
    case True
    then obtain e where "arr_get (ss_elap (ce_soc_stats ce)) i = Some e" "c = e * 100" using c by (auto simp: soc_cost_def)
    then show ?thesis using True Cons.IH [of m "est + c"] Cons.prems c by (simp add: add.assoc)
  next
    case False
    then obtain ratio where r: "ttf_elap stats ce i t = Some (ratio, c)" "\<not> ratio < 0"
      using c by (auto simp: soc_cost_def split: option.splits if_splits)
    then show ?thesis using False Cons.IH [of "max m ratio" "est + c"] Cons.prems c by (auto simp: add.assoc)
  qed
qed simp

lemma qnum_whole: "qnum_frac2 (n * 2 ^ 24) = 0" "qnum_toint (n * 2 ^ 24) = n"
  by (simp_all add: qnum_frac2_def qnum_toint_def)

text \<open>
  C37: Between two whole percents of charge the estimate is the sum of the times of the percents
  between them: the measured time inside the charging event, the stretched reference outside.
\<close>

theorem soc_estimate_is_sum:
  assumes "a < b" "b \<le> 100"
    and cost: "\<forall>i \<in> {a..<b}. soc_cost stats ce tier_idx i \<noteq> None"
  shows "\<exists>r. 0 \<le> r \<and> ttf_soc_estimate stats ce (a * 2 ^ 24) (b * 2 ^ 24) tier_idx
     = Some (r, Some (cdiv (\<Sum>i \<leftarrow> [a..b - 1]. the (soc_cost stats ce tier_idx i)) 100))"
proof -
  have "\<forall>i \<in> set [a..b - 1]. soc_cost stats ce tier_idx i \<noteq> None" using cost by auto
  from soc_loop_sum [OF this, of 0 0] obtain r where
    r: "soc_loop stats ce tier_idx [a..b - 1] 0 0 = Some (Inr (\<Sum>i \<leftarrow> [a..b - 1]. the (soc_cost stats ce tier_idx i), r))" "0 \<le> r"
    by auto
  have "\<not> b * 2 ^ 24 > qnum_100" using assms(2) by (simp add: qnum_100_def)
  moreover have "a * 2 ^ 24 < b * 2 ^ 24" using assms(1) by simp
  ultimately show ?thesis using r
    by (intro exI [of _ r]) (simp add: ttf_soc_estimate_def qnum_whole [simplified] Let_def)
qed

section \<open>Learned statistics\<close>

definition near :: "int \<Rightarrow> int \<Rightarrow> bool" where
  "near ref x \<longleftrightarrow> x = 0 \<or> cdiv (80 * ref) 100 \<le> x \<and> x \<le> cdiv (120 * ref) 100"

definition ref_ok :: "batt_ttf_stats \<Rightarrow> bool" where
  "ref_ok stats \<longleftrightarrow> length (ss_elap (soc_ref stats)) = 101 \<and> length (ss_cc (soc_ref stats)) = 101
     \<and> (\<forall>x \<in> set (ss_elap (soc_ref stats)). 0 \<le> x \<and> x < 1000000000)
     \<and> (\<forall>x \<in> set (ss_cc (soc_ref stats)). 0 \<le> x)"

definition learned_ok :: "batt_ttf_stats \<Rightarrow> bool" where
  "learned_ok stats \<longleftrightarrow> ref_ok stats \<and> length (ss_elap (soc_stats stats)) = 101 \<and> length (ss_cc (soc_stats stats)) = 101
     \<and> (\<forall>i < 101. near (ss_elap (soc_ref stats) ! i) (ss_elap (soc_stats stats) ! i))
     \<and> (\<forall>i < 101. i \<noteq> 99 \<longrightarrow> near (ss_cc (soc_ref stats) ! i) (ss_cc (soc_stats stats) ! i))"

lemma qual_clip_near:
  assumes "0 \<le> ref"
  shows "near ref (qual_clip d (cdiv (80 * ref) 100) (cdiv (120 * ref) 100) cur x)"
proof -
  have "cdiv (80 * ref) 100 \<le> cdiv (120 * ref) 100" using assms by (intro cdiv_mono) auto
  then show ?thesis by (auto simp: near_def qual_clip_def Let_def)
qed

lemma qual_elap_near:
  assumes ok: "ref_ok stats" and q: "ttf_soc_qual_elap stats ce i t = Some e" and i: "0 \<le> i" "i < 101"
  shows "near (ss_elap (soc_ref stats) ! nat i) e"
proof -
  let ?r = "ss_elap (soc_ref stats) ! nat i"
  have r: "0 \<le> ?r" "?r < 1000000000" using ok i by (auto simp: ref_ok_def)
  have w: "swrap 32 (cdiv (120 * ?r) 100) = cdiv (120 * ?r) 100" "swrap 32 (cdiv (80 * ?r) 100) = cdiv (80 * ?r) 100"
    using r by (auto simp: swrap_def cdiv_nonneg)
  have "e = 0 \<or> (\<exists>c x. e = qual_clip 60 (cdiv (80 * ?r) 100) (cdiv (120 * ?r) 100) c x)"
    using q w i ok by (auto simp: ttf_soc_qual_elap_def ref_ok_def arr_get_def Let_def bind_eq_Some_conv split: if_splits)
  then show ?thesis using qual_clip_near [OF r(1)] by (auto simp: near_def)
qed

lemma qual_cc_near:
  assumes ok: "ref_ok stats" and q: "ttf_soc_qual_cc stats ce i = Some e" and i: "0 \<le> i" "i < 101"
  shows "near (ss_cc (soc_ref stats) ! nat i) e"
proof -
  let ?r = "ss_cc (soc_ref stats) ! nat i"
  have r: "0 \<le> ?r" using ok i by (auto simp: ref_ok_def)
  have "e = 0 \<or> (\<exists>c x. e = qual_clip 40 (cdiv (80 * ?r) 100) (cdiv (120 * ?r) 100) c x)"
    using q i ok by (auto simp: ttf_soc_qual_cc_def ref_ok_def arr_get_def Let_def bind_eq_Some_conv split: if_splits)
  then show ?thesis using qual_clip_near [OF r] by (auto simp: near_def)
qed

lemma nth_update_pred: "P j (xs ! j) \<Longrightarrow> P k x \<or> j \<noteq> k \<Longrightarrow> P j (xs[k := x] ! j)"
  by (cases "j = k"; cases "k < length xs") (auto simp: list_update_beyond)

lemma learned_set_elap:
  "learned_ok s \<Longrightarrow> near (ss_elap (soc_ref s) ! nat i) e \<Longrightarrow> learned_ok (set_elap i e s)"
  unfolding learned_ok_def set_elap_def ref_ok_def
  by (auto intro: nth_update_pred [where P = "\<lambda>j. near (ss_elap (soc_ref s) ! j)"])

lemma learned_set_cc:
  "learned_ok s \<Longrightarrow> nat i = 99 \<or> near (ss_cc (soc_ref s) ! nat i) c \<Longrightarrow> learned_ok (set_cc i c s)"
  unfolding learned_ok_def set_cc_def ref_ok_def
  by (auto intro: nth_update_pred [where P = "\<lambda>j. near (ss_cc (soc_ref s) ! j)"])

lemma soc_update_one_learned:
  assumes ok: "learned_ok s" and u: "soc_update_one ce i s = Some s'"
  shows "learned_ok s'"
proof (cases "s' = s")
  case False
  obtain a b where ab: "arr_get (ss_elap (ce_soc_stats ce)) i = Some a" "arr_get (ss_cc (ce_soc_stats ce)) i = Some b"
    using u by (auto simp: soc_update_one_def bind_eq_Some_conv)
  have nz: "\<not> (a = 0 \<or> b = 0)" using u ab False by (auto simp: soc_update_one_def)
  obtain tier elap cc s1 where t: "ttf_soc_qual_elap s ce i tier = Some elap" and s1: "s1 = (if elap \<noteq> 0 then set_elap i elap s else s)"
    and c: "ttf_soc_qual_cc s1 ce i = Some cc" and s': "s' = (if cc \<noteq> 0 then set_cc i cc s1 else s1)"
    using u unfolding soc_update_one_def
    by (simp add: ab nz bind_eq_Some_conv Let_def split del: if_split) blast
  have ref: "ref_ok s" using ok by (simp add: learned_ok_def)
  have i: "0 \<le> i" "i < 101" using t ref
    by (auto simp: ttf_soc_qual_elap_def bind_eq_Some_conv arr_get_def ref_ok_def split: if_splits)
  have ok1: "learned_ok s1" using s1 ok learned_set_elap qual_elap_near [OF ref t i] by auto
  then have "near (ss_cc (soc_ref s1) ! nat i) cc" using qual_cc_near [OF _ c i] by (simp add: learned_ok_def)
  then show ?thesis using s' ok1 learned_set_cc by auto
qed (use ok in simp)

lemma soc_updates_learned: "learned_ok s \<Longrightarrow> soc_updates ce is s = Some s' \<Longrightarrow> learned_ok s'"
  by (induction "is" arbitrary: s) (auto simp: bind_eq_Some_conv dest: soc_update_one_learned)


section \<open>Tier estimate\<close>

text \<open>
  The estimate from the first tier is the sum of the average times of the two tiers after it.
  From the second tier the code adds the index of the tier twice and reads past the end of the
  array of tiers.
\<close>

theorem tier_estimate_index_added_twice:
  assumes "tier_stats stats = [t0, t1, t2]" and "BATT_TTF_TS_VALID t0" and "BATT_TTF_TS_VALID t1"
    and "0 \<le> tt_avg_time t1" and "0 \<le> tt_avg_time t2"
  shows "ttf_tier_estimate stats temp_idx 0 = Some (0, Some (tt_avg_time t1 + tt_avg_time t2))
     \<and> ttf_tier_estimate stats temp_idx 1 = None"
proof -
  have l: "[1..2] = [1, 2 :: int]" "[2..2] = [2 :: int]" by (simp_all add: upto.simps)
  show ?thesis using assms by (simp add: ttf_tier_estimate_def ttf_tier_accumulate_def arr_get_def l)
qed

theorem tier_estimate_index_added_twice_witness:
  "ttf_tier_estimate (zero_ttf_stats\<lparr>tier_stats := replicate 3 \<lparr>tt_soc_in = 0, tt_cc_in = 0, tt_cc_total = 9, tt_avg_time = 60\<rparr>\<rparr>) 0 1 = None"
  using tier_estimate_index_added_twice [of "zero_ttf_stats\<lparr>tier_stats := replicate 3 \<lparr>tt_soc_in = 0, tt_cc_in = 0, tt_cc_total = 9, tt_avg_time = 60\<rparr>\<rparr>"]
  by (simp add: BATT_TTF_TS_VALID_def numeral_3_eq_3)

section \<open>Reference table\<close>

lemma as_default_spec:
  assumes len: "length socs = n" "length elaps = n" "0 < n" and k: "k \<le> n"
    and low: "\<forall>j < k. uint (socs ! j) < i"
  shows "\<exists>k'. ttf_as_default (socs @ elaps) (int n) i (int k) = Some (int k') \<and> k \<le> k' \<and> k' \<le> n
     \<and> (\<forall>j < k'. uint (socs ! j) < i) \<and> (k' < n \<longrightarrow> i \<le> uint (socs ! k'))"
proof -
  let ?p = "\<lambda>k. map_option (\<lambda>s. i > uint s) (arr_get (socs @ elaps) k)"
  have get: "?p (int j) = Some (i > uint (socs ! j))" if "j < n" for j using that len by (simp add: arr_get_def nth_append)
  have "?p j \<noteq> None" if "int k \<le> j" "j < int n" for j using that len by (simp add: arr_get_def)
  from scan_up_total [of "int k" "int n" ?p, OF this] obtain z where z: "scan_up ?p (int n) (int k) = Some z" "int k \<le> z" "z \<le> max (int k) (int n)"
    "\<forall>j. int k \<le> j \<longrightarrow> j < z \<longrightarrow> ?p j = Some True" "z < int n \<longrightarrow> ?p z = Some False" by blast
  obtain k' where k': "z = int k'" using z(2) by (metis nonneg_int_cases of_nat_0_le_iff order_trans)
  have kn: "k \<le> k'" "k' \<le> n" using z(2,3) k k' by auto
  have "uint (socs ! j) < i" if "j < k'" for j
    using z(4) [rule_format, of "int j"] get [of j] low that kn k' by (cases "j < k") auto
  moreover have "k' < n \<longrightarrow> i \<le> uint (socs ! k')" using z(5) get [of k'] k' by auto
  moreover have "arr_get (socs @ elaps) (int k) \<noteq> None" using k len by (simp add: arr_get_def)
  ultimately show ?thesis using z(1) k' kn by (auto simp: ttf_as_default_def)
qed

definition ref_entry :: "u32 list \<Rightarrow> u32 list \<Rightarrow> int \<Rightarrow> int \<Rightarrow> bool" where
  "ref_entry socs elaps i e \<longleftrightarrow>
     (\<exists>k < length socs. e = uint (elaps ! k) \<and> i \<le> uint (socs ! k) \<and> (\<forall>j < k. uint (socs ! j) < i))"

lemma soc_ref_fill_spec:
  assumes len: "length socs = n" "length elaps = n" "0 < n" and k: "k < n"
    and low: "\<forall>j < k. uint (socs ! j) < i" and last: "100 \<le> uint (socs ! (n - 1))" and i: "0 \<le> i" "i \<le> 101"
    and ref: "length (ss_elap ref) = 101"
  shows "\<exists>ref'. soc_ref_fill (socs @ elaps) (int n) cc [i..100] (int k) ref = Some ref' \<and> length (ss_elap ref') = 101
     \<and> (\<forall>j < nat i. ss_elap ref' ! j = ss_elap ref ! j)
     \<and> (\<forall>j \<le> 100. i \<le> int j \<longrightarrow> ref_entry socs elaps (int j) (ss_elap ref' ! j))"
  using k low i ref
proof (induction "nat (101 - i)" arbitrary: i k ref)
  case 0
  then have "[i..100] = []" "i = 101" by auto
  then show ?case using 0 by auto
next
  case (Suc m)
  then have i: "i \<le> 100" "[i..100] = i # [i + 1..100]" by (auto simp: upto.simps)
  obtain k' where k': "ttf_as_default (socs @ elaps) (int n) i (int k) = Some (int k')" "k' \<le> n"
     "\<forall>j < k'. uint (socs ! j) < i" "k' < n \<longrightarrow> i \<le> uint (socs ! k')"
    using as_default_spec [OF len _ Suc.prems(2)] Suc.prems(1) by fastforce
  have kn: "k' < n"
  proof (rule ccontr)
    assume "\<not> k' < n"
    then have "uint (socs ! (n - 1)) < i" using k'(2,3) len(3) by auto
    then show False using last i(1) by simp
  qed
  have e: "arr_get (socs @ elaps) (int n + int k') = Some (elaps ! k')"
    using kn len by (simp add: arr_get_def nth_append flip: of_nat_add)
  let ?ref = "ref\<lparr>ss_elap := (ss_elap ref)[nat i := uint (elaps ! k')], ss_cc := (ss_cc ref)[nat i := cdiv (cc * i) 100]\<rparr>"
  have m: "m = nat (101 - (i + 1))" using Suc.hyps(2) by linarith
  have "\<forall>j < k'. uint (socs ! j) < i + 1" using k'(3) by fastforce
  then obtain ref' where r: "soc_ref_fill (socs @ elaps) (int n) cc [i + 1..100] (int k') ?ref = Some ref'"
    "length (ss_elap ref') = 101" "\<forall>j < nat (i + 1). ss_elap ref' ! j = ss_elap ?ref ! j"
    "\<forall>j \<le> 100. i + 1 \<le> int j \<longrightarrow> ref_entry socs elaps (int j) (ss_elap ref' ! j)"
    using Suc.hyps(1) [OF m, of k' ?ref] Suc.prems kn i by auto
  have "ref_entry socs elaps i (uint (elaps ! k'))" using k'(3,4) kn len by (auto simp: ref_entry_def)
  moreover have "ss_elap ref' ! nat i = uint (elaps ! k')" using r(3) Suc.prems(3,5) i by simp
  ultimately have "ref_entry socs elaps (int j) (ss_elap ref' ! j)" if "j \<le> 100" "i \<le> int j" for j
    using r(4) that by (cases "int j = i") auto
  moreover have "\<forall>j < nat i. ss_elap ref' ! j = ss_elap ref ! j" using r(3) by auto
  ultimately show ?case using r(1,2) k'(1) e i(2) by auto
qed

lemma soc_ref_fill_fault:
  assumes len: "length socs = n" "length elaps = n" "0 < n" and k: "k \<le> n"
    and low: "\<forall>j < k. uint (socs ! j) < i" and all: "\<forall>j < n. uint (socs ! j) < 100" and i: "0 \<le> i" "i \<le> 100"
  shows "soc_ref_fill (socs @ elaps) (int n) cc [i..100] (int k) ref = None"
  using k low i
proof (induction "nat (100 - i)" arbitrary: i k ref rule: less_induct)
  case less
  have u: "[i..100] = i # [i + 1..100]" using less.prems by (simp add: upto.simps)
  obtain k' where k': "ttf_as_default (socs @ elaps) (int n) i (int k) = Some (int k')" "k' \<le> n"
     "\<forall>j < k'. uint (socs ! j) < i" "k' < n \<longrightarrow> i \<le> uint (socs ! k')"
    using as_default_spec [OF len less.prems(1,2)] by blast
  show ?case
  proof (cases "k' < n")
    case True
    then have "i < 100" using k'(4) all by fastforce
    moreover have "\<forall>j < k'. uint (socs ! j) < i + 1" using k'(3) by fastforce
    ultimately have "soc_ref_fill (socs @ elaps) (int n) cc [i + 1..100] (int k') ref' = None" for ref'
      using less.hyps [of "i + 1" k' ref'] less.prems k'(2) by simp
    then show ?thesis using k'(1) by (simp add: u bind_eq_None_conv)
  next
    case False
    then have "arr_get (socs @ elaps) (int n + int k') = None" using len by (simp add: arr_get_def)
    then show ?thesis using k'(1) by (simp add: u)
  qed
qed

text \<open>
  The reference times form the step function of the table in the device tree: percent \<open>i\<close> gets
  the time of the first entry whose charge is at least \<open>i\<close>, provided the last entry reaches 100. A
  table that ends below 100 makes the initialization read past its end.
\<close>

theorem soc_table_is_step_function:
  assumes c: "dt_count node ''google,ttf-soc-table'' = int n" "0 < n" "even n"
    and t: "dt_array node ''google,ttf-soc-table'' n = Inr socs" "dt_array node ''google,ttf-elap-table'' n = Inr elaps"
    and ok: "dt_ok node" and ref: "length (ss_elap (soc_ref stats)) = 101"
  shows "(100 \<le> uint (socs ! (n - 1)) \<longrightarrow>
     (\<exists>stats'. ttf_init_soc_parse_dt True node capacity stats = Some (0, stats')
        \<and> (\<forall>i \<le> 100. ref_entry socs elaps (int i) (ss_elap (soc_ref stats') ! i))))
   \<and> ((\<forall>k < n. uint (socs ! k) < 100) \<longrightarrow> ttf_init_soc_parse_dt True node capacity stats = None)"
proof -
  have len: "length socs = n" "length elaps = n" using dt_array_ok [OF ok] t by auto
  have m: "cmod (int n) 2 = 0" using c(3) by (simp add: cmod_nonneg flip: of_nat_mod)
  let ?cc = "cdiv (capacity * 100) 101"
  have p: "ttf_init_soc_parse_dt True node capacity stats =
     do { ref \<leftarrow> soc_ref_fill (socs @ elaps) (int n) ?cc [0..100] (int 0) (soc_ref stats); Some (0, stats\<lparr>soc_ref := ref\<rparr>) }"
    using c t m by (simp add: ttf_init_soc_parse_dt_def Let_def)
  show ?thesis
  proof (intro conjI impI)
    assume "100 \<le> uint (socs ! (n - 1))"
    from soc_ref_fill_spec [OF len c(2) c(2) _ this, of 0 "soc_ref stats" ?cc] ref show
      "\<exists>stats'. ttf_init_soc_parse_dt True node capacity stats = Some (0, stats')
        \<and> (\<forall>i \<le> 100. ref_entry socs elaps (int i) (ss_elap (soc_ref stats') ! i))"
      by (auto simp: p)
  next
    assume "\<forall>k < n. uint (socs ! k) < 100"
    from soc_ref_fill_fault [OF len c(2) _ _ this, of 0 0 ?cc "soc_ref stats"]
    show "ttf_init_soc_parse_dt True node capacity stats = None" by (simp add: p)
  qed
qed

section \<open>Examples\<close>

definition demo_stats :: batt_ttf_stats where
  "demo_stats = zero_ttf_stats\<lparr>soc_ref := \<lparr>ss_cc = map (\<lambda>i. 50 * int i) [0..<101], ss_elap = replicate 101 60\<rparr>\<rparr>"

definition demo_event :: gbms_charging_event where
  "demo_event = \<lparr>ad_voltage = 90, ad_amperage = 10,
     ce_profile = demo_profile\<lparr>cccm_limits := Some [3000000, 1000000, 5000000, 2000000]\<rparr>,
     ce_ssoc_in = 10, ce_ssoc_out = 0, ce_tier_stats = replicate 3 (demo_tier\<lparr>ts_temp_idx := 0\<rparr>),
     ce_soc_stats = \<lparr>ss_cc = map (\<lambda>i. 50 * int i + 10) [0..<101], ss_elap = replicate 101 70\<rparr>, ce_last_soc = 13,
     ce_health = \<lparr>rest_soc = 80, always_on_soc = - 1, rest_rate = 0, rest_state = CHG_HEALTH_INACTIVE, rest_cc_max = 0\<rparr>,
     ce_health_stats = demo_tier\<rparr>"

lemmas ratio_eval = ttf_pwr_ratio_def ratio_temp_idx_def GBMS_CCCM_LIMITS_def GBMS_AACT_TI_def ttf_ref_cc_def soc_demand_def
  ttf_cc_check_def ttf_pwr_equiv_icl_def health_tier_def ttf_pwr_health_def ttf_pwr_health_pause_def ttf_pwr_icl_def
  ttf_pwr_ibatt_def tier_elap_def demo_stats_def demo_event_def demo_tier_def demo_profile_def zero_ttf_stats_def
  zero_soc_stats_def arr_get_def swrap_def uwrap_def cdiv_def Let_def

lemma demo_ratio: "ttf_pwr_ratio demo_stats demo_event 98 0 = Some 147" "ttf_pwr_ratio demo_stats demo_event 99 0 = Some 147"
  by (simp_all add: ratio_eval)

theorem pwr_ratio_at_least_100_witness: "\<exists>r. ttf_pwr_ratio demo_stats demo_event 98 0 = Some r \<and> 100 \<le> r"
  using pwr_ratio_at_least_100 [OF demo_ratio(1)] demo_ratio(1) by simp

lemma demo_cost: "soc_cost demo_stats demo_event 0 98 = Some 8820" "soc_cost demo_stats demo_event 0 99 = Some 8820"
  using demo_ratio
  by (simp_all add: soc_cost_def ttf_elap_def ttf_ref_elap_def demo_stats_def demo_event_def zero_ttf_stats_def zero_soc_stats_def
      arr_get_def swrap_def)

theorem soc_estimate_is_sum_witness:
  "\<exists>r. ttf_soc_estimate demo_stats demo_event (98 * 2 ^ 24) (100 * 2 ^ 24) 0 = Some (r, Some 176)"
proof -
  have "i = 98 \<or> i = 99" if "i \<in> {98..<100}" for i :: int using that by auto
  then have "\<forall>i \<in> {98..<100}. soc_cost demo_stats demo_event 0 i \<noteq> None" using demo_cost by blast
  from soc_estimate_is_sum [OF _ _ this] obtain r where
    r: "ttf_soc_estimate demo_stats demo_event (98 * 2 ^ 24) (100 * 2 ^ 24) 0
     = Some (r, Some (cdiv (\<Sum>i \<leftarrow> [98..100 - 1]. the (soc_cost demo_stats demo_event 0 i)) 100))" by auto
  have "[98..99] = [98, 99 :: int]" by (simp add: upto.simps)
  then have "cdiv (\<Sum>i \<leftarrow> [98..100 - 1]. the (soc_cost demo_stats demo_event 0 i)) 100 = 176"
    using demo_cost by (simp add: cdiv_def)
  then show ?thesis using r by metis
qed

lemma demo_stats_learned: "learned_ok demo_stats"
  by (auto simp: learned_ok_def ref_ok_def near_def demo_stats_def zero_ttf_stats_def zero_soc_stats_def)


definition demo_soc_node :: dt_node where
  "demo_soc_node = demo_node [(''google,ttf-soc-table'', [50, 100]), (''google,ttf-elap-table'', [40, 90])]"

theorem soc_table_is_step_function_witness:
  "\<exists>stats'. ttf_init_soc_parse_dt True demo_soc_node 4000 zero_ttf_stats = Some (0, stats')
     \<and> ref_entry [50, 100] [40, 90] 60 (ss_elap (soc_ref stats') ! 60)"
proof -
  have "dt_count demo_soc_node ''google,ttf-soc-table'' = int 2" "dt_array demo_soc_node ''google,ttf-soc-table'' 2 = Inr [50, 100]"
    "dt_array demo_soc_node ''google,ttf-elap-table'' 2 = Inr [40, 90]"
    by (simp_all add: demo_soc_node_def demo_node_def)
  moreover have "dt_ok demo_soc_node" "length (ss_elap (soc_ref zero_ttf_stats)) = 101"
    by (simp_all add: demo_soc_node_def demo_node_ok zero_ttf_stats_def zero_soc_stats_def)
  ultimately have f: "dt_count demo_soc_node ''google,ttf-soc-table'' = int 2" "dt_array demo_soc_node ''google,ttf-soc-table'' 2 = Inr [50, 100]"
    "dt_array demo_soc_node ''google,ttf-elap-table'' 2 = Inr [40, 90]" "dt_ok demo_soc_node"
    "length (ss_elap (soc_ref zero_ttf_stats)) = 101" by blast+
  from soc_table_is_step_function [OF f(1) _ _ f(2-5), of 4000] obtain stats' where
    s: "ttf_init_soc_parse_dt True demo_soc_node 4000 zero_ttf_stats = Some (0, stats')"
    "\<forall>i \<le> 100. ref_entry [50, 100] [40, 90] (int i) (ss_elap (soc_ref stats') ! i)" by auto
  from s(2) [rule_format, of 60] s(1) show ?thesis by auto
qed

end
