(* ===== verification/Ssoc.thy ===== *)
theory Ssoc
  imports Ttf
begin

text \<open>
  The state of charge that the battery driver reports, from \<^verbatim>\<open>src/google-modules/bms/google_battery.c\<close>:
  the gauge's value is mapped through a curve of three points, which makes the display reach 100\<open>%\<close>
  while the battery is still topping off, and the result is followed by a rate limiter. Connecting,
  disconnecting and the end of a charge replace the curve; the recharge logic and the spoofed state
  of charge of the battery defenders sit on top.

  Percentages are the fixed-point numbers of \<^verbatim>\<open>qmath.h\<close> (\<open>qnum_t\<close>, 32 bits with 24 fractional
  ones), as \<^typ>\<open>int\<close> with the wrap-around of each assignment written out. The time
  (\<open>get_boot_sec()\<close>), the gauge's answer and what the storage returned are arguments. A read
  outside an array or a division by zero has the result \<^term>\<open>None\<close>. The text for the logs
  (\<open>dump_ssoc_state\<close>, \<open>ssoc_uicurve_cstr\<close>) and the notifications of the power supply are left out.
\<close>

section \<open>Fixed-point arithmetic\<close>

definition qnum_fromint :: "int \<Rightarrow> int" where
  "qnum_fromint i = i * 2 ^ 24"

definition qnum_from_q8_8 :: "int \<Rightarrow> int" where
  "qnum_from_q8_8 q = q * 2 ^ 16"

definition qnum_mul :: "int \<Rightarrow> int \<Rightarrow> int" where
  "qnum_mul a b = swrap 32 (a * b div 2 ^ 24)"

definition qnum_div :: "int \<Rightarrow> int \<Rightarrow> int" where
  "qnum_div a b = swrap 32 (cdiv (a * 2 ^ 24) b)"

text \<open>\<open>qnum_roundint(F, 0.5)\<close>; the constant is one half.\<close>

definition qnum_roundint_half :: "int \<Rightarrow> int" where
  "qnum_roundint_half f = qnum_toint (swrap 32 (f + 8388608))"

section \<open>Data\<close>

abbreviation (input) UICURVE_MAX :: int where "UICURVE_MAX \<equiv> 3"
abbreviation (input) RL_DELTA_SOC_MAX :: int where "RL_DELTA_SOC_MAX \<equiv> 8"
abbreviation (input) SSOC_TRUE :: int where "SSOC_TRUE \<equiv> 15"
abbreviation (input) SSOC_SPOOF :: int where "SSOC_SPOOF \<equiv> 95"
abbreviation (input) SSOC_FULL :: int where "SSOC_FULL \<equiv> 100"

record ssoc_uicurve =
  uc_real :: int
  uc_ui :: int

datatype batt_rl_status = BATT_RL_STATUS_NONE | BATT_RL_STATUS_DISCHARGE | BATT_RL_STATUS_RECHARGE

datatype ssoc_uic_type = SSOC_UIC_TYPE_DSG | SSOC_UIC_TYPE_NONE | SSOC_UIC_TYPE_CHG

datatype batt_sr_state = BATT_SMART_RECHG_DISABLE | BATT_SMART_RECHG_ENABLE | BATT_SMART_RECHG_TRIGGER

datatype spoof_soc_reason = SPOOF_SOC_NONE | SPOOF_SOC_CHARGING_POLICY | SPOOF_SOC_ADAPTIVE_CHARGING | SPOOF_SOC_TEMP_DEFEND

record batt_ssoc_rl_state =
  rl_ssoc_target :: int
  rl_ssoc_last_update :: int
  rl_no_zero :: bool
  rl_fast_track :: int
  rl_track_target :: int
  rl_delta_max_time :: int
  rl_delta_max_soc :: int
  rl_delta_soc_ratio :: "int list"
  rl_delta_soc_limit :: "int list"
  rl_delta_soc_cnt :: int
  rl_ft_low_limit :: int
  rl_ft_delta_limit :: int

record batt_ssoc_state =
  ssoc_gdf :: int
  ssoc_curve_type :: ssoc_uic_type
  ssoc_curve :: "ssoc_uicurve list"
  ssoc_uic :: int
  ssoc_rl :: int
  ssoc_rl_state :: batt_ssoc_rl_state
  ssoc_delta :: int
  disconnect_time :: int
  buck_enabled :: int
  rl_soc_threshold :: int
  rl_status :: batt_rl_status
  bd_trickle_enable :: bool
  bd_trickle_recharge_soc :: int
  bd_trickle_cnt :: int
  bd_trickle_dry_run :: bool
  bd_trickle_full :: bool
  bd_trickle_eoc :: bool
  bd_trickle_reset_sec :: u32
  bd_trickle_cnt_thr :: int
  bd_trickle_version :: int
  bd_trickle_rate :: int
  save_soc_available :: bool
  save_soc :: u16
  point_full_ui_soc :: int
  sr_state :: batt_sr_state
  spoof_start_soc :: int
  spoof_end_soc :: int
  spoof_reason :: spoof_soc_reason
  spoof_triggered :: bool

section \<open>Display curve\<close>

text \<open>\<open>qnum_rconst\<close> of 15, 95 and 100: the constant is multiplied by one half more than the scale.\<close>

definition ssoc_point_true :: int where "ssoc_point_true = 251658247"
definition ssoc_point_spoof :: int where "ssoc_point_spoof = 1593835567"
definition ssoc_point_full :: int where "ssoc_point_full = 1677721650"

definition chg_curve :: "ssoc_uicurve list" where
  "chg_curve = [\<lparr>uc_real = ssoc_point_true, uc_ui = ssoc_point_true\<rparr>,
                \<lparr>uc_real = ssoc_point_spoof, uc_ui = ssoc_point_spoof\<rparr>,
                \<lparr>uc_real = ssoc_point_full, uc_ui = ssoc_point_full\<rparr>]"

definition dsg_curve :: "ssoc_uicurve list" where
  "dsg_curve = [\<lparr>uc_real = ssoc_point_true, uc_ui = ssoc_point_true\<rparr>,
                \<lparr>uc_real = ssoc_point_spoof, uc_ui = ssoc_point_full\<rparr>,
                \<lparr>uc_real = ssoc_point_full, uc_ui = ssoc_point_full\<rparr>]"

function uicurve_find_from :: "int \<Rightarrow> ssoc_uicurve list \<Rightarrow> int \<Rightarrow> int option" where
  "uicurve_find_from real curve i =
     (if i < UICURVE_MAX
      then do {
        p \<leftarrow> arr_get curve i;
        if real = uc_real p then Some i
        else if real > uc_real p then uicurve_find_from real curve (i + 1)
        else Some (i - 1)
      }
      else Some (i - 1))"
  by pat_completeness auto
termination by (relation "measure (\<lambda>(real, curve, i). nat (3 - i))") auto

declare uicurve_find_from.simps [simp del]

definition ssoc_uicurve_find :: "int \<Rightarrow> ssoc_uicurve list \<Rightarrow> int option" where
  "ssoc_uicurve_find real curve = uicurve_find_from real curve 1"

definition ssoc_uicurve_map :: "int \<Rightarrow> ssoc_uicurve list \<Rightarrow> int option" where
  "ssoc_uicurve_map real curve = do {
     first \<leftarrow> arr_get curve 0;
     top \<leftarrow> arr_get curve (UICURVE_MAX - 1);
     if real < uc_real first then Some real
     else if real \<ge> uc_ui top then Some (uc_ui top)
     else do {
       i \<leftarrow> ssoc_uicurve_find real curve;
       p \<leftarrow> arr_get curve i;
       if uc_real p = real then Some (uc_ui p)
       else do {
         q \<leftarrow> arr_get curve (i + 1);
         let delta_ui = swrap 32 (uc_ui q - uc_ui p);
         let delta_re = swrap 32 (uc_real q - uc_real p);
         let slope = (if delta_re \<noteq> 0 then qnum_div delta_ui delta_re else 0);
         Some (swrap 32 (uc_ui p + qnum_mul slope (swrap 32 (real - uc_real p))))
       }
     }
   }"

text \<open>The last adjustment of the code cannot apply after the check at its start.\<close>

definition ssoc_uicurve_splice :: "ssoc_uicurve list \<Rightarrow> int \<Rightarrow> int \<Rightarrow> ssoc_uicurve list" where
  "ssoc_uicurve_splice curve real ui =
     (if real < uc_real (curve ! 0) \<or> real > uc_real (curve ! 2) then curve
      else let curve1 = curve[1 := \<lparr>uc_real = real, uc_ui = ui\<rparr>]
           in if uc_real (curve1 ! 1) > uc_real (curve1 ! 2)
              then curve1[2 := (curve1 ! 2)\<lparr>uc_real := ssoc_point_full\<rparr>] else curve1)"

definition ssoc_uicurve_splice_full :: "ssoc_uicurve list \<Rightarrow> int \<Rightarrow> int \<Rightarrow> ssoc_uicurve list" where
  "ssoc_uicurve_splice_full curve real ui =
     (if uc_real (curve ! 1) > real then curve
      else curve[2 := \<lparr>uc_real = real, uc_ui = ui\<rparr>])"

section \<open>Rate limiter\<close>

fun rl_limit_loop :: "batt_ssoc_rl_state \<Rightarrow> int \<Rightarrow> int list \<Rightarrow> int option" where
  "rl_limit_loop rls max_delta [] = Some max_delta"
| "rl_limit_loop rls max_delta (i # is) = do {
     l \<leftarrow> arr_get (rl_delta_soc_limit rls) i;
     if l = 0 then Some max_delta
     else if rl_ssoc_target rls < l
     then do {
       r \<leftarrow> arr_get (rl_delta_soc_ratio rls) i;
       if r = 0 then None else Some (swrap 32 (cdiv (max_delta * 10) r))
     }
     else rl_limit_loop rls max_delta is
   }"

definition ssoc_rl_max_delta :: "batt_ssoc_rl_state \<Rightarrow> int \<Rightarrow> int option" where
  "ssoc_rl_max_delta rls delta_time =
     (if delta_time > rl_delta_max_time rls \<and> rl_delta_max_time rls = 0 then None
      else if delta_time > rl_delta_max_time rls
         \<and> cdiv (qnum_toint (rl_delta_max_soc rls) * delta_time) (rl_delta_max_time rls) > 100
      then Some (qnum_fromint 100)
      else let max_delta = swrap 32 (cdiv (rl_delta_max_soc rls * delta_time)
                             (if rl_delta_max_time rls \<noteq> 0 then rl_delta_max_time rls else 1))
           in if rl_fast_track rls \<noteq> 0 then Some max_delta
              else rl_limit_loop rls max_delta [0..rl_delta_soc_cnt rls - 1])"

text \<open>The three parts of \<open>ssoc_apply_rl\<close>: the new target, the limited value, and what may be shown of it.\<close>

definition rl_next_target :: "batt_ssoc_state \<Rightarrow> int" where
  "rl_next_target ssoc =
     (let target = rl_ssoc_target (ssoc_rl_state ssoc);
          t0 = (if buck_enabled ssoc \<noteq> 0 \<or> ssoc_uic ssoc < target then ssoc_uic ssoc else target);
          t1 = (if t0 > qnum_fromint 100 then qnum_fromint 100 else t0)
      in if t1 < qnum_fromint 0 then qnum_fromint 0 else t1)"

definition rl_limited :: "int \<Rightarrow> batt_ssoc_rl_state \<Rightarrow> int \<Rightarrow> int option" where
  "rl_limited now rls rl =
     (if rl_track_target rls \<noteq> 0 then Some (rl_ssoc_target rls)
      else do {
        max_delta \<leftarrow> ssoc_rl_max_delta rls (now - rl_ssoc_last_update rls);
        let step0 = swrap 32 (rl_ssoc_target rls - rl);
        let step = (if step0 < - max_delta then - max_delta
                    else if step0 > max_delta then max_delta else step0);
        Some (swrap 32 (rl + step))
      })"

definition rl_shown :: "batt_ssoc_state \<Rightarrow> int \<Rightarrow> int" where
  "rl_shown ssoc v0 =
     (let v1 = (if buck_enabled ssoc = 0 \<and> v0 > ssoc_rl ssoc then ssoc_rl ssoc else v0)
      in if rl_no_zero (ssoc_rl_state ssoc) \<and> v1 \<le> qnum_fromint 1 then qnum_fromint 1 else v1)"

definition ssoc_apply_rl :: "int \<Rightarrow> batt_ssoc_state \<Rightarrow> (int \<times> batt_ssoc_state) option" where
  "ssoc_apply_rl now ssoc =
     (let rls1 = (ssoc_rl_state ssoc)\<lparr>rl_ssoc_target := rl_next_target ssoc\<rparr>
      in map_option (\<lambda>v. (rl_shown ssoc v, ssoc\<lparr>ssoc_rl_state := rls1\<lparr>rl_ssoc_last_update := now\<rparr>\<rparr>))
           (rl_limited now rls1 (ssoc_rl ssoc)))"

section \<open>Reported capacity\<close>

definition ssoc_get_real_raw :: "batt_ssoc_state \<Rightarrow> int" where
  "ssoc_get_real_raw ssoc = ssoc_gdf ssoc"

definition ssoc_get_capacity_raw :: "batt_ssoc_state \<Rightarrow> int" where
  "ssoc_get_capacity_raw ssoc = ssoc_rl ssoc"

definition ssoc_get_real :: "batt_ssoc_state \<Rightarrow> int" where
  "ssoc_get_real ssoc = qnum_toint (ssoc_get_real_raw ssoc)"

definition ssoc_get_capacity :: "batt_ssoc_state \<Rightarrow> int" where
  "ssoc_get_capacity ssoc = qnum_roundint_half (ssoc_get_capacity_raw ssoc)"

text \<open>The flags of the limiter: fast tracking at a low or distant target, and the floor of one percent.\<close>

definition rl_update_flags :: "int \<Rightarrow> int \<Rightarrow> batt_ssoc_rl_state \<Rightarrow> batt_ssoc_rl_state" where
  "rl_update_flags buck rl r0 =
     (let r1 = r0\<lparr>rl_fast_track := rl_fast_track r0 OR of_bool (rl_ssoc_target r0 < rl_ft_low_limit r0)\<rparr>;
          delta = swrap 32 (rl_ssoc_target r1 - rl);
          r2 = (if rl_ft_delta_limit r1 \<noteq> 0 \<and> buck \<noteq> 0 \<and> delta > 0
                then r1\<lparr>rl_fast_track := rl_fast_track r1 OR of_bool (delta > rl_ft_delta_limit r1)\<rparr>
                else if rl_ft_delta_limit r1 \<noteq> 0 \<and> buck = 0 \<and> delta < 0
                then r1\<lparr>rl_fast_track := rl_fast_track r1 OR of_bool (- delta > rl_ft_delta_limit r1)\<rparr>
                else r1)
      in if rl_no_zero r2 then r2\<lparr>rl_no_zero := rl_ssoc_target r2 > qnum_from_q8_8 128\<rparr> else r2)"

definition ssoc_update :: "int \<Rightarrow> batt_ssoc_state \<Rightarrow> int \<Rightarrow> batt_ssoc_state option" where
  "ssoc_update now ssoc soc = do {
     uic \<leftarrow> ssoc_uicurve_map soc (ssoc_curve ssoc);
     let s1 = ssoc\<lparr>ssoc_gdf := soc, ssoc_uic := uic\<rparr>;
     let s2 = (if rl_ssoc_target (ssoc_rl_state s1) = - 1
               then s1\<lparr>ssoc_rl_state := (ssoc_rl_state s1)\<lparr>rl_ssoc_target := uic\<rparr>, ssoc_rl := uic\<rparr>
               else s1);
     let s3 = s2\<lparr>ssoc_rl_state := rl_update_flags (buck_enabled s2) (ssoc_rl s2) (ssoc_rl_state s2)\<rparr>;
     (v, s4) \<leftarrow> ssoc_apply_rl now s3;
     Some (s4\<lparr>ssoc_rl := v\<rparr>)
   }"

text \<open>The gauge answers with a percentage in Q8.8, or a negative error code.\<close>

definition ssoc_work :: "int \<Rightarrow> int \<Rightarrow> batt_ssoc_state \<Rightarrow> (int \<times> batt_ssoc_state) option" where
  "ssoc_work now soc_q8_8 ssoc =
     (if soc_q8_8 < 0 then Some (- EINVAL, ssoc)
      else map_option (\<lambda>s. (0, s)) (ssoc_update now ssoc (swrap 32 (qnum_from_q8_8 soc_q8_8))))"

section \<open>Changing the curve\<close>

definition ssoc_change_curve_at_gdf :: "batt_ssoc_state \<Rightarrow> int \<Rightarrow> int \<Rightarrow> ssoc_uic_type \<Rightarrow> batt_ssoc_state" where
  "ssoc_change_curve_at_gdf ssoc gdf capacity type =
     (let new_curve = (if type = SSOC_UIC_TYPE_DSG then dsg_curve else chg_curve)
      in ssoc\<lparr>ssoc_curve := ssoc_uicurve_splice new_curve gdf capacity, ssoc_curve_type := type\<rparr>)"

definition ssoc_change_curve :: "batt_ssoc_state \<Rightarrow> int \<Rightarrow> ssoc_uic_type \<Rightarrow> batt_ssoc_state" where
  "ssoc_change_curve ssoc delta type =
     (let full = ssoc_get_capacity ssoc \<ge> SSOC_FULL;
          rlt = swrap 32 (qnum_fromint (rl_soc_threshold ssoc));
          gdf0 = ssoc_gdf ssoc;
          gdf1 = (if full then swrap 32 ((if gdf0 > rlt then gdf0 else rlt) - delta) else gdf0);
          type1 = (if full then SSOC_UIC_TYPE_DSG else type);
          gdf2 = (if gdf1 > ssoc_point_full then ssoc_point_full else gdf1)
      in ssoc_change_curve_at_gdf ssoc gdf2 (ssoc_get_capacity_raw ssoc) type1)"

section \<open>Recharge logic\<close>

abbreviation (input) BD_TRICKLE_VER_SOC :: int where "BD_TRICKLE_VER_SOC \<equiv> 1"

definition batt_is_trickle :: "batt_ssoc_state \<Rightarrow> bool" where
  "batt_is_trickle s \<longleftrightarrow> bd_trickle_cnt s > bd_trickle_cnt_thr s \<and> bd_trickle_enable s \<and> \<not> bd_trickle_dry_run s"

definition batt_rl_enter :: "int \<Rightarrow> batt_ssoc_state \<Rightarrow> batt_rl_status \<Rightarrow> (bool \<times> batt_ssoc_state) option" where
  "batt_rl_enter now s status =
     (if rl_status s = status \<or> rl_status s = BATT_RL_STATUS_DISCHARGE then Some (False, s)
      else let s1 = (if status = BATT_RL_STATUS_DISCHARGE
                     then if batt_is_trickle s \<and> bd_trickle_version s = BD_TRICKLE_VER_SOC
                          then ssoc_change_curve s 0 SSOC_UIC_TYPE_DSG
                          else s\<lparr>ssoc_curve := dsg_curve, ssoc_curve_type := SSOC_UIC_TYPE_DSG\<rparr>
                     else s)
           in map_option (\<lambda>s2. (True, s2\<lparr>rl_status := status\<rparr>)) (ssoc_update now s1 (ssoc_gdf s1)))"

definition batt_rl_update_status :: "batt_ssoc_state \<Rightarrow> batt_ssoc_state" where
  "batt_rl_update_status s =
     (let threshold = (if batt_is_trickle s \<and> bd_trickle_version s = BD_TRICKLE_VER_SOC
                       then bd_trickle_recharge_soc s else rl_soc_threshold s)
      in if rl_status s \<noteq> BATT_RL_STATUS_DISCHARGE then s
         else if rl_soc_threshold s = 0 then s
         else if ssoc_get_real s > threshold then s
         else let s1 = s\<lparr>rl_status := BATT_RL_STATUS_RECHARGE,
                         sr_state := (if sr_state s = BATT_SMART_RECHG_TRIGGER
                                      then BATT_SMART_RECHG_ENABLE else sr_state s)\<rparr>
              in if bd_trickle_full s1 \<and> bd_trickle_eoc s1
                 then s1\<lparr>bd_trickle_cnt := swrap 32 (bd_trickle_cnt s1 + 1), bd_trickle_full := False,
                         bd_trickle_eoc := False\<rparr>
                 else s1)"

definition batt_rl_reset :: "batt_ssoc_state \<Rightarrow> batt_ssoc_state" where
  "batt_rl_reset s = s\<lparr>rl_status := BATT_RL_STATUS_NONE\<rparr>"

definition batt_sr_update_state :: "batt_ssoc_state \<Rightarrow> batt_ssoc_state" where
  "batt_sr_update_state s =
     (if sr_state s = BATT_SMART_RECHG_DISABLE then s
      else if ssoc_get_capacity s = SSOC_FULL \<and> ssoc_get_real s > rl_soc_threshold s
      then s\<lparr>sr_state := BATT_SMART_RECHG_TRIGGER\<rparr>
      else s\<lparr>sr_state := BATT_SMART_RECHG_ENABLE\<rparr>)"

definition ssoc_change_state :: "int \<Rightarrow> batt_ssoc_state \<Rightarrow> bool \<Rightarrow> batt_ssoc_state" where
  "ssoc_change_state now s ben =
     (let s1 = (if \<not> ben then s\<lparr>disconnect_time := now\<rparr>
                else if disconnect_time s \<noteq> 0
                then let elap = now - disconnect_time s;
                         reset = bd_trickle_reset_sec s
                     in s\<lparr>bd_trickle_cnt := (if reset \<noteq> 0 \<and> elap > uint reset then 0 else bd_trickle_cnt s),
                          disconnect_time := 0\<rparr>
                else s)
      in s1\<lparr>buck_enabled := of_bool ben\<rparr>)"

section \<open>Configuration\<close>

text \<open>The first of the two reads of a table; a successful read stores as many elements as asked for.\<close>

definition rl_read_table :: "dt_node \<Rightarrow> string \<Rightarrow> int \<Rightarrow> (int + u32 list) option" where
  "rl_read_table node name cnt =
     (case dt_array node name (nat (uwrap 64 cnt)) of
        Inl e \<Rightarrow> Some (Inl e)
      | Inr xs \<Rightarrow> if int (length xs) \<le> RL_DELTA_SOC_MAX then Some (Inr xs) else None)"

definition dt_qnum_or :: "dt_node \<Rightarrow> string \<Rightarrow> int \<Rightarrow> int" where
  "dt_qnum_or node name dflt =
     (case dt_u32 node name of Inr x \<Rightarrow> swrap 32 (qnum_fromint (uint x)) | Inl e \<Rightarrow> dflt)"

text \<open>The last part of \<open>ssoc_rl_read_dt\<close>: the table of limits and rates, which may be absent.\<close>

definition rl_read_limits :: "batt_ssoc_rl_state \<Rightarrow> dt_node \<Rightarrow> (int \<times> batt_ssoc_rl_state) option" where
  "rl_read_limits rls node =
     (let cnt = dt_count node ''google,rl_soc-limits'';
          tmp = (word_of_int (dt_count node ''google,rl_soc-rates'') :: u32);
          r1 = rls\<lparr>rl_delta_soc_cnt := cnt\<rparr>
      in if (word_of_int cnt :: u32) \<noteq> tmp \<or> tmp = 0 then Some (0, rls\<lparr>rl_delta_soc_cnt := 0\<rparr>)
         else if cnt > RL_DELTA_SOC_MAX then Some (- EINVAL, r1)
         else (case rl_read_table node ''google,rl_soc-limits'' cnt of
                 None \<Rightarrow> None
               | Some (Inl e) \<Rightarrow> Some (e, r1)
               | Some (Inr ls) \<Rightarrow>
                   let r2 = r1\<lparr>rl_delta_soc_limit := array_fill (map (\<lambda>x. swrap 32 (qnum_fromint (uint x))) ls)
                                                     (rl_delta_soc_limit r1)\<rparr>
                   in (case rl_read_table node ''google,rl_soc-rates'' cnt of
                         None \<Rightarrow> None
                       | Some (Inl e) \<Rightarrow> Some (e, r2)
                       | Some (Inr rs) \<Rightarrow>
                           Some (0, r2\<lparr>rl_delta_soc_ratio := array_fill (map sint rs) (rl_delta_soc_ratio r2)\<rparr>))))"

definition ssoc_rl_read_dt :: "batt_ssoc_rl_state \<Rightarrow> dt_node \<Rightarrow> (int \<times> batt_ssoc_rl_state) option" where
  "ssoc_rl_read_dt rls node =
     (let r1 = rls\<lparr>rl_delta_max_soc := dt_qnum_or node ''google,rl_delta-max-soc'' (rl_delta_max_soc rls),
                   rl_delta_max_time := (case dt_u32 node ''google,rl_delta-max-time'' of
                                           Inr x \<Rightarrow> sint x | Inl e \<Rightarrow> rl_delta_max_time rls)\<rparr>
      in if rl_delta_max_soc r1 = 0 \<or> rl_delta_max_time r1 = 0 then Some (- EINVAL, r1)
         else rl_read_limits
                (r1\<lparr>rl_no_zero := dt_bool node ''google,rl_no-zero'',
                    rl_track_target := of_bool (dt_bool node ''google,rl_track-target''),
                    rl_ft_low_limit := dt_qnum_or node ''google,rl_ft-low-limit'' (rl_ft_low_limit r1),
                    rl_ft_delta_limit := dt_qnum_or node ''google,rl_ft-delta-limit'' (rl_ft_delta_limit r1)\<rparr>) node)"

section \<open>The battery driver on top\<close>

text \<open>
  The part of \<open>struct batt_drv\<close> that decides the reported state of charge. \<open>bd_tempd\<close> is
  the test \<open>IS_TEMPD_TRIGGERED\<close>, the vote of the temperature defender in the status election.
\<close>

abbreviation (input) LONGLIFE_CHARGE_STOP_LEVEL :: int where "LONGLIFE_CHARGE_STOP_LEVEL \<equiv> 80"
abbreviation (input) LONGLIFE_CHARGE_START_LEVEL :: int where "LONGLIFE_CHARGE_START_LEVEL \<equiv> 77"
abbreviation (input) HEALTH_PAUSE_MIN_SSOC :: int where "HEALTH_PAUSE_MIN_SSOC \<equiv> 77"
abbreviation (input) CHARGING_POLICY_VOTE_LONGLIFE :: int where "CHARGING_POLICY_VOTE_LONGLIFE \<equiv> 4"
abbreviation (input) DISABLE_POINT_FULL_UI_SOC :: int where "DISABLE_POINT_FULL_UI_SOC \<equiv> - 1"
abbreviation (input) EIO :: int where "EIO \<equiv> 5"

record batt_drv =
  bd_ssoc :: batt_ssoc_state
  bd_fake_capacity :: int
  bd_chg_state :: gbms_charger_state
  bd_chg_health :: batt_chg_health
  bd_charging_policy :: int
  bd_tempd :: bool

definition gbatt_get_capacity :: "batt_drv \<Rightarrow> int" where
  "gbatt_get_capacity d =
     (if bd_fake_capacity d \<ge> 0 \<and> bd_fake_capacity d \<le> 100 then bd_fake_capacity d
      else if spoof_triggered (bd_ssoc d) then spoof_start_soc (bd_ssoc d)
      else ssoc_get_capacity (bd_ssoc d))"

definition gbatt_get_capacity_for_charger :: "batt_drv \<Rightarrow> int" where
  "gbatt_get_capacity_for_charger d =
     (if bd_fake_capacity d \<ge> 0 \<and> bd_fake_capacity d \<le> 100 then bd_fake_capacity d
      else ssoc_get_capacity (bd_ssoc d))"

definition ssoc_get_delta :: "batt_drv \<Rightarrow> int" where
  "ssoc_get_delta d = (if bd_tempd d then 0 else swrap 32 (qnum_fromint (ssoc_delta (bd_ssoc d))))"

text \<open>The outcome of the gauge read is ignored.\<close>

definition gbatt_reset_curve :: "int \<Rightarrow> int \<Rightarrow> batt_drv \<Rightarrow> int \<Rightarrow> batt_drv option" where
  "gbatt_reset_curve now soc_q8_8 d ssoc_cap =
     (let s = bd_ssoc d;
          type = (if chg_state_is_disconnected (bd_chg_state d) then SSOC_UIC_TYPE_DSG else SSOC_UIC_TYPE_CHG);
          s1 = ssoc_change_curve_at_gdf s (ssoc_gdf s) (swrap 32 (qnum_fromint ssoc_cap)) type
      in map_option (\<lambda>(ret, s2). d\<lparr>bd_ssoc := s2\<rparr>) (ssoc_work now soc_q8_8 s1))"

definition gbatt_check_spoof_reason :: "batt_drv \<Rightarrow> batt_drv" where
  "gbatt_check_spoof_reason d =
     (let none = (SPOOF_SOC_NONE, 0, 0);
          r1 = (if rest_state (bd_chg_health d) \<in> {CHG_HEALTH_ENABLED, CHG_HEALTH_ACTIVE, CHG_HEALTH_PAUSE}
                then (SPOOF_SOC_ADAPTIVE_CHARGING, CHG_HEALTH_REST_SOC (bd_chg_health d), HEALTH_PAUSE_MIN_SSOC - 1)
                else none);
          r2 = (if bd_charging_policy d = CHARGING_POLICY_VOTE_LONGLIFE
                then (SPOOF_SOC_CHARGING_POLICY, LONGLIFE_CHARGE_STOP_LEVEL, LONGLIFE_CHARGE_START_LEVEL - 1) else r1);
          (reason, start, stop) = (if bd_tempd d
                then (SPOOF_SOC_TEMP_DEFEND, LONGLIFE_CHARGE_STOP_LEVEL, LONGLIFE_CHARGE_START_LEVEL - 1) else r2);
          s = bd_ssoc d
      in if spoof_start_soc s \<noteq> start \<or> spoof_end_soc s \<noteq> stop
         then d\<lparr>bd_ssoc := s\<lparr>spoof_reason := reason, spoof_start_soc := start, spoof_end_soc := stop\<rparr>\<rparr>
         else d)"

definition gbatt_clear_spoof_data :: "batt_ssoc_state \<Rightarrow> batt_ssoc_state" where
  "gbatt_clear_spoof_data s =
     s\<lparr>spoof_triggered := False, spoof_reason := SPOOF_SOC_NONE, spoof_start_soc := 0, spoof_end_soc := 0\<rparr>"

text \<open>The first part of \<open>gbatt_check_spoof_soc\<close>: why to spoof, and whether spoofing starts now.\<close>

definition spoof_start :: "batt_drv \<Rightarrow> bool \<times> batt_drv" where
  "spoof_start d =
     (let is_connect = (\<not> chg_state_is_disconnected (bd_chg_state d));
          d1 = (if is_connect then gbatt_check_spoof_reason d
                else d\<lparr>bd_ssoc := gbatt_clear_spoof_data (bd_ssoc d)\<rparr>);
          s1 = bd_ssoc d1;
          trigger = (\<not> spoof_triggered s1 \<and> is_connect \<and> spoof_reason s1 \<noteq> SPOOF_SOC_NONE
                     \<and> ssoc_get_capacity (bd_ssoc d) = spoof_start_soc s1)
      in (trigger, if trigger then d1\<lparr>bd_ssoc := s1\<lparr>spoof_triggered := True\<rparr>\<rparr> else d1))"

text \<open>\<open>read1\<close> and \<open>read2\<close> are time and gauge value at the two places that may read them.\<close>

definition gbatt_check_spoof_soc :: "(int \<times> int) \<Rightarrow> (int \<times> int) \<Rightarrow> batt_drv \<Rightarrow> batt_drv option" where
  "gbatt_check_spoof_soc read1 read2 d =
     (let capacity = ssoc_get_capacity (bd_ssoc d);
          gdf = qnum_toint (ssoc_gdf (bd_ssoc d));
          ui_soc = gbatt_get_capacity d;
          update0 = (chg_state_is_disconnected (bd_chg_state d) \<and> spoof_triggered (bd_ssoc d)
                     \<and> capacity \<noteq> spoof_start_soc (bd_ssoc d));
          (trigger, d2) = spoof_start d
      in do {
        d3 \<leftarrow> (if trigger \<and> gdf \<le> spoof_end_soc (bd_ssoc d2)
              then gbatt_reset_curve (fst read1) (snd read1) d2 gdf else Some d2);
        let s3 = bd_ssoc d3;
        let update = (update0 \<or> spoof_triggered s3 \<and> (capacity < spoof_end_soc s3 \<or> capacity > spoof_start_soc s3));
        let ui = (if capacity > spoof_start_soc s3 \<and> ui_soc = spoof_start_soc s3 then ui_soc + 1 else ui_soc);
        if update
        then map_option (\<lambda>d4. d4\<lparr>bd_ssoc := (bd_ssoc d4)\<lparr>spoof_triggered := False\<rparr>\<rparr>)
               (gbatt_reset_curve (fst read2) (snd read2) d3 ui)
        else Some d3
      })"

definition gbatt_set_capacity :: "int \<Rightarrow> int \<Rightarrow> batt_drv \<Rightarrow> int \<Rightarrow> batt_drv option" where
  "gbatt_set_capacity now soc_q8_8 d capacity =
     (let c = (if capacity < 0 then - EINVAL else capacity)
      in map_option (\<lambda>d1. d1\<lparr>bd_fake_capacity := c\<rparr>)
           (if bd_tempd d \<and> c < 0 \<and> bd_fake_capacity d \<ge> 0
            then gbatt_reset_curve now soc_q8_8 d (bd_fake_capacity d) else Some d))"

text \<open>
  \<open>gbms_storage_read\<close> of the saved capacity: an error code, or the number it returns with the value
  it stored.
\<close>

definition gbatt_restore_capacity :: "int \<Rightarrow> int \<Rightarrow> int + int \<times> u16 \<Rightarrow> batt_drv \<Rightarrow> (int \<times> batt_drv) option" where
  "gbatt_restore_capacity now soc_q8_8 rsoc d =
     (case rsoc of
        Inl e \<Rightarrow> Some (e, d)
      | Inr (ret, v) \<Rightarrow>
          (let d1 = d\<lparr>bd_ssoc := (bd_ssoc d)\<lparr>save_soc := v\<rparr>\<rparr>;
               delta = uint v - qnum_toint (ssoc_gdf (bd_ssoc d))
           in map_option (\<lambda>d2. (ret, d2))
                (if delta \<ge> 2 \<and> delta \<le> 5 then gbatt_reset_curve now soc_q8_8 d1 (uint v) else Some d1)))"

text \<open>
  The write back of the capacity: the state, what is handed to the storage, and the result, which is
  that of the storage.
\<close>

definition gbatt_save_capacity :: "(u16 \<Rightarrow> int) \<Rightarrow> batt_ssoc_state \<Rightarrow> int \<times> batt_ssoc_state" where
  "gbatt_save_capacity write s =
     (let ui_soc = (word_of_int (ssoc_get_capacity s) :: u16)
      in if \<not> save_soc_available s then (0, s)
         else if save_soc s \<noteq> ui_soc then (write ui_soc, s\<lparr>save_soc := ui_soc\<rparr>)
         else (0, s))"

definition ssoc_init :: "dt_node \<Rightarrow> (int \<times> int) \<Rightarrow> (int \<times> int) \<Rightarrow> int + int \<times> u16 \<Rightarrow> batt_drv \<Rightarrow> (int \<times> batt_drv) option" where
  "ssoc_init node read1 read2 rsoc d =
     do {
       (ret, r0) \<leftarrow> ssoc_rl_read_dt (ssoc_rl_state (bd_ssoc d)) node;
       let r1 = (if ret < 0 then r0\<lparr>rl_track_target := 1\<rparr> else r0);
       let s1 = (bd_ssoc d)\<lparr>ssoc_rl_state := r1\<lparr>rl_ssoc_target := - 1\<rparr>, ssoc_curve := chg_curve,
                            ssoc_curve_type := SSOC_UIC_TYPE_NONE\<rparr>;
       (ret2, s2) \<leftarrow> ssoc_work (fst read1) (snd read1) s1;
       if ret2 < 0 then Some (- EIO, d\<lparr>bd_ssoc := s2\<rparr>)
       else let capacity = ssoc_get_capacity s2;
                s3 = (if capacity \<ge> SSOC_FULL then s2\<lparr>ssoc_curve := dsg_curve\<rparr>
                      else if capacity < SSOC_TRUE then s2
                      else if capacity < SSOC_SPOOF
                      then s2\<lparr>ssoc_curve := ssoc_uicurve_splice (ssoc_curve s2) (ssoc_gdf s2) (ssoc_rl s2)\<rparr>
                      else s2)
            in do {
              (ret3, d4) \<leftarrow> gbatt_restore_capacity (fst read2) (snd read2) rsoc (d\<lparr>bd_ssoc := s3\<rparr>);
              let s4 = (bd_ssoc d4)\<lparr>save_soc_available := (if ret3 < 0 then save_soc_available (bd_ssoc d4) else True),
                                    sr_state := BATT_SMART_RECHG_ENABLE\<rparr>;
              Some (0, d4\<lparr>bd_ssoc := s4\<rparr>)
            }
     }"

text \<open>The vote that makes the display reach 100 percent earlier than the gauge.\<close>

definition point_full_ui_soc_cb :: "batt_ssoc_state \<Rightarrow> int \<Rightarrow> batt_ssoc_state" where
  "point_full_ui_soc_cb s soc =
     (if point_full_ui_soc s = soc then s
      else let s1 = s\<lparr>point_full_ui_soc := soc\<rparr>
           in if soc \<noteq> DISABLE_POINT_FULL_UI_SOC \<and> ssoc_get_capacity s < SSOC_FULL \<and> buck_enabled s = 1
              then s1\<lparr>ssoc_curve := ssoc_uicurve_splice_full (ssoc_curve s) (swrap 32 (qnum_fromint soc)) ssoc_point_full,
                      point_full_ui_soc := DISABLE_POINT_FULL_UI_SOC\<rparr>
              else s1)"

end
