(* ===== verification/Ssoc_Props.thy ===== *)
theory Ssoc_Props
  imports Ssoc
begin

text \<open>
  The reported state of charge: the display curve is monotone, the rate limiter keeps its bounds,
  the capacity shown never rises without a charger, and every state the driver can reach
  is one in which the next sample is processed without a fault; with the one operation that leaves
  a curve for which this fails.
\<close>

lemma swrap_32 [simp]: "- 2147483648 \<le> x \<Longrightarrow> x < 2147483648 \<Longrightarrow> swrap 32 x = x"
  by (simp add: swrap_def)

section \<open>The display curve\<close>

lemma uicurve_find_3:
  "ssoc_uicurve_find x [a, b, c] =
     Some (if x = uc_real b then 1 else if x > uc_real b then (if x < uc_real c then 1 else 2) else 0)"
  by (simp add: ssoc_uicurve_find_def uicurve_find_from.simps [of x _ 1] uicurve_find_from.simps [of x _ 2]
      uicurve_find_from.simps [of x _ 3] arr_get_def)

definition curve_safe :: "ssoc_uicurve list \<Rightarrow> bool" where
  "curve_safe cs \<longleftrightarrow> (case cs of [a, b, c] \<Rightarrow> uc_ui c \<le> uc_real c | _ \<Rightarrow> False)"

lemma curve_safe_split:
  assumes "curve_safe cs"
  obtains a b c where "cs = [a, b, c]" "uc_ui c \<le> uc_real c"
  using assms by (auto simp: curve_safe_def split: list.splits)

lemma map_never_faults: "curve_safe cs \<Longrightarrow> \<exists>u. ssoc_uicurve_map x cs = Some u"
  by (elim curve_safe_split) (simp add: ssoc_uicurve_map_def uicurve_find_3 arr_get_def Let_def)

text \<open>One piece of the curve: the slope is rounded down, so the line stays below its end point.\<close>

definition piece :: "ssoc_uicurve \<Rightarrow> ssoc_uicurve \<Rightarrow> int \<Rightarrow> int" where
  "piece p q x = uc_ui p + (((uc_ui q - uc_ui p) * 2 ^ 24) div (uc_real q - uc_real p)) * (x - uc_real p) div 2 ^ 24"

definition piece_ok :: "ssoc_uicurve \<Rightarrow> ssoc_uicurve \<Rightarrow> bool" where
  "piece_ok p q \<longleftrightarrow> 0 \<le> uc_ui p \<and> uc_ui p \<le> uc_ui q \<and> uc_ui q < 2147483648 \<and>
     0 \<le> uc_real p \<and> uc_real p \<le> uc_real q \<and> uc_real q < 2147483648 \<and>
     (uc_real p = uc_real q \<or> uc_ui q - uc_ui p < 128 * (uc_real q - uc_real p))"

lemma piece_mono:
  assumes "piece_ok p q" "uc_real p < uc_real q" "x \<le> y"
  shows "piece p q x \<le> piece p q y"
  using assms by (auto simp: piece_def piece_ok_def intro!: zdiv_mono1 mult_left_mono pos_imp_zdiv_nonneg_iff [THEN iffD2])

lemma piece_start: "piece p q (uc_real p) = uc_ui p"
  by (simp add: piece_def)

lemma piece_end:
  assumes "piece_ok p q" "uc_real p < uc_real q"
  shows "piece p q (uc_real q) \<le> uc_ui q"
proof -
  let ?dr = "uc_real q - uc_real p" and ?du = "uc_ui q - uc_ui p"
  have "?du * 2 ^ 24 div ?dr * ?dr \<le> ?du * 2 ^ 24"
    using assms(2) by (simp add: mult.commute [of _ ?dr] minus_mod_eq_mult_div [symmetric])
  then have "?du * 2 ^ 24 div ?dr * ?dr div 2 ^ 24 \<le> ?du * 2 ^ 24 div 2 ^ 24" by (rule zdiv_mono1) simp
  then show ?thesis by (simp add: piece_def)
qed

lemma piece_bounds:
  assumes "piece_ok p q" "uc_real p < uc_real q" "uc_real p \<le> x" "x \<le> uc_real q"
  shows "uc_ui p \<le> piece p q x \<and> piece p q x \<le> uc_ui q"
  using piece_mono [OF assms(1,2,3)] piece_mono [OF assms(1,2,4)] piece_end [OF assms(1,2)] piece_start [of p q]
  by simp

lemma piece_arith:
  assumes "piece_ok p q" "uc_real p < x" "x < uc_real q"
  shows "swrap 32 (uc_ui p + qnum_mul (qnum_div (swrap 32 (uc_ui q - uc_ui p)) (swrap 32 (uc_real q - uc_real p)))
           (swrap 32 (x - uc_real p))) = piece p q x"
proof -
  let ?dr = "uc_real q - uc_real p" and ?du = "uc_ui q - uc_ui p"
  have r: "swrap 32 ?du = ?du" "swrap 32 ?dr = ?dr" "swrap 32 (x - uc_real p) = x - uc_real p"
    using assms by (auto simp: piece_ok_def)
  have "0 < ?dr" "0 \<le> ?du" "?du < 128 * ?dr" using assms by (auto simp: piece_ok_def)
  then have "0 \<le> ?du * 2 ^ 24 div ?dr" "?du * 2 ^ 24 div ?dr < 2147483648"
    using int_div_less [of ?dr "?du * 2 ^ 24" 2147483648] by (auto simp: pos_imp_zdiv_nonneg_iff)
  then have d: "qnum_div ?du ?dr = ?du * 2 ^ 24 div ?dr"
    using \<open>0 < ?dr\<close> \<open>0 \<le> ?du\<close> by (simp add: qnum_div_def cdiv_nonneg)
  have b: "uc_ui p \<le> piece p q x" "piece p q x \<le> uc_ui q" using piece_bounds [of p q x] assms by auto
  then have "qnum_mul (?du * 2 ^ 24 div ?dr) (x - uc_real p) = piece p q x - uc_ui p"
    using assms(1) by (simp add: qnum_mul_def piece_def piece_ok_def)
  then show ?thesis using b assms(1) unfolding r d by (simp add: piece_ok_def)
qed

text \<open>A curve that rises from its first point to its last, with every slope below 128.\<close>

definition curve_rises :: "ssoc_uicurve list \<Rightarrow> bool" where
  "curve_rises cs \<longleftrightarrow> (case cs of [a, b, c] \<Rightarrow>
     uc_real a \<le> uc_ui a \<and> piece_ok a b \<and> piece_ok b c \<and> uc_ui c \<le> uc_real c | _ \<Rightarrow> False)"

lemma curve_rises_safe: "curve_rises cs \<Longrightarrow> curve_safe cs"
  by (auto simp: curve_rises_def curve_safe_def split: list.splits)

lemma map_pieces:
  assumes "curve_rises [a, b, c]"
  shows "ssoc_uicurve_map x [a, b, c] =
    Some (if x < uc_real a then x else if x \<ge> uc_ui c then uc_ui c
          else if x < uc_real b then piece a b x else piece b c x)"
proof -
  have ok: "piece_ok a b" "piece_ok b c" "uc_ui c \<le> uc_real c" using assms by (auto simp: curve_rises_def)
  consider "x < uc_real a \<or> x \<ge> uc_ui c" | "uc_real a \<le> x" "x < uc_real b" "x < uc_ui c"
    | "uc_real a \<le> x" "uc_real b \<le> x" "x < uc_ui c" by linarith
  then show ?thesis
  proof cases
    case 1
    then show ?thesis by (auto simp: ssoc_uicurve_map_def arr_get_def)
  next
    case 2
    have "swrap 32 (uc_real b - uc_real a) \<noteq> 0" using ok 2 by (simp add: piece_ok_def)
    then show ?thesis using 2 ok piece_arith [of a b x] piece_start [of a b]
      by (auto simp: ssoc_uicurve_map_def uicurve_find_3 arr_get_def Let_def)
  next
    case 3
    have "uc_real b < x \<Longrightarrow> swrap 32 (uc_real c - uc_real b) \<noteq> 0" using ok 3 by (simp add: piece_ok_def)
    then show ?thesis using 3 ok piece_arith [of b c x] piece_start [of b c]
      by (auto simp: ssoc_uicurve_map_def uicurve_find_3 arr_get_def Let_def)
  qed
qed

lemma pieces_meet:
  assumes "curve_rises [a, b, c]" "uc_real a \<le> x" "x < uc_real b" "uc_real b \<le> y" "y < uc_ui c"
  shows "piece a b x \<le> piece b c y" "piece b c y \<le> uc_ui c"
proof -
  have ok: "piece_ok a b" "piece_ok b c" "uc_ui c \<le> uc_real c" using assms by (auto simp: curve_rises_def)
  show "piece b c y \<le> uc_ui c" using piece_bounds [OF ok(2), of y] ok assms by simp
  have "piece a b x \<le> uc_ui b" using piece_bounds [OF ok(1), of x] assms by simp
  also have "uc_ui b \<le> piece b c y" using piece_bounds [OF ok(2), of y] ok assms by simp
  finally show "piece a b x \<le> piece b c y" .
qed


lemma standard_curves_rise: "curve_rises chg_curve" "curve_rises dsg_curve"
  by (auto simp: curve_rises_def piece_ok_def chg_curve_def dsg_curve_def ssoc_point_true_def ssoc_point_spoof_def
      ssoc_point_full_def)


section \<open>The rate limiter\<close>

definition rl_table_ok :: "batt_ssoc_rl_state \<Rightarrow> bool" where
  "rl_table_ok rls \<longleftrightarrow> rl_delta_soc_cnt rls \<le> int (length (rl_delta_soc_limit rls))
     \<and> rl_delta_soc_cnt rls \<le> int (length (rl_delta_soc_ratio rls))
     \<and> (\<forall>i \<in> set [0..rl_delta_soc_cnt rls - 1]. rl_delta_soc_limit rls ! nat i = 0 \<or> 10 \<le> rl_delta_soc_ratio rls ! nat i)"

text \<open>
  A usable configuration: either the limiter is off (it tracks the target), or it allows a whole
  number of percents per a positive time, and the table only slows it down (a rate of 10 is the
  nominal one).
\<close>

definition rl_config_ok :: "batt_ssoc_rl_state \<Rightarrow> bool" where
  "rl_config_ok rls \<longleftrightarrow> rl_track_target rls \<noteq> 0
     \<or> (0 < rl_delta_max_time rls \<and> rl_delta_max_time rls < 2147483648
        \<and> 0 < rl_delta_max_soc rls \<and> rl_delta_max_soc rls < 2147483648
        \<and> rl_delta_max_soc rls mod 2 ^ 24 = 0 \<and> rl_table_ok rls)"

lemma rl_limit_loop_slows:
  assumes "0 \<le> md" "md < 2147483648"
    "\<forall>i \<in> set is. 0 \<le> i \<and> i < int (length (rl_delta_soc_limit rls)) \<and> i < int (length (rl_delta_soc_ratio rls))
       \<and> (rl_delta_soc_limit rls ! nat i = 0 \<or> 10 \<le> rl_delta_soc_ratio rls ! nat i)"
  shows "\<exists>m. rl_limit_loop rls md is = Some m \<and> 0 \<le> m \<and> m \<le> md"
  using assms
proof (induction "is")
  case (Cons i "is")
  let ?l = "rl_delta_soc_limit rls ! nat i" and ?r = "rl_delta_soc_ratio rls ! nat i"
  have i: "arr_get (rl_delta_soc_limit rls) i = Some ?l" "arr_get (rl_delta_soc_ratio rls) i = Some ?r"
    using Cons.prems by (auto simp: array_simps)
  show ?case
  proof (cases "?l \<noteq> 0 \<and> rl_ssoc_target rls < ?l")
    case True
    then have r: "10 \<le> ?r" using Cons.prems by simp
    then have "md * 10 div ?r \<le> md * 10 div 10" using Cons.prems by (intro zdiv_mono2) auto
    then have "0 \<le> cdiv (md * 10) ?r" "cdiv (md * 10) ?r \<le> md"
      using Cons.prems r by (auto simp: cdiv_nonneg pos_imp_zdiv_nonneg_iff)
    then show ?thesis using True i r Cons.prems by simp
  next
    case False
    then show ?thesis using Cons i by auto
  qed
qed simp

lemma max_delta_bound:
  assumes "rl_config_ok rls" "rl_track_target rls = 0" "0 \<le> dt"
  shows "\<exists>m. ssoc_rl_max_delta rls dt = Some m \<and> 0 \<le> m \<and> m < 2147483648
     \<and> m * rl_delta_max_time rls \<le> rl_delta_max_soc rls * dt"
proof -
  let ?t = "rl_delta_max_time rls" and ?s = "rl_delta_max_soc rls"
  let ?k = "?s div 16777216"
  have c: "0 < ?t" "?t < 2147483648" "0 < ?s" "?s < 2147483648" "rl_table_ok rls" and "?s mod 16777216 = 0"
    using assms by (auto simp: rl_config_ok_def)
  then have s: "?s = ?k * 16777216" and k: "0 < ?k" by (auto simp: mod_eq_0_iff_dvd pos_imp_zdiv_pos_iff dvd_imp_le)
  have sd: "?s * dt = 16777216 * (?k * dt)" by (subst s) simp
  show ?thesis
  proof (cases "dt > ?t \<and> cdiv (?k * dt) ?t > 100")
    case True
    then have "101 \<le> ?k * dt div ?t" using k c cdiv_nonneg [of "?k * dt" ?t] assms(3) by simp
    then have "101 * ?t \<le> ?k * dt div ?t * ?t" using c by (intro mult_right_mono) auto
    also have "\<dots> \<le> ?k * dt" using c by (simp add: int_div_le_mult)
    finally have "1677721600 * ?t \<le> ?s * dt" unfolding sd using c by linarith
    then show ?thesis using True c by (simp add: ssoc_rl_max_delta_def qnum_toint_def qnum_fromint_def)
  next
    case False
    let ?m = "?s * dt div ?t"
    have m0: "0 \<le> ?m" using c assms(3) by (simp add: pos_imp_zdiv_nonneg_iff)
    have mt: "?m * ?t \<le> ?s * dt" using c by (simp add: int_div_le_mult)
    have m: "?m < 2147483648"
    proof (cases "dt \<le> ?t")
      case True
      then have "?s * dt \<le> ?s * ?t" using c by simp
      then show ?thesis using c zdiv_mono1 [of "?s * dt" "?s * ?t" ?t] by simp
    next
      case big: False
      then have "?k * dt div ?t < 101" using False k c assms(3) by (simp add: cdiv_nonneg)
      then have "?k * dt < 101 * ?t" using c by (meson int_div_less_iff)
      then have "?s * dt < 2147483648 * ?t" unfolding sd using c by linarith
      then show ?thesis using c by (intro int_div_less)
    qed
    have "\<exists>m'. rl_limit_loop rls ?m [0..rl_delta_soc_cnt rls - 1] = Some m' \<and> 0 \<le> m' \<and> m' \<le> ?m"
      using rl_limit_loop_slows [OF m0 m, of "[0..rl_delta_soc_cnt rls - 1]" rls] c(5) by (auto simp: rl_table_ok_def)
    then obtain m' where m': "(if rl_fast_track rls \<noteq> 0 then Some ?m
        else rl_limit_loop rls ?m [0..rl_delta_soc_cnt rls - 1]) = Some m'" "0 \<le> m'" "m' \<le> ?m"
      using m0 by (cases "rl_fast_track rls = 0") auto
    have "m' * ?t \<le> ?s * dt" using m' c mt by (meson mult_right_mono order.trans less_imp_le)
    then show ?thesis using False m' m m0 c assms(3)
      by (auto simp: ssoc_rl_max_delta_def qnum_toint_def cdiv_nonneg Let_def)
  qed
qed

lemma rl_config_ok_update [simp]:
  "rl_config_ok (rls\<lparr>rl_ssoc_target := t\<rparr>) = rl_config_ok rls"
  "rl_config_ok (rls\<lparr>rl_ssoc_last_update := n\<rparr>) = rl_config_ok rls"
  by (simp_all add: rl_config_ok_def rl_table_ok_def)

text \<open>What one sample may do to the output of the limiter: the bound on its change, and the bounds of the output.\<close>

definition rl_moves :: "batt_ssoc_state \<Rightarrow> int \<Rightarrow> int \<Rightarrow> bool" where
  "rl_moves s now v \<longleftrightarrow>
     (let rls = ssoc_rl_state s in
      0 \<le> v \<and> v \<le> ssoc_point_full
      \<and> (buck_enabled s = 0 \<longrightarrow> v \<le> ssoc_rl s)
      \<and> (rl_track_target rls = 0 \<longrightarrow>
           \<bar>v - ssoc_rl s\<bar> * rl_delta_max_time rls \<le> rl_delta_max_soc rls * (now - rl_ssoc_last_update rls)))"

lemma clamp_step:
  fixes m :: int
  assumes "0 \<le> m" "0 \<le> t" "0 \<le> r"
    and "st = (if t - r < - m then - m else if t - r > m then m else t - r)"
  shows "\<bar>st\<bar> \<le> m" "0 \<le> r + st" "r + st \<le> max r t"
  using assms by (auto split: if_splits)

lemma rl_next_target_range: "0 \<le> rl_next_target s" "rl_next_target s \<le> 1677721600"
  by (auto simp: rl_next_target_def qnum_fromint_def Let_def)

text \<open>The limited value lies between the old one and the target, and within the allowed distance.\<close>

lemma rl_limited_bound:
  assumes "rl_config_ok rls" "0 \<le> r" "r \<le> ssoc_point_full" "rl_ssoc_last_update rls \<le> now"
    "0 \<le> rl_ssoc_target rls" "rl_ssoc_target rls \<le> ssoc_point_full"
  shows "\<exists>v. rl_limited now rls r = Some v \<and> 0 \<le> v \<and> v \<le> ssoc_point_full
     \<and> (rl_track_target rls = 0 \<longrightarrow>
          \<bar>v - r\<bar> * rl_delta_max_time rls \<le> rl_delta_max_soc rls * (now - rl_ssoc_last_update rls))"
proof (cases "rl_track_target rls = 0")
  case False
  then show ?thesis using assms by (simp add: rl_limited_def)
next
  case True
  let ?t = "rl_ssoc_target rls"
  obtain m where m: "ssoc_rl_max_delta rls (now - rl_ssoc_last_update rls) = Some m" "0 \<le> m"
    "m * rl_delta_max_time rls \<le> rl_delta_max_soc rls * (now - rl_ssoc_last_update rls)"
    using max_delta_bound [OF assms(1) True, of "now - rl_ssoc_last_update rls"] assms(4) by auto
  define st where "st = (if ?t - r < - m then - m else if ?t - r > m then m else ?t - r)"
  note step = clamp_step [OF m(2) assms(5,2) st_def]
  have w: "swrap 32 (?t - r) = ?t - r" "swrap 32 (r + st) = r + st"
    using assms step by (auto simp: ssoc_point_full_def)
  have "\<bar>st\<bar> * rl_delta_max_time rls \<le> m * rl_delta_max_time rls"
    using step(1) assms(1) True by (intro mult_right_mono) (auto simp: rl_config_ok_def)
  moreover have "rl_limited now rls r = Some (r + st)"
    using True m(1) by (simp add: rl_limited_def w st_def [symmetric])
  ultimately show ?thesis using step m(3) assms(3,6) by auto
qed

lemma rl_shown_range:
  assumes "0 \<le> v" "v \<le> ssoc_point_full" "0 \<le> ssoc_rl s"
  shows "0 \<le> rl_shown s v" "rl_shown s v \<le> ssoc_point_full" "rl_no_zero (ssoc_rl_state s) \<Longrightarrow> 16777216 \<le> rl_shown s v"
  using assms by (auto simp: rl_shown_def qnum_fromint_def ssoc_point_full_def Let_def)

text \<open>With the floor of one percent already met, showing a value moves it towards the one shown before.\<close>

lemma rl_shown_closer:
  assumes "rl_no_zero (ssoc_rl_state s) \<longrightarrow> 16777216 \<le> ssoc_rl s"
  shows "buck_enabled s = 0 \<Longrightarrow> rl_shown s v \<le> ssoc_rl s" "\<bar>rl_shown s v - ssoc_rl s\<bar> \<le> \<bar>v - ssoc_rl s\<bar>"
  using assms by (auto simp: rl_shown_def qnum_fromint_def Let_def)

lemma apply_rl_shows:
  assumes "rl_config_ok (ssoc_rl_state s)" "0 \<le> ssoc_rl s" "ssoc_rl s \<le> ssoc_point_full"
    and now: "rl_ssoc_last_update (ssoc_rl_state s) \<le> now"
  shows "\<exists>v. ssoc_apply_rl now s = Some (rl_shown s v,
        s\<lparr>ssoc_rl_state := (ssoc_rl_state s)\<lparr>rl_ssoc_target := rl_next_target s, rl_ssoc_last_update := now\<rparr>\<rparr>)
    \<and> 0 \<le> v \<and> v \<le> ssoc_point_full
    \<and> (rl_track_target (ssoc_rl_state s) = 0 \<longrightarrow>
        \<bar>v - ssoc_rl s\<bar> * rl_delta_max_time (ssoc_rl_state s)
        \<le> rl_delta_max_soc (ssoc_rl_state s) * (now - rl_ssoc_last_update (ssoc_rl_state s)))"
  using rl_limited_bound [of "(ssoc_rl_state s)\<lparr>rl_ssoc_target := rl_next_target s\<rparr>" "ssoc_rl s" now] assms
    rl_next_target_range [of s]
  by (auto simp: ssoc_apply_rl_def Let_def ssoc_point_full_def)

lemma apply_rl_moves:
  assumes "rl_config_ok (ssoc_rl_state s)" "0 \<le> ssoc_rl s" "ssoc_rl s \<le> ssoc_point_full"
    and nz: "rl_no_zero (ssoc_rl_state s) \<longrightarrow> 16777216 \<le> ssoc_rl s"
    and now: "rl_ssoc_last_update (ssoc_rl_state s) \<le> now"
  shows "\<exists>v. ssoc_apply_rl now s =
      Some (v, s\<lparr>ssoc_rl_state := (ssoc_rl_state s)\<lparr>rl_ssoc_target := rl_next_target s, rl_ssoc_last_update := now\<rparr>\<rparr>)
    \<and> rl_moves s now v \<and> (rl_no_zero (ssoc_rl_state s) \<longrightarrow> 16777216 \<le> v)"
proof -
  let ?rls = "ssoc_rl_state s"
  obtain v where v: "ssoc_apply_rl now s = Some (rl_shown s v,
        s\<lparr>ssoc_rl_state := ?rls\<lparr>rl_ssoc_target := rl_next_target s, rl_ssoc_last_update := now\<rparr>\<rparr>)"
    "0 \<le> v" "v \<le> ssoc_point_full"
    "rl_track_target ?rls = 0 \<longrightarrow>
       \<bar>v - ssoc_rl s\<bar> * rl_delta_max_time ?rls \<le> rl_delta_max_soc ?rls * (now - rl_ssoc_last_update ?rls)"
    using apply_rl_shows [OF assms(1-3) now] by auto
  note shown = rl_shown_range [OF v(2,3) assms(2)] rl_shown_closer [OF nz]
  have "\<bar>rl_shown s v - ssoc_rl s\<bar> * rl_delta_max_time ?rls \<le> \<bar>v - ssoc_rl s\<bar> * rl_delta_max_time ?rls"
    if "rl_track_target ?rls = 0"
    using that assms(1) shown(5) by (intro mult_right_mono) (auto simp: rl_config_ok_def)
  then have "rl_moves s now (rl_shown s v)" using shown v(4) by (fastforce simp: rl_moves_def Let_def)
  then show ?thesis using v(1) shown(3) by auto
qed

section \<open>Samples\<close>

text \<open>The state between samples, once the first one has set the target.\<close>

definition ssoc_ok :: "batt_ssoc_state \<Rightarrow> bool" where
  "ssoc_ok s \<longleftrightarrow> curve_safe (ssoc_curve s) \<and> rl_config_ok (ssoc_rl_state s)
     \<and> 0 \<le> ssoc_rl s \<and> ssoc_rl s \<le> ssoc_point_full
     \<and> 0 \<le> rl_ssoc_target (ssoc_rl_state s) \<and> rl_ssoc_target (ssoc_rl_state s) \<le> ssoc_point_full
     \<and> (rl_no_zero (ssoc_rl_state s) \<longrightarrow> 16777216 \<le> ssoc_rl s)"

text \<open>What a sample leaves alone.\<close>

definition same_setup :: "batt_ssoc_state \<Rightarrow> batt_ssoc_state \<Rightarrow> bool" where
  "same_setup s s' \<longleftrightarrow> ssoc_curve s' = ssoc_curve s \<and> buck_enabled s' = buck_enabled s
     \<and> rl_track_target (ssoc_rl_state s') = rl_track_target (ssoc_rl_state s)
     \<and> rl_delta_max_time (ssoc_rl_state s') = rl_delta_max_time (ssoc_rl_state s)
     \<and> rl_delta_max_soc (ssoc_rl_state s') = rl_delta_max_soc (ssoc_rl_state s)"

lemma flags_frame:
  "rl_update_flags b r rls = rls\<lparr>rl_fast_track := rl_fast_track (rl_update_flags b r rls),
     rl_no_zero := rl_no_zero (rl_update_flags b r rls)\<rparr>"
  "rl_no_zero (rl_update_flags b r rls) \<Longrightarrow> rl_no_zero rls"
  by (simp_all add: rl_update_flags_def Let_def split: if_splits)

lemma flags_simps [simp]:
  "rl_ssoc_last_update (rl_update_flags b r rls) = rl_ssoc_last_update rls"
  "rl_track_target (rl_update_flags b r rls) = rl_track_target rls"
  "rl_delta_max_time (rl_update_flags b r rls) = rl_delta_max_time rls"
  "rl_delta_max_soc (rl_update_flags b r rls) = rl_delta_max_soc rls"
  "rl_config_ok (rl_update_flags b r rls) = rl_config_ok rls"
  by (subst flags_frame, simp add: rl_config_ok_def rl_table_ok_def)+

lemma ssoc_update_step:
  assumes "ssoc_ok s" "rl_ssoc_last_update (ssoc_rl_state s) \<le> now"
  shows "\<exists>s'. ssoc_update now s soc = Some s' \<and> ssoc_ok s' \<and> same_setup s s' \<and> ssoc_gdf s' = soc
     \<and> rl_ssoc_last_update (ssoc_rl_state s') = now \<and> rl_moves s now (ssoc_rl s')"
proof -
  obtain uic where uic: "ssoc_uicurve_map soc (ssoc_curve s) = Some uic"
    using map_never_faults assms(1) by (auto simp: ssoc_ok_def)
  define t where "t = s\<lparr>ssoc_gdf := soc, ssoc_uic := uic,
      ssoc_rl_state := rl_update_flags (buck_enabled s) (ssoc_rl s) (ssoc_rl_state s)\<rparr>"
  have upd: "ssoc_update now s soc = map_option (\<lambda>(v, s'). s'\<lparr>ssoc_rl := v\<rparr>) (ssoc_apply_rl now t)"
    using uic assms(1) by (simp add: ssoc_update_def t_def ssoc_ok_def Let_def map_option_case case_prod_unfold
        split: option.splits)
  obtain v where v: "ssoc_apply_rl now t = Some (v, t\<lparr>ssoc_rl_state := (ssoc_rl_state t)
      \<lparr>rl_ssoc_target := rl_next_target t, rl_ssoc_last_update := now\<rparr>\<rparr>)" "rl_moves t now v"
      "rl_no_zero (ssoc_rl_state t) \<longrightarrow> 16777216 \<le> v"
    using apply_rl_moves [of t now] assms by (auto simp: ssoc_ok_def t_def dest: flags_frame(2))
  have "rl_moves s now v" using v(2) by (simp add: rl_moves_def t_def)
  moreover have "0 \<le> v \<and> v \<le> ssoc_point_full" using v(2) by (simp add: rl_moves_def Let_def)
  ultimately show ?thesis using assms(1) v(1,3) upd rl_next_target_range [of t]
    by (auto simp: t_def ssoc_ok_def same_setup_def ssoc_point_full_def)
qed

lemma capacity_range: "ssoc_ok s \<Longrightarrow> 0 \<le> ssoc_get_capacity s \<and> ssoc_get_capacity s \<le> 100"
  by (auto simp: ssoc_get_capacity_def ssoc_get_capacity_raw_def qnum_roundint_half_def qnum_toint_def ssoc_ok_def
      ssoc_point_full_def)

lemma capacity_mono:
  "ssoc_ok s \<Longrightarrow> ssoc_ok s' \<Longrightarrow> ssoc_rl s' \<le> ssoc_rl s \<Longrightarrow> ssoc_get_capacity s' \<le> ssoc_get_capacity s"
  by (auto simp: ssoc_get_capacity_def ssoc_get_capacity_raw_def qnum_roundint_half_def qnum_toint_def ssoc_ok_def
      ssoc_point_full_def intro: zdiv_mono1)

text \<open>A gauge that fails leaves the state as it is; any other value is processed.\<close>

lemma ssoc_work_step:
  assumes "ssoc_ok s" "rl_ssoc_last_update (ssoc_rl_state s) \<le> now"
  shows "\<exists>ret s'. ssoc_work now q s = Some (ret, s') \<and> ssoc_ok s' \<and> same_setup s s'
     \<and> rl_ssoc_last_update (ssoc_rl_state s') \<le> now
     \<and> (if q < 0 then ret = - EINVAL \<and> s' = s else ret = 0 \<and> rl_moves s now (ssoc_rl s')
          \<and> rl_ssoc_last_update (ssoc_rl_state s') = now)"
proof (cases "q < 0")
  case True
  then show ?thesis using assms by (simp add: ssoc_work_def same_setup_def)
next
  case False
  obtain s' where "ssoc_update now s (swrap 32 (qnum_from_q8_8 q)) = Some s'" "ssoc_ok s'" "same_setup s s'"
    "rl_ssoc_last_update (ssoc_rl_state s') = now" "rl_moves s now (ssoc_rl s')"
    using ssoc_update_step [OF assms] by blast
  then show ?thesis using False by (simp add: ssoc_work_def)
qed

text \<open>A sequence of samples, each a time and an answer of the gauge.\<close>

fun ssoc_samples :: "(int \<times> int) list \<Rightarrow> batt_ssoc_state \<Rightarrow> batt_ssoc_state option" where
  "ssoc_samples [] s = Some s"
| "ssoc_samples ((now, q) # xs) s = Option.bind (ssoc_work now q s) (\<lambda>(ret, s'). ssoc_samples xs s')"

fun times_ascend :: "int \<Rightarrow> (int \<times> int) list \<Rightarrow> bool" where
  "times_ascend t [] = True"
| "times_ascend t ((now, q) # xs) \<longleftrightarrow> t \<le> now \<and> times_ascend now xs"

text \<open>Two states with samples between them: the bounds of the limiter over the whole time.\<close>

definition moved :: "batt_ssoc_state \<Rightarrow> batt_ssoc_state \<Rightarrow> bool" where
  "moved s s' \<longleftrightarrow>
     (let r = ssoc_rl_state s; elapsed = rl_ssoc_last_update (ssoc_rl_state s') - rl_ssoc_last_update r in
      same_setup s s' \<and> 0 \<le> elapsed
      \<and> (buck_enabled s = 0 \<longrightarrow> ssoc_rl s' \<le> ssoc_rl s)
      \<and> (rl_track_target r = 0 \<longrightarrow> \<bar>ssoc_rl s' - ssoc_rl s\<bar> * rl_delta_max_time r \<le> rl_delta_max_soc r * elapsed))"

lemma moved_refl [simp]: "moved s s"
  by (simp add: moved_def same_setup_def Let_def)

lemma moved_trans:
  assumes "moved s s1" "moved s1 s2" "rl_config_ok (ssoc_rl_state s)"
  shows "moved s s2"
proof -
  let ?r = "ssoc_rl_state s" and ?u = "\<lambda>s. rl_ssoc_last_update (ssoc_rl_state s)"
  have "\<bar>ssoc_rl s2 - ssoc_rl s\<bar> * rl_delta_max_time ?r \<le> rl_delta_max_soc ?r * (?u s2 - ?u s)"
    if "rl_track_target ?r = 0"
  proof -
    have "\<bar>ssoc_rl s2 - ssoc_rl s\<bar> * rl_delta_max_time ?r
        \<le> (\<bar>ssoc_rl s2 - ssoc_rl s1\<bar> + \<bar>ssoc_rl s1 - ssoc_rl s\<bar>) * rl_delta_max_time ?r"
      using assms(3) that by (intro mult_right_mono) (auto simp: rl_config_ok_def)
    also have "\<dots> \<le> rl_delta_max_soc ?r * (?u s2 - ?u s1) + rl_delta_max_soc ?r * (?u s1 - ?u s)"
      using assms(1,2) that by (simp add: moved_def same_setup_def Let_def distrib_right)
    finally show ?thesis by (simp add: algebra_simps)
  qed
  then show ?thesis using assms by (auto simp: moved_def same_setup_def Let_def)
qed

lemma ssoc_work_moved:
  assumes "ssoc_ok s" "rl_ssoc_last_update (ssoc_rl_state s) \<le> now"
  shows "\<exists>ret s'. ssoc_work now q s = Some (ret, s') \<and> ssoc_ok s' \<and> moved s s'
     \<and> rl_ssoc_last_update (ssoc_rl_state s') \<le> now"
  using ssoc_work_step [OF assms, of q] assms
  by (fastforce simp: moved_def rl_moves_def Let_def same_setup_def split: if_splits)

lemma samples_moved:
  assumes "ssoc_ok s" "rl_ssoc_last_update (ssoc_rl_state s) \<le> t" "times_ascend t xs"
  shows "\<exists>s'. ssoc_samples xs s = Some s' \<and> ssoc_ok s' \<and> moved s s'"
  using assms
proof (induction xs arbitrary: s t)
  case (Cons x xs)
  obtain now q where x: "x = (now, q)" by (cases x)
  obtain ret s1 where s1: "ssoc_work now q s = Some (ret, s1)" "ssoc_ok s1" "moved s s1"
    "rl_ssoc_last_update (ssoc_rl_state s1) \<le> now"
    using ssoc_work_moved [of s now q] Cons.prems x by auto
  obtain s2 where "ssoc_samples xs s1 = Some s2" "ssoc_ok s2" "moved s1 s2"
    using Cons.IH [OF s1(2,4)] Cons.prems(3) x by auto
  then show ?case using s1 x Cons.prems(1) moved_trans [of s s1 s2] by (auto simp: ssoc_ok_def)
qed simp


section \<open>Every state the driver can reach\<close>

lemma splice_safe: "curve_safe cs \<Longrightarrow> curve_safe (ssoc_uicurve_splice cs r u)"
  by (elim curve_safe_split) (auto simp: ssoc_uicurve_splice_def curve_safe_def numeral_2_eq_2 Let_def)

lemmas standard_curves_safe [simp] = standard_curves_rise [THEN curve_rises_safe]

lemma change_curve_at_ok: "ssoc_ok s \<Longrightarrow> ssoc_ok (ssoc_change_curve_at_gdf s g c ty)"
  by (simp add: ssoc_change_curve_at_gdf_def ssoc_ok_def splice_safe Let_def)

lemma change_curve_ok: "ssoc_ok s \<Longrightarrow> ssoc_ok (ssoc_change_curve s delta ty)"
  by (simp add: ssoc_change_curve_def change_curve_at_ok Let_def)

lemma change_curve_frame [simp]:
  "ssoc_rl_state (ssoc_change_curve_at_gdf s g c ty) = ssoc_rl_state s"
  "ssoc_rl_state (ssoc_change_curve s delta ty) = ssoc_rl_state s"
  by (simp_all add: ssoc_change_curve_at_gdf_def ssoc_change_curve_def Let_def)

lemma rl_enter_ok:
  assumes "ssoc_ok s" "rl_ssoc_last_update (ssoc_rl_state s) \<le> now"
  shows "\<exists>b s'. batt_rl_enter now s st = Some (b, s') \<and> ssoc_ok s' \<and> rl_ssoc_last_update (ssoc_rl_state s') \<le> now"
proof (cases "rl_status s = st \<or> rl_status s = BATT_RL_STATUS_DISCHARGE")
  case True
  then show ?thesis using assms by (auto simp: batt_rl_enter_def)
next
  case False
  define s1 where "s1 = (if st = BATT_RL_STATUS_DISCHARGE
                     then if batt_is_trickle s \<and> bd_trickle_version s = BD_TRICKLE_VER_SOC
                          then ssoc_change_curve s 0 SSOC_UIC_TYPE_DSG
                          else s\<lparr>ssoc_curve := dsg_curve, ssoc_curve_type := SSOC_UIC_TYPE_DSG\<rparr>
                     else s)"
  have "ssoc_ok (s\<lparr>ssoc_curve := dsg_curve, ssoc_curve_type := SSOC_UIC_TYPE_DSG\<rparr>)"
    using assms(1) by (simp add: ssoc_ok_def)
  then have "ssoc_ok s1" "ssoc_rl_state s1 = ssoc_rl_state s"
    using assms(1) change_curve_ok by (auto simp: s1_def)
  then obtain s2 where "ssoc_update now s1 (ssoc_gdf s1) = Some s2" "ssoc_ok s2"
    "rl_ssoc_last_update (ssoc_rl_state s2) = now"
    using ssoc_update_step [of s1 now "ssoc_gdf s1"] assms(2) by auto
  then show ?thesis using False by (auto simp: batt_rl_enter_def s1_def [symmetric] ssoc_ok_def)
qed

lemma status_ops_ok:
  assumes "ssoc_ok s"
  shows "ssoc_ok (batt_rl_update_status s)" "ssoc_ok (batt_rl_reset s)" "ssoc_ok (batt_sr_update_state s)"
    "ssoc_ok (ssoc_change_state now s ben)"
  using assms by (simp_all add: ssoc_ok_def batt_rl_update_status_def batt_rl_reset_def batt_sr_update_state_def
      ssoc_change_state_def Let_def)

lemma reset_curve_ok:
  assumes "ssoc_ok (bd_ssoc d)" "rl_ssoc_last_update (ssoc_rl_state (bd_ssoc d)) \<le> now"
  shows "\<exists>s. gbatt_reset_curve now q d cap = Some (d\<lparr>bd_ssoc := s\<rparr>) \<and> ssoc_ok s
    \<and> rl_ssoc_last_update (ssoc_rl_state s) \<le> now"
proof -
  let ?s = "\<lambda>ty. ssoc_change_curve_at_gdf (bd_ssoc d) (ssoc_gdf (bd_ssoc d)) (swrap 32 (qnum_fromint cap)) ty"
  have "\<exists>ret s. ssoc_work now q (?s ty) = Some (ret, s) \<and> ssoc_ok s \<and> rl_ssoc_last_update (ssoc_rl_state s) \<le> now" for ty
    using ssoc_work_moved [OF change_curve_at_ok [OF assms(1)], of _ _ ty now q] assms(2) by fastforce
  then show ?thesis by (fastforce simp: gbatt_reset_curve_def Let_def)
qed

text \<open>The fields of the recharge and spoofing logic play no role for the limiter.\<close>

lemma ssoc_ok_frame [simp]:
  "ssoc_ok (s\<lparr>spoof_triggered := b\<rparr>) = ssoc_ok s" "ssoc_ok (s\<lparr>spoof_reason := x\<rparr>) = ssoc_ok s"
  "ssoc_ok (s\<lparr>spoof_start_soc := i\<rparr>) = ssoc_ok s" "ssoc_ok (s\<lparr>spoof_end_soc := i\<rparr>) = ssoc_ok s"
  "ssoc_ok (s\<lparr>save_soc := w\<rparr>) = ssoc_ok s" "ssoc_ok (s\<lparr>save_soc_available := b\<rparr>) = ssoc_ok s"
  "ssoc_ok (s\<lparr>sr_state := y\<rparr>) = ssoc_ok s" "ssoc_ok (s\<lparr>bd_trickle_full := b\<rparr>) = ssoc_ok s"
  "ssoc_ok (s\<lparr>bd_trickle_eoc := b\<rparr>) = ssoc_ok s"
  by (simp_all add: ssoc_ok_def)

lemma spoof_reason_frame [simp]:
  "ssoc_ok (bd_ssoc (gbatt_check_spoof_reason d)) = ssoc_ok (bd_ssoc d)"
  "ssoc_rl_state (bd_ssoc (gbatt_check_spoof_reason d)) = ssoc_rl_state (bd_ssoc d)"
  "ssoc_ok (gbatt_clear_spoof_data s) = ssoc_ok s"
  "ssoc_rl_state (gbatt_clear_spoof_data s) = ssoc_rl_state s"
  by (simp_all add: gbatt_check_spoof_reason_def gbatt_clear_spoof_data_def Let_def)

lemma spoof_start_frame:
  "ssoc_ok (bd_ssoc (snd (spoof_start d))) = ssoc_ok (bd_ssoc d)"
  "ssoc_rl_state (bd_ssoc (snd (spoof_start d))) = ssoc_rl_state (bd_ssoc d)"
  by (simp_all add: spoof_start_def Let_def)

lemma check_spoof_ok:
  assumes "ssoc_ok (bd_ssoc d)" "rl_ssoc_last_update (ssoc_rl_state (bd_ssoc d)) \<le> fst r1" "fst r1 \<le> fst r2"
  shows "\<exists>d'. gbatt_check_spoof_soc r1 r2 d = Some d' \<and> ssoc_ok (bd_ssoc d')
    \<and> rl_ssoc_last_update (ssoc_rl_state (bd_ssoc d')) \<le> fst r2"
proof -
  let ?ok = "\<lambda>n d. ssoc_ok (bd_ssoc d) \<and> rl_ssoc_last_update (ssoc_rl_state (bd_ssoc d)) \<le> n"
  obtain trigger d2 where start: "spoof_start d = (trigger, d2)" by (cases "spoof_start d")
  then have d2: "?ok (fst r1) d2" using assms spoof_start_frame [of d] by simp
  let ?gdf = "qnum_toint (ssoc_gdf (bd_ssoc d))"
  obtain d3 where d3: "(if trigger \<and> ?gdf \<le> spoof_end_soc (bd_ssoc d2)
      then gbatt_reset_curve (fst r1) (snd r1) d2 ?gdf else Some d2) = Some d3" "?ok (fst r1) d3"
    using reset_curve_ok [of d2 "fst r1" "snd r1" ?gdf] d2 by (cases "trigger \<and> ?gdf \<le> spoof_end_soc (bd_ssoc d2)") auto
  have d4: "\<exists>d4. gbatt_reset_curve (fst r2) (snd r2) d3 ui = Some d4 \<and> ?ok (fst r2) d4" for ui
    using reset_curve_ok [of d3 "fst r2" "snd r2" ui] d3(2) assms(3) by auto
  have "\<exists>d'. (if update then map_option (\<lambda>d4. d4\<lparr>bd_ssoc := (bd_ssoc d4)\<lparr>spoof_triggered := False\<rparr>\<rparr>)
      (gbatt_reset_curve (fst r2) (snd r2) d3 ui) else Some d3) = Some d' \<and> ?ok (fst r2) d'" for update ui
    using d4 [of ui] d3(2) assms(3) by (cases update) auto
  then show ?thesis unfolding gbatt_check_spoof_soc_def Let_def start prod.case d3(1) bind.bind_lunit by blast
qed

lemma set_capacity_ok:
  assumes "ssoc_ok (bd_ssoc d)" "rl_ssoc_last_update (ssoc_rl_state (bd_ssoc d)) \<le> now"
  shows "\<exists>d'. gbatt_set_capacity now q d c = Some d' \<and> ssoc_ok (bd_ssoc d')"
  using reset_curve_ok [OF assms, of q "bd_fake_capacity d"] assms(1) by (auto simp: gbatt_set_capacity_def Let_def)

text \<open>
  The steps of the driver: a sample, the transitions of the recharge logic, connecting and
  disconnecting, the defenders, and the inputs that come from elsewhere (charger state, health
  settings, charging policy, temperature defender). Time does not run backwards.
\<close>

abbreviation last_update :: "batt_drv \<Rightarrow> int" where
  "last_update d \<equiv> rl_ssoc_last_update (ssoc_rl_state (bd_ssoc d))"

inductive batt_step :: "batt_drv \<Rightarrow> batt_drv \<Rightarrow> bool" where
  sample: "last_update d \<le> now \<Longrightarrow> ssoc_work now q (bd_ssoc d) = Some (ret, s) \<Longrightarrow> batt_step d (d\<lparr>bd_ssoc := s\<rparr>)"
| enter: "last_update d \<le> now \<Longrightarrow> batt_rl_enter now (bd_ssoc d) st = Some (b, s) \<Longrightarrow> batt_step d (d\<lparr>bd_ssoc := s\<rparr>)"
| recharge: "batt_step d (d\<lparr>bd_ssoc := batt_rl_update_status (bd_ssoc d)\<rparr>)"
| reset: "batt_step d (d\<lparr>bd_ssoc := batt_rl_reset (bd_ssoc d)\<rparr>)"
| smart: "batt_step d (d\<lparr>bd_ssoc := batt_sr_update_state (bd_ssoc d)\<rparr>)"
| plug: "batt_step d (d\<lparr>bd_ssoc := ssoc_change_curve (bd_ssoc d) (ssoc_get_delta d) ty\<rparr>)"
| state: "batt_step d (d\<lparr>bd_ssoc := ssoc_change_state now (bd_ssoc d) ben\<rparr>)"
| trickle: "batt_step d (d\<lparr>bd_ssoc := (bd_ssoc d)\<lparr>bd_trickle_full := f, bd_trickle_eoc := e\<rparr>\<rparr>)"
| spoof: "last_update d \<le> fst r1 \<Longrightarrow> fst r1 \<le> fst r2 \<Longrightarrow> gbatt_check_spoof_soc r1 r2 d = Some d' \<Longrightarrow> batt_step d d'"
| fake: "last_update d \<le> now \<Longrightarrow> gbatt_set_capacity now q d c = Some d' \<Longrightarrow> batt_step d d'"
| inputs: "batt_step d (d\<lparr>bd_chg_state := cs, bd_chg_health := h, bd_charging_policy := p, bd_tempd := t\<rparr>)"

lemma batt_step_ok: "batt_step d d' \<Longrightarrow> ssoc_ok (bd_ssoc d) \<Longrightarrow> ssoc_ok (bd_ssoc d')"
proof (induction rule: batt_step.induct)
  case (sample d now q ret s)
  then show ?case using ssoc_work_moved [of "bd_ssoc d" now q] by auto
next
  case (enter d now st b s)
  then show ?case using rl_enter_ok [of "bd_ssoc d" now st] by auto
next
  case (spoof d r1 r2 d')
  then show ?case using check_spoof_ok [of d r1 r2] by auto
next
  case (fake d now q c d')
  then show ?case using set_capacity_ok [of d now q c] by auto
qed (simp_all add: status_ops_ok change_curve_ok)

lemma batt_steps_ok: "batt_step\<^sup>*\<^sup>* d d' \<Longrightarrow> ssoc_ok (bd_ssoc d) \<Longrightarrow> ssoc_ok (bd_ssoc d')"
  by (induction rule: rtranclp_induct) (auto intro: batt_step_ok)

section \<open>Start-up\<close>

text \<open>
  The configuration a device tree may give: at most 100 percent per a time that fits in 31 bits,
  and rates of at least the nominal 10. The number of elements of a property is a C integer, and
  reading more elements than there are fails.
\<close>

definition rl_dt_ok :: "dt_node \<Rightarrow> bool" where
  "rl_dt_ok node \<longleftrightarrow> dt_ok node
     \<and> (\<forall>name. - (2 ^ 31) \<le> dt_count node name \<and> dt_count node name < 2 ^ 31)
     \<and> (\<forall>name n. dt_count node name < int n \<longrightarrow> isl (dt_array node name n))
     \<and> (\<forall>x. dt_u32 node ''google,rl_delta-max-soc'' = Inr x \<longrightarrow> uint x \<le> 100)
     \<and> (\<forall>x. dt_u32 node ''google,rl_delta-max-time'' = Inr x \<longrightarrow> uint x < 2147483648)
     \<and> (\<forall>n rs. dt_array node ''google,rl_soc-rates'' n = Inr rs \<longrightarrow> (\<forall>r \<in> set rs. 10 \<le> sint r))"

text \<open>The driver's memory is zeroed when it is allocated.\<close>

definition rl_zeroed :: "batt_ssoc_rl_state \<Rightarrow> bool" where
  "rl_zeroed r \<longleftrightarrow> rl_delta_max_soc r = 0 \<and> rl_delta_max_time r = 0 \<and> rl_track_target r = 0
     \<and> length (rl_delta_soc_limit r) = 8 \<and> length (rl_delta_soc_ratio r) = 8 \<and> rl_ssoc_last_update r = 0"

lemma read_table_length:
  assumes "dt_ok node" "rl_read_table node name cnt = Some (Inr xs)" "- (2 ^ 31) \<le> cnt" "cnt < 2 ^ 31"
  shows "int (length xs) = cnt" "length xs \<le> 8" "dt_array node name (nat (uwrap 64 cnt)) = Inr xs"
proof -
  have xs: "dt_array node name (nat (uwrap 64 cnt)) = Inr xs" "length xs \<le> 8"
    using assms(2) by (auto simp: rl_read_table_def split: sum.splits if_splits)
  then have "length xs = nat (uwrap 64 cnt)" using assms(1) by (auto dest: dt_array_ok)
  moreover have "uwrap 64 cnt = cnt" if "0 \<le> cnt" using that assms(4) by (simp add: uwrap_def)
  moreover have "uwrap 64 cnt = cnt + 2 ^ 64" if "cnt < 0"
  proof -
    have "cnt mod 2 ^ 64 = (cnt + 2 ^ 64) mod 2 ^ 64" by simp
    also have "\<dots> = cnt + 2 ^ 64" using that assms(3) by (intro mod_pos_pos_trivial) auto
    finally show ?thesis by (simp add: uwrap_def)
  qed
  ultimately show "int (length xs) = cnt" using xs(2) assms(3) by (cases "0 \<le> cnt") auto
  show "length xs \<le> 8" "dt_array node name (nat (uwrap 64 cnt)) = Inr xs" using xs by auto
qed

lemma read_table_total:
  assumes "rl_dt_ok node" "dt_count node name = cnt" "cnt \<le> 8"
  shows "rl_read_table node name cnt \<noteq> None"
proof (cases "dt_array node name (nat (uwrap 64 cnt))")
  case (Inr xs)
  then have "\<not> isl (dt_array node name (nat (uwrap 64 cnt)))" by simp
  then have "int (nat (uwrap 64 cnt)) \<le> cnt" using assms(1,2) unfolding rl_dt_ok_def by (meson not_less)
  moreover have "length xs = nat (uwrap 64 cnt)" using dt_array_ok [OF _ Inr] assms(1) by (simp add: rl_dt_ok_def)
  ultimately show ?thesis using Inr assms(3) by (simp add: rl_read_table_def)
qed (simp add: rl_read_table_def)

lemma read_dt_total:
  assumes "rl_dt_ok node"
  shows "\<exists>ret r. ssoc_rl_read_dt r0 node = Some (ret, r)"
proof -
  let ?l = "dt_count node ''google,rl_soc-limits''" and ?r = "dt_count node ''google,rl_soc-rates''"
  have range: "- (2 ^ 31) \<le> ?l \<and> ?l < 2 ^ 31" "- (2 ^ 31) \<le> ?r \<and> ?r < 2 ^ 31"
    using assms unfolding rl_dt_ok_def by blast+
  have "?l = ?r" if "(word_of_int ?l :: u32) = word_of_int ?r"
    using u32_of_int_inj [OF that] range by blast
  then have "\<exists>ret r. rl_read_limits r1 node = Some (ret, r)" for r1
    using read_table_total [OF assms, of "''google,rl_soc-limits''"] read_table_total [OF assms, of "''google,rl_soc-rates''"]
    by (force simp: rl_read_limits_def Let_def split: option.splits sum.splits)
  then show ?thesis by (simp add: ssoc_rl_read_dt_def Let_def)
qed

lemma max_soc_value:
  assumes "rl_dt_ok node"
  shows "0 \<le> dt_qnum_or node ''google,rl_delta-max-soc'' 0" "dt_qnum_or node ''google,rl_delta-max-soc'' 0 < 2147483648"
    "dt_qnum_or node ''google,rl_delta-max-soc'' 0 mod 16777216 = 0"
proof -
  have "swrap 32 (uint x * 16777216) = uint x * 16777216" "uint x \<le> 100" "0 \<le> uint x"
    if "dt_u32 node ''google,rl_delta-max-soc'' = Inr x" for x
  proof -
    show "uint x \<le> 100" "0 \<le> uint x" using that assms by (auto simp: rl_dt_ok_def)
    then show "swrap 32 (uint x * 16777216) = uint x * 16777216" by (intro swrap_32) linarith+
  qed
  then show "0 \<le> dt_qnum_or node ''google,rl_delta-max-soc'' 0" "dt_qnum_or node ''google,rl_delta-max-soc'' 0 < 2147483648"
    "dt_qnum_or node ''google,rl_delta-max-soc'' 0 mod 16777216 = 0"
    by (fastforce simp: dt_qnum_or_def qnum_fromint_def split: sum.splits)+
qed

lemma max_time_value:
  assumes "rl_dt_ok node" "mt = (case dt_u32 node ''google,rl_delta-max-time'' of Inr x \<Rightarrow> sint x | Inl e \<Rightarrow> d)" "d = 0"
  shows "0 \<le> mt \<and> mt < 2147483648"
  using assms sint_u32_small by (auto simp: rl_dt_ok_def split: sum.splits)

lemma table_ok_filled:
  assumes "rl_dt_ok node" "length (rl_delta_soc_limit r) = 8" "length (rl_delta_soc_ratio r) = 8"
    "rl_read_table node ''google,rl_soc-limits'' cnt = Some (Inr ls)" "rl_read_table node ''google,rl_soc-rates'' cnt = Some (Inr rs)"
    "cnt = dt_count node ''google,rl_soc-limits''" "rl_delta_soc_cnt r = cnt"
  shows "rl_table_ok (r\<lparr>rl_delta_soc_limit := array_fill (map f ls) (rl_delta_soc_limit r),
               rl_delta_soc_ratio := array_fill (map sint rs) (rl_delta_soc_ratio r)\<rparr>)"
proof -
  have ok: "dt_ok node" "- (2 ^ 31) \<le> cnt" "cnt < 2 ^ 31" using assms(1,6) by (auto simp: rl_dt_ok_def)
  note ls = read_table_length [OF ok(1) assms(4) ok(2,3)] and rs = read_table_length [OF ok(1) assms(5) ok(2,3)]
  have "\<forall>r \<in> set rs. 10 \<le> sint r" using assms(1) rs(3) unfolding rl_dt_ok_def by blast
  then have "10 \<le> sint (rs ! nat i)" if "0 \<le> i" "i < cnt" for i using that rs(1) by simp
  then show ?thesis using assms(2,3,7) ls rs by (auto simp: rl_table_ok_def array_fill_def nth_append)
qed

lemma rl_read_limits_ok:
  assumes "rl_dt_ok node" "length (rl_delta_soc_limit r) = 8" "length (rl_delta_soc_ratio r) = 8"
    "rl_read_limits r node = Some (ret, r')"
  shows "ret < 0 \<or> rl_table_ok r'" "rl_delta_max_soc r' = rl_delta_max_soc r" "rl_delta_max_time r' = rl_delta_max_time r"
    "rl_ssoc_last_update r' = rl_ssoc_last_update r"
proof -
  let ?cnt = "dt_count node ''google,rl_soc-limits''"
  have err: "e < 0" if "rl_read_table node name ?cnt = Some (Inl e)" for name e
    using that assms(1) dt_array_err by (auto simp: rl_read_table_def rl_dt_ok_def split: sum.splits if_splits)
  show "ret < 0 \<or> rl_table_ok r'"
    using assms(4) table_ok_filled [OF assms(1), of "r\<lparr>rl_delta_soc_cnt := ?cnt\<rparr>" ?cnt] assms(2,3) err
    by (auto simp: rl_read_limits_def Let_def rl_table_ok_def [of "r\<lparr>rl_delta_soc_cnt := 0\<rparr>"]
        split: if_splits option.splits sum.splits)
  show "rl_delta_max_soc r' = rl_delta_max_soc r" "rl_delta_max_time r' = rl_delta_max_time r"
    "rl_ssoc_last_update r' = rl_ssoc_last_update r"
    using assms(4) by (auto simp: rl_read_limits_def Let_def split: if_splits option.splits sum.splits)
qed

lemma read_dt_config:
  assumes "rl_zeroed r0" "rl_dt_ok node" "ssoc_rl_read_dt r0 node = Some (ret, r)"
  shows "rl_config_ok (if ret < 0 then r\<lparr>rl_track_target := 1\<rparr> else r) \<and> rl_ssoc_last_update r = 0"
proof -
  let ?ms = "dt_qnum_or node ''google,rl_delta-max-soc'' 0"
  define mt where "mt = (case dt_u32 node ''google,rl_delta-max-time'' of Inr x \<Rightarrow> sint x | Inl e \<Rightarrow> rl_delta_max_time r0)"
  have z: "rl_delta_max_soc r0 = 0" "rl_delta_max_time r0 = 0" "rl_ssoc_last_update r0 = 0"
    "length (rl_delta_soc_limit r0) = 8" "length (rl_delta_soc_ratio r0) = 8" using assms(1) by (auto simp: rl_zeroed_def)
  note v = max_soc_value [OF assms(2)] max_time_value [OF assms(2) mt_def z(2)]
  show ?thesis
  proof (cases "?ms = 0 \<or> mt = 0")
    case True
    then have "ret = - EINVAL" "r = r0\<lparr>rl_delta_max_soc := ?ms, rl_delta_max_time := mt\<rparr>"
      using assms(3) z(1) by (auto simp: ssoc_rl_read_dt_def mt_def [symmetric] Let_def)
    then show ?thesis using z by (simp add: rl_config_ok_def)
  next
    case False
    then obtain r2 where r2: "rl_read_limits r2 node = Some (ret, r)" "rl_delta_max_soc r2 = ?ms" "rl_delta_max_time r2 = mt"
      "rl_ssoc_last_update r2 = 0" "length (rl_delta_soc_limit r2) = 8" "length (rl_delta_soc_ratio r2) = 8"
      using assms(3) z(1,3-5) by (auto simp: ssoc_rl_read_dt_def mt_def [symmetric] Let_def)
    show ?thesis using rl_read_limits_ok [OF assms(2) r2(5,6,1)] r2(2,3,4) v False by (auto simp: rl_config_ok_def)
  qed
qed

lemma map_range:
  assumes "curve_rises cs" "0 \<le> x"
  shows "\<exists>u. ssoc_uicurve_map x cs = Some u \<and> 0 \<le> u \<and> u \<le> uc_ui (cs ! 2)"
proof -
  obtain a b c where cs: "cs = [a, b, c]" using assms(1) by (auto simp: curve_rises_def split: list.splits)
  note rises = assms(1) [unfolded cs]
  have ok: "piece_ok a b" "piece_ok b c" "uc_real a \<le> uc_ui a" "uc_ui c \<le> uc_real c"
    using rises by (auto simp: curve_rises_def)
  then have "0 \<le> uc_ui a" "uc_ui a \<le> uc_ui b" "uc_ui b \<le> uc_ui c" by (auto simp: piece_ok_def)
  then show ?thesis using assms(2) ok(3,4) piece_bounds [OF ok(1), of x] piece_bounds [OF ok(2), of x]
    by (auto simp: cs map_pieces [OF rises])
qed

lemma first_update:
  assumes "rl_config_ok (ssoc_rl_state s)" "ssoc_curve s = chg_curve" "rl_ssoc_target (ssoc_rl_state s) = - 1"
    "0 \<le> soc" "rl_ssoc_last_update (ssoc_rl_state s) \<le> now"
  shows "\<exists>s'. ssoc_update now s soc = Some s' \<and> ssoc_ok s' \<and> rl_ssoc_last_update (ssoc_rl_state s') = now
     \<and> ssoc_curve s' = chg_curve"
proof -
  obtain uic where uic: "ssoc_uicurve_map soc chg_curve = Some uic" "0 \<le> uic" "uic \<le> ssoc_point_full"
    using map_range [OF standard_curves_rise(1) assms(4)] by (auto simp: chg_curve_def)
  define t where "t = s\<lparr>ssoc_gdf := soc, ssoc_uic := uic, ssoc_rl := uic,
      ssoc_rl_state := rl_update_flags (buck_enabled s) uic ((ssoc_rl_state s)\<lparr>rl_ssoc_target := uic\<rparr>)\<rparr>"
  have upd: "ssoc_update now s soc = map_option (\<lambda>(v, s'). s'\<lparr>ssoc_rl := v\<rparr>) (ssoc_apply_rl now t)"
    using uic assms(2,3) by (simp add: ssoc_update_def t_def Let_def map_option_case case_prod_unfold split: option.splits)
  obtain v where v: "ssoc_apply_rl now t = Some (rl_shown t v,
        t\<lparr>ssoc_rl_state := (ssoc_rl_state t)\<lparr>rl_ssoc_target := rl_next_target t, rl_ssoc_last_update := now\<rparr>\<rparr>)"
    "0 \<le> v" "v \<le> ssoc_point_full"
    using apply_rl_shows [of t now] assms(1,5) uic by (auto simp: t_def)
  have "ssoc_curve t = chg_curve" "rl_config_ok (ssoc_rl_state t)" "0 \<le> ssoc_rl t" using assms uic by (auto simp: t_def)
  then show ?thesis using upd v rl_shown_range [OF v(2,3), of t] rl_next_target_range [of t]
    by (auto simp: ssoc_ok_def ssoc_point_full_def)
qed

lemma restore_total:
  assumes "ssoc_ok (bd_ssoc d)" "rl_ssoc_last_update (ssoc_rl_state (bd_ssoc d)) \<le> now"
  shows "\<exists>ret d'. gbatt_restore_capacity now q rsoc d = Some (ret, d') \<and> ssoc_ok (bd_ssoc d')"
proof (cases rsoc)
  case (Inr x)
  then obtain n w where x: "rsoc = Inr (n, w)" by (cases x) auto
  let ?d = "d\<lparr>bd_ssoc := (bd_ssoc d)\<lparr>save_soc := w\<rparr>\<rparr>"
  obtain s where "gbatt_reset_curve now q ?d (uint w) = Some (?d\<lparr>bd_ssoc := s\<rparr>)" "ssoc_ok s"
    using reset_curve_ok [of ?d now q "uint w"] assms(1,2) by auto
  then show ?thesis using assms(1) x by (auto simp: gbatt_restore_capacity_def Let_def)
qed (use assms in \<open>simp add: gbatt_restore_capacity_def\<close>)

lemma ssoc_init_ok:
  assumes "rl_zeroed (ssoc_rl_state (bd_ssoc d))" "rl_dt_ok node" "0 \<le> fst read1" "fst read1 \<le> fst read2"
    "0 \<le> snd read1" "snd read1 < 32768"
  shows "\<exists>d'. ssoc_init node read1 read2 rsoc d = Some (0, d') \<and> ssoc_ok (bd_ssoc d')"
proof -
  obtain ret r0 where dt: "ssoc_rl_read_dt (ssoc_rl_state (bd_ssoc d)) node = Some (ret, r0)"
    using read_dt_total [OF assms(2)] by blast
  define r1 where "r1 = (if ret < 0 then r0\<lparr>rl_track_target := 1\<rparr> else r0)"
  have r1: "rl_config_ok r1" "rl_ssoc_last_update r1 = 0"
    using read_dt_config [OF assms(1,2) dt] by (auto simp: r1_def)
  define s1 where "s1 = (bd_ssoc d)\<lparr>ssoc_rl_state := r1\<lparr>rl_ssoc_target := - 1\<rparr>, ssoc_curve := chg_curve,
      ssoc_curve_type := SSOC_UIC_TYPE_NONE\<rparr>"
  have "0 \<le> swrap 32 (qnum_from_q8_8 (snd read1))" using assms(5,6) by (simp add: qnum_from_q8_8_def)
  then obtain s2 where s2: "ssoc_update (fst read1) s1 (swrap 32 (qnum_from_q8_8 (snd read1))) = Some s2" "ssoc_ok s2"
    "rl_ssoc_last_update (ssoc_rl_state s2) = fst read1" "ssoc_curve s2 = chg_curve"
    using first_update [of s1 _ "fst read1"] r1 assms(3) by (auto simp: s1_def)
  define s3 where "s3 = (if ssoc_get_capacity s2 \<ge> 100 then s2\<lparr>ssoc_curve := dsg_curve\<rparr>
      else if ssoc_get_capacity s2 < 15 then s2 else if ssoc_get_capacity s2 < 95
      then s2\<lparr>ssoc_curve := ssoc_uicurve_splice (ssoc_curve s2) (ssoc_gdf s2) (ssoc_rl s2)\<rparr> else s2)"
  have s3: "ssoc_ok s3" "ssoc_rl_state s3 = ssoc_rl_state s2"
    using s2(2,4) splice_safe [OF standard_curves_safe(1)] by (auto simp: s3_def ssoc_ok_def)
  obtain ret3 d4 where "gbatt_restore_capacity (fst read2) (snd read2) rsoc (d\<lparr>bd_ssoc := s3\<rparr>) = Some (ret3, d4)"
    "ssoc_ok (bd_ssoc d4)"
    using restore_total [of "d\<lparr>bd_ssoc := s3\<rparr>" "fst read2" "snd read2" rsoc] s3 s2(3) assms(4) by auto
  then show ?thesis using assms(5) s2(1)
    by (simp add: ssoc_init_def dt r1_def [symmetric] s1_def [symmetric] ssoc_work_def s3_def [symmetric] Let_def)
qed


section \<open>A display that is full early\<close>

text \<open>
  The vote that lets the display reach 100 percent at a gauge value below it ends the curve at
  that value. A gauge that then rises above it, below 100 percent, makes the next sample read
  past the end of the curve: the lookup is guarded by the displayed value of the last point, not
  by its measured one.
\<close>

theorem full_ui_soc_reads_past_curve:
  assumes "ssoc_curve s = [a, b, c]" "uc_real a \<le> x" "uc_real b \<le> qnum_fromint soc" "0 \<le> soc" "soc < 100"
    "ssoc_get_capacity s < 100" "buck_enabled s = 1" "point_full_ui_soc s \<noteq> soc"
    "qnum_fromint soc < x" "x < qnum_fromint 100"
  shows "ssoc_update now (point_full_ui_soc_cb s soc) x = None"
proof -
  have w: "swrap 32 (qnum_fromint soc) = qnum_fromint soc" using assms(4,5) by (simp add: qnum_fromint_def)
  have "ssoc_curve (point_full_ui_soc_cb s soc) = [a, b, \<lparr>uc_real = qnum_fromint soc, uc_ui = ssoc_point_full\<rparr>]"
    using assms w by (simp add: point_full_ui_soc_cb_def ssoc_uicurve_splice_full_def Let_def numeral_2_eq_2)
  then have "ssoc_uicurve_map x (ssoc_curve (point_full_ui_soc_cb s soc)) = None"
    using assms by (auto simp: ssoc_uicurve_map_def uicurve_find_3 arr_get_def ssoc_point_full_def qnum_fromint_def)
  then show ?thesis by (simp add: ssoc_update_def)
qed

section \<open>Examples\<close>

definition demo_rls :: batt_ssoc_rl_state where
  "demo_rls = \<lparr>rl_ssoc_target = 0, rl_ssoc_last_update = 0, rl_no_zero = False, rl_fast_track = 0, rl_track_target = 0,
     rl_delta_max_time = 0, rl_delta_max_soc = 0, rl_delta_soc_ratio = replicate 8 0, rl_delta_soc_limit = replicate 8 0,
     rl_delta_soc_cnt = 0, rl_ft_low_limit = 0, rl_ft_delta_limit = 0\<rparr>"

definition demo_ssoc :: batt_ssoc_state where
  "demo_ssoc = \<lparr>ssoc_gdf = 0, ssoc_curve_type = SSOC_UIC_TYPE_NONE, ssoc_curve = chg_curve, ssoc_uic = 0, ssoc_rl = 838860800,
     ssoc_rl_state = demo_rls\<lparr>rl_ssoc_target := 838860800, rl_delta_max_time := 10, rl_delta_max_soc := 16777216\<rparr>,
     ssoc_delta = 3, disconnect_time = 0, buck_enabled = 0, rl_soc_threshold = 95, rl_status = BATT_RL_STATUS_NONE,
     bd_trickle_enable = False, bd_trickle_recharge_soc = 90, bd_trickle_cnt = 0, bd_trickle_dry_run = False,
     bd_trickle_full = False, bd_trickle_eoc = False, bd_trickle_reset_sec = 0, bd_trickle_cnt_thr = 6,
     bd_trickle_version = 1, bd_trickle_rate = 0, save_soc_available = False, save_soc = 0, point_full_ui_soc = - 1,
     sr_state = BATT_SMART_RECHG_DISABLE, spoof_start_soc = 0, spoof_end_soc = 0, spoof_reason = SPOOF_SOC_NONE,
     spoof_triggered = False\<rparr>"

lemma demo_ssoc_ok: "ssoc_ok demo_ssoc"
  by (simp add: ssoc_ok_def demo_ssoc_def demo_rls_def rl_config_ok_def rl_table_ok_def ssoc_point_full_def)


theorem full_ui_soc_reads_past_curve_witness:
  "ssoc_update 30 (point_full_ui_soc_cb (demo_ssoc\<lparr>buck_enabled := 1\<rparr>) 98) (qnum_fromint 99) = None"
  by (rule full_ui_soc_reads_past_curve [of _ "chg_curve ! 0" "chg_curve ! 1" "chg_curve ! 2"])
     (simp_all add: demo_ssoc_def chg_curve_def qnum_fromint_def ssoc_point_true_def ssoc_point_spoof_def
       ssoc_get_capacity_def ssoc_get_capacity_raw_def qnum_roundint_half_def qnum_toint_def)

definition demo_rl_node :: dt_node where
  "demo_rl_node = \<lparr>dt_count = (\<lambda>name. if name \<in> {''google,rl_soc-limits'', ''google,rl_soc-rates''} then 1 else - 22),
     dt_array = (\<lambda>name n. if n \<le> 1 \<and> name \<in> {''google,rl_soc-limits'', ''google,rl_soc-rates''}
                    then Inr (replicate n (if name = ''google,rl_soc-rates'' then 20 else 15)) else Inl (- 75)),
     dt_u32 = (\<lambda>name. if name = ''google,rl_delta-max-soc'' then Inr 1
                     else if name = ''google,rl_delta-max-time'' then Inr 10 else Inl (- 22)),
     dt_bool = (\<lambda>name. name = ''google,rl_no-zero'')\<rparr>"

lemma demo_rl_node_ok: "rl_dt_ok demo_rl_node"
  by (auto simp: rl_dt_ok_def demo_rl_node_def dt_ok_def split: if_splits)

definition demo_drv :: batt_drv where
  "demo_drv = \<lparr>bd_ssoc = demo_ssoc\<lparr>ssoc_rl_state := demo_rls\<rparr>, bd_fake_capacity = - 22, bd_chg_state = charger_state_of 0,
     bd_chg_health = \<lparr>rest_soc = - 1, always_on_soc = - 1, rest_rate = 0, rest_state = CHG_HEALTH_INACTIVE, rest_cc_max = 0\<rparr>,
     bd_charging_policy = 1, bd_tempd = False\<rparr>"


end
