(* ===== verification/Circ_Queue.thy ===== *)
theory Circ_Queue
  imports Kernel_Prelude
begin

text \<open>
  The mirrored circular queues that the host and the firmware of an accelerator share,
  \<^verbatim>\<open>src/google-modules/edgetpu/rio/drivers/edgetpu/gcip-kernel-driver/include/gcip/gcip-mailbox.h\<close>:
  an index is a position in the queue and, above it, a wrap bit that flips each time the index
  passes the end. The reference is a pair of unbounded counters: \<open>circ_index\<close> is the
  register value of a counter, and the theory shows that counting, increasing and the tests for
  an empty and a full queue are exact under it.
\<close>

section \<open>The macros and functions of the header\<close>

definition CIRC_QUEUE_WRAPPED :: "'a::len word \<Rightarrow> 'a word \<Rightarrow> 'a word" where
  "CIRC_QUEUE_WRAPPED idx wrap_bit = idx AND wrap_bit"

definition CIRC_QUEUE_INDEX_MASK :: "'a::len word \<Rightarrow> 'a word" where
  "CIRC_QUEUE_INDEX_MASK wrap_bit = wrap_bit - 1"

definition CIRC_QUEUE_VALID_MASK :: "'a::len word \<Rightarrow> 'a word" where
  "CIRC_QUEUE_VALID_MASK wrap_bit = CIRC_QUEUE_INDEX_MASK wrap_bit OR wrap_bit"

definition CIRC_QUEUE_REAL_INDEX :: "'a::len word \<Rightarrow> 'a word \<Rightarrow> 'a word" where
  "CIRC_QUEUE_REAL_INDEX idx wrap_bit = idx AND CIRC_QUEUE_INDEX_MASK wrap_bit"

definition CIRC_QUEUE_MAX_SIZE :: "'a::len word \<Rightarrow> 'a word" where
  "CIRC_QUEUE_MAX_SIZE wrap_bit = wrap_bit - 1"

definition gcip_circ_queue_cnt :: "u32 \<Rightarrow> u32 \<Rightarrow> u32 \<Rightarrow> u32 \<Rightarrow> u32" where
  "gcip_circ_queue_cnt head tail queue_size wrap_bit =
     (let ret = (if CIRC_QUEUE_WRAPPED tail wrap_bit \<noteq> CIRC_QUEUE_WRAPPED head wrap_bit
                 then queue_size - CIRC_QUEUE_REAL_INDEX head wrap_bit + CIRC_QUEUE_REAL_INDEX tail wrap_bit
                 else tail - head)
      in if ret > queue_size then 0 else ret)"

definition gcip_circ_queue_inc :: "u32 \<Rightarrow> u32 \<Rightarrow> u32 \<Rightarrow> u32 \<Rightarrow> u32" where
  "gcip_circ_queue_inc index inc queue_size wrap_bit =
     (let new_index = CIRC_QUEUE_REAL_INDEX index wrap_bit + inc
      in if new_index \<ge> queue_size then (index + inc - queue_size) XOR wrap_bit else index + inc)"

definition gcip_valid_circ_queue_size :: "u32 \<Rightarrow> u32 \<Rightarrow> bool" where
  "gcip_valid_circ_queue_size sz wrap_bit \<longleftrightarrow> \<not> (sz = 0 \<or> sz > CIRC_QUEUE_MAX_SIZE wrap_bit)"

section \<open>Unbounded counters as register values\<close>

text \<open>
  \<open>circ_reg k b r\<close> is the register with position \<open>r\<close> and wrap bit number \<open>k\<close> equal to \<open>b\<close>;
  \<open>circ_index n k p\<close> is the register of the counter \<open>p\<close>.
\<close>

definition circ_reg :: "nat \<Rightarrow> bool \<Rightarrow> nat \<Rightarrow> 'a::len word" where
  "circ_reg k b r = word_of_nat r OR (if b then 2 ^ k else 0)"

definition circ_index :: "nat \<Rightarrow> nat \<Rightarrow> nat \<Rightarrow> 'a::len word" where
  "circ_index n k p = circ_reg k (odd (p div n)) (p mod n)"

lemma nat_bit_small: "r < 2 ^ k \<Longrightarrow> bit (r :: nat) n \<Longrightarrow> n < k"
  by (metis bit_take_bit_iff take_bit_nat_eq_self_iff)

lemma bit_circ_reg:
  assumes "k < LENGTH('a)" "r < 2 ^ k"
  shows "bit (circ_reg k b r :: 'a::len word) n \<longleftrightarrow> bit r n \<or> b \<and> n = k"
  using assms nat_bit_small [OF assms(2), of n] by (auto simp: circ_reg_def bit_simps)

lemma index_mask: "CIRC_QUEUE_INDEX_MASK (2 ^ k :: 'a::len word) = mask k"
  by (simp add: CIRC_QUEUE_INDEX_MASK_def mask_eq_exp_minus_1)

lemma circ_reg_real:
  assumes "k < LENGTH('a)" "r < 2 ^ k"
  shows "CIRC_QUEUE_REAL_INDEX (circ_reg k b r :: 'a::len word) (2 ^ k) = word_of_nat r"
  unfolding CIRC_QUEUE_REAL_INDEX_def index_mask
  by (rule bit_word_eqI) (auto simp: bit_circ_reg [OF assms] bit_simps dest: nat_bit_small [OF assms(2)])

lemma circ_reg_wrapped:
  assumes "k < LENGTH('a)" "r < 2 ^ k"
  shows "CIRC_QUEUE_WRAPPED (circ_reg k b r :: 'a::len word) (2 ^ k) = (if b then 2 ^ k else 0)"
  unfolding CIRC_QUEUE_WRAPPED_def
  by (rule bit_word_eqI) (auto simp: bit_circ_reg [OF assms] bit_simps dest: nat_bit_small [OF assms(2)])

lemma circ_reg_valid:
  assumes "k < LENGTH('a)" "r < 2 ^ k"
  shows "(circ_reg k b r :: 'a::len word) AND NOT (CIRC_QUEUE_VALID_MASK (2 ^ k)) = 0"
  unfolding CIRC_QUEUE_VALID_MASK_def index_mask
  by (rule bit_word_eqI) (auto simp: bit_circ_reg [OF assms] bit_simps dest: nat_bit_small [OF assms(2)])

lemma circ_reg_flip:
  assumes "k < LENGTH('a)" "r < 2 ^ k"
  shows "(circ_reg k b r :: 'a::len word) XOR 2 ^ k = circ_reg k (\<not> b) r"
  by (rule bit_word_eqI) (auto simp: bit_circ_reg [OF assms] bit_simps dest: nat_bit_small [OF assms(2)])

lemma circ_reg_add:
  assumes "r < 2 ^ k"
  shows "(circ_reg k b r :: 'a::len word) = word_of_nat r + (if b then 2 ^ k else 0)"
proof -
  have "word_of_nat r AND (if b then 2 ^ k else 0) = (0 :: 'a word)"
    by (rule bit_word_eqI) (auto simp: bit_simps dest: nat_bit_small [OF assms])
  then show ?thesis by (simp add: circ_reg_def disjunctive_add_eq_or)
qed

lemma circ_reg_inj:
  assumes "k < LENGTH('a)" "r < 2 ^ k" "r' < 2 ^ k"
  shows "(circ_reg k b r :: 'a::len word) = circ_reg k b' r' \<longleftrightarrow> b = b' \<and> r = r'"
proof
  assume eq: "(circ_reg k b r :: 'a word) = circ_reg k b' r'"
  have bits: "bit r n \<or> b \<and> n = k \<longleftrightarrow> bit r' n \<or> b' \<and> n = k" for n
    using arg_cong [OF eq, of "\<lambda>w. bit w n"]
    by (simp add: bit_circ_reg [OF assms(1,2)] bit_circ_reg [OF assms(1,3)])
  have "bit r n = bit r' n" for n
    using bits [of n] nat_bit_small [OF assms(2)] nat_bit_small [OF assms(3)] by blast
  then have "r = r'" by (simp add: bit_eq_iff)
  moreover have "b = b'"
    using bits [of k] nat_bit_small [OF assms(2), of k] nat_bit_small [OF assms(3), of k] by blast
  ultimately show "b = b' \<and> r = r'" by simp
qed simp

section \<open>Exactness of the operations\<close>

text \<open>What the queues rely on: a wrap bit inside the register and a size below it.\<close>

definition circ_ok :: "nat \<Rightarrow> nat \<Rightarrow> bool" where
  "circ_ok n k \<longleftrightarrow> 0 < n \<and> n < 2 ^ k \<and> k < 32"

lemma unat_u32_of_nat: "m < 4294967296 \<Longrightarrow> unat (word_of_nat m :: u32) = m"
  by (simp add: unat_of_nat)

lemma unat_wrap_bit: "k < 32 \<Longrightarrow> unat (2 ^ k :: u32) = 2 ^ k"
  using unat_u32_of_nat [of "2 ^ k"] power_increasing [of k 31 "2 :: nat"] by simp

lemma unat_max_size: "k < 32 \<Longrightarrow> unat (2 ^ k - 1 :: u32) = 2 ^ k - 1"
  using unat_sub_eq [of "2 ^ k :: u32" 1] unat_wrap_bit [of k] by simp

lemma valid_circ_queue_size_iff:
  assumes "k < 32"
  shows "gcip_valid_circ_queue_size sz (2 ^ k) \<longleftrightarrow> circ_ok (unat sz) k"
proof -
  have "sz > 2 ^ k - 1 \<longleftrightarrow> 2 ^ k - 1 < unat sz"
    using unat_max_size [OF assms] by (simp add: word_less_nat_alt)
  moreover have "sz = 0 \<longleftrightarrow> unat sz = 0" by (simp add: unat_eq_0)
  ultimately show ?thesis using assms one_le_power [of "2 :: nat" k]
    by (auto simp: gcip_valid_circ_queue_size_def CIRC_QUEUE_MAX_SIZE_def circ_ok_def)
qed

lemma circ_ok_mod: "circ_ok n k \<Longrightarrow> p mod n < 2 ^ k"
  by (meson circ_ok_def less_trans mod_less_divisor)

lemma circ_ok_bound: "circ_ok n k \<Longrightarrow> n < 2147483648"
  using power_increasing [of k 31 "2 :: nat"] by (auto simp: circ_ok_def)

lemma div_add_once:
  fixes n :: nat
  assumes "0 < n" "i \<le> n"
  shows "(p + i) div n = p div n + (if n \<le> p mod n + i then 1 else 0)"
    and "(p + i) mod n = (if n \<le> p mod n + i then p mod n + i - n else p mod n + i)"
proof -
  have sum: "p + i = (p mod n + i) + n * (p div n)" by simp
  have "p mod n + i - n < n" using mod_less_divisor [OF assms(1), of p] assms by linarith
  then have step: "(p mod n + i) div n = (if n \<le> p mod n + i then 1 else 0)"
    "(p mod n + i) mod n = (if n \<le> p mod n + i then p mod n + i - n else p mod n + i)"
    using assms by (simp_all add: le_div_geq le_mod_geq)
  show "(p + i) div n = p div n + (if n \<le> p mod n + i then 1 else 0)"
    using assms(1) by (subst sum) (simp only: div_mult_self2 step add.commute [of "p div n"])
  show "(p + i) mod n = (if n \<le> p mod n + i then p mod n + i - n else p mod n + i)"
    by (subst sum) (simp only: mod_mult_self2 step)
qed

theorem circ_queue_inc_exact:
  assumes ok: "circ_ok n k" and i: "i \<le> n"
  shows "gcip_circ_queue_inc (circ_index n k p) (word_of_nat i) (word_of_nat n) (2 ^ k)
    = circ_index n k (p + i)"
proof -
  have n: "0 < n" "n < 2 ^ k" "k < 32" using ok by (auto simp: circ_ok_def)
  note small = circ_ok_bound [OF ok]
  define r b where "r = p mod n" and "b = odd (p div n)"
  have r: "r < n" "r < 2 ^ k" "r + i < 4294967296"
    using n i small mod_less_divisor [OF n(1), of p] unfolding r_def by linarith+
  have new: "CIRC_QUEUE_REAL_INDEX (circ_reg k b r) (2 ^ k) + word_of_nat i = (word_of_nat (r + i) :: u32)"
    using circ_reg_real [of k r b, where ?'a = 32] n r by simp
  have ge: "word_of_nat n \<le> (word_of_nat (r + i) :: u32) \<longleftrightarrow> n \<le> r + i"
    using r small by (simp add: word_le_nat_alt unat_u32_of_nat del: of_nat_add)
  show ?thesis
  proof (cases "n \<le> r + i")
    case True
    have "circ_reg k b r + word_of_nat i - word_of_nat n = (circ_reg k b (r + i - n) :: u32)"
      using True r n i by (simp add: circ_reg_add of_nat_diff)
    then show ?thesis
      using True ge new circ_reg_flip [of k "r + i - n" b, where ?'a = 32] n r i div_add_once [of n i p]
      by (simp add: gcip_circ_queue_inc_def circ_index_def flip: r_def b_def)
  next
    case False
    have "circ_reg k b r + word_of_nat i = (circ_reg k b (r + i) :: u32)"
      using False r n by (simp add: circ_reg_add)
    then show ?thesis
      using False ge new n i div_add_once [of n i p]
      by (simp add: gcip_circ_queue_inc_def circ_index_def flip: r_def b_def)
  qed
qed

theorem circ_queue_cnt_exact:
  assumes ok: "circ_ok n k" and t: "h \<le> t" "t \<le> h + n"
  shows "gcip_circ_queue_cnt (circ_index n k h) (circ_index n k t) (word_of_nat n) (2 ^ k)
    = word_of_nat (t - h)"
proof -
  have n: "0 < n" "k < 32" using ok by (auto simp: circ_ok_def)
  note small = circ_ok_bound [OF ok]
  note rb = circ_ok_mod [OF ok, of h] circ_ok_mod [OF ok, of t]
  define i where "i = t - h"
  have i: "t = h + i" "i \<le> n" using t by (simp_all add: i_def)
  note split = div_add_once [OF n(1) i(2), of h, folded i(1)]
  have wrapped: "CIRC_QUEUE_WRAPPED (circ_index n k t) (2 ^ k)
      \<noteq> (CIRC_QUEUE_WRAPPED (circ_index n k h) (2 ^ k) :: u32) \<longleftrightarrow> n \<le> h mod n + i"
    using n rb split(1) by (simp add: circ_index_def circ_reg_wrapped)
  have "(if n \<le> h mod n + i
      then word_of_nat n - CIRC_QUEUE_REAL_INDEX (circ_index n k h) (2 ^ k)
        + CIRC_QUEUE_REAL_INDEX (circ_index n k t) (2 ^ k)
      else circ_index n k t - circ_index n k h) = (word_of_nat i :: u32)"
  proof (cases "n \<le> h mod n + i")
    case True
    then show ?thesis using n rb split by (simp add: circ_index_def circ_reg_real of_nat_diff)
  next
    case False
    then show ?thesis using rb split by (simp add: circ_index_def circ_reg_add)
  qed
  moreover have "\<not> word_of_nat i > (word_of_nat n :: u32)"
    using i small by (simp add: word_less_nat_alt unat_u32_of_nat)
  ultimately show ?thesis
    unfolding gcip_circ_queue_cnt_def wrapped by (simp add: i_def)
qed

lemma circ_index_eq_iff:
  assumes ok: "circ_ok n k" and t: "h \<le> t" "t \<le> h + n" and k: "k < LENGTH('a)"
  shows "(circ_index n k h :: 'a::len word) = circ_index n k t \<longleftrightarrow> t = h"
    and "(circ_index n k h :: 'a word) = circ_index n k t XOR 2 ^ k \<longleftrightarrow> t = h + n"
proof -
  have n: "0 < n" "k < 32" using ok by (auto simp: circ_ok_def)
  note rb = circ_ok_mod [OF ok, of h] circ_ok_mod [OF ok, of t]
  define i where "i = t - h"
  have i: "t = h + i" "i \<le> n" using t by (simp_all add: i_def)
  note split = div_add_once [OF n(1) i(2), of h, folded i(1)] mod_less_divisor [OF n(1), of h]
  show "(circ_index n k h :: 'a word) = circ_index n k t \<longleftrightarrow> t = h"
    using rb split i n k by (fastforce simp: circ_index_def circ_reg_inj split: if_splits)
  show "(circ_index n k h :: 'a word) = circ_index n k t XOR 2 ^ k \<longleftrightarrow> t = h + n"
    using rb split i n k by (auto simp: circ_index_def circ_reg_inj circ_reg_flip split: if_splits)
qed

text \<open>The 64-bit copy of a register, which the mailbox compares and masks.\<close>

lemma ucast_circ_index:
  assumes "circ_ok n k"
  shows "(ucast (circ_index n k p :: u32) :: u64) = circ_index n k p"
proof -
  have k: "k < LENGTH(32)" "k < LENGTH(64)" using assms by (auto simp: circ_ok_def)
  note bits = bit_circ_reg [OF k(1) circ_ok_mod [OF assms]] bit_circ_reg [OF k(2) circ_ok_mod [OF assms]]
  show ?thesis unfolding circ_index_def
    using nat_bit_small [OF circ_ok_mod [OF assms]] k by (intro bit_word_eqI) (fastforce simp: bits bit_simps)
qed

end
