(* ===== verification/Gcip_Mailbox.thy ===== *)
theory Gcip_Mailbox
  imports Circ_Queue "HOL-Library.Monad_Syntax"
begin

text \<open>
  The mailbox framework of the accelerators (EdgeTPU, GXP),
  \<^verbatim>\<open>src/google-modules/edgetpu/rio/drivers/edgetpu/gcip-kernel-driver/drivers/gcip/gcip-mailbox.c\<close>:
  commands go to the firmware through one circular queue, responses come back through another,
  and a wait list pairs them. A synchronous sender waits on its stack; an asynchronous one leaves
  a reference-counted awaiter that the arrival of the response, a timeout, a cancellation or the
  release of the mailbox takes care of.

  A pointer is a natural number, \<^const>\<open>None\<close> standing for NULL; objects reached through pointers are in the
  heaps of the mailbox record. An operation returns \<^const>\<open>None\<close> when the code would call a NULL operator,
  access an object that is NULL or freed, leave an array, drop a reference that does not exist,
  or wait without end. The operators of the chip are a record of functions on the mailbox, each
  field \<^const>\<open>None\<close> when the pointer is NULL; reading the tail of the receive queue returns a new
  state because the firmware advances meanwhile. Memory allocation succeeds or fails as the
  list \<open>allocs\<close> tells.
\<close>

section \<open>Data\<close>

datatype work_state = Work_Idle | Work_Pending | Work_Running

record gcip_mailbox_async_resp =
  waiting :: bool
  resp_ptr :: "nat option"

record gcip_mailbox_resp_awaiter =
  timeout_work :: work_state
  aw_data :: nat
  kref :: nat
  handled :: bool

record gcip_mailbox_wait_list_elem =
  wl_async_resp :: nat
  wl_awaiter :: "nat option"

record ('c, 'r, 'x) gcip_mailbox =
  mb_mode :: u8
  queue_wrap_bit :: u64
  cur_seq :: u64
  tx_queue :: "'c list"
  tx_elem_size :: u32
  rx_queue :: "'r list"
  rx_elem_size :: u32
  wait_list :: "gcip_mailbox_wait_list_elem list option"
  mb_timeout :: u32
  mb_ops_set :: bool
  mb_data :: 'x
  resps :: "nat \<Rightarrow> 'r option"
  async_resps :: "nat \<Rightarrow> gcip_mailbox_async_resp option"
  awaiters :: "nat \<Rightarrow> gcip_mailbox_resp_awaiter option"
  next_addr :: nat
  allocs :: "bool list"

record ('c, 'r, 'x) gcip_mailbox_ops =
  get_tx_queue_tail :: "(('c, 'r, 'x) gcip_mailbox \<Rightarrow> u32 option) option"
  inc_tx_queue_tail :: "(u32 \<Rightarrow> ('c, 'r, 'x) gcip_mailbox \<Rightarrow> ('c, 'r, 'x) gcip_mailbox option) option"
  acquire_tx_queue_lock :: "(bool \<Rightarrow> bool \<Rightarrow> ('c, 'r, 'x) gcip_mailbox
    \<Rightarrow> (int \<times> bool \<times> ('c, 'r, 'x) gcip_mailbox) option) option"
  release_tx_queue_lock :: "(('c, 'r, 'x) gcip_mailbox \<Rightarrow> ('c, 'r, 'x) gcip_mailbox) option"
  get_cmd_elem_seq :: "('c \<Rightarrow> u64) option"
  set_cmd_elem_seq :: "(u64 \<Rightarrow> 'c \<Rightarrow> 'c) option"
  wait_for_tx_queue_not_full :: "(('c, 'r, 'x) gcip_mailbox \<Rightarrow> (int \<times> ('c, 'r, 'x) gcip_mailbox) option) option"
  get_rx_queue_size :: "(('c, 'r, 'x) gcip_mailbox \<Rightarrow> u32 option) option"
  get_rx_queue_head :: "(('c, 'r, 'x) gcip_mailbox \<Rightarrow> u32 option) option"
  get_rx_queue_tail :: "(('c, 'r, 'x) gcip_mailbox \<Rightarrow> (u32 \<times> ('c, 'r, 'x) gcip_mailbox) option) option"
  inc_rx_queue_head :: "(u32 \<Rightarrow> ('c, 'r, 'x) gcip_mailbox \<Rightarrow> ('c, 'r, 'x) gcip_mailbox option) option"
  acquire_rx_queue_lock :: "(bool \<Rightarrow> bool \<Rightarrow> ('c, 'r, 'x) gcip_mailbox
    \<Rightarrow> (int \<times> bool \<times> ('c, 'r, 'x) gcip_mailbox) option) option"
  release_rx_queue_lock :: "(('c, 'r, 'x) gcip_mailbox \<Rightarrow> ('c, 'r, 'x) gcip_mailbox) option"
  get_resp_elem_seq :: "('r \<Rightarrow> u64) option"
  set_resp_elem_seq :: "(u64 \<Rightarrow> 'r \<Rightarrow> 'r) option"
  is_rx_elem_reversed :: "('r \<Rightarrow> bool) option"
  handle_reversed_command :: "('r \<Rightarrow> ('c, 'r, 'x) gcip_mailbox \<Rightarrow> (int \<times> ('c, 'r, 'x) gcip_mailbox) option) option"
  before_enqueue_wait_list :: "(nat option \<Rightarrow> nat option \<Rightarrow> ('c, 'r, 'x) gcip_mailbox
    \<Rightarrow> (int \<times> ('c, 'r, 'x) gcip_mailbox) option) option"
  after_enqueue_cmd :: "('c \<Rightarrow> ('c, 'r, 'x) gcip_mailbox \<Rightarrow> (int \<times> ('c, 'r, 'x) gcip_mailbox) option) option"
  after_fetch_resps :: "(u32 \<Rightarrow> ('c, 'r, 'x) gcip_mailbox \<Rightarrow> ('c, 'r, 'x) gcip_mailbox option) option"
  handle_awaiter_arrived :: "(nat \<Rightarrow> ('c, 'r, 'x) gcip_mailbox \<Rightarrow> ('c, 'r, 'x) gcip_mailbox option) option"
  handle_awaiter_timedout :: "(nat \<Rightarrow> ('c, 'r, 'x) gcip_mailbox \<Rightarrow> ('c, 'r, 'x) gcip_mailbox option) option"
  handle_awaiter_flushed :: "(nat \<Rightarrow> ('c, 'r, 'x) gcip_mailbox \<Rightarrow> ('c, 'r, 'x) gcip_mailbox option) option"
  release_awaiter_data :: "(nat \<Rightarrow> ('c, 'r, 'x) gcip_mailbox \<Rightarrow> ('c, 'r, 'x) gcip_mailbox option) option"
  is_block_off :: "(('c, 'r, 'x) gcip_mailbox \<Rightarrow> bool) option"
  on_error :: "(int \<Rightarrow> ('c, 'r, 'x) gcip_mailbox \<Rightarrow> ('c, 'r, 'x) gcip_mailbox) option"
  does_response_match_waiter :: "('r \<Rightarrow> 'r \<Rightarrow> bool) option"

section \<open>Memory\<close>

definition kmalloc_ok :: "('c, 'r, 'x) gcip_mailbox \<Rightarrow> bool \<times> ('c, 'r, 'x) gcip_mailbox" where
  "kmalloc_ok m = (case allocs m of [] \<Rightarrow> (True, m) | b # bs \<Rightarrow> (b, m\<lparr>allocs := bs\<rparr>))"

definition resp_deref :: "('c, 'r, 'x) gcip_mailbox \<Rightarrow> nat option \<Rightarrow> 'r option" where
  "resp_deref m p = do { a \<leftarrow> p; resps m a }"

definition upd_awaiter ::
  "nat \<Rightarrow> (gcip_mailbox_resp_awaiter \<Rightarrow> gcip_mailbox_resp_awaiter) \<Rightarrow> ('c, 'r, 'x) gcip_mailbox
     \<Rightarrow> ('c, 'r, 'x) gcip_mailbox option" where
  "upd_awaiter a f m = do { w \<leftarrow> awaiters m a; Some (m\<lparr>awaiters := (awaiters m)(a \<mapsto> f w)\<rparr>) }"

definition kfree_awaiter :: "nat \<Rightarrow> ('c, 'r, 'x) gcip_mailbox \<Rightarrow> ('c, 'r, 'x) gcip_mailbox" where
  "kfree_awaiter a m = m\<lparr>awaiters := (awaiters m)(a := None), async_resps := (async_resps m)(a := None)\<rparr>"

section \<open>Awaiters\<close>

text \<open>An awaiter starts with its response wrapper: both have the same address.\<close>

definition gcip_mailbox_awaiter_create ::
  "nat option \<Rightarrow> nat \<Rightarrow> ('c, 'r, 'x) gcip_mailbox \<Rightarrow> (int + nat) \<times> ('c, 'r, 'x) gcip_mailbox" where
  "gcip_mailbox_awaiter_create resp data m =
     (case kmalloc_ok m of (ok, m) \<Rightarrow>
       if \<not> ok then (Inl (- ENOMEM), m)
       else (let a = next_addr m in
         (Inr a, m\<lparr>awaiters := (awaiters m)(a \<mapsto>
                     \<lparr>timeout_work = Work_Idle, aw_data = data, kref = 1, handled = False\<rparr>),
                   async_resps := (async_resps m)(a \<mapsto> \<lparr>waiting = False, resp_ptr = resp\<rparr>),
                   next_addr := Suc a\<rparr>)))"

definition gcip_mailbox_awaiter_destroy ::
  "('c, 'r, 'x) gcip_mailbox_ops \<Rightarrow> nat \<Rightarrow> ('c, 'r, 'x) gcip_mailbox \<Rightarrow> ('c, 'r, 'x) gcip_mailbox option" where
  "gcip_mailbox_awaiter_destroy ops a m = do {
     w \<leftarrow> awaiters m a;
     m \<leftarrow> (case release_awaiter_data ops of None \<Rightarrow> Some m | Some f \<Rightarrow> f (aw_data w) m);
     Some (kfree_awaiter a m) }"

definition gcip_mailbox_awaiter_get ::
  "nat \<Rightarrow> ('c, 'r, 'x) gcip_mailbox \<Rightarrow> ('c, 'r, 'x) gcip_mailbox option" where
  "gcip_mailbox_awaiter_get a m = upd_awaiter a (\<lambda>w. w\<lparr>kref := kref w + 1\<rparr>) m"

definition gcip_mailbox_awaiter_put ::
  "('c, 'r, 'x) gcip_mailbox_ops \<Rightarrow> nat \<Rightarrow> ('c, 'r, 'x) gcip_mailbox \<Rightarrow> ('c, 'r, 'x) gcip_mailbox option" where
  "gcip_mailbox_awaiter_put ops a m = do {
     w \<leftarrow> awaiters m a;
     if kref w = 0 then None
     else do {
       m \<leftarrow> upd_awaiter a (\<lambda>w. w\<lparr>kref := kref w - 1\<rparr>) m;
       if kref w = 1 then gcip_mailbox_awaiter_destroy ops a m else Some m } }"

definition complete_handled ::
  "nat \<Rightarrow> ('c, 'r, 'x) gcip_mailbox \<Rightarrow> ('c, 'r, 'x) gcip_mailbox option" where
  "complete_handled a m = upd_awaiter a (\<lambda>w. w\<lparr>handled := True\<rparr>) m"

definition gcip_mailbox_cancel_timeout_work ::
  "('c, 'r, 'x) gcip_mailbox_ops \<Rightarrow> nat \<Rightarrow> ('c, 'r, 'x) gcip_mailbox \<Rightarrow> ('c, 'r, 'x) gcip_mailbox option" where
  "gcip_mailbox_cancel_timeout_work ops a m = do {
     w \<leftarrow> awaiters m a;
     if timeout_work w = Work_Pending then do {
       m \<leftarrow> upd_awaiter a (\<lambda>w. w\<lparr>timeout_work := Work_Idle\<rparr>) m;
       gcip_mailbox_awaiter_put ops a m }
     else Some m }"

text \<open>The synchronous variant waits for a running handler, here by having no result until it ended.\<close>

definition gcip_mailbox_cancel_timeout_work_sync ::
  "('c, 'r, 'x) gcip_mailbox_ops \<Rightarrow> nat \<Rightarrow> ('c, 'r, 'x) gcip_mailbox \<Rightarrow> ('c, 'r, 'x) gcip_mailbox option" where
  "gcip_mailbox_cancel_timeout_work_sync ops a m = do {
     w \<leftarrow> awaiters m a;
     if timeout_work w = Work_Running then None
     else gcip_mailbox_cancel_timeout_work ops a m }"

section \<open>The wait list\<close>

text \<open>The operator \<open>does_response_match_waiter\<close> and the function of that name that falls back on the sequence numbers.\<close>

definition response_match ::
  "('c, 'r, 'x) gcip_mailbox_ops \<Rightarrow> 'r \<Rightarrow> 'r \<Rightarrow> bool option" where
  "response_match ops incoming_resp waiting_resp =
     (case does_response_match_waiter ops of
        Some f \<Rightarrow> Some (f incoming_resp waiting_resp)
      | None \<Rightarrow> do {
          seq \<leftarrow> get_resp_elem_seq ops;
          Some (seq incoming_resp = seq waiting_resp) })"

text \<open>The first element that satisfies a test, and the list without it.\<close>

fun wait_list_find :: "('e \<Rightarrow> bool option) \<Rightarrow> 'e list \<Rightarrow> ('e \<times> 'e list) option option" where
  "wait_list_find p [] = Some None"
| "wait_list_find p (cur # rest) = do {
     b \<leftarrow> p cur;
     if b then Some (Some (cur, rest))
     else do { r \<leftarrow> wait_list_find p rest; Some (map_option (\<lambda>(e, es). (e, cur # es)) r) } }"

definition waiter_matches ::
  "('c, 'r, 'x) gcip_mailbox_ops \<Rightarrow> ('c, 'r, 'x) gcip_mailbox \<Rightarrow> 'r option \<Rightarrow> gcip_mailbox_wait_list_elem \<Rightarrow> bool option" where
  "waiter_matches ops m incoming cur = do {
     r \<leftarrow> incoming;
     y \<leftarrow> async_resps m (wl_async_resp cur);
     w \<leftarrow> resp_deref m (resp_ptr y);
     response_match ops r w }"

definition gcip_mailbox_del_wait_resp ::
  "('c, 'r, 'x) gcip_mailbox_ops \<Rightarrow> nat \<Rightarrow> ('c, 'r, 'x) gcip_mailbox \<Rightarrow> (bool \<times> ('c, 'r, 'x) gcip_mailbox) option" where
  "gcip_mailbox_del_wait_resp ops async_resp m = do {
     x \<leftarrow> async_resps m async_resp;
     waiters \<leftarrow> wait_list m;
     found \<leftarrow> wait_list_find (waiter_matches ops m (resp_deref m (resp_ptr x))) waiters;
     case found of
       None \<Rightarrow> Some (False, m)
     | Some (cur, rest) \<Rightarrow> do {
         m \<leftarrow> (case wl_awaiter cur of
                None \<Rightarrow> Some (m\<lparr>wait_list := Some rest\<rparr>)
              | Some a \<Rightarrow> gcip_mailbox_awaiter_put ops a (m\<lparr>wait_list := Some rest\<rparr>));
         Some (True, m) } }"

definition gcip_mailbox_push_wait_resp ::
  "('c, 'r, 'x) gcip_mailbox_ops \<Rightarrow> nat \<Rightarrow> nat option \<Rightarrow> ('c, 'r, 'x) gcip_mailbox
     \<Rightarrow> (int \<times> ('c, 'r, 'x) gcip_mailbox) option" where
  "gcip_mailbox_push_wait_resp ops async_resp awaiter m = do {
     (ok, m) \<leftarrow> Some (kmalloc_ok m);
     if \<not> ok then Some (- ENOMEM, m)
     else do {
       x \<leftarrow> async_resps m async_resp;
       (ret, m) \<leftarrow> (case before_enqueue_wait_list ops of
                      None \<Rightarrow> Some (0, m)
                    | Some f \<Rightarrow> f (resp_ptr x) awaiter m);
       if ret \<noteq> 0 then Some (ret, m)
       else do {
         m \<leftarrow> (case awaiter of None \<Rightarrow> Some m | Some a \<Rightarrow> gcip_mailbox_awaiter_get a m);
         waiters \<leftarrow> wait_list m;
         Some (0, m\<lparr>wait_list := Some (waiters @ [\<lparr>wl_async_resp = async_resp, wl_awaiter = awaiter\<rparr>])\<rparr>) } } }"

section \<open>Sending a command\<close>

definition GCIP_MAILBOX_MODE_TX_CMD :: u8 where "GCIP_MAILBOX_MODE_TX_CMD = 1"
definition GCIP_MAILBOX_MODE_RX_RSP :: u8 where "GCIP_MAILBOX_MODE_RX_RSP = 2"
definition GCIP_MAILBOX_MODE_RX_CMD :: u8 where "GCIP_MAILBOX_MODE_RX_CMD = 4"
definition GCIP_MAILBOX_MODE_TX_RSP :: u8 where "GCIP_MAILBOX_MODE_TX_RSP = 8"
definition GCIP_MAILBOX_MODE_SEQ_EXTERNAL :: u8 where "GCIP_MAILBOX_MODE_SEQ_EXTERNAL = 16"
definition GCIP_MAILBOX_MODE_BIDIRECTIONAL :: u8 where "GCIP_MAILBOX_MODE_BIDIRECTIONAL = 15"
definition GCIP_MAILBOX_CMD_FLAGS_NO_TIMEOUT :: u32 where "GCIP_MAILBOX_CMD_FLAGS_NO_TIMEOUT = 2"

definition has_mode :: "u8 \<Rightarrow> u8 \<Rightarrow> bool" where
  "has_mode mode flag \<longleftrightarrow> mode AND flag \<noteq> 0"

definition should_maintain_seq_num :: "u8 \<Rightarrow> bool" where
  "should_maintain_seq_num mode \<longleftrightarrow>
     \<not> has_mode mode GCIP_MAILBOX_MODE_SEQ_EXTERNAL \<and>
     has_mode mode GCIP_MAILBOX_MODE_TX_CMD \<and> has_mode mode GCIP_MAILBOX_MODE_RX_RSP"

text \<open>
  The three stages of \<open>gcip_mailbox_enqueue_cmd\<close> between taking and releasing the lock of the
  queue: registering the waiter, storing the command, and the command's number.
\<close>

definition enqueue_waiter ::
  "('c, 'r, 'x) gcip_mailbox_ops \<Rightarrow> 'c \<Rightarrow> nat \<Rightarrow> nat option \<Rightarrow> ('c, 'r, 'x) gcip_mailbox
     \<Rightarrow> (int \<times> ('c, 'r, 'x) gcip_mailbox) option" where
  "enqueue_waiter ops cmd async_resp awaiter m = do {
     x \<leftarrow> async_resps m async_resp;
     case resp_ptr x of
       None \<Rightarrow> Some (0, m)
     | Some p \<Rightarrow> do {
         r \<leftarrow> resps m p;
         get_seq \<leftarrow> get_cmd_elem_seq ops;
         set_seq \<leftarrow> set_resp_elem_seq ops;
         gcip_mailbox_push_wait_resp ops async_resp awaiter
           (m\<lparr>resps := (resps m)(p \<mapsto> set_seq (get_seq cmd) r),
              async_resps := (async_resps m)(async_resp \<mapsto> x\<lparr>waiting := True\<rparr>)\<rparr>) } }"

definition enqueue_store ::
  "('c, 'r, 'x) gcip_mailbox_ops \<Rightarrow> 'c \<Rightarrow> ('c, 'r, 'x) gcip_mailbox \<Rightarrow> (int \<times> ('c, 'r, 'x) gcip_mailbox) option" where
  "enqueue_store ops cmd m = do {
     get_tail \<leftarrow> get_tx_queue_tail ops;
     tail \<leftarrow> get_tail m;
     let idx = unat (CIRC_QUEUE_REAL_INDEX (ucast tail) (queue_wrap_bit m));
     if idx < length (tx_queue m) then do {
       inc_tail \<leftarrow> inc_tx_queue_tail ops;
       m \<leftarrow> inc_tail 1 (m\<lparr>tx_queue := (tx_queue m)[idx := cmd]\<rparr>);
       (ret, m) \<leftarrow> (case after_enqueue_cmd ops of None \<Rightarrow> Some (0, m) | Some f \<Rightarrow> f cmd m);
       if ret \<noteq> 0 then Some (ret, m)
       else Some (0, if should_maintain_seq_num (mb_mode m) then m\<lparr>cur_seq := cur_seq m + 1\<rparr> else m) }
     else None }"

definition gcip_mailbox_enqueue_cmd ::
  "('c, 'r, 'x) gcip_mailbox_ops \<Rightarrow> 'c \<Rightarrow> nat \<Rightarrow> nat option \<Rightarrow> ('c, 'r, 'x) gcip_mailbox
     \<Rightarrow> (int \<times> 'c \<times> ('c, 'r, 'x) gcip_mailbox) option" where
  "gcip_mailbox_enqueue_cmd ops cmd async_resp awaiter m = do {
     lock \<leftarrow> acquire_tx_queue_lock ops;
     (_, _, m) \<leftarrow> lock False False m;
     cmd \<leftarrow> (if should_maintain_seq_num (mb_mode m)
             then do { set_seq \<leftarrow> set_cmd_elem_seq ops; Some (set_seq (cur_seq m) cmd) }
             else Some cmd);
     wait_not_full \<leftarrow> wait_for_tx_queue_not_full ops;
     (ret, m) \<leftarrow> wait_not_full m;
     (ret, m) \<leftarrow> (if ret \<noteq> 0 then Some (ret, m) else enqueue_waiter ops cmd async_resp awaiter m);
     (ret, m) \<leftarrow> (if ret \<noteq> 0 then Some (ret, m) else enqueue_store ops cmd m);
     unlock \<leftarrow> release_tx_queue_lock ops;
     Some (ret, cmd, unlock m) }"

text \<open>
  Waiting for the response lets the rest of the system run: \<open>wait\<close> is what it does to the
  mailbox until the sender is woken or its time is over. The wrapper of the response is on the
  stack of the sender and disappears when it returns.
\<close>

definition gcip_mailbox_send_cmd ::
  "('c, 'r, 'x) gcip_mailbox_ops \<Rightarrow> (nat \<Rightarrow> ('c, 'r, 'x) gcip_mailbox \<Rightarrow> ('c, 'r, 'x) gcip_mailbox option)
     \<Rightarrow> 'c \<Rightarrow> nat option \<Rightarrow> ('c, 'r, 'x) gcip_mailbox \<Rightarrow> (int \<times> 'c \<times> ('c, 'r, 'x) gcip_mailbox) option" where
  "gcip_mailbox_send_cmd ops wait cmd resp m = do {
     let a = next_addr m;
     let m = m\<lparr>async_resps := (async_resps m)(a \<mapsto> \<lparr>waiting = False, resp_ptr = resp\<rparr>), next_addr := Suc a\<rparr>;
     (ret, cmd, m) \<leftarrow> gcip_mailbox_enqueue_cmd ops cmd a None m;
     (ret, m) \<leftarrow>
       (if ret \<noteq> 0 \<or> resp = None then Some (ret, m)
        else do {
          m \<leftarrow> wait a m;
          x \<leftarrow> async_resps m a;
          if \<not> waiting x then Some (0, m)
          else do {
            (_, m) \<leftarrow> gcip_mailbox_del_wait_resp ops a m;
            Some (- ETIMEDOUT, m) } });
     let m = (if ret = 0 then m else case on_error ops of None \<Rightarrow> m | Some f \<Rightarrow> f ret m);
     Some (ret, cmd, m\<lparr>async_resps := (async_resps m)(a := None)\<rparr>) }"

definition gcip_mailbox_put_cmd_flags ::
  "('c, 'r, 'x) gcip_mailbox_ops \<Rightarrow> 'c \<Rightarrow> nat option \<Rightarrow> nat \<Rightarrow> u32 \<Rightarrow> ('c, 'r, 'x) gcip_mailbox
     \<Rightarrow> ((int + nat) \<times> 'c \<times> ('c, 'r, 'x) gcip_mailbox) option" where
  "gcip_mailbox_put_cmd_flags ops cmd resp data flags m =
     (case gcip_mailbox_awaiter_create resp data m of
        (Inl e, m) \<Rightarrow> Some (Inl e, cmd, m)
      | (Inr a, m) \<Rightarrow> do {
          m \<leftarrow> (if flags AND GCIP_MAILBOX_CMD_FLAGS_NO_TIMEOUT = 0
                then do {
                  m \<leftarrow> gcip_mailbox_awaiter_get a m;
                  upd_awaiter a (\<lambda>w. w\<lparr>timeout_work := Work_Pending\<rparr>) m }
                else Some m);
          (ret, cmd, m) \<leftarrow> gcip_mailbox_enqueue_cmd ops cmd a (Some a) m;
          if ret = 0 then Some (Inr a, cmd, m)
          else do {
            m \<leftarrow> gcip_mailbox_cancel_timeout_work_sync ops a m;
            Some (Inl ret, cmd, kfree_awaiter a m) } })"

definition gcip_mailbox_put_cmd ::
  "('c, 'r, 'x) gcip_mailbox_ops \<Rightarrow> 'c \<Rightarrow> nat option \<Rightarrow> nat \<Rightarrow> ('c, 'r, 'x) gcip_mailbox
     \<Rightarrow> ((int + nat) \<times> 'c \<times> ('c, 'r, 'x) gcip_mailbox) option" where
  "gcip_mailbox_put_cmd ops cmd resp data m = gcip_mailbox_put_cmd_flags ops cmd resp data 0 m"

section \<open>Receiving responses\<close>

text \<open>
  The section of \<open>gcip_mailbox_handle_response\<close> under the lock of the wait list: the waiter that
  takes the response leaves the list, and its awaiter, if any, is returned with the reference
  the list held. What follows without the lock is a second definition.
\<close>

definition handle_response_locked ::
  "('c, 'r, 'x) gcip_mailbox_ops \<Rightarrow> 'r \<Rightarrow> ('c, 'r, 'x) gcip_mailbox
     \<Rightarrow> (nat option \<times> ('c, 'r, 'x) gcip_mailbox) option" where
  "handle_response_locked ops resp m = do {
     waiters \<leftarrow> wait_list m;
     found \<leftarrow> wait_list_find (waiter_matches ops m (Some resp)) waiters;
     case found of
       None \<Rightarrow> Some (None, m)
     | Some (cur, rest) \<Rightarrow> do {
         y \<leftarrow> async_resps m (wl_async_resp cur);
         p \<leftarrow> resp_ptr y;
         Some (wl_awaiter cur,
           m\<lparr>resps := (resps m)(p \<mapsto> resp),
             async_resps := (async_resps m)(wl_async_resp cur \<mapsto> y\<lparr>waiting := False\<rparr>),
             wait_list := Some rest\<rparr>) } }"

definition handle_response_awaiter ::
  "('c, 'r, 'x) gcip_mailbox_ops \<Rightarrow> nat \<Rightarrow> ('c, 'r, 'x) gcip_mailbox \<Rightarrow> ('c, 'r, 'x) gcip_mailbox option" where
  "handle_response_awaiter ops a m = do {
     m \<leftarrow> gcip_mailbox_cancel_timeout_work ops a m;
     m \<leftarrow> (case handle_awaiter_arrived ops of None \<Rightarrow> Some m | Some f \<Rightarrow> f a m);
     m \<leftarrow> complete_handled a m;
     gcip_mailbox_awaiter_put ops a m }"

definition gcip_mailbox_handle_response ::
  "('c, 'r, 'x) gcip_mailbox_ops \<Rightarrow> 'r \<Rightarrow> ('c, 'r, 'x) gcip_mailbox \<Rightarrow> ('c, 'r, 'x) gcip_mailbox option" where
  "gcip_mailbox_handle_response ops resp m = do {
     (awaiter, m) \<leftarrow> handle_response_locked ops resp m;
     case awaiter of None \<Rightarrow> Some m | Some a \<Rightarrow> handle_response_awaiter ops a m }"

definition gcip_mailbox_handle_rx_elem ::
  "('c, 'r, 'x) gcip_mailbox_ops \<Rightarrow> 'r \<Rightarrow> ('c, 'r, 'x) gcip_mailbox \<Rightarrow> ('c, 'r, 'x) gcip_mailbox option" where
  "gcip_mailbox_handle_rx_elem ops elem m =
     (if (case is_rx_elem_reversed ops of
            Some f \<Rightarrow> f elem
          | None \<Rightarrow> has_mode (mb_mode m) GCIP_MAILBOX_MODE_RX_CMD)
      then do { f \<leftarrow> handle_reversed_command ops; (_, m) \<leftarrow> f elem m; Some m }
      else gcip_mailbox_handle_response ops elem m)"

definition IS_BLOCK_OFF :: "('c, 'r, 'x) gcip_mailbox_ops \<Rightarrow> ('c, 'r, 'x) gcip_mailbox \<Rightarrow> bool" where
  "IS_BLOCK_OFF ops m = (case is_block_off ops of None \<Rightarrow> False | Some f \<Rightarrow> f m)"

text \<open>The copy of \<open>count\<close> elements of the receive queue from position \<open>j\<close> on.\<close>

fun copy_responses :: "'r list \<Rightarrow> nat \<Rightarrow> nat \<Rightarrow> nat \<Rightarrow> 'r list option" where
  "copy_responses q sz j 0 = Some []"
| "copy_responses q sz j (Suc count) =
     (if j < length q then do { rs \<leftarrow> copy_responses q sz ((j + 1) mod sz) count; Some (q ! j # rs) } else None)"

text \<open>
  The loop reads the tail again after every copy. Its result is the elements copied so far; with
  no memory it stops with those, whether the array is the one before or the error pointer.
\<close>

partial_function (option) fetch_loop ::
  "('c, 'r, 'x) gcip_mailbox_ops \<Rightarrow> u32 \<Rightarrow> u32 \<Rightarrow> u32 \<Rightarrow> 'r list \<Rightarrow> ('c, 'r, 'x) gcip_mailbox
     \<Rightarrow> ('r list \<times> ('c, 'r, 'x) gcip_mailbox) option" where
  "fetch_loop ops sz wrap_bit head fetched m = do {
     read_tail \<leftarrow> get_rx_queue_tail ops;
     (tail, m) \<leftarrow> read_tail m;
     if tail AND NOT (CIRC_QUEUE_VALID_MASK wrap_bit) \<noteq> 0 \<or> CIRC_QUEUE_REAL_INDEX tail wrap_bit \<ge> sz
     then Some (fetched, m)
     else do {
       let count = gcip_circ_queue_cnt head tail sz wrap_bit;
       if count = 0 then Some (fetched, m)
       else if \<not> fst (kmalloc_ok m) then Some (fetched, snd (kmalloc_ok m))
       else do {
         let m = snd (kmalloc_ok m);
         rs \<leftarrow> copy_responses (rx_queue m) (unat sz) (unat (CIRC_QUEUE_REAL_INDEX head wrap_bit)) (unat count);
         fetch_loop ops sz wrap_bit (gcip_circ_queue_inc head count sz wrap_bit) (fetched @ rs) m } } }"

definition gcip_mailbox_fetch_responses ::
  "('c, 'r, 'x) gcip_mailbox_ops \<Rightarrow> bool \<Rightarrow> ('c, 'r, 'x) gcip_mailbox
     \<Rightarrow> ('r list \<times> ('c, 'r, 'x) gcip_mailbox) option" where
  "gcip_mailbox_fetch_responses ops trylock m = do {
     get_size \<leftarrow> get_rx_queue_size ops;
     sz \<leftarrow> get_size m;
     if IS_BLOCK_OFF ops m then Some ([], m)
     else do {
       lock \<leftarrow> acquire_rx_queue_lock ops;
       (got, _, m) \<leftarrow> lock trylock False m;
       if got = 0 then Some ([], m)
       else do {
         get_head \<leftarrow> get_rx_queue_head ops;
         head \<leftarrow> get_head m;
         (fetched, m) \<leftarrow> fetch_loop ops sz (ucast (queue_wrap_bit m)) head [] m;
         inc_head \<leftarrow> inc_rx_queue_head ops;
         m \<leftarrow> inc_head (word_of_nat (length fetched)) m;
         unlock \<leftarrow> release_rx_queue_lock ops;
         m \<leftarrow> (case after_fetch_resps ops of
                None \<Rightarrow> Some (unlock m)
              | Some f \<Rightarrow> f (word_of_nat (length fetched)) (unlock m));
         Some (fetched, m) } } }"

definition gcip_mailbox_fetch_one_response ::
  "('c, 'r, 'x) gcip_mailbox_ops \<Rightarrow> ('c, 'r, 'x) gcip_mailbox
     \<Rightarrow> ('r option \<times> ('c, 'r, 'x) gcip_mailbox) option" where
  "gcip_mailbox_fetch_one_response ops m =
     (if IS_BLOCK_OFF ops m then Some (None, m)
     else do {
       lock \<leftarrow> acquire_rx_queue_lock ops;
       (got, _, m) \<leftarrow> lock True False m;
       if got = 0 then Some (None, m)
       else do {
         get_head \<leftarrow> get_rx_queue_head ops;
         head \<leftarrow> get_head m;
         read_tail \<leftarrow> get_rx_queue_tail ops;
         (tail, m) \<leftarrow> read_tail m;
         unlock \<leftarrow> release_rx_queue_lock ops;
         if head = tail then Some (None, unlock m)
         else do {
           let j = unat (CIRC_QUEUE_REAL_INDEX (ucast head) (queue_wrap_bit m));
           if j < length (rx_queue m) then do {
             let resp = rx_queue m ! j;
             inc_head \<leftarrow> inc_rx_queue_head ops;
             m \<leftarrow> inc_head 1 m;
             m \<leftarrow> (case after_fetch_resps ops of None \<Rightarrow> Some (unlock m) | Some f \<Rightarrow> f 1 (unlock m));
             Some (Some resp, m) }
           else None } } })"

fun handle_rx_elems ::
  "('c, 'r, 'x) gcip_mailbox_ops \<Rightarrow> 'r list \<Rightarrow> ('c, 'r, 'x) gcip_mailbox \<Rightarrow> ('c, 'r, 'x) gcip_mailbox option" where
  "handle_rx_elems ops [] m = Some m"
| "handle_rx_elems ops (r # rs) m = do { m \<leftarrow> gcip_mailbox_handle_rx_elem ops r m; handle_rx_elems ops rs m }"

definition gcip_mailbox_do_consume_responses ::
  "('c, 'r, 'x) gcip_mailbox_ops \<Rightarrow> bool \<Rightarrow> ('c, 'r, 'x) gcip_mailbox \<Rightarrow> ('c, 'r, 'x) gcip_mailbox option" where
  "gcip_mailbox_do_consume_responses ops trylock m = do {
     (responses, m) \<leftarrow> gcip_mailbox_fetch_responses ops trylock m;
     handle_rx_elems ops responses m }"

definition gcip_mailbox_consume_responses_work ::
  "('c, 'r, 'x) gcip_mailbox_ops \<Rightarrow> ('c, 'r, 'x) gcip_mailbox \<Rightarrow> ('c, 'r, 'x) gcip_mailbox option" where
  "gcip_mailbox_consume_responses_work ops m = gcip_mailbox_do_consume_responses ops True m"

definition gcip_mailbox_consume_responses ::
  "('c, 'r, 'x) gcip_mailbox_ops \<Rightarrow> ('c, 'r, 'x) gcip_mailbox \<Rightarrow> ('c, 'r, 'x) gcip_mailbox option" where
  "gcip_mailbox_consume_responses ops m = gcip_mailbox_do_consume_responses ops False m"

definition gcip_mailbox_consume_one_response ::
  "('c, 'r, 'x) gcip_mailbox_ops \<Rightarrow> ('c, 'r, 'x) gcip_mailbox \<Rightarrow> ('c, 'r, 'x) gcip_mailbox option" where
  "gcip_mailbox_consume_one_response ops m = do {
     (resp, m) \<leftarrow> gcip_mailbox_fetch_one_response ops m;
     case resp of None \<Rightarrow> Some m | Some r \<Rightarrow> gcip_mailbox_handle_rx_elem ops r m }"

section \<open>Timeouts, cancellation and release\<close>

text \<open>What the handler of a timeout does after it took the awaiter off the list, and the whole handler.\<close>

definition timeout_work_rest ::
  "('c, 'r, 'x) gcip_mailbox_ops \<Rightarrow> nat \<Rightarrow> bool \<Rightarrow> ('c, 'r, 'x) gcip_mailbox \<Rightarrow> ('c, 'r, 'x) gcip_mailbox option" where
  "timeout_work_rest ops a removed m = do {
     m \<leftarrow> (if removed
           then do {
             m \<leftarrow> (case handle_awaiter_timedout ops of None \<Rightarrow> Some m | Some f \<Rightarrow> f a m);
             complete_handled a m }
           else Some m);
     m \<leftarrow> upd_awaiter a (\<lambda>w. w\<lparr>timeout_work := Work_Idle\<rparr>) m;
     gcip_mailbox_awaiter_put ops a m }"

definition gcip_mailbox_async_cmd_timeout_work ::
  "('c, 'r, 'x) gcip_mailbox_ops \<Rightarrow> nat \<Rightarrow> ('c, 'r, 'x) gcip_mailbox \<Rightarrow> ('c, 'r, 'x) gcip_mailbox option" where
  "gcip_mailbox_async_cmd_timeout_work ops a m = do {
     (removed, m) \<leftarrow> gcip_mailbox_del_wait_resp ops a m;
     timeout_work_rest ops a removed m }"

text \<open>\<open>wait\<close> is what the rest of the system does until the completion is signalled.\<close>

definition gcip_mailbox_cancel_awaiter ::
  "('c, 'r, 'x) gcip_mailbox_ops \<Rightarrow> (('c, 'r, 'x) gcip_mailbox \<Rightarrow> ('c, 'r, 'x) gcip_mailbox option) \<Rightarrow> nat
     \<Rightarrow> ('c, 'r, 'x) gcip_mailbox \<Rightarrow> (bool \<times> ('c, 'r, 'x) gcip_mailbox) option" where
  "gcip_mailbox_cancel_awaiter ops wait a m = do {
     m \<leftarrow> gcip_mailbox_cancel_timeout_work ops a m;
     (removed, m) \<leftarrow> gcip_mailbox_del_wait_resp ops a m;
     if removed then Some (True, m)
     else do {
       m \<leftarrow> wait m;
       w \<leftarrow> awaiters m a;
       if handled w then Some (False, m) else None } }"

definition flush_one ::
  "('c, 'r, 'x) gcip_mailbox_ops \<Rightarrow> gcip_mailbox_wait_list_elem \<Rightarrow> ('c, 'r, 'x) gcip_mailbox
     \<Rightarrow> ('c, 'r, 'x) gcip_mailbox option" where
  "flush_one ops cur m =
     (case wl_awaiter cur of
        None \<Rightarrow> Some m
      | Some a \<Rightarrow> do {
          m \<leftarrow> gcip_mailbox_awaiter_put ops a m;
          m \<leftarrow> gcip_mailbox_cancel_timeout_work_sync ops a m;
          case handle_awaiter_flushed ops of
            Some f \<Rightarrow> f a m
          | None \<Rightarrow> gcip_mailbox_awaiter_put ops a m })"

fun flush_list ::
  "('c, 'r, 'x) gcip_mailbox_ops \<Rightarrow> gcip_mailbox_wait_list_elem list \<Rightarrow> ('c, 'r, 'x) gcip_mailbox
     \<Rightarrow> ('c, 'r, 'x) gcip_mailbox option" where
  "flush_list ops [] m = Some m"
| "flush_list ops (cur # rest) m = do { m \<leftarrow> flush_one ops cur m; flush_list ops rest m }"

definition gcip_mailbox_cancel_awaiter_all ::
  "('c, 'r, 'x) gcip_mailbox_ops \<Rightarrow> ('c, 'r, 'x) gcip_mailbox \<Rightarrow> ('c, 'r, 'x) gcip_mailbox option" where
  "gcip_mailbox_cancel_awaiter_all ops m = do {
     cancel_list \<leftarrow> wait_list m;
     flush_list ops cancel_list (m\<lparr>wait_list := Some []\<rparr>) }"

definition gcip_mailbox_release ::
  "('c, 'r, 'x) gcip_mailbox_ops \<Rightarrow> ('c, 'r, 'x) gcip_mailbox \<Rightarrow> ('c, 'r, 'x) gcip_mailbox option" where
  "gcip_mailbox_release ops m = do {
     m \<leftarrow> gcip_mailbox_cancel_awaiter_all ops m;
     Some (m\<lparr>mb_ops_set := False\<rparr>) }"

section \<open>Set-up\<close>

definition gcip_mailbox_ops_verify :: "('c, 'r, 'x) gcip_mailbox_ops option \<Rightarrow> u8 \<Rightarrow> int" where
  "gcip_mailbox_ops_verify ops_ptr mode =
     (case ops_ptr of
        None \<Rightarrow> - EINVAL
      | Some ops \<Rightarrow>
          if (has_mode mode GCIP_MAILBOX_MODE_TX_CMD \<or> has_mode mode GCIP_MAILBOX_MODE_TX_RSP) \<and>
             (get_tx_queue_tail ops = None \<or> inc_tx_queue_tail ops = None \<or>
              acquire_tx_queue_lock ops = None \<or> release_tx_queue_lock ops = None \<or>
              wait_for_tx_queue_not_full ops = None)
          then - EINVAL
          else if (has_mode mode GCIP_MAILBOX_MODE_RX_RSP \<or> has_mode mode GCIP_MAILBOX_MODE_RX_CMD) \<and>
             (get_rx_queue_size ops = None \<or> get_rx_queue_head ops = None \<or> get_rx_queue_tail ops = None \<or>
              inc_rx_queue_head ops = None \<or> acquire_rx_queue_lock ops = None \<or>
              release_rx_queue_lock ops = None)
          then - EINVAL
          else if should_maintain_seq_num mode \<and>
             (get_cmd_elem_seq ops = None \<or> set_cmd_elem_seq ops = None \<or> get_resp_elem_seq ops = None \<or>
              set_resp_elem_seq ops = None)
          then - EINVAL
          else if has_mode mode GCIP_MAILBOX_MODE_RX_CMD \<and> handle_reversed_command ops = None then - EINVAL
          else if has_mode mode GCIP_MAILBOX_MODE_RX_RSP \<and> has_mode mode GCIP_MAILBOX_MODE_RX_CMD \<and>
             is_rx_elem_reversed ops = None
          then - EINVAL
          else 0)"

record ('c, 'r, 'x) gcip_mailbox_args =
  arg_mode :: u8
  arg_queue_wrap_bit :: u32
  arg_tx_queue :: "'c list"
  arg_tx_elem_size :: u32
  arg_rx_queue :: "'r list"
  arg_rx_elem_size :: u32
  arg_timeout :: u32
  arg_ops :: "('c, 'r, 'x) gcip_mailbox_ops option"
  arg_data :: 'x
  arg_wait_list_external :: "gcip_mailbox_wait_list_elem list option"

definition gcip_mailbox_init ::
  "('c, 'r, 'x) gcip_mailbox_args \<Rightarrow> ('c, 'r, 'x) gcip_mailbox \<Rightarrow> int \<times> ('c, 'r, 'x) gcip_mailbox" where
  "gcip_mailbox_init args m =
     (if arg_mode args = 0 then (- EINVAL, m)
      else if gcip_mailbox_ops_verify (arg_ops args) (arg_mode args) \<noteq> 0
      then (gcip_mailbox_ops_verify (arg_ops args) (arg_mode args), m)
      else (0, m\<lparr>mb_mode := arg_mode args, queue_wrap_bit := ucast (arg_queue_wrap_bit args),
                 tx_queue := arg_tx_queue args, tx_elem_size := arg_tx_elem_size args,
                 rx_queue := arg_rx_queue args, rx_elem_size := arg_rx_elem_size args,
                 mb_timeout := arg_timeout args, mb_ops_set := True, mb_data := arg_data args,
                 cur_seq := 0,
                 wait_list := Some (case arg_wait_list_external args of None \<Rightarrow> [] | Some l \<Rightarrow> l)\<rparr>))"

end
