(* ===== verification/Gcip_Waiters.thy ===== *)
theory Gcip_Waiters
  imports Gcip_Mailbox
begin

text \<open>
  The wait list of a mailbox whose responses are matched by a key, such as a sequence number: the
  locale \<open>keyed_ops\<close> states what the mailbox relies on, and the effect of a response and of a
  cancellation on the list follows once for all users of the mailbox.
\<close>

definition waiter_ptr :: "('c, 'r, 'x) gcip_mailbox \<Rightarrow> gcip_mailbox_wait_list_elem \<Rightarrow> nat option" where
  "waiter_ptr m e = do { x \<leftarrow> async_resps m (wl_async_resp e); resp_ptr x }"

definition waiter_resp :: "('c, 'r, 'x) gcip_mailbox \<Rightarrow> gcip_mailbox_wait_list_elem \<Rightarrow> 'r option" where
  "waiter_resp m e = do { p \<leftarrow> waiter_ptr m e; resps m p }"

text \<open>Every waiter's wrapper and buffer exist.\<close>

definition waiters_live :: "('c, 'r, 'x) gcip_mailbox \<Rightarrow> gcip_mailbox_wait_list_elem list \<Rightarrow> bool" where
  "waiters_live m l \<longleftrightarrow> (\<forall>e\<in>set l. waiter_resp m e \<noteq> None)"

text \<open>The waiter \<open>e\<close> waits for a response with key \<open>k\<close>.\<close>

definition waits_for :: "('r \<Rightarrow> 'k) \<Rightarrow> ('c, 'r, 'x) gcip_mailbox \<Rightarrow> 'k \<Rightarrow> gcip_mailbox_wait_list_elem \<Rightarrow> bool" where
  "waits_for key m k e \<longleftrightarrow> map_option key (waiter_resp m e) = Some k"

text \<open>The effect of handing the response \<open>r\<close> to the waiter \<open>e\<close>, the list becoming \<open>l\<close>.\<close>

definition deliver ::
  "'r \<Rightarrow> gcip_mailbox_wait_list_elem \<Rightarrow> gcip_mailbox_wait_list_elem list \<Rightarrow> ('c, 'r, 'x) gcip_mailbox
     \<Rightarrow> ('c, 'r, 'x) gcip_mailbox" where
  "deliver r e l m =
     m\<lparr>resps := (case waiter_ptr m e of None \<Rightarrow> resps m | Some p \<Rightarrow> (resps m)(p \<mapsto> r)),
       async_resps := (async_resps m)(wl_async_resp e := map_option (\<lambda>x. x\<lparr>waiting := False\<rparr>) (async_resps m (wl_async_resp e))),
       wait_list := Some l\<rparr>"

lemma waiter_resp_SomeD:
  assumes "waiter_resp m e = Some r"
  obtains x p where "async_resps m (wl_async_resp e) = Some x" "resp_ptr x = Some p" "resps m p = Some r"
  using assms by (auto simp: waiter_resp_def waiter_ptr_def bind_eq_Some_conv)

lemma wait_list_find_total:
  "(\<And>e. e \<in> set l \<Longrightarrow> p e = Some (P e)) \<Longrightarrow>
     wait_list_find p l = Some (map_option (\<lambda>e. (e, remove1 e l)) (find P l))"
proof (induction l)
  case (Cons a l)
  then show ?case
    by (cases "P a") (auto simp: option.map_comp comp_def find_Some_iff intro!: option.map_cong)
qed simp

lemma find_SomeD: "find P l = Some e \<Longrightarrow> e \<in> set l \<and> P e"
  by (auto simp: find_Some_iff)

lemma waiters_live_subset: "waiters_live m l \<Longrightarrow> set l' \<subseteq> set l \<Longrightarrow> waiters_live m l'"
  by (auto simp: waiters_live_def)

locale keyed_ops =
  fixes ops :: "('c, 'r, 'x) gcip_mailbox_ops"
    and key :: "'r \<Rightarrow> 'k"
  assumes match_key: "response_match ops r w = Some (key r = key w)"
begin

lemma waiter_matches_key:
  "waiter_resp m e = Some w \<Longrightarrow> waiter_matches ops m (Some r) e = Some (key r = key w)"
  by (auto simp: waiter_matches_def resp_deref_def match_key elim!: waiter_resp_SomeD)

lemma find_waiter:
  assumes "waiters_live m l"
  shows "wait_list_find (waiter_matches ops m (Some r)) l =
    Some (map_option (\<lambda>e. (e, remove1 e l)) (find (waits_for key m (key r)) l))"
  using assms by (intro wait_list_find_total) (fastforce simp: waiters_live_def waits_for_def waiter_matches_key)

lemma handle_response_spec:
  assumes "wait_list m = Some l" "waiters_live m l"
  shows "handle_response_locked ops r m =
    Some (case find (waits_for key m (key r)) l of
            None \<Rightarrow> (None, m)
          | Some e \<Rightarrow> (wl_awaiter e, deliver r e (remove1 e l) m))"
proof (cases "find (waits_for key m (key r)) l")
  case None
  then show ?thesis using assms find_waiter [OF assms(2)] by (simp add: handle_response_locked_def)
next
  case (Some e)
  then obtain w where "waiter_resp m e = Some w"
    using find_SomeD [OF Some] by (auto simp: waits_for_def)
  then show ?thesis using assms Some find_waiter [OF assms(2)]
    by (auto simp: handle_response_locked_def deliver_def waiter_ptr_def elim!: waiter_resp_SomeD)
qed

lemma del_wait_resp_spec:
  assumes "wait_list m = Some l" "waiters_live m l" "async_resps m a = Some x" "resp_deref m (resp_ptr x) = Some r"
  shows "gcip_mailbox_del_wait_resp ops a m =
    (case find (waits_for key m (key r)) l of
       None \<Rightarrow> Some (False, m)
     | Some e \<Rightarrow> map_option (Pair True)
         (case wl_awaiter e of
            None \<Rightarrow> Some (m\<lparr>wait_list := Some (remove1 e l)\<rparr>)
          | Some b \<Rightarrow> gcip_mailbox_awaiter_put ops b (m\<lparr>wait_list := Some (remove1 e l)\<rparr>)))"
  using assms(1,3,4) find_waiter [OF assms(2)]
  by (auto simp: gcip_mailbox_del_wait_resp_def map_option_case split: option.splits bind_splits)

end

end
