(* ===== verification/Gcip_Kci.thy ===== *)
theory Gcip_Kci
  imports Gcip_Mailbox
begin

text \<open>
  The kernel control interface on top of the mailbox,
  \<^verbatim>\<open>src/google-modules/edgetpu/rio/drivers/edgetpu/gcip-kernel-driver/drivers/gcip/gcip-kci.c\<close>:
  synchronous commands numbered by the driver, and requests of the firmware (reverse commands),
  which arrive in the response queue, go through a ring buffer and are handled by a worker. The
  interface fills the operator table of the mailbox; the chip below it is again a table of
  operators, over a chip state that the model leaves open.
\<close>

section \<open>Elements and state\<close>

definition GCIP_KCI_REVERSE_FLAG :: u64 where "GCIP_KCI_REVERSE_FLAG = 0x8000000000000000"

record gcip_kci_dma_descriptor =
  dma_address :: u64
  dma_size :: u32
  dma_flags :: u32

record gcip_kci_command_element =
  kc_seq :: u64
  kc_code :: u16
  kc_dma :: gcip_kci_dma_descriptor

record gcip_kci_response_element =
  kr_seq :: u64
  kr_code :: u16
  rkci_value1 :: u16
  kr_retval :: u32

datatype gcip_kci_doorbell_reason = GCIP_KCI_PUSH_CMD | GCIP_KCI_CONSUME_RESP

record gcip_reverse_kci =
  rkci_head :: u64
  rkci_tail :: u64
  rkci_buffer_size :: u32
  rkci_buffer :: "gcip_kci_response_element list option"
  rkci_work :: bool

record 'y gcip_kci =
  kci_cur_seq :: u64
  cmd_queue_lock :: bool
  resp_queue_lock :: bool
  kci_work :: bool
  rkci :: gcip_reverse_kci
  usage_work :: bool
  kci_ops_set :: bool
  kci_data :: 'y

type_synonym 'y kci_mailbox = "(gcip_kci_command_element, gcip_kci_response_element, 'y gcip_kci) gcip_mailbox"

text \<open>Registers that the firmware changes are read with a new state, as in the mailbox.\<close>

record 'y gcip_kci_ops =
  get_cmd_queue_head :: "('y kci_mailbox \<Rightarrow> u32 \<times> 'y kci_mailbox) option"
  get_cmd_queue_tail :: "('y kci_mailbox \<Rightarrow> u32) option"
  inc_cmd_queue_tail :: "(u32 \<Rightarrow> 'y kci_mailbox \<Rightarrow> 'y kci_mailbox) option"
  get_resp_queue_size :: "('y kci_mailbox \<Rightarrow> u32) option"
  get_resp_queue_head :: "('y kci_mailbox \<Rightarrow> u32) option"
  get_resp_queue_tail :: "('y kci_mailbox \<Rightarrow> u32 \<times> 'y kci_mailbox) option"
  inc_resp_queue_head :: "(u32 \<Rightarrow> 'y kci_mailbox \<Rightarrow> 'y kci_mailbox) option"
  trigger_doorbell :: "(gcip_kci_doorbell_reason \<Rightarrow> 'y kci_mailbox \<Rightarrow> 'y kci_mailbox) option"
  reverse_kci_handle_response :: "(gcip_kci_response_element \<Rightarrow> 'y kci_mailbox \<Rightarrow> 'y kci_mailbox) option"
  update_usage :: "('y kci_mailbox \<Rightarrow> 'y kci_mailbox) option"
  kci_is_block_off :: "('y kci_mailbox \<Rightarrow> bool) option"
  kci_on_error_op :: "(int \<Rightarrow> 'y kci_mailbox \<Rightarrow> 'y kci_mailbox) option"

definition upd_kci :: "('y gcip_kci \<Rightarrow> 'y gcip_kci) \<Rightarrow> 'y kci_mailbox \<Rightarrow> 'y kci_mailbox" where
  "upd_kci f m = m\<lparr>mb_data := f (mb_data m)\<rparr>"

section \<open>The operators of the mailbox\<close>

definition gcip_kci_get_cmd_queue_tail :: "'y gcip_kci_ops \<Rightarrow> 'y kci_mailbox \<Rightarrow> u32 option" where
  "gcip_kci_get_cmd_queue_tail kops m = do { f \<leftarrow> get_cmd_queue_tail kops; Some (f m) }"

definition gcip_kci_inc_cmd_queue_tail :: "'y gcip_kci_ops \<Rightarrow> u32 \<Rightarrow> 'y kci_mailbox \<Rightarrow> 'y kci_mailbox option" where
  "gcip_kci_inc_cmd_queue_tail kops inc m = do { f \<leftarrow> inc_cmd_queue_tail kops; Some (f inc m) }"

text \<open>Locking a lock that is held would wait without end, as nothing else runs meanwhile.\<close>

definition gcip_kci_acquire_cmd_queue_lock ::
  "bool \<Rightarrow> bool \<Rightarrow> 'y kci_mailbox \<Rightarrow> (int \<times> bool \<times> 'y kci_mailbox) option" where
  "gcip_kci_acquire_cmd_queue_lock try atomic m =
     (if cmd_queue_lock (mb_data m) then None
      else Some (1, atomic, upd_kci (\<lambda>k. k\<lparr>cmd_queue_lock := True\<rparr>) m))"

definition gcip_kci_release_cmd_queue_lock :: "'y kci_mailbox \<Rightarrow> 'y kci_mailbox" where
  "gcip_kci_release_cmd_queue_lock m = upd_kci (\<lambda>k. k\<lparr>cmd_queue_lock := False\<rparr>) m"

definition gcip_kci_get_cmd_elem_seq :: "gcip_kci_command_element \<Rightarrow> u64" where
  "gcip_kci_get_cmd_elem_seq cmd = kc_seq cmd"

definition gcip_kci_set_cmd_elem_seq :: "u64 \<Rightarrow> gcip_kci_command_element \<Rightarrow> gcip_kci_command_element" where
  "gcip_kci_set_cmd_elem_seq seq cmd = cmd\<lparr>kc_seq := seq\<rparr>"

definition gcip_kci_get_resp_queue_size :: "'y gcip_kci_ops \<Rightarrow> 'y kci_mailbox \<Rightarrow> u32 option" where
  "gcip_kci_get_resp_queue_size kops m = do { f \<leftarrow> get_resp_queue_size kops; Some (f m) }"

definition gcip_kci_get_resp_queue_head :: "'y gcip_kci_ops \<Rightarrow> 'y kci_mailbox \<Rightarrow> u32 option" where
  "gcip_kci_get_resp_queue_head kops m = do { f \<leftarrow> get_resp_queue_head kops; Some (f m) }"

definition gcip_kci_get_resp_queue_tail ::
  "'y gcip_kci_ops \<Rightarrow> 'y kci_mailbox \<Rightarrow> (u32 \<times> 'y kci_mailbox) option" where
  "gcip_kci_get_resp_queue_tail kops m = do { f \<leftarrow> get_resp_queue_tail kops; Some (f m) }"

definition gcip_kci_inc_resp_queue_head :: "'y gcip_kci_ops \<Rightarrow> u32 \<Rightarrow> 'y kci_mailbox \<Rightarrow> 'y kci_mailbox option" where
  "gcip_kci_inc_resp_queue_head kops inc m = do { f \<leftarrow> inc_resp_queue_head kops; Some (f inc m) }"

definition gcip_kci_acquire_resp_queue_lock ::
  "bool \<Rightarrow> bool \<Rightarrow> 'y kci_mailbox \<Rightarrow> (int \<times> bool \<times> 'y kci_mailbox) option" where
  "gcip_kci_acquire_resp_queue_lock try atomic m =
     (if resp_queue_lock (mb_data m) then (if try then Some (0, True, m) else None)
      else Some (1, True, upd_kci (\<lambda>k. k\<lparr>resp_queue_lock := True\<rparr>) m))"

definition gcip_kci_release_resp_queue_lock :: "'y kci_mailbox \<Rightarrow> 'y kci_mailbox" where
  "gcip_kci_release_resp_queue_lock m = upd_kci (\<lambda>k. k\<lparr>resp_queue_lock := False\<rparr>) m"

definition gcip_kci_get_resp_elem_seq :: "gcip_kci_response_element \<Rightarrow> u64" where
  "gcip_kci_get_resp_elem_seq resp = kr_seq resp"

definition gcip_kci_set_resp_elem_seq :: "u64 \<Rightarrow> gcip_kci_response_element \<Rightarrow> gcip_kci_response_element" where
  "gcip_kci_set_resp_elem_seq seq resp = resp\<lparr>kr_seq := seq\<rparr>"

text \<open>
  \<open>wait_event_timeout\<close> tests its condition at once and at every wake-up; \<open>polls\<close> is the number of
  wake-ups before the time is over.
\<close>

fun wait_event_timeout :: "nat \<Rightarrow> ('s \<Rightarrow> bool \<times> 's) \<Rightarrow> 's \<Rightarrow> bool \<times> 's" where
  "wait_event_timeout 0 cond s = cond s"
| "wait_event_timeout (Suc polls) cond s =
     (case cond s of (True, s') \<Rightarrow> (True, s') | (False, s') \<Rightarrow> wait_event_timeout polls cond s')"

definition gcip_kci_wait_for_cmd_queue_not_full ::
  "'y gcip_kci_ops \<Rightarrow> nat \<Rightarrow> 'y kci_mailbox \<Rightarrow> (int \<times> 'y kci_mailbox) option" where
  "gcip_kci_wait_for_cmd_queue_not_full kops polls m = do {
     get_tail \<leftarrow> get_cmd_queue_tail kops;
     get_head \<leftarrow> get_cmd_queue_head kops;
     let tail = get_tail m;
     (done, m) \<leftarrow> Some (wait_event_timeout polls
       (\<lambda>m. case get_head m of (head, m) \<Rightarrow> (ucast head \<noteq> (ucast tail XOR queue_wrap_bit m), m)) m);
     Some (if done then 0 else - ETIMEDOUT, m) }"

definition gcip_kci_after_enqueue_cmd ::
  "'y gcip_kci_ops \<Rightarrow> gcip_kci_command_element \<Rightarrow> 'y kci_mailbox \<Rightarrow> (int \<times> 'y kci_mailbox) option" where
  "gcip_kci_after_enqueue_cmd kops cmd m = do { f \<leftarrow> trigger_doorbell kops; Some (0, f GCIP_KCI_PUSH_CMD m) }"

definition gcip_kci_after_fetch_resps ::
  "'y gcip_kci_ops \<Rightarrow> u32 \<Rightarrow> 'y kci_mailbox \<Rightarrow> 'y kci_mailbox option" where
  "gcip_kci_after_fetch_resps kops num_resps m = do {
     get_size \<leftarrow> get_resp_queue_size kops;
     if num_resps \<ge> get_size m div 2
     then do { f \<leftarrow> trigger_doorbell kops; Some (f GCIP_KCI_CONSUME_RESP m) }
     else Some m }"

section \<open>Reverse commands\<close>

text \<open>The macros of \<open>linux/circ_buf.h\<close> at the width of the indices.\<close>

definition CIRC_CNT :: "u64 \<Rightarrow> u64 \<Rightarrow> u32 \<Rightarrow> u64" where
  "CIRC_CNT head tail sz = (head - tail) AND ucast (sz - 1)"

definition CIRC_SPACE :: "u64 \<Rightarrow> u64 \<Rightarrow> u32 \<Rightarrow> u64" where
  "CIRC_SPACE head tail sz = CIRC_CNT tail (head + 1) sz"

definition gcip_reverse_kci_add_resp ::
  "gcip_kci_response_element \<Rightarrow> gcip_reverse_kci \<Rightarrow> (int \<times> gcip_reverse_kci) option" where
  "gcip_reverse_kci_add_resp resp rk =
     (let head = rkci_head rk; tail = rkci_tail rk in
      if CIRC_SPACE head tail (rkci_buffer_size rk) \<ge> 1
      then do {
        buf \<leftarrow> rkci_buffer rk;
        if unat head < length buf
        then Some (0, rk\<lparr>rkci_buffer := Some (buf[unat head := resp]),
                         rkci_head := (head + 1) AND ucast (rkci_buffer_size rk - 1),
                         rkci_work := True\<rparr>)
        else None }
      else Some (- ENOSPC, rk))"

definition gcip_reverse_kci_remove_resp ::
  "gcip_reverse_kci \<Rightarrow> (gcip_kci_response_element option \<times> gcip_reverse_kci) option" where
  "gcip_reverse_kci_remove_resp rk =
     (let head = rkci_head rk; tail = rkci_tail rk in
      if CIRC_CNT head tail (rkci_buffer_size rk) \<ge> 1
      then do {
        buf \<leftarrow> rkci_buffer rk;
        if unat tail < length buf
        then Some (Some (buf ! unat tail), rk\<lparr>rkci_tail := (tail + 1) AND ucast (rkci_buffer_size rk - 1)\<rparr>)
        else None }
      else Some (None, rk))"

definition gcip_kci_is_rx_elem_reversed :: "gcip_kci_response_element \<Rightarrow> bool" where
  "gcip_kci_is_rx_elem_reversed elem \<longleftrightarrow> kr_seq elem AND GCIP_KCI_REVERSE_FLAG \<noteq> 0"

definition gcip_kci_handle_reversed_command ::
  "gcip_kci_response_element \<Rightarrow> 'y kci_mailbox \<Rightarrow> (int \<times> 'y kci_mailbox) option" where
  "gcip_kci_handle_reversed_command elem m = do {
     (ret, rk) \<leftarrow> gcip_reverse_kci_add_resp elem (rkci (mb_data m));
     Some (ret, upd_kci (\<lambda>k. k\<lparr>rkci := rk\<rparr>) m) }"

text \<open>
  The worker empties the buffer. The handler may let more requests arrive, so the loop may run
  without end.
\<close>

partial_function (option) gcip_reverse_kci_work ::
  "'y gcip_kci_ops \<Rightarrow> 'y kci_mailbox \<Rightarrow> 'y kci_mailbox option" where
  "gcip_reverse_kci_work kops m = do {
     (resp, rk) \<leftarrow> gcip_reverse_kci_remove_resp (rkci (mb_data m));
     let m = upd_kci (\<lambda>k. k\<lparr>rkci := rk\<rparr>) m;
     case resp of
       None \<Rightarrow> Some m
     | Some r \<Rightarrow> do {
         handle \<leftarrow> reverse_kci_handle_response kops;
         gcip_reverse_kci_work kops (handle r m) } }"

definition gcip_reverse_kci_init :: "bool \<Rightarrow> u32 \<Rightarrow> gcip_reverse_kci \<Rightarrow> int \<times> gcip_reverse_kci" where
  "gcip_reverse_kci_init alloc_ok buffer_size rk =
     (if rkci_buffer rk \<noteq> None then (0, rk)
      else (let rk = rk\<lparr>rkci_head := 0, rkci_tail := 0, rkci_buffer_size := buffer_size\<rparr> in
            if \<not> alloc_ok then (- ENOMEM, rk)
            else (0, rk\<lparr>rkci_buffer := Some (replicate (unat buffer_size)
                       \<lparr>kr_seq = 0, kr_code = 0, rkci_value1 = 0, kr_retval = 0\<rparr>),
                       rkci_work := False\<rparr>)))"

definition gcip_reverse_kci_reinit :: "gcip_reverse_kci \<Rightarrow> gcip_reverse_kci" where
  "gcip_reverse_kci_reinit rk = rk\<lparr>rkci_head := 0, rkci_tail := 0\<rparr>"

definition gcip_kci_is_block_off :: "'y gcip_kci_ops \<Rightarrow> 'y kci_mailbox \<Rightarrow> bool" where
  "gcip_kci_is_block_off kops m = (case kci_is_block_off kops of None \<Rightarrow> False | Some f \<Rightarrow> f m)"

definition gcip_kci_on_error :: "'y gcip_kci_ops \<Rightarrow> int \<Rightarrow> 'y kci_mailbox \<Rightarrow> 'y kci_mailbox" where
  "gcip_kci_on_error kops err m = (case kci_on_error_op kops of None \<Rightarrow> m | Some f \<Rightarrow> f err m)"

definition kci_mailbox_ops ::
  "'y gcip_kci_ops \<Rightarrow> nat \<Rightarrow> (gcip_kci_command_element, gcip_kci_response_element, 'y gcip_kci) gcip_mailbox_ops" where
  "kci_mailbox_ops kops polls = \<lparr>
     get_tx_queue_tail = Some (gcip_kci_get_cmd_queue_tail kops),
     inc_tx_queue_tail = Some (gcip_kci_inc_cmd_queue_tail kops),
     acquire_tx_queue_lock = Some gcip_kci_acquire_cmd_queue_lock,
     release_tx_queue_lock = Some gcip_kci_release_cmd_queue_lock,
     get_cmd_elem_seq = Some gcip_kci_get_cmd_elem_seq,
     set_cmd_elem_seq = Some gcip_kci_set_cmd_elem_seq,
     wait_for_tx_queue_not_full = Some (gcip_kci_wait_for_cmd_queue_not_full kops polls),
     get_rx_queue_size = Some (gcip_kci_get_resp_queue_size kops),
     get_rx_queue_head = Some (gcip_kci_get_resp_queue_head kops),
     get_rx_queue_tail = Some (gcip_kci_get_resp_queue_tail kops),
     inc_rx_queue_head = Some (gcip_kci_inc_resp_queue_head kops),
     acquire_rx_queue_lock = Some gcip_kci_acquire_resp_queue_lock,
     release_rx_queue_lock = Some gcip_kci_release_resp_queue_lock,
     get_resp_elem_seq = Some gcip_kci_get_resp_elem_seq,
     set_resp_elem_seq = Some gcip_kci_set_resp_elem_seq,
     is_rx_elem_reversed = Some gcip_kci_is_rx_elem_reversed,
     handle_reversed_command = Some gcip_kci_handle_reversed_command,
     before_enqueue_wait_list = None,
     after_enqueue_cmd = Some (gcip_kci_after_enqueue_cmd kops),
     after_fetch_resps = Some (gcip_kci_after_fetch_resps kops),
     handle_awaiter_arrived = None,
     handle_awaiter_timedout = None,
     handle_awaiter_flushed = None,
     release_awaiter_data = None,
     is_block_off = Some (gcip_kci_is_block_off kops),
     on_error = Some (gcip_kci_on_error kops),
     does_response_match_waiter = None\<rparr>"

section \<open>Commands\<close>

text \<open>
  \<open>resp\<close> is the buffer of the caller. The result is the error, or the code of the response; the
  command is returned with the number it was given.
\<close>

definition gcip_kci_send_cmd_return_resp ::
  "'y gcip_kci_ops \<Rightarrow> nat \<Rightarrow> (nat \<Rightarrow> 'y kci_mailbox \<Rightarrow> 'y kci_mailbox option)
     \<Rightarrow> gcip_kci_command_element \<Rightarrow> nat option \<Rightarrow> 'y kci_mailbox
     \<Rightarrow> (int \<times> gcip_kci_command_element \<times> 'y kci_mailbox) option" where
  "gcip_kci_send_cmd_return_resp kops polls wait cmd resp m = do {
     (cmd, m) \<leftarrow> Some
       (if kc_seq cmd AND GCIP_KCI_REVERSE_FLAG = 0
        then (let seq = kci_cur_seq (mb_data m) + 1
              in (cmd\<lparr>kc_seq := seq\<rparr>, upd_kci (\<lambda>k. k\<lparr>kci_cur_seq := seq\<rparr>) m))
        else (cmd, m));
     (ret, cmd, m) \<leftarrow> gcip_mailbox_send_cmd (kci_mailbox_ops kops polls) wait cmd resp m;
     if ret \<noteq> 0 then Some (ret, cmd, m)
     else (case resp of
         None \<Rightarrow> Some (0, cmd, m)
       | Some p \<Rightarrow> do { r \<leftarrow> resps m p; Some (int (unat (kr_code r)), cmd, m) }) }"

text \<open>The buffer of \<open>gcip_kci_send_cmd\<close> is on its stack, with contents of no meaning.\<close>

definition gcip_kci_send_cmd ::
  "'y gcip_kci_ops \<Rightarrow> nat \<Rightarrow> (nat \<Rightarrow> 'y kci_mailbox \<Rightarrow> 'y kci_mailbox option)
     \<Rightarrow> gcip_kci_response_element \<Rightarrow> gcip_kci_command_element \<Rightarrow> 'y kci_mailbox
     \<Rightarrow> (int \<times> gcip_kci_command_element \<times> 'y kci_mailbox) option" where
  "gcip_kci_send_cmd kops polls wait stack cmd m =
     (if kc_seq cmd AND GCIP_KCI_REVERSE_FLAG \<noteq> 0
      then gcip_kci_send_cmd_return_resp kops polls wait cmd None m
      else do {
        let p = next_addr m;
        let m = m\<lparr>resps := (resps m)(p \<mapsto> stack), next_addr := Suc p\<rparr>;
        (ret, cmd, m) \<leftarrow> gcip_kci_send_cmd_return_resp kops polls wait cmd (Some p) m;
        Some (ret, cmd, m\<lparr>resps := (resps m)(p := None)\<rparr>) })"

definition gcip_kci_consume_responses_work ::
  "'y gcip_kci_ops \<Rightarrow> nat \<Rightarrow> 'y kci_mailbox \<Rightarrow> 'y kci_mailbox option" where
  "gcip_kci_consume_responses_work kops polls m = gcip_mailbox_consume_responses_work (kci_mailbox_ops kops polls) m"

definition gcip_kci_handle_irq :: "'y gcip_kci_ops \<Rightarrow> nat \<Rightarrow> 'y kci_mailbox \<Rightarrow> 'y kci_mailbox option" where
  "gcip_kci_handle_irq kops polls m = do {
     m \<leftarrow> gcip_mailbox_consume_one_response (kci_mailbox_ops kops polls) m;
     Some (upd_kci (\<lambda>k. k\<lparr>kci_work := True\<rparr>) m) }"

definition gcip_kci_update_usage_work :: "'y gcip_kci_ops \<Rightarrow> 'y kci_mailbox \<Rightarrow> 'y kci_mailbox option" where
  "gcip_kci_update_usage_work kops m = do { f \<leftarrow> update_usage kops; Some (f m) }"

definition gcip_kci_update_usage_async :: "'y kci_mailbox \<Rightarrow> 'y kci_mailbox" where
  "gcip_kci_update_usage_async m = upd_kci (\<lambda>k. k\<lparr>usage_work := True\<rparr>) m"

section \<open>Set-up\<close>

definition gcip_kci_set_ops :: "'y gcip_kci_ops option \<Rightarrow> 'y kci_mailbox \<Rightarrow> int \<times> 'y kci_mailbox" where
  "gcip_kci_set_ops ops m =
     (case ops of
        None \<Rightarrow> (0, upd_kci (\<lambda>k. k\<lparr>kci_ops_set := False\<rparr>) m)
      | Some kops \<Rightarrow>
          if get_cmd_queue_head kops = None \<or> get_cmd_queue_tail kops = None \<or> inc_cmd_queue_tail kops = None
          then (- EINVAL, m)
          else if get_resp_queue_size kops = None \<or> get_resp_queue_head kops = None \<or>
                  get_resp_queue_tail kops = None \<or> inc_resp_queue_head kops = None
          then (- EINVAL, m)
          else if trigger_doorbell kops = None then (- EINVAL, m)
          else (0, upd_kci (\<lambda>k. k\<lparr>kci_ops_set := True\<rparr>) m))"

record 'y gcip_kci_args =
  arg_cmd_queue :: "gcip_kci_command_element list"
  arg_resp_queue :: "gcip_kci_response_element list"
  arg_kci_wrap_bit :: u32
  arg_rkci_buffer_size :: u32
  arg_kci_timeout :: u32
  arg_kci_ops :: "'y gcip_kci_ops option"
  arg_kci_data :: 'y

text \<open>The operators behind a NULL pointer: every call through it fails.\<close>

definition kci_ops_null :: "'y gcip_kci_ops" where
  "kci_ops_null = \<lparr>get_cmd_queue_head = None, get_cmd_queue_tail = None, inc_cmd_queue_tail = None,
     get_resp_queue_size = None, get_resp_queue_head = None, get_resp_queue_tail = None,
     inc_resp_queue_head = None, trigger_doorbell = None, reverse_kci_handle_response = None,
     update_usage = None, kci_is_block_off = None, kci_on_error_op = None\<rparr>"

text \<open>
  \<open>gcip_kci_init\<close> on an initialised interface does nothing. On failure it clears the operators
  (the private data pointer it clears too has no counterpart in the model).
\<close>

definition gcip_kci_init ::
  "nat \<Rightarrow> 'y gcip_kci_args \<Rightarrow> 'y kci_mailbox \<Rightarrow> int \<times> 'y kci_mailbox" where
  "gcip_kci_init polls args m =
     (if kci_ops_set (mb_data m) then (0, m)
      else case gcip_kci_set_ops (arg_kci_ops args) (upd_kci (\<lambda>k. k\<lparr>kci_data := arg_kci_data args\<rparr>) m) of
        (ret, m) \<Rightarrow>
        if ret \<noteq> 0 then (ret, m)
        else case kmalloc_ok m of (ok, m) \<Rightarrow>
        case gcip_reverse_kci_init ok (arg_rkci_buffer_size args) (rkci (mb_data m)) of (ret, rk) \<Rightarrow>
        let m = upd_kci (\<lambda>k. k\<lparr>rkci := rk\<rparr>) m in
        if ret \<noteq> 0 then (ret, snd (gcip_kci_set_ops None m))
        else case gcip_mailbox_init
            \<lparr>arg_mode = GCIP_MAILBOX_MODE_BIDIRECTIONAL OR GCIP_MAILBOX_MODE_SEQ_EXTERNAL,
             arg_queue_wrap_bit = arg_kci_wrap_bit args,
             arg_tx_queue = arg_cmd_queue args, arg_tx_elem_size = 32,
             arg_rx_queue = arg_resp_queue args, arg_rx_elem_size = 16,
             arg_timeout = arg_kci_timeout args,
             arg_ops = Some (kci_mailbox_ops (case arg_kci_ops args of None \<Rightarrow> kci_ops_null | Some kops \<Rightarrow> kops) polls),
             arg_data = mb_data m,
             arg_wait_list_external = None\<rparr> m of (ret, m) \<Rightarrow>
        if ret \<noteq> 0 then (ret, snd (gcip_kci_set_ops None m))
        else (0, upd_kci (\<lambda>k. k\<lparr>kci_cur_seq := 0, cmd_queue_lock := False, resp_queue_lock := False,
                                kci_work := False, usage_work := False\<rparr>) m))"

definition gcip_kci_reinit :: "'y kci_mailbox \<Rightarrow> 'y kci_mailbox" where
  "gcip_kci_reinit m = upd_kci (\<lambda>k. k\<lparr>rkci := gcip_reverse_kci_reinit (rkci k)\<rparr>) m"

definition gcip_kci_cancel_work_queues :: "'y kci_mailbox \<Rightarrow> 'y kci_mailbox" where
  "gcip_kci_cancel_work_queues m =
     upd_kci (\<lambda>k. k\<lparr>usage_work := False, kci_work := False, rkci := (rkci k)\<lparr>rkci_work := False\<rparr>\<rparr>) m"

definition gcip_kci_release :: "'y gcip_kci_ops \<Rightarrow> nat \<Rightarrow> 'y kci_mailbox \<Rightarrow> 'y kci_mailbox option" where
  "gcip_kci_release kops polls m =
     gcip_mailbox_release (kci_mailbox_ops kops polls)
       (upd_kci (\<lambda>k. k\<lparr>rkci := (rkci k)\<lparr>rkci_buffer := None\<rparr>, kci_ops_set := False\<rparr>) m)"

end
