(* ===== verification/Gcip_Rkci.thy ===== *)
theory Gcip_Rkci
  imports Gcip_Kci Channel_Interface
begin

text \<open>
  The ring buffer between the interrupt handler, which stores the requests of the firmware, and
  the worker that handles them: a bounded channel that keeps the order. One cell always stays
  free, so that equal indices mean an empty buffer.
\<close>

definition rkci_ok :: "gcip_reverse_kci \<Rightarrow> bool" where
  "rkci_ok rk \<longleftrightarrow> (\<exists>k<32. \<exists>buf. rkci_buffer_size rk = 2 ^ k \<and> rkci_buffer rk = Some buf \<and> length buf = 2 ^ k \<and>
     unat (rkci_head rk) < 2 ^ k \<and> unat (rkci_tail rk) < 2 ^ k)"

text \<open>The number of pending requests, and the requests in the order of their arrival.\<close>

definition rkci_count :: "gcip_reverse_kci \<Rightarrow> nat" where
  "rkci_count rk = (case rkci_buffer rk of
     None \<Rightarrow> 0
   | Some buf \<Rightarrow> (unat (rkci_head rk) + length buf - unat (rkci_tail rk)) mod length buf)"

definition rkci_pending :: "gcip_reverse_kci \<Rightarrow> gcip_kci_response_element list" where
  "rkci_pending rk = (case rkci_buffer rk of
     None \<Rightarrow> []
   | Some buf \<Rightarrow> map (\<lambda>i. buf ! ((unat (rkci_tail rk) + i) mod length buf)) [0..<rkci_count rk])"

definition rkci_put :: "gcip_kci_response_element \<Rightarrow> gcip_reverse_kci \<Rightarrow> gcip_reverse_kci option" where
  "rkci_put resp rk = (case gcip_reverse_kci_add_resp resp rk of
     Some (ret, rk') \<Rightarrow> (if ret = 0 then Some rk' else None) | None \<Rightarrow> None)"

definition rkci_get :: "unit \<Rightarrow> gcip_reverse_kci \<Rightarrow> (gcip_kci_response_element list \<times> gcip_reverse_kci) option" where
  "rkci_get _ rk = (case gcip_reverse_kci_remove_resp rk of
     Some (Some r, rk') \<Rightarrow> Some ([r], rk') | _ \<Rightarrow> None)"

section \<open>Indices\<close>

lemma rkci_mask: "k < 32 \<Longrightarrow> ucast (2 ^ k - 1 :: u32) = (mask k :: u64)"
  by (rule bit_word_eqI) (auto simp: mask_eq_exp_minus_1 [symmetric] bit_simps)

lemma unat_take_bit: "unat (take_bit k (w :: u64)) = unat w mod 2 ^ k"
  by (simp add: unsigned_take_bit_eq take_bit_nat_def)

lemma mod_minus_wrap:
  fixes a b :: nat
  assumes "k \<le> 64" "b \<le> 2 ^ k"
  shows "(2 ^ 64 + a - b) mod 2 ^ k = (a + 2 ^ k - b) mod 2 ^ k"
proof -
  obtain c :: nat where c: "(2 :: nat) ^ 64 = 2 ^ k * c" "0 < c"
    using assms(1) le_imp_power_dvd [of k 64 "2 :: nat"] by (metis dvdE gr0I mult_0_right power_eq_0_iff zero_neq_numeral)
  obtain c' where c': "c = Suc c'" using c(2) not0_implies_Suc by auto
  have "2 ^ 64 + a - b = (a + 2 ^ k - b) + 2 ^ k * c'"
    using assms unfolding c(1) c' by simp
  then show ?thesis by (simp only: mod_mult_self2)
qed

lemma circ_diff:
  assumes "k < 32" "unat b \<le> 2 ^ k"
  shows "unat ((a - b) AND ucast (2 ^ k - 1 :: u32) :: u64) = (unat a + 2 ^ k - unat b) mod 2 ^ k"
proof -
  have "unat ((a - b) AND ucast (2 ^ k - 1 :: u32) :: u64) = unat (a - b) mod 2 ^ k"
    using assms(1) by (simp add: rkci_mask flip: take_bit_eq_mask unat_take_bit)
  also have "\<dots> = (unat a + 2 ^ k - unat b) mod 2 ^ k"
    using assms mod_minus_wrap [of k "unat b" "unat a"]
    by (simp add: unat_sub_eq flip: mod_add_self2 [of "unat a - unat b" "2 ^ k"])
  finally show ?thesis .
qed

lemma circ_next:
  assumes "k < 32" "unat a < 2 ^ k"
  shows "unat ((a + 1) AND ucast (2 ^ k - 1 :: u32) :: u64) = (unat a + 1) mod 2 ^ k"
proof -
  have "unat a + 1 < 2 ^ LENGTH(64)"
    using assms power_strict_increasing [of k 32 "2 :: nat"] by simp
  then have "unat (a + 1) = unat a + 1" using unat_add_no_wrap [of a 1] by simp
  then show ?thesis using assms(1) by (simp add: rkci_mask unat_take_bit flip: take_bit_eq_mask)
qed

lemma mod_once: "x < 2 * n \<Longrightarrow> x mod n = (if x < n then x else x - n)" for n :: nat
  by (cases "x < n") (simp_all add: le_mod_geq)

lemma ring_put:
  fixes n :: nat
  assumes "h < n" "t < n" "(t + n - (h + 1)) mod n \<noteq> 0"
  shows "((h + 1) mod n + n - t) mod n = Suc ((h + n - t) mod n)" "(t + (h + n - t) mod n) mod n = h"
  using assms by (auto simp: mod_once split: if_splits)

lemma ring_get:
  fixes n :: nat
  assumes "h < n" "t < n" "(h + n - t) mod n \<noteq> 0"
  shows "Suc ((h + n - (t + 1) mod n) mod n) = (h + n - t) mod n"
  using assms by (auto simp: mod_once split: if_splits)

lemma rkci_cases:
  assumes "rkci_ok rk"
  obtains k buf where "k < 32" "rkci_buffer_size rk = 2 ^ k" "rkci_buffer rk = Some buf" "length buf = 2 ^ k"
    "unat (rkci_head rk) < 2 ^ k" "unat (rkci_tail rk) < 2 ^ k"
  using assms by (auto simp: rkci_ok_def)

section \<open>The channel\<close>

lemma add_resp_effect:
  assumes "rkci_ok rk"
  shows "gcip_reverse_kci_add_resp x rk = Some (- ENOSPC, rk) \<or>
    (\<exists>rk'. gcip_reverse_kci_add_resp x rk = Some (0, rk') \<and> rkci_ok rk' \<and> rkci_pending rk' = rkci_pending rk @ [x])"
proof -
  obtain k buf where k: "k < 32" "rkci_buffer_size rk = 2 ^ k" "rkci_buffer rk = Some buf" "length buf = 2 ^ k"
    and idx: "unat (rkci_head rk) < 2 ^ k" "unat (rkci_tail rk) < 2 ^ k" using rkci_cases [OF assms] by metis
  define h t where "h = unat (rkci_head rk)" and "t = unat (rkci_tail rk)"
  have space: "unat (CIRC_SPACE (rkci_head rk) (rkci_tail rk) (rkci_buffer_size rk)) = (t + 2 ^ k - (h + 1)) mod 2 ^ k"
    using circ_diff [of k "rkci_head rk + 1" "rkci_tail rk"] circ_next [of k "rkci_head rk"] k idx
      unat_add_no_wrap [of "rkci_head rk" 1] power_strict_increasing [of k 32 "2 :: nat"]
    by (simp add: CIRC_SPACE_def CIRC_CNT_def h_def t_def)
  show ?thesis
  proof (cases "CIRC_SPACE (rkci_head rk) (rkci_tail rk) (rkci_buffer_size rk) \<ge> 1")
    case False
    then show ?thesis by (simp add: gcip_reverse_kci_add_resp_def)
  next
    case True
    then have pos: "(t + 2 ^ k - (h + 1)) mod 2 ^ k \<noteq> 0" using space by (simp add: word_le_nat_alt)
    define rk' where "rk' = rk\<lparr>rkci_buffer := Some (buf[h := x]),
      rkci_head := (rkci_head rk + 1) AND ucast (rkci_buffer_size rk - 1), rkci_work := True\<rparr>"
    have add: "gcip_reverse_kci_add_resp x rk = Some (0, rk')"
      using True k idx by (simp add: gcip_reverse_kci_add_resp_def rk'_def h_def Let_def)
    have head: "unat (rkci_head rk') = (h + 1) mod 2 ^ k" using circ_next [of k "rkci_head rk"] k idx
      by (simp add: rk'_def h_def)
    have ht: "h < 2 ^ k" "t < 2 ^ k" using idx by (simp_all add: h_def t_def)
    note ring = ring_put [OF ht pos]
    have count: "rkci_count rk' = Suc (rkci_count rk)"
      using ring(1) head k(3,4) by (simp add: rkci_count_def rk'_def h_def t_def)
    have "rkci_ok rk'" unfolding rkci_ok_def
      using k idx head by (intro exI [of _ k] conjI exI [of _ "buf[h := x]"]) (simp_all add: rk'_def)
    moreover have "rkci_pending rk' = rkci_pending rk @ [x]"
    proof -
      have c: "rkci_count rk = (h + 2 ^ k - t) mod 2 ^ k" using k(3,4) by (simp add: rkci_count_def h_def t_def)
      have "h \<noteq> (t + i) mod 2 ^ k" if "i < rkci_count rk" for i
        using that ht unfolding c by (auto simp: mod_once split: if_splits)
      moreover have "rkci_buffer rk' = Some (buf[h := x])" "unat (rkci_tail rk') = t" by (simp_all add: rk'_def t_def)
      ultimately show ?thesis using ring(2) ht k(3,4) c
        by (simp add: rkci_pending_def count flip: t_def)
    qed
    ultimately show ?thesis using add by blast
  qed
qed

lemma remove_resp_effect:
  assumes "rkci_ok rk"
  shows "gcip_reverse_kci_remove_resp rk = Some (None, rk) \<and> rkci_pending rk = [] \<or>
    (\<exists>x rk'. gcip_reverse_kci_remove_resp rk = Some (Some x, rk') \<and> rkci_ok rk' \<and> rkci_pending rk = x # rkci_pending rk')"
proof -
  obtain k buf where k: "k < 32" "rkci_buffer_size rk = 2 ^ k" "rkci_buffer rk = Some buf" "length buf = 2 ^ k"
    and idx: "unat (rkci_head rk) < 2 ^ k" "unat (rkci_tail rk) < 2 ^ k" using rkci_cases [OF assms] by metis
  define h t where "h = unat (rkci_head rk)" and "t = unat (rkci_tail rk)"
  have ht: "h < 2 ^ k" "t < 2 ^ k" using idx by (simp_all add: h_def t_def)
  have c: "rkci_count rk = (h + 2 ^ k - t) mod 2 ^ k" using k(3,4) by (simp add: rkci_count_def h_def t_def)
  have cnt: "unat (CIRC_CNT (rkci_head rk) (rkci_tail rk) (rkci_buffer_size rk)) = rkci_count rk"
    using circ_diff [of k "rkci_tail rk" "rkci_head rk"] k idx c by (simp add: CIRC_CNT_def h_def t_def)
  show ?thesis
  proof (cases "rkci_count rk")
    case 0
    then show ?thesis using cnt k(3)
      by (simp add: gcip_reverse_kci_remove_resp_def word_le_nat_alt rkci_pending_def)
  next
    case (Suc j)
    define rk' where "rk' = rk\<lparr>rkci_tail := (rkci_tail rk + 1) AND ucast (rkci_buffer_size rk - 1)\<rparr>"
    have tail: "unat (rkci_tail rk') = (t + 1) mod 2 ^ k" using circ_next [of k "rkci_tail rk"] k idx
      by (simp add: rk'_def t_def)
    have j: "rkci_count rk' = j"
      using ring_get [OF ht] Suc c tail k(3,4) by (simp add: rkci_count_def rk'_def h_def)
    have rem: "gcip_reverse_kci_remove_resp rk = Some (Some (buf ! t), rk')"
      using Suc cnt k idx by (simp add: gcip_reverse_kci_remove_resp_def word_le_nat_alt rk'_def t_def Let_def)
    have "rkci_ok rk'" unfolding rkci_ok_def
      using k idx tail by (intro exI [of _ k] conjI exI [of _ buf]) (simp_all add: rk'_def)
    moreover have "rkci_pending rk = buf ! t # rkci_pending rk'"
    proof -
      have "rkci_pending rk = map (\<lambda>i. buf ! ((t + i) mod 2 ^ k)) (0 # map Suc [0..<j])"
        using k(3,4) Suc by (simp add: rkci_pending_def t_def map_Suc_upt upt_conv_Cons del: upt_Suc)
      then show ?thesis using k(3,4) ht tail j
        by (simp add: rkci_pending_def rk'_def mod_add_left_eq comp_def)
    qed
    ultimately show ?thesis using rem by blast
  qed
qed

interpretation rkci_channel: fifo_channel rkci_ok rkci_pending rkci_put "\<lambda>x. [x]" rkci_get
proof
  fix s s' :: gcip_reverse_kci and x
  assume s: "rkci_ok s" "rkci_put x s = Some s'"
  then show "rkci_ok s'" "rkci_pending s' = rkci_pending s @ [x]"
    using add_resp_effect [OF s(1), of x] by (auto simp: rkci_put_def split: if_splits)
next
  fix s s' :: gcip_reverse_kci and k ys
  assume s: "rkci_ok s" "rkci_get k s = Some (ys, s')"
  then show "rkci_ok s'" "rkci_pending s = ys @ rkci_pending s'"
    using remove_resp_effect [OF s(1)] by (auto simp: rkci_get_def)
qed

end
