(* ===== verification/Edgetpu_Mailbox.thy ===== *)
theory Edgetpu_Mailbox
  imports Circ_Queue
begin

text \<open>
  The mailbox hardware of the EdgeTPU, from
  \<^verbatim>\<open>src/google-modules/edgetpu/rio/drivers/edgetpu/edgetpu-mailbox.c\<close>: the indices that the driver
  caches, the registers it shares with the firmware, and the functions that set the queues up,
  move the indices and reset them. Registers are fields; the firmware reads and writes the head
  of the command queue and the tail of the response queue.
\<close>

datatype gcip_mailbox_queue_type = GCIP_MAILBOX_CMD_QUEUE | GCIP_MAILBOX_RESP_QUEUE

record edgetpu_mailbox_context_csr =
  context_enable :: u32
  cmd_queue_doorbell_enable :: u32
  cmd_queue_doorbell_clear :: u32
  cmd_queue_address_low :: u32
  cmd_queue_address_high :: u32
  csr_cmd_queue_size :: u32
  resp_queue_doorbell_enable :: u32
  resp_queue_address_low :: u32
  resp_queue_address_high :: u32
  csr_resp_queue_size :: u32
  config_spare_0 :: u32
  config_spare_1 :: u32
  config_spare_2 :: u32
  config_spare_3 :: u32

record edgetpu_mailbox_cmd_queue_csr =
  cmd_doorbell_set :: u32
  cmd_csr_head :: u32
  cmd_csr_tail :: u32

record edgetpu_mailbox_resp_queue_csr =
  resp_doorbell_clear :: u32
  resp_csr_head :: u32
  resp_csr_tail :: u32

record edgetpu_mailbox =
  cmd_queue_size :: u32
  cmd_queue_tail :: u32
  resp_queue_size :: u32
  resp_queue_head :: u32
  context_csr :: edgetpu_mailbox_context_csr
  cmd_csr :: edgetpu_mailbox_cmd_queue_csr
  resp_csr :: edgetpu_mailbox_resp_queue_csr

definition CIRC_QUEUE_WRAP_BIT :: u32 where "CIRC_QUEUE_WRAP_BIT = 1024"

definition edgetpu_mailbox_set_cmd_queue_tail :: "u32 \<Rightarrow> edgetpu_mailbox \<Rightarrow> edgetpu_mailbox" where
  "edgetpu_mailbox_set_cmd_queue_tail val mb =
     mb\<lparr>cmd_queue_tail := val, cmd_csr := (cmd_csr mb)\<lparr>cmd_csr_tail := val\<rparr>\<rparr>"

definition edgetpu_mailbox_set_resp_queue_head :: "u32 \<Rightarrow> edgetpu_mailbox \<Rightarrow> edgetpu_mailbox" where
  "edgetpu_mailbox_set_resp_queue_head val mb =
     mb\<lparr>resp_queue_head := val, resp_csr := (resp_csr mb)\<lparr>resp_csr_head := val\<rparr>\<rparr>"

definition edgetpu_mailbox_inc_cmd_queue_tail :: "u32 \<Rightarrow> edgetpu_mailbox \<Rightarrow> edgetpu_mailbox" where
  "edgetpu_mailbox_inc_cmd_queue_tail inc mb =
     edgetpu_mailbox_set_cmd_queue_tail
       (gcip_circ_queue_inc (cmd_queue_tail mb) inc (cmd_queue_size mb) CIRC_QUEUE_WRAP_BIT) mb"

definition edgetpu_mailbox_inc_resp_queue_head :: "u32 \<Rightarrow> edgetpu_mailbox \<Rightarrow> edgetpu_mailbox" where
  "edgetpu_mailbox_inc_resp_queue_head inc mb =
     edgetpu_mailbox_set_resp_queue_head
       (gcip_circ_queue_inc (resp_queue_head mb) inc (resp_queue_size mb) CIRC_QUEUE_WRAP_BIT) mb"

definition edgetpu_mailbox_set_queue ::
  "gcip_mailbox_queue_type \<Rightarrow> u64 \<Rightarrow> u32 \<Rightarrow> edgetpu_mailbox \<Rightarrow> int \<times> edgetpu_mailbox" where
  "edgetpu_mailbox_set_queue type addr sz mb =
     (let low = ucast (addr AND 0xffffffff);
          high = ucast (drop_bit 32 addr) in
      if \<not> gcip_valid_circ_queue_size sz CIRC_QUEUE_WRAP_BIT then (- EINVAL, mb)
      else if high AND 0xfffffff0 \<noteq> 0 then (- EINVAL, mb)
      else (0, case type of
          GCIP_MAILBOX_CMD_QUEUE \<Rightarrow>
            (let mb = edgetpu_mailbox_set_cmd_queue_tail 0
               (mb\<lparr>context_csr := (context_csr mb)\<lparr>cmd_queue_address_low := low,
                     cmd_queue_address_high := high, csr_cmd_queue_size := sz\<rparr>,
                   cmd_queue_size := sz\<rparr>)
             in mb\<lparr>cmd_csr := (cmd_csr mb)\<lparr>cmd_csr_head := 0\<rparr>\<rparr>)
        | GCIP_MAILBOX_RESP_QUEUE \<Rightarrow>
            (let mb = edgetpu_mailbox_set_resp_queue_head 0
               (mb\<lparr>context_csr := (context_csr mb)\<lparr>resp_queue_address_low := low,
                     resp_queue_address_high := high, csr_resp_queue_size := sz\<rparr>,
                   resp_queue_size := sz\<rparr>)
             in mb\<lparr>resp_csr := (resp_csr mb)\<lparr>resp_csr_tail := 0\<rparr>\<rparr>)))"

definition edgetpu_mailbox_set_queue_as_unused ::
  "gcip_mailbox_queue_type \<Rightarrow> edgetpu_mailbox \<Rightarrow> edgetpu_mailbox" where
  "edgetpu_mailbox_set_queue_as_unused type mb =
     (case type of
        GCIP_MAILBOX_CMD_QUEUE \<Rightarrow>
          (let mb = edgetpu_mailbox_set_cmd_queue_tail 0
             (mb\<lparr>context_csr := (context_csr mb)\<lparr>cmd_queue_address_low := 0,
                   cmd_queue_address_high := 0, csr_cmd_queue_size := 0\<rparr>,
                 cmd_queue_size := 0\<rparr>)
           in mb\<lparr>cmd_csr := (cmd_csr mb)\<lparr>cmd_csr_head := 0\<rparr>\<rparr>)
      | GCIP_MAILBOX_RESP_QUEUE \<Rightarrow>
          (let mb = edgetpu_mailbox_set_resp_queue_head 0
             (mb\<lparr>context_csr := (context_csr mb)\<lparr>resp_queue_address_low := 0,
                   resp_queue_address_high := 0, csr_resp_queue_size := 0\<rparr>,
                 resp_queue_size := 0\<rparr>)
           in mb\<lparr>resp_csr := (resp_csr mb)\<lparr>resp_csr_tail := 0\<rparr>\<rparr>))"

definition edgetpu_mailbox_enable :: "edgetpu_mailbox \<Rightarrow> edgetpu_mailbox" where
  "edgetpu_mailbox_enable mb = mb\<lparr>context_csr := (context_csr mb)\<lparr>context_enable := 1\<rparr>\<rparr>"

definition edgetpu_mailbox_disable :: "edgetpu_mailbox \<Rightarrow> edgetpu_mailbox" where
  "edgetpu_mailbox_disable mb = mb\<lparr>context_csr := (context_csr mb)\<lparr>context_enable := 0\<rparr>\<rparr>"

definition edgetpu_mailbox_reset :: "edgetpu_mailbox \<Rightarrow> edgetpu_mailbox" where
  "edgetpu_mailbox_reset mb =
     (let mb = edgetpu_mailbox_disable mb;
          mb = mb\<lparr>cmd_csr := (cmd_csr mb)\<lparr>cmd_csr_head := 0\<rparr>\<rparr>;
          mb = edgetpu_mailbox_set_cmd_queue_tail 0 mb;
          mb = edgetpu_mailbox_set_resp_queue_head 0 mb;
          mb = mb\<lparr>resp_csr := (resp_csr mb)\<lparr>resp_csr_tail := 0\<rparr>\<rparr>;
          mb = mb\<lparr>context_csr := (context_csr mb)\<lparr>config_spare_0 := 0, config_spare_1 := 0,
                   config_spare_2 := 0, config_spare_3 := 0\<rparr>\<rparr>
      in edgetpu_mailbox_enable mb)"

definition edgetpu_mailbox_clear_doorbells :: "edgetpu_mailbox \<Rightarrow> edgetpu_mailbox" where
  "edgetpu_mailbox_clear_doorbells mb =
     mb\<lparr>resp_csr := (resp_csr mb)\<lparr>resp_doorbell_clear := 1\<rparr>,
        context_csr := (context_csr mb)\<lparr>cmd_queue_doorbell_clear := 1\<rparr>\<rparr>"

definition edgetpu_mailbox_disable_doorbells :: "edgetpu_mailbox \<Rightarrow> edgetpu_mailbox" where
  "edgetpu_mailbox_disable_doorbells mb =
     mb\<lparr>context_csr := (context_csr mb)\<lparr>cmd_queue_doorbell_enable := 0, resp_queue_doorbell_enable := 0\<rparr>\<rparr>"

definition edgetpu_mailbox_enable_doorbells :: "edgetpu_mailbox \<Rightarrow> edgetpu_mailbox" where
  "edgetpu_mailbox_enable_doorbells mb =
     mb\<lparr>context_csr := (context_csr mb)\<lparr>cmd_queue_doorbell_enable := 1, resp_queue_doorbell_enable := 1\<rparr>\<rparr>"

definition edgetpu_mailbox_init_doorbells :: "edgetpu_mailbox \<Rightarrow> edgetpu_mailbox" where
  "edgetpu_mailbox_init_doorbells mb = edgetpu_mailbox_enable_doorbells (edgetpu_mailbox_clear_doorbells mb)"

section \<open>Attributes of user queues\<close>

text \<open>
  The largest number of kilobytes that one allocation can give,
  \<open>(MAX_ORDER_NR_PAGES << PAGE_SHIFT) / 1024\<close>, depends on the kernel's configuration.
\<close>

record edgetpu_mailbox_attr =
  attr_cmd_queue_size :: u32
  attr_sizeof_cmd :: u32
  attr_resp_queue_size :: u32
  attr_sizeof_resp :: u32

definition convert_runtime_queue_size_to_fw :: "nat \<Rightarrow> u32 \<Rightarrow> u32 \<Rightarrow> int" where
  "convert_runtime_queue_size_to_fw max_kb queue_size element_size =
     (if queue_size = 0 \<or> element_size = 0 then - EINVAL
      else if unat queue_size > max_kb then - ENOMEM
      else (let ret = queue_size * 1024 div element_size in
            if ret = 0 \<or> ret > CIRC_QUEUE_MAX_SIZE CIRC_QUEUE_WRAP_BIT then - EINVAL
            else int (unat ret)))"

definition edgetpu_mailbox_validate_attr :: "nat \<Rightarrow> edgetpu_mailbox_attr \<Rightarrow> int" where
  "edgetpu_mailbox_validate_attr max_kb attr =
     (let cmd = convert_runtime_queue_size_to_fw max_kb (attr_cmd_queue_size attr) (attr_sizeof_cmd attr);
          resp = convert_runtime_queue_size_to_fw max_kb (attr_resp_queue_size attr) (attr_sizeof_resp attr)
      in if cmd < 0 then cmd else if resp < 0 then resp else 0)"

end
