(* ===== verification/Edgetpu_Kci.thy ===== *)
theory Edgetpu_Kci
  imports Gcip_Kci Edgetpu_Mailbox
begin

text \<open>
  The kernel control interface of the EdgeTPU, from
  \<^verbatim>\<open>src/google-modules/edgetpu/rio/drivers/edgetpu/edgetpu-kci.c\<close>: the chip's operators on the
  mailbox registers, the dispatch of requests of the firmware, and the set-up of the queues. The
  firmware is a function \<open>fw\<close> on the whole state that runs before each read of a register it
  owns; \<open>soc\<close> tells which requests the SoC code handles itself.
\<close>

section \<open>Device state\<close>

datatype edgetpu_rkci_action =
    Client_Fatal_Error u32 | Client_Inactivity_Timeout u32 | Firmware_Crash u32 | Job_Lockup u32
  | Unrecognized_Rkci u16

record edgetpu_dev =
  et_mbox :: edgetpu_mailbox
  et_block_off :: bool
  et_actions :: "edgetpu_rkci_action list"

type_synonym et_state = "edgetpu_dev kci_mailbox"

definition et_mailbox :: "et_state \<Rightarrow> edgetpu_mailbox" where
  "et_mailbox m = et_mbox (kci_data (mb_data m))"

definition upd_et :: "(edgetpu_dev \<Rightarrow> edgetpu_dev) \<Rightarrow> et_state \<Rightarrow> et_state" where
  "upd_et f m = upd_kci (\<lambda>k. k\<lparr>kci_data := f (kci_data k)\<rparr>) m"

definition upd_mbox :: "(edgetpu_mailbox \<Rightarrow> edgetpu_mailbox) \<Rightarrow> et_state \<Rightarrow> et_state" where
  "upd_mbox f m = upd_et (\<lambda>d. d\<lparr>et_mbox := f (et_mbox d)\<rparr>) m"

section \<open>The operators\<close>

definition edgetpu_kci_get_cmd_queue_head :: "(et_state \<Rightarrow> et_state) \<Rightarrow> et_state \<Rightarrow> u32 \<times> et_state" where
  "edgetpu_kci_get_cmd_queue_head fw m = (cmd_csr_head (cmd_csr (et_mailbox (fw m))), fw m)"

definition edgetpu_kci_get_cmd_queue_tail :: "et_state \<Rightarrow> u32" where
  "edgetpu_kci_get_cmd_queue_tail m = cmd_queue_tail (et_mailbox m)"

definition edgetpu_kci_inc_cmd_queue_tail :: "u32 \<Rightarrow> et_state \<Rightarrow> et_state" where
  "edgetpu_kci_inc_cmd_queue_tail inc m = upd_mbox (edgetpu_mailbox_inc_cmd_queue_tail inc) m"

definition edgetpu_kci_get_resp_queue_size :: "et_state \<Rightarrow> u32" where
  "edgetpu_kci_get_resp_queue_size m = resp_queue_size (et_mailbox m)"

definition edgetpu_kci_get_resp_queue_head :: "et_state \<Rightarrow> u32" where
  "edgetpu_kci_get_resp_queue_head m = resp_queue_head (et_mailbox m)"

definition edgetpu_kci_get_resp_queue_tail :: "(et_state \<Rightarrow> et_state) \<Rightarrow> et_state \<Rightarrow> u32 \<times> et_state" where
  "edgetpu_kci_get_resp_queue_tail fw m = (resp_csr_tail (resp_csr (et_mailbox (fw m))), fw m)"

definition edgetpu_kci_inc_resp_queue_head :: "u32 \<Rightarrow> et_state \<Rightarrow> et_state" where
  "edgetpu_kci_inc_resp_queue_head inc m = upd_mbox (edgetpu_mailbox_inc_resp_queue_head inc) m"

definition GCIP_RKCI_CLIENT_FATAL_ERROR_NOTIFY :: u16 where "GCIP_RKCI_CLIENT_FATAL_ERROR_NOTIFY = 5"
definition GCIP_RKCI_FIRMWARE_CRASH :: u16 where "GCIP_RKCI_FIRMWARE_CRASH = 7"
definition GCIP_RKCI_JOB_LOCKUP :: u16 where "GCIP_RKCI_JOB_LOCKUP = 8"
definition GCIP_RKCI_CLIENT_INACTIVITY_TIMEOUT :: u16 where "GCIP_RKCI_CLIENT_INACTIVITY_TIMEOUT = 10"
definition GCIP_RKCI_FIRMWARE_CRASH_LEGACY :: u16 where "GCIP_RKCI_FIRMWARE_CRASH_LEGACY = 0x8000"
definition GCIP_RKCI_JOB_LOCKUP_LEGACY :: u16 where "GCIP_RKCI_JOB_LOCKUP_LEGACY = 0x8001"
definition GCIP_RKCI_CLIENT_INACTIVITY_TIMEOUT_LEGACY :: u16 where
  "GCIP_RKCI_CLIENT_INACTIVITY_TIMEOUT_LEGACY = 0x8003"

definition edgetpu_reverse_kci_handle_response ::
  "(gcip_kci_response_element \<Rightarrow> et_state \<Rightarrow> bool \<times> et_state) \<Rightarrow> gcip_kci_response_element \<Rightarrow> et_state \<Rightarrow> et_state" where
  "edgetpu_reverse_kci_handle_response soc resp m =
     (case soc resp m of (supported, m) \<Rightarrow>
       if supported then m
       else upd_et (\<lambda>d. d\<lparr>et_actions := et_actions d @ [
         if kr_code resp = GCIP_RKCI_CLIENT_FATAL_ERROR_NOTIFY then Client_Fatal_Error (kr_retval resp)
         else if kr_code resp = GCIP_RKCI_CLIENT_INACTIVITY_TIMEOUT \<or>
                 kr_code resp = GCIP_RKCI_CLIENT_INACTIVITY_TIMEOUT_LEGACY
         then Client_Inactivity_Timeout (kr_retval resp)
         else if kr_code resp = GCIP_RKCI_FIRMWARE_CRASH \<or> kr_code resp = GCIP_RKCI_FIRMWARE_CRASH_LEGACY
         then Firmware_Crash (kr_retval resp)
         else if kr_code resp = GCIP_RKCI_JOB_LOCKUP \<or> kr_code resp = GCIP_RKCI_JOB_LOCKUP_LEGACY
         then Job_Lockup (kr_retval resp)
         else Unrecognized_Rkci (kr_code resp)]\<rparr>) m)"

definition edgetpu_kci_trigger_doorbell :: "gcip_kci_doorbell_reason \<Rightarrow> et_state \<Rightarrow> et_state" where
  "edgetpu_kci_trigger_doorbell reason m =
     upd_mbox (\<lambda>mb. mb\<lparr>cmd_csr := (cmd_csr mb)\<lparr>cmd_doorbell_set := 1\<rparr>\<rparr>) m"

definition edgetpu_kci_is_block_off :: "et_state \<Rightarrow> bool" where
  "edgetpu_kci_is_block_off m = et_block_off (kci_data (mb_data m))"

text \<open>On a timeout the handler dumps registers for debugging; it changes no state of the interface.\<close>

definition edgetpu_kci_on_error :: "int \<Rightarrow> et_state \<Rightarrow> et_state" where
  "edgetpu_kci_on_error err m = m"

definition edgetpu_kci_ops ::
  "(et_state \<Rightarrow> et_state) \<Rightarrow> (gcip_kci_response_element \<Rightarrow> et_state \<Rightarrow> bool \<times> et_state)
     \<Rightarrow> (et_state \<Rightarrow> et_state) \<Rightarrow> edgetpu_dev gcip_kci_ops" where
  "edgetpu_kci_ops fw soc usage = \<lparr>
     get_cmd_queue_head = Some (edgetpu_kci_get_cmd_queue_head fw),
     get_cmd_queue_tail = Some edgetpu_kci_get_cmd_queue_tail,
     inc_cmd_queue_tail = Some edgetpu_kci_inc_cmd_queue_tail,
     get_resp_queue_size = Some edgetpu_kci_get_resp_queue_size,
     get_resp_queue_head = Some edgetpu_kci_get_resp_queue_head,
     get_resp_queue_tail = Some (edgetpu_kci_get_resp_queue_tail fw),
     inc_resp_queue_head = Some edgetpu_kci_inc_resp_queue_head,
     trigger_doorbell = Some edgetpu_kci_trigger_doorbell,
     reverse_kci_handle_response = Some (edgetpu_reverse_kci_handle_response soc),
     update_usage = Some usage,
     kci_is_block_off = Some edgetpu_kci_is_block_off,
     kci_on_error_op = Some edgetpu_kci_on_error\<rparr>"

section \<open>Set-up\<close>

definition KCI_QUEUE_SIZE :: u32 where "KCI_QUEUE_SIZE = CIRC_QUEUE_MAX_SIZE CIRC_QUEUE_WRAP_BIT"
definition REVERSE_KCI_BUFFER_SIZE :: u32 where "REVERSE_KCI_BUFFER_SIZE = 32"
definition KCI_TIMEOUT :: u32 where "KCI_TIMEOUT = 1000"

text \<open>
  The result of the allocator of shared memory is an argument: an error, or the address that the
  device uses and the contents of the memory.
\<close>

definition edgetpu_kci_alloc_queue ::
  "int + u64 \<times> 'e list \<Rightarrow> gcip_mailbox_queue_type \<Rightarrow> et_state \<Rightarrow> (int + 'e list) \<times> et_state" where
  "edgetpu_kci_alloc_queue iremap type m =
     (case iremap of
        Inl ret \<Rightarrow> (Inl ret, m)
      | Inr (dma_addr, mem) \<Rightarrow>
          (case edgetpu_mailbox_set_queue type dma_addr KCI_QUEUE_SIZE (et_mailbox m) of (ret, mb) \<Rightarrow>
             if ret \<noteq> 0 then (Inl ret, m) else (Inr mem, upd_mbox (\<lambda>_. mb) m)))"

definition edgetpu_kci_init ::
  "edgetpu_dev gcip_kci_ops \<Rightarrow> nat \<Rightarrow> int + u64 \<times> gcip_kci_command_element list
     \<Rightarrow> int + u64 \<times> gcip_kci_response_element list \<Rightarrow> et_state \<Rightarrow> int \<times> et_state" where
  "edgetpu_kci_init kops polls cmd_mem resp_mem m =
     (case edgetpu_kci_alloc_queue cmd_mem GCIP_MAILBOX_CMD_QUEUE m of
        (Inl ret, m) \<Rightarrow> (ret, m)
      | (Inr cmd_queue, m) \<Rightarrow>
        (case edgetpu_kci_alloc_queue resp_mem GCIP_MAILBOX_RESP_QUEUE m of
           (Inl ret, m) \<Rightarrow> (ret, m)
         | (Inr resp_queue, m) \<Rightarrow>
           (case gcip_kci_init polls
               \<lparr>arg_cmd_queue = cmd_queue, arg_resp_queue = resp_queue,
                arg_kci_wrap_bit = CIRC_QUEUE_WRAP_BIT, arg_rkci_buffer_size = REVERSE_KCI_BUFFER_SIZE,
                arg_kci_timeout = KCI_TIMEOUT, arg_kci_ops = Some kops, arg_kci_data = kci_data (mb_data m)\<rparr> m of
              (ret, m) \<Rightarrow> if ret \<noteq> 0 then (ret, m) else (0, upd_mbox edgetpu_mailbox_enable m))))"

definition edgetpu_kci_reinit :: "u64 \<Rightarrow> u64 \<Rightarrow> et_state \<Rightarrow> int \<times> et_state" where
  "edgetpu_kci_reinit cmd_addr resp_addr m =
     (case edgetpu_mailbox_set_queue GCIP_MAILBOX_CMD_QUEUE cmd_addr KCI_QUEUE_SIZE (et_mailbox m) of
        (ret, mb) \<Rightarrow>
        if ret \<noteq> 0 then (ret, upd_mbox (\<lambda>_. mb) m)
        else (case edgetpu_mailbox_set_queue GCIP_MAILBOX_RESP_QUEUE resp_addr KCI_QUEUE_SIZE mb of
          (ret, mb) \<Rightarrow>
          if ret \<noteq> 0 then (ret, upd_mbox (\<lambda>_. mb) m)
          else (0, upd_mbox (\<lambda>_. edgetpu_mailbox_enable (edgetpu_mailbox_init_doorbells mb)) m)))"

definition edgetpu_kci_handle_irq :: "edgetpu_dev gcip_kci_ops \<Rightarrow> nat \<Rightarrow> et_state \<Rightarrow> et_state option" where
  "edgetpu_kci_handle_irq kops polls m = gcip_kci_handle_irq kops polls m"

end
