(* ===== verification/Gcip_Rx.thy ===== *)
theory Gcip_Rx
  imports Gcip_Mailbox
begin

text \<open>
  Fetching from a response queue that the firmware fills meanwhile. What the mailbox relies on is
  the locale \<open>response_queue\<close>: the registers are those of a pair of counters, and the firmware
  only appends, never past one queue length above the head that the host has published.
\<close>

definition queue_cells :: "('c, 'r, 'x) gcip_mailbox \<Rightarrow> nat \<Rightarrow> nat \<Rightarrow> nat \<Rightarrow> 'r list" where
  "queue_cells m n h t = map (\<lambda>p. rx_queue m ! (p mod n)) [h..<t]"

lemma length_queue_cells [simp]: "length (queue_cells m n h t) = t - h"
  by (simp add: queue_cells_def)

lemma queue_cells_empty [simp]: "queue_cells m n h h = []"
  by (simp add: queue_cells_def)

lemma queue_cells_append: "h \<le> i \<Longrightarrow> i \<le> t \<Longrightarrow> queue_cells m n h i @ queue_cells m n i t = queue_cells m n h t"
  unfolding queue_cells_def by (metis le_Suc_ex map_append upt_add_eq_append)

lemma queue_cells_cong:
  "(\<And>p. h \<le> p \<Longrightarrow> p < t \<Longrightarrow> rx_queue m' ! (p mod n) = rx_queue m ! (p mod n)) \<Longrightarrow>
     queue_cells m' n h t = queue_cells m n h t"
  by (simp add: queue_cells_def)

lemma queue_cells_take: "t \<le> t' \<Longrightarrow> queue_cells m n h t = take (t - h) (queue_cells m n h t')"
  by (cases "h \<le> t") (simp_all add: queue_cells_def take_map)

lemma queue_cells_prefix:
  "t \<le> t' \<Longrightarrow> queue_cells m' n h t' = queue_cells m n h t' \<Longrightarrow> queue_cells m' n h t = queue_cells m n h t"
  by (simp add: queue_cells_take [of t t'])

lemma copy_responses_cells:
  assumes "length q = n" "0 < n"
  shows "copy_responses q n (h mod n) count = Some (map (\<lambda>p. q ! (p mod n)) [h..<h + count])"
proof (induction count arbitrary: h)
  case 0
  then show ?case by simp
next
  case (Suc count)
  have "(h mod n + 1) mod n = Suc h mod n" by (simp add: mod_Suc_eq)
  moreover have "[h..<h + Suc count] = h # [Suc h..<Suc h + count]" by (simp add: upt_conv_Cons del: upt_Suc)
  ultimately show ?case using Suc [of "Suc h"] assms by (simp del: upt_Suc)
qed

lemma kmalloc_ok_allocs: "snd (kmalloc_ok m) = m\<lparr>allocs := tl (allocs m)\<rparr>"
  by (cases m; cases "allocs m") (auto simp: kmalloc_ok_def)

lemma kmalloc_ok_plenty: "allocs m = [] \<Longrightarrow> kmalloc_ok m = (True, m)"
  by (simp add: kmalloc_ok_def)

lemma queue_cells_allocs [simp]: "queue_cells (m\<lparr>allocs := b\<rparr>) n h t = queue_cells m n h t"
  by (simp add: queue_cells_def)

locale response_queue =
  fixes ops :: "('c, 'r, 'x) gcip_mailbox_ops"
    and n k :: nat
    and rx :: "nat \<Rightarrow> nat \<Rightarrow> ('c, 'r, 'x) gcip_mailbox \<Rightarrow> bool"
    and read_tail :: "('c, 'r, 'x) gcip_mailbox \<Rightarrow> (u32 \<times> ('c, 'r, 'x) gcip_mailbox) option"
  assumes circ: "circ_ok n k"
    and reader: "get_rx_queue_tail ops = Some read_tail"
    and rx_bounds: "rx h t m \<Longrightarrow> h \<le> t \<and> t \<le> h + n \<and> length (rx_queue m) = n"
    and rx_read: "rx h t m \<Longrightarrow> \<exists>t' m'. read_tail m = Some (circ_index n k t', m') \<and> t \<le> t' \<and> rx h t' m' \<and>
      (\<forall>p. h \<le> p \<longrightarrow> p < t \<longrightarrow> rx_queue m' ! (p mod n) = rx_queue m ! (p mod n)) \<and> allocs m' = allocs m"
    and rx_alloc: "rx h t m \<Longrightarrow> rx h t (m\<lparr>allocs := b\<rparr>)"
begin

lemma size_pos: "0 < n" "n < 4294967296" "k < 32"
  using circ circ_ok_bound [OF circ] by (auto simp: circ_ok_def)

lemma mod_bound: "t mod n < 4294967296"
  using size_pos less_trans mod_less_divisor by blast

lemma tail_accepted:
  "circ_index n k t AND NOT (CIRC_QUEUE_VALID_MASK (2 ^ k)) = (0 :: u32)"
  "\<not> CIRC_QUEUE_REAL_INDEX (circ_index n k t) (2 ^ k) \<ge> (word_of_nat n :: u32)"
  using circ_ok_mod [OF circ, of t] size_pos mod_bound [of t]
  by (simp_all add: circ_index_def circ_reg_valid circ_reg_real word_le_nat_alt unat_u32_of_nat not_le)

lemma real_index: "unat (CIRC_QUEUE_REAL_INDEX (circ_index n k t) (2 ^ k) :: u32) = t mod n"
  using circ_ok_mod [OF circ, of t] size_pos mod_bound [of t]
  by (simp add: circ_index_def circ_reg_real unat_u32_of_nat)

lemma fetch_loop_spec:
  assumes "rx h t m" "h \<le> i" "i \<le> t"
  shows "\<exists>i' t' m'. fetch_loop ops (word_of_nat n) (2 ^ k) (circ_index n k i) (queue_cells m n h i) m
      = Some (queue_cells m' n h i', m') \<and> rx h t' m' \<and> t \<le> t' \<and> i \<le> i' \<and> i' \<le> t' \<and> (allocs m = [] \<longrightarrow> i' = t')
      \<and> queue_cells m' n h t = queue_cells m n h t"
  using assms
proof (induction "h + n - i" arbitrary: i t m rule: less_induct)
  case less
  obtain t' m' where rd: "read_tail m = Some (circ_index n k t', m')" and t': "t \<le> t'" "rx h t' m'"
    and same: "\<And>p. h \<le> p \<Longrightarrow> p < t \<Longrightarrow> rx_queue m' ! (p mod n) = rx_queue m ! (p mod n)"
    and alloc: "allocs m' = allocs m"
    using rx_read [OF less.prems(1)] by blast
  note b = rx_bounds [OF t'(2)]
  have cells: "queue_cells m n h i = queue_cells m' n h i" "queue_cells m' n h t = queue_cells m n h t"
    using same less.prems by (auto intro!: queue_cells_cong queue_cells_cong [symmetric])
  have cnt: "gcip_circ_queue_cnt (circ_index n k i) (circ_index n k t') (word_of_nat n) (2 ^ k) = word_of_nat (t' - i)"
    using less.prems t' b by (intro circ_queue_cnt_exact circ) auto
  have un: "unat (word_of_nat (t' - i) :: u32) = t' - i" using b less.prems size_pos by (intro unat_u32_of_nat) auto
  note step = fetch_loop.simps [of ops "word_of_nat n" "2 ^ k" "circ_index n k i"] reader rd tail_accepted cnt
  show ?case
  proof (cases "t' = i")
    case True
    then have "gcip_circ_queue_cnt (circ_index n k i) (circ_index n k i) (word_of_nat n) (2 ^ k) = 0"
      using cnt by simp
    then show ?thesis using True t' b less.prems cells
      by (intro exI [of _ i] exI [of _ t'] exI [of _ m']) (simp add: step Let_def)
  next
    case False
    then have pos: "word_of_nat (t' - i) \<noteq> (0 :: u32)" using un less.prems t' by (metis diff_is_0_eq le_antisym le_trans unat_0)
    show ?thesis
    proof (cases "fst (kmalloc_ok m')")
      case fail: False
      have "allocs m \<noteq> []" using fail alloc by (auto simp: kmalloc_ok_def)
      then show ?thesis using fail pos t' b less.prems cells rx_alloc
        by (intro exI [of _ i] exI [of _ t'] exI [of _ "snd (kmalloc_ok m')"])
          (simp add: step Let_def kmalloc_ok_allocs)
    next
      case ok: True
      define m2 where "m2 = snd (kmalloc_ok m')"
      have m2: "rx h t' m2" "rx_queue m2 = rx_queue m'" "queue_cells m' n h i = queue_cells m2 n h i"
        using t'(2) rx_alloc by (simp_all add: m2_def kmalloc_ok_allocs)
      have copy: "copy_responses (rx_queue m2) n (i mod n) (t' - i) = Some (queue_cells m2 n i t')"
        using copy_responses_cells [of "rx_queue m2" n i "t' - i"] rx_bounds [OF m2(1)] size_pos less.prems t'
        by (simp add: queue_cells_def)
      have inc: "gcip_circ_queue_inc (circ_index n k i) (word_of_nat (t' - i)) (word_of_nat n) (2 ^ k) = circ_index n k t'"
        using circ_queue_inc_exact [OF circ, of "t' - i" i] le_diff_conv [of t' i n] b less.prems t' by simp
      have "fetch_loop ops (word_of_nat n) (2 ^ k) (circ_index n k i) (queue_cells m n h i) m
        = fetch_loop ops (word_of_nat n) (2 ^ k) (circ_index n k t') (queue_cells m2 n h t') m2"
        using ok pos copy inc cells m2(3) less.prems t' size_pos
        by (simp add: step Let_def un real_index unat_u32_of_nat queue_cells_append del: of_nat_diff flip: m2_def)
      moreover have "h + n - t' < h + n - i" using False less.prems t' b by linarith
      from less.hyps [OF this m2(1)] b obtain i' t2 m3 where
        "fetch_loop ops (word_of_nat n) (2 ^ k) (circ_index n k t') (queue_cells m2 n h t') m2
          = Some (queue_cells m3 n h i', m3)" "rx h t2 m3" "t' \<le> t2" "t' \<le> i'" "i' \<le> t2"
        "allocs m2 = [] \<longrightarrow> i' = t2" "queue_cells m3 n h t' = queue_cells m2 n h t'" by auto
      moreover have "queue_cells m2 n h t = queue_cells m' n h t" by (simp add: m2_def kmalloc_ok_allocs)
      moreover note queue_cells_prefix [of t t' m3 n h m2]
      moreover have "allocs m = [] \<Longrightarrow> allocs m2 = []" using alloc by (simp add: m2_def kmalloc_ok_allocs)
      ultimately show ?thesis using less.prems t' cells
        by (intro exI [of _ i'] exI [of _ t2] exI [of _ m3]) simp
    qed
  qed
qed

end

end
