(* ===== verification/Edgetpu_Kci_Props.thy ===== *)
theory Edgetpu_Kci_Props
  imports Edgetpu_Kci Gcip_Rx
begin

text \<open>
  The queues of the EdgeTPU's control interface with firmware that fills them: the firmware's side
  of the protocol as a hypothesis, and what the driver fetches.
\<close>

section \<open>The firmware's side of the protocol\<close>

text \<open>
  \<open>et_rx n h t m\<close>: the registers and the memory of the response queue, of \<open>n\<close> elements, are
  those of the head counter \<open>h\<close> and the tail counter \<open>t\<close>.
\<close>

definition et_rx :: "nat \<Rightarrow> nat \<Rightarrow> nat \<Rightarrow> et_state \<Rightarrow> bool" where
  "et_rx n h t m \<longleftrightarrow>
     resp_queue_size (et_mailbox m) = word_of_nat n \<and> resp_queue_head (et_mailbox m) = circ_index n 10 h \<and>
     resp_csr_tail (resp_csr (et_mailbox m)) = circ_index n 10 t \<and> h \<le> t \<and> t \<le> h + n \<and>
     length (rx_queue m) = n \<and> queue_wrap_bit m = 1024"

text \<open>The same for the command queue, whose head the firmware moves.\<close>

definition et_tx :: "nat \<Rightarrow> nat \<Rightarrow> nat \<Rightarrow> et_state \<Rightarrow> bool" where
  "et_tx n ch ct m \<longleftrightarrow>
     cmd_queue_size (et_mailbox m) = word_of_nat n \<and> cmd_queue_tail (et_mailbox m) = circ_index n 10 ct \<and>
     cmd_csr_head (cmd_csr (et_mailbox m)) = circ_index n 10 ch \<and> ch \<le> ct \<and> ct \<le> ch + n \<and>
     length (tx_queue m) = n \<and> queue_wrap_bit m = 1024"

text \<open>What the firmware writes: the response queue, the tail of that queue, the head of the other.\<close>

definition firmware_write :: "gcip_kci_response_element list \<Rightarrow> u32 \<Rightarrow> u32 \<Rightarrow> et_state \<Rightarrow> et_state" where
  "firmware_write q tail head m =
     upd_mbox (\<lambda>mb. mb\<lparr>resp_csr := (resp_csr mb)\<lparr>resp_csr_tail := tail\<rparr>, cmd_csr := (cmd_csr mb)\<lparr>cmd_csr_head := head\<rparr>\<rparr>)
       (m\<lparr>rx_queue := q\<rparr>)"

text \<open>
  Firmware that keeps to the protocol appends responses, never more than the queue holds above
  the head that the driver published, leaves the responses that are pending, and takes commands
  that were sent.
\<close>

definition firmware_ok :: "nat \<Rightarrow> (et_state \<Rightarrow> et_state) \<Rightarrow> bool" where
  "firmware_ok n fw \<longleftrightarrow> (\<forall>m h t ch ct. et_rx n h t m \<longrightarrow> et_tx n ch ct m \<longrightarrow>
     (\<exists>t' ch' q. fw m = firmware_write q (circ_index n 10 t') (circ_index n 10 ch') m \<and>
        t \<le> t' \<and> t' \<le> h + n \<and> ch \<le> ch' \<and> ch' \<le> ct \<and> length q = n \<and>
        (\<forall>p. h \<le> p \<longrightarrow> p < t \<longrightarrow> q ! (p mod n) = rx_queue m ! (p mod n))))"

lemma et_mailbox_upd [simp]:
  "et_mailbox (upd_mbox f m) = f (et_mailbox m)"
  "et_mailbox (m\<lparr>rx_queue := q\<rparr>) = et_mailbox m"
  "et_mailbox (m\<lparr>allocs := b\<rparr>) = et_mailbox m"
  by (simp_all add: et_mailbox_def upd_mbox_def upd_et_def upd_kci_def)

lemma upd_mbox_frame [simp]:
  "tx_queue (upd_mbox f m) = tx_queue m" "next_addr (upd_mbox f m) = next_addr m"
  "rx_queue (upd_mbox f m) = rx_queue m" "allocs (upd_mbox f m) = allocs m"
  "queue_wrap_bit (upd_mbox f m) = queue_wrap_bit m"
  by (simp_all add: upd_mbox_def upd_et_def upd_kci_def)

lemma firmware_write_simps [simp]:
  "et_mailbox (firmware_write q t h m) = (et_mailbox m)
     \<lparr>resp_csr := (resp_csr (et_mailbox m))\<lparr>resp_csr_tail := t\<rparr>, cmd_csr := (cmd_csr (et_mailbox m))\<lparr>cmd_csr_head := h\<rparr>\<rparr>"
  "tx_queue (firmware_write q t h m) = tx_queue m"
  "rx_queue (firmware_write q t h m) = q" "allocs (firmware_write q t h m) = allocs m"
  "queue_wrap_bit (firmware_write q t h m) = queue_wrap_bit m"
  by (simp_all add: firmware_write_def)

text \<open>The part of the state that the firmware does not write, with the allocator's future left out.\<close>

definition host_part :: "et_state \<Rightarrow> et_state" where
  "host_part m = firmware_write [] 0 0 (m\<lparr>allocs := []\<rparr>)"

lemma host_part_simps [simp]:
  "host_part (firmware_write q t h m) = host_part m"
  "host_part (m\<lparr>allocs := b\<rparr>) = host_part m"
  by (simp_all add: host_part_def firmware_write_def upd_mbox_def upd_et_def upd_kci_def)

lemma firmware_step:
  assumes "firmware_ok n fw" "et_rx n h t m" "et_tx n ch ct m"
  shows "\<exists>t' ch'. et_rx n h t' (fw m) \<and> et_tx n ch' ct (fw m) \<and> t \<le> t' \<and> ch \<le> ch' \<and>
    (\<forall>p. h \<le> p \<longrightarrow> p < t \<longrightarrow> rx_queue (fw m) ! (p mod n) = rx_queue m ! (p mod n)) \<and>
    allocs (fw m) = allocs m \<and> host_part (fw m) = host_part m"
proof -
  obtain t' ch' q where fw: "fw m = firmware_write q (circ_index n 10 t') (circ_index n 10 ch') m" "t \<le> t'" "t' \<le> h + n"
    "ch \<le> ch'" "ch' \<le> ct" "length q = n" "\<And>p. h \<le> p \<Longrightarrow> p < t \<Longrightarrow> q ! (p mod n) = rx_queue m ! (p mod n)"
    using assms unfolding firmware_ok_def by meson
  then show ?thesis using assms(2,3)
    by (intro exI [of _ t'] exI [of _ ch']) (auto simp: fw(1) et_rx_def et_tx_def)
qed

definition et_during :: "nat \<Rightarrow> nat \<Rightarrow> et_state \<Rightarrow> nat \<Rightarrow> nat \<Rightarrow> et_state \<Rightarrow> bool" where
  "et_during n ct m0 h t m \<longleftrightarrow> et_rx n h t m \<and> (\<exists>ch. et_tx n ch ct m) \<and> host_part m = host_part m0"

lemma et_response_queue:
  assumes "circ_ok n 10" "firmware_ok n fw"
  shows "response_queue (kci_mailbox_ops (edgetpu_kci_ops fw soc usage) polls) n 10 (et_during n ct m0)
    (gcip_kci_get_resp_queue_tail (edgetpu_kci_ops fw soc usage))"
proof
  fix h t and m :: et_state
  assume rx: "et_during n ct m0 h t m"
  show "h \<le> t \<and> t \<le> h + n \<and> length (rx_queue m) = n" using rx by (simp add: et_during_def et_rx_def)
  show "et_during n ct m0 h t (m\<lparr>allocs := b\<rparr>)" for b
    using rx by (auto simp: et_during_def et_rx_def et_tx_def)
  obtain ch where "et_tx n ch ct m" using rx by (auto simp: et_during_def)
  then show "\<exists>t' m'. gcip_kci_get_resp_queue_tail (edgetpu_kci_ops fw soc usage) m = Some (circ_index n 10 t', m') \<and>
      t \<le> t' \<and> et_during n ct m0 h t' m' \<and>
      (\<forall>p. h \<le> p \<longrightarrow> p < t \<longrightarrow> rx_queue m' ! (p mod n) = rx_queue m ! (p mod n)) \<and> allocs m' = allocs m"
    using firmware_step [OF assms(2), of h t m ch ct] rx
    by (auto simp: et_during_def gcip_kci_get_resp_queue_tail_def edgetpu_kci_ops_def
        edgetpu_kci_get_resp_queue_tail_def et_rx_def)
qed (use assms in \<open>simp_all add: kci_mailbox_ops_def\<close>)

lemma host_part_eqD:
  assumes "host_part m' = host_part m"
  shows "wait_list m' = wait_list m" "resps m' = resps m" "async_resps m' = async_resps m" "awaiters m' = awaiters m"
    "tx_queue m' = tx_queue m" "mb_mode m' = mb_mode m" "queue_wrap_bit m' = queue_wrap_bit m"
    "resp_queue_lock (mb_data m') = resp_queue_lock (mb_data m)"
    "cmd_queue_lock (mb_data m') = cmd_queue_lock (mb_data m)" "rkci (mb_data m') = rkci (mb_data m)"
    "et_block_off (kci_data (mb_data m')) = et_block_off (kci_data (mb_data m))"
    "next_addr m' = next_addr m" "kci_cur_seq (mb_data m') = kci_cur_seq (mb_data m)"
  using arg_cong [OF assms, of next_addr] arg_cong [OF assms, of "\<lambda>m. kci_cur_seq (mb_data m)"] arg_cong [OF assms, of wait_list] arg_cong [OF assms, of resps] arg_cong [OF assms, of async_resps]
    arg_cong [OF assms, of awaiters] arg_cong [OF assms, of tx_queue] arg_cong [OF assms, of mb_mode]
    arg_cong [OF assms, of queue_wrap_bit] arg_cong [OF assms, of "\<lambda>m. resp_queue_lock (mb_data m)"]
    arg_cong [OF assms, of "\<lambda>m. cmd_queue_lock (mb_data m)"] arg_cong [OF assms, of "\<lambda>m. rkci (mb_data m)"]
    arg_cong [OF assms, of "\<lambda>m. et_block_off (kci_data (mb_data m))"]
  by (simp_all add: host_part_def firmware_write_def upd_mbox_def upd_et_def upd_kci_def)

section \<open>Fetching\<close>

abbreviation et_ops where
  "et_ops fw soc usage polls \<equiv> kci_mailbox_ops (edgetpu_kci_ops fw soc usage) polls"

lemma upd_kci_frame [simp]:
  "tx_queue (upd_kci f m) = tx_queue m" "next_addr (upd_kci f m) = next_addr m"
  "rx_queue (upd_kci f m) = rx_queue m" "allocs (upd_kci f m) = allocs m"
  "queue_wrap_bit (upd_kci f m) = queue_wrap_bit m" "wait_list (upd_kci f m) = wait_list m"
  "mb_data (upd_kci f m) = f (mb_data m)" "resps (upd_kci f m) = resps m"
  "async_resps (upd_kci f m) = async_resps m" "awaiters (upd_kci f m) = awaiters m" "mb_mode (upd_kci f m) = mb_mode m"
  by (simp_all add: upd_kci_def)

lemma et_rx_upd_kci [simp]:
  "(\<And>k. kci_data (f k) = kci_data k) \<Longrightarrow> et_rx n h t (upd_kci f m) = et_rx n h t m"
  by (simp add: et_rx_def et_mailbox_def)

lemma et_tx_upd_kci [simp]:
  "(\<And>k. kci_data (f k) = kci_data k) \<Longrightarrow> et_tx n h t (upd_kci f m) = et_tx n h t m"
  by (simp add: et_tx_def et_mailbox_def)

lemma queue_cells_upd [simp]:
  "queue_cells (upd_kci f m) n h t = queue_cells m n h t" "queue_cells (upd_mbox g m) n h t = queue_cells m n h t"
  by (simp_all add: queue_cells_def)

lemma et_mailbox_upd_kci [simp]: "(\<And>k. kci_data (f k) = kci_data k) \<Longrightarrow> et_mailbox (upd_kci f m) = et_mailbox m"
  by (simp add: et_mailbox_def)

lemma mb_data_upd_mbox [simp]:
  "mb_data (upd_mbox f m) = (mb_data m)\<lparr>kci_data := (kci_data (mb_data m))\<lparr>et_mbox := f (et_mbox (kci_data (mb_data m)))\<rparr>\<rparr>"
  "wait_list (upd_mbox f m) = wait_list m" "resps (upd_mbox f m) = resps m" "async_resps (upd_mbox f m) = async_resps m"
  "awaiters (upd_mbox f m) = awaiters m" "mb_mode (upd_mbox f m) = mb_mode m"
  by (simp_all add: upd_mbox_def upd_et_def)

text \<open>The end of a fetch: publishing the new head, unlocking, and the doorbell after many responses.\<close>

lemma finish_fetch:
  assumes ok: "circ_ok n 10" and rx: "et_rx n h t m" and tx: "et_tx n ch ct m" and i: "h \<le> i" "i \<le> t"
  shows "\<exists>m2. gcip_kci_inc_resp_queue_head (edgetpu_kci_ops fw soc usage) (word_of_nat (i - h)) m = Some m2 \<and>
    (\<exists>m'. gcip_kci_after_fetch_resps (edgetpu_kci_ops fw soc usage) num (gcip_kci_release_resp_queue_lock m2) = Some m' \<and>
      et_rx n i t m' \<and> et_tx n ch ct m' \<and> \<not> resp_queue_lock (mb_data m') \<and> wait_list m' = wait_list m \<and> resps m' = resps m \<and>
      async_resps m' = async_resps m \<and> awaiters m' = awaiters m \<and> rx_queue m' = rx_queue m \<and> mb_mode m' = mb_mode m \<and>
      rkci (mb_data m') = rkci (mb_data m))"
proof -
  have "i - h \<le> n" using rx i by (auto simp: et_rx_def)
  from circ_queue_inc_exact [OF ok this, of h]
  have head: "gcip_circ_queue_inc (circ_index n 10 h) (word_of_nat (i - h)) (word_of_nat n) CIRC_QUEUE_WRAP_BIT = circ_index n 10 i"
    using i by (simp add: CIRC_QUEUE_WRAP_BIT_def)
  show ?thesis using rx tx i head
    by (auto simp: et_tx_def gcip_kci_inc_resp_queue_head_def edgetpu_kci_ops_def edgetpu_kci_inc_resp_queue_head_def
        gcip_kci_release_resp_queue_lock_def gcip_kci_after_fetch_resps_def et_rx_def edgetpu_kci_trigger_doorbell_def
        edgetpu_mailbox_inc_resp_queue_head_def edgetpu_mailbox_set_resp_queue_head_def simp del: of_nat_diff)
qed

text \<open>
  C11: Fetching from the response queue terminates with firmware that keeps to the protocol, even
  if it goes on appending, and returns the pending responses in order, followed by those that
  arrived meanwhile; it publishes the head behind the last response it returned, and stops early
  only when memory runs out.
\<close>

theorem fetch_returns_pending_responses:
  assumes ok: "circ_ok n 10" and fw: "firmware_ok n fw" and rx: "et_rx n h t m" and tx: "et_tx n ch ct m"
    and on: "\<not> et_block_off (kci_data (mb_data m))" "\<not> resp_queue_lock (mb_data m)"
  shows "\<exists>i t' rs m'. gcip_mailbox_fetch_responses (et_ops fw soc usage polls) trylock m = Some (rs, m') \<and>
    et_rx n i t' m' \<and> (\<exists>ch'. et_tx n ch' ct m') \<and> h \<le> i \<and> t \<le> t' \<and> length rs = i - h \<and>
    take (t - h) rs = take (i - h) (queue_cells m n h t) \<and> (allocs m = [] \<longrightarrow> i = t') \<and>
    \<not> resp_queue_lock (mb_data m') \<and> wait_list m' = wait_list m \<and> resps m' = resps m"
proof -
  define m1 where "m1 = upd_kci (\<lambda>k. k\<lparr>resp_queue_lock := True\<rparr>) m"
  have m1: "et_during n ct m1 h t m1" "queue_cells m1 n h t = queue_cells m n h t" "allocs m1 = allocs m"
    "wait_list m1 = wait_list m" "resps m1 = resps m" using rx tx by (auto simp: m1_def et_during_def)
  have bounds: "h \<le> t" using rx by (simp add: et_rx_def)
  from response_queue.fetch_loop_spec [OF et_response_queue [OF ok fw, of soc usage polls ct m1], of h t m1 h]
  obtain i t' m2 where loop: "fetch_loop (et_ops fw soc usage polls) (word_of_nat n) 1024 (circ_index n 10 h) [] m1
      = Some (queue_cells m2 n h i, m2)"
    and m2: "et_during n ct m1 h t' m2" "t \<le> t'" "h \<le> i" "i \<le> t'" "allocs m1 = [] \<longrightarrow> i = t'"
      "queue_cells m2 n h t = queue_cells m1 n h t"
    using m1 bounds by auto
  then obtain ch' where m2': "et_rx n h t' m2" "host_part m2 = host_part m1" "et_tx n ch' ct m2"
    by (auto simp: et_during_def)
  obtain m3 m' where fin: "gcip_kci_inc_resp_queue_head (edgetpu_kci_ops fw soc usage) (word_of_nat (i - h)) m2 = Some m3"
      "gcip_kci_after_fetch_resps (edgetpu_kci_ops fw soc usage) (word_of_nat (i - h)) (gcip_kci_release_resp_queue_lock m3) = Some m'"
    and m': "et_rx n i t' m'" "et_tx n ch' ct m'" "\<not> resp_queue_lock (mb_data m')" "wait_list m' = wait_list m2" "resps m' = resps m2"
    using finish_fetch [OF ok m2'(1,3) m2(3,4)] by metis
  have "gcip_mailbox_fetch_responses (et_ops fw soc usage polls) trylock m = Some (queue_cells m2 n h i, m')"
    using on rx m1(1) [unfolded et_during_def, THEN conjunct1] loop fin
    by (simp add: gcip_mailbox_fetch_responses_def kci_mailbox_ops_def IS_BLOCK_OFF_def gcip_kci_is_block_off_def
        gcip_kci_get_resp_queue_size_def gcip_kci_acquire_resp_queue_lock_def gcip_kci_get_resp_queue_head_def
        edgetpu_kci_ops_def edgetpu_kci_is_block_off_def edgetpu_kci_get_resp_queue_size_def
        edgetpu_kci_get_resp_queue_head_def et_rx_def del: of_nat_diff flip: m1_def)
  moreover have "take (t - h) (queue_cells m2 n h i) = take (i - h) (queue_cells m n h t)"
    using m2(6) m1(2) queue_cells_take [of t i m2 n h] queue_cells_take [of i t m2 n h] by (cases "t \<le> i") auto
  ultimately show ?thesis
    using m' m2 m1 host_part_eqD [OF m2'(2)]
    by (intro exI [of _ i] exI [of _ t'] exI [of _ "queue_cells m2 n h i"] exI [of _ m']) auto
qed

section \<open>A concrete interface\<close>

lemma firmware_idle: "firmware_ok n (\<lambda>m. m)"
  unfolding firmware_ok_def
proof (intro allI impI)
  fix m :: et_state and h t ch ct
  assume q: "et_rx n h t m" "et_tx n ch ct m"
  then have "m = firmware_write (rx_queue m) (circ_index n 10 t) (circ_index n 10 ch) m"
    by (simp add: et_rx_def et_tx_def firmware_write_def upd_mbox_def upd_et_def upd_kci_def et_mailbox_def)
  then show "\<exists>t' ch' q. m = firmware_write q (circ_index n 10 t') (circ_index n 10 ch') m \<and> t \<le> t' \<and> t' \<le> h + n \<and>
      ch \<le> ch' \<and> ch' \<le> ct \<and> length q = n \<and> (\<forall>p. h \<le> p \<longrightarrow> p < t \<longrightarrow> q ! (p mod n) = rx_queue m ! (p mod n))"
    using q by (intro exI [of _ t] exI [of _ ch] exI [of _ "rx_queue m"]) (simp add: et_rx_def et_tx_def)
qed

text \<open>The driver's own queue size and operators, with firmware that is idle.\<close>

interpretation idle: response_queue "et_ops (\<lambda>m. m) soc usage polls" 1023 10 "et_during 1023 ct m0"
    "gcip_kci_get_resp_queue_tail (edgetpu_kci_ops (\<lambda>m. m) soc usage)" for soc usage polls ct m0
  by (rule et_response_queue [OF _ firmware_idle]) (simp add: circ_ok_def)

definition demo_mailbox :: edgetpu_mailbox where
  "demo_mailbox = \<lparr>cmd_queue_size = 2, cmd_queue_tail = 0, resp_queue_size = 2, resp_queue_head = 0,
     context_csr = \<lparr>context_enable = 1, cmd_queue_doorbell_enable = 0, cmd_queue_doorbell_clear = 0,
       cmd_queue_address_low = 0, cmd_queue_address_high = 0, csr_cmd_queue_size = 2, resp_queue_doorbell_enable = 0,
       resp_queue_address_low = 0, resp_queue_address_high = 0, csr_resp_queue_size = 2, config_spare_0 = 0,
       config_spare_1 = 0, config_spare_2 = 0, config_spare_3 = 0\<rparr>,
     cmd_csr = \<lparr>cmd_doorbell_set = 0, cmd_csr_head = 0, cmd_csr_tail = 0\<rparr>,
     resp_csr = \<lparr>resp_doorbell_clear = 0, resp_csr_head = 0, resp_csr_tail = 1\<rparr>\<rparr>"

definition demo_resp :: "u64 \<Rightarrow> u16 \<Rightarrow> gcip_kci_response_element" where
  "demo_resp seq code = \<lparr>kr_seq = seq, kr_code = code, rkci_value1 = 0, kr_retval = 0\<rparr>"

definition demo_cmd :: gcip_kci_command_element where
  "demo_cmd = \<lparr>kc_seq = 0, kc_code = 7, kc_dma = \<lparr>dma_address = 0, dma_size = 0, dma_flags = 0\<rparr>\<rparr>"

definition demo_kci :: et_state where
  "demo_kci = \<lparr>mb_mode = 31, queue_wrap_bit = 1024, cur_seq = 0, tx_queue = [demo_cmd, demo_cmd], tx_elem_size = 32,
     rx_queue = [demo_resp 1 5, demo_resp 0 0], rx_elem_size = 16, wait_list = Some [], mb_timeout = 1000,
     mb_ops_set = True,
     mb_data = \<lparr>kci_cur_seq = 0, cmd_queue_lock = False, resp_queue_lock = False, kci_work = False,
       rkci = \<lparr>rkci_head = 0, rkci_tail = 0, rkci_buffer_size = 2,
         rkci_buffer = Some [demo_resp 0 0, demo_resp 0 0], rkci_work = False\<rparr>,
       usage_work = False, kci_ops_set = True,
       kci_data = \<lparr>et_mbox = demo_mailbox, et_block_off = False, et_actions = []\<rparr>\<rparr>,
     resps = (\<lambda>_. None)(0 \<mapsto> demo_resp 0 0), async_resps = (\<lambda>_. None), awaiters = (\<lambda>_. None), next_addr = 1,
     allocs = []\<rparr>"

lemma demo_queues: "et_rx 2 0 1 demo_kci" "et_tx 2 0 0 demo_kci" "circ_ok 2 10"
  by (simp_all add: et_rx_def et_tx_def demo_kci_def demo_mailbox_def et_mailbox_def circ_index_def circ_reg_def circ_ok_def)

theorem fetch_returns_pending_responses_witness:
  "\<exists>i t' rs m'. gcip_mailbox_fetch_responses (et_ops (\<lambda>m. m) (\<lambda>r m. (True, m)) (\<lambda>m. m) 3) True demo_kci = Some (rs, m') \<and>
    et_rx 2 i t' m' \<and> (\<exists>ch'. et_tx 2 ch' 0 m') \<and> 0 \<le> i \<and> 1 \<le> t' \<and> length rs = i - 0 \<and>
    take (1 - 0) rs = take (i - 0) (queue_cells demo_kci 2 0 1) \<and> (allocs demo_kci = [] \<longrightarrow> i = t') \<and>
    \<not> resp_queue_lock (mb_data m') \<and> wait_list m' = wait_list demo_kci \<and> resps m' = resps demo_kci"
  by (rule fetch_returns_pending_responses [OF demo_queues(3) firmware_idle demo_queues(1,2)])
    (simp_all add: demo_kci_def)

end
