(* ===== verification/Kci_Send.thy ===== *)
theory Kci_Send
  imports Gcip_Waiters Gcip_Rkci Edgetpu_Kci_Props
begin

text \<open>
  A synchronous command of the control interface from end to end: the command goes to the queue,
  the responses that arrive meanwhile are handed out by their numbers, and the sender returns the
  code of its own response or a timeout.
\<close>

section \<open>Waiters of the control interface\<close>

interpretation kci: keyed_ops "kci_mailbox_ops kops polls" kr_seq for kops polls
  by unfold_locales (simp add: response_match_def kci_mailbox_ops_def gcip_kci_get_resp_elem_seq_def)

definition waiter_waits :: "('c, 'r, 'x) gcip_mailbox \<Rightarrow> gcip_mailbox_wait_list_elem \<Rightarrow> bool" where
  "waiter_waits m e \<longleftrightarrow> (case async_resps m (wl_async_resp e) of None \<Rightarrow> False | Some x \<Rightarrow> waiting x)"

text \<open>
  The waiters are senders of commands with numbers of their own: every one has a wrapper and a
  buffer that no other shares, and waits for a number that is not that of a reverse command.
\<close>

definition kci_waiters :: "'y kci_mailbox \<Rightarrow> gcip_mailbox_wait_list_elem list \<Rightarrow> bool" where
  "kci_waiters m l \<longleftrightarrow> wait_list m = Some l \<and> distinct (map wl_async_resp l) \<and> distinct (map (waiter_ptr m) l) \<and>
     distinct (map (\<lambda>e. map_option kr_seq (waiter_resp m e)) l) \<and>
     (\<forall>e\<in>set l. wl_awaiter e = None \<and> waiter_waits m e \<and>
        (\<exists>r. waiter_resp m e = Some r \<and> \<not> gcip_kci_is_rx_elem_reversed r))"

text \<open>What receiving leaves alone.\<close>

definition kci_static where
  "kci_static m = (tx_queue m, next_addr m, mb_mode m, queue_wrap_bit m, allocs m,
     kci_cur_seq (mb_data m), cmd_queue_lock (mb_data m), resp_queue_lock (mb_data m), kci_data (mb_data m))"

text \<open>An address and a buffer that no waiter of the list uses.\<close>

definition apart :: "('c, 'r, 'x) gcip_mailbox \<Rightarrow> gcip_mailbox_wait_list_elem \<Rightarrow> gcip_mailbox_wait_list_elem list \<Rightarrow> bool" where
  "apart m e l \<longleftrightarrow> wl_async_resp e \<notin> wl_async_resp ` set l \<and> waiter_ptr m e \<notin> waiter_ptr m ` set l"

lemma deliver_simps [simp]:
  "waiter_ptr (deliver r e l m) e' = waiter_ptr m e'"
  "wait_list (deliver r e l m) = Some l" "mb_data (deliver r e l m) = mb_data m"
  by (auto simp: deliver_def waiter_ptr_def split: option.splits bind_splits)

lemma deliver_static [simp]: "kci_static (deliver r e l m) = kci_static m"
  by (simp add: deliver_def kci_static_def)

lemma deliver_resp:
  "waiter_resp (deliver r e l m) e' =
     (if waiter_ptr m e' = waiter_ptr m e \<and> waiter_ptr m e \<noteq> None then Some r else waiter_resp m e')"
proof -
  have "resps (deliver r e l m) = (case waiter_ptr m e of None \<Rightarrow> resps m | Some p \<Rightarrow> (resps m)(p \<mapsto> r))"
    by (simp add: deliver_def)
  then show ?thesis
    unfolding waiter_resp_def deliver_simps(1) by (cases "waiter_ptr m e"; cases "waiter_ptr m e'") auto
qed

lemma deliver_waits:
  "waiter_waits (deliver r e l m) e' \<longleftrightarrow> wl_async_resp e' \<noteq> wl_async_resp e \<and> waiter_waits m e'"
  by (auto simp: waiter_waits_def deliver_def split: option.splits)

lemma upd_kci_waiters [simp]:
  "waiter_ptr (upd_kci f m) e = waiter_ptr m e" "waiter_resp (upd_kci f m) e = waiter_resp m e"
  "waiter_waits (upd_kci f m) e = waiter_waits m e"
  by (simp_all add: waiter_ptr_def waiter_resp_def waiter_waits_def)

lemma upd_kci_waiters_inv [simp]:
  "waits_for key (upd_kci f m) k e = waits_for key m k e"
  "kci_waiters (upd_kci f m) l = kci_waiters m l" "waiters_live (upd_kci f m) l = waiters_live m l"
  by (simp_all add: waits_for_def kci_waiters_def waiters_live_def cong: map_cong)

lemma kci_static_rkci [simp]: "kci_static (upd_kci (\<lambda>k. k\<lparr>rkci := rk\<rparr>) m) = kci_static m"
  by (simp add: kci_static_def upd_kci_def)

lemma kci_waiters_live: "kci_waiters m l \<Longrightarrow> waiters_live m l"
  by (auto simp: kci_waiters_def waiters_live_def)

lemma distinct_map_other:
  "distinct (map f l) \<Longrightarrow> e \<in> set l \<Longrightarrow> e' \<in> set l \<Longrightarrow> e \<noteq> e' \<Longrightarrow> f e \<noteq> f e'"
  by (auto simp: distinct_map dest: inj_onD)

lemma waits_for_unique:
  assumes "kci_waiters m l" "e \<in> set l" "e' \<in> set l" "waits_for kr_seq m s e" "waits_for kr_seq m s e'"
  shows "e = e'"
proof (rule ccontr)
  assume "e \<noteq> e'"
  from distinct_map_other [of "\<lambda>e. map_option kr_seq (waiter_resp m e)" l, OF _ assms(2,3) this]
  show False using assms(1,4,5) by (auto simp: kci_waiters_def waits_for_def)
qed

lemma remove1_waits:
  assumes "kci_waiters m l" "e \<in> set l" "waits_for kr_seq m s e"
  shows "remove1 e l = filter (\<lambda>e. \<not> waits_for kr_seq m s e) l"
proof -
  have "distinct l" using assms(1) by (auto simp: kci_waiters_def distinct_map)
  moreover have "(\<not> waits_for kr_seq m s e') = (e' \<noteq> e)" if "e' \<in> set l" for e'
    using waits_for_unique [OF assms(1,2) that] assms(3) by auto
  ultimately show ?thesis
    by (simp add: distinct_remove1_removeAll removeAll_filter_not_eq cong: filter_cong) (auto intro: filter_cong)
qed

lemma kci_waiters_filter:
  assumes "kci_waiters m l"
  shows "kci_waiters (m\<lparr>wait_list := Some (filter P l)\<rparr>) (filter P l)"
proof -
  have "waiter_ptr (m\<lparr>wait_list := x\<rparr>) e = waiter_ptr m e" "waiter_resp (m\<lparr>wait_list := x\<rparr>) e = waiter_resp m e"
    "waiter_waits (m\<lparr>wait_list := x\<rparr>) e = waiter_waits m e" for x e
    by (simp_all add: waiter_ptr_def waiter_resp_def waiter_waits_def)
  then show ?thesis using assms by (simp add: kci_waiters_def distinct_map_filter cong: map_cong)
qed

text \<open>The effect of one response on the waiters.\<close>

lemma kci_deliver:
  assumes l: "kci_waiters m l" and e: "e \<in> set l" "waits_for kr_seq m (kr_seq r) e"
  defines "l' \<equiv> filter (\<lambda>e. \<not> waits_for kr_seq m (kr_seq r) e) l"
  defines "m' \<equiv> deliver r e l' m"
  shows "kci_waiters m' l'" and "waiter_resp m' e = Some r" and "\<not> waiter_waits m' e"
    and "wl_async_resp e' \<noteq> wl_async_resp e \<Longrightarrow> waiter_ptr m e' \<noteq> waiter_ptr m e \<Longrightarrow>
      waiter_resp m' e' = waiter_resp m e' \<and> waiter_waits m' e' = waiter_waits m e'"
proof -
  have p: "waiter_ptr m e \<noteq> None" using e(2) by (cases "waiter_ptr m e") (auto simp: waits_for_def waiter_resp_def)
  then show "waiter_resp m' e = Some r" "\<not> waiter_waits m' e" by (simp_all add: m'_def deliver_resp deliver_waits)
  show other: "waiter_resp m' e' = waiter_resp m e' \<and> waiter_waits m' e' = waiter_waits m e'"
    if "wl_async_resp e' \<noteq> wl_async_resp e" "waiter_ptr m e' \<noteq> waiter_ptr m e" for e'
    using that by (simp add: m'_def deliver_resp deliver_waits)
  have "waiter_resp m' e' = waiter_resp m e' \<and> waiter_waits m' e' = waiter_waits m e'" if "e' \<in> set l'" for e'
  proof (rule other)
    have "e' \<in> set l" "e' \<noteq> e" using that e(2) by (auto simp: l'_def)
    then show "wl_async_resp e' \<noteq> wl_async_resp e" "waiter_ptr m e' \<noteq> waiter_ptr m e"
      using l e(1) distinct_map_other [of wl_async_resp l e' e] distinct_map_other [of "waiter_ptr m" l e' e]
      by (auto simp: kci_waiters_def)
  qed
  moreover have "waiter_ptr m' = waiter_ptr m" "wait_list m' = Some l'" by (rule ext, simp_all add: m'_def)
  ultimately show "kci_waiters m' l'"
    using kci_waiters_filter [OF l, of "\<lambda>e. \<not> waits_for kr_seq m (kr_seq r) e"]
    unfolding kci_waiters_def l'_def [symmetric]
    by (auto simp: waiter_ptr_def waiter_resp_def waiter_waits_def cong: map_cong)
qed

lemma handle_one_elem:
  fixes r :: gcip_kci_response_element
  assumes l: "kci_waiters m l" and rk: "rkci_ok (rkci (mb_data m))"
  defines "l' \<equiv> filter (\<lambda>e. \<not> waits_for kr_seq m (kr_seq r) e) l"
  shows "\<exists>m'. gcip_mailbox_handle_rx_elem (kci_mailbox_ops kops polls) r m = Some m' \<and> kci_waiters m' l' \<and>
    rkci_ok (rkci (mb_data m')) \<and> kci_static m' = kci_static m \<and> (\<forall>e. waiter_ptr m' e = waiter_ptr m e) \<and>
    (\<forall>e\<in>set l - set l'. waiter_resp m' e = Some r \<and> \<not> waiter_waits m' e) \<and>
    (\<forall>e. apart m e (filter (waits_for kr_seq m (kr_seq r)) l) \<longrightarrow>
      waiter_resp m' e = waiter_resp m e \<and> waiter_waits m' e = waiter_waits m e)"
proof (cases "gcip_kci_is_rx_elem_reversed r")
  case True
  have "\<not> waits_for kr_seq m (kr_seq r) e" if "e \<in> set l" for e
    using l that True by (fastforce simp: kci_waiters_def waits_for_def gcip_kci_is_rx_elem_reversed_def)
  then have "l' = l" by (simp add: l'_def filter_id_conv)
  moreover obtain ret rk' where "gcip_reverse_kci_add_resp r (rkci (mb_data m)) = Some (ret, rk')" "rkci_ok rk'"
    using add_resp_effect [OF rk, of r] rk by blast
  ultimately show ?thesis using True l
    by (simp add: gcip_mailbox_handle_rx_elem_def kci_mailbox_ops_def gcip_kci_handle_reversed_command_def)
next
  case False
  have h: "gcip_mailbox_handle_rx_elem (kci_mailbox_ops kops polls) r m
      = gcip_mailbox_handle_response (kci_mailbox_ops kops polls) r m"
    using False by (simp add: gcip_mailbox_handle_rx_elem_def kci_mailbox_ops_def)
  have wl: "wait_list m = Some l" using l by (simp add: kci_waiters_def)
  note spec = kci.handle_response_spec [OF wl kci_waiters_live [OF l], of kops polls r]
  show ?thesis
  proof (cases "find (waits_for kr_seq m (kr_seq r)) l")
    case None
    then have "l' = l" by (auto simp: l'_def find_None_iff filter_id_conv)
    then show ?thesis using h spec None l rk by (simp add: gcip_mailbox_handle_response_def)
  next
    case (Some e)
    note e = find_SomeD [OF Some, THEN conjunct1] find_SomeD [OF Some, THEN conjunct2]
    have rem: "remove1 e l = l'" using remove1_waits [OF l e] by (simp add: l'_def)
    have aw: "wl_awaiter e = None" using l e by (simp add: kci_waiters_def)
    have only: "e' = e" if "e' \<in> set l - set l'" for e'
      using that waits_for_unique [OF l e(1) _ e(2)] by (auto simp: l'_def)
    show ?thesis
      using h spec Some aw rem kci_deliver [OF l e, folded l'_def] only rk e
      by (auto simp: gcip_mailbox_handle_response_def apart_def)
  qed
qed

lemma apart_member:
  assumes "kci_waiters m l" "e \<in> set l" "set l1 \<subseteq> set l" "e \<notin> set l1"
  shows "apart m e l1"
  unfolding apart_def
proof (intro conjI notI)
  assume "wl_async_resp e \<in> wl_async_resp ` set l1"
  then show False using assms distinct_map_other [of wl_async_resp l e] by (auto simp: kci_waiters_def)
next
  assume "waiter_ptr m e \<in> waiter_ptr m ` set l1"
  then show False using assms distinct_map_other [of "waiter_ptr m" l e] by (auto simp: kci_waiters_def)
qed

lemma apart_subset: "apart m e l \<Longrightarrow> set l' \<subseteq> set l \<Longrightarrow> apart m e l'"
  by (auto simp: apart_def)

text \<open>A waiter's answer is the first element of the list that has its number.\<close>

definition answered :: "'y kci_mailbox \<Rightarrow> 'y kci_mailbox \<Rightarrow> gcip_mailbox_wait_list_elem list
    \<Rightarrow> gcip_kci_response_element list \<Rightarrow> gcip_mailbox_wait_list_elem \<Rightarrow> bool" where
  "answered m m' l' rs e \<longleftrightarrow>
     (case find (\<lambda>r. waits_for kr_seq m (kr_seq r) e) rs of
        None \<Rightarrow> e \<in> set l' \<and> waiter_resp m' e = waiter_resp m e \<and> waiter_waits m' e
      | Some r \<Rightarrow> e \<notin> set l' \<and> waiter_resp m' e = Some r \<and> \<not> waiter_waits m' e)"

lemma handle_elems:
  assumes "kci_waiters m l" "rkci_ok (rkci (mb_data m))"
  shows "\<exists>m' l'. handle_rx_elems (kci_mailbox_ops kops polls) rs m = Some m' \<and> kci_waiters m' l' \<and> set l' \<subseteq> set l \<and>
    rkci_ok (rkci (mb_data m')) \<and> kci_static m' = kci_static m \<and> (\<forall>e. waiter_ptr m' e = waiter_ptr m e) \<and>
    (\<forall>e\<in>set l. answered m m' l' rs e) \<and>
    (\<forall>e. apart m e l \<longrightarrow> waiter_resp m' e = waiter_resp m e \<and> waiter_waits m' e = waiter_waits m e)"
  using assms
proof (induction rs arbitrary: m l)
  case Nil
  then show ?case by (auto simp: answered_def kci_waiters_def)
next
  case (Cons r rs)
  define l1 where "l1 = filter (\<lambda>e. \<not> waits_for kr_seq m (kr_seq r) e) l"
  obtain m1 where m1: "gcip_mailbox_handle_rx_elem (kci_mailbox_ops kops polls) r m = Some m1" "kci_waiters m1 l1"
      "rkci_ok (rkci (mb_data m1))" "kci_static m1 = kci_static m" "\<And>e. waiter_ptr m1 e = waiter_ptr m e"
      "\<And>e. e \<in> set l - set l1 \<Longrightarrow> waiter_resp m1 e = Some r \<and> \<not> waiter_waits m1 e"
      "\<And>e. apart m e (filter (waits_for kr_seq m (kr_seq r)) l) \<Longrightarrow>
        waiter_resp m1 e = waiter_resp m e \<and> waiter_waits m1 e = waiter_waits m e"
    using handle_one_elem [OF Cons.prems, of kops polls r, folded l1_def] by blast
  have sub: "set l1 \<subseteq> set l" by (auto simp: l1_def)
  obtain m' l' where m': "handle_rx_elems (kci_mailbox_ops kops polls) rs m1 = Some m'" "kci_waiters m' l'" "set l' \<subseteq> set l1"
      "rkci_ok (rkci (mb_data m'))" "kci_static m' = kci_static m1" "\<And>e. waiter_ptr m' e = waiter_ptr m1 e"
      "\<And>e. e \<in> set l1 \<Longrightarrow> answered m1 m' l' rs e"
      "\<And>e. apart m1 e l1 \<Longrightarrow> waiter_resp m' e = waiter_resp m1 e \<and> waiter_waits m' e = waiter_waits m1 e"
    using Cons.IH [OF m1(2,3)] by blast
  have apart1: "apart m1 e l1 \<longleftrightarrow> apart m e l1" for e by (simp add: apart_def m1(5) image_iff)
  have "answered m m' l' (r # rs) e" if e: "e \<in> set l" for e
  proof (cases "waits_for kr_seq m (kr_seq r) e")
    case True
    then have "e \<notin> set l1" by (simp add: l1_def)
    moreover from this have "apart m e l1" using apart_member [OF Cons.prems(1) e sub] by simp
    ultimately show ?thesis using True m1(6) [of e] m'(3) m'(8) [of e] apart1 e by (auto simp: answered_def)
  next
    case False
    then have "e \<in> set l1" using e by (simp add: l1_def)
    have "apart m e (filter (waits_for kr_seq m (kr_seq r)) l)"
      using False e by (intro apart_member [OF Cons.prems(1)]) auto
    from m1(7) [OF this] have same: "waiter_resp m1 e = waiter_resp m e" "waiter_waits m1 e = waiter_waits m e" by auto
    then have "find (\<lambda>r. waits_for kr_seq m1 (kr_seq r) e) rs = find (\<lambda>r. waits_for kr_seq m (kr_seq r) e) rs"
      by (simp add: waits_for_def)
    then show ?thesis using m'(7) [OF \<open>e \<in> set l1\<close>] False same
      by (simp add: answered_def split: option.splits)
  qed
  moreover have "waiter_resp m' e = waiter_resp m e \<and> waiter_waits m' e = waiter_waits m e" if "apart m e l" for e
    using m'(8) [of e] m1(7) [of e] apart_subset [OF that] sub apart1 by (auto simp: subset_iff)
  ultimately show ?case using m1 m' sub by (intro exI [of _ m'] exI [of _ l']) auto
qed

section \<open>Sending\<close>

lemma wait_event_at_once: "cond s = (True, s') \<Longrightarrow> wait_event_timeout polls cond s = (True, s')"
  by (cases polls) auto

lemma et_not_full:
  assumes ok: "circ_ok n 10" and fw: "firmware_ok n fw" and q: "et_rx n h t m" "et_tx n ch ct m" and room: "ct < ch + n"
  shows "gcip_kci_wait_for_cmd_queue_not_full (edgetpu_kci_ops fw soc usage) polls m = Some (0, fw m)"
proof -
  obtain t' ch' where tx: "et_tx n ch' ct (fw m)" "ch \<le> ch'" using firmware_step [OF fw q] by auto
  have "(circ_index n 10 ch' :: u64) \<noteq> circ_index n 10 ct XOR 2 ^ 10"
    using circ_index_eq_iff(2) [OF ok, of ch' ct, where ?'a = 64] tx room by (simp add: et_tx_def)
  then have "ucast (cmd_csr_head (cmd_csr (et_mailbox (fw m)))) \<noteq> (ucast (cmd_queue_tail (et_mailbox m)) XOR queue_wrap_bit (fw m) :: u64)"
    using tx(1) q(2) by (simp add: et_tx_def ucast_circ_index [OF ok])
  then show ?thesis
    by (simp add: gcip_kci_wait_for_cmd_queue_not_full_def edgetpu_kci_ops_def edgetpu_kci_get_cmd_queue_tail_def
        edgetpu_kci_get_cmd_queue_head_def wait_event_at_once)
qed

definition kci_mode :: u8 where
  "kci_mode = GCIP_MAILBOX_MODE_BIDIRECTIONAL OR GCIP_MAILBOX_MODE_SEQ_EXTERNAL"

lemma kci_mode_external [simp]: "\<not> should_maintain_seq_num kci_mode"
  by (simp add: should_maintain_seq_num_def has_mode_def kci_mode_def GCIP_MAILBOX_MODE_BIDIRECTIONAL_def
      GCIP_MAILBOX_MODE_SEQ_EXTERNAL_def)

lemma et_store:
  assumes ok: "circ_ok n 10" and tx: "et_tx n ch ct m" and rx: "et_rx n h t m" and room: "ct < ch + n"
    and mode: "mb_mode m = kci_mode"
  shows "\<exists>m'. enqueue_store (et_ops fw soc usage polls) cmd m = Some (0, m') \<and> et_tx n ch (Suc ct) m' \<and> et_rx n h t m' \<and>
    tx_queue m' = (tx_queue m)[ct mod n := cmd] \<and> wait_list m' = wait_list m \<and> resps m' = resps m \<and>
    async_resps m' = async_resps m \<and> next_addr m' = next_addr m \<and> allocs m' = allocs m \<and>
    cmd_queue_lock (mb_data m') = cmd_queue_lock (mb_data m) \<and> kci_cur_seq (mb_data m') = kci_cur_seq (mb_data m) \<and>
    rkci (mb_data m') = rkci (mb_data m)"
proof -
  have n: "0 < n" "n < 4294967296" using ok circ_ok_bound [OF ok] by (auto simp: circ_ok_def)
  then have idx: "unat (CIRC_QUEUE_REAL_INDEX (ucast (circ_index n 10 ct :: u32)) (1024 :: u64)) = ct mod n"
    using circ_reg_real [of 10 "ct mod n", where ?'a = 64] circ_ok_mod [OF ok, of ct]
    unfolding ucast_circ_index [OF ok] by (simp add: circ_index_def unat_of_nat)
  have tail: "gcip_circ_queue_inc (circ_index n 10 ct) 1 (word_of_nat n) CIRC_QUEUE_WRAP_BIT = circ_index n 10 (Suc ct)"
    using circ_queue_inc_exact [OF ok, of 1 ct] n by (simp add: CIRC_QUEUE_WRAP_BIT_def)
  show ?thesis using tx rx room mode n idx tail
    by (auto simp: enqueue_store_def kci_mailbox_ops_def gcip_kci_get_cmd_queue_tail_def gcip_kci_inc_cmd_queue_tail_def
        edgetpu_kci_ops_def edgetpu_kci_get_cmd_queue_tail_def edgetpu_kci_inc_cmd_queue_tail_def et_tx_def et_rx_def
        gcip_kci_after_enqueue_cmd_def edgetpu_kci_trigger_doorbell_def edgetpu_mailbox_inc_cmd_queue_tail_def
        edgetpu_mailbox_set_cmd_queue_tail_def et_mailbox_def)
qed

lemma et_enqueue:
  assumes ok: "circ_ok n 10" and fw: "firmware_ok n fw" and rx: "et_rx n h t m" and tx: "et_tx n ch ct m"
    and room: "ct < ch + n" and mode: "mb_mode m = kci_mode" and free: "\<not> cmd_queue_lock (mb_data m)" and mem: "allocs m = []"
    and l: "wait_list m = Some l" and a: "async_resps m a = Some x" "resp_ptr x = Some p" "resps m p = Some r0"
  shows "\<exists>m' t' ch'. gcip_mailbox_enqueue_cmd (et_ops fw soc usage polls) cmd a None m = Some (0, cmd, m') \<and>
    et_rx n h t' m' \<and> et_tx n ch' (Suc ct) m' \<and> tx_queue m' = (tx_queue m)[ct mod n := cmd] \<and>
    wait_list m' = Some (l @ [\<lparr>wl_async_resp = a, wl_awaiter = None\<rparr>]) \<and>
    resps m' = (resps m)(p \<mapsto> r0\<lparr>kr_seq := kc_seq cmd\<rparr>) \<and>
    async_resps m' = (async_resps m)(a \<mapsto> x\<lparr>waiting := True\<rparr>) \<and> next_addr m' = next_addr m \<and>
    \<not> cmd_queue_lock (mb_data m') \<and> kci_cur_seq (mb_data m') = kci_cur_seq (mb_data m) \<and>
    rkci (mb_data m') = rkci (mb_data m)"
proof -
  define m1 where "m1 = upd_kci (\<lambda>k. k\<lparr>cmd_queue_lock := True\<rparr>) m"
  have m1: "et_rx n h t m1" "et_tx n ch ct m1" "mb_mode m1 = kci_mode" using rx tx mode by (simp_all add: m1_def)
  obtain t' ch' where fws: "et_rx n h t' (fw m1)" "et_tx n ch' ct (fw m1)" "ch \<le> ch'" "allocs (fw m1) = allocs m1"
    "host_part (fw m1) = host_part m1" using firmware_step [OF fw m1(1,2)] by auto
  note host = host_part_eqD [OF fws(5)]
  define m2 where "m2 = (fw m1)\<lparr>resps := (resps m)(p \<mapsto> r0\<lparr>kr_seq := kc_seq cmd\<rparr>),
    async_resps := (async_resps m)(a \<mapsto> x\<lparr>waiting := True\<rparr>),
    wait_list := Some (l @ [\<lparr>wl_async_resp = a, wl_awaiter = None\<rparr>])\<rparr>"
  have m2: "et_tx n ch' ct m2" "et_rx n h t' m2" "mb_mode m2 = kci_mode"
    using fws host m1 by (auto simp: m2_def et_tx_def et_rx_def et_mailbox_def)
  have "enqueue_waiter (et_ops fw soc usage polls) cmd a None (fw m1) = Some (0, m2)"
    using host a l mem fws
    by (simp add: enqueue_waiter_def kci_mailbox_ops_def gcip_mailbox_push_wait_resp_def m1_def m2_def kmalloc_ok_def
        gcip_kci_get_cmd_elem_seq_def gcip_kci_set_resp_elem_seq_def)
  moreover obtain m3 where m3: "enqueue_store (et_ops fw soc usage polls) cmd m2 = Some (0, m3)"
    "et_tx n ch' (Suc ct) m3" "et_rx n h t' m3" "tx_queue m3 = (tx_queue m2)[ct mod n := cmd]" "wait_list m3 = wait_list m2"
    "resps m3 = resps m2" "async_resps m3 = async_resps m2" "next_addr m3 = next_addr m2"
    "kci_cur_seq (mb_data m3) = kci_cur_seq (mb_data m2)" "rkci (mb_data m3) = rkci (mb_data m2)"
    using et_store [OF ok m2(1,2) _ m2(3), of fw soc usage polls cmd] room fws by auto
  moreover have "gcip_kci_wait_for_cmd_queue_not_full (edgetpu_kci_ops fw soc usage) polls m1 = Some (0, fw m1)"
    by (rule et_not_full [OF ok fw m1(1,2) room])
  ultimately have "gcip_mailbox_enqueue_cmd (et_ops fw soc usage polls) cmd a None m
      = Some (0, cmd, gcip_kci_release_cmd_queue_lock m3)"
    using free mode by (simp add: gcip_mailbox_enqueue_cmd_def kci_mailbox_ops_def gcip_kci_acquire_cmd_queue_lock_def flip: m1_def)
      (simp add: m1_def mode)
  then show ?thesis using m3 host
    by (auto simp: gcip_kci_release_cmd_queue_lock_def m2_def m1_def)
qed

lemma waiter_cong:
  assumes "async_resps m' (wl_async_resp e) = async_resps m (wl_async_resp e)"
    and "\<And>p. waiter_ptr m e = Some p \<Longrightarrow> resps m' p = resps m p"
  shows "waiter_ptr m' e = waiter_ptr m e" "waiter_resp m' e = waiter_resp m e" "waiter_waits m' e = waiter_waits m e"
proof -
  show p: "waiter_ptr m' e = waiter_ptr m e" "waiter_waits m' e = waiter_waits m e"
    using assms by (simp_all add: waiter_ptr_def waiter_waits_def)
  show "waiter_resp m' e = waiter_resp m e"
    using assms p by (cases "waiter_ptr m e") (simp_all add: waiter_resp_def)
qed

lemma kci_waiters_cong:
  assumes "kci_waiters m l" "wait_list m' = Some l"
    and "\<And>e. e \<in> set l \<Longrightarrow> async_resps m' (wl_async_resp e) = async_resps m (wl_async_resp e)"
    and "\<And>e p. e \<in> set l \<Longrightarrow> waiter_ptr m e = Some p \<Longrightarrow> resps m' p = resps m p"
  shows "kci_waiters m' l"
proof -
  have "waiter_ptr m' e = waiter_ptr m e" "waiter_resp m' e = waiter_resp m e" "waiter_waits m' e = waiter_waits m e"
    if "e \<in> set l" for e using waiter_cong [of m' e m] assms(3,4) that by auto
  then show ?thesis using assms(1,2) by (simp add: kci_waiters_def cong: map_cong)
qed

lemma kci_waiters_add:
  assumes l: "kci_waiters m l" and new: "wl_async_resp e \<notin> wl_async_resp ` set l" "Some p \<notin> waiter_ptr m ` set l"
    "\<And>e'. e' \<in> set l \<Longrightarrow> \<not> waits_for kr_seq m (kr_seq r) e'" "wl_awaiter e = None" "\<not> gcip_kci_is_rx_elem_reversed r"
    and m': "async_resps m' = (async_resps m)(wl_async_resp e \<mapsto> x)" "waiting x" "resp_ptr x = Some p"
    "resps m' = (resps m)(p \<mapsto> r)" "wait_list m' = Some (l @ [e])"
  shows "kci_waiters m' (l @ [e])"
proof -
  have old: "waiter_ptr m' e' = waiter_ptr m e'" "waiter_resp m' e' = waiter_resp m e'" "waiter_waits m' e' = waiter_waits m e'"
    if "e' \<in> set l" for e'
  proof -
    have "async_resps m' (wl_async_resp e') = async_resps m (wl_async_resp e')" using that new(1) m'(1)
      by (metis fun_upd_other imageI)
    moreover have "resps m' q = resps m q" if "waiter_ptr m e' = Some q" for q
      using that \<open>e' \<in> set l\<close> new(2) m'(4) by force
    ultimately show "waiter_ptr m' e' = waiter_ptr m e'" "waiter_resp m' e' = waiter_resp m e'" "waiter_waits m' e' = waiter_waits m e'"
      using waiter_cong [of m' e' m] by auto
  qed
  have e: "waiter_ptr m' e = Some p" "waiter_resp m' e = Some r" "waiter_waits m' e"
    using m' by (simp_all add: waiter_ptr_def waiter_resp_def waiter_waits_def)
  have "Some (kr_seq r) \<notin> (\<lambda>e. map_option kr_seq (waiter_resp m e)) ` set l"
    using new(3) by (force simp: waits_for_def)
  then show ?thesis using l new m'(5) e old
    by (auto simp: kci_waiters_def cong: map_cong image_cong)
qed

text \<open>The end of a synchronous command: the sender's own waiter is gone, the others are as they were.\<close>

lemma send_finish:
  assumes l: "kci_waiters m (l' :: gcip_mailbox_wait_list_elem list)" and e: "wl_awaiter e = None" "waits_for kr_seq m s e" "e \<in> set l'"
  shows "gcip_mailbox_del_wait_resp (kci_mailbox_ops kops polls) (wl_async_resp e) m = Some (True, m\<lparr>wait_list := Some (remove1 e l')\<rparr>)"
    and "kci_waiters (m\<lparr>wait_list := Some (remove1 e l')\<rparr>) (remove1 e l')"
proof -
  obtain r where r: "waiter_resp m e = Some r" "kr_seq r = s" using e(2) by (auto simp: waits_for_def)
  obtain x where x: "async_resps m (wl_async_resp e) = Some x" "resp_deref m (resp_ptr x) = Some r"
    using r(1) by (auto simp: resp_deref_def elim!: waiter_resp_SomeD)
  obtain e' where f: "find (waits_for kr_seq m (kr_seq r)) l' = Some e'"
    using e r by (cases "find (waits_for kr_seq m (kr_seq r)) l'") (auto simp: find_None_iff)
  then have "e' = e" using find_SomeD [OF f] waits_for_unique [OF l e(3)] e(2) r by metis
  moreover have "wait_list m = Some l'" using l by (simp add: kci_waiters_def)
  ultimately show "gcip_mailbox_del_wait_resp (kci_mailbox_ops kops polls) (wl_async_resp e) m
      = Some (True, m\<lparr>wait_list := Some (remove1 e l')\<rparr>)"
    using kci.del_wait_resp_spec [OF _ kci_waiters_live [OF l] x, of kops polls] f e(1) by simp
  show "kci_waiters (m\<lparr>wait_list := Some (remove1 e l')\<rparr>) (remove1 e l')"
    using kci_waiters_filter [OF l] remove1_waits [OF l e(3,2)] by simp
qed

text \<open>
  C4: A synchronous command. With room in the command queue and firmware that keeps to the
  protocol, the command is stored under the next number, and the call returns, whatever
  responses are handled while it waits: with the code of the first response that carries this
  number, or with a timeout if there is none. The waiters that remain are those of before,
  and nothing refers to the sender's stack.
\<close>

theorem kci_send_returns_own_response:
  assumes ok: "circ_ok n 10" and fw: "firmware_ok n fw" and rx: "et_rx n h t m" and tx: "et_tx n ch ct m"
    and room: "ct < ch + n" and mode: "mb_mode m = kci_mode" and free: "\<not> cmd_queue_lock (mb_data m)" and mem: "allocs m = []"
    and l: "kci_waiters m l" "\<And>e. e \<in> set l \<Longrightarrow> wl_async_resp e < next_addr m"
    and rk: "rkci_ok (rkci (mb_data m))"
    and buf: "resps m p = Some r0" "Some p \<notin> waiter_ptr m ` set l"
    and seq: "seq = kci_cur_seq (mb_data m) + 1" "seq AND GCIP_KCI_REVERSE_FLAG = 0"
      "\<And>e. e \<in> set l \<Longrightarrow> \<not> waits_for kr_seq m seq e"
    and cmd: "kc_seq cmd AND GCIP_KCI_REVERSE_FLAG = 0"
  shows "\<exists>m' l'. gcip_kci_send_cmd_return_resp (edgetpu_kci_ops fw soc usage) polls
        (\<lambda>_. handle_rx_elems (et_ops fw soc usage polls) rs) cmd (Some p) m
      = Some (case find (\<lambda>r. kr_seq r = seq) rs of None \<Rightarrow> - ETIMEDOUT | Some r \<Rightarrow> int (unat (kr_code r)),
              cmd\<lparr>kc_seq := seq\<rparr>, m') \<and>
    kci_waiters m' l' \<and> set l' \<subseteq> set l \<and> tx_queue m' = (tx_queue m)[ct mod n := cmd\<lparr>kc_seq := seq\<rparr>] \<and>
    async_resps m' (next_addr m) = None \<and> \<not> cmd_queue_lock (mb_data m')"
proof -
  define a where "a = next_addr m"
  define e where "e = \<lparr>wl_async_resp = a, wl_awaiter = None\<rparr>"
  define m0 where "m0 = (upd_kci (\<lambda>k. k\<lparr>kci_cur_seq := seq\<rparr>) m)
    \<lparr>async_resps := (async_resps m)(a \<mapsto> \<lparr>waiting = False, resp_ptr = Some p\<rparr>), next_addr := Suc a\<rparr>"
  have m0: "et_rx n h t m0" "et_tx n ch ct m0" "mb_mode m0 = kci_mode" "\<not> cmd_queue_lock (mb_data m0)" "allocs m0 = []"
    "wait_list m0 = Some l" "resps m0 = resps m" "tx_queue m0 = tx_queue m" "rkci (mb_data m0) = rkci (mb_data m)"
    "async_resps m0 a = Some \<lparr>waiting = False, resp_ptr = Some p\<rparr>"
    using rx tx mode free mem l(1)
    by (simp_all add: m0_def et_rx_def et_tx_def et_mailbox_def kci_waiters_def upd_kci_def)
  obtain m1 where m1: "gcip_mailbox_enqueue_cmd (et_ops fw soc usage polls) (cmd\<lparr>kc_seq := seq\<rparr>) a None m0
      = Some (0, cmd\<lparr>kc_seq := seq\<rparr>, m1)" "tx_queue m1 = (tx_queue m)[ct mod n := cmd\<lparr>kc_seq := seq\<rparr>]"
      "wait_list m1 = Some (l @ [e])" "resps m1 = (resps m)(p \<mapsto> r0\<lparr>kr_seq := seq\<rparr>)"
      "async_resps m1 = (async_resps m)(a \<mapsto> \<lparr>waiting = True, resp_ptr = Some p\<rparr>)" "\<not> cmd_queue_lock (mb_data m1)"
      "rkci (mb_data m1) = rkci (mb_data m)"
    using et_enqueue [OF ok fw m0(1,2) room m0(3-6,10), of p r0 soc usage polls "cmd\<lparr>kc_seq := seq\<rparr>"] buf m0(7-9)
    by (auto simp: e_def m0_def)
  have "wl_async_resp e \<notin> wl_async_resp ` set l" using l(2) by (force simp: e_def a_def)
  then have l1: "kci_waiters m1 (l @ [e])"
    using l(1) buf(2) seq m1 by (intro kci_waiters_add [of m l e p "r0\<lparr>kr_seq := seq\<rparr>"]) (auto simp: e_def gcip_kci_is_rx_elem_reversed_def)
  obtain m2 l2 where m2: "handle_rx_elems (et_ops fw soc usage polls) rs m1 = Some m2" "kci_waiters m2 l2" "set l2 \<subseteq> set (l @ [e])"
      "kci_static m2 = kci_static m1" "waiter_ptr m2 e = waiter_ptr m1 e" "answered m1 m2 l2 rs e"
    using handle_elems [OF l1, of "edgetpu_kci_ops fw soc usage" polls rs] m1(7) rk by auto
  have own: "waiter_resp m1 e = Some (r0\<lparr>kr_seq := seq\<rparr>)" "waiter_ptr m1 e = Some p"
    using m1(4,5) by (simp_all add: waiter_resp_def waiter_ptr_def e_def)
  obtain x where x: "async_resps m2 a = Some x" "resp_ptr x = Some p" "waiting x = waiter_waits m2 e"
    using m2(5) own(2) by (auto simp: waiter_ptr_def waiter_waits_def e_def bind_eq_Some_conv)
  have found: "find (\<lambda>r. waits_for kr_seq m1 (kr_seq r) e) rs = find (\<lambda>r. kr_seq r = seq) rs"
    by (rule arg_cong2 [of _ _ _ _ find]) (auto simp: waits_for_def own(1) fun_eq_iff)
  define drop where "drop m = m\<lparr>async_resps := (async_resps m)(a := None)\<rparr>" for m :: et_state
  have run: "gcip_kci_send_cmd_return_resp (edgetpu_kci_ops fw soc usage) polls
        (\<lambda>_. handle_rx_elems (et_ops fw soc usage polls) rs) cmd (Some p) m =
      (if \<not> waiting x then do { r \<leftarrow> resps m2 p; Some (int (unat (kr_code r)), cmd\<lparr>kc_seq := seq\<rparr>, drop m2) }
       else do {
         (_, m3) \<leftarrow> gcip_mailbox_del_wait_resp (et_ops fw soc usage polls) a m2;
         Some (- ETIMEDOUT, cmd\<lparr>kc_seq := seq\<rparr>, drop m3) })"
    using m1(1) m2(1) x(1) cmd
    by (simp add: gcip_kci_send_cmd_return_resp_def gcip_mailbox_send_cmd_def Let_def m0_def upd_kci_frame drop_def
        flip: a_def seq(1))
      (auto simp: kci_mailbox_ops_def gcip_kci_on_error_def edgetpu_kci_ops_def edgetpu_kci_on_error_def split: option.splits bind_splits)
  have drop: "kci_waiters (drop m') l'" if "kci_waiters m' l'" "set l' \<subseteq> set l" for m' l'
  proof (rule kci_waiters_cong [OF that(1)])
    show "async_resps (drop m') (wl_async_resp e') = async_resps m' (wl_async_resp e')" if "e' \<in> set l'" for e'
      using that \<open>set l' \<subseteq> set l\<close> l(2) [of e'] by (auto simp: drop_def a_def)
  qed (use that in \<open>simp_all add: drop_def kci_waiters_def\<close>)
  note static = m2(4) [unfolded kci_static_def]
  show ?thesis
  proof (cases "find (\<lambda>r. kr_seq r = seq) rs")
    case (Some r)
    then have r: "e \<notin> set l2" "waiter_resp m2 e = Some r" "\<not> waiting x" using m2(6) found x(3) by (simp_all add: answered_def)
    then have "resps m2 p = Some r" "set l2 \<subseteq> set l" using m2(3,5) own(2) by (auto simp: waiter_resp_def)
    then show ?thesis using run r Some drop [OF m2(2)] static m1
      by (intro exI [of _ "drop m2"] exI [of _ l2]) (simp add: drop_def a_def)
  next
    case None
    then have e: "e \<in> set l2" "waiting x" "waits_for kr_seq m2 seq e"
      using m2(6) found x(3) own by (simp_all add: answered_def waits_for_def)
    have aw: "wl_awaiter e = None" "wl_async_resp e = a" by (simp_all add: e_def)
    note fin = send_finish(1) [OF m2(2) aw(1) e(3,1), of "edgetpu_kci_ops fw soc usage" polls, unfolded aw(2)]
      send_finish(2) [OF m2(2) aw(1) e(3,1)]
    have "distinct l2" using m2(2) by (auto simp: kci_waiters_def distinct_map)
    then have "set (remove1 e l2) \<subseteq> set l" using m2(3) by auto
    then show ?thesis using run e None fin(1) drop [OF fin(2)] static m1
      by (intro exI [of _ "drop (m2\<lparr>wait_list := Some (remove1 e l2)\<rparr>)"] exI [of _ "remove1 e l2"]) (simp add: drop_def a_def)
  qed
qed

lemma demo_rkci: "rkci_ok (rkci (mb_data demo_kci))"
  unfolding rkci_ok_def by (rule exI [of _ 1]) (simp add: demo_kci_def)

theorem kci_send_returns_own_response_witness:
  "\<exists>m' l'. gcip_kci_send_cmd_return_resp (edgetpu_kci_ops (\<lambda>m. m) (\<lambda>r m. (True, m)) (\<lambda>m. m)) 3
        (\<lambda>_. handle_rx_elems (et_ops (\<lambda>m. m) (\<lambda>r m. (True, m)) (\<lambda>m. m) 3) [demo_resp 9 2, demo_resp 1 5])
        demo_cmd (Some 0) demo_kci
      = Some (case find (\<lambda>r. kr_seq r = 1) [demo_resp 9 2, demo_resp 1 5] of
                None \<Rightarrow> - ETIMEDOUT | Some r \<Rightarrow> int (unat (kr_code r)), demo_cmd\<lparr>kc_seq := 1\<rparr>, m') \<and>
    kci_waiters m' l' \<and> set l' \<subseteq> set [] \<and> tx_queue m' = (tx_queue demo_kci)[0 mod 2 := demo_cmd\<lparr>kc_seq := 1\<rparr>] \<and>
    async_resps m' (next_addr demo_kci) = None \<and> \<not> cmd_queue_lock (mb_data m')"
  by (rule kci_send_returns_own_response [OF demo_queues(3) firmware_idle demo_queues(1,2)])
    (simp_all add: demo_kci_def demo_cmd_def demo_rkci [unfolded demo_kci_def, simplified] kci_waiters_def kci_mode_def
      GCIP_MAILBOX_MODE_BIDIRECTIONAL_def GCIP_MAILBOX_MODE_SEQ_EXTERNAL_def GCIP_KCI_REVERSE_FLAG_def)

end
