(* ===== verification/Gcip_Awaiters.thy ===== *)
theory Gcip_Awaiters
  imports Gcip_Waiters
begin

text \<open>
  Asynchronous commands under concurrency. The arrival of a response, the timeout, a cancellation
  and the owner race for an awaiter; each of them is a thread here, interleaved with the others
  between any two operations that the code does under the lock of the wait list or atomically.
  The theory shows that reference counts are exact, so that no thread touches a freed awaiter,
  that one handler at most gets the awaiter, and that a cancellation never waits in vain.
\<close>

section \<open>Threads\<close>

text \<open>
  Where a thread is: in \<open>gcip_mailbox_handle_response\<close> after the locked section, in
  \<open>gcip_mailbox_async_cmd_timeout_work\<close>, in \<open>gcip_mailbox_cancel_awaiter\<close>.
\<close>

datatype job =
    Arrived_Cancel_Timer nat | Arrived_Callback nat | Arrived_Complete nat | Arrived_Put nat
  | Timeout_Delete nat | Timeout_Callback nat | Timeout_Complete nat | Timeout_Put nat
  | Cancel_Timer nat | Cancel_Delete nat | Cancel_Wait nat

datatype claim = By_Response | By_Timeout | By_Cancel

text \<open>
  The state: the mailbox, the threads, the awaiters that their owner still holds, and who took
  each awaiter off the wait list.
\<close>

record ('c, 'r, 'x) asys =
  as_mb :: "('c, 'r, 'x) gcip_mailbox"
  as_jobs :: "job list"
  as_owned :: "nat set"
  as_claimed :: "nat \<Rightarrow> claim option"

text \<open>
  One step of a thread: \<^const>\<open>None\<close> is a fault, \<open>Some None\<close> a thread that has to wait, otherwise what
  remains of the thread, the mailbox and the claims.
\<close>

definition goes_on where
  "goes_on r js cl = map_option (\<lambda>m. Some (js, m, cl)) r"

fun job_step ::
  "('c, 'r, 'x) gcip_mailbox_ops \<Rightarrow> job \<Rightarrow> ('c, 'r, 'x) gcip_mailbox \<Rightarrow> (nat \<Rightarrow> claim option)
     \<Rightarrow> (job list \<times> ('c, 'r, 'x) gcip_mailbox \<times> (nat \<Rightarrow> claim option)) option option" where
  "job_step ops (Arrived_Cancel_Timer a) m cl = goes_on (gcip_mailbox_cancel_timeout_work ops a m) [Arrived_Callback a] cl"
| "job_step ops (Arrived_Callback a) m cl =
     goes_on (case handle_awaiter_arrived ops of None \<Rightarrow> Some m | Some f \<Rightarrow> f a m) [Arrived_Complete a] cl"
| "job_step ops (Arrived_Complete a) m cl = goes_on (complete_handled a m) [Arrived_Put a] cl"
| "job_step ops (Arrived_Put a) m cl = goes_on (gcip_mailbox_awaiter_put ops a m) [] cl"
| "job_step ops (Timeout_Delete a) m cl =
     (case gcip_mailbox_del_wait_resp ops a m of
        None \<Rightarrow> None
      | Some (True, m') \<Rightarrow> Some (Some ([Timeout_Callback a], m', cl(a \<mapsto> By_Timeout)))
      | Some (False, m') \<Rightarrow> Some (Some ([Timeout_Put a], m', cl)))"
| "job_step ops (Timeout_Callback a) m cl =
     goes_on (case handle_awaiter_timedout ops of None \<Rightarrow> Some m | Some f \<Rightarrow> f a m) [Timeout_Complete a] cl"
| "job_step ops (Timeout_Complete a) m cl = goes_on (complete_handled a m) [Timeout_Put a] cl"
| "job_step ops (Timeout_Put a) m cl =
     goes_on (do { m \<leftarrow> upd_awaiter a (\<lambda>w. w\<lparr>timeout_work := Work_Idle\<rparr>) m; gcip_mailbox_awaiter_put ops a m }) [] cl"
| "job_step ops (Cancel_Timer a) m cl = goes_on (gcip_mailbox_cancel_timeout_work ops a m) [Cancel_Delete a] cl"
| "job_step ops (Cancel_Delete a) m cl =
     (case gcip_mailbox_del_wait_resp ops a m of
        None \<Rightarrow> None
      | Some (True, m') \<Rightarrow> Some (Some ([], m', cl(a \<mapsto> By_Cancel)))
      | Some (False, m') \<Rightarrow> Some (Some ([Cancel_Wait a], m', cl)))"
| "job_step ops (Cancel_Wait a) m cl =
     (case awaiters m a of
        None \<Rightarrow> None
      | Some w \<Rightarrow> if handled w then Some (Some ([], m, cl)) else Some None)"

text \<open>The key that a response to the awaiter must carry.\<close>

definition aw_key :: "('r \<Rightarrow> 'k) \<Rightarrow> ('c, 'r, 'x) gcip_mailbox \<Rightarrow> nat \<Rightarrow> 'k option" where
  "aw_key key m a = map_option key (waiter_resp m \<lparr>wl_async_resp = a, wl_awaiter = Some a\<rparr>)"

text \<open>
  The steps of the system. A command is sent with a buffer of its own and a key that no live
  awaiter has; the owner cancels at most once, and does not give up its reference while it does.
\<close>

inductive asys_step :: "('c, 'r, 'x) gcip_mailbox_ops \<Rightarrow> ('r \<Rightarrow> 'k) \<Rightarrow> ('c, 'r, 'x) asys \<Rightarrow> ('c, 'r, 'x) asys \<Rightarrow> bool"
  for ops :: "('c, 'r, 'x) gcip_mailbox_ops" and key :: "'r \<Rightarrow> 'k" where
  send: "\<lbrakk>resps (as_mb s) p \<noteq> None;
     \<forall>b x. awaiters (as_mb s) b \<noteq> None \<longrightarrow> async_resps (as_mb s) b = Some x \<longrightarrow> resp_ptr x \<noteq> Some p;
     gcip_mailbox_put_cmd_flags ops cmd (Some p) data flags (as_mb s) = Some (Inr a, cmd', m');
     \<forall>b. awaiters (as_mb s) b \<noteq> None \<longrightarrow> aw_key key m' b \<noteq> aw_key key m' a\<rbrakk>
   \<Longrightarrow> asys_step ops key s (s\<lparr>as_mb := m', as_owned := insert a (as_owned s)\<rparr>)"
| send_fails: "\<lbrakk>resps (as_mb s) p \<noteq> None;
     \<forall>b x. awaiters (as_mb s) b \<noteq> None \<longrightarrow> async_resps (as_mb s) b = Some x \<longrightarrow> resp_ptr x \<noteq> Some p;
     gcip_mailbox_put_cmd_flags ops cmd (Some p) data flags (as_mb s) = Some (Inl e, cmd', m')\<rbrakk>
   \<Longrightarrow> asys_step ops key s (s\<lparr>as_mb := m'\<rparr>)"
| arrive: "handle_response_locked ops r (as_mb s) = Some (Some a, m')
   \<Longrightarrow> asys_step ops key s (s\<lparr>as_mb := m', as_jobs := Arrived_Cancel_Timer a # as_jobs s,
                              as_claimed := (as_claimed s)(a \<mapsto> By_Response)\<rparr>)"
| arrive_unknown: "handle_response_locked ops r (as_mb s) = Some (None, m')
   \<Longrightarrow> asys_step ops key s (s\<lparr>as_mb := m'\<rparr>)"
| fire: "\<lbrakk>awaiters (as_mb s) a = Some w; timeout_work w = Work_Pending;
     upd_awaiter a (\<lambda>w. w\<lparr>timeout_work := Work_Running\<rparr>) (as_mb s) = Some m'\<rbrakk>
   \<Longrightarrow> asys_step ops key s (s\<lparr>as_mb := m', as_jobs := Timeout_Delete a # as_jobs s\<rparr>)"
| cancel: "\<lbrakk>a \<in> as_owned s; as_claimed s a \<noteq> Some By_Cancel;
     {Cancel_Timer a, Cancel_Delete a, Cancel_Wait a} \<inter> set (as_jobs s) = {}\<rbrakk>
   \<Longrightarrow> asys_step ops key s (s\<lparr>as_jobs := Cancel_Timer a # as_jobs s\<rparr>)"
| owner_put: "\<lbrakk>a \<in> as_owned s; {Cancel_Timer a, Cancel_Delete a, Cancel_Wait a} \<inter> set (as_jobs s) = {};
     gcip_mailbox_awaiter_put ops a (as_mb s) = Some m'\<rbrakk>
   \<Longrightarrow> asys_step ops key s (s\<lparr>as_mb := m', as_owned := as_owned s - {a}\<rparr>)"
| job: "\<lbrakk>as_jobs s = js1 @ j # js2; job_step ops j (as_mb s) (as_claimed s) = Some (Some (js, m', cl'))\<rbrakk>
   \<Longrightarrow> asys_step ops key s (s\<lparr>as_mb := m', as_jobs := js1 @ js @ js2, as_claimed := cl'\<rparr>)"

section \<open>References\<close>

type_synonym aw_heap = "nat \<Rightarrow> gcip_mailbox_resp_awaiter option"

fun job_ref :: "job \<Rightarrow> nat option" where
  "job_ref (Arrived_Cancel_Timer a) = Some a" | "job_ref (Arrived_Callback a) = Some a"
| "job_ref (Arrived_Complete a) = Some a" | "job_ref (Arrived_Put a) = Some a"
| "job_ref (Timeout_Delete a) = Some a" | "job_ref (Timeout_Callback a) = Some a"
| "job_ref (Timeout_Complete a) = Some a" | "job_ref (Timeout_Put a) = Some a"
| "job_ref _ = None"

fun job_cancels :: "job \<Rightarrow> nat option" where
  "job_cancels (Cancel_Timer a) = Some a" | "job_cancels (Cancel_Delete a) = Some a" | "job_cancels (Cancel_Wait a) = Some a"
| "job_cancels _ = None"

text \<open>A thread that will signal the completion of an awaiter.\<close>

fun job_finishes :: "job \<Rightarrow> nat option" where
  "job_finishes (Arrived_Cancel_Timer a) = Some a" | "job_finishes (Arrived_Callback a) = Some a"
| "job_finishes (Arrived_Complete a) = Some a" | "job_finishes (Timeout_Callback a) = Some a"
| "job_finishes (Timeout_Complete a) = Some a"
| "job_finishes _ = None"

fun job_times :: "job \<Rightarrow> nat option" where
  "job_times (Timeout_Delete a) = Some a" | "job_times (Timeout_Callback a) = Some a"
| "job_times (Timeout_Complete a) = Some a" | "job_times (Timeout_Put a) = Some a"
| "job_times _ = None"

definition timer_pending :: "aw_heap \<Rightarrow> nat \<Rightarrow> bool" where
  "timer_pending aw a \<longleftrightarrow> (\<exists>w. aw a = Some w \<and> timeout_work w = Work_Pending)"

definition refs :: "aw_heap \<Rightarrow> nat list \<Rightarrow> nat set \<Rightarrow> job list \<Rightarrow> nat \<Rightarrow> nat" where
  "refs aw l owned jobs a = of_bool (a \<in> owned) + of_bool (a \<in> set l) + of_bool (timer_pending aw a)
     + length (filter (\<lambda>j. job_ref j = Some a) jobs)"

definition kref_at :: "aw_heap \<Rightarrow> nat \<Rightarrow> nat" where
  "kref_at aw a = (case aw a of None \<Rightarrow> 0 | Some w \<Rightarrow> kref w)"

text \<open>Every count is the number of references, but for one missing reference to each awaiter in \<open>off\<close>.\<close>

definition balanced :: "nat set \<Rightarrow> aw_heap \<Rightarrow> nat list \<Rightarrow> nat set \<Rightarrow> job list \<Rightarrow> bool" where
  "balanced off aw l owned jobs \<longleftrightarrow>
     (\<forall>a. kref_at aw a = refs aw l owned jobs a + of_bool (a \<in> off)) \<and> (\<forall>a w. aw a = Some w \<longrightarrow> 0 < kref w)"

definition drop_ref :: "nat \<Rightarrow> aw_heap \<Rightarrow> aw_heap" where
  "drop_ref a aw = (case aw a of
     None \<Rightarrow> aw
   | Some w \<Rightarrow> if kref w = 1 then aw(a := None) else aw(a \<mapsto> w\<lparr>kref := kref w - 1\<rparr>))"

lemma balanced_dead: "balanced off aw l owned jobs \<Longrightarrow> aw a = None \<Longrightarrow> refs aw l owned jobs a = 0 \<and> a \<notin> off"
  by (auto simp: balanced_def kref_at_def dest!: spec [of _ a] split: if_splits)

lemma balanced_alive:
  assumes "balanced off aw l owned jobs" "0 < refs aw l owned jobs a \<or> a \<in> off"
  shows "\<exists>w. aw a = Some w \<and> 0 < kref w"
  using assms balanced_dead [OF assms(1), of a] by (cases "aw a") (auto simp: balanced_def)

lemma kref_at_drop: "kref_at (drop_ref a aw) b = kref_at aw b - of_bool (b = a)"
  by (auto simp: kref_at_def drop_ref_def split: option.splits)

lemma drop_ref_balanced:
  assumes "balanced {a} aw l owned jobs"
  shows "balanced {} (drop_ref a aw) l owned jobs"
proof -
  obtain w where w: "aw a = Some w" "0 < kref w" using balanced_alive [OF assms, of a] by auto
  have "kref_at aw a = refs aw l owned jobs a + 1" using assms by (simp add: balanced_def)
  then have k: "kref w = refs aw l owned jobs a + 1" using w by (simp add: kref_at_def)
  have "timer_pending (drop_ref a aw) b = timer_pending aw b" for b
    using w k by (auto simp: drop_ref_def timer_pending_def refs_def)
  then have "refs (drop_ref a aw) l owned jobs b = refs aw l owned jobs b" for b by (simp add: refs_def)
  moreover have "0 < kref v" if "drop_ref a aw b = Some v" for b v
    using that w assms [unfolded balanced_def, THEN conjunct2, rule_format, of b v]
    by (cases "b = a") (auto simp: drop_ref_def split: if_splits)
  ultimately show ?thesis using assms by (simp add: balanced_def kref_at_drop)
qed

lemma drop_ref_dom: "dom (drop_ref a aw) = dom aw - (if kref_at aw a = 1 then {a} else {})"
  by (auto simp: drop_ref_def kref_at_def split: option.splits if_splits)

lemma drop_ref_Some:
  "drop_ref a aw b = Some v \<Longrightarrow> \<exists>w. aw b = Some w \<and> handled v = handled w \<and> timeout_work v = timeout_work w"
  by (auto simp: drop_ref_def split: option.splits if_splits)

section \<open>The invariant\<close>

definition claims_ok :: "aw_heap \<Rightarrow> nat list \<Rightarrow> nat \<Rightarrow> (nat \<Rightarrow> claim option) \<Rightarrow> bool" where
  "claims_ok aw l nx cl \<longleftrightarrow> (\<forall>a\<in>dom aw. a \<in> set l \<longleftrightarrow> cl a = None) \<and> (\<forall>a\<ge>nx. aw a = None \<and> cl a = None)"

definition handled_ok :: "aw_heap \<Rightarrow> job list \<Rightarrow> (nat \<Rightarrow> claim option) \<Rightarrow> bool" where
  "handled_ok aw jobs cl \<longleftrightarrow> (\<forall>a w. aw a = Some w \<longrightarrow> cl a \<in> {Some By_Response, Some By_Timeout} \<longrightarrow>
     handled w \<or> Some a \<in> job_finishes ` set jobs)"

definition cancels_ok :: "nat set \<Rightarrow> job list \<Rightarrow> (nat \<Rightarrow> claim option) \<Rightarrow> bool" where
  "cancels_ok owned jobs cl \<longleftrightarrow>
     (\<forall>a. length (filter (\<lambda>j. job_cancels j = Some a) jobs) \<le> of_bool (a \<in> owned \<and> cl a \<noteq> Some By_Cancel)) \<and>
     (\<forall>a. Cancel_Wait a \<in> set jobs \<longrightarrow> cl a \<noteq> None)"

definition timers_ok :: "aw_heap \<Rightarrow> job list \<Rightarrow> bool" where
  "timers_ok aw jobs \<longleftrightarrow> (\<forall>j\<in>set jobs. \<forall>a. job_times j = Some a \<longrightarrow> \<not> timer_pending aw a)"

definition keys_ok :: "aw_heap \<Rightarrow> (nat \<Rightarrow> 'k option) \<Rightarrow> bool" where
  "keys_ok aw ky \<longleftrightarrow> (\<forall>a\<in>dom aw. ky a \<noteq> None \<and> (\<forall>b\<in>dom aw. ky a = ky b \<longrightarrow> a = b))"

definition list_ok :: "aw_heap \<Rightarrow> nat list \<Rightarrow> bool" where
  "list_ok aw l \<longleftrightarrow> distinct l \<and> set l \<subseteq> dom aw"

lemma balanced_list_ok: "balanced {} aw l owned jobs \<Longrightarrow> distinct l \<Longrightarrow> list_ok aw l"
  using balanced_alive [of "{}" aw l owned jobs] by (fastforce simp: list_ok_def refs_def)

definition welem :: "nat \<Rightarrow> gcip_mailbox_wait_list_elem" where
  "welem a = \<lparr>wl_async_resp = a, wl_awaiter = Some a\<rparr>"

definition awaiters_ok :: "('r \<Rightarrow> 'k) \<Rightarrow> ('c, 'r, 'x) asys \<Rightarrow> nat list \<Rightarrow> bool" where
  "awaiters_ok key s l \<longleftrightarrow> (let m = as_mb s; aw = awaiters m in
     wait_list m = Some (map welem l) \<and> balanced {} aw l (as_owned s) (as_jobs s) \<and>
     claims_ok aw l (next_addr m) (as_claimed s) \<and> handled_ok aw (as_jobs s) (as_claimed s) \<and>
     cancels_ok (as_owned s) (as_jobs s) (as_claimed s) \<and> timers_ok aw (as_jobs s) \<and>
     keys_ok aw (aw_key key m) \<and> distinct l)"

section \<open>The effect of the operations\<close>

text \<open>The part of a mailbox that the operators of the chip do not change.\<close>

definition aw_view where
  "aw_view key m = (wait_list m, async_resps m, awaiters m, next_addr m, (\<lambda>p. map_option key (resps m p)))"

lemma aw_view_eqD:
  assumes "aw_view key m' = aw_view key m"
  shows "wait_list m' = wait_list m" "async_resps m' = async_resps m" "awaiters m' = awaiters m"
    "next_addr m' = next_addr m" "map_option key (resps m' p) = map_option key (resps m p)" "aw_key key m' a = aw_key key m a"
proof -
  show eq: "wait_list m' = wait_list m" "async_resps m' = async_resps m" "awaiters m' = awaiters m" "next_addr m' = next_addr m"
    and keys: "map_option key (resps m' p) = map_option key (resps m p)" for p
    using assms by (simp_all add: aw_view_def fun_eq_iff)
  show "aw_key key m' a = aw_key key m a"
    using keys by (cases "async_resps m a"; cases "resp_ptr (the (async_resps m a))")
      (simp_all add: aw_key_def waiter_resp_def waiter_ptr_def eq)
qed

locale awaiter_ops = keyed_ops ops key
  for ops :: "('c, 'r, 'x) gcip_mailbox_ops" and key :: "'r \<Rightarrow> 'k" +
  assumes arrived_keeps: "handle_awaiter_arrived ops = Some f \<Longrightarrow> \<exists>m'. f a m = Some m' \<and> aw_view key m' = aw_view key m"
    and timedout_keeps: "handle_awaiter_timedout ops = Some f \<Longrightarrow> \<exists>m'. f a m = Some m' \<and> aw_view key m' = aw_view key m"
    and release_keeps: "release_awaiter_data ops = Some g \<Longrightarrow> \<exists>m'. g d m = Some m' \<and> aw_view key m' = aw_view key m"
    and lock_keeps: "acquire_tx_queue_lock ops = Some lk \<Longrightarrow> lk b c m = Some (i, d', m') \<Longrightarrow> aw_view key m' = aw_view key m"
    and unlock_keeps: "release_tx_queue_lock ops = Some ul \<Longrightarrow> aw_view key (ul m) = aw_view key m"
    and wait_keeps: "wait_for_tx_queue_not_full ops = Some wt \<Longrightarrow> wt m = Some (ret, m') \<Longrightarrow> aw_view key m' = aw_view key m"
    and before_keeps: "before_enqueue_wait_list ops = Some bf \<Longrightarrow> bf rp aw m = Some (ret, m') \<Longrightarrow> aw_view key m' = aw_view key m"
    and inc_keeps: "inc_tx_queue_tail ops = Some ic \<Longrightarrow> ic n m = Some m' \<Longrightarrow> aw_view key m' = aw_view key m"
    and after_keeps: "after_enqueue_cmd ops = Some af \<Longrightarrow> af cm m = Some (ret, m') \<Longrightarrow> aw_view key m' = aw_view key m \<and> ret = 0"
begin

lemma put_effect:
  assumes "awaiters m a = Some w" "0 < kref w"
  shows "\<exists>m'. gcip_mailbox_awaiter_put ops a m = Some m' \<and> awaiters m' = drop_ref a (awaiters m) \<and>
    wait_list m' = wait_list m \<and> next_addr m' = next_addr m \<and>
    (\<forall>b\<in>dom (awaiters m'). async_resps m' b = async_resps m b \<and> aw_key key m' b = aw_key key m b)"
proof -
  define m1 where "m1 = m\<lparr>awaiters := (awaiters m)(a \<mapsto> w\<lparr>kref := kref w - 1\<rparr>)\<rparr>"
  have k1: "aw_key key m1 b = aw_key key m b" for b by (simp add: m1_def aw_key_def waiter_resp_def waiter_ptr_def)
  show ?thesis
  proof (cases "kref w = 1")
    case False
    then show ?thesis using assms k1
      by (simp add: gcip_mailbox_awaiter_put_def upd_awaiter_def m1_def drop_ref_def)
  next
    case True
    obtain m2 where m2: "(case release_awaiter_data ops of None \<Rightarrow> Some m1 | Some g \<Rightarrow> g (aw_data w) m1) = Some m2"
      and view: "aw_view key m2 = aw_view key m1"
      using release_keeps by (cases "release_awaiter_data ops") (simp, fastforce)
    have "gcip_mailbox_awaiter_put ops a m = Some (kfree_awaiter a m2)"
      using assms True m2 by (cases "release_awaiter_data ops")
        (auto simp: gcip_mailbox_awaiter_put_def upd_awaiter_def gcip_mailbox_awaiter_destroy_def m1_def)
    moreover have "aw_key key (kfree_awaiter a m2) b = aw_key key m2 b" if "b \<noteq> a" for b
      using that by (simp add: aw_key_def waiter_resp_def waiter_ptr_def kfree_awaiter_def)
    ultimately show ?thesis using aw_view_eqD [OF view] assms True k1
      by (auto simp: kfree_awaiter_def drop_ref_def m1_def)
  qed
qed

lemma upd_effect:
  assumes "awaiters m a = Some w"
  shows "\<exists>m'. upd_awaiter a f m = Some m' \<and> awaiters m' = (awaiters m)(a \<mapsto> f w) \<and> wait_list m' = wait_list m \<and>
    next_addr m' = next_addr m \<and> async_resps m' = async_resps m \<and> aw_key key m' = aw_key key m"
  using assms by (simp add: upd_awaiter_def fun_eq_iff aw_key_def waiter_resp_def waiter_ptr_def)

lemma timer_effect:
  assumes "awaiters m a = Some w" "0 < kref w"
  shows "\<exists>m'. gcip_mailbox_cancel_timeout_work ops a m = Some m' \<and> wait_list m' = wait_list m \<and> next_addr m' = next_addr m \<and>
    awaiters m' = (if timeout_work w = Work_Pending then drop_ref a ((awaiters m)(a \<mapsto> w\<lparr>timeout_work := Work_Idle\<rparr>)) else awaiters m) \<and>
    (\<forall>b\<in>dom (awaiters m'). aw_key key m' b = aw_key key m b)"
proof (cases "timeout_work w = Work_Pending")
  case True
  obtain m1 where m1: "upd_awaiter a (\<lambda>w. w\<lparr>timeout_work := Work_Idle\<rparr>) m = Some m1"
    "awaiters m1 = (awaiters m)(a \<mapsto> w\<lparr>timeout_work := Work_Idle\<rparr>)" "wait_list m1 = wait_list m"
    "next_addr m1 = next_addr m" "aw_key key m1 = aw_key key m" using upd_effect [OF assms(1)] by blast
  then show ?thesis using put_effect [of m1 a "w\<lparr>timeout_work := Work_Idle\<rparr>"] assms True
    by (auto simp: gcip_mailbox_cancel_timeout_work_def)
qed (use assms in \<open>simp add: gcip_mailbox_cancel_timeout_work_def\<close>)

lemma welem_simps [simp]:
  "wl_async_resp (welem a) = a" "wl_awaiter (welem a) = Some a" "welem a = welem b \<longleftrightarrow> a = b"
  "map_option key' (waiter_resp m (welem a)) = aw_key key' m a" "waits_for key' m k (welem a) \<longleftrightarrow> aw_key key' m a = Some k"
  by (simp_all add: welem_def aw_key_def waits_for_def)

lemma find_welem:
  "find (waits_for key m k) (map welem l) = map_option welem (find (\<lambda>a. aw_key key m a = Some k) l)"
  by (induction l) simp_all

lemma remove1_welem: "remove1 (welem a) (map welem l) = map welem (remove1 a l)"
  by (induction l) simp_all

lemma keys_live:
  assumes "list_ok (awaiters m) l" "keys_ok (awaiters m) (aw_key key m)"
  shows "waiters_live m (map welem l)"
  using assms by (auto simp: waiters_live_def list_ok_def keys_ok_def aw_key_def welem_def)

lemma find_own:
  assumes "list_ok (awaiters m) l" "keys_ok (awaiters m) (aw_key key m)" "awaiters m a = Some w" "aw_key key m a = Some k"
  shows "find (\<lambda>b. aw_key key m b = Some k) l = (if a \<in> set l then Some a else None)"
proof (cases "find (\<lambda>b. aw_key key m b = Some k) l")
  case None
  then show ?thesis using assms(4) by (auto simp: find_None_iff)
next
  case (Some b)
  then have b: "b \<in> set l" "aw_key key m b = Some k" by (auto dest: find_SomeD)
  moreover from this have "b \<in> dom (awaiters m)" "a \<in> dom (awaiters m)" using assms(1,3) by (auto simp: list_ok_def)
  ultimately have "b = a" using assms(2,4) unfolding keys_ok_def by metis
  then show ?thesis using Some b by simp
qed

lemma del_effect:
  assumes wl: "wait_list m = Some (map welem l)" and ok: "list_ok (awaiters m) l" "keys_ok (awaiters m) (aw_key key m)"
    and a: "awaiters m a = Some w" "0 < kref w"
  shows "if a \<in> set l
    then \<exists>m'. gcip_mailbox_del_wait_resp ops a m = Some (True, m') \<and> wait_list m' = Some (map welem (remove1 a l)) \<and>
      awaiters m' = drop_ref a (awaiters m) \<and> next_addr m' = next_addr m \<and>
      (\<forall>b\<in>dom (awaiters m'). aw_key key m' b = aw_key key m b)
    else gcip_mailbox_del_wait_resp ops a m = Some (False, m)"
proof -
  obtain r where r: "waiter_resp m (welem a) = Some r" using ok(2) a by (force simp: keys_ok_def aw_key_def welem_def)
  then have k: "aw_key key m a = Some (key r)" by (simp add: aw_key_def welem_def)
  obtain x where x: "async_resps m a = Some x" "resp_deref m (resp_ptr x) = Some r"
    using r by (auto simp: resp_deref_def elim!: waiter_resp_SomeD)
  define m1 where "m1 = m\<lparr>wait_list := Some (map welem (remove1 a l))\<rparr>"
  have m1: "awaiters m1 a = Some w" "aw_key key m1 b = aw_key key m b" for b
    using a by (simp_all add: m1_def aw_key_def waiter_resp_def waiter_ptr_def)
  have "gcip_mailbox_del_wait_resp ops a m = (if a \<in> set l
      then map_option (Pair True) (gcip_mailbox_awaiter_put ops a m1) else Some (False, m))"
    using del_wait_resp_spec [OF wl keys_live [OF ok] x] find_own [OF ok a(1) k]
    by (simp add: find_welem remove1_welem m1_def)
  then show ?thesis using put_effect [OF m1(1) a(2)] m1(2) by (auto simp: m1_def)
qed

lemma arrive_effect:
  assumes wl: "wait_list m = Some (map welem l)" and ok: "list_ok (awaiters m) l" "keys_ok (awaiters m) (aw_key key m)"
  shows "handle_response_locked ops r m = Some (None, m) \<or>
    (\<exists>a m'. a \<in> set l \<and> handle_response_locked ops r m = Some (Some a, m') \<and>
      wait_list m' = Some (map welem (remove1 a l)) \<and> awaiters m' = awaiters m \<and> next_addr m' = next_addr m \<and>
      (\<forall>b. aw_key key m' b = aw_key key m b))"
proof (cases "find (\<lambda>a. aw_key key m a = Some (key r)) l")
  case None
  then show ?thesis using handle_response_spec [OF wl keys_live [OF ok], of r] by (simp add: find_welem)
next
  case (Some a)
  then have a: "a \<in> set l" "aw_key key m a = Some (key r)" by (auto dest: find_SomeD)
  define m' where "m' = deliver r (welem a) (map welem (remove1 a l)) m"
  have run: "handle_response_locked ops r m = Some (Some a, m')"
    using handle_response_spec [OF wl keys_live [OF ok], of r] Some by (simp add: find_welem remove1_welem m'_def)
  have ptr: "waiter_ptr m' b = waiter_ptr m b" for b
    by (auto simp: m'_def deliver_def waiter_ptr_def split: option.splits bind_splits)
  obtain p where p: "waiter_ptr m (welem a) = Some p" "map_option key (resps m p) = Some (key r)"
    using a(2) by (cases "waiter_ptr m (welem a)") (auto simp: aw_key_def waiter_resp_def welem_def)
  have res: "resps m' = (resps m)(p \<mapsto> r)" using p by (simp add: m'_def deliver_def)
  then have "map_option key (resps m' q) = map_option key (resps m q)" for q using p(2) by auto
  then have "aw_key key m' b = aw_key key m b" for b
    by (cases "waiter_ptr m (welem b)") (auto simp: aw_key_def waiter_resp_def ptr welem_def [symmetric])
  then show ?thesis using a(1) run by (auto simp: m'_def deliver_def)
qed

text \<open>Sending changes the buffer \<open>p\<close> and the wrapper \<open>a\<close> of the new awaiter, nothing else of the others.\<close>

definition keeps_others :: "nat \<Rightarrow> nat \<Rightarrow> ('c, 'r, 'x) gcip_mailbox \<Rightarrow> ('c, 'r, 'x) gcip_mailbox \<Rightarrow> bool" where
  "keeps_others a p m m' \<longleftrightarrow> next_addr m' = next_addr m \<and> (\<forall>b. b \<noteq> a \<longrightarrow> async_resps m' b = async_resps m b) \<and>
     map_option resp_ptr (async_resps m' a) = map_option resp_ptr (async_resps m a) \<and>
     (\<forall>q. q \<noteq> p \<longrightarrow> map_option key (resps m' q) = map_option key (resps m q)) \<and> (resps m p \<noteq> None \<longrightarrow> resps m' p \<noteq> None)"

lemma keeps_others_view: "aw_view key m' = aw_view key m \<Longrightarrow> keeps_others a p m m'"
  using aw_view_eqD(1-5) [of key m' m] unfolding keeps_others_def by (metis option.map_disc_iff)

lemma keeps_others_trans: "keeps_others a p m m1 \<Longrightarrow> keeps_others a p m1 m2 \<Longrightarrow> keeps_others a p m m2"
  by (simp add: keeps_others_def)

lemma push_effect:
  assumes "gcip_mailbox_push_wait_resp ops a (Some a) m = Some (ret, m')" "awaiters m a = Some w" "wait_list m = Some lst"
  shows "keeps_others a p m m' \<and> awaiters m' = (if ret = 0 then (awaiters m)(a \<mapsto> w\<lparr>kref := kref w + 1\<rparr>) else awaiters m) \<and>
    wait_list m' = Some (if ret = 0 then lst @ [welem a] else lst)"
proof -
  obtain got m1 where km: "kmalloc_ok m = (got, m1)" by (cases "kmalloc_ok m")
  have v1: "aw_view key m1 = aw_view key m"
    using km by (auto simp: kmalloc_ok_def aw_view_def split: list.splits)
  note k1 = keeps_others_view [OF v1, of a p] aw_view_eqD(1,3) [OF v1]
  show ?thesis
  proof (cases got)
    case False
    then show ?thesis using assms k1 km by (auto simp: gcip_mailbox_push_wait_resp_def)
  next
    case True
    obtain x where x: "async_resps m1 a = Some x"
      using assms(1) True km by (auto simp: gcip_mailbox_push_wait_resp_def bind_eq_Some_conv)
    define before where "before = (case before_enqueue_wait_list ops of None \<Rightarrow> Some (0, m1) | Some f \<Rightarrow> f (resp_ptr x) (Some a) m1)"
    obtain r2 m2 where b: "before = Some (r2, m2)"
      using assms(1) True x km by (auto simp: gcip_mailbox_push_wait_resp_def before_def bind_eq_Some_conv)
    have v2: "aw_view key m2 = aw_view key m1"
      using b before_keeps by (auto simp: before_def split: option.splits)
    note k2 = keeps_others_trans [OF k1(1) keeps_others_view [OF v2]] aw_view_eqD(1,3) [OF v2]
    have eq: "gcip_mailbox_push_wait_resp ops a (Some a) m = (if r2 \<noteq> 0 then Some (r2, m2) else
        do { m \<leftarrow> gcip_mailbox_awaiter_get a m2; waiters \<leftarrow> wait_list m;
             Some (0, m\<lparr>wait_list := Some (waiters @ [\<lparr>wl_async_resp = a, wl_awaiter = Some a\<rparr>])\<rparr>) })"
      using True x b km unfolding gcip_mailbox_push_wait_resp_def before_def by simp
    show ?thesis
      using assms eq k1 k2
      by (auto simp: gcip_mailbox_awaiter_get_def upd_awaiter_def welem_def keeps_others_def split: if_splits)
  qed
qed

lemma waiter_effect:
  assumes "enqueue_waiter ops cmd a (Some a) m = Some (ret, m')" "async_resps m a = Some x" "resp_ptr x = Some p"
    "awaiters m a = Some w" "wait_list m = Some lst"
  shows "keeps_others a p m m' \<and> awaiters m' = (if ret = 0 then (awaiters m)(a \<mapsto> w\<lparr>kref := kref w + 1\<rparr>) else awaiters m) \<and>
    wait_list m' = Some (if ret = 0 then lst @ [welem a] else lst)"
proof -
  obtain r g f where "resps m p = Some r" and push: "gcip_mailbox_push_wait_resp ops a (Some a)
      (m\<lparr>resps := (resps m)(p \<mapsto> f (g cmd) r), async_resps := (async_resps m)(a \<mapsto> x\<lparr>waiting := True\<rparr>)\<rparr>) = Some (ret, m')"
    (is "gcip_mailbox_push_wait_resp ops a (Some a) ?m1 = _")
    using assms(1-3) by (auto simp: enqueue_waiter_def bind_eq_Some_conv)
  moreover have "keeps_others a p m ?m1" using assms(2,3) by (simp add: keeps_others_def)
  ultimately show ?thesis using push_effect [OF push, of w lst p] assms(4,5) keeps_others_trans by fastforce
qed

lemma store_effect:
  assumes "enqueue_store ops cmd m = Some (ret, m')"
  shows "ret = 0 \<and> aw_view key m' = aw_view key m"
proof -
  obtain tail idx ic m1 where inc: "inc_tx_queue_tail ops = Some ic" "ic 1 (m\<lparr>tx_queue := (tx_queue m)[idx := cmd]\<rparr>) = Some m1"
    and fin: "do { (ret, m) \<leftarrow> (case after_enqueue_cmd ops of None \<Rightarrow> Some (0, m1) | Some f \<Rightarrow> f cmd m1);
       if ret \<noteq> 0 then Some (ret, m)
       else Some (0, if should_maintain_seq_num (mb_mode m) then m\<lparr>cur_seq := cur_seq m + 1\<rparr> else m) } = Some (ret, m')"
    using assms by (auto simp: enqueue_store_def bind_eq_Some_conv Let_def split: if_splits)
  have v1: "aw_view key m1 = aw_view key m" using inc_keeps [OF inc] by (simp add: aw_view_def)
  show ?thesis
  proof (cases "after_enqueue_cmd ops")
    case None
    then show ?thesis using fin v1 by (auto simp: aw_view_def)
  next
    case (Some f)
    then obtain r2 m2 where "f cmd m1 = Some (r2, m2)" using fin by (auto simp: bind_eq_Some_conv)
    then show ?thesis using fin v1 Some after_keeps [OF Some] by (auto simp: aw_view_def)
  qed
qed

lemma enqueue_effect:
  assumes enq: "gcip_mailbox_enqueue_cmd ops cmd a (Some a) m = Some (ret, cmd', m')"
    and a: "async_resps m a = Some x" "resp_ptr x = Some p" "awaiters m a = Some w" "wait_list m = Some lst"
  shows "keeps_others a p m m' \<and> awaiters m' = (if ret = 0 then (awaiters m)(a \<mapsto> w\<lparr>kref := kref w + 1\<rparr>) else awaiters m) \<and>
    wait_list m' = Some (if ret = 0 then lst @ [welem a] else lst)"
proof -
  obtain lk wt ul i d m1 r2 m2 r3 m3 r4 m4 c where st: "acquire_tx_queue_lock ops = Some lk" "lk False False m = Some (i, d, m1)"
    "wait_for_tx_queue_not_full ops = Some wt" "wt m1 = Some (r2, m2)"
    "(if r2 \<noteq> 0 then Some (r2, m2) else enqueue_waiter ops c a (Some a) m2) = Some (r3, m3)"
    "(if r3 \<noteq> 0 then Some (r3, m3) else enqueue_store ops c m3) = Some (r4, m4)"
    "release_tx_queue_lock ops = Some ul" "ret = r4" "m' = ul m4"
    using enq by (auto simp: gcip_mailbox_enqueue_cmd_def bind_eq_Some_conv)
  have v2: "aw_view key m2 = aw_view key m" using lock_keeps [OF st(1,2)] wait_keeps [OF st(3,4)] by simp
  note e2 = aw_view_eqD(1-3) [OF v2]
  have e3: "keeps_others a p m m3 \<and> awaiters m3 = (if r3 = 0 then (awaiters m)(a \<mapsto> w\<lparr>kref := kref w + 1\<rparr>) else awaiters m) \<and>
      wait_list m3 = Some (if r3 = 0 then lst @ [welem a] else lst)"
  proof (cases "r2 = 0")
    case True
    then show ?thesis using waiter_effect [of c a m2 r3 m3 x p w lst] st(5) e2 a keeps_others_trans [OF keeps_others_view [OF v2]] by auto
  next
    case False
    then show ?thesis using st(5) e2 a keeps_others_view [OF v2] by auto
  qed
  have "r4 = r3 \<and> aw_view key m4 = aw_view key m3" using st(6) store_effect by (auto split: if_splits)
  then have "r4 = r3" and v: "aw_view key m' = aw_view key m3" using unlock_keeps [OF st(7)] st(9) by auto
  then show ?thesis using e3 st(8) aw_view_eqD(1,3) [OF v] keeps_others_trans [OF _ keeps_others_view [OF v]] by auto
qed

lemma keeps_others_key:
  assumes "keeps_others a p m m'" "b \<noteq> a" "\<And>x. async_resps m b = Some x \<Longrightarrow> resp_ptr x \<noteq> Some p"
  shows "aw_key key m' b = aw_key key m b"
  using assms by (cases "async_resps m b"; cases "resp_ptr (the (async_resps m b))")
    (auto simp: aw_key_def waiter_resp_def waiter_ptr_def keeps_others_def)

lemma keeps_others_own_key:
  assumes "keeps_others a p m m'" "async_resps m a = Some x" "resp_ptr x = Some p" "resps m p \<noteq> None"
  shows "aw_key key m' a \<noteq> None"
  using assms by (auto simp: aw_key_def waiter_resp_def waiter_ptr_def keeps_others_def)

lemma send_effect:
  assumes put: "gcip_mailbox_put_cmd_flags ops cmd (Some p) data flags m = Some (res, cmd', m')"
    and wl: "wait_list m = Some (map welem l)" and buf: "resps m p \<noteq> None" and fresh: "awaiters m (next_addr m) = None"
  shows "next_addr m \<le> next_addr m' \<and>
    (\<forall>b\<in>dom (awaiters m). (\<forall>x. async_resps m b = Some x \<longrightarrow> resp_ptr x \<noteq> Some p) \<longrightarrow> aw_key key m' b = aw_key key m b) \<and>
    (case res of
       Inl e \<Rightarrow> awaiters m' = awaiters m \<and> wait_list m' = wait_list m
     | Inr a \<Rightarrow> a = next_addr m \<and> next_addr m' = Suc a \<and> wait_list m' = Some (map welem (l @ [a])) \<and> aw_key key m' a \<noteq> None \<and>
         (\<exists>w. awaiters m' = (awaiters m)(a \<mapsto> w) \<and> \<not> handled w \<and> kref w = 2 + of_bool (timeout_work w = Work_Pending)))"
proof -
  obtain got m1 where km: "kmalloc_ok m = (got, m1)" by (cases "kmalloc_ok m")
  have v1: "aw_view key m1 = aw_view key m" using km by (auto simp: kmalloc_ok_def aw_view_def split: list.splits)
  note e1 = aw_view_eqD [OF v1]
  show ?thesis
  proof (cases got)
    case False
    then show ?thesis using put km e1 by (auto simp: gcip_mailbox_put_cmd_flags_def gcip_mailbox_awaiter_create_def)
  next
    case True
    define a where "a = next_addr m"
    define w where "w = (if flags AND GCIP_MAILBOX_CMD_FLAGS_NO_TIMEOUT = 0
      then \<lparr>timeout_work = Work_Pending, aw_data = data, kref = 2, handled = False\<rparr>
      else \<lparr>timeout_work = Work_Idle, aw_data = data, kref = 1, handled = False\<rparr>)"
    define m2 where "m2 = m1\<lparr>awaiters := (awaiters m)(a \<mapsto> w),
      async_resps := (async_resps m)(a \<mapsto> \<lparr>waiting = False, resp_ptr = Some p\<rparr>), next_addr := Suc a\<rparr>"
    obtain ret c m3 where enq: "gcip_mailbox_enqueue_cmd ops cmd a (Some a) m2 = Some (ret, c, m3)"
      and fin: "(if ret = 0 then Some (Inr a, c, m3) else do { m \<leftarrow> gcip_mailbox_cancel_timeout_work_sync ops a m3;
         Some (Inl ret, c, kfree_awaiter a m) }) = Some (res, cmd', m')"
    proof -
      define mc where "mc = snd (gcip_mailbox_awaiter_create (Some p) data m)"
      have create: "gcip_mailbox_awaiter_create (Some p) data m = (Inr a, mc)"
        using True km e1(4) by (simp add: mc_def gcip_mailbox_awaiter_create_def Let_def a_def)
      have "(if flags AND GCIP_MAILBOX_CMD_FLAGS_NO_TIMEOUT = 0 then do {
             m \<leftarrow> gcip_mailbox_awaiter_get a mc; upd_awaiter a (\<lambda>w. w\<lparr>timeout_work := Work_Pending\<rparr>) m } else Some mc) = Some m2"
        using True km e1(2-4) unfolding mc_def a_def
        by (auto simp: gcip_mailbox_awaiter_create_def Let_def gcip_mailbox_awaiter_get_def upd_awaiter_def m2_def w_def a_def
            intro!: gcip_mailbox.equality)
      then show ?thesis using put create that by (auto simp: gcip_mailbox_put_cmd_flags_def bind_eq_Some_conv)
    qed
    have m2: "async_resps m2 a = Some \<lparr>waiting = False, resp_ptr = Some p\<rparr>" "awaiters m2 a = Some w"
      "wait_list m2 = Some (map welem l)" "next_addr m2 = Suc a" "resps m2 p \<noteq> None"
      using wl e1(1) e1(5) [of p] buf by (auto simp: m2_def)
    note e3 = enqueue_effect [OF enq m2(1) _ m2(2,3), of p, simplified]
    have keep: "keeps_others a p m2 m3" using e3 by simp
    have k2: "aw_key key m2 b = aw_key key m b" if "b \<noteq> a" for b
      using that e1(6) [of b] by (simp add: m2_def aw_key_def waiter_resp_def waiter_ptr_def e1(2))
    have keys: "aw_key key m3 b = aw_key key m b" if "b \<in> dom (awaiters m)" "\<And>x. async_resps m b = Some x \<Longrightarrow> resp_ptr x \<noteq> Some p" for b
    proof -
      have "b \<noteq> a" using that(1) fresh by (auto simp: a_def)
      then show ?thesis using keeps_others_key [OF keep] that(2) k2 by (simp add: m2_def)
    qed
    have nxt: "next_addr m3 = Suc a" using keep m2(4) by (simp add: keeps_others_def)
    show ?thesis
    proof (cases "ret = 0")
      case ok: True
      have w: "\<exists>w. awaiters m3 = (awaiters m)(a \<mapsto> w) \<and> \<not> handled w \<and> kref w = 2 + of_bool (timeout_work w = Work_Pending)"
        using e3 ok by (intro exI [of _ "w\<lparr>kref := kref w + 1\<rparr>"]) (simp add: m2_def w_def)
      have res: "res = Inr a" "m' = m3" using ok fin by simp_all
      have "next_addr m \<le> next_addr m3" "wait_list m3 = Some (map welem (l @ [a]))" "aw_key key m3 a \<noteq> None"
        using ok e3 nxt keeps_others_own_key [OF keep m2(1) _ m2(5)] by (simp_all add: a_def)
      then show ?thesis unfolding res sum.case using keys nxt w a_def by blast
    next
      case False
      have w3: "awaiters m3 a = Some w" "0 < kref w" using e3 False m2(2) by (simp_all add: w_def)
      obtain m4 where m4: "gcip_mailbox_cancel_timeout_work ops a m3 = Some m4" "wait_list m4 = wait_list m3" "next_addr m4 = next_addr m3"
        "awaiters m4 = (if timeout_work w = Work_Pending then drop_ref a ((awaiters m3)(a \<mapsto> w\<lparr>timeout_work := Work_Idle\<rparr>)) else awaiters m3)"
        "\<And>b. b \<in> dom (awaiters m4) \<Longrightarrow> aw_key key m4 b = aw_key key m3 b"
        using timer_effect [OF w3] by blast
      have "\<not> timeout_work w = Work_Running" by (simp add: w_def)
      then have res: "res = Inl ret" "m' = kfree_awaiter a m4"
        using fin False m4(1) w3(1) by (simp_all add: gcip_mailbox_cancel_timeout_work_sync_def)
      have off: "awaiters m4 b = awaiters m b" if "b \<noteq> a" for b
        using that e3 False by (simp add: m4(4) drop_ref_def m2_def)
      then have "awaiters m' = awaiters m" using fresh by (auto simp: res kfree_awaiter_def a_def fun_eq_iff)
      moreover have "aw_key key m' b = aw_key key m4 b" if "b \<noteq> a" for b
        using that by (simp add: res aw_key_def waiter_resp_def waiter_ptr_def kfree_awaiter_def)
      moreover have "b \<noteq> a \<and> b \<in> dom (awaiters m4)" if "b \<in> dom (awaiters m)" for b
        using that fresh off [of b] by (cases "b = a") (auto simp: a_def)
      moreover have "next_addr m' = Suc a" "wait_list m' = wait_list m"
        using res m4 e3 nxt False wl m2(3) by (simp_all add: kfree_awaiter_def)
      ultimately show ?thesis using keys m4(5) res(1) by (simp add: a_def)
    qed
  qed
qed

end

end
