(* ===== verification/Gcip_Race.thy ===== *)
theory Gcip_Race
  imports Gcip_Awaiters
begin

text \<open>
  The invariant of the asynchronous commands holds in every state that threads can reach, with
  any interleaving; and in such a state no thread faults and none waits in vain.
\<close>

section \<open>Changes of the parts of the invariant\<close>

lemma refs_job:
  "refs aw l owned (js1 @ j # js2) a = refs aw l owned (js1 @ js2) a + of_bool (job_ref j = Some a)"
  by (simp add: refs_def)

lemma balanced_same_ref:
  assumes "balanced off aw l owned (js1 @ j # js2)" "length js = 1" "job_ref (hd js) = job_ref j"
  shows "balanced off aw l owned (js1 @ js @ js2)"
proof -
  obtain j' where "js = [j']" using assms(2) by (cases js) auto
  then show ?thesis using assms by (simp add: balanced_def refs_job)
qed

lemma balanced_end_job:
  assumes "balanced {} aw l owned (js1 @ j # js2)" "job_ref j = Some a"
  shows "balanced {a} aw l owned (js1 @ js2)"
  using assms by (auto simp: balanced_def refs_job)

lemma balanced_owner:
  assumes "balanced {} aw l owned jobs" "a \<in> owned"
  shows "balanced {a} aw l (owned - {a}) jobs"
  using assms by (auto simp: balanced_def refs_def)

lemma balanced_unlist:
  assumes "balanced {} aw l owned jobs" "a \<in> set l" "distinct l"
  shows "balanced {a} aw (remove1 a l) owned jobs"
  using assms by (auto simp: balanced_def refs_def)

lemma balanced_timer:
  assumes "balanced {} aw l owned jobs" "aw a = Some w" "timeout_work w = Work_Pending" "v \<noteq> Work_Pending"
  shows "balanced {a} (aw(a \<mapsto> w\<lparr>timeout_work := v\<rparr>)) l owned jobs"
proof -
  have "timer_pending (aw(a \<mapsto> w\<lparr>timeout_work := v\<rparr>)) b \<longleftrightarrow> timer_pending aw b \<and> b \<noteq> a" for b
    using assms by (auto simp: timer_pending_def)
  moreover have "timer_pending aw a" using assms by (simp add: timer_pending_def)
  moreover have "kref_at (aw(a \<mapsto> w\<lparr>timeout_work := v\<rparr>)) b = kref_at aw b" for b using assms(2) by (simp add: kref_at_def)
  ultimately show ?thesis using assms by (auto simp: balanced_def refs_def)
qed

text \<open>A change of fields other than the count and the timer.\<close>

lemma balanced_upd:
  assumes "balanced off aw l owned jobs" "aw a = Some w" "kref w' = kref w"
    "timeout_work w' = Work_Pending \<longleftrightarrow> timeout_work w = Work_Pending"
  shows "balanced off (aw(a \<mapsto> w')) l owned jobs"
proof -
  have "timer_pending (aw(a \<mapsto> w')) b = timer_pending aw b" "kref_at (aw(a \<mapsto> w')) b = kref_at aw b" for b
    using assms by (auto simp: timer_pending_def kref_at_def)
  then show ?thesis using assms by (auto simp: balanced_def refs_def)
qed

text \<open>What the rest of the invariant needs of a new heap: fewer awaiters, none less handled.\<close>

definition heap_le :: "aw_heap \<Rightarrow> aw_heap \<Rightarrow> bool" where
  "heap_le aw' aw \<longleftrightarrow> (\<forall>a v. aw' a = Some v \<longrightarrow>
     (\<exists>w. aw a = Some w \<and> (handled w \<longrightarrow> handled v) \<and> (timeout_work v = Work_Pending \<longrightarrow> timeout_work w = Work_Pending)))"

lemma heap_le_refl [simp]: "heap_le aw aw"
  by (simp add: heap_le_def)

lemma heap_le_drop: "heap_le (drop_ref a aw) aw"
  using drop_ref_Some by (fastforce simp: heap_le_def)

lemma heap_le_trans: "heap_le aw2 aw1 \<Longrightarrow> heap_le aw1 aw \<Longrightarrow> heap_le aw2 aw"
  unfolding heap_le_def by meson

lemma heap_le_upd:
  "aw a = Some w \<Longrightarrow> (handled w \<longrightarrow> handled v) \<Longrightarrow> (timeout_work v = Work_Pending \<longrightarrow> timeout_work w = Work_Pending) \<Longrightarrow>
     heap_le (aw(a \<mapsto> v)) aw"
  by (simp add: heap_le_def)

lemma heap_le_dom: "heap_le aw' aw \<Longrightarrow> a \<in> dom aw' \<Longrightarrow> a \<in> dom aw"
  by (fastforce simp: heap_le_def)

lemma parts_heap_le:
  assumes "heap_le aw' aw"
  shows "claims_ok aw l nx cl \<Longrightarrow> claims_ok aw' l nx cl" "handled_ok aw jobs cl \<Longrightarrow> handled_ok aw' jobs cl"
    "timers_ok aw jobs \<Longrightarrow> timers_ok aw' jobs"
    "keys_ok aw ky \<Longrightarrow> (\<And>b. b \<in> dom aw' \<Longrightarrow> ky' b = ky b) \<Longrightarrow> keys_ok aw' ky'"
proof -
  show "claims_ok aw' l nx cl" if "claims_ok aw l nx cl"
  proof -
    have "aw' a = None" if "a \<ge> nx" for a
      using \<open>claims_ok aw l nx cl\<close> that heap_le_dom [OF assms, of a] unfolding claims_ok_def by (metis domIff)
    then show ?thesis using that heap_le_dom [OF assms] by (auto simp: claims_ok_def)
  qed
  show "handled_ok aw' jobs cl" if "handled_ok aw jobs cl"
    using that assms unfolding handled_ok_def heap_le_def by meson
  show "timers_ok aw' jobs" if "timers_ok aw jobs"
    using that assms unfolding timers_ok_def timer_pending_def heap_le_def by meson
  show "keys_ok aw' ky'" if "keys_ok aw ky" "\<And>b. b \<in> dom aw' \<Longrightarrow> ky' b = ky b"
    using that heap_le_dom [OF assms] unfolding keys_ok_def by metis
qed

lemma balanced_begin_job:
  assumes "balanced {a} aw l owned (js1 @ js2)" "job_ref j = Some a"
  shows "balanced {} aw l owned (js1 @ j # js2)"
  using assms by (auto simp: balanced_def refs_job)

text \<open>The threads \<open>js\<close> take the place of the thread \<open>j\<close>.\<close>

lemma handled_job:
  assumes "handled_ok aw (js1 @ j # js2) cl"
    "\<And>a. job_finishes j = Some a \<Longrightarrow> Some a \<in> job_finishes ` set js \<or> (\<forall>w. aw a = Some w \<longrightarrow> handled w)"
  shows "handled_ok aw (js1 @ js @ js2) cl"
  unfolding handled_ok_def
proof (intro allI impI)
  fix a w
  assume a: "aw a = Some w" "cl a \<in> {Some By_Response, Some By_Timeout}"
  then have "handled w \<or> Some a \<in> job_finishes ` set (js1 @ j # js2)" using assms(1) unfolding handled_ok_def by blast
  then show "handled w \<or> Some a \<in> job_finishes ` set (js1 @ js @ js2)" using assms(2) [of a] a(1) by fastforce
qed

lemma timers_job:
  "timers_ok aw (js1 @ j # js2) \<Longrightarrow> (\<And>j'. j' \<in> set js \<Longrightarrow> job_times j' \<in> {None, job_times j}) \<Longrightarrow> timers_ok aw (js1 @ js @ js2)"
  by (fastforce simp: timers_ok_def)

lemma cancels_job:
  assumes "cancels_ok owned (js1 @ j # js2) cl"
    "\<And>a. length (filter (\<lambda>j. job_cancels j = Some a) js) \<le> of_bool (job_cancels j = Some a)"
    "\<And>a. Cancel_Wait a \<in> set js \<Longrightarrow> cl a \<noteq> None"
  shows "cancels_ok owned (js1 @ js @ js2) cl"
proof -
  have "length (filter (\<lambda>j. job_cancels j = Some a) (js1 @ js @ js2)) \<le> of_bool (a \<in> owned \<and> cl a \<noteq> Some By_Cancel)" for a
  proof -
    have "length (filter (\<lambda>j. job_cancels j = Some a) (js1 @ js @ js2)) \<le> length (filter (\<lambda>j. job_cancels j = Some a) (js1 @ j # js2))"
      using assms(2) [of a] by (cases "job_cancels j = Some a") simp_all
    then show ?thesis using assms(1) unfolding cancels_ok_def by (meson order_trans)
  qed
  then show ?thesis using assms(1,3) by (auto simp: cancels_ok_def)
qed

text \<open>An awaiter leaves the wait list, claimed by \<open>c\<close>.\<close>

lemma claims_unlist:
  "claims_ok aw l nx cl \<Longrightarrow> distinct l \<Longrightarrow> list_ok aw l \<Longrightarrow> a \<in> set l \<Longrightarrow> claims_ok aw (remove1 a l) nx (cl(a \<mapsto> c))"
  unfolding claims_ok_def list_ok_def by (smt (verit) domIff fun_upd_apply option.distinct(1) set_remove1_eq Diff_iff singletonD singletonI subsetD)

lemma handled_claim:
  "handled_ok aw jobs cl \<Longrightarrow> c = By_Cancel \<or> Some a \<in> job_finishes ` set jobs \<Longrightarrow> handled_ok aw jobs (cl(a \<mapsto> c))"
  by (auto simp: handled_ok_def)

lemma cancels_claim:
  assumes "cancels_ok owned jobs cl" "c = By_Cancel \<Longrightarrow> \<forall>j\<in>set jobs. job_cancels j \<noteq> Some a" "cl a = None"
  shows "cancels_ok owned jobs (cl(a \<mapsto> c))"
proof -
  have "length (filter (\<lambda>j. job_cancels j = Some b) jobs) \<le> of_bool (b \<in> owned \<and> (cl(a \<mapsto> c)) b \<noteq> Some By_Cancel)" for b
  proof (cases "b = a")
    case True
    have "length (filter (\<lambda>j. job_cancels j = Some a) jobs) \<le> of_bool (a \<in> owned)"
      using assms(1) [unfolded cancels_ok_def, THEN conjunct1, rule_format, of a] assms(3) by simp
    then show ?thesis using assms(2) True by (cases "c = By_Cancel") (simp_all add: filter_empty_conv)
  qed (use assms(1) in \<open>simp add: cancels_ok_def\<close>)
  then show ?thesis using assms(1) by (simp add: cancels_ok_def)
qed


section \<open>The invariant on its parts\<close>

definition aw_inv ::
  "aw_heap \<Rightarrow> nat list \<Rightarrow> nat \<Rightarrow> (nat \<Rightarrow> 'k option) \<Rightarrow> nat set \<Rightarrow> job list \<Rightarrow> (nat \<Rightarrow> claim option) \<Rightarrow> bool" where
  "aw_inv aw l nx ky owned jobs cl \<longleftrightarrow> balanced {} aw l owned jobs \<and> claims_ok aw l nx cl \<and> handled_ok aw jobs cl \<and>
     cancels_ok owned jobs cl \<and> timers_ok aw jobs \<and> keys_ok aw ky \<and> distinct l"

lemma awaiters_ok_iff:
  "awaiters_ok key s l \<longleftrightarrow> wait_list (as_mb s) = Some (map welem l) \<and>
     aw_inv (awaiters (as_mb s)) l (next_addr (as_mb s)) (aw_key key (as_mb s)) (as_owned s) (as_jobs s) (as_claimed s)"
  by (auto simp: awaiters_ok_def aw_inv_def Let_def)

lemma aw_invD:
  assumes "aw_inv aw l nx ky owned jobs cl"
  shows "balanced {} aw l owned jobs" "claims_ok aw l nx cl" "handled_ok aw jobs cl" "cancels_ok owned jobs cl"
    "timers_ok aw jobs" "keys_ok aw ky" "distinct l" "list_ok aw l"
  using assms balanced_list_ok by (auto simp: aw_inv_def)

lemma inv_job:
  assumes inv: "aw_inv aw l nx ky owned (js1 @ j # js2) cl"
    and heap: "heap_le aw' aw" "balanced {} aw' l owned (js1 @ js @ js2)" "\<And>b. b \<in> dom aw' \<Longrightarrow> ky' b = ky b"
    and fin: "\<And>a. job_finishes j = Some a \<Longrightarrow> Some a \<in> job_finishes ` set js \<or> (\<forall>w. aw' a = Some w \<longrightarrow> handled w)"
    and times: "\<And>j'. j' \<in> set js \<Longrightarrow> job_times j' \<in> {None, job_times j}"
    and cans: "\<And>a. length (filter (\<lambda>j. job_cancels j = Some a) js) \<le> of_bool (job_cancels j = Some a)"
      "\<And>a. Cancel_Wait a \<in> set js \<Longrightarrow> cl a \<noteq> None"
  shows "aw_inv aw' l nx ky' owned (js1 @ js @ js2) cl"
  using parts_heap_le(1-3) [OF heap(1)] parts_heap_le(4) [OF heap(1) _ heap(3)] aw_invD [OF inv] heap(2)
    handled_job [of aw' js1 j js2 cl js] timers_job [of aw' js1 j js2 js] cancels_job [of owned js1 j js2 cl js] fin times cans
  by (simp add: aw_inv_def)

lemma inv_unlist:
  assumes inv: "aw_inv aw l nx ky owned jobs cl" and a: "a \<in> set l"
    and heap: "heap_le aw' aw" "balanced {} aw' (remove1 a l) owned jobs'" "\<And>b. b \<in> dom aw' \<Longrightarrow> ky' b = ky b"
    and fin: "\<And>b. Some b \<in> job_finishes ` set jobs \<Longrightarrow> Some b \<in> job_finishes ` set jobs'" "c = By_Cancel \<or> Some a \<in> job_finishes ` set jobs'"
    and times: "timers_ok aw jobs'"
    and cans: "cancels_ok owned jobs' cl" "c = By_Cancel \<Longrightarrow> \<forall>j\<in>set jobs'. job_cancels j \<noteq> Some a"
  shows "aw_inv aw' (remove1 a l) nx ky' owned jobs' (cl(a \<mapsto> c))"
proof -
  note i = aw_invD [OF inv]
  have "cl a = None" using i(2,8) a by (auto simp: claims_ok_def list_ok_def)
  moreover have "handled_ok aw jobs' cl" using i(3) fin(1) unfolding handled_ok_def by blast
  ultimately show ?thesis
    using parts_heap_le(1-3) [OF heap(1)] parts_heap_le(4) [OF heap(1) _ heap(3)] claims_unlist [OF i(2,7,8) a, of c] handled_claim [of aw' jobs' cl c a] fin(2) times
      cancels_claim [OF cans] heap(2) i by (simp add: aw_inv_def)
qed

section \<open>Every step keeps the invariant\<close>

definition mb_inv where
  "mb_inv key m l owned jobs cl \<longleftrightarrow>
     wait_list m = Some (map welem l) \<and> aw_inv (awaiters m) l (next_addr m) (aw_key key m) owned jobs cl"

lemma awaiters_ok_mb: "awaiters_ok key s l \<longleftrightarrow> mb_inv key (as_mb s) l (as_owned s) (as_jobs s) (as_claimed s)"
  by (simp add: awaiters_ok_iff mb_inv_def)

text \<open>An awaiter that a thread works on is alive.\<close>

lemma job_alive:
  assumes "mb_inv key m l owned jobs cl" "j \<in> set jobs" "job_ref j = Some a \<or> job_cancels j = Some a"
  shows "\<exists>w. awaiters m a = Some w \<and> 0 < kref w"
proof -
  have i: "balanced {} (awaiters m) l owned jobs" "cancels_ok owned jobs cl"
    using assms(1) by (auto simp: mb_inv_def dest: aw_invD)
  have "0 < refs (awaiters m) l owned jobs a"
  proof (cases "job_ref j = Some a")
    case True
    then have "filter (\<lambda>j. job_ref j = Some a) jobs \<noteq> []" using assms(2) by (auto simp: filter_empty_conv)
    then show ?thesis by (simp add: refs_def)
  next
    case False
    then have "filter (\<lambda>j. job_cancels j = Some a) jobs \<noteq> []" using assms(2,3) by (auto simp: filter_empty_conv)
    then have "a \<in> owned" using i(2) [unfolded cancels_ok_def, THEN conjunct1, rule_format, of a] by (cases "a \<in> owned") simp_all
    then show ?thesis by (simp add: refs_def)
  qed
  then show ?thesis using balanced_alive [OF i(1)] by blast
qed

text \<open>A thread goes on from \<open>j\<close> to \<open>j'\<close> with the same duties.\<close>

definition same_duties :: "job \<Rightarrow> job \<Rightarrow> bool" where
  "same_duties j j' \<longleftrightarrow> job_ref j' = job_ref j \<and> job_finishes j' = job_finishes j \<and> job_times j' = job_times j \<and>
     job_cancels j' = job_cancels j \<and> (\<forall>a. j' \<noteq> Cancel_Wait a)"

context awaiter_ops
begin

lemma same_duties_job:
  assumes inv: "mb_inv key m l owned (js1 @ j # js2) cl" and same: "same_duties j j'"
    and m': "heap_le (awaiters m') (awaiters m)" "balanced {} (awaiters m') l owned (js1 @ j # js2)"
      "wait_list m' = wait_list m" "next_addr m' = next_addr m" "\<And>b. b \<in> dom (awaiters m') \<Longrightarrow> aw_key key m' b = aw_key key m b"
  shows "mb_inv key m' l owned (js1 @ j' # js2) cl"
proof -
  have "balanced {} (awaiters m') l owned (js1 @ [j'] @ js2)"
    using balanced_same_ref [OF m'(2), of "[j']"] same by (simp add: same_duties_def)
  then have "aw_inv (awaiters m') l (next_addr m) (aw_key key m') owned (js1 @ [j'] @ js2) cl"
    using inv same m'(1,5) unfolding mb_inv_def same_duties_def by (intro inv_job [where ky = "aw_key key m"]) auto
  then show ?thesis using inv m' by (simp add: mb_inv_def)
qed

lemma view_job:
  assumes "mb_inv key m l owned (js1 @ j # js2) cl" "same_duties j j'" "aw_view key m' = aw_view key m"
  shows "mb_inv key m' l owned (js1 @ j' # js2) cl"
  using assms aw_view_eqD [OF assms(3)] by (intro same_duties_job [OF assms(1,2)]) (auto simp: mb_inv_def dest: aw_invD)

lemma timer_job:
  assumes inv: "mb_inv key m l owned (js1 @ j # js2) cl" and same: "same_duties j j'"
    and a: "job_ref j = Some a \<or> job_cancels j = Some a"
  shows "\<exists>m'. gcip_mailbox_cancel_timeout_work ops a m = Some m' \<and> mb_inv key m' l owned (js1 @ j' # js2) cl"
proof -
  obtain w where w: "awaiters m a = Some w" "0 < kref w" using job_alive [OF inv _ a] by auto
  obtain m' where run: "gcip_mailbox_cancel_timeout_work ops a m = Some m'"
    and m': "wait_list m' = wait_list m" "next_addr m' = next_addr m" "\<And>b. b \<in> dom (awaiters m') \<Longrightarrow> aw_key key m' b = aw_key key m b"
      "awaiters m' = (if timeout_work w = Work_Pending then drop_ref a ((awaiters m)(a \<mapsto> w\<lparr>timeout_work := Work_Idle\<rparr>)) else awaiters m)"
    using timer_effect [OF w] by blast
  have bal: "balanced {} (awaiters m) l owned (js1 @ j # js2)" using inv by (auto simp: mb_inv_def dest: aw_invD)
  have "balanced {} (awaiters m') l owned (js1 @ j # js2)"
    using bal drop_ref_balanced balanced_timer [OF bal w(1)] by (simp add: m'(4))
  moreover have "heap_le (awaiters m') (awaiters m)"
    using heap_le_trans [OF heap_le_drop heap_le_upd [where w = w]] w(1) by (simp add: m'(4))
  ultimately show ?thesis using same_duties_job [OF inv same _ _ m'(1,2)] m'(3) run by blast
qed

lemma complete_job:
  assumes inv: "mb_inv key m l owned (js1 @ j # js2) cl" and j: "job_ref j = Some a" "job_ref j' = Some a" "job_finishes j = Some a"
    "job_times j' = job_times j" "job_cancels j' = None" "\<And>a. j' \<noteq> Cancel_Wait a"
  shows "\<exists>m'. complete_handled a m = Some m' \<and> mb_inv key m' l owned (js1 @ j' # js2) cl"
proof -
  obtain w where w: "awaiters m a = Some w" using job_alive [OF inv, of j a] j(1) by auto
  obtain m' where run: "complete_handled a m = Some m'"
    and m': "awaiters m' = (awaiters m)(a \<mapsto> w\<lparr>handled := True\<rparr>)" "wait_list m' = wait_list m" "next_addr m' = next_addr m"
      "aw_key key m' = aw_key key m"
    using upd_effect [OF w, of "\<lambda>w. w\<lparr>handled := True\<rparr>"] by (auto simp: complete_handled_def)
  have "balanced {} (awaiters m) l owned (js1 @ j # js2)" using inv by (auto simp: mb_inv_def dest: aw_invD)
  then have "balanced {} (awaiters m') l owned (js1 @ [j'] @ js2)"
    using balanced_upd [of "{}" "awaiters m" l owned "js1 @ [j'] @ js2" a w "w\<lparr>handled := True\<rparr>"] j(1,2) m'(1) w
      balanced_same_ref [of "{}" "awaiters m" l owned js1 j js2 "[j']"] by simp
  moreover have "heap_le (awaiters m') (awaiters m)" using w by (auto simp: m'(1) intro: heap_le_upd)
  ultimately have "aw_inv (awaiters m') l (next_addr m) (aw_key key m') owned (js1 @ [j'] @ js2) cl"
    using inv j m' unfolding mb_inv_def by (intro inv_job [where j = j and ky = "aw_key key m"]) auto
  then show ?thesis using run inv m' by (simp add: mb_inv_def)
qed

lemma put_job:
  assumes inv: "mb_inv key m l owned (js1 @ j # js2) cl" and j: "job_ref j = Some a" "job_finishes j = None"
  shows "\<exists>m'. gcip_mailbox_awaiter_put ops a m = Some m' \<and> mb_inv key m' l owned (js1 @ js2) cl"
proof -
  obtain w where w: "awaiters m a = Some w" "0 < kref w" using job_alive [OF inv, of j a] j(1) by auto
  obtain m' where run: "gcip_mailbox_awaiter_put ops a m = Some m'"
    and m': "awaiters m' = drop_ref a (awaiters m)" "wait_list m' = wait_list m" "next_addr m' = next_addr m"
      "\<And>b. b \<in> dom (awaiters m') \<Longrightarrow> aw_key key m' b = aw_key key m b"
    using put_effect [OF w] by blast
  have "balanced {} (awaiters m) l owned (js1 @ j # js2)" using inv by (auto simp: mb_inv_def dest: aw_invD)
  then have "balanced {} (awaiters m') l owned (js1 @ [] @ js2)"
    using drop_ref_balanced balanced_end_job j(1) by (fastforce simp: m'(1))
  then have "aw_inv (awaiters m') l (next_addr m) (aw_key key m') owned (js1 @ [] @ js2) cl"
    using inv j(2) m' heap_le_drop unfolding mb_inv_def by (intro inv_job [where j = j and ky = "aw_key key m"]) auto
  then show ?thesis using run inv m' by (simp add: mb_inv_def)
qed

lemma timeout_put_job:
  assumes inv: "mb_inv key m l owned (js1 @ Timeout_Put a # js2) cl"
  shows "\<exists>m'. do { m \<leftarrow> upd_awaiter a (\<lambda>w. w\<lparr>timeout_work := Work_Idle\<rparr>) m; gcip_mailbox_awaiter_put ops a m } = Some m' \<and>
    mb_inv key m' l owned (js1 @ js2) cl"
proof -
  obtain w where w: "awaiters m a = Some w" using job_alive [OF inv, of "Timeout_Put a" a] by auto
  obtain m1 where run: "upd_awaiter a (\<lambda>w. w\<lparr>timeout_work := Work_Idle\<rparr>) m = Some m1"
    and m1: "awaiters m1 = (awaiters m)(a \<mapsto> w\<lparr>timeout_work := Work_Idle\<rparr>)" "wait_list m1 = wait_list m"
      "next_addr m1 = next_addr m" "aw_key key m1 = aw_key key m"
    using upd_effect [OF w] by blast
  have i: "balanced {} (awaiters m) l owned (js1 @ Timeout_Put a # js2)" "timers_ok (awaiters m) (js1 @ Timeout_Put a # js2)"
    using inv by (auto simp: mb_inv_def dest: aw_invD)
  then have "timeout_work w \<noteq> Work_Pending" using w by (simp add: timers_ok_def timer_pending_def)
  then have bal: "balanced {} (awaiters m1) l owned (js1 @ Timeout_Put a # js2)"
    using balanced_upd [OF i(1), of a w "w\<lparr>timeout_work := Work_Idle\<rparr>"] w by (simp add: m1(1))
  have "heap_le (awaiters m1) (awaiters m)" using w by (auto simp: m1(1) intro: heap_le_upd)
  then have "mb_inv key m1 l owned (js1 @ Timeout_Put a # js2) cl"
    using inv bal m1 parts_heap_le(1-3) [of "awaiters m1" "awaiters m"] parts_heap_le(4) [of "awaiters m1" "awaiters m" "aw_key key m"]
    by (auto simp: mb_inv_def aw_inv_def)
  from put_job [OF this, of a] show ?thesis using run by simp
qed

text \<open>Taking an awaiter off the wait list for \<open>c\<close>, by a thread that goes on as \<open>js\<close>.\<close>

lemma delete_job:
  assumes inv: "mb_inv key m l owned (js1 @ j # js2) cl" and a: "job_ref j = Some a \<or> job_cancels j = Some a"
    and fin: "job_finishes j = None" "c = By_Cancel \<or> Some a \<in> job_finishes ` set js"
    and same: "job_ref j = Some a \<and> (\<exists>j'. js = [j'] \<and> job_ref j' = Some a) \<or> job_ref j = None \<and> js = []"
    and times: "\<And>j'. j' \<in> set js \<Longrightarrow> job_times j' = job_times j" and cans: "\<And>j'. j' \<in> set js \<Longrightarrow> job_cancels j' = None"
      "c = By_Cancel \<Longrightarrow> job_cancels j = Some a"
  shows "if a \<in> set l
    then \<exists>m'. gcip_mailbox_del_wait_resp ops a m = Some (True, m') \<and> mb_inv key m' (remove1 a l) owned (js1 @ js @ js2) (cl(a \<mapsto> c))
    else gcip_mailbox_del_wait_resp ops a m = Some (False, m)"
proof -
  have wl: "wait_list m = Some (map welem l)" and ai: "aw_inv (awaiters m) l (next_addr m) (aw_key key m) owned (js1 @ j # js2) cl"
    using inv by (simp_all add: mb_inv_def)
  note i = aw_invD [OF ai]
  obtain w where w: "awaiters m a = Some w" "0 < kref w" using job_alive [OF inv _ a] by auto
  note del = del_effect [OF wl i(8,6) w]
  show ?thesis
  proof (cases "a \<in> set l")
    case True
    obtain m' where run: "gcip_mailbox_del_wait_resp ops a m = Some (True, m')" "wait_list m' = Some (map welem (remove1 a l))"
      and m': "awaiters m' = drop_ref a (awaiters m)" "next_addr m' = next_addr m" "\<And>b. b \<in> dom (awaiters m') \<Longrightarrow> aw_key key m' b = aw_key key m b"
      using del True by auto
    have "balanced {} (awaiters m') (remove1 a l) owned (js1 @ j # js2)"
      using drop_ref_balanced [OF balanced_unlist [OF i(1) True i(7)]] by (simp add: m'(1))
    then have bal: "balanced {} (awaiters m') (remove1 a l) owned (js1 @ js @ js2)"
      using balanced_same_ref [of "{}" "awaiters m'" "remove1 a l" owned js1 j js2 js] same by (auto simp: balanced_def refs_job)
    have none: "filter (\<lambda>j. job_cancels j = Some b) js = []" for b using cans(1) by (auto simp: filter_empty_conv)
    have "Cancel_Wait b \<notin> set js" for b using cans(1) [of "Cancel_Wait b"] by auto
    then have "cancels_ok owned (js1 @ js @ js2) cl" using none by (intro cancels_job [OF i(4)]) auto
    moreover have "\<forall>j'\<in>set (js1 @ js @ js2). job_cancels j' \<noteq> Some a" if "c = By_Cancel"
    proof -
      have "length (filter (\<lambda>j. job_cancels j = Some a) (js1 @ j # js2)) \<le> of_bool (a \<in> owned \<and> cl a \<noteq> Some By_Cancel)"
        using i(4) by (simp add: cancels_ok_def)
      then have "length (filter (\<lambda>j. job_cancels j = Some a) (js1 @ js2)) = 0"
        using cans(2) that by (cases "a \<in> owned \<and> cl a \<noteq> Some By_Cancel") simp_all
      then show ?thesis using cans(1) by (auto simp: filter_empty_conv)
    qed
    ultimately have "aw_inv (awaiters m') (remove1 a l) (next_addr m) (aw_key key m') owned (js1 @ js @ js2) (cl(a \<mapsto> c))"
      using m' heap_le_drop fin times timers_job [OF i(5), of js] by (intro inv_unlist [OF ai True _ bal]) auto
    then show ?thesis using True run m'(2) by (simp add: mb_inv_def)
  qed (use del in simp)
qed

lemma callback_job:
  assumes "mb_inv key m l owned (js1 @ j # js2) cl" "same_duties j j'"
    "\<And>f. cb = Some f \<Longrightarrow> \<exists>m'. f (a :: nat) m = Some m' \<and> aw_view key m' = aw_view key m"
  shows "\<exists>m'. (case cb of None \<Rightarrow> Some m | Some f \<Rightarrow> f a m) = Some m' \<and> mb_inv key m' l owned (js1 @ j' # js2) cl"
  using view_job [OF assms(1,2)] assms(3) by (cases cb) auto

text \<open>No thread faults, a thread that waits is one that cancels, and the others keep the invariant.\<close>

definition job_result_ok where
  "job_result_ok owned js1 j js2 m r \<longleftrightarrow> (case r of
      None \<Rightarrow> False
    | Some None \<Rightarrow> (\<exists>a w. j = Cancel_Wait a \<and> awaiters m a = Some w \<and> \<not> handled w)
    | Some (Some (js, m', cl')) \<Rightarrow> \<exists>l'. mb_inv key m' l' owned (js1 @ js @ js2) cl')"

lemma goes_on_ok:
  "\<exists>m'. r = Some m' \<and> mb_inv key m' l owned (js1 @ js @ js2) cl \<Longrightarrow> job_result_ok owned js1 j js2 m (goes_on r js cl)"
  by (auto simp: job_result_ok_def goes_on_def)

lemma job_end:
  assumes "mb_inv key m l owned (js1 @ j # js2) cl" "job_ref j = None" "job_finishes j = None"
    "\<And>j'. j' \<in> set js \<Longrightarrow> j' = Cancel_Wait a \<and> job_cancels j = Some a \<and> js = [Cancel_Wait a] \<and> cl a \<noteq> None"
  shows "mb_inv key m l owned (js1 @ js @ js2) cl"
proof -
  have js: "js = [] \<or> js = [Cancel_Wait a] \<and> job_cancels j = Some a \<and> cl a \<noteq> None" using assms(4) by (cases js) auto
  have "balanced {} (awaiters m) l owned (js1 @ js @ js2)"
    using assms(1,2) js by (auto simp: mb_inv_def aw_inv_def balanced_def refs_job)
  then have "aw_inv (awaiters m) l (next_addr m) (aw_key key m) owned (js1 @ js @ js2) cl"
    using assms(1,3) js by (intro inv_job [where j = j and ky = "aw_key key m" and aw = "awaiters m"]) (auto simp: mb_inv_def)
  then show ?thesis using assms(1) by (simp add: mb_inv_def)
qed

lemma job_ok:
  assumes inv: "mb_inv key m l owned (js1 @ j # js2) cl"
  shows "job_result_ok owned js1 j js2 m (job_step ops j m cl)"
proof (cases j)
  case (Arrived_Cancel_Timer a)
  then show ?thesis using timer_job [OF inv, of "Arrived_Callback a" a] by (auto simp: same_duties_def intro: goes_on_ok)
next
  case (Arrived_Callback a)
  then show ?thesis using callback_job [OF inv, of "Arrived_Complete a" "handle_awaiter_arrived ops" a] arrived_keeps
    by (auto simp: same_duties_def intro!: goes_on_ok)
next
  case (Arrived_Complete a)
  then show ?thesis using complete_job [OF inv, of a "Arrived_Put a"] by (auto intro: goes_on_ok)
next
  case (Arrived_Put a)
  then show ?thesis using put_job [OF inv, of a] by (auto intro: goes_on_ok)
next
  case (Timeout_Delete a)
  then show ?thesis
    using delete_job [OF inv, of a By_Timeout "[Timeout_Callback a]"] same_duties_job [OF inv, of "Timeout_Put a" m] inv
    by (cases "a \<in> set l") (auto simp: job_result_ok_def same_duties_def mb_inv_def dest: aw_invD)
next
  case (Timeout_Callback a)
  then show ?thesis using callback_job [OF inv, of "Timeout_Complete a" "handle_awaiter_timedout ops" a] timedout_keeps
    by (auto simp: same_duties_def intro!: goes_on_ok)
next
  case (Timeout_Complete a)
  then show ?thesis using complete_job [OF inv, of a "Timeout_Put a"] by (auto intro: goes_on_ok)
next
  case (Timeout_Put a)
  then show ?thesis using timeout_put_job [of m l owned js1 a js2 cl] inv by (auto intro!: goes_on_ok [where l = l])
next
  case (Cancel_Timer a)
  then show ?thesis using timer_job [OF inv, of "Cancel_Delete a" a] by (auto simp: same_duties_def intro: goes_on_ok)
next
  case (Cancel_Delete a)
  obtain w where "awaiters m a = Some w" using job_alive [OF inv, of j a] Cancel_Delete by auto
  then have "cl a \<noteq> None" if "a \<notin> set l" using inv that by (auto simp: mb_inv_def aw_inv_def claims_ok_def)
  then show ?thesis using delete_job [OF inv, of a By_Cancel "[]"] job_end [OF inv, of "[Cancel_Wait a]" a] Cancel_Delete
    by (cases "a \<in> set l") (auto simp: job_result_ok_def)
next
  case (Cancel_Wait a)
  obtain w where w: "awaiters m a = Some w" using job_alive [OF inv, of j a] Cancel_Wait by auto
  then show ?thesis using job_end [OF inv, of "[]" a] Cancel_Wait by (auto simp: job_result_ok_def)
qed

lemma owner_put_ok:
  assumes inv: "mb_inv key m l owned jobs cl" and a: "a \<in> owned" "{Cancel_Timer a, Cancel_Delete a, Cancel_Wait a} \<inter> set jobs = {}"
  shows "\<exists>m'. gcip_mailbox_awaiter_put ops a m = Some m' \<and> mb_inv key m' l (owned - {a}) jobs cl"
proof -
  have ai: "aw_inv (awaiters m) l (next_addr m) (aw_key key m) owned jobs cl" using inv by (simp add: mb_inv_def)
  note i = aw_invD [OF ai]
  obtain w where w: "awaiters m a = Some w" "0 < kref w" using balanced_alive [OF i(1), of a] a(1) by (auto simp: refs_def)
  obtain m' where run: "gcip_mailbox_awaiter_put ops a m = Some m'"
    and m': "awaiters m' = drop_ref a (awaiters m)" "wait_list m' = wait_list m" "next_addr m' = next_addr m"
      "\<And>b. b \<in> dom (awaiters m') \<Longrightarrow> aw_key key m' b = aw_key key m b"
    using put_effect [OF w] by blast
  have "job_cancels j \<noteq> Some a" if "j \<in> set jobs" for j using a(2) that by (cases j) auto
  then have "length (filter (\<lambda>j. job_cancels j = Some b) jobs) \<le> of_bool (b \<in> owned - {a} \<and> cl b \<noteq> Some By_Cancel)" for b
    using i(4) by (cases "b = a") (auto simp: cancels_ok_def filter_empty_conv)
  then have "cancels_ok (owned - {a}) jobs cl" using i(4) by (auto simp: cancels_ok_def)
  moreover have "heap_le (awaiters m') (awaiters m)" using heap_le_drop by (simp add: m'(1))
  moreover have "balanced {} (awaiters m') l (owned - {a}) jobs" using drop_ref_balanced [OF balanced_owner [OF i(1) a(1)]] by (simp add: m'(1))
  ultimately show ?thesis using run inv m'(2-4) i parts_heap_le(1-3) [of "awaiters m'" "awaiters m"]
      parts_heap_le(4) [of "awaiters m'" "awaiters m" "aw_key key m"] by (auto simp: mb_inv_def aw_inv_def)
qed

lemma fire_ok:
  assumes inv: "mb_inv key m l owned jobs cl" and w: "awaiters m a = Some w" "timeout_work w = Work_Pending"
  shows "\<exists>m'. upd_awaiter a (\<lambda>w. w\<lparr>timeout_work := Work_Running\<rparr>) m = Some m' \<and> mb_inv key m' l owned (Timeout_Delete a # jobs) cl"
proof -
  have ai: "aw_inv (awaiters m) l (next_addr m) (aw_key key m) owned jobs cl" using inv by (simp add: mb_inv_def)
  note i = aw_invD [OF ai]
  obtain m' where run: "upd_awaiter a (\<lambda>w. w\<lparr>timeout_work := Work_Running\<rparr>) m = Some m'"
    and m': "awaiters m' = (awaiters m)(a \<mapsto> w\<lparr>timeout_work := Work_Running\<rparr>)" "wait_list m' = wait_list m"
      "next_addr m' = next_addr m" "aw_key key m' = aw_key key m"
    using upd_effect [OF w(1)] by blast
  have "heap_le (awaiters m') (awaiters m)" using w by (auto simp: m'(1) intro: heap_le_upd)
  moreover have "balanced {} (awaiters m') l owned (Timeout_Delete a # jobs)"
    using balanced_begin_job [of a "awaiters m'" l owned "[]" jobs "Timeout_Delete a"]
      balanced_timer [OF i(1) w, of Work_Running] by (simp add: m'(1))
  moreover have "timers_ok (awaiters m') (Timeout_Delete a # jobs)"
    using i(5) by (auto simp: timers_ok_def timer_pending_def m'(1))
  moreover have "handled_ok (awaiters m) (Timeout_Delete a # jobs) cl" "cancels_ok owned (Timeout_Delete a # jobs) cl"
    using i(3,4) by (auto simp: handled_ok_def cancels_ok_def)
  ultimately show ?thesis using run inv m'(2-4) i parts_heap_le(1-3) [of "awaiters m'" "awaiters m"]
      parts_heap_le(4) [of "awaiters m'" "awaiters m" "aw_key key m"] by (auto simp: mb_inv_def aw_inv_def)
qed

lemma arrive_ok:
  assumes inv: "mb_inv key m l owned jobs cl"
  shows "handle_response_locked ops r m = Some (None, m) \<or>
    (\<exists>a m'. cl a = None \<and> handle_response_locked ops r m = Some (Some a, m') \<and>
       mb_inv key m' (remove1 a l) owned (Arrived_Cancel_Timer a # jobs) (cl(a \<mapsto> By_Response)))"
proof -
  have wl: "wait_list m = Some (map welem l)" and ai: "aw_inv (awaiters m) l (next_addr m) (aw_key key m) owned jobs cl"
    using inv by (simp_all add: mb_inv_def)
  note i = aw_invD [OF ai]
  consider "handle_response_locked ops r m = Some (None, m)" | a m' where "a \<in> set l" "handle_response_locked ops r m = Some (Some a, m')"
      "wait_list m' = Some (map welem (remove1 a l))" "awaiters m' = awaiters m" "next_addr m' = next_addr m"
      "\<And>b. aw_key key m' b = aw_key key m b"
    using arrive_effect [OF wl i(8,6), of r] by blast
  then show ?thesis
  proof cases
    case 2
    have "balanced {} (awaiters m') (remove1 a l) owned ([] @ Arrived_Cancel_Timer a # jobs)"
      using balanced_unlist [OF i(1) 2(1) i(7)] by (intro balanced_begin_job) (simp_all add: 2(4))
    moreover have "timers_ok (awaiters m) (Arrived_Cancel_Timer a # jobs)" "cancels_ok owned (Arrived_Cancel_Timer a # jobs) cl"
      using i(4,5) by (auto simp: timers_ok_def cancels_ok_def)
    ultimately have "aw_inv (awaiters m') (remove1 a l) (next_addr m) (aw_key key m') owned (Arrived_Cancel_Timer a # jobs) (cl(a \<mapsto> By_Response))"
      using 2(4,6) by (intro inv_unlist [OF ai 2(1)]) auto
    moreover have "cl a = None" using i(2,8) 2(1) by (auto simp: claims_ok_def list_ok_def)
    ultimately show ?thesis using 2 by (auto simp: mb_inv_def)
  qed simp
qed

lemma send_fails_ok:
  assumes inv: "mb_inv key m l owned jobs cl" and buf: "resps m p \<noteq> None"
    and others: "\<And>b x. awaiters m b \<noteq> None \<Longrightarrow> async_resps m b = Some x \<Longrightarrow> resp_ptr x \<noteq> Some p"
    and put: "gcip_mailbox_put_cmd_flags ops cmd (Some p) data flags m = Some (Inl e, cmd', m')"
  shows "mb_inv key m' l owned jobs cl"
proof -
  have wl: "wait_list m = Some (map welem l)" and ai: "aw_inv (awaiters m) l (next_addr m) (aw_key key m) owned jobs cl"
    using inv by (simp_all add: mb_inv_def)
  note i = aw_invD [OF ai]
  have "awaiters m (next_addr m) = None" using i(2) by (simp add: claims_ok_def)
  note e = send_effect [OF put wl buf this]
  have same: "awaiters m' = awaiters m" "wait_list m' = wait_list m" using e by simp_all
  have "aw_key key m' b = aw_key key m b" if "b \<in> dom (awaiters m)" for b using e others that by blast
  then have "keys_ok (awaiters m') (aw_key key m')" using i(6) same parts_heap_le(4) [of "awaiters m" "awaiters m" "aw_key key m" "aw_key key m'"] by simp
  moreover have "claims_ok (awaiters m') l (next_addr m') cl" using i(2) e by (auto simp: claims_ok_def)
  ultimately show ?thesis using e i wl by (simp add: mb_inv_def aw_inv_def)
qed

lemma send_ok:
  assumes inv: "mb_inv key m l owned jobs cl" and buf: "resps m p \<noteq> None"
    and others: "\<And>b x. awaiters m b \<noteq> None \<Longrightarrow> async_resps m b = Some x \<Longrightarrow> resp_ptr x \<noteq> Some p"
    and put: "gcip_mailbox_put_cmd_flags ops cmd (Some p) data flags m = Some (Inr a, cmd', m')"
    and new: "\<And>b. awaiters m b \<noteq> None \<Longrightarrow> aw_key key m' b \<noteq> aw_key key m' a"
  shows "mb_inv key m' (l @ [a]) (insert a owned) jobs cl"
proof -
  have wl: "wait_list m = Some (map welem l)" and ai: "aw_inv (awaiters m) l (next_addr m) (aw_key key m) owned jobs cl"
    using inv by (simp_all add: mb_inv_def)
  note i = aw_invD [OF ai]
  have dead: "awaiters m (next_addr m) = None" "cl (next_addr m) = None" using i(2) by (simp_all add: claims_ok_def)
  note e = send_effect [OF put wl buf dead(1), simplified]
  obtain w where w: "awaiters m' = (awaiters m)(a \<mapsto> w)" "\<not> handled w" "kref w = 2 + of_bool (timeout_work w = Work_Pending)"
    using e by auto
  have a: "a = next_addr m" "next_addr m' = Suc a" "wait_list m' = Some (map welem (l @ [a]))" "aw_key key m' a \<noteq> None" using e by auto
  have keys: "aw_key key m' b = aw_key key m b" if "b \<in> dom (awaiters m)" for b using e others that by blast
  have none: "a \<notin> owned" "a \<notin> set l" "\<And>j. j \<in> set jobs \<Longrightarrow> job_ref j \<noteq> Some a"
    using balanced_dead [OF i(1), of a] dead(1) by (auto simp: refs_def a(1) filter_empty_conv)
  have times: "job_times j \<noteq> Some a" if "j \<in> set jobs" for j using none(3) [OF that] by (cases j) auto
  have pend: "timer_pending (awaiters m') b = (if b = a then timeout_work w = Work_Pending else timer_pending (awaiters m) b)" for b
    by (simp add: w(1) timer_pending_def)
  have jobs: "filter (\<lambda>j. job_ref j = Some a) jobs = []" using none(3) by (simp add: filter_empty_conv)
  have "balanced {} (awaiters m') (l @ [a]) (insert a owned) jobs"
    using i(1) none w(3) pend jobs unfolding balanced_def
    by (auto simp: w(1) refs_def kref_at_def split: if_splits)
  moreover have "claims_ok (awaiters m') (l @ [a]) (next_addr m') cl"
    using i(2) none dead(2) a by (auto simp: claims_ok_def w(1))
  moreover have "handled_ok (awaiters m') jobs cl" using i(3) dead(2) a(1) by (auto simp: handled_ok_def w(1))
  moreover have "cancels_ok (insert a owned) jobs cl"
  proof -
    have "length (filter (\<lambda>j. job_cancels j = Some b) jobs) \<le> of_bool (b \<in> insert a owned \<and> cl b \<noteq> Some By_Cancel)" for b
      using i(4) [unfolded cancels_ok_def, THEN conjunct1, rule_format, of b] by (rule order_trans) auto
    then show ?thesis using i(4) by (simp add: cancels_ok_def)
  qed
  moreover have "timers_ok (awaiters m') jobs" using i(5) times by (auto simp: timers_ok_def pend)
  moreover have "keys_ok (awaiters m') (aw_key key m')"
    using i(6) keys new a(4) unfolding keys_ok_def by (auto simp: w(1)) (metis domI)+
  ultimately show ?thesis using i(7) none a(3) by (simp add: mb_inv_def aw_inv_def)
qed

theorem step_ok:
  assumes "asys_step ops key s s'" "awaiters_ok key s l"
  shows "\<exists>l'. awaiters_ok key s' l'"
  using assms
proof (induction rule: asys_step.induct)
  case (send s p cmd data flags a cmd' m')
  have "mb_inv key m' (l @ [a]) (insert a (as_owned s)) (as_jobs s) (as_claimed s)"
    using send by (intro send_ok [OF _ send(1) _ send(3)]) (auto simp: awaiters_ok_mb)
  then show ?case by (auto simp: awaiters_ok_mb)
next
  case (send_fails s p cmd data flags e cmd' m')
  have "mb_inv key m' l (as_owned s) (as_jobs s) (as_claimed s)"
    using send_fails by (intro send_fails_ok [OF _ send_fails(1) _ send_fails(3)]) (auto simp: awaiters_ok_mb)
  then show ?case by (auto simp: awaiters_ok_mb)
next
  case (arrive r s a m')
  then show ?case using arrive_ok [of "as_mb s" l "as_owned s" "as_jobs s" "as_claimed s" r] by (auto simp: awaiters_ok_mb)
next
  case (arrive_unknown r s m')
  then show ?case using arrive_ok [of "as_mb s" l "as_owned s" "as_jobs s" "as_claimed s" r] by (auto simp: awaiters_ok_mb)
next
  case (fire s a w m')
  then show ?case using fire_ok [of "as_mb s" l] by (fastforce simp: awaiters_ok_mb)
next
  case (cancel a s)
  have "job_cancels j \<noteq> Some a" if "j \<in> set (as_jobs s)" for j using cancel(3) that by (cases j) auto
  then have "cancels_ok (as_owned s) (Cancel_Timer a # as_jobs s) (as_claimed s)"
    using cancel by (auto simp: awaiters_ok_def cancels_ok_def Let_def filter_empty_conv)
  then have "awaiters_ok key (s\<lparr>as_jobs := Cancel_Timer a # as_jobs s\<rparr>) l"
    using cancel(4) by (auto simp: awaiters_ok_def Let_def balanced_def refs_def handled_ok_def timers_ok_def)
  then show ?case by blast
next
  case (owner_put a s m')
  then show ?case using owner_put_ok [of "as_mb s" l] by (fastforce simp: awaiters_ok_mb)
next
  case (job s js1 j js2 js m' cl')
  then show ?case using job_ok [of "as_mb s" l "as_owned s" js1 j js2 "as_claimed s"]
    by (auto simp: awaiters_ok_mb job_result_ok_def)
qed

text \<open>Once an awaiter is claimed it stays so: response, timeout and cancellation exclude each other.\<close>

theorem claim_stable:
  assumes "asys_step ops key s s'" "awaiters_ok key s l" "as_claimed s a = Some c"
  shows "as_claimed s' a = Some c"
  using assms
proof (induction rule: asys_step.induct)
  case (arrive r s b m')
  then show ?case using arrive_ok [of "as_mb s" l "as_owned s" "as_jobs s" "as_claimed s" r] by (auto simp: awaiters_ok_mb)
next
  case (job s js1 j js2 js m' cl')
  have inv: "mb_inv key (as_mb s) l (as_owned s) (js1 @ j # js2) (as_claimed s)" using job by (simp add: awaiters_ok_mb)
  have unlisted: "gcip_mailbox_del_wait_resp ops b (as_mb s) = Some (False, as_mb s)"
    if "j = Timeout_Delete b \<or> j = Cancel_Delete b" "as_claimed s b \<noteq> None" for b
  proof -
    note i = aw_invD [OF conjunct2 [OF inv [unfolded mb_inv_def]]]
    have "job_ref j = Some b \<or> job_cancels j = Some b" using that(1) by auto
    then obtain w where w: "awaiters (as_mb s) b = Some w" "0 < kref w" using job_alive [OF inv, of j b] by auto
    then have "b \<notin> set l" using i(2) that(2) unfolding claims_ok_def by (metis domI)
    then show ?thesis using del_effect [OF conjunct1 [OF inv [unfolded mb_inv_def]] i(8,6) w] by simp
  qed
  show ?case using job.hyps(2) job.prems(2) unlisted
    by (cases j) (auto simp: goes_on_def split: option.splits prod.splits bool.splits if_splits)
qed simp_all

end

section \<open>Runs\<close>

definition asys_start :: "('c, 'r, 'x) gcip_mailbox \<Rightarrow> ('c, 'r, 'x) asys" where
  "asys_start m = \<lparr>as_mb = m, as_jobs = [], as_owned = {}, as_claimed = Map.empty\<rparr>"

definition asys_reachable :: "('c, 'r, 'x) gcip_mailbox_ops \<Rightarrow> ('r \<Rightarrow> 'k) \<Rightarrow> ('c, 'r, 'x) asys \<Rightarrow> bool" where
  "asys_reachable ops key s \<longleftrightarrow>
     (\<exists>m. wait_list m = Some [] \<and> awaiters m = Map.empty \<and> (asys_step ops key)\<^sup>*\<^sup>* (asys_start m) s)"

text \<open>A step of the threads alone, without new commands, responses, timeouts and cancellations.\<close>

inductive thread_step :: "('c, 'r, 'x) gcip_mailbox_ops \<Rightarrow> ('c, 'r, 'x) asys \<Rightarrow> ('c, 'r, 'x) asys \<Rightarrow> bool"
  for ops :: "('c, 'r, 'x) gcip_mailbox_ops" where
  "\<lbrakk>as_jobs s = js1 @ j # js2; job_step ops j (as_mb s) (as_claimed s) = Some (Some (js, m', cl'))\<rbrakk>
   \<Longrightarrow> thread_step ops s (s\<lparr>as_mb := m', as_jobs := js1 @ js @ js2, as_claimed := cl'\<rparr>)"

inductive_simps thread_step_iff: "thread_step ops s s'"

lemma thread_step_asys: "thread_step ops s s' \<Longrightarrow> asys_step ops key s s'"
  by (auto simp: thread_step_iff intro: asys_step.job)

text \<open>What a thread has left to do.\<close>

fun job_left :: "job \<Rightarrow> nat" where
  "job_left (Arrived_Cancel_Timer a) = 4" | "job_left (Arrived_Callback a) = 3"
| "job_left (Arrived_Complete a) = 2" | "job_left (Arrived_Put a) = 1"
| "job_left (Timeout_Delete a) = 4" | "job_left (Timeout_Callback a) = 3"
| "job_left (Timeout_Complete a) = 2" | "job_left (Timeout_Put a) = 1"
| "job_left (Cancel_Timer a) = 3" | "job_left (Cancel_Delete a) = 2" | "job_left (Cancel_Wait a) = 1"

definition work_left :: "('c, 'r, 'x) asys \<Rightarrow> nat" where
  "work_left s = sum_list (map job_left (as_jobs s))"

lemma job_step_left: "job_step ops j m cl = Some (Some (js, m', cl')) \<Longrightarrow> sum_list (map job_left js) < job_left j"
  by (cases j) (auto simp: goes_on_def split: option.splits prod.splits bool.splits if_splits)

lemma thread_step_left: "thread_step ops s s' \<Longrightarrow> work_left s' < work_left s"
  by (auto simp: thread_step_iff work_left_def dest!: job_step_left)

context awaiter_ops
begin

lemma reachable_ok: "asys_reachable ops key s \<Longrightarrow> \<exists>l. awaiters_ok key s l"
proof -
  assume "asys_reachable ops key s"
  then obtain m where m: "wait_list m = Some []" "awaiters m = Map.empty" and run: "(asys_step ops key)\<^sup>*\<^sup>* (asys_start m) s"
    by (auto simp: asys_reachable_def)
  have "awaiters_ok key (asys_start m) []"
    using m by (simp add: awaiters_ok_def asys_start_def balanced_def refs_def kref_at_def timer_pending_def claims_ok_def
        handled_ok_def cancels_ok_def timers_ok_def keys_ok_def)
  with run show ?thesis by (induction rule: rtranclp_induct) (auto dest: step_ok)
qed

text \<open>While threads are left, one of them can go on.\<close>

lemma some_thread_runs:
  assumes "awaiters_ok key s l" "as_jobs s \<noteq> []"
  shows "\<exists>s'. thread_step ops s s'"
proof -
  have runs: "(\<exists>s'. thread_step ops s s') \<or> (\<exists>a w. j = Cancel_Wait a \<and> awaiters (as_mb s) a = Some w \<and> \<not> handled w)"
    if "j \<in> set (as_jobs s)" for j
  proof -
    obtain js1 js2 where js: "as_jobs s = js1 @ j # js2" using split_list [OF \<open>j \<in> set (as_jobs s)\<close>] by blast
    then have "job_result_ok (as_owned s) js1 j js2 (as_mb s) (job_step ops j (as_mb s) (as_claimed s))"
      using job_ok assms(1) by (auto simp: awaiters_ok_mb)
    then show ?thesis using js by (fastforce simp: job_result_ok_def thread_step_iff split: option.splits prod.splits)
  qed
  obtain j where j: "j \<in> set (as_jobs s)" using assms(2) by (meson list.set_sel(1))
  show ?thesis
  proof (rule ccontr)
    assume stuck: "\<not> ?thesis"
    then obtain a w where a: "j = Cancel_Wait a" "awaiters (as_mb s) a = Some w" "\<not> handled w" using runs [OF j] by blast
    have ok: "handled_ok (awaiters (as_mb s)) (as_jobs s) (as_claimed s)" "cancels_ok (as_owned s) (as_jobs s) (as_claimed s)"
      using assms(1) by (simp_all add: awaiters_ok_def Let_def)
    have "filter (\<lambda>j. job_cancels j = Some a) (as_jobs s) \<noteq> []" using j a(1) by (force simp: filter_empty_conv)
    then have "as_claimed s a \<noteq> Some By_Cancel" using ok(2) [unfolded cancels_ok_def, THEN conjunct1, rule_format, of a] by auto
    moreover have "as_claimed s a \<noteq> None" using ok(2) j a(1) by (auto simp: cancels_ok_def)
    ultimately have "as_claimed s a \<in> {Some By_Response, Some By_Timeout}" by (cases "as_claimed s a"; cases "the (as_claimed s a)") auto
    then obtain j' where j': "j' \<in> set (as_jobs s)" "job_finishes j' = Some a"
      using ok(1) a(2,3) unfolding handled_ok_def by (metis imageE)
    then show False using runs [OF j'(1)] stuck by auto
  qed
qed

lemma threads_finish:
  assumes "awaiters_ok key s l"
  shows "\<exists>s'. (thread_step ops)\<^sup>*\<^sup>* s s' \<and> as_jobs s' = []"
  using assms
proof (induction "work_left s" arbitrary: s l rule: less_induct)
  case less
  show ?case
  proof (cases "as_jobs s = []")
    case False
    then obtain s1 where s1: "thread_step ops s s1" using some_thread_runs [OF less.prems] by blast
    then obtain l1 where "awaiters_ok key s1 l1" using step_ok [OF thread_step_asys less.prems] by blast
    then show ?thesis using less.hyps [OF thread_step_left [OF s1]] s1 by (meson converse_rtranclp_into_rtranclp)
  qed blast
qed

end

end
