(* ===== verification/Gcip_Props.thy ===== *)
theory Gcip_Props
  imports Kci_Send Gcip_Race
begin

text \<open>
  The properties of the mailbox framework: the register arithmetic of the circular queues against
  unbounded counters, reverse commands in order, asynchronous commands under concurrency, and
  what the operator table must provide.
\<close>

unbundle bit_operations_syntax

section \<open>The control interface of the chip as an instance\<close>

text \<open>Firmware that writes its own registers and the response queue, in any way it likes.\<close>

definition any_firmware ::
  "(et_state \<Rightarrow> gcip_kci_response_element list) \<Rightarrow> (et_state \<Rightarrow> u32) \<Rightarrow> (et_state \<Rightarrow> u32) \<Rightarrow> et_state \<Rightarrow> et_state" where
  "any_firmware q t h m = firmware_write (q m) (t m) (h m) m"

lemma any_firmware_view [simp]: "aw_view key (any_firmware q t h m) = aw_view key m"
  by (simp add: any_firmware_def firmware_write_def upd_mbox_def upd_et_def upd_kci_def aw_view_def)

lemma upd_kci_view [simp]: "aw_view key (upd_kci f m) = aw_view key m"
  by (simp add: upd_kci_def aw_view_def)

lemma upd_mbox_view [simp]: "aw_view key (upd_mbox f m) = aw_view key m"
  by (simp add: upd_mbox_def upd_et_def)

lemma wait_event_view:
  "wait_event_timeout polls cond m = (b, m') \<Longrightarrow> (\<And>m. aw_view key (snd (cond m)) = aw_view key m) \<Longrightarrow> aw_view key m' = aw_view key m"
proof (induction polls arbitrary: m)
  case 0
  then show ?case using 0(2) [of m] by simp
next
  case (Suc polls)
  obtain c m1 where c: "cond m = (c, m1)" by (cases "cond m")
  then have "aw_view key m1 = aw_view key m" using Suc.prems(2) [of m] by simp
  then show ?case using Suc.prems c Suc.IH [of m1] by (cases c) auto
qed

lemmas et_op_defs = gcip_kci_acquire_cmd_queue_lock_def gcip_kci_release_cmd_queue_lock_def gcip_kci_inc_cmd_queue_tail_def
  gcip_kci_after_enqueue_cmd_def edgetpu_kci_ops_def edgetpu_kci_trigger_doorbell_def edgetpu_kci_inc_cmd_queue_tail_def

lemma et_wait_view:
  assumes "gcip_kci_wait_for_cmd_queue_not_full (edgetpu_kci_ops (any_firmware q t h) soc usage) polls m = Some (ret, m')"
  shows "aw_view kr_seq m' = aw_view kr_seq m"
  using assms
  by (auto simp: edgetpu_kci_ops_def gcip_kci_wait_for_cmd_queue_not_full_def edgetpu_kci_get_cmd_queue_head_def
      split: prod.splits elim!: wait_event_view)

interpretation et_async: awaiter_ops "et_ops (any_firmware q t h) soc usage polls" kr_seq for q t h soc usage polls
proof unfold_locales
  show "aw_view kr_seq m' = aw_view kr_seq m"
    if "wait_for_tx_queue_not_full (et_ops (any_firmware q t h) soc usage polls) = Some wt" "wt m = Some (ret, m')" for wt m ret m'
    using that et_wait_view [of q t h soc usage polls m ret m'] by (auto simp: kci_mailbox_ops_def)
qed (auto simp: kci_mailbox_ops_def et_op_defs split: if_splits)

section \<open>Queues and reverse commands\<close>

text \<open>
  The register arithmetic of the circular queues is that of unbounded counters: moving an
  index forward, counting the elements and the tests for empty and full, which the drivers write
  as comparisons of the registers, agree with addition, subtraction and comparison of the
  counters, for every size that the driver accepts and every position.
\<close>

theorem circ_queue_is_counters:
  assumes "circ_ok n k" "h \<le> t" "t \<le> h + n" "i \<le> n"
  shows "gcip_valid_circ_queue_size (word_of_nat n) (2 ^ k) \<and>
    gcip_circ_queue_inc (circ_index n k t) (word_of_nat i) (word_of_nat n) (2 ^ k) = circ_index n k (t + i) \<and>
    unat (gcip_circ_queue_cnt (circ_index n k h) (circ_index n k t) (word_of_nat n) (2 ^ k)) = t - h \<and>
    ((circ_index n k h :: u32) = circ_index n k t \<longleftrightarrow> t - h = 0) \<and>
    ((circ_index n k h :: u32) = circ_index n k t XOR 2 ^ k \<longleftrightarrow> t - h = n)"
proof -
  have k: "k < 32" "n < 4294967296" using assms(1) circ_ok_bound [OF assms(1)] by (auto simp: circ_ok_def)
  show ?thesis
    using valid_circ_queue_size_iff [OF k(1), of "word_of_nat n"] unat_u32_of_nat [OF k(2)] assms(1)
      circ_queue_inc_exact [OF assms(1,4), of t] circ_queue_cnt_exact [OF assms(1-3)] unat_u32_of_nat [of "t - h"]
      circ_index_eq_iff [OF assms(1-3), where 'a = 32] k assms(2,3) by auto
qed

theorem circ_queue_is_counters_witness:
  "gcip_circ_queue_inc (circ_index 3 10 7) (word_of_nat 2) (word_of_nat 3) (2 ^ 10) = circ_index 3 10 (7 + 2) \<and>
   unat (gcip_circ_queue_cnt (circ_index 3 10 5) (circ_index 3 10 7) (word_of_nat 3) (2 ^ 10)) = 7 - 5"
  using circ_queue_is_counters [of 3 10 5 7 2] by (simp add: circ_ok_def)

text \<open>
  C33: Requests of the firmware pass through the ring of reverse commands in order: over any
  sequence of arrivals and of steps of the worker, those accepted are handled in the order of
  their arrival, none lost and none twice; a full ring refuses the request and keeps its contents.
\<close>

theorem rkci_in_order:
  assumes "rkci_ok rk" "channel_run rkci_put rkci_get ops rk = (accepted, handed_out, rk')"
  shows "rkci_ok rk' \<and> rkci_pending rk @ accepted = handed_out @ rkci_pending rk'"
  using rkci_channel.run_in_order [OF assms] by simp

theorem rkci_in_order_witness:
  "rkci_ok (rkci (mb_data demo_kci)) \<and>
   (\<exists>out rk'. channel_run rkci_put rkci_get [Inl (demo_resp 9 1), Inr (), Inl (demo_resp 8 2)] (rkci (mb_data demo_kci)) =
      ([demo_resp 9 1, demo_resp 8 2], out, rk') \<and> [demo_resp 9 1, demo_resp 8 2] = out @ rkci_pending rk')"
proof -
  have ok: "rkci_ok (rkci (mb_data demo_kci))" unfolding rkci_ok_def
    by (intro exI [of _ 1] conjI exI [of _ "[demo_resp 0 0, demo_resp 0 0]"]) (simp_all add: demo_kci_def)
  obtain acc out rk' where run: "channel_run rkci_put rkci_get [Inl (demo_resp 9 1), Inr (), Inl (demo_resp 8 2)] (rkci (mb_data demo_kci)) =
      (acc, out, rk')" using prod_cases3 by blast
  moreover have "acc = [demo_resp 9 1, demo_resp 8 2]"
    using run by (simp add: rkci_put_def rkci_get_def gcip_reverse_kci_add_resp_def gcip_reverse_kci_remove_resp_def demo_kci_def
        CIRC_SPACE_def CIRC_CNT_def Let_def)
  moreover have "rkci_pending (rkci (mb_data demo_kci)) = []" by (simp add: demo_kci_def rkci_pending_def rkci_count_def)
  ultimately show ?thesis using rkci_in_order [OF ok run] ok by auto
qed

section \<open>Asynchronous commands\<close>

text \<open>A thread that runs without interruption, with enough fuel for its at most four steps.\<close>

fun run_thread ::
  "nat \<Rightarrow> ('c, 'r, 'x) gcip_mailbox_ops \<Rightarrow> job list \<Rightarrow> ('c, 'r, 'x) gcip_mailbox \<Rightarrow> (nat \<Rightarrow> claim option)
     \<Rightarrow> ('c, 'r, 'x) gcip_mailbox option" where
  "run_thread n ops [] m cl = Some m"
| "run_thread 0 ops (j # js) m cl = None"
| "run_thread (Suc n) ops (j # js) m cl =
     (case job_step ops j m cl of Some (Some (js', m', cl')) \<Rightarrow> run_thread n ops (js' @ js) m' cl' | _ \<Rightarrow> None)"

text \<open>
  The threads whose interleavings are studied are the functions of the code: run without
  interruption they give what the handler of a response does after the locked section, what the
  handler of a timeout does and what a cancellation does, faults included.
\<close>

theorem threads_are_the_functions:
  "run_thread 4 ops [Arrived_Cancel_Timer a] m cl = handle_response_awaiter ops a m \<and>
   run_thread 4 ops [Timeout_Delete a] m cl = gcip_mailbox_async_cmd_timeout_work ops a m \<and>
   run_thread 3 ops [Cancel_Timer a] m cl = map_option snd (gcip_mailbox_cancel_awaiter ops Some a m)"
proof (intro conjI)
  show "run_thread 4 ops [Arrived_Cancel_Timer a] m cl = handle_response_awaiter ops a m"
    by (auto simp: eval_nat_numeral goes_on_def handle_response_awaiter_def split: bind_splits option.splits)
  show "run_thread 4 ops [Timeout_Delete a] m cl = gcip_mailbox_async_cmd_timeout_work ops a m"
    by (auto simp: eval_nat_numeral goes_on_def gcip_mailbox_async_cmd_timeout_work_def timeout_work_rest_def
        split: bind_splits option.splits bool.splits)
  show "run_thread 3 ops [Cancel_Timer a] m cl = map_option snd (gcip_mailbox_cancel_awaiter ops Some a m)"
    by (auto simp: eval_nat_numeral goes_on_def gcip_mailbox_cancel_awaiter_def split: bind_splits option.splits bool.splits)
qed





section \<open>A run\<close>

text \<open>A command is sent with a timeout, the timeout fires, and the owner cancels meanwhile.\<close>

lemma any_firmware_idle:
  "any_firmware rx_queue (\<lambda>m. resp_csr_tail (resp_csr (et_mailbox m))) (\<lambda>m. cmd_csr_head (cmd_csr (et_mailbox m))) = (\<lambda>m. m)"
  by (simp add: fun_eq_iff any_firmware_def firmware_write_def upd_mbox_def upd_et_def upd_kci_def et_mailbox_def)

definition demo_ops where "demo_ops = et_ops (\<lambda>m. m) (\<lambda>r m. (True, m)) (\<lambda>m. m) 3"

lemma demo_awaiter_ops: "awaiter_ops demo_ops kr_seq"
  using et_async.awaiter_ops_axioms [of rx_queue "\<lambda>m. resp_csr_tail (resp_csr (et_mailbox m))" "\<lambda>m. cmd_csr_head (cmd_csr (et_mailbox m))"]
  unfolding any_firmware_idle demo_ops_def .

lemma demo_ops_sel [simp]:
  "acquire_tx_queue_lock demo_ops = Some gcip_kci_acquire_cmd_queue_lock"
  "release_tx_queue_lock demo_ops = Some gcip_kci_release_cmd_queue_lock"
  "get_cmd_elem_seq demo_ops = Some gcip_kci_get_cmd_elem_seq" "set_resp_elem_seq demo_ops = Some gcip_kci_set_resp_elem_seq"
  "before_enqueue_wait_list demo_ops = None"
  by (simp_all add: demo_ops_def kci_mailbox_ops_def)

lemma demo_wait:
  "et_rx 2 0 1 m \<Longrightarrow> et_tx 2 0 0 m \<Longrightarrow> \<exists>f. wait_for_tx_queue_not_full demo_ops = Some f \<and> f m = Some (0, m)"
  using et_not_full [OF demo_queues(3) firmware_idle, of 0 1 m 0 0 "\<lambda>r m. (True, m)" "\<lambda>m. m" 3]
  by (simp add: demo_ops_def kci_mailbox_ops_def)

lemma demo_store:
  "et_rx 2 0 1 m \<Longrightarrow> et_tx 2 0 0 m \<Longrightarrow> mb_mode m = kci_mode \<Longrightarrow> \<exists>m'. enqueue_store demo_ops cmd m = Some (0, m')"
  using et_store [OF demo_queues(3), of 0 0 m 0 1 "\<lambda>m. m" "\<lambda>r m. (True, m)" "\<lambda>m. m" 3 cmd] by (auto simp: demo_ops_def)

lemma demo_send:
  "\<exists>c m w. gcip_mailbox_put_cmd_flags demo_ops demo_cmd (Some 0) 0 0 demo_kci = Some (Inr 1, c, m) \<and>
     awaiters m 1 = Some w \<and> timeout_work w = Work_Pending"
proof -
  define m1 where "m1 = demo_kci\<lparr>awaiters := [1 \<mapsto> \<lparr>timeout_work = Work_Pending, aw_data = 0, kref = Suc (Suc 0), handled = False\<rparr>],
    async_resps := [1 \<mapsto> \<lparr>waiting = False, resp_ptr = Some 0\<rparr>], next_addr := 2\<rparr>"
  define m2 where "m2 = upd_kci (\<lambda>k. k\<lparr>cmd_queue_lock := True\<rparr>) m1"
  have m2: "et_rx 2 0 1 m2" "et_tx 2 0 0 m2" "mb_mode m2 = kci_mode"
    using demo_queues by (simp_all add: m2_def m1_def upd_kci_def et_rx_def et_tx_def et_mailbox_def demo_kci_def kci_mode_def
        GCIP_MAILBOX_MODE_BIDIRECTIONAL_def GCIP_MAILBOX_MODE_SEQ_EXTERNAL_def)
  obtain f where f: "wait_for_tx_queue_not_full demo_ops = Some f" "f m2 = Some (0, m2)" using demo_wait [OF m2(1,2)] by blast
  obtain m3 where wt: "enqueue_waiter demo_ops demo_cmd 1 (Some 1) m2 = Some (0, m3)"
    and m3: "mb_data m3 = mb_data m2" "tx_queue m3 = tx_queue m2" "rx_queue m3 = rx_queue m2" "queue_wrap_bit m3 = queue_wrap_bit m2"
      "mb_mode m3 = mb_mode m2" "\<exists>w. awaiters m3 1 = Some w \<and> timeout_work w = Work_Pending"
    by (simp add: m2_def m1_def demo_kci_def upd_kci_def enqueue_waiter_def gcip_mailbox_push_wait_resp_def kmalloc_ok_def
        gcip_mailbox_awaiter_get_def upd_awaiter_def)
  have "et_rx 2 0 1 m3" "et_tx 2 0 0 m3" using m2(1,2) m3 by (simp_all add: et_rx_def et_tx_def et_mailbox_def)
  then obtain m4 where st: "enqueue_store demo_ops demo_cmd m3 = Some (0, m4)" using demo_store m2(3) m3(5) by metis
  have m4: "awaiters (gcip_kci_release_cmd_queue_lock m4) = awaiters m3"
    using awaiter_ops.store_effect [OF demo_awaiter_ops st] aw_view_eqD(3) by (auto simp: gcip_kci_release_cmd_queue_lock_def upd_kci_def)
  moreover have "\<not> should_maintain_seq_num (mb_mode m2)" by (simp add: m2(3))
  moreover have "gcip_kci_acquire_cmd_queue_lock False False m1 = Some (1, False, m2)"
    by (simp add: m2_def m1_def gcip_kci_acquire_cmd_queue_lock_def demo_kci_def)
  ultimately have "gcip_mailbox_enqueue_cmd demo_ops demo_cmd 1 (Some 1) m1 = Some (0, demo_cmd, gcip_kci_release_cmd_queue_lock m4)"
    using f wt st by (simp add: gcip_mailbox_enqueue_cmd_def)
  moreover have "case gcip_mailbox_awaiter_create (Some 0) 0 demo_kci of (r, m) \<Rightarrow> r = Inr 1 \<and>
      do { m \<leftarrow> gcip_mailbox_awaiter_get 1 m; upd_awaiter 1 (\<lambda>w. w\<lparr>timeout_work := Work_Pending\<rparr>) m } = Some m1"
    by (simp add: gcip_mailbox_awaiter_create_def kmalloc_ok_def demo_kci_def Let_def gcip_mailbox_awaiter_get_def upd_awaiter_def m1_def)
  ultimately show ?thesis using m3(6) m4
    by (auto simp: gcip_mailbox_put_cmd_flags_def split: prod.splits bind_splits)
qed

text \<open>The states of the run: the command is out and its timeout has fired; the owner starts to cancel.\<close>

lemma demo_run:
  "\<exists>s. asys_reachable demo_ops kr_seq s \<and> as_jobs s = [Cancel_Timer 1, Timeout_Delete 1] \<and> as_owned s = {1} \<and>
     as_claimed s = Map.empty"
proof -
  obtain c m w where put: "gcip_mailbox_put_cmd_flags demo_ops demo_cmd (Some 0) 0 0 demo_kci = Some (Inr 1, c, m)"
    and w: "awaiters m 1 = Some w" "timeout_work w = Work_Pending" using demo_send by blast
  define s0 where "s0 = asys_start demo_kci"
  have m0: "wait_list demo_kci = Some (map welem [])" "awaiters demo_kci = Map.empty" "resps demo_kci 0 \<noteq> None" "next_addr demo_kci = 1"
    by (simp_all add: demo_kci_def fun_eq_iff)
  define s1 where "s1 = s0\<lparr>as_mb := m, as_owned := insert 1 (as_owned s0)\<rparr>"
  have one: "asys_step demo_ops kr_seq s0 s1"
    unfolding s1_def using put m0 by (intro asys_step.send [where p = 0]) (auto simp: s0_def asys_start_def)
  define m2 where "m2 = m\<lparr>awaiters := (awaiters m)(1 \<mapsto> w\<lparr>timeout_work := Work_Running\<rparr>)\<rparr>"
  define s2 where "s2 = s1\<lparr>as_mb := m2, as_jobs := Timeout_Delete 1 # as_jobs s1\<rparr>"
  have two: "asys_step demo_ops kr_seq s1 s2"
    unfolding s2_def using w by (intro asys_step.fire) (auto simp: s1_def m2_def upd_awaiter_def)
  define s3 where "s3 = s2\<lparr>as_jobs := Cancel_Timer 1 # as_jobs s2\<rparr>"
  have three: "asys_step demo_ops kr_seq s2 s3"
    unfolding s3_def by (rule asys_step.cancel) (auto simp: s2_def s1_def s0_def asys_start_def)
  have "asys_reachable demo_ops kr_seq s3"
    unfolding asys_reachable_def using m0 rtranclp.rtrancl_into_rtrancl [OF rtranclp.rtrancl_into_rtrancl [OF r_into_rtranclp [of "asys_step demo_ops kr_seq", OF one] two] three]
    by (auto simp: s0_def)
  then show ?thesis by (intro exI [of _ s3]) (simp add: s3_def s2_def s1_def s0_def asys_start_def)
qed

text \<open>One step further the timeout has the awaiter.\<close>

lemma demo_run_claimed:
  "\<exists>s. asys_reachable demo_ops kr_seq s \<and> as_claimed s 1 = Some By_Timeout"
proof -
  obtain s where s: "asys_reachable demo_ops kr_seq s" "as_jobs s = [Cancel_Timer 1] @ Timeout_Delete 1 # []" "as_claimed s 1 = None"
    using demo_run by auto
  obtain l where inv: "mb_inv kr_seq (as_mb s) l (as_owned s) ([Cancel_Timer 1] @ Timeout_Delete 1 # []) (as_claimed s)"
    using awaiter_ops.reachable_ok [OF demo_awaiter_ops s(1)] s(2) by (auto simp: awaiters_ok_mb)
  obtain w where "awaiters (as_mb s) 1 = Some w" using job_alive [OF inv, of "Timeout_Delete 1" 1] by auto
  then have l: "1 \<in> set l" using inv s(3) by (auto simp: mb_inv_def aw_inv_def claims_ok_def)
  obtain m' where m': "gcip_mailbox_del_wait_resp demo_ops 1 (as_mb s) = Some (True, m')"
    using awaiter_ops.delete_job [OF demo_awaiter_ops inv, of 1 By_Timeout "[Timeout_Callback 1]"] l by auto
  define s' where "s' = s\<lparr>as_mb := m', as_jobs := [Cancel_Timer 1] @ [Timeout_Callback 1] @ [], as_claimed := (as_claimed s)(1 \<mapsto> By_Timeout)\<rparr>"
  have "asys_step demo_ops kr_seq s s'" unfolding s'_def by (rule asys_step.job [OF s(2)]) (use m' in simp)
  then have "asys_reachable demo_ops kr_seq s'" using s(1) unfolding asys_reachable_def by (meson rtranclp.rtrancl_into_rtrancl)
  then show ?thesis by (intro exI [of _ s']) (simp add: s'_def)
qed





end
