(* ===== verification/Edgetpu_Ikv.thy ===== *)
theory Edgetpu_Ikv
  imports Gcip_Kci Edgetpu_Mailbox
begin

text \<open>
  The in-kernel inference interface of the EdgeTPU, a client of the mailbox with asynchronous
  commands: \<^verbatim>\<open>edgetpu-ikv-mailbox-ops.c\<close> and \<^verbatim>\<open>edgetpu-vii-packet.c\<close> under
  \<^verbatim>\<open>src/google-modules/edgetpu/rio/drivers/edgetpu\<close>: packets, the state of the interface, how a
  response is processed and the operators of the mailbox. A command takes a credit of its group; its response
  waits on the pending list of the group and moves to the ready list when it arrives, times out
  or is cancelled. What happens to fences, threads and callbacks is recorded as a list of actions.
  The packets are those of the flatbuffer variant, which is what the configuration selects.
\<close>

unbundle bit_operations_syntax

section \<open>Packets\<close>

record edgetpu_vii_dma_descriptor =
  vd_address :: u64
  vd_size :: u32
  vd_flags :: u32

record edgetpu_vii_command =
  vc_seq :: u64
  vc_code :: u16
  vc_priority :: u8
  vc_dma :: edgetpu_vii_dma_descriptor
  vc_client_id :: u32
  vc_qos_class :: u8
  vc_cluster_ids_bitset :: u8
  vc_atomic :: u8

record edgetpu_vii_response =
  vr_seq :: u64
  vr_code :: u16
  vr_cluster_index :: u8
  vr_client_id :: u32
  vr_retval :: u64

definition edgetpu_vii_command_get_seq_number :: "edgetpu_vii_command \<Rightarrow> u64" where
  "edgetpu_vii_command_get_seq_number cmd = vc_seq cmd"

definition edgetpu_vii_command_set_seq_number :: "u64 \<Rightarrow> edgetpu_vii_command \<Rightarrow> edgetpu_vii_command" where
  "edgetpu_vii_command_set_seq_number seq cmd = cmd\<lparr>vc_seq := seq\<rparr>"

definition edgetpu_vii_command_get_client_id :: "edgetpu_vii_command \<Rightarrow> u32" where
  "edgetpu_vii_command_get_client_id cmd = vc_client_id cmd"

definition edgetpu_vii_command_set_client_id :: "u32 \<Rightarrow> edgetpu_vii_command \<Rightarrow> edgetpu_vii_command" where
  "edgetpu_vii_command_set_client_id cid cmd = cmd\<lparr>vc_client_id := cid\<rparr>"

text \<open>Flatbuffer packets have no room for additional information.\<close>

definition edgetpu_vii_command_set_additional_info :: "u32 \<Rightarrow> u16 \<Rightarrow> edgetpu_vii_command \<Rightarrow> edgetpu_vii_command" where
  "edgetpu_vii_command_set_additional_info addr sz cmd = cmd"

definition edgetpu_vii_response_get_seq_number :: "edgetpu_vii_response \<Rightarrow> u64" where
  "edgetpu_vii_response_get_seq_number resp = vr_seq resp"

definition edgetpu_vii_response_set_seq_number :: "u64 \<Rightarrow> edgetpu_vii_response \<Rightarrow> edgetpu_vii_response" where
  "edgetpu_vii_response_set_seq_number seq resp = resp\<lparr>vr_seq := seq\<rparr>"

definition edgetpu_vii_response_get_code :: "edgetpu_vii_response \<Rightarrow> u16" where
  "edgetpu_vii_response_get_code resp = vr_code resp"

definition edgetpu_vii_response_set_code :: "u16 \<Rightarrow> edgetpu_vii_response \<Rightarrow> edgetpu_vii_response" where
  "edgetpu_vii_response_set_code code resp = resp\<lparr>vr_code := code\<rparr>"

definition edgetpu_vii_response_get_client_id :: "edgetpu_vii_response \<Rightarrow> u32" where
  "edgetpu_vii_response_get_client_id resp = vr_client_id resp"

definition edgetpu_vii_response_set_client_id :: "u32 \<Rightarrow> edgetpu_vii_response \<Rightarrow> edgetpu_vii_response" where
  "edgetpu_vii_response_set_client_id cid resp = resp\<lparr>vr_client_id := cid\<rparr>"

definition edgetpu_vii_response_set_retval :: "u64 \<Rightarrow> edgetpu_vii_response \<Rightarrow> edgetpu_vii_response" where
  "edgetpu_vii_response_set_retval retval resp = resp\<lparr>vr_retval := retval\<rparr>"

definition VII_RESPONSE_CODE_KERNEL_CMD_TIMEOUT :: u16 where "VII_RESPONSE_CODE_KERNEL_CMD_TIMEOUT = 0x8000"
definition VII_RESPONSE_CODE_KERNEL_ENQUEUE_FAILED :: u16 where "VII_RESPONSE_CODE_KERNEL_ENQUEUE_FAILED = 0x8001"
definition VII_RESPONSE_CODE_KERNEL_FENCE_ERROR :: u16 where "VII_RESPONSE_CODE_KERNEL_FENCE_ERROR = 0x8002"
definition VII_RESPONSE_CODE_KERNEL_FENCE_TIMEOUT :: u16 where "VII_RESPONSE_CODE_KERNEL_FENCE_TIMEOUT = 0x8003"
definition VII_RESPONSE_CODE_KERNEL_CANCELED :: u16 where "VII_RESPONSE_CODE_KERNEL_CANCELED = 0x8004"

section \<open>State\<close>

text \<open>
  Fence arrays, fences, groups and lists are known by their addresses. \<open>ir_queue\<close> is the list that
  the entry of the response is linked in, \<^const>\<open>None\<close> as long as its links are NULL.
\<close>

record edgetpu_ikv_response =
  ir_resp :: nat
  ir_queue :: "nat option"
  ir_pending_queue :: nat
  ir_dest_queue :: nat
  ir_processed :: bool
  ir_awaiter :: "nat option"
  ir_client_seq :: u64
  ir_group_to_notify :: "nat option"
  ir_in_fence_array :: "nat option"
  ir_out_fence_array :: "nat option"
  ir_iif_dma_fence :: "nat option"
  ir_additional_info :: "u8 list"
  ir_release_callback :: "nat option"

datatype ikv_action =
    Fence_Propagate_Unblock nat | Fence_Signal "nat option" int | Fence_Waited "nat option"
  | Fence_Get "nat option" | Fence_Put "nat option" | Fence_Submit "nat option" "nat option"
  | Dma_Fence_Signaling nat | Dma_Fence_Put nat | Iif_Dma_Fence_Stop nat | Iif_Fence_Put nat
  | Group_Notify nat | Group_Fatal_Error nat | Info_Free nat | Release_Callback nat | Firmware_Log_State
  | Kthread_Wake nat | Kthread_Stop nat | Watchdog_Bite

datatype edgetpu_device_group_status =
    EDGETPU_DEVICE_GROUP_INITIALIZING | EDGETPU_DEVICE_GROUP_READY
  | EDGETPU_DEVICE_GROUP_ERRORED | EDGETPU_DEVICE_GROUP_DISBANDED

record edgetpu_device_group =
  dg_status :: edgetpu_device_group_status
  dg_etdomain :: "u32 option"
  dg_fatal_errors :: u32
  available_vii_credits :: int
  pending_ikv_resps :: nat
  ready_ikv_resps :: nat
  pending_cmd_tasks :: "nat list"
  is_clearing_pending_commands :: bool

record edgetpu_ikv =
  ikv_mbx_hardware :: edgetpu_mailbox
  ikv_mbx_hardware_set :: bool
  ikv_irq_handler :: bool
  ikv_cmd_queue_mem :: "u64 option"
  ikv_resp_queue_mem :: "u64 option"
  ikv_cmd_queue_lock :: bool
  ikv_resp_queue_lock :: bool
  enabled_pasids :: u32
  command_timeout_ms :: u32
  ikv_resps :: "nat \<Rightarrow> edgetpu_ikv_response option"
  ikv_lists :: "nat \<Rightarrow> nat list"
  ikv_groups :: "nat \<Rightarrow> edgetpu_device_group"
  ikv_actions :: "ikv_action list"

type_synonym ikv_mailbox = "(edgetpu_vii_command, edgetpu_vii_response, edgetpu_ikv) gcip_mailbox"
type_synonym ikv_ops = "(edgetpu_vii_command, edgetpu_vii_response, edgetpu_ikv) gcip_mailbox_ops"

definition upd_ikv :: "(edgetpu_ikv \<Rightarrow> edgetpu_ikv) \<Rightarrow> ikv_mailbox \<Rightarrow> ikv_mailbox" where
  "upd_ikv f m = m\<lparr>mb_data := f (mb_data m)\<rparr>"

definition ikv_act :: "ikv_action list \<Rightarrow> ikv_mailbox \<Rightarrow> ikv_mailbox" where
  "ikv_act as m = upd_ikv (\<lambda>k. k\<lparr>ikv_actions := ikv_actions k @ as\<rparr>) m"

definition upd_ikv_resp ::
  "nat \<Rightarrow> (edgetpu_ikv_response \<Rightarrow> edgetpu_ikv_response) \<Rightarrow> ikv_mailbox \<Rightarrow> ikv_mailbox" where
  "upd_ikv_resp d f m = upd_ikv (\<lambda>k. k\<lparr>ikv_resps := (ikv_resps k)(d := map_option f (ikv_resps k d))\<rparr>) m"

definition upd_group ::
  "nat \<Rightarrow> (edgetpu_device_group \<Rightarrow> edgetpu_device_group) \<Rightarrow> ikv_mailbox \<Rightarrow> ikv_mailbox" where
  "upd_group g f m = upd_ikv (\<lambda>k. k\<lparr>ikv_groups := (ikv_groups k)(g := f (ikv_groups k g))\<rparr>) m"

section \<open>Lists and waiters\<close>

text \<open>Deleting an entry that is on no list any more follows poisoned links.\<close>

definition list_del :: "nat \<Rightarrow> nat \<Rightarrow> ikv_mailbox \<Rightarrow> ikv_mailbox option" where
  "list_del d q m =
     (if d \<in> set (ikv_lists (mb_data m) q)
      then Some (upd_ikv (\<lambda>k. k\<lparr>ikv_lists := (ikv_lists k)(q := remove1 d (ikv_lists k q))\<rparr>) m)
      else None)"

definition list_add_tail :: "nat \<Rightarrow> nat \<Rightarrow> ikv_mailbox \<Rightarrow> ikv_mailbox" where
  "list_add_tail d q m = upd_ikv_resp d (\<lambda>r. r\<lparr>ir_queue := Some q\<rparr>)
     (upd_ikv (\<lambda>k. k\<lparr>ikv_lists := (ikv_lists k)(q := ikv_lists k q @ [d])\<rparr>) m)"

definition refund_credit :: "nat option \<Rightarrow> ikv_mailbox \<Rightarrow> ikv_mailbox" where
  "refund_credit g m = (case g of
     None \<Rightarrow> m
   | Some g \<Rightarrow> upd_group g (\<lambda>d. d\<lparr>available_vii_credits := available_vii_credits d + 1\<rparr>) m)"

definition signal_response_waiters :: "edgetpu_ikv_response \<Rightarrow> int \<Rightarrow> bool \<Rightarrow> ikv_mailbox \<Rightarrow> ikv_mailbox" where
  "signal_response_waiters r error notify_group m =
     ikv_act ((case ir_out_fence_array r of
                 None \<Rightarrow> []
               | Some f \<Rightarrow> if error \<noteq> 0 then [Fence_Propagate_Unblock f] else []) @
              [Fence_Signal (ir_out_fence_array r) error, Fence_Waited (ir_in_fence_array r),
               Fence_Put (ir_out_fence_array r), Fence_Put (ir_in_fence_array r)] @
              (case ir_group_to_notify r of
                 None \<Rightarrow> []
               | Some g \<Rightarrow> if notify_group then [Group_Notify g] else []))
       (refund_credit (ir_group_to_notify r) m)"

definition edgetpu_ikv_process_response ::
  "nat \<Rightarrow> u16 option \<Rightarrow> u64 option \<Rightarrow> int \<Rightarrow> bool \<Rightarrow> ikv_mailbox \<Rightarrow> ikv_mailbox option" where
  "edgetpu_ikv_process_response d resp_code resp_retval fence_error force m = do {
     r \<leftarrow> ikv_resps (mb_data m) d;
     if ir_processed r \<and> \<not> force then Some m
     else do {
       let m = upd_ikv_resp d (\<lambda>r. r\<lparr>ir_processed := True\<rparr>) m;
       buf \<leftarrow> resps m (ir_resp r);
       let buf = (case resp_code of None \<Rightarrow> buf | Some c \<Rightarrow> edgetpu_vii_response_set_code c buf);
       let buf = (case resp_retval of None \<Rightarrow> buf | Some v \<Rightarrow> edgetpu_vii_response_set_retval v buf);
       let buf = edgetpu_vii_response_set_seq_number (ir_client_seq r) buf;
       let m = m\<lparr>resps := (resps m)(ir_resp r \<mapsto> buf)\<rparr>;
       m \<leftarrow> (case ir_queue r of None \<Rightarrow> Some m | Some q \<Rightarrow> list_del d q m);
       let m = list_add_tail d (ir_dest_queue r) m;
       Some (signal_response_waiters r fence_error True m) } }"

section \<open>The operators of the mailbox\<close>

text \<open>The firmware changes the registers it owns whenever they are read.\<close>

definition edgetpu_ikv_get_cmd_queue_head :: "(ikv_mailbox \<Rightarrow> ikv_mailbox) \<Rightarrow> ikv_mailbox \<Rightarrow> u32 \<times> ikv_mailbox" where
  "edgetpu_ikv_get_cmd_queue_head fw m = (let m = fw m in (cmd_csr_head (cmd_csr (ikv_mbx_hardware (mb_data m))), m))"

definition edgetpu_ikv_get_cmd_queue_tail :: "ikv_mailbox \<Rightarrow> u32 option" where
  "edgetpu_ikv_get_cmd_queue_tail m = Some (cmd_queue_tail (ikv_mbx_hardware (mb_data m)))"

definition upd_hw :: "(edgetpu_mailbox \<Rightarrow> edgetpu_mailbox) \<Rightarrow> ikv_mailbox \<Rightarrow> ikv_mailbox" where
  "upd_hw f m = upd_ikv (\<lambda>k. k\<lparr>ikv_mbx_hardware := f (ikv_mbx_hardware k)\<rparr>) m"

definition edgetpu_ikv_inc_cmd_queue_tail :: "u32 \<Rightarrow> ikv_mailbox \<Rightarrow> ikv_mailbox option" where
  "edgetpu_ikv_inc_cmd_queue_tail inc m = Some (upd_hw (edgetpu_mailbox_inc_cmd_queue_tail inc) m)"

definition edgetpu_ikv_acquire_cmd_queue_lock :: "bool \<Rightarrow> bool \<Rightarrow> ikv_mailbox \<Rightarrow> (int \<times> bool \<times> ikv_mailbox) option" where
  "edgetpu_ikv_acquire_cmd_queue_lock try atomic m =
     (if ikv_cmd_queue_lock (mb_data m) then None
      else Some (1, False, upd_ikv (\<lambda>k. k\<lparr>ikv_cmd_queue_lock := True\<rparr>) m))"

definition edgetpu_ikv_release_cmd_queue_lock :: "ikv_mailbox \<Rightarrow> ikv_mailbox" where
  "edgetpu_ikv_release_cmd_queue_lock m = upd_ikv (\<lambda>k. k\<lparr>ikv_cmd_queue_lock := False\<rparr>) m"

definition edgetpu_ikv_get_resp_queue_size :: "ikv_mailbox \<Rightarrow> u32 option" where
  "edgetpu_ikv_get_resp_queue_size m = Some (resp_queue_size (ikv_mbx_hardware (mb_data m)))"

definition edgetpu_ikv_get_resp_queue_head :: "ikv_mailbox \<Rightarrow> u32 option" where
  "edgetpu_ikv_get_resp_queue_head m = Some (resp_queue_head (ikv_mbx_hardware (mb_data m)))"

definition edgetpu_ikv_get_resp_queue_tail :: "(ikv_mailbox \<Rightarrow> ikv_mailbox) \<Rightarrow> ikv_mailbox \<Rightarrow> (u32 \<times> ikv_mailbox) option" where
  "edgetpu_ikv_get_resp_queue_tail fw m = (let m = fw m in Some (resp_csr_tail (resp_csr (ikv_mbx_hardware (mb_data m))), m))"

definition edgetpu_ikv_inc_resp_queue_head :: "u32 \<Rightarrow> ikv_mailbox \<Rightarrow> ikv_mailbox option" where
  "edgetpu_ikv_inc_resp_queue_head inc m = Some (upd_hw (edgetpu_mailbox_inc_resp_queue_head inc) m)"

definition edgetpu_ikv_acquire_resp_queue_lock :: "bool \<Rightarrow> bool \<Rightarrow> ikv_mailbox \<Rightarrow> (int \<times> bool \<times> ikv_mailbox) option" where
  "edgetpu_ikv_acquire_resp_queue_lock try atomic m =
     (if ikv_resp_queue_lock (mb_data m) then (if try then Some (0, True, m) else None)
      else Some (1, True, upd_ikv (\<lambda>k. k\<lparr>ikv_resp_queue_lock := True\<rparr>) m))"

definition edgetpu_ikv_release_resp_queue_lock :: "ikv_mailbox \<Rightarrow> ikv_mailbox" where
  "edgetpu_ikv_release_resp_queue_lock m = upd_ikv (\<lambda>k. k\<lparr>ikv_resp_queue_lock := False\<rparr>) m"

definition edgetpu_ikv_wait_for_cmd_queue_not_full ::
  "(ikv_mailbox \<Rightarrow> ikv_mailbox) \<Rightarrow> nat \<Rightarrow> ikv_mailbox \<Rightarrow> (int \<times> ikv_mailbox) option" where
  "edgetpu_ikv_wait_for_cmd_queue_not_full fw polls m = do {
     tail \<leftarrow> edgetpu_ikv_get_cmd_queue_tail m;
     let not_full = (\<lambda>m. case edgetpu_ikv_get_cmd_queue_head fw m of
           (head, m) \<Rightarrow> (ucast head \<noteq> (ucast tail XOR queue_wrap_bit m), m));
     case not_full m of
       (True, m) \<Rightarrow> Some (0, m)
     | (False, m) \<Rightarrow> (case wait_event_timeout polls not_full m of
         (done, m) \<Rightarrow> Some (if done then 0 else - ETIMEDOUT, m)) }"

text \<open>\<open>submit\<close> is the result of \<open>gcip_fence_array_submit_waiter_and_signaler\<close> for the two arrays.\<close>

definition edgetpu_ikv_before_enqueue_wait_list ::
  "(nat option \<Rightarrow> nat option \<Rightarrow> int) \<Rightarrow> nat option \<Rightarrow> nat option \<Rightarrow> ikv_mailbox \<Rightarrow> (int \<times> ikv_mailbox) option" where
  "edgetpu_ikv_before_enqueue_wait_list submit resp awaiter m = do {
     a \<leftarrow> awaiter;
     w \<leftarrow> awaiters m a;
     let d = aw_data w;
     r \<leftarrow> ikv_resps (mb_data m) d;
     let m = ikv_act [Fence_Submit (ir_in_fence_array r) (ir_out_fence_array r)]
               (upd_ikv_resp d (\<lambda>r. r\<lparr>ir_awaiter := Some a\<rparr>) m);
     let ret = submit (ir_in_fence_array r) (ir_out_fence_array r);
     if ret \<noteq> 0 then Some (ret, m) else Some (0, list_add_tail d (ir_pending_queue r) m) }"

definition ikv_ring_doorbell :: "ikv_mailbox \<Rightarrow> ikv_mailbox" where
  "ikv_ring_doorbell m = upd_hw (\<lambda>mb. mb\<lparr>cmd_csr := (cmd_csr mb)\<lparr>cmd_doorbell_set := 1\<rparr>\<rparr>) m"

definition edgetpu_ikv_after_enqueue_cmd :: "edgetpu_vii_command \<Rightarrow> ikv_mailbox \<Rightarrow> (int \<times> ikv_mailbox) option" where
  "edgetpu_ikv_after_enqueue_cmd cmd m = Some (0, ikv_ring_doorbell m)"

definition edgetpu_ikv_after_fetch_resps :: "u32 \<Rightarrow> ikv_mailbox \<Rightarrow> ikv_mailbox option" where
  "edgetpu_ikv_after_fetch_resps num_resps m = do {
     sz \<leftarrow> edgetpu_ikv_get_resp_queue_size m;
     Some (if num_resps \<ge> sz div 2 then ikv_ring_doorbell m else m) }"

definition edgetpu_ikv_handle_awaiter_arrived :: "nat \<Rightarrow> ikv_mailbox \<Rightarrow> ikv_mailbox option" where
  "edgetpu_ikv_handle_awaiter_arrived a m = do {
     w \<leftarrow> awaiters m a;
     r \<leftarrow> ikv_resps (mb_data m) (aw_data w);
     buf \<leftarrow> resps m (ir_resp r);
     edgetpu_ikv_process_response (aw_data w) None None
       (if edgetpu_vii_response_get_code buf \<noteq> 0 then - EIO else 0) False m }"

definition edgetpu_ikv_handle_awaiter_timedout :: "nat \<Rightarrow> ikv_mailbox \<Rightarrow> ikv_mailbox option" where
  "edgetpu_ikv_handle_awaiter_timedout a m = do {
     w \<leftarrow> awaiters m a;
     _ \<leftarrow> ikv_resps (mb_data m) (aw_data w);
     edgetpu_ikv_process_response (aw_data w) (Some VII_RESPONSE_CODE_KERNEL_CMD_TIMEOUT)
       (Some (ucast (command_timeout_ms (mb_data m)))) (- ETIMEDOUT) False (ikv_act [Firmware_Log_State] m) }"

definition edgetpu_ikv_release_awaiter_data :: "nat \<Rightarrow> ikv_mailbox \<Rightarrow> ikv_mailbox option" where
  "edgetpu_ikv_release_awaiter_data d m = do {
     r \<leftarrow> ikv_resps (mb_data m) d;
     let m = ikv_act ((case ir_iif_dma_fence r of None \<Rightarrow> [] | Some f \<Rightarrow> [Iif_Dma_Fence_Stop f, Iif_Fence_Put f]) @ [Info_Free d] @
                      (case ir_release_callback r of None \<Rightarrow> [] | Some c \<Rightarrow> [Release_Callback c])) m;
     Some (upd_ikv (\<lambda>k. k\<lparr>ikv_resps := (ikv_resps k)(d := None)\<rparr>) (m\<lparr>resps := (resps m)(ir_resp r := None)\<rparr>)) }"

definition edgetpu_ikv_does_response_match_waiter :: "edgetpu_vii_response \<Rightarrow> edgetpu_vii_response \<Rightarrow> bool" where
  "edgetpu_ikv_does_response_match_waiter incoming_resp waiter_resp \<longleftrightarrow>
     edgetpu_vii_response_get_seq_number incoming_resp = edgetpu_vii_response_get_seq_number waiter_resp \<and>
     edgetpu_vii_response_get_client_id incoming_resp AND 0xFFFF = edgetpu_vii_response_get_client_id waiter_resp AND 0xFFFF"

text \<open>The handler of a flush drops the driver's reference with the operators of the same table.\<close>

definition edgetpu_ikv_handle_awaiter_flushed :: "ikv_ops \<Rightarrow> nat \<Rightarrow> ikv_mailbox \<Rightarrow> ikv_mailbox option" where
  "edgetpu_ikv_handle_awaiter_flushed ops a m = do {
     w \<leftarrow> awaiters m a;
     let d = aw_data w;
     r \<leftarrow> ikv_resps (mb_data m) d;
     if ir_processed r then Some m
     else gcip_mailbox_awaiter_put ops a
       (signal_response_waiters r (- ECANCELED) False (upd_ikv_resp d (\<lambda>r. r\<lparr>ir_processed := True\<rparr>) m)) }"

definition ikv_ops_no_flush :: "(ikv_mailbox \<Rightarrow> ikv_mailbox) \<Rightarrow> (nat option \<Rightarrow> nat option \<Rightarrow> int) \<Rightarrow> nat \<Rightarrow> ikv_ops" where
  "ikv_ops_no_flush fw submit polls = \<lparr>
     get_tx_queue_tail = Some edgetpu_ikv_get_cmd_queue_tail,
     inc_tx_queue_tail = Some edgetpu_ikv_inc_cmd_queue_tail,
     acquire_tx_queue_lock = Some edgetpu_ikv_acquire_cmd_queue_lock,
     release_tx_queue_lock = Some edgetpu_ikv_release_cmd_queue_lock,
     get_cmd_elem_seq = Some edgetpu_vii_command_get_seq_number,
     set_cmd_elem_seq = Some edgetpu_vii_command_set_seq_number,
     wait_for_tx_queue_not_full = Some (edgetpu_ikv_wait_for_cmd_queue_not_full fw polls),
     get_rx_queue_size = Some edgetpu_ikv_get_resp_queue_size,
     get_rx_queue_head = Some edgetpu_ikv_get_resp_queue_head,
     get_rx_queue_tail = Some (edgetpu_ikv_get_resp_queue_tail fw),
     inc_rx_queue_head = Some edgetpu_ikv_inc_resp_queue_head,
     acquire_rx_queue_lock = Some edgetpu_ikv_acquire_resp_queue_lock,
     release_rx_queue_lock = Some edgetpu_ikv_release_resp_queue_lock,
     get_resp_elem_seq = Some edgetpu_vii_response_get_seq_number,
     set_resp_elem_seq = Some edgetpu_vii_response_set_seq_number,
     is_rx_elem_reversed = None,
     handle_reversed_command = None,
     before_enqueue_wait_list = Some (edgetpu_ikv_before_enqueue_wait_list submit),
     after_enqueue_cmd = Some edgetpu_ikv_after_enqueue_cmd,
     after_fetch_resps = Some edgetpu_ikv_after_fetch_resps,
     handle_awaiter_arrived = Some edgetpu_ikv_handle_awaiter_arrived,
     handle_awaiter_timedout = Some edgetpu_ikv_handle_awaiter_timedout,
     handle_awaiter_flushed = None,
     release_awaiter_data = Some edgetpu_ikv_release_awaiter_data,
     is_block_off = None,
     on_error = None,
     does_response_match_waiter = Some edgetpu_ikv_does_response_match_waiter\<rparr>"

definition ikv_mailbox_ops :: "(ikv_mailbox \<Rightarrow> ikv_mailbox) \<Rightarrow> (nat option \<Rightarrow> nat option \<Rightarrow> int) \<Rightarrow> nat \<Rightarrow> ikv_ops" where
  "ikv_mailbox_ops fw submit polls =
     (ikv_ops_no_flush fw submit polls)\<lparr>handle_awaiter_flushed :=
        Some (edgetpu_ikv_handle_awaiter_flushed (ikv_ops_no_flush fw submit polls))\<rparr>"

end
