(* ===== verification/Ikv_Additional_Info.thy ===== *)
theory Ikv_Additional_Info
  imports Kernel_Prelude "HOL-Library.Monad_Syntax"
begin

text \<open>
  The additional information that accompanies a command of the in-kernel inference interface,
  \<^verbatim>\<open>src/google-modules/edgetpu/rio/drivers/edgetpu/edgetpu-ikv-additional-info.c\<close>: a header, a root
  object with offsets, two vectors of fences and a block of data of the runtime, serialized into a
  buffer that the firmware reads. Shown: the parts lie inside the buffer in order without
  overlap, the buffer ends on a multiple of 16 bytes, and a reader that follows the offsets gets back
  what was written.
\<close>

unbundle bit_operations_syntax

section \<open>Layout\<close>

record edgetpu_ikv_additional_info_header =
  ai_identifier :: u8
  ai_version :: u8
  ai_root_offset :: u64

text \<open>Offsets are signed in the code; they are extended as such wherever they are used.\<close>

record edgetpu_ikv_additional_info_root =
  ai_object_size :: u32
  ai_in_fences_offset :: u32
  ai_in_fences_count :: u32
  ai_out_fences_offset :: u32
  ai_out_fences_count :: u32
  ai_timeout_ms :: u32
  ai_runtime_data_offset :: u32
  ai_runtime_data_size :: u32

record edgetpu_ikv_additional_info =
  ai_header :: edgetpu_ikv_additional_info_header
  ai_root :: edgetpu_ikv_additional_info_root
  ai_in_fences :: "u16 list"
  ai_out_fences :: "u16 list"
  ai_runtime_data :: "u8 list"

text \<open>\<open>ALIGN(end, 16)\<close>; both structures are packed, of 16 and 32 bytes.\<close>

definition ALIGN_16 :: "u32 \<Rightarrow> u32" where
  "ALIGN_16 x = (x + 15) AND NOT 15"

definition edgetpu_ikv_additional_info_align_offset :: "u32 \<Rightarrow> u32 \<Rightarrow> u32" where
  "edgetpu_ikv_additional_info_align_offset offset sz =
     (let e = offset + sz; aligned = ALIGN_16 e in offset + (aligned - e))"

definition edgetpu_ikv_additional_info_fill_header :: edgetpu_ikv_additional_info_header where
  "edgetpu_ikv_additional_info_fill_header =
     \<lparr>ai_identifier = 0, ai_version = 0, ai_root_offset = ucast (edgetpu_ikv_additional_info_align_offset 16 32)\<rparr>"

definition edgetpu_ikv_additional_info_fill_root :: "u32 \<Rightarrow> u32 \<Rightarrow> u32 \<Rightarrow> u32 \<Rightarrow> edgetpu_ikv_additional_info_root" where
  "edgetpu_ikv_additional_info_fill_root in_fences_count out_fences_count timeout_ms runtime_data_size =
     (let in_fences_count_b = 2 * in_fences_count;
          out_fences_count_b = 2 * out_fences_count;
          in_off = edgetpu_ikv_additional_info_align_offset 32 in_fences_count_b;
          out_off = edgetpu_ikv_additional_info_align_offset (in_off + in_fences_count_b) out_fences_count_b;
          data_off = edgetpu_ikv_additional_info_align_offset (out_off + out_fences_count_b) runtime_data_size
      in \<lparr>ai_object_size = 32, ai_in_fences_offset = in_off, ai_in_fences_count = in_fences_count,
          ai_out_fences_offset = out_off, ai_out_fences_count = out_fences_count, ai_timeout_ms = timeout_ms,
          ai_runtime_data_offset = data_off, ai_runtime_data_size = runtime_data_size\<rparr>)"

definition edgetpu_ikv_additional_info_fill ::
  "u16 list \<Rightarrow> u32 \<Rightarrow> u16 list \<Rightarrow> u32 \<Rightarrow> u32 \<Rightarrow> u8 list \<Rightarrow> u32 \<Rightarrow> edgetpu_ikv_additional_info" where
  "edgetpu_ikv_additional_info_fill in_fences in_fences_count out_fences out_fences_count timeout_ms runtime_data runtime_data_size =
     \<lparr>ai_header = edgetpu_ikv_additional_info_fill_header,
      ai_root = edgetpu_ikv_additional_info_fill_root in_fences_count out_fences_count timeout_ms runtime_data_size,
      ai_in_fences = in_fences, ai_out_fences = out_fences, ai_runtime_data = runtime_data\<rparr>"

section \<open>Serialization\<close>

text \<open>The reserved bytes of the header are zero: the caller clears the structure before it is filled.\<close>

definition le_bytes :: "nat \<Rightarrow> 'a::len word \<Rightarrow> u8 list" where
  "le_bytes n w = map (\<lambda>i. ucast (drop_bit (8 * i) w)) [0..<n]"

definition header_bytes :: "edgetpu_ikv_additional_info_header \<Rightarrow> u8 list" where
  "header_bytes h = [ai_identifier h, ai_version h, 0, 0, 0, 0, 0, 0] @ le_bytes 8 (ai_root_offset h)"

definition root_bytes :: "edgetpu_ikv_additional_info_root \<Rightarrow> u8 list" where
  "root_bytes r = concat (map (le_bytes 4) [ai_object_size r, ai_in_fences_offset r, ai_in_fences_count r,
     ai_out_fences_offset r, ai_out_fences_count r, ai_timeout_ms r, ai_runtime_data_offset r, ai_runtime_data_size r])"

text \<open>\<open>memcpy\<close> of the first \<open>n\<close> bytes of \<open>src\<close> to an offset of a buffer; leaving either is a fault.\<close>

definition buf_copy :: "nat \<Rightarrow> u8 list \<Rightarrow> nat \<Rightarrow> u8 list \<Rightarrow> u8 list option" where
  "buf_copy off src n buf =
     (if n \<le> length src \<and> off + n \<le> length buf then Some (take off buf @ take n src @ drop (off + n) buf) else None)"

definition buf_copy_if :: "bool \<Rightarrow> nat \<Rightarrow> u8 list \<Rightarrow> nat \<Rightarrow> u8 list \<Rightarrow> u8 list option" where
  "buf_copy_if b off src n buf = (if b then buf_copy off src n buf else Some buf)"

definition fence_bytes :: "u16 list \<Rightarrow> u8 list" where
  "fence_bytes fs = concat (map (le_bytes 2) fs)"

definition additional_info_size :: "edgetpu_ikv_additional_info \<Rightarrow> u64" where
  "additional_info_size info =
     ai_root_offset (ai_header info) + scast (ai_runtime_data_offset (ai_root info)) + ucast (ai_runtime_data_size (ai_root info))"

text \<open>The allocator of shared memory, \<open>edgetpu_iremap_alloc\<close>, is the argument \<open>iremap_alloc\<close>.\<close>

definition edgetpu_ikv_additional_info_alloc_and_copy ::
  "(u64 \<Rightarrow> int + u8 list) \<Rightarrow> edgetpu_ikv_additional_info \<Rightarrow> (int + u64 \<times> u8 list) option" where
  "edgetpu_ikv_additional_info_alloc_and_copy iremap_alloc info =
     (let sz = additional_info_size info; base = ai_root_offset (ai_header info); root = ai_root info in
      case iremap_alloc sz of
        Inl ret \<Rightarrow> Some (Inl ret)
      | Inr mem \<Rightarrow> do {
          mem \<leftarrow> buf_copy 0 (header_bytes (ai_header info)) 16 mem;
          mem \<leftarrow> buf_copy (unat base) (root_bytes root) 32 mem;
          mem \<leftarrow> buf_copy_if (ai_in_fences_count root \<noteq> 0) (unat (base + scast (ai_in_fences_offset root)))
                   (fence_bytes (ai_in_fences info)) (unat (2 * ucast (ai_in_fences_count root) :: u64)) mem;
          mem \<leftarrow> buf_copy_if (ai_out_fences_count root \<noteq> 0) (unat (base + scast (ai_out_fences_offset root)))
                   (fence_bytes (ai_out_fences info)) (unat (2 * ucast (ai_out_fences_count root) :: u64)) mem;
          mem \<leftarrow> buf_copy_if (ai_runtime_data_size root \<noteq> 0) (unat (base + scast (ai_runtime_data_offset root)))
                   (ai_runtime_data info) (unat (ai_runtime_data_size root)) mem;
          Some (Inr (sz, mem)) })"

section \<open>The reader\<close>

text \<open>What a reader finds that follows the description of the layout in the header file.\<close>

definition slice :: "nat \<Rightarrow> nat \<Rightarrow> 'a list \<Rightarrow> 'a list" where
  "slice off n xs = take n (drop off xs)"

definition le_nat :: "u8 list \<Rightarrow> nat" where
  "le_nat bs = foldr (\<lambda>b acc. unat b + 256 * acc) bs 0"

definition root_field :: "u8 list \<Rightarrow> nat \<Rightarrow> nat \<Rightarrow> nat" where
  "root_field mem base i = le_nat (slice (base + 4 * i) 4 mem)"

definition read_fences :: "u8 list \<Rightarrow> nat \<Rightarrow> nat \<Rightarrow> nat list" where
  "read_fences mem off n = map (\<lambda>i. le_nat (slice (off + 2 * i) 2 mem)) [0..<n]"

definition additional_info_read :: "u8 list \<Rightarrow> nat list \<times> nat list \<times> nat \<times> u8 list" where
  "additional_info_read mem =
     (let base = le_nat (slice 8 8 mem); f = root_field mem base in
      (read_fences mem (base + f 1) (f 2), read_fences mem (base + f 3) (f 4), f 5, slice (base + f 6) (f 7) mem))"

section \<open>Offsets\<close>

lemma ALIGN_16_nat:
  assumes "unat x + 15 < 4294967296"
  shows "unat (ALIGN_16 x) = (unat x + 15) div 16 * 16"
proof -
  have "y AND NOT (mask 4) = push_bit 4 (drop_bit 4 y)" for y :: u32
    by (rule bit_word_eqI) (auto simp: bit_simps)
  from this [of "x + 15"] have "ALIGN_16 x = (x + 15) div 16 * 16"
    by (simp add: ALIGN_16_def mask_eq_exp_minus_1 push_bit_eq_mult drop_bit_eq_div)
  moreover have "unat ((x + 15) div 16) = (unat x + 15) div 16"
    using assms unat_add_no_wrap [of x 15] by (simp add: unat_div)
  moreover have "(unat x + 15) div 16 * 16 < 4294967296" using assms by linarith
  ultimately show ?thesis using unat_mult_lem [of "(x + 15) div 16" 16] by simp
qed

text \<open>The aligned end of a part that starts at or behind \<open>off\<close>.\<close>

definition part_end :: "nat \<Rightarrow> nat" where
  "part_end e = (e + 15) div 16 * 16"

lemma part_end_bounds: "e \<le> part_end e" "part_end e < e + 16" "16 dvd part_end e"
  by (simp_all add: part_end_def)

lemma align_offset_nat:
  assumes "unat off + unat sz + 15 < 4294967296"
  shows "unat (edgetpu_ikv_additional_info_align_offset off sz) = part_end (unat off + unat sz) - unat sz"
proof -
  have e: "unat (off + sz) = unat off + unat sz" using assms unat_add_no_wrap [of off sz] by simp
  have al: "unat (ALIGN_16 (off + sz)) = part_end (unat off + unat sz)"
    using ALIGN_16_nat [of "off + sz"] assms by (simp add: e part_end_def)
  note b = part_end_bounds [of "unat off + unat sz"]
  have d: "unat (ALIGN_16 (off + sz) - (off + sz)) = part_end (unat off + unat sz) - (unat off + unat sz)"
    using b by (simp add: unat_sub_eq al e)
  show ?thesis using unat_add_no_wrap [of off "ALIGN_16 (off + sz) - (off + sz)"] assms b
    by (simp add: edgetpu_ikv_additional_info_align_offset_def Let_def d)
qed

section \<open>Bytes\<close>

lemma length_le_bytes [simp]: "length (le_bytes n w) = n"
  by (simp add: le_bytes_def)

lemma le_bytes_Suc: "le_bytes (Suc n) w = ucast w # le_bytes n (drop_bit 8 w)"
  by (simp add: le_bytes_def map_upt_Suc drop_bit_drop_bit ac_simps del: upt_Suc)

lemma le_nat_le_bytes: "le_nat (le_bytes n w) = unat w mod 256 ^ n"
proof (induction n arbitrary: w)
  case 0
  then show ?case by (simp add: le_nat_def le_bytes_def)
next
  case (Suc n)
  have d: "unat (drop_bit 8 w) = unat w div 256" unfolding unsigned_drop_bit_eq
    by (simp add: drop_bit_eq_div take_bit_nat_eq_self [OF unsigned_less])
  have "unat (ucast w :: u8) = unat w mod 256" by (simp add: unsigned_ucast_eq take_bit_eq_mod)
  then have "le_nat (le_bytes (Suc n) w) = unat w mod 256 + 256 * (unat w div 256 mod 256 ^ n)"
    using Suc [of "drop_bit 8 w"] unfolding le_bytes_Suc d by (simp add: le_nat_def)
  then show ?case by (simp add: mod_mult2_eq)
qed

lemma slice_slice: "a + k \<le> n \<Longrightarrow> slice (off + a) k xs = slice a k (slice off n xs)"
  by (simp add: slice_def drop_take min_absorb1 ac_simps)

lemma length_buf_copy: "buf_copy off src n buf = Some buf' \<Longrightarrow> length buf' = length buf"
  by (auto simp: buf_copy_def split: if_splits)

lemma buf_copy_here: "buf_copy off src n buf = Some buf' \<Longrightarrow> slice off n buf' = take n src"
  by (auto simp: buf_copy_def slice_def split: if_splits)

lemma buf_copy_else:
  assumes "buf_copy off src n buf = Some buf'" "o' + k \<le> off \<or> off + n \<le> o'"
  shows "slice o' k buf' = slice o' k buf"
proof (rule nth_equalityI)
  have l: "length buf' = length buf" using length_buf_copy [OF assms(1)] .
  then show "length (slice o' k buf') = length (slice o' k buf)" by (simp add: slice_def)
  fix i
  assume "i < length (slice o' k buf')"
  then show "slice o' k buf' ! i = slice o' k buf ! i"
    using assms l by (auto simp: buf_copy_def slice_def nth_append split: if_splits)
qed

section \<open>The parts in the buffer\<close>

lemma length_fence_bytes [simp]: "length (fence_bytes fs) = 2 * length fs"
  by (induction fs) (simp_all add: fence_bytes_def)

lemma slice_fence_bytes: "i < length fs \<Longrightarrow> slice (2 * i) 2 (fence_bytes fs) = le_bytes 2 (fs ! i)"
proof (induction fs arbitrary: i)
  case (Cons f fs)
  then show ?case by (cases i) (simp_all add: fence_bytes_def slice_def)
qed simp

lemma read_fences_spec:
  assumes "slice off (2 * length fs) mem = fence_bytes fs"
  shows "read_fences mem off (length fs) = map unat fs"
proof (rule nth_equalityI)
  fix i
  assume "i < length (read_fences mem off (length fs))"
  then have i: "i < length fs" by (simp add: read_fences_def)
  then have "slice (off + 2 * i) 2 mem = le_bytes 2 (fs ! i)"
    using slice_slice [of "2 * i" 2 "2 * length fs" off mem] slice_fence_bytes [OF i] assms by simp
  moreover have "unat (fs ! i) < 65536" using unsigned_less [of "fs ! i"] by simp
  ultimately show "read_fences mem off (length fs) ! i = map unat fs ! i"
    using i by (simp add: read_fences_def le_nat_le_bytes)
qed (simp add: read_fences_def)

lemma root_field_spec:
  assumes "slice base 32 mem = root_bytes r" "i < 8"
  shows "root_field mem base i = unat ([ai_object_size r, ai_in_fences_offset r, ai_in_fences_count r,
     ai_out_fences_offset r, ai_out_fences_count r, ai_timeout_ms r, ai_runtime_data_offset r, ai_runtime_data_size r] ! i)"
    (is "_ = unat (?fields ! i)")
proof -
  have "slice (4 * i) 4 (root_bytes r) = le_bytes 4 (?fields ! i)"
    using assms(2) by (auto simp: root_bytes_def slice_def less_Suc_eq numeral_eq_Suc)
  then have "slice (base + 4 * i) 4 mem = le_bytes 4 (?fields ! i)"
    using slice_slice [of "4 * i" 4 32 base mem] assms by simp
  then show ?thesis using unat_u32_bound [of "?fields ! i"] by (simp add: root_field_def le_nat_le_bytes)
qed

lemma scast_small:
  assumes "unat (x :: u32) < 2147483648"
  shows "unat (scast x :: u64) = unat x"
proof -
  have "int (unat x) < int 2147483648" using assms by (simp only: of_nat_less_iff)
  then have "sint x = uint x" by (intro sint_u32_small) simp
  then have "(scast x :: u64) = ucast x" by (simp only: scast_eq ucast_eq)
  then show ?thesis by simp
qed

text \<open>
  The offsets of the parts, for at most 64 fences on either side, which is what the driver accepts,
  and data of less than a gigabyte.
\<close>

lemma fill_root_offsets:
  fixes ni no nd tmo :: u32
  assumes "unat ni \<le> 64" "unat no \<le> 64" "unat nd \<le> 1073741824"
  defines "r \<equiv> edgetpu_ikv_additional_info_fill_root ni no tmo nd"
  shows "32 \<le> unat (ai_in_fences_offset r)" "16 dvd unat (ai_in_fences_offset r) + 2 * unat ni"
    "unat (ai_in_fences_offset r) + 2 * unat ni \<le> unat (ai_out_fences_offset r)"
    "16 dvd unat (ai_out_fences_offset r) + 2 * unat no"
    "unat (ai_out_fences_offset r) + 2 * unat no \<le> unat (ai_runtime_data_offset r)"
    "16 dvd unat (ai_runtime_data_offset r) + unat nd"
    "unat (ai_runtime_data_offset r) < 1024"
proof -
  have d: "unat (2 * ni) = 2 * unat ni" "unat (2 * no) = 2 * unat no"
    using unat_mult_lem [of 2 ni] unat_mult_lem [of 2 no] assms(1,2) by simp_all
  define a where "a = edgetpu_ikv_additional_info_align_offset 32 (2 * ni)"
  have a: "unat a + 2 * unat ni = part_end (32 + 2 * unat ni)"
    using align_offset_nat [of 32 "2 * ni"] assms(1) part_end_bounds(1) [of "32 + 2 * unat ni"] by (simp add: a_def d)
  note ab = part_end_bounds [of "32 + 2 * unat ni"]
  have a2: "unat (a + 2 * ni) = unat a + 2 * unat ni"
    using unat_add_no_wrap [of a "2 * ni"] a ab assms(1) by (simp add: d)
  define b where "b = edgetpu_ikv_additional_info_align_offset (a + 2 * ni) (2 * no)"
  have b: "unat b + 2 * unat no = part_end (unat a + 2 * unat ni + 2 * unat no)"
    using align_offset_nat [of "a + 2 * ni" "2 * no"] a ab assms(1,2) part_end_bounds(1) [of "unat a + 2 * unat ni + 2 * unat no"]
    by (simp add: b_def d a2)
  note bb = part_end_bounds [of "unat a + 2 * unat ni + 2 * unat no"]
  have b2: "unat (b + 2 * no) = unat b + 2 * unat no"
    using unat_add_no_wrap [of b "2 * no"] a ab b bb assms(1,2) by (simp add: d)
  define c where "c = edgetpu_ikv_additional_info_align_offset (b + 2 * no) nd"
  have c: "unat c + unat nd = part_end (unat b + 2 * unat no + unat nd)"
    using align_offset_nat [of "b + 2 * no" nd] a ab b bb assms(1-3) part_end_bounds(1) [of "unat b + 2 * unat no + unat nd"]
    by (simp add: c_def b2)
  note cb = part_end_bounds [of "unat b + 2 * unat no + unat nd"]
  have r: "ai_in_fences_offset r = a" "ai_out_fences_offset r = b" "ai_runtime_data_offset r = c"
    by (simp_all add: r_def edgetpu_ikv_additional_info_fill_root_def Let_def a_def b_def c_def)
  show "16 dvd unat (ai_in_fences_offset r) + 2 * unat ni" "16 dvd unat (ai_out_fences_offset r) + 2 * unat no"
    "16 dvd unat (ai_runtime_data_offset r) + unat nd" unfolding r a b c by (rule part_end_bounds(3))+
  show "32 \<le> unat (ai_in_fences_offset r)" "unat (ai_in_fences_offset r) + 2 * unat ni \<le> unat (ai_out_fences_offset r)"
    "unat (ai_out_fences_offset r) + 2 * unat no \<le> unat (ai_runtime_data_offset r)" "unat (ai_runtime_data_offset r) < 1024"
    unfolding r using a ab(1,2) b bb(1,2) c cb(1,2) assms(1,2) by linarith+
qed

lemma buf_copy_if_step:
  assumes "b \<Longrightarrow> n \<le> length src \<and> off + n \<le> length buf" "\<not> b \<Longrightarrow> n = 0"
  shows "\<exists>buf'. buf_copy_if b off src n buf = Some buf' \<and> length buf' = length buf \<and> slice off n buf' = take n src \<and>
    (\<forall>o' k. o' + k \<le> off \<or> off + n \<le> o' \<longrightarrow> slice o' k buf' = slice o' k buf)"
proof (cases b)
  case True
  then obtain buf' where "buf_copy off src n buf = Some buf'" using assms(1) by (auto simp: buf_copy_def)
  then show ?thesis using True length_buf_copy buf_copy_here buf_copy_else by (auto simp: buf_copy_if_def)
qed (use assms(2) in \<open>simp add: buf_copy_if_def slice_def\<close>)

lemma serialize_parts:
  assumes "32 \<le> i" "i + 2 * length ins \<le> j" "j + 2 * length outs \<le> k" "length buf = 16 + k + length data"
    "length hb = 16" "length rb = 32"
  shows "\<exists>mem. do { mem \<leftarrow> buf_copy 0 hb 16 buf; mem \<leftarrow> buf_copy 16 rb 32 mem;
       mem \<leftarrow> buf_copy_if (ins \<noteq> []) (16 + i) (fence_bytes ins) (2 * length ins) mem;
       mem \<leftarrow> buf_copy_if (outs \<noteq> []) (16 + j) (fence_bytes outs) (2 * length outs) mem;
       buf_copy_if (data \<noteq> []) (16 + k) data (length data) mem } = Some mem \<and> length mem = length buf \<and>
     slice 0 16 mem = hb \<and> slice 16 32 mem = rb \<and> slice (16 + i) (2 * length ins) mem = fence_bytes ins \<and>
     slice (16 + j) (2 * length outs) mem = fence_bytes outs \<and> slice (16 + k) (length data) mem = data"
proof -
  obtain m1 where m1: "buf_copy 0 hb 16 buf = Some m1" using assms by (simp add: buf_copy_def)
  note l1 = length_buf_copy [OF m1] and s1 = buf_copy_here [OF m1]
  obtain m2 where m2: "buf_copy 16 rb 32 m1 = Some m2" using assms l1 by (simp add: buf_copy_def)
  note l2 = length_buf_copy [OF m2] and s2 = buf_copy_here [OF m2] and k2 = buf_copy_else [OF m2]
  obtain m3 where m3: "buf_copy_if (ins \<noteq> []) (16 + i) (fence_bytes ins) (2 * length ins) m2 = Some m3" "length m3 = length m2"
      "slice (16 + i) (2 * length ins) m3 = take (2 * length ins) (fence_bytes ins)"
    and k3: "\<And>o' k. o' + k \<le> 16 + i \<or> 16 + i + 2 * length ins \<le> o' \<Longrightarrow> slice o' k m3 = slice o' k m2"
    using buf_copy_if_step [of "ins \<noteq> []" "2 * length ins" "fence_bytes ins" "16 + i" m2] assms l1 l2 by fastforce
  obtain m4 where m4: "buf_copy_if (outs \<noteq> []) (16 + j) (fence_bytes outs) (2 * length outs) m3 = Some m4" "length m4 = length m3"
      "slice (16 + j) (2 * length outs) m4 = take (2 * length outs) (fence_bytes outs)"
    and k4: "\<And>o' k. o' + k \<le> 16 + j \<or> 16 + j + 2 * length outs \<le> o' \<Longrightarrow> slice o' k m4 = slice o' k m3"
    using buf_copy_if_step [of "outs \<noteq> []" "2 * length outs" "fence_bytes outs" "16 + j" m3] assms l1 l2 m3(2) by fastforce
  obtain m5 where m5: "buf_copy_if (data \<noteq> []) (16 + k) data (length data) m4 = Some m5" "length m5 = length m4"
      "slice (16 + k) (length data) m5 = take (length data) data"
    and k5: "\<And>o' n. o' + n \<le> 16 + k \<or> 16 + k + length data \<le> o' \<Longrightarrow> slice o' n m5 = slice o' n m4"
    using buf_copy_if_step [of "data \<noteq> []" "length data" data "16 + k" m4] assms l1 l2 m3(2) m4(2) by fastforce
  have "slice 0 16 m5 = hb" "slice 16 32 m5 = rb" "slice (16 + i) (2 * length ins) m5 = fence_bytes ins"
    "slice (16 + j) (2 * length outs) m5 = fence_bytes outs" "slice (16 + k) (length data) m5 = data"
    using assms s1 s2 k2 k3 k4 k5 m3(3) m4(3) m5(3) by simp_all
  then show ?thesis using m1 m2 m3 m4 m5 l1 l2 by simp
qed

text \<open>
  C32: What the firmware reads is what the driver was given: for at most 64 fences on either
  side and data of at most a gigabyte, the serialized buffer is written without leaving it, its size is
  a multiple of 16 bytes, and following the offsets from the start of the buffer gives back
  the fences, the timeout and the data; the size returned is the size of the buffer. A failed
  allocation is reported.
\<close>

theorem additional_info_round_trip:
  assumes lens: "length ins \<le> 64" "length outs \<le> 64" "length data \<le> 1073741824"
    and alloc: "\<And>mem. iremap_alloc sz = Inr mem \<Longrightarrow> length mem = unat sz"
    and info: "info = edgetpu_ikv_additional_info_fill ins (word_of_nat (length ins)) outs (word_of_nat (length outs)) tmo data
      (word_of_nat (length data))" and sz: "sz = additional_info_size info"
  shows "case iremap_alloc sz of
      Inl ret \<Rightarrow> edgetpu_ikv_additional_info_alloc_and_copy iremap_alloc info = Some (Inl ret)
    | Inr buf \<Rightarrow> \<exists>mem. edgetpu_ikv_additional_info_alloc_and_copy iremap_alloc info = Some (Inr (sz, mem)) \<and>
        length mem = unat sz \<and> 16 dvd unat sz \<and> additional_info_read mem = (map unat ins, map unat outs, unat tmo, data)"
proof (cases "iremap_alloc sz")
  case (Inl ret)
  then show ?thesis by (simp add: edgetpu_ikv_additional_info_alloc_and_copy_def Let_def sz)
next
  case (Inr buf)
  define r where "r = edgetpu_ikv_additional_info_fill_root (word_of_nat (length ins)) (word_of_nat (length outs)) tmo (word_of_nat (length data))"
  have n: "unat (word_of_nat (length ins) :: u32) = length ins" "unat (word_of_nat (length outs) :: u32) = length outs"
    "unat (word_of_nat (length data) :: u32) = length data" using lens by (simp_all add: unat_of_nat)
  note off = fill_root_offsets [of "word_of_nat (length ins)" "word_of_nat (length outs)" "word_of_nat (length data)" tmo,
      folded r_def, unfolded n, OF lens]
  have cnt: "unat (ai_in_fences_count r) = length ins" "unat (ai_out_fences_count r) = length outs"
    "unat (ai_runtime_data_size r) = length data" "ai_timeout_ms r = tmo"
    using n by (simp_all add: r_def edgetpu_ikv_additional_info_fill_root_def Let_def)
  have hdr: "ai_header info = \<lparr>ai_identifier = 0, ai_version = 0, ai_root_offset = 16\<rparr>" and parts: "ai_root info = r"
      "ai_in_fences info = ins" "ai_out_fences info = outs" "ai_runtime_data info = data"
    by (simp_all add: info edgetpu_ikv_additional_info_fill_def edgetpu_ikv_additional_info_fill_header_def r_def
        edgetpu_ikv_additional_info_align_offset_def ALIGN_16_def Let_def)
  have sx: "unat (scast (ai_in_fences_offset r) :: u64) = unat (ai_in_fences_offset r)"
    "unat (scast (ai_out_fences_offset r) :: u64) = unat (ai_out_fences_offset r)"
    "unat (scast (ai_runtime_data_offset r) :: u64) = unat (ai_runtime_data_offset r)"
    using off by (auto intro!: scast_small)
  have adr: "unat (16 + scast (ai_in_fences_offset r) :: u64) = 16 + unat (ai_in_fences_offset r)"
    "unat (16 + scast (ai_out_fences_offset r) :: u64) = 16 + unat (ai_out_fences_offset r)"
    "unat (16 + scast (ai_runtime_data_offset r) :: u64) = 16 + unat (ai_runtime_data_offset r)"
    using off sx unat_add_no_wrap [of "16 :: u64"] by simp_all
  have two: "unat (2 * ucast (ai_in_fences_count r) :: u64) = 2 * length ins" "unat (2 * ucast (ai_out_fences_count r) :: u64) = 2 * length outs"
    using unat_mult_lem [of "2 :: u64" "ucast (ai_in_fences_count r)"] unat_mult_lem [of "2 :: u64" "ucast (ai_out_fences_count r)"] cnt lens
    by simp_all
  have size: "unat sz = 16 + unat (ai_runtime_data_offset r) + length data"
    using unat_add_no_wrap [of "16 + scast (ai_runtime_data_offset r) :: u64" "ucast (ai_runtime_data_size r)"] adr(3) off(7) lens(3) cnt(3)
    by (simp add: sz additional_info_size_def hdr parts)
  obtain mem where ser: "do { mem \<leftarrow> buf_copy 0 (header_bytes (ai_header info)) 16 buf; mem \<leftarrow> buf_copy 16 (root_bytes r) 32 mem;
       mem \<leftarrow> buf_copy_if (ins \<noteq> []) (16 + unat (ai_in_fences_offset r)) (fence_bytes ins) (2 * length ins) mem;
       mem \<leftarrow> buf_copy_if (outs \<noteq> []) (16 + unat (ai_out_fences_offset r)) (fence_bytes outs) (2 * length outs) mem;
       buf_copy_if (data \<noteq> []) (16 + unat (ai_runtime_data_offset r)) data (length data) mem } = Some mem"
    and len: "length mem = length buf" and at: "slice 0 16 mem = header_bytes (ai_header info)" "slice 16 32 mem = root_bytes r"
      "slice (16 + unat (ai_in_fences_offset r)) (2 * length ins) mem = fence_bytes ins"
      "slice (16 + unat (ai_out_fences_offset r)) (2 * length outs) mem = fence_bytes outs"
      "slice (16 + unat (ai_runtime_data_offset r)) (length data) mem = data"
    using serialize_parts [OF off(1,3,5), of buf data "header_bytes (ai_header info)" "root_bytes r"] alloc [OF Inr] size
    by (auto simp: header_bytes_def root_bytes_def)
  have zero: "ai_in_fences_count r \<noteq> 0 \<longleftrightarrow> ins \<noteq> []" "ai_out_fences_count r \<noteq> 0 \<longleftrightarrow> outs \<noteq> []" "ai_runtime_data_size r \<noteq> 0 \<longleftrightarrow> data \<noteq> []"
    using cnt by (metis length_0_conv unat_eq_0)+
  have "edgetpu_ikv_additional_info_alloc_and_copy iremap_alloc info = Some (Inr (sz, mem))"
    using ser Inr by (auto simp: edgetpu_ikv_additional_info_alloc_and_copy_def Let_def hdr parts adr two zero cnt
        sz [symmetric] bind_eq_Some_conv)
  moreover have "slice 8 8 mem = le_bytes 8 (16 :: u64)"
    using slice_slice [of 8 8 16 0 mem] at(1) by (simp add: header_bytes_def slice_def hdr)
  then have "le_nat (slice 8 8 mem) = 16" by (simp add: le_nat_le_bytes)
  then have "additional_info_read mem = (map unat ins, map unat outs, unat tmo, data)"
    using root_field_spec [OF at(2)] read_fences_spec [OF at(3)] read_fences_spec [OF at(4)] at(5) cnt
    by (simp add: additional_info_read_def Let_def)
  moreover have "16 dvd unat sz" using off(6) by (simp add: size add.assoc)
  ultimately show ?thesis using Inr len alloc [OF Inr] by simp
qed

definition sample_additional_info :: edgetpu_ikv_additional_info where
  "sample_additional_info = edgetpu_ikv_additional_info_fill [1, 2] 2 [3] 1 100 [7, 8, 9] 3"

theorem additional_info_round_trip_witness:
  "\<exists>mem. edgetpu_ikv_additional_info_alloc_and_copy (\<lambda>n. Inr (replicate (unat n) 0)) sample_additional_info =
       Some (Inr (additional_info_size sample_additional_info, mem)) \<and> additional_info_read mem = ([1, 2], [3], 100, [7, 8, 9])"
  using additional_info_round_trip [of "[1, 2]" "[3]" "[7, 8, 9]" "\<lambda>n. Inr (replicate (unat n) 0)"
      "additional_info_size sample_additional_info" sample_additional_info 100]
  by (auto simp: sample_additional_info_def)

end
