(* ===== verification/Edgetpu_Ikv_Cmd.thy ===== *)
theory Edgetpu_Ikv_Cmd
  imports Edgetpu_Ikv Ikv_Additional_Info
begin

text \<open>
  Commands of the in-kernel inference interface and the groups that own them, from
  \<^verbatim>\<open>edgetpu-ikv.c\<close> and \<^verbatim>\<open>edgetpu-device-group.c\<close> under
  \<^verbatim>\<open>src/google-modules/edgetpu/rio/drivers/edgetpu\<close>: sending with and without fences to wait for, the
  thread that waits, collecting and cancelling responses, and the set-up and release of the interface.
  Fences, threads and power management are outside: what they answer is in the record \<open>ikv_env\<close>, and
  what they are asked to do is in the list of actions.
\<close>

unbundle bit_operations_syntax

section \<open>Environment\<close>

text \<open>
  \<open>env_fence_status\<close> is the status of the fence at its n-th reading, since a fence may signal in
  between. \<open>env_wait\<close> is what the rest of the system does while a cancelled awaiter is waited for.
\<close>

record ikv_env =
  env_merge_ikf :: "nat option \<Rightarrow> int + nat option"
  env_fence_status :: "nat \<Rightarrow> int"
  env_iremap :: "u64 \<Rightarrow> int + u8 list"
  env_info_daddr :: u64
  env_kthread :: "int + nat"
  env_pm :: int
  env_wait :: "nat \<Rightarrow> ikv_mailbox \<Rightarrow> ikv_mailbox option"

record send_cmd_args =
  sa_cmd :: edgetpu_vii_command
  sa_ikv_resp :: nat
  sa_fence :: "nat option"
  sa_err_resp_awaiter :: "nat option"

section \<open>Threads that wait for fences\<close>

definition edgetpu_device_group_track_fence_task :: "nat \<Rightarrow> nat \<Rightarrow> ikv_mailbox \<Rightarrow> int \<times> ikv_mailbox" where
  "edgetpu_device_group_track_fence_task g task m =
     (case kmalloc_ok m of (ok, m) \<Rightarrow>
       if \<not> ok then (- ENOMEM, m)
       else (0, upd_group g (\<lambda>d. d\<lparr>pending_cmd_tasks := pending_cmd_tasks d @ [task]\<rparr>) m))"

text \<open>While the tasks of a group are cleared, the task only waits to be stopped.\<close>

definition edgetpu_device_group_untrack_fence_task :: "nat \<Rightarrow> nat \<Rightarrow> ikv_mailbox \<Rightarrow> ikv_mailbox" where
  "edgetpu_device_group_untrack_fence_task g task m =
     (if is_clearing_pending_commands (ikv_groups (mb_data m) g) then m
      else upd_group g (\<lambda>d. d\<lparr>pending_cmd_tasks := remove1 task (pending_cmd_tasks d)\<rparr>) m)"

definition edgetpu_group_clear_pending_commands :: "nat \<Rightarrow> ikv_mailbox \<Rightarrow> ikv_mailbox" where
  "edgetpu_group_clear_pending_commands g m =
     (let tasks = pending_cmd_tasks (ikv_groups (mb_data m) g) in
      ikv_act (map Kthread_Stop tasks)
        (upd_group g (\<lambda>d. d\<lparr>is_clearing_pending_commands := True, pending_cmd_tasks := []\<rparr>) m))"

section \<open>Sending\<close>

definition do_send_cmd :: "ikv_ops \<Rightarrow> send_cmd_args \<Rightarrow> ikv_mailbox \<Rightarrow> (int \<times> ikv_mailbox) option" where
  "do_send_cmd ops args m = do {
     r \<leftarrow> ikv_resps (mb_data m) (sa_ikv_resp args);
     (awaiter, _, m) \<leftarrow> gcip_mailbox_put_cmd_flags ops (sa_cmd args) (Some (ir_resp r)) (sa_ikv_resp args) 0 m;
     Some (case awaiter of Inl ret \<Rightarrow> (ret, m) | Inr _ \<Rightarrow> (0, m)) }"

text \<open>
  An awaiter whose memory was set aside before. The code takes the address of the pointer to the
  packet, a field of the response, for the address of the packet: \<open>Some d\<close>.
\<close>

definition kzalloc_awaiter :: "ikv_mailbox \<Rightarrow> nat option \<times> ikv_mailbox" where
  "kzalloc_awaiter m = (case kmalloc_ok m of (ok, m) \<Rightarrow>
     if \<not> ok then (None, m)
     else (let a = next_addr m in
       (Some a, m\<lparr>awaiters := (awaiters m)(a \<mapsto> \<lparr>timeout_work = Work_Idle, aw_data = 0, kref = 0, handled = False\<rparr>),
                  async_resps := (async_resps m)(a \<mapsto> \<lparr>waiting = False, resp_ptr = None\<rparr>), next_addr := Suc a\<rparr>)))"

definition build_awaiter_for_error_resp :: "nat option \<Rightarrow> nat \<Rightarrow> ikv_mailbox \<Rightarrow> ikv_mailbox option" where
  "build_awaiter_for_error_resp awaiter d m = do {
     a \<leftarrow> awaiter;
     x \<leftarrow> async_resps m a;
     m \<leftarrow> upd_awaiter a (\<lambda>w. w\<lparr>aw_data := d, kref := 1\<rparr>) m;
     Some (upd_ikv_resp d (\<lambda>r. r\<lparr>ir_awaiter := Some a\<rparr>)
             (m\<lparr>async_resps := (async_resps m)(a \<mapsto> x\<lparr>resp_ptr := Some d\<rparr>)\<rparr>)) }"

definition kfree_ikv_resp :: "nat \<Rightarrow> ikv_mailbox \<Rightarrow> ikv_mailbox" where
  "kfree_ikv_resp d m = upd_ikv (\<lambda>k. k\<lparr>ikv_resps := (ikv_resps k)(d := None)\<rparr>) m"

definition kfree_resp :: "nat \<Rightarrow> ikv_mailbox \<Rightarrow> ikv_mailbox" where
  "kfree_resp p m = m\<lparr>resps := (resps m)(p := None)\<rparr>"

definition kfree_err_awaiter :: "nat option \<Rightarrow> ikv_mailbox \<Rightarrow> ikv_mailbox" where
  "kfree_err_awaiter a m = (case a of None \<Rightarrow> m | Some a \<Rightarrow> kfree_awaiter a m)"

definition put_dma_fence :: "nat option \<Rightarrow> ikv_mailbox \<Rightarrow> ikv_mailbox" where
  "put_dma_fence f m = (case f of None \<Rightarrow> m | Some f \<Rightarrow> ikv_act [Dma_Fence_Put f] m)"

definition VII_IN_FENCE_TIMEOUT_MS :: u64 where "VII_IN_FENCE_TIMEOUT_MS = 10000"

text \<open>
  The thread: \<open>ret\<close> is the time that was left of the wait, zero when it was over, \<open>fence_status\<close> the
  status of the fence, \<open>stop\<close> whether the thread was told to stop.
\<close>

definition send_error_resp ::
  "(nat option \<Rightarrow> nat option \<Rightarrow> int) \<Rightarrow> send_cmd_args \<Rightarrow> u16 \<Rightarrow> u64 \<Rightarrow> int \<Rightarrow> ikv_mailbox \<Rightarrow> ikv_mailbox option" where
  "send_error_resp submit args resp_code resp_data fence_status m = do {
     m \<leftarrow> build_awaiter_for_error_resp (sa_err_resp_awaiter args) (sa_ikv_resp args) m;
     r \<leftarrow> ikv_resps (mb_data m) (sa_ikv_resp args);
     let m = ikv_act [Fence_Submit (ir_in_fence_array r) (ir_out_fence_array r)] m;
     edgetpu_ikv_process_response (sa_ikv_resp args) (Some resp_code) (Some resp_data) fence_status False m }"

definition abandon_command :: "send_cmd_args \<Rightarrow> edgetpu_ikv_response \<Rightarrow> ikv_mailbox \<Rightarrow> ikv_mailbox" where
  "abandon_command args r m =
     kfree_ikv_resp (sa_ikv_resp args) (kfree_resp (ir_resp r)
       (ikv_act ([Fence_Put (ir_out_fence_array r), Fence_Put (ir_in_fence_array r), Info_Free (sa_ikv_resp args)] @
                 (case ir_release_callback r of None \<Rightarrow> [] | Some c \<Rightarrow> [Release_Callback c]))
         (kfree_err_awaiter (sa_err_resp_awaiter args) m)))"

definition send_cmd_thread_fn ::
  "ikv_ops \<Rightarrow> (nat option \<Rightarrow> nat option \<Rightarrow> int) \<Rightarrow> nat \<Rightarrow> int \<Rightarrow> int \<Rightarrow> bool \<Rightarrow> send_cmd_args \<Rightarrow> ikv_mailbox
     \<Rightarrow> ikv_mailbox option" where
  "send_cmd_thread_fn ops submit task ret fence_status stop args m = do {
     r \<leftarrow> ikv_resps (mb_data m) (sa_ikv_resp args);
     group_to_notify \<leftarrow> ir_group_to_notify r;
     let untrack = edgetpu_device_group_untrack_fence_task group_to_notify task;
     f \<leftarrow> sa_fence args;
     let m = ikv_act [Dma_Fence_Put f] m;
     if stop then Some (abandon_command args r m)
     else if ret = 0 then
       map_option untrack (send_error_resp submit args VII_RESPONSE_CODE_KERNEL_FENCE_TIMEOUT VII_IN_FENCE_TIMEOUT_MS (- ETIMEDOUT) m)
     else if fence_status < 0 then
       map_option untrack (send_error_resp submit args VII_RESPONSE_CODE_KERNEL_FENCE_ERROR (word_of_int fence_status) fence_status m)
     else do {
       (ret, m) \<leftarrow> do_send_cmd ops args m;
       if ret \<noteq> 0 then
         map_option untrack (send_error_resp submit args VII_RESPONSE_CODE_KERNEL_ENQUEUE_FAILED (word_of_int ret) (- ECANCELED) m)
       else Some (untrack (kfree_err_awaiter (sa_err_resp_awaiter args) m)) } }"

text \<open>The cleanups of \<open>edgetpu_ikv_send_cmd\<close>, from the last label to the first.\<close>

definition err_free_ikv_resp :: "nat option \<Rightarrow> nat \<Rightarrow> ikv_mailbox \<Rightarrow> ikv_mailbox" where
  "err_free_ikv_resp in_fence d m = put_dma_fence in_fence (kfree_ikv_resp d m)"

definition err_free_ikv_resp_resp :: "nat option \<Rightarrow> nat \<Rightarrow> nat \<Rightarrow> ikv_mailbox \<Rightarrow> ikv_mailbox" where
  "err_free_ikv_resp_resp in_fence d p m = err_free_ikv_resp in_fence d (kfree_resp p m)"

definition err_put_out_fence_array ::
  "nat option \<Rightarrow> nat \<Rightarrow> nat \<Rightarrow> nat option \<Rightarrow> nat option \<Rightarrow> ikv_mailbox \<Rightarrow> ikv_mailbox" where
  "err_put_out_fence_array in_fence d p in_fence_array out_fence_array m =
     err_free_ikv_resp_resp in_fence d p
       (ikv_act [Fence_Put out_fence_array, Fence_Put in_fence_array, Info_Free d] m)"

record ikv_send =
  is_group :: "nat option"
  is_pending :: nat
  is_ready :: nat
  is_in_fences :: "nat option"
  is_out_fences :: "nat option"
  is_iif_dma_fence :: "nat option"
  is_info :: "edgetpu_ikv_additional_info option"
  is_release :: "nat option"

definition zero_vii_response :: edgetpu_vii_response where
  "zero_vii_response = \<lparr>vr_seq = 0, vr_code = 0, vr_cluster_index = 0, vr_client_id = 0, vr_retval = 0\<rparr>"

definition prepared_response :: "ikv_send \<Rightarrow> edgetpu_vii_command \<Rightarrow> nat \<Rightarrow> u8 list \<Rightarrow> edgetpu_ikv_response" where
  "prepared_response s cmd p info = \<lparr>ir_resp = p, ir_queue = None, ir_pending_queue = is_pending s, ir_dest_queue = is_ready s,
     ir_processed = False, ir_awaiter = None, ir_client_seq = edgetpu_vii_command_get_seq_number cmd,
     ir_group_to_notify = is_group s, ir_in_fence_array = is_in_fences s, ir_out_fence_array = is_out_fences s,
     ir_iif_dma_fence = is_iif_dma_fence s, ir_additional_info = info, ir_release_callback = is_release s\<rparr>"

text \<open>The buffer of the additional information: its size, its contents, or an error.\<close>

definition send_additional_info ::
  "ikv_env \<Rightarrow> edgetpu_ikv_additional_info option \<Rightarrow> (int + u64 \<times> u8 list) option" where
  "send_additional_info env info = (case info of
     None \<Rightarrow> Some (Inr (0, []))
   | Some info \<Rightarrow> do {
       res \<leftarrow> edgetpu_ikv_additional_info_alloc_and_copy (env_iremap env) info;
       Some (case res of
          Inl ret \<Rightarrow> Inl ret
        | Inr (sz, mem) \<Rightarrow> if sint sz < 0 then Inl (sint (ucast sz :: u32)) else Inr (sz, mem)) })"

text \<open>What follows when the command is not sent at once: an error response, or a thread that waits.\<close>

definition send_with_fence ::
  "ikv_env \<Rightarrow> ikv_send \<Rightarrow> send_cmd_args \<Rightarrow> nat \<Rightarrow> ikv_mailbox \<Rightarrow> (int \<times> send_cmd_args option \<times> ikv_mailbox) option" where
  "send_with_fence env s args p m =
     (let d = sa_ikv_resp args; in_fence = sa_fence args;
          fail = (\<lambda>ret m. Some (ret, None, err_put_out_fence_array in_fence d p (is_in_fences s) (is_out_fences s) m)) in
      case kzalloc_awaiter m of
        (None, m) \<Rightarrow> fail (- ENOMEM) m
      | (Some a, m) \<Rightarrow> do {
          let args = args\<lparr>sa_err_resp_awaiter := Some a\<rparr>;
          let fence_status = (if in_fence = None then 0 else env_fence_status env 1);
          if fence_status < 0 then do {
            m \<leftarrow> build_awaiter_for_error_resp (Some a) d m;
            m \<leftarrow> edgetpu_ikv_process_response d (Some VII_RESPONSE_CODE_KERNEL_FENCE_ERROR) (Some (word_of_int fence_status))
                   fence_status False m;
            Some (0, None, put_dma_fence in_fence m) }
          else (case env_kthread env of
            Inl ret \<Rightarrow> fail ret (kfree_awaiter a m)
          | Inr task \<Rightarrow> do {
              g \<leftarrow> is_group s;
              (ret, m) \<leftarrow> Some (edgetpu_device_group_track_fence_task g task m);
              if ret \<noteq> 0 then fail ret (kfree_awaiter a (ikv_act [Kthread_Stop task] m))
              else Some (0, Some args, ikv_act [Kthread_Wake task] m) }) })"

text \<open>With all memory at hand: the additional information, the response, and then the command.\<close>

definition send_allocated ::
  "ikv_ops \<Rightarrow> ikv_env \<Rightarrow> ikv_send \<Rightarrow> edgetpu_vii_command \<Rightarrow> nat option \<Rightarrow> nat \<Rightarrow> nat \<Rightarrow> ikv_mailbox
     \<Rightarrow> (int \<times> send_cmd_args option \<times> ikv_mailbox) option" where
  "send_allocated ops env s cmd in_fence d p m = do {
     info \<leftarrow> send_additional_info env (is_info s);
     case info of
       Inl ret \<Rightarrow> Some (ret, None, err_free_ikv_resp_resp in_fence d p m)
     | Inr (info_size, info_mem) \<Rightarrow> do {
         let cmd = edgetpu_vii_command_set_additional_info
               (ucast (if is_info s = None then 0 else env_info_daddr env)) (ucast info_size) cmd;
         let m = ikv_act [Fence_Get (is_in_fences s), Fence_Get (is_out_fences s)]
               (upd_ikv (\<lambda>k. k\<lparr>ikv_resps := (ikv_resps k)(d \<mapsto> prepared_response s cmd p info_mem)\<rparr>) m);
         let m = m\<lparr>resps := (resps m)(p \<mapsto>
               edgetpu_vii_response_set_client_id (edgetpu_vii_command_get_client_id cmd) zero_vii_response)\<rparr>;
         let args = \<lparr>sa_cmd = cmd, sa_ikv_resp = d, sa_fence = in_fence, sa_err_resp_awaiter = None\<rparr>;
         if in_fence = None \<or> env_fence_status env 0 = 1 then do {
           (ret, m) \<leftarrow> do_send_cmd ops args m;
           if ret \<noteq> 0
           then Some (ret, None, err_put_out_fence_array in_fence d p (is_in_fences s) (is_out_fences s) m)
           else Some (0, None, put_dma_fence in_fence m) }
         else send_with_fence env s args p m } }"

definition edgetpu_ikv_send_cmd ::
  "ikv_ops \<Rightarrow> ikv_env \<Rightarrow> ikv_send \<Rightarrow> edgetpu_vii_command \<Rightarrow> ikv_mailbox
     \<Rightarrow> (int \<times> send_cmd_args option \<times> ikv_mailbox) option" where
  "edgetpu_ikv_send_cmd ops env s cmd m =
     (case env_merge_ikf env (is_in_fences s) of
        Inl ret \<Rightarrow> Some (ret, None, m)
      | Inr in_fence \<Rightarrow>
          let m = (case in_fence of None \<Rightarrow> m | Some f \<Rightarrow> ikv_act [Dma_Fence_Signaling f] m) in
          if in_fence \<noteq> None \<and> is_group s = None then Some (- EINVAL, None, put_dma_fence in_fence m)
          else (case kmalloc_ok m of (ok, m) \<Rightarrow>
            if \<not> ok then Some (- ENOMEM, None, put_dma_fence in_fence m)
            else let d = next_addr m; p = Suc d; m = m\<lparr>next_addr := Suc p\<rparr> in
              (case kmalloc_ok m of (ok, m) \<Rightarrow>
                if \<not> ok then Some (- ENOMEM, None, err_free_ikv_resp in_fence d m)
                else let m = m\<lparr>resps := (resps m)(p \<mapsto> zero_vii_response)\<rparr> in
                  (case kmalloc_ok m of (ok, m) \<Rightarrow>
                    if \<not> ok then Some (- ENOMEM, None, err_free_ikv_resp_resp in_fence d p m)
                    else (case kmalloc_ok m of (ok, m) \<Rightarrow>
                      if \<not> ok then Some (- ENOMEM, None, err_free_ikv_resp_resp in_fence d p m)
                      else send_allocated ops env s cmd in_fence d p m)))))"

definition ATOMIC_ADD_UNLESS_ZERO_M1 :: "int \<Rightarrow> bool \<times> int" where
  "ATOMIC_ADD_UNLESS_ZERO_M1 v = (if v = 0 then (False, v) else (True, v - 1))"

definition edgetpu_device_group_send_vii_command ::
  "ikv_ops \<Rightarrow> ikv_env \<Rightarrow> nat \<Rightarrow> edgetpu_vii_command \<Rightarrow> nat option \<Rightarrow> nat option \<Rightarrow> nat option
     \<Rightarrow> edgetpu_ikv_additional_info option \<Rightarrow> nat option \<Rightarrow> ikv_mailbox
     \<Rightarrow> (int \<times> send_cmd_args option \<times> ikv_mailbox) option" where
  "edgetpu_device_group_send_vii_command ops env g cmd in_fences out_fences iif_dma_fence info release m =
     (if env_pm env \<noteq> 0 then Some (env_pm env, None, m)
      else
        let group = ikv_groups (mb_data m) g in
        if dg_status group \<noteq> EDGETPU_DEVICE_GROUP_READY then Some (- EINVAL, None, m)
        else (case dg_etdomain group of
          None \<Rightarrow> Some (- EINVAL, None, m)
        | Some pasid \<Rightarrow>
            (case ATOMIC_ADD_UNLESS_ZERO_M1 (available_vii_credits group) of
              (False, _) \<Rightarrow> Some (- EBUSY, None, m)
            | (True, credits) \<Rightarrow> do {
                let m = upd_group g (\<lambda>d. d\<lparr>available_vii_credits := credits\<rparr>) m;
                (ret, task, m) \<leftarrow> edgetpu_ikv_send_cmd ops env
                  \<lparr>is_group = Some g, is_pending = pending_ikv_resps group, is_ready = ready_ikv_resps group,
                   is_in_fences = in_fences, is_out_fences = out_fences, is_iif_dma_fence = iif_dma_fence,
                   is_info = info, is_release = release\<rparr>
                  (edgetpu_vii_command_set_client_id pasid cmd) m;
                Some (ret, task, if ret \<noteq> 0 then refund_credit (Some g) m else m) })))"

end
