(* ===== verification/Edgetpu_Ikv_Group.thy ===== *)
theory Edgetpu_Ikv_Group
  imports Edgetpu_Ikv_Cmd
begin

text \<open>
  Responses on their way to the client and the life of the interface, from \<^verbatim>\<open>edgetpu-ikv.c\<close> and
  \<^verbatim>\<open>edgetpu-device-group.c\<close> under \<^verbatim>\<open>src/google-modules/edgetpu/rio/drivers/edgetpu\<close>: a client takes a
  response, a group cancels or drops what is pending, clients are activated and deactivated, and
  the queues are set up, set up again after a reset, and released.
\<close>

unbundle bit_operations_syntax

section \<open>Responses of a group\<close>

definition edgetpu_device_group_get_vii_response ::
  "ikv_ops \<Rightarrow> nat \<Rightarrow> ikv_mailbox \<Rightarrow> (int \<times> edgetpu_vii_response option \<times> ikv_mailbox) option" where
  "edgetpu_device_group_get_vii_response ops g m =
     (let group = ikv_groups (mb_data m) g in
      if dg_status group \<noteq> EDGETPU_DEVICE_GROUP_READY then Some (- EINVAL, None, m)
      else (case ikv_lists (mb_data m) (ready_ikv_resps group) of
        [] \<Rightarrow> Some (- ENOENT, None, m)
      | d # _ \<Rightarrow> do {
          m \<leftarrow> list_del d (ready_ikv_resps group) m;
          r \<leftarrow> ikv_resps (mb_data m) d;
          buf \<leftarrow> resps m (ir_resp r);
          a \<leftarrow> ir_awaiter r;
          m \<leftarrow> gcip_mailbox_awaiter_put ops a m;
          Some (0, Some buf, m) }))"

text \<open>
  The sections under the lock: every pending response is marked, then the list moves to a head
  on the stack, at a fresh address.
\<close>

fun mark_processed :: "nat list \<Rightarrow> ikv_mailbox \<Rightarrow> ikv_mailbox option" where
  "mark_processed [] m = Some m"
| "mark_processed (d # ds) m = do {
     _ \<leftarrow> ikv_resps (mb_data m) d;
     mark_processed ds (upd_ikv_resp d (\<lambda>r. r\<lparr>ir_processed := True\<rparr>) m) }"

definition list_replace_init :: "nat \<Rightarrow> nat \<Rightarrow> ikv_mailbox \<Rightarrow> ikv_mailbox" where
  "list_replace_init old new m =
     (let ds = ikv_lists (mb_data m) old in
      fold (\<lambda>d. upd_ikv_resp d (\<lambda>r. r\<lparr>ir_queue := Some new\<rparr>)) ds
        (upd_ikv (\<lambda>k. k\<lparr>ikv_lists := (ikv_lists k)(old := [], new := ds)\<rparr>) m))"

definition take_pending :: "nat \<Rightarrow> ikv_mailbox \<Rightarrow> (nat list \<times> ikv_mailbox) option" where
  "take_pending g m = do {
     let q = pending_ikv_resps (ikv_groups (mb_data m) g);
     let ds = ikv_lists (mb_data m) q;
     m \<leftarrow> mark_processed ds m;
     let tmp = next_addr m;
     Some (ds, list_replace_init q tmp (m\<lparr>next_addr := Suc tmp\<rparr>)) }"

definition ikv_cancel_one :: "ikv_ops \<Rightarrow> ikv_env \<Rightarrow> int \<Rightarrow> nat \<Rightarrow> ikv_mailbox \<Rightarrow> ikv_mailbox option" where
  "ikv_cancel_one ops env reason d m = do {
     r \<leftarrow> ikv_resps (mb_data m) d;
     a \<leftarrow> ir_awaiter r;
     (_, m) \<leftarrow> gcip_mailbox_cancel_awaiter ops (env_wait env a) a m;
     edgetpu_ikv_process_response d (Some VII_RESPONSE_CODE_KERNEL_CANCELED) (Some (word_of_int reason)) (- ECANCELED) True m }"

fun ikv_cancel_list :: "ikv_ops \<Rightarrow> ikv_env \<Rightarrow> int \<Rightarrow> nat list \<Rightarrow> ikv_mailbox \<Rightarrow> ikv_mailbox option" where
  "ikv_cancel_list ops env reason [] m = Some m"
| "ikv_cancel_list ops env reason (d # ds) m = do {
     m \<leftarrow> ikv_cancel_one ops env reason d m;
     ikv_cancel_list ops env reason ds m }"

definition edgetpu_ikv_cancel :: "ikv_ops \<Rightarrow> ikv_env \<Rightarrow> nat \<Rightarrow> int \<Rightarrow> ikv_mailbox \<Rightarrow> ikv_mailbox option" where
  "edgetpu_ikv_cancel ops env g reason m = do {
     (ds, m) \<leftarrow> take_pending g m;
     ikv_cancel_list ops env reason ds m }"

definition clear_pending_one :: "ikv_ops \<Rightarrow> ikv_env \<Rightarrow> nat \<Rightarrow> ikv_mailbox \<Rightarrow> ikv_mailbox option" where
  "clear_pending_one ops env d m = do {
     r \<leftarrow> ikv_resps (mb_data m) d;
     let m = ikv_act ((case ir_iif_dma_fence r of None \<Rightarrow> [] | Some f \<Rightarrow> [Iif_Dma_Fence_Stop f, Iif_Fence_Put f]) @
                      [Fence_Waited (ir_in_fence_array r), Fence_Put (ir_out_fence_array r), Fence_Put (ir_in_fence_array r)]) m;
     a \<leftarrow> ir_awaiter r;
     (_, m) \<leftarrow> gcip_mailbox_cancel_awaiter ops (env_wait env a) a m;
     gcip_mailbox_awaiter_put ops a m }"

fun clear_pending_list :: "ikv_ops \<Rightarrow> ikv_env \<Rightarrow> nat list \<Rightarrow> ikv_mailbox \<Rightarrow> ikv_mailbox option" where
  "clear_pending_list ops env [] m = Some m"
| "clear_pending_list ops env (d # ds) m = do {
     m \<leftarrow> clear_pending_one ops env d m;
     clear_pending_list ops env ds m }"

fun clear_ready_list :: "ikv_ops \<Rightarrow> nat \<Rightarrow> nat list \<Rightarrow> ikv_mailbox \<Rightarrow> ikv_mailbox option" where
  "clear_ready_list ops q [] m = Some m"
| "clear_ready_list ops q (d # ds) m = do {
     m \<leftarrow> list_del d q m;
     r \<leftarrow> ikv_resps (mb_data m) d;
     a \<leftarrow> ir_awaiter r;
     m \<leftarrow> gcip_mailbox_awaiter_put ops a m;
     clear_ready_list ops q ds m }"

definition edgetpu_group_clear_responses :: "ikv_ops \<Rightarrow> ikv_env \<Rightarrow> nat \<Rightarrow> ikv_mailbox \<Rightarrow> ikv_mailbox option" where
  "edgetpu_group_clear_responses ops env g m = do {
     (ds, m) \<leftarrow> take_pending g m;
     m \<leftarrow> clear_pending_list ops env ds m;
     let q = ready_ikv_resps (ikv_groups (mb_data m) g);
     clear_ready_list ops q (ikv_lists (mb_data m) q) m }"

section \<open>Interrupts and fatal errors\<close>

definition edgetpu_ikv_handle_irq :: "ikv_ops \<Rightarrow> ikv_mailbox \<Rightarrow> ikv_mailbox option" where
  "edgetpu_ikv_handle_irq ops m = gcip_mailbox_consume_responses_work ops m"

definition edgetpu_ikv_flush_responses :: "ikv_ops \<Rightarrow> ikv_mailbox \<Rightarrow> ikv_mailbox option" where
  "edgetpu_ikv_flush_responses ops m = gcip_mailbox_consume_responses ops m"

definition EDGETPU_ERROR_FW_CRASH :: u32 where "EDGETPU_ERROR_FW_CRASH = 1"
definition EDGETPU_ERROR_WATCHDOG_TIMEOUT :: u32 where "EDGETPU_ERROR_WATCHDOG_TIMEOUT = 2"

definition edgetpu_firmware_is_not_responding :: "u32 \<Rightarrow> bool" where
  "edgetpu_firmware_is_not_responding error_mask \<longleftrightarrow>
     error_mask = EDGETPU_ERROR_FW_CRASH \<or> error_mask = EDGETPU_ERROR_WATCHDOG_TIMEOUT"

definition edgetpu_group_fatal_error_notify :: "ikv_ops \<Rightarrow> ikv_env \<Rightarrow> u32 \<Rightarrow> nat \<Rightarrow> ikv_mailbox \<Rightarrow> ikv_mailbox option" where
  "edgetpu_group_fatal_error_notify ops env error_mask g m = do {
     let m = upd_group g (\<lambda>d. d\<lparr>dg_status := (if dg_status d = EDGETPU_DEVICE_GROUP_READY
                                             then EDGETPU_DEVICE_GROUP_ERRORED else dg_status d),
                               dg_fatal_errors := dg_fatal_errors d OR error_mask\<rparr>) m;
     m \<leftarrow> (if edgetpu_firmware_is_not_responding error_mask
           then edgetpu_ikv_cancel ops env g (sint error_mask) m else Some m);
     Some (ikv_act [Group_Fatal_Error g] m) }"

fun fatal_error_notify_groups :: "ikv_ops \<Rightarrow> ikv_env \<Rightarrow> u32 \<Rightarrow> nat list \<Rightarrow> ikv_mailbox \<Rightarrow> ikv_mailbox option" where
  "fatal_error_notify_groups ops env error_mask [] m = Some m"
| "fatal_error_notify_groups ops env error_mask (g # gs) m = do {
     m \<leftarrow> (if dg_status (ikv_groups (mb_data m) g) = EDGETPU_DEVICE_GROUP_DISBANDED then Some m
           else edgetpu_group_fatal_error_notify ops env error_mask g m);
     fatal_error_notify_groups ops env error_mask gs m }"

text \<open>\<open>groups\<close> is the list of the device; the mailbox of the inter-IP fences is not modelled.\<close>

definition edgetpu_fatal_error_notify :: "ikv_ops \<Rightarrow> ikv_env \<Rightarrow> nat list \<Rightarrow> u32 \<Rightarrow> ikv_mailbox \<Rightarrow> ikv_mailbox option" where
  "edgetpu_fatal_error_notify ops env groups error_mask m = do {
     m \<leftarrow> (if edgetpu_firmware_is_not_responding error_mask then edgetpu_ikv_flush_responses ops m else Some m);
     fatal_error_notify_groups ops env error_mask groups m }"

section \<open>Clients\<close>

text \<open>The answer of the firmware to the command that opens a mailbox is the argument \<open>kci\<close>.\<close>

definition BIT_u32 :: "u32 \<Rightarrow> u32" where
  "BIT_u32 pasid = ucast (push_bit (unat pasid) 1 :: u64)"

definition edgetpu_ikv_activate_client ::
  "(u32 \<Rightarrow> u8 \<Rightarrow> bool \<Rightarrow> bool \<Rightarrow> int) \<Rightarrow> u32 \<Rightarrow> u32 \<Rightarrow> u16 \<Rightarrow> bool \<Rightarrow> ikv_mailbox \<Rightarrow> int \<times> ikv_mailbox" where
  "edgetpu_ikv_activate_client kci pasid client_priv vcid first_open m =
     (if vcid > 255 then (- EINVAL, m)
      else
        let ret = kci pasid (ucast vcid) first_open (client_priv \<noteq> 0);
            m = (if ret = 0 then upd_ikv (\<lambda>k. k\<lparr>enabled_pasids := enabled_pasids k OR BIT_u32 pasid\<rparr>) m else m);
            m = (if ret = - ETIMEDOUT then ikv_act [Watchdog_Bite] m else m)
        in (ret, m))"

text \<open>The command that releases the mailbox runs on another interface; its result is not used.\<close>

definition edgetpu_ikv_deactivate_client :: "ikv_ops \<Rightarrow> u32 \<Rightarrow> ikv_mailbox \<Rightarrow> ikv_mailbox option" where
  "edgetpu_ikv_deactivate_client ops pasid m = do {
     m \<leftarrow> (if BIT_u32 pasid AND enabled_pasids (mb_data m) \<noteq> 0 then edgetpu_ikv_flush_responses ops m else Some m);
     Some (upd_ikv (\<lambda>k. k\<lparr>enabled_pasids := enabled_pasids k AND NOT (BIT_u32 pasid)\<rparr>) m) }"

definition edgetpu_ikv_clear_active_clients :: "ikv_mailbox \<Rightarrow> ikv_mailbox" where
  "edgetpu_ikv_clear_active_clients m = upd_ikv (\<lambda>k. k\<lparr>enabled_pasids := 0\<rparr>) m"

section \<open>Set-up and release\<close>

definition EDGETPU_IKV_QUEUE_SIZE :: u32 where "EDGETPU_IKV_QUEUE_SIZE = 1023"
definition IKV_TIMEOUT :: u32 where "IKV_TIMEOUT = 120000"

definition edgetpu_vii_command_packet_size :: u32 where "edgetpu_vii_command_packet_size = 48"
definition edgetpu_vii_response_packet_size :: u32 where "edgetpu_vii_response_packet_size = 24"

definition ikv_set_mem :: "gcip_mailbox_queue_type \<Rightarrow> u64 option \<Rightarrow> ikv_mailbox \<Rightarrow> ikv_mailbox" where
  "ikv_set_mem type mem m = (case type of
     GCIP_MAILBOX_CMD_QUEUE \<Rightarrow> upd_ikv (\<lambda>k. k\<lparr>ikv_cmd_queue_mem := mem\<rparr>) m
   | GCIP_MAILBOX_RESP_QUEUE \<Rightarrow> upd_ikv (\<lambda>k. k\<lparr>ikv_resp_queue_mem := mem\<rparr>) m)"

text \<open>\<open>iremap\<close> is the allocator's answer: an error, or the address for the device and the memory.\<close>

definition edgetpu_ikv_alloc_queue ::
  "int + u64 \<times> 'e list \<Rightarrow> gcip_mailbox_queue_type \<Rightarrow> ikv_mailbox \<Rightarrow> (int + 'e list) \<times> ikv_mailbox" where
  "edgetpu_ikv_alloc_queue iremap type m = (case iremap of
     Inl ret \<Rightarrow> (Inl ret, m)
   | Inr (dma_addr, mem) \<Rightarrow>
       (case edgetpu_mailbox_set_queue type dma_addr EDGETPU_IKV_QUEUE_SIZE (ikv_mbx_hardware (mb_data m)) of (ret, mb) \<Rightarrow>
          if ret \<noteq> 0 then (Inl ret, ikv_set_mem type None m)
          else (Inr mem, ikv_set_mem type (Some dma_addr) (upd_hw (\<lambda>_. mb) m))))"

definition edgetpu_ikv_free_queue :: "gcip_mailbox_queue_type \<Rightarrow> ikv_mailbox \<Rightarrow> ikv_mailbox" where
  "edgetpu_ikv_free_queue type m = ikv_set_mem type None m"

text \<open>
  \<open>protocol\<close> tells whether the structure of the mailbox was allocated. Freeing the structure of the
  hardware mailbox (\<open>edgetpu_mailbox_release\<close>) is that the field is no longer set.
\<close>

definition edgetpu_ikv_release :: "ikv_ops \<Rightarrow> bool \<Rightarrow> ikv_mailbox \<Rightarrow> ikv_mailbox option" where
  "edgetpu_ikv_release ops protocol m = do {
     let m = upd_ikv (\<lambda>k. k\<lparr>ikv_irq_handler := (ikv_irq_handler k \<and> \<not> ikv_mbx_hardware_set k), ikv_mbx_hardware_set := False\<rparr>) m;
     let m = (if ikv_resp_queue_mem (mb_data m) \<noteq> None then edgetpu_ikv_free_queue GCIP_MAILBOX_RESP_QUEUE m else m);
     let m = (if ikv_cmd_queue_mem (mb_data m) \<noteq> None then edgetpu_ikv_free_queue GCIP_MAILBOX_CMD_QUEUE m else m);
     if protocol then gcip_mailbox_release ops m else Some m }"

text \<open>
  The zeroed mailbox that \<open>edgetpu_ikv_init\<close> allocates has no wait list; \<open>m\<close> is such a state. \<open>hw\<close> is
  what looking up the hardware returned, an error or whether it was found.
\<close>

definition ikv_init_args ::
  "ikv_ops \<Rightarrow> u32 \<Rightarrow> edgetpu_vii_command list \<Rightarrow> edgetpu_vii_response list \<Rightarrow> edgetpu_ikv
     \<Rightarrow> (edgetpu_vii_command, edgetpu_vii_response, edgetpu_ikv) gcip_mailbox_args" where
  "ikv_init_args ops timeout cmds rsps k = \<lparr>
     arg_mode = GCIP_MAILBOX_MODE_TX_CMD OR GCIP_MAILBOX_MODE_RX_RSP OR GCIP_MAILBOX_MODE_SEQ_EXTERNAL,
     arg_queue_wrap_bit = CIRC_QUEUE_WRAP_BIT, arg_tx_queue = cmds, arg_tx_elem_size = edgetpu_vii_command_packet_size,
     arg_rx_queue = rsps, arg_rx_elem_size = edgetpu_vii_response_packet_size, arg_timeout = timeout,
     arg_ops = Some ops, arg_data = k, arg_wait_list_external = None\<rparr>"

definition edgetpu_ikv_init ::
  "ikv_ops \<Rightarrow> u32 \<Rightarrow> int + bool \<Rightarrow> int + u64 \<times> edgetpu_vii_command list \<Rightarrow> int + u64 \<times> edgetpu_vii_response list
     \<Rightarrow> ikv_mailbox \<Rightarrow> (int \<times> ikv_mailbox) option" where
  "edgetpu_ikv_init ops user_ikv_timeout hw cmd_mem resp_mem m =
     (let timeout = (if user_ikv_timeout \<noteq> 0 then user_ikv_timeout else IKV_TIMEOUT);
          err = (\<lambda>protocol ret m. do { m \<leftarrow> edgetpu_ikv_release ops protocol m; Some (ret, m) });
          m = upd_ikv (\<lambda>k. k\<lparr>command_timeout_ms := timeout\<rparr>) m in
      case hw of
        Inl e \<Rightarrow> Some (e, m)
      | Inr False \<Rightarrow> Some (- ENODEV, m)
      | Inr True \<Rightarrow> do {
          let m = upd_ikv (\<lambda>k. k\<lparr>ikv_irq_handler := True, ikv_mbx_hardware_set := True\<rparr>) m;
          (ok, m) \<leftarrow> Some (kmalloc_ok m);
          if \<not> ok then err False (- ENOMEM) m
          else do {
            let m = upd_hw (\<lambda>mb. edgetpu_mailbox_clear_doorbells (edgetpu_mailbox_disable_doorbells mb)) m;
            case edgetpu_ikv_alloc_queue cmd_mem GCIP_MAILBOX_CMD_QUEUE m of
              (Inl ret, m) \<Rightarrow> err True ret m
            | (Inr cmds, m) \<Rightarrow>
              (case edgetpu_ikv_alloc_queue resp_mem GCIP_MAILBOX_RESP_QUEUE m of
                 (Inl ret, m) \<Rightarrow> err True ret m
               | (Inr rsps, m) \<Rightarrow>
                 (case gcip_mailbox_init (ikv_init_args ops timeout cmds rsps (mb_data m)) m of (ret, m) \<Rightarrow>
                    if ret \<noteq> 0 then err True ret m else Some (0, upd_hw edgetpu_mailbox_enable m))) } })"

definition edgetpu_ikv_reinit :: "u64 \<Rightarrow> u64 \<Rightarrow> ikv_mailbox \<Rightarrow> int \<times> ikv_mailbox" where
  "edgetpu_ikv_reinit cmd_addr resp_addr m =
     (let mb = edgetpu_mailbox_clear_doorbells (edgetpu_mailbox_disable_doorbells (ikv_mbx_hardware (mb_data m))) in
      case edgetpu_mailbox_set_queue GCIP_MAILBOX_CMD_QUEUE cmd_addr EDGETPU_IKV_QUEUE_SIZE mb of (ret, mb) \<Rightarrow>
        if ret \<noteq> 0 then (ret, upd_hw (\<lambda>_. mb) m)
        else (case edgetpu_mailbox_set_queue GCIP_MAILBOX_RESP_QUEUE resp_addr EDGETPU_IKV_QUEUE_SIZE mb of (ret, mb) \<Rightarrow>
          if ret \<noteq> 0 then (ret, upd_hw (\<lambda>_. mb) m)
          else (0, upd_ikv (\<lambda>k. k\<lparr>ikv_irq_handler := True\<rparr>)
                     (upd_hw (\<lambda>_. edgetpu_mailbox_enable (edgetpu_mailbox_init_doorbells mb)) m))))"

end
