(* ===== verification/Ikv_Ledger.thy ===== *)
theory Ikv_Ledger
  imports Edgetpu_Ikv_Group
begin

text \<open>
  The books of the in-kernel inference interface: which response is on which list, whether it was
  processed, and how many credits a group has left. One invariant ties them together, and each
  lemma follows one change the driver makes. Everything here is about the three tables of
  responses, lists and groups; the operations that change them come in a later theory.
\<close>

type_synonym resp_table = "nat \<Rightarrow> edgetpu_ikv_response option"
type_synonym list_table = "nat \<Rightarrow> nat list"
type_synonym group_table = "nat \<Rightarrow> edgetpu_device_group"

section \<open>The invariant\<close>

definition is_group_list :: "group_table \<Rightarrow> nat \<Rightarrow> bool" where
  "is_group_list G q \<longleftrightarrow> (\<exists>g. q = pending_ikv_resps (G g) \<or> q = ready_ikv_resps (G g))"

text \<open>
  A response floats before it is enqueued, waits on the pending list of its group unprocessed, is
  on a list that a cancellation took, marked as processed, or was delivered.
\<close>

definition place_ok :: "list_table \<Rightarrow> group_table \<Rightarrow> nat \<Rightarrow> nat \<Rightarrow> edgetpu_ikv_response \<Rightarrow> bool" where
  "place_ok L G n d r \<longleftrightarrow>
     (case ir_queue r of
        None \<Rightarrow> \<not> ir_processed r
      | Some q \<Rightarrow> q < n \<and>
          (if q = ir_dest_queue r then ir_processed r
           else d \<in> set (L q) \<and>
             (if q = ir_pending_queue r then \<not> ir_processed r else ir_processed r \<and> \<not> is_group_list G q)))"

definition owner_ok :: "group_table \<Rightarrow> edgetpu_ikv_response \<Rightarrow> bool" where
  "owner_ok G r \<longleftrightarrow>
     (\<exists>g. ir_group_to_notify r = Some g \<and> ir_pending_queue r = pending_ikv_resps (G g) \<and> ir_dest_queue r = ready_ikv_resps (G g))"

text \<open>The commands that hold a credit of a group: all that were not delivered.\<close>

definition holders :: "resp_table \<Rightarrow> nat \<Rightarrow> nat set" where
  "holders R g = {d. \<exists>r. R d = Some r \<and> ir_group_to_notify r = Some g \<and> ir_queue r \<noteq> Some (ir_dest_queue r)}"

definition groups_ok :: "group_table \<Rightarrow> nat \<Rightarrow> bool" where
  "groups_ok G n \<longleftrightarrow> (\<forall>g g'. pending_ikv_resps (G g) \<noteq> ready_ikv_resps (G g') \<and> pending_ikv_resps (G g) < n \<and> ready_ikv_resps (G g) < n)"

definition lists_ok :: "resp_table \<Rightarrow> list_table \<Rightarrow> bool" where
  "lists_ok R L \<longleftrightarrow> (\<forall>q. distinct (L q) \<and> (\<forall>d\<in>set (L q). \<exists>r. R d = Some r \<and> ir_queue r = Some q))"

definition resps_ok :: "resp_table \<Rightarrow> list_table \<Rightarrow> group_table \<Rightarrow> nat \<Rightarrow> bool" where
  "resps_ok R L G n \<longleftrightarrow> (\<forall>d r. R d = Some r \<longrightarrow> d < n \<and> owner_ok G r \<and> place_ok L G n d r)"

definition credits_ok :: "int \<Rightarrow> resp_table \<Rightarrow> group_table \<Rightarrow> bool" where
  "credits_ok N R G \<longleftrightarrow> (\<forall>g. 0 \<le> available_vii_credits (G g) \<and> available_vii_credits (G g) + int (card (holders R g)) = N)"

definition books_ok :: "int \<Rightarrow> resp_table \<Rightarrow> list_table \<Rightarrow> group_table \<Rightarrow> nat \<Rightarrow> bool" where
  "books_ok N R L G n \<longleftrightarrow> groups_ok G n \<and> lists_ok R L \<and> resps_ok R L G n \<and> credits_ok N R G"

lemmas books_defs = books_ok_def groups_ok_def lists_ok_def resps_ok_def

text \<open>Only the credits of a group ever change.\<close>

definition add_credits :: "nat \<Rightarrow> int \<Rightarrow> group_table \<Rightarrow> group_table" where
  "add_credits g c G = G(g := (G g)\<lparr>available_vii_credits := available_vii_credits (G g) + c\<rparr>)"

lemma add_credits_simps [simp]:
  "pending_ikv_resps (add_credits g c G h) = pending_ikv_resps (G h)"
  "ready_ikv_resps (add_credits g c G h) = ready_ikv_resps (G h)"
  "available_vii_credits (add_credits g c G h) = available_vii_credits (G h) + (if h = g then c else 0)"
  by (simp_all add: add_credits_def)

lemma is_group_list_add_credits [simp]: "is_group_list (add_credits g c G) = is_group_list G"
  by (simp add: fun_eq_iff is_group_list_def)

lemma owner_ok_add_credits [simp]: "owner_ok (add_credits g c G) = owner_ok G"
  and groups_ok_add_credits [simp]: "groups_ok (add_credits g c G) = groups_ok G"
  by (simp_all add: fun_eq_iff owner_ok_def groups_ok_def)

lemma place_ok_add_credits [simp]: "place_ok L (add_credits g c G) = place_ok L G"
  by (intro ext) (unfold place_ok_def is_group_list_add_credits, rule refl)

lemma resps_ok_add_credits [simp]: "resps_ok R L (add_credits g c G) = resps_ok R L G"
  by (simp add: fun_eq_iff resps_ok_def)

section \<open>Credits\<close>

lemma finite_holders: "resps_ok R L G n \<Longrightarrow> finite (holders R g)"
  by (rule finite_subset [of _ "{..<n}"]) (auto simp: holders_def resps_ok_def)

lemma holders_upd_same:
  assumes "R d = Some r" "ir_group_to_notify r' = ir_group_to_notify r"
    "ir_queue r' = Some (ir_dest_queue r') \<longleftrightarrow> ir_queue r = Some (ir_dest_queue r)"
  shows "holders (R(d \<mapsto> r')) g = holders R g"
  using assms by (auto simp: holders_def)

lemma credits_deliver:
  assumes "credits_ok N R G" "resps_ok R L G n" "R d = Some r" "ir_group_to_notify r = Some g" "ir_queue r \<noteq> Some (ir_dest_queue r)"
    and gone: "\<And>r'. x = Some r' \<Longrightarrow> ir_queue r' = Some (ir_dest_queue r')"
  shows "credits_ok N (R(d := x)) (add_credits g 1 G)"
proof -
  have "d \<in> holders R g" using assms(3-5) by (simp add: holders_def)
  then have c: "int (card (holders R g)) = int (card (holders R g - {d})) + 1"
    using card.remove [of "holders R g" d] finite_holders [OF assms(2), of g] by simp
  have "holders (R(d := x)) h = (if h = g then holders R g - {d} else holders R h)" for h
    using assms(3-5) gone by (auto simp: holders_def)
  moreover have "available_vii_credits (G g) + int (card (holders R g)) = N" using assms(1) by (simp add: credits_ok_def)
  ultimately show ?thesis using assms(1) c by (simp add: credits_ok_def)
qed

lemma credits_take:
  assumes "credits_ok N R G" "resps_ok R L G n" "R d = None" "ir_group_to_notify r = Some g" "ir_queue r = None"
    and "0 < available_vii_credits (G g)"
  shows "credits_ok N (R(d \<mapsto> r)) (add_credits g (- 1) G)"
proof -
  have "d \<notin> holders R g" using assms(3) by (simp add: holders_def)
  then have c: "int (card (insert d (holders R g))) = int (card (holders R g)) + 1"
    using finite_holders [OF assms(2), of g] by simp
  have "holders (R(d \<mapsto> r)) h = (if h = g then insert d (holders R g) else holders R h)" for h
    using assms(3-5) by (auto simp: holders_def)
  then show ?thesis using assms(1,6) c unfolding credits_ok_def by simp
qed

lemma credits_same:
  assumes "credits_ok N R G" "\<And>g. holders R' g = holders R g"
  shows "credits_ok N R' G"
  using assms by (simp add: credits_ok_def)

section \<open>Changes\<close>

text \<open>The list table after a response left its list, and after it was appended to another.\<close>

definition leave :: "nat \<Rightarrow> nat option \<Rightarrow> list_table \<Rightarrow> list_table" where
  "leave d q L = (case q of None \<Rightarrow> L | Some q \<Rightarrow> L(q := remove1 d (L q)))"

definition enter :: "nat \<Rightarrow> nat \<Rightarrow> list_table \<Rightarrow> list_table" where
  "enter d q L = L(q := L q @ [d])"

lemma set_leave: "lists_ok R L \<Longrightarrow> set (leave d q L q') = (if q = Some q' then set (L q') - {d} else set (L q'))"
  by (auto simp: leave_def lists_ok_def split: option.split)

lemma distinct_leave: "lists_ok R L \<Longrightarrow> distinct (leave d q L q')"
  by (auto simp: leave_def lists_ok_def split: option.split)

lemma enter_simps [simp]:
  "set (enter d q L q') = (if q' = q then insert d (set (L q')) else set (L q'))"
  "distinct (enter d q L q') \<longleftrightarrow> distinct (L q') \<and> (q' = q \<longrightarrow> d \<notin> set (L q'))"
  by (auto simp: enter_def)

text \<open>A response whose entry goes from its list to another, in one step.\<close>

lemma lists_move:
  assumes "lists_ok R L" "R d = Some r" "\<And>q. d \<in> set (L q) \<Longrightarrow> ir_queue r = Some q" "ir_queue r' = Some q'" "ir_queue r \<noteq> Some q'"
  shows "lists_ok (R(d \<mapsto> r')) (enter d q' (leave d (ir_queue r) L))"
  using assms(1,3-5) by (auto simp: lists_ok_def set_leave [OF assms(1)] distinct_leave [OF assms(1)] split: if_splits)

lemma on_own_list: "lists_ok R L \<Longrightarrow> R d = Some r \<Longrightarrow> d \<in> set (L q) \<Longrightarrow> ir_queue r = Some q"
  unfolding lists_ok_def by (metis option.inject)

lemma place_ok_other:
  assumes "place_ok L G n d' r" "d' \<noteq> d" "lists_ok R L"
  shows "place_ok (enter d q' (leave d q L)) G n d' r"
  using assms(1,2) by (auto simp: place_ok_def set_leave [OF assms(3)] split: option.splits)

lemma books_move:
  assumes ok: "books_ok N R L G n" and r: "R d = Some r"
    and r': "owner_ok G r'" "ir_queue r' = Some q'" "ir_queue r \<noteq> Some q'" "place_ok (enter d q' (leave d (ir_queue r) L)) G n d r'"
    and c: "credits_ok N (R(d \<mapsto> r')) G'" and G': "G' = G \<or> (\<exists>g c. G' = add_credits g c G)"
  shows "books_ok N (R(d \<mapsto> r')) (enter d q' (leave d (ir_queue r) L)) G' n"
proof -
  have l: "lists_ok R L" and rs: "resps_ok R L G n" and g: "groups_ok G n" using ok by (simp_all add: books_ok_def)
  have "resps_ok (R(d \<mapsto> r')) (enter d q' (leave d (ir_queue r) L)) G n"
    using rs r r' place_ok_other [OF _ _ l] by (auto simp: resps_ok_def)
  moreover have "lists_ok (R(d \<mapsto> r')) (enter d q' (leave d (ir_queue r) L))"
    using lists_move [OF l r] on_own_list [OF l r] r' by blast
  ultimately show ?thesis using g c G' by (auto simp: books_ok_def)
qed

text \<open>Delivery: the response leaves the list it is on for the ready list, and its credit returns.\<close>

lemma books_deliver:
  assumes ok: "books_ok N R L G n" and r: "R d = Some r" and g: "ir_group_to_notify r = Some g"
    and held: "ir_queue r \<noteq> Some (ir_dest_queue r)"
  shows "books_ok N (R(d \<mapsto> r\<lparr>ir_processed := True, ir_queue := Some (ir_dest_queue r)\<rparr>))
    (enter d (ir_dest_queue r) (leave d (ir_queue r) L)) (add_credits g 1 G) n"
proof (rule books_move [OF ok r])
  have own: "owner_ok G r" and gs: "groups_ok G n" and rs: "resps_ok R L G n" and c: "credits_ok N R G"
    using ok r by (auto simp: books_ok_def resps_ok_def)
  then show "owner_ok G (r\<lparr>ir_processed := True, ir_queue := Some (ir_dest_queue r)\<rparr>)" by (simp add: owner_ok_def)
  show "place_ok (enter d (ir_dest_queue r) (leave d (ir_queue r) L)) G n d (r\<lparr>ir_processed := True, ir_queue := Some (ir_dest_queue r)\<rparr>)"
    using own gs by (auto simp: place_ok_def owner_ok_def groups_ok_def)
  show "credits_ok N (R(d \<mapsto> r\<lparr>ir_processed := True, ir_queue := Some (ir_dest_queue r)\<rparr>)) (add_credits g 1 G)"
    by (rule credits_deliver [OF c rs r g held]) auto
qed (use held in auto)

text \<open>A floating response is enqueued; its credit stays taken.\<close>

lemma books_enqueue:
  assumes ok: "books_ok N R L G n" and r: "R d = Some r" and q: "ir_queue r = None"
  shows "books_ok N (R(d \<mapsto> r\<lparr>ir_awaiter := a, ir_queue := Some (ir_pending_queue r)\<rparr>)) (enter d (ir_pending_queue r) L) G n"
proof -
  have own: "owner_ok G r" and gs: "groups_ok G n" and rs: "place_ok L G n d r" and c: "credits_ok N R G"
    using ok r by (auto simp: books_ok_def resps_ok_def)
  have ne: "ir_pending_queue r \<noteq> ir_dest_queue r" and b: "ir_pending_queue r < n"
    using own gs unfolding owner_ok_def groups_ok_def by metis+
  have "books_ok N (R(d \<mapsto> r\<lparr>ir_awaiter := a, ir_queue := Some (ir_pending_queue r)\<rparr>))
      (enter d (ir_pending_queue r) (leave d (ir_queue r) L)) G n"
  proof (rule books_move [OF ok r])
    show "owner_ok G (r\<lparr>ir_awaiter := a, ir_queue := Some (ir_pending_queue r)\<rparr>)" using own by (simp add: owner_ok_def)
    show "place_ok (enter d (ir_pending_queue r) (leave d (ir_queue r) L)) G n d (r\<lparr>ir_awaiter := a, ir_queue := Some (ir_pending_queue r)\<rparr>)"
      using ne b rs q by (simp add: place_ok_def)
    show "credits_ok N (R(d \<mapsto> r\<lparr>ir_awaiter := a, ir_queue := Some (ir_pending_queue r)\<rparr>)) G"
      using holders_upd_same [of R d r "r\<lparr>ir_awaiter := a, ir_queue := Some (ir_pending_queue r)\<rparr>"] r q ne
      by (intro credits_same [OF c]) simp
  qed (use q in auto)
  then show ?thesis by (simp add: q leave_def)
qed

text \<open>A response that is not on any list may appear or change while it floats.\<close>

lemma lists_upd:
  assumes "lists_ok R L" "\<And>q. d \<notin> set (L q)"
  shows "lists_ok (R(d := x)) L"
  using assms by (auto simp: lists_ok_def)

lemma floating_off_lists:
  assumes "lists_ok R L" "R d = x" "\<And>r q. x = Some r \<Longrightarrow> ir_queue r \<noteq> Some q"
  shows "d \<notin> set (L q)"
  using assms unfolding lists_ok_def by blast

lemma books_add:
  assumes ok: "books_ok N R L G n" and new: "R d = None" "d < n" "owner_ok G r" "ir_group_to_notify r = Some g" "ir_queue r = None"
    "\<not> ir_processed r" "0 < available_vii_credits (G g)"
  shows "books_ok N (R(d \<mapsto> r)) L (add_credits g (- 1) G) n"
proof -
  have l: "lists_ok R L" and rs: "resps_ok R L G n" and c: "credits_ok N R G" and gs: "groups_ok G n"
    using ok by (simp_all add: books_ok_def)
  have "lists_ok (R(d \<mapsto> r)) L" by (rule lists_upd [OF l floating_off_lists [OF l new(1)]]) simp
  moreover have "resps_ok (R(d \<mapsto> r)) L G n" using rs new by (auto simp: resps_ok_def place_ok_def)
  ultimately show ?thesis using credits_take [OF c rs new(1,4,5,7)] gs by (simp add: books_ok_def)
qed

lemma books_drop:
  assumes ok: "books_ok N R L G n" and r: "R d = Some r" "ir_group_to_notify r = Some g" "ir_queue r = None"
  shows "books_ok N (R(d := None)) L (add_credits g 1 G) n"
proof -
  have l: "lists_ok R L" and rs: "resps_ok R L G n" and c: "credits_ok N R G" and gs: "groups_ok G n"
    using ok by (simp_all add: books_ok_def)
  have "lists_ok (R(d := None)) L" by (rule lists_upd [OF l floating_off_lists [OF l r(1)]]) (use r(3) in simp)
  moreover have "resps_ok (R(d := None)) L G n" using rs by (auto simp: resps_ok_def)
  moreover have "credits_ok N (R(d := None)) (add_credits g 1 G)" by (rule credits_deliver [OF c rs r(1,2)]) (use r(3) in auto)
  ultimately show ?thesis using gs by (simp add: books_ok_def)
qed

lemma books_awaiter:
  assumes ok: "books_ok N R L G n" and r: "R d = Some r"
  shows "books_ok N (R(d \<mapsto> r\<lparr>ir_awaiter := a\<rparr>)) L G n"
proof -
  have l: "lists_ok R L" and rs: "resps_ok R L G n" and c: "credits_ok N R G" and gs: "groups_ok G n"
    using ok by (simp_all add: books_ok_def)
  have "lists_ok (R(d \<mapsto> r\<lparr>ir_awaiter := a\<rparr>)) L" using l r by (fastforce simp: lists_ok_def)
  moreover have "place_ok L G n d (r\<lparr>ir_awaiter := a\<rparr>) = place_ok L G n d r" "owner_ok G (r\<lparr>ir_awaiter := a\<rparr>) = owner_ok G r"
    by (simp_all add: place_ok_def owner_ok_def split: option.split)
  then have "resps_ok (R(d \<mapsto> r\<lparr>ir_awaiter := a\<rparr>)) L G n" using rs r by (auto simp: resps_ok_def)
  moreover have "credits_ok N (R(d \<mapsto> r\<lparr>ir_awaiter := a\<rparr>)) G"
    by (intro credits_same [OF c] holders_upd_same) (simp_all add: r)
  ultimately show ?thesis using gs by (simp add: books_ok_def)
qed

lemma books_mono:
  assumes ok: "books_ok N R L G n" and "n \<le> n'"
  shows "books_ok N R L G n'"
proof -
  have "place_ok L G n d r \<Longrightarrow> place_ok L G n' d r" for d r using assms(2) by (auto simp: place_ok_def split: option.splits if_splits)
  then show ?thesis using assms unfolding books_ok_def groups_ok_def resps_ok_def by (meson order_less_le_trans)
qed

text \<open>A delivered response is taken off the ready list, and freed once it is on no list.\<close>

lemma books_collect:
  assumes ok: "books_ok N R L G n" and r: "R d = Some r" and q: "ir_queue r = Some (ir_dest_queue r)"
  shows "books_ok N R (leave d (Some (ir_dest_queue r)) L) G n"
proof -
  have l: "lists_ok R L" and rs: "resps_ok R L G n" and c: "credits_ok N R G" and gs: "groups_ok G n"
    using ok by (simp_all add: books_ok_def)
  have "lists_ok R (leave d (Some (ir_dest_queue r)) L)"
    using l by (auto simp: lists_ok_def set_leave [OF l] distinct_leave [OF l])
  moreover have "place_ok (leave d (Some (ir_dest_queue r)) L) G n d' r'" if "R d' = Some r'" for d' r'
  proof -
    have "place_ok L G n d' r'" using rs that by (simp add: resps_ok_def)
    then show ?thesis using that r q by (cases "d' = d") (auto simp: place_ok_def set_leave [OF l] split: option.splits)
  qed
  then have "resps_ok R (leave d (Some (ir_dest_queue r)) L) G n" using rs by (simp add: resps_ok_def)
  ultimately show ?thesis using gs c by (simp add: books_ok_def)
qed

lemma books_free:
  assumes ok: "books_ok N R L G n" and r: "R d = Some r" and q: "ir_queue r = Some (ir_dest_queue r)" "d \<notin> set (L (ir_dest_queue r))"
  shows "books_ok N (R(d := None)) L G n"
proof -
  have l: "lists_ok R L" and rs: "resps_ok R L G n" and c: "credits_ok N R G" and gs: "groups_ok G n"
    using ok by (simp_all add: books_ok_def)
  have "lists_ok (R(d := None)) L" by (rule lists_upd [OF l]) (use on_own_list [OF l r] q in auto)
  moreover have "resps_ok (R(d := None)) L G n" using rs by (auto simp: resps_ok_def)
  moreover have "holders (R(d := None)) g = holders R g" for g using r q by (auto simp: holders_def)
  then have "credits_ok N (R(d := None)) G" by (rule credits_same [OF c])
  ultimately show ?thesis using gs by (simp add: books_ok_def)
qed

text \<open>A cancellation marks all that is pending and takes the list to a new head.\<close>

definition take_resps :: "nat set \<Rightarrow> nat \<Rightarrow> resp_table \<Rightarrow> resp_table" where
  "take_resps ds q R = (\<lambda>d. if d \<in> ds then map_option (\<lambda>r. r\<lparr>ir_processed := True, ir_queue := Some q\<rparr>) (R d) else R d)"

lemma books_take_pending:
  assumes ok: "books_ok N R L G n" and q: "q = pending_ikv_resps (G g)"
  shows "books_ok N (take_resps (set (L q)) n R) (L(q := [], n := L q)) G (Suc n)"
proof -
  have l: "lists_ok R L" and rs: "resps_ok R L G n" and c: "credits_ok N R G" and gs: "groups_ok G n"
    using ok by (simp_all add: books_ok_def)
  have pend: "d \<in> set (L q) \<longleftrightarrow> ir_queue r = Some q" "ir_queue r = Some q \<Longrightarrow> ir_pending_queue r = q \<and> ir_dest_queue r \<noteq> q"
    "ir_queue r \<noteq> Some n" "ir_dest_queue r < n" "ir_pending_queue r < n" if "R d = Some r" for d r
  proof -
    have p: "place_ok L G n d r" "owner_ok G r" using rs that by (simp_all add: resps_ok_def)
    have d: "ir_dest_queue r \<noteq> q" using p(2) gs q unfolding owner_ok_def groups_ok_def by metis
    show "d \<in> set (L q) \<longleftrightarrow> ir_queue r = Some q"
      using on_own_list [OF l that] p(1) d by (auto simp: place_ok_def)
    show "ir_queue r = Some q \<Longrightarrow> ir_pending_queue r = q \<and> ir_dest_queue r \<noteq> q"
      using p(1) d q by (auto simp: place_ok_def is_group_list_def split: if_splits)
    show "ir_queue r \<noteq> Some n" using p(1) by (auto simp: place_ok_def)
    show "ir_dest_queue r < n" "ir_pending_queue r < n" using p(2) gs unfolding owner_ok_def groups_ok_def by metis+
  qed
  have qn: "q \<noteq> n" and ngl: "\<not> is_group_list G n" using gs q unfolding groups_ok_def is_group_list_def by (metis less_irrefl)+
  have "lists_ok (take_resps (set (L q)) n R) (L(q := [], n := L q))"
    using l qn on_own_list [OF l] by (fastforce simp: lists_ok_def take_resps_def)
  moreover have "d < Suc n \<and> owner_ok G r' \<and> place_ok (L(q := [], n := L q)) G (Suc n) d r'"
    if r': "take_resps (set (L q)) n R d = Some r'" for d r'
  proof (cases "d \<in> set (L q)")
    case True
    then obtain r where r: "R d = Some r" and r2: "r' = r\<lparr>ir_processed := True, ir_queue := Some n\<rparr>"
      using r' by (auto simp: take_resps_def)
    then have "d < n" "owner_ok G r" using rs by (simp_all add: resps_ok_def)
    then show ?thesis using True pend [OF r] ngl by (auto simp: r2 owner_ok_def place_ok_def)
  next
    case False
    then have r: "R d = Some r'" using r' by (simp add: take_resps_def)
    then have "d < n" "owner_ok G r'" "place_ok L G n d r'" using rs by (simp_all add: resps_ok_def)
    then show ?thesis using False pend [OF r] qn by (auto simp: place_ok_def split: option.splits if_splits)
  qed
  then have "resps_ok (take_resps (set (L q)) n R) (L(q := [], n := L q)) G (Suc n)" by (simp add: resps_ok_def)
  moreover have "holders (take_resps (set (L q)) n R) h = holders R h" for h
    using pend(1,2) pend(4) [THEN less_imp_neq] by (fastforce simp: holders_def take_resps_def split: if_splits)
  then have "credits_ok N (take_resps (set (L q)) n R) G" by (rule credits_same [OF c])
  moreover have "groups_ok G (Suc n)" using gs by (simp add: groups_ok_def less_SucI)
  ultimately show ?thesis by (simp add: books_ok_def)
qed

end
