(* ===== verification/Ikv_Effects.thy ===== *)
theory Ikv_Effects
  imports Ikv_Ledger
begin

text \<open>
  What the operations of the in-kernel inference interface do to the tables of responses, lists,
  groups and awaiters: processing a response, handing a command to the mailbox, and sending one
  for a group, with every way in which it can fail.
\<close>

section \<open>The tables of a mailbox\<close>

abbreviation Rs :: "ikv_mailbox \<Rightarrow> resp_table" where "Rs m \<equiv> ikv_resps (mb_data m)"
abbreviation Ls :: "ikv_mailbox \<Rightarrow> list_table" where "Ls m \<equiv> ikv_lists (mb_data m)"
abbreviation Gs :: "ikv_mailbox \<Rightarrow> group_table" where "Gs m \<equiv> ikv_groups (mb_data m)"

type_synonym awaiter_table = "nat \<Rightarrow> gcip_mailbox_resp_awaiter option"

definition tables :: "ikv_mailbox \<Rightarrow> resp_table \<times> list_table \<times> group_table \<times> awaiter_table \<times> nat" where
  "tables m = (Rs m, Ls m, Gs m, awaiters m, next_addr m)"

lemmas ikv_upd_defs = upd_ikv_def ikv_act_def upd_ikv_resp_def upd_group_def upd_hw_def ikv_ring_doorbell_def put_dma_fence_def

lemma tables_simps [simp]:
  "tables (ikv_act as m) = tables m" "tables (upd_hw h m) = tables m" "tables (ikv_ring_doorbell m) = tables m"
  "tables (m\<lparr>resps := rs\<rparr>) = tables m" "tables (m\<lparr>rx_queue := q\<rparr>) = tables m" "tables (m\<lparr>tx_queue := tq\<rparr>) = tables m"
  "tables (m\<lparr>cur_seq := sq\<rparr>) = tables m" "tables (m\<lparr>async_resps := ar\<rparr>) = tables m" "tables (m\<lparr>wait_list := wl\<rparr>) = tables m"
  "tables (m\<lparr>allocs := al\<rparr>) = tables m" "tables (put_dma_fence fo m) = tables m"
  "tables (edgetpu_ikv_release_cmd_queue_lock m) = tables m"
  by (simp_all add: tables_def ikv_upd_defs edgetpu_ikv_release_cmd_queue_lock_def split: option.split)

lemma tables_kmalloc: "kmalloc_ok m = (b, m') \<Longrightarrow> tables m' = tables m"
  by (auto simp: kmalloc_ok_def split: list.splits)

text \<open>The firmware writes registers and the response queue, nothing else.\<close>

definition firmware_only :: "(ikv_mailbox \<Rightarrow> ikv_mailbox) \<Rightarrow> bool" where
  "firmware_only fw \<longleftrightarrow> (\<forall>m. \<exists>f q. fw m = (upd_hw f m)\<lparr>rx_queue := q\<rparr>)"

text \<open>The tables together with the wrappers of the responses.\<close>

definition frame :: "ikv_mailbox \<Rightarrow> _" where
  "frame m = (tables m, async_resps m)"

lemma frame_firmware:
  assumes "firmware_only fw"
  shows "frame (fw m) = frame m"
proof -
  obtain f q where "fw m = (upd_hw f m)\<lparr>rx_queue := q\<rparr>" using assms unfolding firmware_only_def by blast
  then show ?thesis by (simp add: frame_def) (simp add: upd_hw_def upd_ikv_def)
qed

section \<open>Processing a response\<close>

lemma tables_eq: "tables m = (R, L, G, A, n) \<longleftrightarrow> Rs m = R \<and> Ls m = L \<and> Gs m = G \<and> awaiters m = A \<and> next_addr m = n"
  by (simp add: tables_def)

lemma tables_upd:
  "tables (upd_ikv_resp d f m) = ((Rs m)(d := map_option f (Rs m d)), Ls m, Gs m, awaiters m, next_addr m)"
  "tables (list_add_tail d q m) =
     ((Rs m)(d := map_option (\<lambda>r. r\<lparr>ir_queue := Some q\<rparr>) (Rs m d)), enter d q (Ls m), Gs m, awaiters m, next_addr m)"
  "tables (refund_credit (Some g) m) = (Rs m, Ls m, add_credits g 1 (Gs m), awaiters m, next_addr m)"
  by (simp_all add: tables_def ikv_upd_defs list_add_tail_def enter_def refund_credit_def add_credits_def)

lemmas tables_of_upd = tables_upd [unfolded tables_eq]

lemma list_del_tables:
  "list_del d q m = Some m' \<Longrightarrow> tables m' = (Rs m, leave d (Some q) (Ls m), Gs m, awaiters m, next_addr m)"
  by (auto simp: list_del_def tables_def ikv_upd_defs leave_def split: if_splits)

lemma signal_waiters_tables: "tables (signal_response_waiters r e b m) = tables (refund_credit (ir_group_to_notify r) m)"
  by (simp add: signal_response_waiters_def)

lemma process_effect:
  assumes "edgetpu_ikv_process_response d c v e force m = Some m'" "Rs m d = Some r" "owner_ok (Gs m) r"
  shows "if ir_processed r \<and> \<not> force then m' = m
    else \<exists>g. ir_group_to_notify r = Some g \<and>
      tables m' = ((Rs m)(d \<mapsto> r\<lparr>ir_processed := True, ir_queue := Some (ir_dest_queue r)\<rparr>),
                   enter d (ir_dest_queue r) (leave d (ir_queue r) (Ls m)), add_credits g 1 (Gs m), awaiters m, next_addr m)"
proof (cases "ir_processed r \<and> \<not> force")
  case False
  obtain g where g: "ir_group_to_notify r = Some g" using assms(3) by (auto simp: owner_ok_def)
  obtain rs m2 where m2: "(case ir_queue r of None \<Rightarrow> Some ((upd_ikv_resp d (\<lambda>r. r\<lparr>ir_processed := True\<rparr>) m)\<lparr>resps := rs\<rparr>)
        | Some q \<Rightarrow> list_del d q ((upd_ikv_resp d (\<lambda>r. r\<lparr>ir_processed := True\<rparr>) m)\<lparr>resps := rs\<rparr>)) = Some m2"
      and m': "m' = signal_response_waiters r e True (list_add_tail d (ir_dest_queue r) m2)"
    using False assms(1,2) by (auto simp: edgetpu_ikv_process_response_def bind_eq_Some_conv Let_def)
  have "tables m2 = ((Rs m)(d \<mapsto> r\<lparr>ir_processed := True\<rparr>), leave d (ir_queue r) (Ls m), Gs m, awaiters m, next_addr m)"
    using m2 assms(2) by (cases "ir_queue r") (auto dest!: list_del_tables simp: tables_eq leave_def ikv_upd_defs)
  then show ?thesis using False g unfolding m' by (auto simp: signal_waiters_tables tables_eq tables_of_upd)
qed (use assms(1,2) in \<open>simp add: edgetpu_ikv_process_response_def\<close>)

section \<open>Handing a command to the mailbox\<close>

lemma wait_event_timeout_keeps:
  assumes "\<And>s b s'. cond s = (b, s') \<Longrightarrow> V s' = V s" "wait_event_timeout n cond s = (b, s')"
  shows "V s' = V s"
  using assms(2)
proof (induction n arbitrary: s)
  case (Suc n)
  obtain c s1 where c: "cond s = (c, s1)" by (cases "cond s")
  have "V s1 = V s" by (rule assms(1) [OF c])
  then show ?case using Suc c by (cases c) auto
qed (use assms(1) in auto)

lemma not_full_frame:
  assumes fw: "firmware_only fw" and "edgetpu_ikv_wait_for_cmd_queue_not_full fw polls m = Some (ret, m')"
  shows "frame m' = frame m"
proof -
  define cond where "cond = (\<lambda>m'. case edgetpu_ikv_get_cmd_queue_head fw m' of
      (head, m') \<Rightarrow> (ucast head \<noteq> (ucast (cmd_queue_tail (ikv_mbx_hardware (mb_data m))) XOR queue_wrap_bit m'), m'))"
  have eq: "edgetpu_ikv_wait_for_cmd_queue_not_full fw polls m = (case cond m of
      (True, m) \<Rightarrow> Some (0, m)
    | (False, m) \<Rightarrow> (case wait_event_timeout polls cond m of (done, m) \<Rightarrow> Some (if done then 0 else - ETIMEDOUT, m)))"
    unfolding edgetpu_ikv_wait_for_cmd_queue_not_full_def edgetpu_ikv_get_cmd_queue_tail_def Let_def cond_def by simp
  have keep: "frame s' = frame s" if "cond s = (b, s')" for s b s'
    using that frame_firmware [OF fw] by (auto simp: cond_def edgetpu_ikv_get_cmd_queue_head_def Let_def)
  obtain b m1 where c: "cond m = (b, m1)" by (cases "cond m")
  obtain b2 m2 where w: "wait_event_timeout polls cond m1 = (b2, m2)" by (cases "wait_event_timeout polls cond m1")
  have "frame m2 = frame m1" by (rule wait_event_timeout_keeps [OF keep w])
  then show ?thesis using assms(2) c w keep [OF c] unfolding eq by (auto split: bool.splits)
qed

text \<open>
  The outcome of registering the awaiter \<open>a\<close> of response \<open>d\<close>: with success the response is on its
  pending list and the wait list has a reference; otherwise at most the response knows the awaiter.
\<close>

definition enqueued :: "nat \<Rightarrow> edgetpu_ikv_response \<Rightarrow> nat \<Rightarrow> gcip_mailbox_resp_awaiter \<Rightarrow> ikv_mailbox \<Rightarrow> ikv_mailbox \<Rightarrow> bool" where
  "enqueued d r a w m m' \<longleftrightarrow>
     tables m' = ((Rs m)(d \<mapsto> r\<lparr>ir_awaiter := Some a, ir_queue := Some (ir_pending_queue r)\<rparr>),
       enter d (ir_pending_queue r) (Ls m), Gs m, (awaiters m)(a \<mapsto> w\<lparr>kref := kref w + 1\<rparr>), next_addr m)"

definition refused :: "nat \<Rightarrow> edgetpu_ikv_response \<Rightarrow> nat \<Rightarrow> ikv_mailbox \<Rightarrow> ikv_mailbox \<Rightarrow> bool" where
  "refused d r a m m' \<longleftrightarrow>
     (\<exists>x\<in>{ir_awaiter r, Some a}. tables m' = ((Rs m)(d \<mapsto> r\<lparr>ir_awaiter := x\<rparr>), Ls m, Gs m, awaiters m, next_addr m))"

lemma refused_refl: "Rs m d = Some r \<Longrightarrow> tables m' = tables m \<Longrightarrow> refused d r a m m'"
  unfolding refused_def by (rule bexI [of _ "ir_awaiter r"]) (auto simp: tables_def)

lemma enqueued_cong: "tables m1 = tables m \<Longrightarrow> enqueued d r a w m1 m' = enqueued d r a w m m'"
  and refused_cong: "tables m1 = tables m \<Longrightarrow> refused d r a m1 m' = refused d r a m m'"
  by (simp_all add: tables_def enqueued_def refused_def)

lemma enqueued_cong': "tables m2 = tables m' \<Longrightarrow> enqueued d r a w m m2 = enqueued d r a w m m'"
  and refused_cong': "tables m2 = tables m' \<Longrightarrow> refused d r a m m2 = refused d r a m m'"
  by (simp_all add: enqueued_def refused_def)

lemmas ikv_ops_simps = ikv_mailbox_ops_def ikv_ops_no_flush_def

lemma push_wait_resp_effect:
  assumes "gcip_mailbox_push_wait_resp (ikv_mailbox_ops fw submit polls) x (Some a) m = Some (ret, m')"
    and "awaiters m a = Some w" "Rs m (aw_data w) = Some r"
  shows "if ret = 0 then enqueued (aw_data w) r a w m m' else refused (aw_data w) r a m m'"
proof -
  obtain ok m1 where km: "kmalloc_ok m = (ok, m1)" by (cases "kmalloc_ok m")
  have t1: "tables m1 = tables m" by (rule tables_kmalloc [OF km])
  show ?thesis
  proof (cases ok)
    case False
    then show ?thesis using assms km refused_refl [OF assms(3) t1] by (auto simp: gcip_mailbox_push_wait_resp_def)
  next
    case True
    let ?d = "aw_data w"
    have m1: "awaiters m1 a = Some w" "Rs m1 ?d = Some r" using t1 assms(2,3) by (simp_all add: tables_def)
    define m2 where "m2 = ikv_act [Fence_Submit (ir_in_fence_array r) (ir_out_fence_array r)]
       (upd_ikv_resp ?d (\<lambda>r. r\<lparr>ir_awaiter := Some a\<rparr>) m1)"
    have m2: "tables m2 = ((Rs m1)(?d \<mapsto> r\<lparr>ir_awaiter := Some a\<rparr>), Ls m1, Gs m1, awaiters m1, next_addr m1)"
      using m1 by (simp add: m2_def tables_upd)
    have before: "edgetpu_ikv_before_enqueue_wait_list submit p (Some a) m1 =
        (let ret = submit (ir_in_fence_array r) (ir_out_fence_array r) in
         if ret \<noteq> 0 then Some (ret, m2) else Some (0, list_add_tail ?d (ir_pending_queue r) m2))" for p
      using m1 by (simp add: edgetpu_ikv_before_enqueue_wait_list_def m2_def Let_def)
    show ?thesis
    proof (cases "submit (ir_in_fence_array r) (ir_out_fence_array r) = 0")
      case False
      then have "m' = m2" "ret \<noteq> 0" using assms(1) km True before
        by (auto simp: gcip_mailbox_push_wait_resp_def ikv_ops_simps bind_eq_Some_conv Let_def)
      moreover have "refused ?d r a m1 m2" using m2 by (auto simp: refused_def)
      ultimately show ?thesis using refused_cong [OF t1] by simp
    next
      case zero: True
      define m3 where "m3 = list_add_tail ?d (ir_pending_queue r) m2"
      have m3: "tables m3 = ((Rs m1)(?d \<mapsto> r\<lparr>ir_awaiter := Some a, ir_queue := Some (ir_pending_queue r)\<rparr>),
          enter ?d (ir_pending_queue r) (Ls m1), Gs m1, awaiters m1, next_addr m1)"
        using m2 by (simp add: m3_def tables_eq tables_of_upd)
      obtain wl where "ret = 0" and m': "m' = m3\<lparr>awaiters := (awaiters m3)(a \<mapsto> w\<lparr>kref := kref w + 1\<rparr>), wait_list := wl\<rparr>"
        using assms(1) km True before zero m1 m3
        by (auto simp: gcip_mailbox_push_wait_resp_def ikv_ops_simps bind_eq_Some_conv Let_def m3_def [symmetric]
            gcip_mailbox_awaiter_get_def upd_awaiter_def tables_eq)
      moreover have "enqueued ?d r a w m1 m'" using m3 by (simp add: m' enqueued_def tables_eq)
      ultimately show ?thesis using enqueued_cong [OF t1] by simp
    qed
  qed
qed

lemma enqueue_waiter_effect:
  assumes "enqueue_waiter (ikv_mailbox_ops fw submit polls) cmd x (Some a) m = Some (ret, m')"
    and "async_resps m x = Some y" "resp_ptr y = Some p" "awaiters m a = Some w" "Rs m (aw_data w) = Some r"
  shows "if ret = 0 then enqueued (aw_data w) r a w m m' else refused (aw_data w) r a m m'"
proof -
  obtain rs ar where "gcip_mailbox_push_wait_resp (ikv_mailbox_ops fw submit polls) x (Some a)
      (m\<lparr>resps := rs, async_resps := ar\<rparr>) = Some (ret, m')"
    using assms(1-3) by (auto simp: enqueue_waiter_def bind_eq_Some_conv)
  from push_wait_resp_effect [OF this, of w r] show ?thesis
    using assms(4,5) enqueued_cong [of "m\<lparr>resps := rs, async_resps := ar\<rparr>" m] refused_cong [of "m\<lparr>resps := rs, async_resps := ar\<rparr>" m]
    by (auto split: if_splits)
qed

lemma enqueue_store_effect:
  assumes "enqueue_store (ikv_mailbox_ops fw submit polls) cmd m = Some (ret, m')"
  shows "ret = 0 \<and> tables m' = tables m"
  using assms
  by (auto simp: enqueue_store_def ikv_ops_simps bind_eq_Some_conv Let_def edgetpu_ikv_inc_cmd_queue_tail_def
      edgetpu_ikv_after_enqueue_cmd_def split: if_splits)

lemma enqueue_cmd_effect:
  assumes fw: "firmware_only fw"
    and enq: "gcip_mailbox_enqueue_cmd (ikv_mailbox_ops fw submit polls) cmd a (Some a) m = Some (ret, cmd', m')"
    and a: "async_resps m a = Some y" "resp_ptr y = Some p"
    and w: "awaiters m a = Some w" "Rs m (aw_data w) = Some r"
  shows "if ret = 0 then enqueued (aw_data w) r a w m m' else refused (aw_data w) r a m m'"
proof -
  let ?ops = "ikv_mailbox_ops fw submit polls"
  define m1 where "m1 = upd_ikv (\<lambda>k. k\<lparr>ikv_cmd_queue_lock := True\<rparr>) m"
  have m1: "frame m1 = frame m" by (simp add: m1_def frame_def tables_def upd_ikv_def)
  obtain ret2 m2 ret3 m3 ret4 m4 where full: "edgetpu_ikv_wait_for_cmd_queue_not_full fw polls m1 = Some (ret2, m2)"
    and wt: "(if ret2 \<noteq> 0 then Some (ret2, m2) else enqueue_waiter ?ops cmd' a (Some a) m2) = Some (ret3, m3)"
    and st: "(if ret3 \<noteq> 0 then Some (ret3, m3) else enqueue_store ?ops cmd' m3) = Some (ret4, m4)"
    and fin: "ret = ret4" "m' = edgetpu_ikv_release_cmd_queue_lock m4"
    using enq unfolding gcip_mailbox_enqueue_cmd_def
    by (auto simp: ikv_ops_simps bind_eq_Some_conv edgetpu_ikv_acquire_cmd_queue_lock_def m1_def [symmetric] split: if_splits)
  have m2: "frame m2 = frame m" using not_full_frame [OF fw full] m1 by simp
  then have t2: "tables m2 = tables m" and x: "async_resps m2 a = Some y" "awaiters m2 a = Some w" "Rs m2 (aw_data w) = Some r"
    using a w by (simp_all add: frame_def tables_def)
  have m3: "if ret3 = 0 then enqueued (aw_data w) r a w m m3 else refused (aw_data w) r a m m3"
  proof (cases "ret2 = 0")
    case True
    then show ?thesis using wt enqueue_waiter_effect [of fw submit polls cmd' a a m2 ret3 m3 y p w r] x a(2)
      enqueued_cong [OF t2] refused_cong [OF t2] by (auto split: if_splits)
  qed (use wt refused_refl [OF w(2) t2] in auto)
  moreover have "ret4 = ret3 \<and> tables m4 = tables m3" using st enqueue_store_effect by (auto split: if_splits)
  ultimately show ?thesis using fin enqueued_cong' [of m' m3] refused_cong' [of m' m3] by simp
qed

text \<open>What becomes of the response \<open>d\<close> of a command that is handed to the mailbox.\<close>

definition sent :: "nat \<Rightarrow> edgetpu_ikv_response \<Rightarrow> ikv_mailbox \<Rightarrow> ikv_mailbox \<Rightarrow> bool" where
  "sent d r m m' \<longleftrightarrow> (\<exists>w. aw_data w = d \<and>
     tables m' = ((Rs m)(d \<mapsto> r\<lparr>ir_awaiter := Some (next_addr m), ir_queue := Some (ir_pending_queue r)\<rparr>),
       enter d (ir_pending_queue r) (Ls m), Gs m, (awaiters m)(next_addr m \<mapsto> w), Suc (next_addr m)))"

definition unsent :: "nat \<Rightarrow> edgetpu_ikv_response \<Rightarrow> ikv_mailbox \<Rightarrow> ikv_mailbox \<Rightarrow> bool" where
  "unsent d r m m' \<longleftrightarrow> (\<exists>x\<in>{ir_awaiter r, Some (next_addr m)}. \<exists>n\<in>{next_addr m, Suc (next_addr m)}.
     tables m' = ((Rs m)(d \<mapsto> r\<lparr>ir_awaiter := x\<rparr>), Ls m, Gs m, awaiters m, n) \<and> (x = ir_awaiter r \<or> n = Suc (next_addr m)))"

lemma cancel_unsent:
  assumes "gcip_mailbox_cancel_timeout_work_sync ops a m = Some m'" "awaiters m a = Some w" "timeout_work w = Work_Pending" "kref w = 2"
  shows "tables (kfree_awaiter a m') = (Rs m, Ls m, Gs m, (awaiters m)(a := None), next_addr m)"
  using assms by (auto simp: gcip_mailbox_cancel_timeout_work_sync_def gcip_mailbox_cancel_timeout_work_def upd_awaiter_def
      gcip_mailbox_awaiter_put_def kfree_awaiter_def tables_def)

lemma do_send_cmd_effect:
  assumes fw: "firmware_only fw" and send: "do_send_cmd (ikv_mailbox_ops fw submit polls) args m = Some (ret, m')"
    and r: "Rs m (sa_ikv_resp args) = Some r" and fresh: "awaiters m (next_addr m) = None"
  shows "if ret = 0 then sent (sa_ikv_resp args) r m m' else unsent (sa_ikv_resp args) r m m'"
proof -
  let ?ops = "ikv_mailbox_ops fw submit polls" and ?d = "sa_ikv_resp args" and ?a = "next_addr m"
  obtain ok m1 where km: "kmalloc_ok m = (ok, m1)" by (cases "kmalloc_ok m")
  have t1: "tables m1 = tables m" by (rule tables_kmalloc [OF km])
  show ?thesis
  proof (cases ok)
    case False
    then have "ret \<noteq> 0" "m' = m1" using send r km
      by (auto simp: do_send_cmd_def gcip_mailbox_put_cmd_flags_def gcip_mailbox_awaiter_create_def)
    moreover have "unsent ?d r m m1" unfolding unsent_def
      by (intro bexI [of _ "ir_awaiter r"] bexI [of _ ?a]) (use t1 r in \<open>auto simp: tables_def\<close>)
    ultimately show ?thesis by simp
  next
    case True
    define w where "w = \<lparr>timeout_work = Work_Pending, aw_data = ?d, kref = 2, handled = False\<rparr>"
    define m2 where "m2 = m1\<lparr>async_resps := (async_resps m1)(?a \<mapsto> \<lparr>waiting = False, resp_ptr = Some (ir_resp r)\<rparr>),
      next_addr := Suc ?a, awaiters := (awaiters m1)(?a \<mapsto> w)\<rparr>"
    have t2: "tables m2 = (Rs m, Ls m, Gs m, (awaiters m)(?a \<mapsto> w), Suc ?a)" using t1 by (simp add: m2_def tables_def)
    have put: "gcip_mailbox_put_cmd_flags ?ops (sa_cmd args) (Some (ir_resp r)) ?d 0 m = do {
        (ret, cmd, m) \<leftarrow> gcip_mailbox_enqueue_cmd ?ops (sa_cmd args) ?a (Some ?a) m2;
        if ret = 0 then Some (Inr ?a, cmd, m)
        else do { m \<leftarrow> gcip_mailbox_cancel_timeout_work_sync ?ops ?a m; Some (Inl ret, cmd, kfree_awaiter ?a m) } }"
      using km True t1 by (simp add: gcip_mailbox_put_cmd_flags_def gcip_mailbox_awaiter_create_def Let_def tables_def
          gcip_mailbox_awaiter_get_def upd_awaiter_def m2_def w_def numeral_2_eq_2)
    obtain ret3 cmd3 m3 where enq: "gcip_mailbox_enqueue_cmd ?ops (sa_cmd args) ?a (Some ?a) m2 = Some (ret3, cmd3, m3)"
      and fin: "if ret3 = 0 then ret = 0 \<and> m' = m3
        else ret = ret3 \<and> (\<exists>m4. gcip_mailbox_cancel_timeout_work_sync ?ops ?a m3 = Some m4 \<and> m' = kfree_awaiter ?a m4)"
      using send r by (cases "gcip_mailbox_enqueue_cmd ?ops (sa_cmd args) ?a (Some ?a) m2")
        (auto simp: do_send_cmd_def put bind_eq_Some_conv split: if_splits)
    have x: "async_resps m2 ?a = Some \<lparr>waiting = False, resp_ptr = Some (ir_resp r)\<rparr>" "awaiters m2 ?a = Some w" "Rs m2 (aw_data w) = Some r"
      using t2 r by (simp_all add: m2_def tables_def w_def)
    have eff: "if ret3 = 0 then enqueued ?d r ?a w m2 m3 else refused ?d r ?a m2 m3"
      using enqueue_cmd_effect [OF fw enq x(1) _ x(2,3)] by (auto simp: w_def split: if_splits)
    show ?thesis
    proof (cases "ret3 = 0")
      case True
      then have "sent ?d r m m3" using eff t2 unfolding enqueued_def sent_def
        by (intro exI [of _ "w\<lparr>kref := kref w + 1\<rparr>"]) (auto simp: tables_eq w_def)
      then show ?thesis using fin True by simp
    next
      case ne: False
      have c2: "Rs m2 = Rs m" "Ls m2 = Ls m" "Gs m2 = Gs m" "awaiters m2 = (awaiters m)(?a \<mapsto> w)" "next_addr m2 = Suc ?a"
        using t2 by (simp_all add: tables_eq)
      obtain y where y: "y \<in> {ir_awaiter r, Some ?a}"
          "tables m3 = ((Rs m)(?d \<mapsto> r\<lparr>ir_awaiter := y\<rparr>), Ls m, Gs m, (awaiters m)(?a \<mapsto> w), Suc ?a)"
        using eff [unfolded if_not_P [OF ne] refused_def c2] by blast
      obtain m4 where m4: "gcip_mailbox_cancel_timeout_work_sync ?ops ?a m3 = Some m4" "m' = kfree_awaiter ?a m4" "ret = ret3"
        using fin ne by auto
      have "tables m' = ((Rs m)(?d \<mapsto> r\<lparr>ir_awaiter := y\<rparr>), Ls m, Gs m, awaiters m, Suc ?a)"
        using cancel_unsent [OF m4(1), of w] y(2) fresh by (auto simp: tables_eq w_def m4(2) fun_upd_idem)
      then show ?thesis using y(1) ne m4(3) unfolding unsent_def by auto
    qed
  qed
qed

end
