(* ===== verification/Ikv_System.thy ===== *)
theory Ikv_System
  imports Ikv_Effects
begin

text \<open>
  The in-kernel inference interface as a system: a mailbox with its tables and the threads that
  wait for fences. The invariant adds to the books that a response and its awaiter belong together and
  that a waiting thread has a floating response and a spare awaiter of its own.
\<close>

section \<open>The invariant\<close>

definition awaiters_ok :: "resp_table \<Rightarrow> awaiter_table \<Rightarrow> nat \<Rightarrow> bool" where
  "awaiters_ok R A n \<longleftrightarrow> (\<forall>a. A a \<noteq> None \<longrightarrow> a < n) \<and>
     (\<forall>d r a. R d = Some r \<longrightarrow> ir_awaiter r = Some a \<longrightarrow> a < n \<and> (\<forall>w. A a = Some w \<longrightarrow> aw_data w = d))"

definition thread_ok :: "resp_table \<Rightarrow> nat \<Rightarrow> send_cmd_args \<Rightarrow> bool" where
  "thread_ok R n t \<longleftrightarrow> (\<exists>r a. R (sa_ikv_resp t) = Some r \<and> ir_queue r = None \<and> sa_err_resp_awaiter t = Some a \<and> a < n \<and>
     (\<forall>d r. R d = Some r \<longrightarrow> ir_awaiter r \<noteq> Some a))"

definition threads_ok :: "resp_table \<Rightarrow> nat \<Rightarrow> send_cmd_args list \<Rightarrow> bool" where
  "threads_ok R n ts \<longleftrightarrow> distinct (map sa_ikv_resp ts) \<and> distinct (map sa_err_resp_awaiter ts) \<and> (\<forall>t\<in>set ts. thread_ok R n t)"

definition ikv_inv ::
  "int \<Rightarrow> resp_table \<times> list_table \<times> group_table \<times> awaiter_table \<times> nat \<Rightarrow> send_cmd_args list \<Rightarrow> bool" where
  "ikv_inv N t ts \<longleftrightarrow> (case t of (R, L, G, A, n) \<Rightarrow> books_ok N R L G n \<and> awaiters_ok R A n \<and> threads_ok R n ts)"

text \<open>Of a group only its lists and its credits matter.\<close>

definition same_groups :: "group_table \<Rightarrow> group_table \<Rightarrow> bool" where
  "same_groups G G' \<longleftrightarrow> (\<forall>g. pending_ikv_resps (G' g) = pending_ikv_resps (G g) \<and> ready_ikv_resps (G' g) = ready_ikv_resps (G g) \<and>
     available_vii_credits (G' g) = available_vii_credits (G g))"

lemma books_same_groups:
  assumes "same_groups G G'"
  shows "books_ok N R L G' n = books_ok N R L G n"
proof -
  have eq: "is_group_list G' = is_group_list G" "owner_ok G' = owner_ok G" "groups_ok G' n = groups_ok G n" "credits_ok N R G' = credits_ok N R G"
    using assms by (simp_all add: fun_eq_iff is_group_list_def owner_ok_def groups_ok_def credits_ok_def same_groups_def)
  have "place_ok L G' = place_ok L G" by (intro ext) (unfold place_ok_def eq, rule refl)
  then show ?thesis by (simp add: books_ok_def resps_ok_def eq)
qed

section \<open>Steps of the tables\<close>

lemma inv_groups: "ikv_inv N (R, L, G, A, n) ts \<Longrightarrow> same_groups G G' \<Longrightarrow> ikv_inv N (R, L, G', A, n) ts"
  by (simp add: ikv_inv_def books_same_groups)

lemma inv_deliver:
  assumes inv: "ikv_inv N (R, L, G, A, n) ts" and d: "R d = Some r" "ir_group_to_notify r = Some g" "ir_queue r \<noteq> Some (ir_dest_queue r)"
    and "d \<notin> sa_ikv_resp ` set ts"
  shows "ikv_inv N (R(d \<mapsto> r\<lparr>ir_processed := True, ir_queue := Some (ir_dest_queue r)\<rparr>),
    enter d (ir_dest_queue r) (leave d (ir_queue r) L), add_credits g 1 G, A, n) ts"
proof -
  have b: "books_ok N R L G n" and a: "awaiters_ok R A n" and t: "threads_ok R n ts" using inv by (simp_all add: ikv_inv_def)
  let ?R = "R(d \<mapsto> r\<lparr>ir_processed := True, ir_queue := Some (ir_dest_queue r)\<rparr>)"
  have "awaiters_ok ?R A n" using a d(1) by (auto simp: awaiters_ok_def)
  moreover have "thread_ok ?R n u" if "u \<in> set ts" for u
    using t that assms(5) d(1) by (fastforce simp: threads_ok_def thread_ok_def)
  then have "threads_ok ?R n ts" using t by (simp add: threads_ok_def)
  ultimately show ?thesis using books_deliver [OF b d] by (simp add: ikv_inv_def)
qed

lemma inv_mono:
  assumes "ikv_inv N (R, L, G, A, n) ts" "n \<le> n'"
  shows "ikv_inv N (R, L, G, A, n') ts"
proof -
  have "thread_ok R n u \<Longrightarrow> thread_ok R n' u" for u using assms(2) unfolding thread_ok_def by (meson order_less_le_trans)
  moreover have "awaiters_ok R A n \<Longrightarrow> awaiters_ok R A n'" using assms(2) unfolding awaiters_ok_def by (meson order_less_le_trans)
  ultimately show ?thesis using assms books_mono by (auto simp: ikv_inv_def threads_ok_def)
qed

lemma inv_bound: "ikv_inv N (R, L, G, A, n) ts \<Longrightarrow> R d = Some r \<Longrightarrow> d < n \<and> owner_ok G r \<and> place_ok L G n d r"
  by (simp add: ikv_inv_def books_ok_def resps_ok_def)

text \<open>A new response takes a credit of its group; it floats and knows no awaiter.\<close>

lemma inv_add:
  assumes inv: "ikv_inv N (R, L, G, A, n) ts" and r: "owner_ok G r" "ir_group_to_notify r = Some g" "ir_queue r = None"
    "\<not> ir_processed r" "ir_awaiter r = None" and c: "0 < available_vii_credits (G g)"
  shows "ikv_inv N (R(n \<mapsto> r), L, add_credits g (- 1) G, A, Suc (Suc n)) ts"
proof -
  have n: "R n = None" using inv_bound [OF inv, of n] by (cases "R n") auto
  have inv': "ikv_inv N (R, L, G, A, Suc (Suc n)) ts" by (rule inv_mono [OF inv]) simp
  then have b: "books_ok N R L G (Suc (Suc n))" and a: "awaiters_ok R A (Suc (Suc n))" and t: "threads_ok R (Suc (Suc n)) ts"
    by (simp_all add: ikv_inv_def)
  have "awaiters_ok (R(n \<mapsto> r)) A (Suc (Suc n))" using a r(5) by (auto simp: awaiters_ok_def)
  moreover have "thread_ok (R(n \<mapsto> r)) (Suc (Suc n)) u" if "u \<in> set ts" for u
    using t that n r(5) by (fastforce simp: threads_ok_def thread_ok_def)
  then have "threads_ok (R(n \<mapsto> r)) (Suc (Suc n)) ts" using t by (simp add: threads_ok_def)
  ultimately show ?thesis using books_add [OF b n _ r(1-4) c] by (simp add: ikv_inv_def)
qed

lemma inv_drop:
  assumes inv: "ikv_inv N (R, L, G, A, n) ts" and r: "R d = Some r" "ir_group_to_notify r = Some g" "ir_queue r = None"
    and "d \<notin> sa_ikv_resp ` set ts"
  shows "ikv_inv N (R(d := None), L, add_credits g 1 G, A, n) ts"
proof -
  have b: "books_ok N R L G n" and a: "awaiters_ok R A n" and t: "threads_ok R n ts" using inv by (simp_all add: ikv_inv_def)
  have "thread_ok (R(d := None)) n u" if "u \<in> set ts" for u
    using t that assms(5) by (fastforce simp: threads_ok_def thread_ok_def)
  then have "threads_ok (R(d := None)) n ts" using t by (simp add: threads_ok_def)
  moreover have "awaiters_ok (R(d := None)) A n" using a by (auto simp: awaiters_ok_def)
  ultimately show ?thesis using books_drop [OF b r] by (simp add: ikv_inv_def)
qed

text \<open>Changes of awaiters.\<close>

lemma inv_awaiter_table:
  assumes inv: "ikv_inv N (R, L, G, A, n) ts" and "\<And>a. A' a \<noteq> None \<Longrightarrow> a < n"
    and "\<And>d r a w. R d = Some r \<Longrightarrow> ir_awaiter r = Some a \<Longrightarrow> A' a = Some w \<Longrightarrow> aw_data w = d"
  shows "ikv_inv N (R, L, G, A', n) ts"
  using assms by (auto simp: ikv_inv_def awaiters_ok_def)

lemma inv_awaiter_unused: "ikv_inv N (R, L, G, A, n) ts \<Longrightarrow> R d = Some r \<Longrightarrow> ir_awaiter r = Some a \<Longrightarrow> a < n"
  by (auto simp: ikv_inv_def awaiters_ok_def)

lemma inv_new_awaiter:
  assumes inv: "ikv_inv N (R, L, G, A, n) ts"
  shows "ikv_inv N (R, L, G, A(n \<mapsto> w), Suc n) ts"
proof -
  have "ikv_inv N (R, L, G, A, Suc n) ts" by (rule inv_mono [OF inv]) simp
  then show ?thesis
  proof (rule inv_awaiter_table)
    have "A a \<noteq> None \<Longrightarrow> a < n" for a using inv unfolding ikv_inv_def awaiters_ok_def by simp
    then show "(A(n \<mapsto> w)) a \<noteq> None \<Longrightarrow> a < Suc n" for a by (metis fun_upd_other less_Suc_eq)
    show "aw_data v = d" if "R d = Some r" "ir_awaiter r = Some a" "(A(n \<mapsto> w)) a = Some v" for d r a v
      using that inv_awaiter_unused [OF inv that(1,2)] inv by (auto simp: ikv_inv_def awaiters_ok_def)
  qed
qed

lemma inv_free_awaiter:
  assumes inv: "ikv_inv N (R, L, G, A, n) ts"
  shows "ikv_inv N (R, L, G, A(a := None), n) ts"
  by (rule inv_awaiter_table [OF inv]) (use inv in \<open>auto simp: ikv_inv_def awaiters_ok_def split: if_splits\<close>)

lemma inv_set_awaiter:
  assumes inv: "ikv_inv N (R, L, G, A, n) ts" and r: "R d = Some r"
    and x: "\<And>a. x = Some a \<Longrightarrow> a < n \<and> (\<forall>w. A a = Some w \<longrightarrow> aw_data w = d) \<and> Some a \<notin> sa_err_resp_awaiter ` set ts"
  shows "ikv_inv N (R(d \<mapsto> r\<lparr>ir_awaiter := x\<rparr>), L, G, A, n) ts"
proof -
  have b: "books_ok N R L G n" and a: "awaiters_ok R A n" and t: "threads_ok R n ts" using inv by (simp_all add: ikv_inv_def)
  have "awaiters_ok (R(d \<mapsto> r\<lparr>ir_awaiter := x\<rparr>)) A n" using a x by (auto simp: awaiters_ok_def)
  moreover have "thread_ok (R(d \<mapsto> r\<lparr>ir_awaiter := x\<rparr>)) n u" if u: "u \<in> set ts" for u
  proof -
    obtain r' c where c: "R (sa_ikv_resp u) = Some r'" "ir_queue r' = None" "sa_err_resp_awaiter u = Some c" "c < n"
      "\<forall>d r. R d = Some r \<longrightarrow> ir_awaiter r \<noteq> Some c" using t u by (auto simp: threads_ok_def thread_ok_def)
    have "x \<noteq> Some c" using x [of c] u c(3) by force
    then show ?thesis using c r unfolding thread_ok_def by (cases "sa_ikv_resp u = d") auto
  qed
  then have "threads_ok (R(d \<mapsto> r\<lparr>ir_awaiter := x\<rparr>)) n ts" using t by (simp add: threads_ok_def)
  ultimately show ?thesis using books_awaiter [OF b r] by (simp add: ikv_inv_def)
qed

lemma inv_enqueue:
  assumes inv: "ikv_inv N (R, L, G, A, n) ts" and r: "R d = Some r" "ir_queue r = None" and "d \<notin> sa_ikv_resp ` set ts"
  shows "ikv_inv N (R(d \<mapsto> r\<lparr>ir_queue := Some (ir_pending_queue r)\<rparr>), enter d (ir_pending_queue r) L, G, A, n) ts"
proof -
  have b: "books_ok N R L G n" and a: "awaiters_ok R A n" and t: "threads_ok R n ts" using inv by (simp_all add: ikv_inv_def)
  let ?R = "R(d \<mapsto> r\<lparr>ir_queue := Some (ir_pending_queue r)\<rparr>)"
  have "awaiters_ok ?R A n" using a r(1) by (auto simp: awaiters_ok_def)
  moreover have "thread_ok ?R n u" if "u \<in> set ts" for u
    using t that assms(4) r(1) by (fastforce simp: threads_ok_def thread_ok_def)
  then have "threads_ok ?R n ts" using t by (simp add: threads_ok_def)
  ultimately show ?thesis using books_enqueue [OF b r, of "ir_awaiter r"] by (simp add: ikv_inv_def)
qed

lemma spare_old: "ikv_inv N (R, L, G, A, n) ts \<Longrightarrow> Some n \<notin> sa_err_resp_awaiter ` set ts"
  by (auto simp: ikv_inv_def threads_ok_def thread_ok_def)

text \<open>The outcomes of handing a command to the mailbox.\<close>

lemma inv_sent:
  assumes inv: "ikv_inv N (tables m) ts" and r: "Rs m d = Some r" "ir_queue r = None" "d \<notin> sa_ikv_resp ` set ts" and "sent d r m m'"
  shows "ikv_inv N (tables m') ts"
proof -
  obtain w where w: "aw_data w = d" "tables m' = ((Rs m)(d \<mapsto> r\<lparr>ir_awaiter := Some (next_addr m), ir_queue := Some (ir_pending_queue r)\<rparr>),
       enter d (ir_pending_queue r) (Ls m), Gs m, (awaiters m)(next_addr m \<mapsto> w), Suc (next_addr m))"
    using assms(5) by (auto simp: sent_def)
  have "ikv_inv N (Rs m, Ls m, Gs m, (awaiters m)(next_addr m \<mapsto> w), Suc (next_addr m)) ts"
    using inv_new_awaiter inv by (simp add: tables_def)
  then have "ikv_inv N ((Rs m)(d \<mapsto> r\<lparr>ir_awaiter := Some (next_addr m)\<rparr>), Ls m, Gs m, (awaiters m)(next_addr m \<mapsto> w), Suc (next_addr m)) ts"
    by (rule inv_set_awaiter [where R = "Rs m", OF _ r(1)]) (use w(1) spare_old inv in \<open>auto simp: tables_def\<close>)
  from inv_enqueue [OF this, of d "r\<lparr>ir_awaiter := Some (next_addr m)\<rparr>"] show ?thesis using r(2,3) by (simp add: w(2))
qed

lemma inv_unsent:
  assumes inv: "ikv_inv N (tables m) ts" and r: "Rs m d = Some r" and "unsent d r m m'"
  shows "ikv_inv N (tables m') ts" "\<exists>x n. tables m' = ((Rs m)(d \<mapsto> r\<lparr>ir_awaiter := x\<rparr>), Ls m, Gs m, awaiters m, n)"
proof -
  obtain x n where x: "x = ir_awaiter r \<or> x = Some (next_addr m) \<and> n = Suc (next_addr m)" "next_addr m \<le> n"
    and t: "tables m' = ((Rs m)(d \<mapsto> r\<lparr>ir_awaiter := x\<rparr>), Ls m, Gs m, awaiters m, n)"
    using assms(3) unfolding unsent_def by (metis insert_iff empty_iff le_refl le_SucI)
  have inv': "ikv_inv N (Rs m, Ls m, Gs m, awaiters m, n) ts" using inv_mono inv x(2) by (simp add: tables_def)
  have none: "awaiters m (next_addr m) = None" using inv by (auto simp: tables_def ikv_inv_def awaiters_ok_def)
  from x(1) show "ikv_inv N (tables m') ts"
  proof
    assume "x = ir_awaiter r"
    then show ?thesis using inv' r by (simp add: t fun_upd_idem)
  next
    assume *: "x = Some (next_addr m) \<and> n = Suc (next_addr m)"
    show ?thesis unfolding t by (rule inv_set_awaiter [OF inv' r]) (use * none spare_old inv in \<open>auto simp: tables_def\<close>)
  qed
  show "\<exists>x n. tables m' = ((Rs m)(d \<mapsto> r\<lparr>ir_awaiter := x\<rparr>), Ls m, Gs m, awaiters m, n)" using t by blast
qed

section \<open>Sending\<close>

lemma err_tables:
  "tables (err_free_ikv_resp f d m) = ((Rs m)(d := None), Ls m, Gs m, awaiters m, next_addr m)"
  "tables (err_free_ikv_resp_resp f d p m) = ((Rs m)(d := None), Ls m, Gs m, awaiters m, next_addr m)"
  "tables (err_put_out_fence_array f d p i u m) = ((Rs m)(d := None), Ls m, Gs m, awaiters m, next_addr m)"
  by (simp_all add: err_free_ikv_resp_def err_free_ikv_resp_resp_def err_put_out_fence_array_def kfree_ikv_resp_def kfree_resp_def
      tables_def ikv_upd_defs split: option.split)

lemma inv_fail:
  assumes "ikv_inv N (tables m) ts" "Rs m d = Some r" "ir_group_to_notify r = Some g" "ir_queue r = None" "d \<notin> sa_ikv_resp ` set ts"
  shows "ikv_inv N (tables (refund_credit (Some g) (err_put_out_fence_array f d p i u m))) ts"
  using inv_drop [OF assms(1)[unfolded tables_def] assms(2-5)] by (simp add: tables_upd err_tables [unfolded tables_eq])

lemma tables_kzalloc_awaiter:
  assumes "kzalloc_awaiter m = (x, m')"
  shows "case x of None \<Rightarrow> tables m' = tables m
    | Some a \<Rightarrow> a = next_addr m \<and> tables m' = (Rs m, Ls m, Gs m,
        (awaiters m)(a \<mapsto> \<lparr>timeout_work = Work_Idle, aw_data = 0, kref = 0, handled = False\<rparr>), Suc a)"
  using assms tables_kmalloc [of m] by (auto simp: kzalloc_awaiter_def Let_def tables_def split: prod.splits if_splits)

lemma inv_process:
  assumes inv: "ikv_inv N (tables m) ts" and r: "Rs m d = Some r" "ir_processed r \<longrightarrow> force \<longrightarrow> ir_queue r \<noteq> Some (ir_dest_queue r)"
      "d \<notin> sa_ikv_resp ` set ts"
    and "edgetpu_ikv_process_response d c v e force m = Some m'"
  shows "ikv_inv N (tables m') ts"
proof -
  have own: "owner_ok (Gs m) r" and pl: "place_ok (Ls m) (Gs m) (next_addr m) d r"
    using inv_bound [OF inv[unfolded tables_def] r(1)] by simp_all
  have "\<not> ir_processed r \<Longrightarrow> ir_queue r \<noteq> Some (ir_dest_queue r)" using pl by (auto simp: place_ok_def)
  then show ?thesis using process_effect [OF assms(5) r(1) own] inv_deliver [OF inv[unfolded tables_def] r(1)] r inv
    by (auto split: if_splits)
qed

lemma inv_build_awaiter:
  assumes inv: "ikv_inv N (tables m) ts" and r: "Rs m d = Some r" and a: "a < next_addr m" "Some a \<notin> sa_err_resp_awaiter ` set ts"
      "\<And>d r. Rs m d = Some r \<Longrightarrow> ir_awaiter r \<noteq> Some a"
    and "build_awaiter_for_error_resp (Some a) d m = Some m'"
  shows "ikv_inv N (tables m') ts" "Rs m' = (Rs m)(d \<mapsto> r\<lparr>ir_awaiter := Some a\<rparr>)"
proof -
  obtain w where t: "tables m' = ((Rs m)(d \<mapsto> r\<lparr>ir_awaiter := Some a\<rparr>), Ls m, Gs m, (awaiters m)(a \<mapsto> w\<lparr>aw_data := d, kref := 1\<rparr>), next_addr m)"
    using assms(6) r by (auto simp: build_awaiter_for_error_resp_def upd_awaiter_def bind_eq_Some_conv tables_def ikv_upd_defs)
  have "ikv_inv N (Rs m, Ls m, Gs m, (awaiters m)(a \<mapsto> w\<lparr>aw_data := d, kref := 1\<rparr>), next_addr m) ts"
    by (rule inv_awaiter_table [OF inv[unfolded tables_def]])
      (use inv a in \<open>auto simp: tables_def ikv_inv_def awaiters_ok_def split: if_splits\<close>)
  then show "ikv_inv N (tables m') ts" unfolding t by (rule inv_set_awaiter) (use r a in auto)
  show "Rs m' = (Rs m)(d \<mapsto> r\<lparr>ir_awaiter := Some a\<rparr>)" using t by (simp add: tables_def)
qed

lemma inv_new_thread:
  assumes inv: "ikv_inv N (R, L, G, A, n) ts" and r: "R d = Some r" "ir_queue r = None" "d \<notin> sa_ikv_resp ` set ts"
    and a: "a < n" "Some a \<notin> sa_err_resp_awaiter ` set ts" "\<And>d r. R d = Some r \<Longrightarrow> ir_awaiter r \<noteq> Some a"
    and t: "sa_ikv_resp t = d" "sa_err_resp_awaiter t = Some a"
  shows "ikv_inv N (R, L, G, A, n) (ts @ [t])"
  using assms by (auto simp: ikv_inv_def threads_ok_def thread_ok_def)

lemma inv_track:
  assumes "edgetpu_device_group_track_fence_task g task m = (ret, m')" "ikv_inv N (tables m) ts"
  shows "ikv_inv N (tables m') ts" "Rs m' = Rs m" "next_addr m' = next_addr m" "awaiters m' = awaiters m"
  using assms tables_kmalloc [of m] inv_groups [of N "Rs m" "Ls m" "Gs m" "awaiters m" "next_addr m" ts]
  by (auto simp: edgetpu_device_group_track_fence_task_def tables_def ikv_upd_defs same_groups_def split: prod.splits if_splits)

text \<open>The invariant after a send: with an error the caller still has to return the credit.\<close>

definition sent_inv :: "int \<Rightarrow> nat \<Rightarrow> int \<Rightarrow> send_cmd_args option \<Rightarrow> ikv_mailbox \<Rightarrow> send_cmd_args list \<Rightarrow> bool" where
  "sent_inv N g ret task m ts \<longleftrightarrow>
     (if ret = 0 then ikv_inv N (tables m) (ts @ (case task of None \<Rightarrow> [] | Some t \<Rightarrow> [t]))
      else task = None \<and> ikv_inv N (tables (refund_credit (Some g) m)) ts)"

lemma inv_kfree_awaiter: "ikv_inv N (tables m) ts \<Longrightarrow> ikv_inv N (tables (kfree_awaiter a m)) ts"
  using inv_free_awaiter [of N "Rs m" "Ls m" "Gs m" "awaiters m" "next_addr m" ts a] by (simp add: kfree_awaiter_def tables_def)

lemma inv_start_thread:
  assumes inv: "ikv_inv N (tables m) ts" and d: "d = sa_ikv_resp args" "d \<notin> sa_ikv_resp ` set ts"
    and r: "Rs m d = Some r" "ir_group_to_notify r = Some g" "ir_queue r = None"
    and a: "sa_err_resp_awaiter args = Some a" "a < next_addr m" "Some a \<notin> sa_err_resp_awaiter ` set ts"
      "\<And>d r. Rs m d = Some r \<Longrightarrow> ir_awaiter r \<noteq> Some a"
    and track: "edgetpu_device_group_track_fence_task g' tk m = (ret, m2)"
  shows "if ret = 0 then sent_inv N g ret (Some args) (ikv_act [Kthread_Wake tk] m2) ts
    else sent_inv N g ret None (err_put_out_fence_array f d p i u (kfree_awaiter a (ikv_act [Kthread_Stop tk] m2))) ts"
proof -
  note t = inv_track [OF track inv]
  have "ikv_inv N (tables m2) (ts @ [args])" unfolding tables_def
    by (rule inv_new_thread [OF t(1)[unfolded tables_def] _ r(3) d(2) _ a(3) _ d(1)[symmetric] a(1)])
      (use t(2,3) r(1) a(2,4) in auto)
  moreover have "ikv_inv N (tables (kfree_awaiter a (ikv_act [Kthread_Stop tk] m2))) ts"
    using inv_kfree_awaiter [of N "ikv_act [Kthread_Stop tk] m2"] t(1) by simp
  moreover have "Rs (kfree_awaiter a (ikv_act [Kthread_Stop tk] m2)) d = Some r"
    using t(2) r(1) by (simp add: kfree_awaiter_def ikv_upd_defs)
  ultimately show ?thesis using inv_fail [OF _ _ r(2,3) d(2)] by (auto simp: sent_inv_def)
qed

lemma inv_send_with_fence:
  assumes inv: "ikv_inv N (tables m) ts" and d: "d = sa_ikv_resp args" "d \<notin> sa_ikv_resp ` set ts"
    and r: "Rs m d = Some r" "ir_group_to_notify r = Some g" "ir_queue r = None" "\<not> ir_processed r"
    and env: "env_kthread env \<noteq> Inl 0"
    and send: "send_with_fence env s args p m = Some (ret, task, m')"
  shows "sent_inv N g ret task m' ts"
proof -
  obtain x m1 where km: "kzalloc_awaiter m = (x, m1)" by (cases "kzalloc_awaiter m")
  note t1 = tables_kzalloc_awaiter [OF km]
  show ?thesis
  proof (cases x)
    case None
    then have "ikv_inv N (tables m1) ts" "Rs m1 d = Some r" using t1 inv r(1) by (simp_all add: tables_def)
    then show ?thesis using send None km inv_fail [OF _ _ r(2,3) d(2)] unfolding send_with_fence_def
      by (auto simp: Let_def sent_inv_def d(1))
  next
    case (Some a)
    have t1: "a = next_addr m" "tables m1 = (Rs m, Ls m, Gs m,
        (awaiters m)(a \<mapsto> \<lparr>timeout_work = Work_Idle, aw_data = 0, kref = 0, handled = False\<rparr>), Suc a)" using t1 Some by auto
    have i1: "ikv_inv N (tables m1) ts" unfolding t1(2) using inv_new_awaiter inv t1(1) by (simp add: tables_def)
    have R1: "Rs m1 = Rs m" "Rs m1 d = Some r" "a < next_addr m1" using t1(2) r(1) by (simp_all add: tables_def)
    have spare: "Some a \<notin> sa_err_resp_awaiter ` set ts" using spare_old inv t1(1) by (simp add: tables_def)
    have unused: "ir_awaiter r' \<noteq> Some a" if "Rs m1 d' = Some r'" for d' r'
      using inv_awaiter_unused [OF inv[unfolded tables_def], of d' r' a] that R1(1) t1(1) by auto
    show ?thesis
    proof (cases "sa_fence args \<noteq> None \<and> env_fence_status env 1 < 0")
      case True
      then obtain m2 m3 v where m2: "build_awaiter_for_error_resp (Some a) d m1 = Some m2"
        and m3: "edgetpu_ikv_process_response d (Some VII_RESPONSE_CODE_KERNEL_FENCE_ERROR) (Some v) (env_fence_status env 1) False m2 = Some m3"
        and fin: "m' = put_dma_fence (sa_fence args) m3" "ret = 0" "task = None"
        using send km Some unfolding send_with_fence_def by (auto simp: Let_def d(1) bind_eq_Some_conv split: if_splits)
      note b = inv_build_awaiter [OF i1 R1(2,3) spare unused m2]
      have "ikv_inv N (tables m3) ts" by (rule inv_process [OF b(1) _ _ d(2) m3, where r = "r\<lparr>ir_awaiter := Some a\<rparr>"]) (use b(2) in auto)
      then show ?thesis by (simp add: sent_inv_def fin)
    next
      case no_error: False
      show ?thesis
      proof (cases "env_kthread env")
        case (Inl e)
        then have "ret = e" "task = None" "m' = err_put_out_fence_array (sa_fence args) d p (is_in_fences s) (is_out_fences s) (kfree_awaiter a m1)"
          using send km Some no_error unfolding send_with_fence_def by (auto simp: Let_def d(1) split: if_splits)
        moreover have "Rs (kfree_awaiter a m1) d = Some r" using R1(2) by (simp add: kfree_awaiter_def)
        ultimately show ?thesis using inv_fail [OF inv_kfree_awaiter [OF i1] _ r(2,3) d(2)] env Inl by (auto simp: sent_inv_def)
      next
        case (Inr tk)
        obtain g' where g': "is_group s = Some g'"
          using send km Some no_error Inr unfolding send_with_fence_def by (cases "is_group s") (auto simp: Let_def split: if_splits)
        obtain ret2 m2 where tr: "edgetpu_device_group_track_fence_task g' tk m1 = (ret2, m2)" by (cases "edgetpu_device_group_track_fence_task g' tk m1")
        then have fin: "ret = ret2" "if ret2 = 0 then task = Some (args\<lparr>sa_err_resp_awaiter := Some a\<rparr>) \<and> m' = ikv_act [Kthread_Wake tk] m2
            else task = None \<and> m' = err_put_out_fence_array (sa_fence args) d p (is_in_fences s) (is_out_fences s)
              (kfree_awaiter a (ikv_act [Kthread_Stop tk] m2))"
          using send km Some no_error Inr g' unfolding send_with_fence_def by (auto simp: Let_def d(1) split: if_splits)
        show ?thesis using fin inv_start_thread [OF i1 _ d(2) R1(2) r(2,3) _ R1(3) spare unused tr, of "args\<lparr>sa_err_resp_awaiter := Some a\<rparr>"] d(1)
          by (cases "ret2 = 0") auto
      qed
    qed
  qed
qed

text \<open>Errors that the environment reports are not zero.\<close>

definition errors_nonzero :: "ikv_env \<Rightarrow> edgetpu_ikv_additional_info option \<Rightarrow> bool" where
  "errors_nonzero env info \<longleftrightarrow> (\<forall>f. env_merge_ikf env f \<noteq> Inl 0) \<and> env_kthread env \<noteq> Inl 0 \<and> send_additional_info env info \<noteq> Some (Inl 0)"

text \<open>How a send proceeds: it fails early, or a response was prepared in the state \<open>m1\<close>.\<close>

definition prepared :: "ikv_send \<Rightarrow> ikv_mailbox \<Rightarrow> ikv_mailbox \<Rightarrow> bool" where
  "prepared s m m1 \<longleftrightarrow> (\<exists>cmd info. tables m1 =
     ((Rs m)(next_addr m \<mapsto> prepared_response s cmd (Suc (next_addr m)) info), Ls m, Gs m, awaiters m, Suc (Suc (next_addr m))))"

definition send_outcome ::
  "ikv_ops \<Rightarrow> ikv_env \<Rightarrow> ikv_send \<Rightarrow> ikv_mailbox \<Rightarrow> int \<Rightarrow> send_cmd_args option \<Rightarrow> ikv_mailbox \<Rightarrow> bool" where
  "send_outcome ops env s m ret task m' \<longleftrightarrow>
     (ret \<noteq> 0 \<and> task = None \<and> (\<exists>n\<ge>next_addr m. tables m' = (Rs m, Ls m, Gs m, awaiters m, n))) \<or>
     (\<exists>m1 m2 args f. prepared s m m1 \<and> sa_ikv_resp args = next_addr m \<and> do_send_cmd ops args m1 = Some (ret, m2) \<and> task = None \<and>
        m' = (if ret = 0 then put_dma_fence f m2
              else err_put_out_fence_array f (next_addr m) (Suc (next_addr m)) (is_in_fences s) (is_out_fences s) m2)) \<or>
     (\<exists>m1 args. prepared s m m1 \<and> sa_ikv_resp args = next_addr m \<and>
        send_with_fence env s args (Suc (next_addr m)) m1 = Some (ret, task, m'))"

lemma send_early:
  assumes "ret \<noteq> 0" "task = None" "Rs m (next_addr m) = None" "next_addr m \<le> n"
    "tables m' = (Rs m, Ls m, Gs m, awaiters m, n) \<or> tables m' = ((Rs m)(next_addr m := None), Ls m, Gs m, awaiters m, n)"
  shows "send_outcome ops env s m ret task m'"
  using assms by (auto simp: send_outcome_def fun_upd_idem)

lemma send_allocated_outcome:
  assumes send: "send_allocated ops env s cmd f (next_addr m) (Suc (next_addr m)) m1 = Some (ret, task, m')"
    and m1: "tables m1 = (Rs m, Ls m, Gs m, awaiters m, Suc (Suc (next_addr m)))"
    and fresh: "Rs m (next_addr m) = None" and env: "errors_nonzero env (is_info s)"
  shows "send_outcome ops env s m ret task m'"
proof -
  obtain info where info: "send_additional_info env (is_info s) = Some info" using send by (auto simp: send_allocated_def bind_eq_Some_conv)
  show ?thesis
  proof (cases info)
    case (Inl e)
    then have "ret = e" "task = None" "m' = err_free_ikv_resp_resp f (next_addr m) (Suc (next_addr m)) m1"
      using send info by (auto simp: send_allocated_def)
    moreover have "e \<noteq> 0" using env info Inl by (auto simp: errors_nonzero_def)
    ultimately show ?thesis using m1 by (intro send_early [OF _ _ fresh, where n = "Suc (Suc (next_addr m))"]) (auto simp: err_tables tables_eq)
  next
    case (Inr im)
    obtain sz mem where im: "im = (sz, mem)" by (cases im)
    define cmd' where "cmd' = edgetpu_vii_command_set_additional_info (ucast (if is_info s = None then 0 else env_info_daddr env)) (ucast sz) cmd"
    define m1' where "m1' = ikv_act [Fence_Get (is_in_fences s), Fence_Get (is_out_fences s)]
      (upd_ikv (\<lambda>k. k\<lparr>ikv_resps := (ikv_resps k)(next_addr m \<mapsto> prepared_response s cmd' (Suc (next_addr m)) mem)\<rparr>) m1)"
    define m2 where "m2 = m1'\<lparr>resps := (resps m1')(Suc (next_addr m) \<mapsto>
      edgetpu_vii_response_set_client_id (edgetpu_vii_command_get_client_id cmd') zero_vii_response)\<rparr>"
    define args where "args = \<lparr>sa_cmd = cmd', sa_ikv_resp = next_addr m, sa_fence = f, sa_err_resp_awaiter = None\<rparr>"
    have m2: "tables m2 = ((Rs m1)(next_addr m \<mapsto> prepared_response s cmd' (Suc (next_addr m)) mem), Ls m1, Gs m1,
        awaiters m1, next_addr m1)" and args: "sa_ikv_resp args = next_addr m"
      by (simp_all add: m2_def m1'_def args_def) (simp add: tables_def ikv_upd_defs)
    have rest: "(if f = None \<or> env_fence_status env 0 = 1 then do {
           (ret, m3) \<leftarrow> do_send_cmd ops args m2;
           if ret \<noteq> 0
           then Some (ret, None, err_put_out_fence_array f (next_addr m) (Suc (next_addr m)) (is_in_fences s) (is_out_fences s) m3)
           else Some (0, None, put_dma_fence f m3) }
         else send_with_fence env s args (Suc (next_addr m)) m2) = Some (ret, task, m')"
      using send unfolding args_def m2_def m1'_def cmd'_def by (simp add: send_allocated_def info Inr im Let_def split del: if_split)
    have p: "prepared s m m2" using m2 m1 by (auto simp: prepared_def tables_eq)
    show ?thesis
    proof (cases "f = None \<or> env_fence_status env 0 = 1")
      case True
      then obtain ret1 m3 where "do_send_cmd ops args m2 = Some (ret1, m3)" "ret = ret1" "task = None"
        "m' = (if ret = 0 then put_dma_fence f m3
           else err_put_out_fence_array f (next_addr m) (Suc (next_addr m)) (is_in_fences s) (is_out_fences s) m3)"
        using rest by (auto simp: bind_eq_Some_conv split: if_splits)
      then show ?thesis using p args unfolding send_outcome_def by blast
    next
      case False
      then show ?thesis using rest p args unfolding send_outcome_def by auto
    qed
  qed
qed

lemma send_cmd_outcome:
  assumes send: "edgetpu_ikv_send_cmd ops env s cmd m = Some (ret, task, m')" and fresh: "Rs m (next_addr m) = None"
    and env: "errors_nonzero env (is_info s)"
  shows "send_outcome ops env s m ret task m'"
proof (cases "env_merge_ikf env (is_in_fences s)")
  case (Inl e)
  then show ?thesis using send env by (intro send_early [OF _ _ fresh le_refl]) (auto simp: edgetpu_ikv_send_cmd_def errors_nonzero_def tables_def)
next
  case (Inr f)
  note early = send_early [OF _ _ fresh]
  define m1 where "m1 = (case f of None \<Rightarrow> m | Some f \<Rightarrow> ikv_act [Dma_Fence_Signaling f] m)"
  obtain b2 m2 where k2: "kmalloc_ok m1 = (b2, m2)" by (cases "kmalloc_ok m1")
  obtain b3 m3 where k3: "kmalloc_ok (m2\<lparr>next_addr := Suc (Suc (next_addr m2))\<rparr>) = (b3, m3)" by (cases "kmalloc_ok (m2\<lparr>next_addr := Suc (Suc (next_addr m2))\<rparr>)")
  define m3' where "m3' = m3\<lparr>resps := (resps m3)(Suc (next_addr m2) \<mapsto> zero_vii_response)\<rparr>"
  obtain b4 m4 where k4: "kmalloc_ok m3' = (b4, m4)" by (cases "kmalloc_ok m3'")
  obtain b5 m5 where k5: "kmalloc_ok m4 = (b5, m5)" by (cases "kmalloc_ok m4")
  have t2: "tables m1 = tables m" "tables m2 = tables m" using tables_kmalloc [OF k2] by (auto simp: m1_def split: option.split)
  then have n2: "next_addr m2 = next_addr m" by (simp add: tables_def)
  have t3: "tables m3 = (Rs m, Ls m, Gs m, awaiters m, Suc (Suc (next_addr m)))"
    using tables_kmalloc [OF k3] t2 by (simp add: tables_def)
  then have t5: "tables m4 = tables m3" "tables m5 = tables m3" using tables_kmalloc [OF k4] tables_kmalloc [OF k5] by (simp_all add: m3'_def)
  have eq: "edgetpu_ikv_send_cmd ops env s cmd m =
      (if f \<noteq> None \<and> is_group s = None then Some (- EINVAL, None, put_dma_fence f m1)
       else if \<not> b2 then Some (- ENOMEM, None, put_dma_fence f m2)
       else if \<not> b3 then Some (- ENOMEM, None, err_free_ikv_resp f (next_addr m) m3)
       else if \<not> b4 then Some (- ENOMEM, None, err_free_ikv_resp_resp f (next_addr m) (Suc (next_addr m)) m4)
       else if \<not> b5 then Some (- ENOMEM, None, err_free_ikv_resp_resp f (next_addr m) (Suc (next_addr m)) m5)
       else send_allocated ops env s cmd f (next_addr m) (Suc (next_addr m)) m5)"
    using k2 k3 k4 k5 n2 unfolding edgetpu_ikv_send_cmd_def Inr by (simp add: Let_def m1_def [symmetric] m3'_def)
  show ?thesis
  proof (cases "(f \<noteq> None \<and> is_group s = None) \<or> \<not> b2 \<or> \<not> b3 \<or> \<not> b4 \<or> \<not> b5")
    case True
    let ?E = "((Rs m)(next_addr m := None), Ls m, Gs m, awaiters m, Suc (Suc (next_addr m)))"
    have "tables (err_free_ikv_resp f (next_addr m) m3) = ?E"
      "tables (err_free_ikv_resp_resp f (next_addr m) (Suc (next_addr m)) m4) = ?E"
      "tables (err_free_ikv_resp_resp f (next_addr m) (Suc (next_addr m)) m5) = ?E"
      using t3 t5 by (simp_all add: err_tables) (simp_all add: tables_def)
    then have "ret \<noteq> 0 \<and> task = None \<and> (tables m' = tables m \<or> tables m' = ?E)"
      using True send t2 unfolding eq by (auto split: if_splits)
    then show ?thesis using early [of ret task "next_addr m" m'] early [of ret task "Suc (Suc (next_addr m))" m'] by (auto simp: tables_def)
  next
    case False
    then show ?thesis using send send_allocated_outcome [OF _ _ fresh env, of ops cmd f m5] t3 t5 unfolding eq by (auto split: if_splits)
  qed
qed

lemma add_credits_cancel [simp]: "add_credits g 1 (add_credits g (- 1) G) = G"
  by (simp add: add_credits_def)

lemma inv_not_thread: "ikv_inv N (R, L, G, A, n) ts \<Longrightarrow> R d = None \<Longrightarrow> d \<notin> sa_ikv_resp ` set ts"
  by (auto simp: ikv_inv_def threads_ok_def thread_ok_def)

lemma inv_send_cmd:
  assumes inv: "ikv_inv N (tables m) ts" and fw: "firmware_only fw" and env: "errors_nonzero env (is_info s)"
    and s: "is_group s = Some g" "is_pending s = pending_ikv_resps (Gs m g)" "is_ready s = ready_ikv_resps (Gs m g)"
    and c: "0 < available_vii_credits (Gs m g)" and m0: "tables m0 = (Rs m, Ls m, add_credits g (- 1) (Gs m), awaiters m, next_addr m)"
    and send: "edgetpu_ikv_send_cmd (ikv_mailbox_ops fw submit polls) env s cmd m0 = Some (ret, task, m')"
  shows "sent_inv N g ret task m' ts"
proof -
  let ?ops = "ikv_mailbox_ops fw submit polls" and ?d = "next_addr m"
  have fresh: "Rs m ?d = None" using inv_bound [OF inv[unfolded tables_def], of ?d] by (cases "Rs m ?d") auto
  have nt: "?d \<notin> sa_ikv_resp ` set ts" by (rule inv_not_thread [OF inv[unfolded tables_def] fresh])
  have m0': "Rs m0 = Rs m" "next_addr m0 = ?d" using m0 by (simp_all add: tables_def)
  have prep: "\<exists>r. ikv_inv N (tables m1) ts \<and> Rs m1 ?d = Some r \<and> ir_group_to_notify r = Some g \<and> ir_queue r = None \<and> \<not> ir_processed r \<and>
      awaiters m1 (next_addr m1) = None" if "prepared s m0 m1" for m1
  proof -
    obtain cmd info where t: "tables m1 = ((Rs m)(?d \<mapsto> prepared_response s cmd (Suc ?d) info), Ls m, add_credits g (- 1) (Gs m), awaiters m, Suc (Suc ?d))"
      using \<open>prepared s m0 m1\<close> m0 by (auto simp: prepared_def tables_def)
    have "ikv_inv N (tables m1) ts" unfolding t
      by (rule inv_add [OF inv[unfolded tables_def] _ _ _ _ _ c]) (use s in \<open>auto simp: prepared_response_def owner_ok_def\<close>)
    then show ?thesis using t s(1) by (auto simp: tables_def prepared_response_def ikv_inv_def awaiters_ok_def)
  qed
  from send_cmd_outcome [OF send _ env] m0' fresh have "send_outcome ?ops env s m0 ret task m'" by simp
  then consider (early) n where "ret \<noteq> 0" "task = None" "?d \<le> n" "tables m' = (Rs m, Ls m, add_credits g (- 1) (Gs m), awaiters m, n)"
    | (now) m1 m2 args f where "prepared s m0 m1" "sa_ikv_resp args = ?d" "do_send_cmd ?ops args m1 = Some (ret, m2)" "task = None"
        "m' = (if ret = 0 then put_dma_fence f m2 else err_put_out_fence_array f ?d (Suc ?d) (is_in_fences s) (is_out_fences s) m2)"
    | (wait) m1 args where "prepared s m0 m1" "sa_ikv_resp args = ?d" "send_with_fence env s args (Suc ?d) m1 = Some (ret, task, m')"
    unfolding send_outcome_def m0' using m0 by (auto simp: tables_def)
  then show ?thesis
  proof cases
    case early
    then show ?thesis using inv_mono [OF inv[unfolded tables_def], of n] by (simp add: sent_inv_def tables_upd) (simp add: tables_def)
  next
    case now
    obtain r where r: "ikv_inv N (tables m1) ts" "Rs m1 ?d = Some r" "ir_group_to_notify r = Some g" "ir_queue r = None"
      "awaiters m1 (next_addr m1) = None" using prep [OF now(1)] by auto
    have eff: "if ret = 0 then sent ?d r m1 m2 else unsent ?d r m1 m2"
      using do_send_cmd_effect [OF fw now(3) _ r(5)] r(2) now(2) by (auto split: if_splits)
    show ?thesis
    proof (cases "ret = 0")
      case True
      then show ?thesis using inv_sent [OF r(1,2,4) nt, of m2] eff now by (simp add: sent_inv_def)
    next
      case False
      then have un: "unsent ?d r m1 m2" using eff by simp
      obtain x where "Rs m2 ?d = Some (r\<lparr>ir_awaiter := x\<rparr>)" using inv_unsent(2) [OF r(1,2) un] by (auto simp: tables_def)
      from inv_fail [OF inv_unsent(1) [OF r(1,2) un] this] show ?thesis using r(3,4) nt False now by (simp add: sent_inv_def)
    qed
  next
    case wait
    then show ?thesis using prep [OF wait(1)] inv_send_with_fence [OF _ wait(2)[symmetric] _ _ _ _ _ _ wait(3)] nt env
      by (auto simp: errors_nonzero_def)
  qed
qed

text \<open>A thread that wakes up sends its command or an error response.\<close>

lemma inv_untrack: "ikv_inv N (tables m) ts \<Longrightarrow> ikv_inv N (tables (edgetpu_device_group_untrack_fence_task g task m)) ts"
  using inv_groups [of N "Rs m" "Ls m" "Gs m" "awaiters m" "next_addr m" ts]
  by (auto simp: edgetpu_device_group_untrack_fence_task_def tables_def ikv_upd_defs same_groups_def)

lemma inv_thread_gone:
  assumes inv: "ikv_inv N (R, L, G, A, n) ts" and t: "t \<in> set ts"
  obtains r a where "R (sa_ikv_resp t) = Some r" "ir_queue r = None" "\<not> ir_processed r" "sa_err_resp_awaiter t = Some a" "a < n"
    "\<And>d r. R d = Some r \<Longrightarrow> ir_awaiter r \<noteq> Some a" "ikv_inv N (R, L, G, A, n) (remove1 t ts)"
    "sa_ikv_resp t \<notin> sa_ikv_resp ` set (remove1 t ts)" "Some a \<notin> sa_err_resp_awaiter ` set (remove1 t ts)"
proof -
  have ok: "threads_ok R n ts" using inv by (simp add: ikv_inv_def)
  then obtain r a where ra: "R (sa_ikv_resp t) = Some r" "ir_queue r = None" "sa_err_resp_awaiter t = Some a" "a < n"
    "\<And>d r. R d = Some r \<Longrightarrow> ir_awaiter r \<noteq> Some a" using t by (auto simp: threads_ok_def thread_ok_def)
  obtain us vs where ts: "ts = us @ t # vs" "t \<notin> set us" using split_list_first [OF t] by blast
  have "threads_ok R n (remove1 t ts)" "sa_ikv_resp t \<notin> sa_ikv_resp ` set (remove1 t ts)" "Some a \<notin> sa_err_resp_awaiter ` set (remove1 t ts)"
    using ok ra(3) unfolding threads_ok_def by (auto simp: ts remove1_append)
  moreover have "\<not> ir_processed r" using inv_bound [OF inv ra(1)] ra(2) by (simp add: place_ok_def)
  ultimately show ?thesis using that [OF ra(1,2) _ ra(3-5)] inv by (simp add: ikv_inv_def)
qed

lemma inv_send_error_resp:
  assumes inv: "ikv_inv N (tables m) ts" and r: "Rs m (sa_ikv_resp t) = Some r" "\<not> ir_processed r" "sa_ikv_resp t \<notin> sa_ikv_resp ` set ts"
    and a: "sa_err_resp_awaiter t = Some a" "a < next_addr m" "Some a \<notin> sa_err_resp_awaiter ` set ts"
      "\<And>d r. Rs m d = Some r \<Longrightarrow> ir_awaiter r \<noteq> Some a"
    and send: "send_error_resp submit t c v e m = Some m'"
  shows "ikv_inv N (tables m') ts"
proof -
  obtain m1 act where m1: "build_awaiter_for_error_resp (Some a) (sa_ikv_resp t) m = Some m1"
    and m': "edgetpu_ikv_process_response (sa_ikv_resp t) (Some c) (Some v) e False (ikv_act act m1) = Some m'"
    using send a(1) by (auto simp: send_error_resp_def bind_eq_Some_conv Let_def)
  have b: "ikv_inv N (tables m1) ts" "Rs m1 = (Rs m)(sa_ikv_resp t \<mapsto> r\<lparr>ir_awaiter := Some a\<rparr>)"
    using inv_build_awaiter [OF inv r(1) a(2,3) _ m1] a(4) by blast+
  have "Rs (ikv_act act m1) = Rs m1" by (simp add: ikv_upd_defs)
  then show ?thesis
    by (intro inv_process [OF _ _ _ r(3) m', where r = "r\<lparr>ir_awaiter := Some a\<rparr>"]) (use b r(2) in simp_all)
qed

lemma inv_thread_fn:
  assumes inv: "ikv_inv N (tables m) ts" and t: "t \<in> set ts" and fw: "firmware_only fw"
    and run: "send_cmd_thread_fn (ikv_mailbox_ops fw submit polls) submit task ret st False t m = Some m'"
  shows "ikv_inv N (tables m') (remove1 t ts)"
proof -
  let ?ts = "remove1 t ts" and ?ops = "ikv_mailbox_ops fw submit polls"
  obtain r a where ra: "Rs m (sa_ikv_resp t) = Some r" "ir_queue r = None" "\<not> ir_processed r" "sa_err_resp_awaiter t = Some a" "a < next_addr m"
    "\<And>d r. Rs m d = Some r \<Longrightarrow> ir_awaiter r \<noteq> Some a" "ikv_inv N (tables m) ?ts"
    "sa_ikv_resp t \<notin> sa_ikv_resp ` set ?ts" "Some a \<notin> sa_err_resp_awaiter ` set ?ts"
    by (rule inv_thread_gone [OF inv[unfolded tables_def] t]) (auto simp: tables_def)
  obtain g f where g: "ir_group_to_notify r = Some g" "sa_fence t = Some f"
    using run ra(1) by (auto simp: send_cmd_thread_fn_def bind_eq_Some_conv Let_def)
  define m1 where "m1 = ikv_act [Dma_Fence_Put f] m"
  have m1: "tables m1 = tables m" "Rs m1 = Rs m" "next_addr m1 = next_addr m" "awaiters m1 = awaiters m" by (simp_all add: m1_def) (simp_all add: ikv_upd_defs)
  have err: "ikv_inv N (tables m2) ?ts" if "send_error_resp submit t c v e m1 = Some m2" for c v e m2
    by (rule inv_send_error_resp [OF _ _ ra(3,8,4) _ ra(9) _ that]) (use m1 ra in auto)
  have fresh: "awaiters m1 (next_addr m1) = None" using ra(7) m1 by (auto simp: ikv_inv_def tables_def awaiters_ok_def)
  show ?thesis
  proof (cases "ret = 0 \<or> st < 0")
    case True
    then obtain c v e m2 where "send_error_resp submit t c v e m1 = Some m2" "m' = edgetpu_device_group_untrack_fence_task g task m2"
      using run ra(1) g by (auto simp: send_cmd_thread_fn_def m1_def Let_def split: if_splits)
    then show ?thesis using err inv_untrack by blast
  next
    case False
    obtain ret2 m2 where m2: "do_send_cmd ?ops t m1 = Some (ret2, m2)"
      and fin: "if ret2 = 0 then m' = edgetpu_device_group_untrack_fence_task g task (kfree_err_awaiter (sa_err_resp_awaiter t) m2)
        else \<exists>m3. send_error_resp submit t VII_RESPONSE_CODE_KERNEL_ENQUEUE_FAILED (word_of_int ret2) (- ECANCELED) m2 = Some m3 \<and>
          m' = edgetpu_device_group_untrack_fence_task g task m3"
      using run ra(1) g False by (auto simp: send_cmd_thread_fn_def m1_def Let_def bind_eq_Some_conv split: if_splits)
    have R1: "Rs m1 (sa_ikv_resp t) = Some r" "ikv_inv N (tables m1) ?ts" using ra(1,7) m1 by auto
    note eff = do_send_cmd_effect [OF fw m2 R1(1) fresh]
    show ?thesis
    proof (cases "ret2 = 0")
      case True
      have "ikv_inv N (tables m2) ?ts" by (rule inv_sent [OF R1(2,1) ra(2,8)]) (use eff True in simp)
      then show ?thesis using fin True inv_untrack inv_kfree_awaiter ra(4) by (auto simp: kfree_err_awaiter_def)
    next
      case no: False
      then have un: "unsent (sa_ikv_resp t) r m1 m2" using eff by simp
      then obtain x n where x: "x \<in> {ir_awaiter r, Some (next_addr m)}" "next_addr m \<le> n"
        "tables m2 = ((Rs m)(sa_ikv_resp t \<mapsto> r\<lparr>ir_awaiter := x\<rparr>), Ls m1, Gs m1, awaiters m, n)"
        unfolding unsent_def m1 by (metis insert_iff empty_iff le_refl le_SucI)
      then have R2: "Rs m2 = (Rs m)(sa_ikv_resp t \<mapsto> r\<lparr>ir_awaiter := x\<rparr>)" "next_addr m2 = n" by (simp_all add: tables_def)
      obtain m3 where m3: "send_error_resp submit t VII_RESPONSE_CODE_KERNEL_ENQUEUE_FAILED (word_of_int ret2) (- ECANCELED) m2 = Some m3"
        "m' = edgetpu_device_group_untrack_fence_task g task m3" using fin no by auto
      have "ikv_inv N (tables m3) ?ts"
        by (rule inv_send_error_resp [OF inv_unsent(1) [OF R1(2,1) un] _ _ ra(8,4) _ ra(9) _ m3(1), where r = "r\<lparr>ir_awaiter := x\<rparr>"])
          (use R2 x ra in \<open>auto split: if_splits\<close>)
      then show ?thesis using m3(2) inv_untrack by simp
    qed
  qed
qed

end
