(* ===== verification/Edgetpu_Ikv_Props.thy ===== *)
theory Edgetpu_Ikv_Props
  imports Ikv_System
begin

text \<open>
  The in-kernel inference interface under any order of events: commands sent by groups, threads
  that wake up, responses that arrive or time out, cancellations, responses that clients take, and the work
  of the mailbox framework in between. Shown: credits are conserved and the lists of a
  group tell the truth, late events change nothing, and a command that could not be sent leaves no trace.
\<close>

section \<open>The remaining operations\<close>

lemma mark_processed_tables:
  "mark_processed ds m = Some m' \<Longrightarrow> tables m' =
     ((\<lambda>d. if d \<in> set ds then map_option (\<lambda>r. r\<lparr>ir_processed := True\<rparr>) (Rs m d) else Rs m d), Ls m, Gs m, awaiters m, next_addr m)"
proof (induction ds arbitrary: m)
  case (Cons d ds)
  from Cons.prems have "mark_processed ds (upd_ikv_resp d (\<lambda>r. r\<lparr>ir_processed := True\<rparr>) m) = Some m'"
    by (auto simp: bind_eq_Some_conv)
  from Cons.IH [OF this] show ?case
    by (simp only: tables_of_upd) (auto simp: fun_eq_iff option.map_comp comp_def)
qed (simp add: tables_def)

lemma fold_requeue_tables:
  "tables (fold (\<lambda>d. upd_ikv_resp d (\<lambda>r. r\<lparr>ir_queue := Some q\<rparr>)) ds m) =
     ((\<lambda>d. if d \<in> set ds then map_option (\<lambda>r. r\<lparr>ir_queue := Some q\<rparr>) (Rs m d) else Rs m d), Ls m, Gs m, awaiters m, next_addr m)"
proof (induction ds arbitrary: m)
  case (Cons d ds)
  then show ?case by (simp only: fold.simps comp_def tables_of_upd) (auto simp: fun_eq_iff option.map_comp comp_def)
qed (simp add: tables_def)

lemma take_pending_tables:
  assumes "take_pending g m = Some (ds, m')" "q = pending_ikv_resps (Gs m g)"
  shows "ds = Ls m q" "tables m' = (take_resps (set (Ls m q)) (next_addr m) (Rs m), (Ls m)(q := [], next_addr m := Ls m q), Gs m,
    awaiters m, Suc (next_addr m))"
proof -
  obtain m1 where m1: "mark_processed (Ls m q) m = Some m1" and ds: "ds = Ls m q"
    and m': "m' = list_replace_init q (next_addr m1) (m1\<lparr>next_addr := Suc (next_addr m1)\<rparr>)"
    using assms by (auto simp: take_pending_def Let_def bind_eq_Some_conv)
  note t1 = mark_processed_tables [OF m1, unfolded tables_eq]
  show "ds = Ls m q" by (rule ds)
  show "tables m' = (take_resps (set (Ls m q)) (next_addr m) (Rs m), (Ls m)(q := [], next_addr m := Ls m q), Gs m,
      awaiters m, Suc (next_addr m))"
  proof -
    define m2 where "m2 = upd_ikv (\<lambda>k. k\<lparr>ikv_lists := (ikv_lists k)(q := [], next_addr m := Ls m q)\<rparr>) (m1\<lparr>next_addr := Suc (next_addr m)\<rparr>)"
    have f: "m' = fold (\<lambda>d. upd_ikv_resp d (\<lambda>r. r\<lparr>ir_queue := Some (next_addr m)\<rparr>)) (Ls m q) m2"
      using t1 by (simp add: m' list_replace_init_def Let_def m2_def)
    have c: "Rs m2 = Rs m1" "Ls m2 = (Ls m)(q := [], next_addr m := Ls m q)" "Gs m2 = Gs m" "awaiters m2 = awaiters m"
      "next_addr m2 = Suc (next_addr m)" using t1 by (simp_all add: m2_def upd_ikv_def)
    have R: "(\<lambda>d. if d \<in> set (Ls m q) then map_option (\<lambda>r. r\<lparr>ir_queue := Some (next_addr m)\<rparr>) (Rs m1 d) else Rs m1 d) =
        take_resps (set (Ls m q)) (next_addr m) (Rs m)"
      using t1 by (intro ext) (simp add: take_resps_def option.map_comp comp_def)
    show ?thesis unfolding f fold_requeue_tables c R by (rule refl)
  qed
qed

lemma inv_take_pending:
  assumes inv: "ikv_inv N (tables m) ts" and take: "take_pending g m = Some (ds, m')"
  shows "ikv_inv N (tables m') ts"
proof -
  define q where "q = pending_ikv_resps (Gs m g)"
  note t = take_pending_tables(2) [OF take q_def]
  have b: "books_ok N (Rs m) (Ls m) (Gs m) (next_addr m)" and a: "awaiters_ok (Rs m) (awaiters m) (next_addr m)"
    and th: "threads_ok (Rs m) (next_addr m) ts" using inv by (simp_all add: ikv_inv_def tables_def)
  have l: "lists_ok (Rs m) (Ls m)" using b by (simp add: books_ok_def)
  let ?R = "take_resps (set (Ls m q)) (next_addr m) (Rs m)"
  have aw: "?R d = Some r' \<Longrightarrow> \<exists>r. Rs m d = Some r \<and> ir_awaiter r' = ir_awaiter r" for d r'
    by (auto simp: take_resps_def split: if_splits)
  have "c < Suc (next_addr m) \<and> (\<forall>w. awaiters m c = Some w \<longrightarrow> aw_data w = d)"
    if r': "?R d = Some r'" "ir_awaiter r' = Some c" for d r' c
  proof -
    obtain r where "Rs m d = Some r" "ir_awaiter r = Some c" using aw [OF r'(1)] r'(2) by auto
    then show ?thesis using a unfolding awaiters_ok_def by (simp add: less_SucI)
  qed
  then have "awaiters_ok ?R (awaiters m) (Suc (next_addr m))" using a by (simp add: awaiters_ok_def less_SucI)
  moreover have "thread_ok ?R (Suc (next_addr m)) u" if mem: "u \<in> set ts" for u
  proof -
    obtain r c where u: "Rs m (sa_ikv_resp u) = Some r" "ir_queue r = None" "sa_err_resp_awaiter u = Some c" "c < next_addr m"
      "\<forall>d r. Rs m d = Some r \<longrightarrow> ir_awaiter r \<noteq> Some c" using th mem by (auto simp: threads_ok_def thread_ok_def)
    have "sa_ikv_resp u \<notin> set (Ls m q)" using on_own_list [OF l u(1)] u(2) by auto
    then have "?R (sa_ikv_resp u) = Some r" using u(1) by (simp add: take_resps_def)
    then show ?thesis using u(2-5) aw unfolding thread_ok_def by (metis less_SucI)
  qed
  then have "threads_ok ?R (Suc (next_addr m)) ts" using th by (simp add: threads_ok_def)
  ultimately show ?thesis using books_take_pending [OF b q_def] unfolding t by (simp add: ikv_inv_def)
qed

lemma put_tables:
  assumes "gcip_mailbox_awaiter_put (ikv_mailbox_ops fw submit polls) a m = Some m'" "awaiters m a = Some w"
  shows "tables m' = (if kref w = 1 then ((Rs m)(aw_data w := None), Ls m, Gs m, (awaiters m)(a := None), next_addr m)
    else (Rs m, Ls m, Gs m, (awaiters m)(a \<mapsto> w\<lparr>kref := kref w - 1\<rparr>), next_addr m))"
  using assms by (auto simp: gcip_mailbox_awaiter_put_def upd_awaiter_def gcip_mailbox_awaiter_destroy_def ikv_ops_simps
      edgetpu_ikv_release_awaiter_data_def kfree_awaiter_def bind_eq_Some_conv Let_def tables_def ikv_upd_defs split: if_splits)

lemma inv_release:
  assumes inv: "ikv_inv N (R, L, G, A, n) ts" and r: "R d = Some r" "ir_queue r = Some (ir_dest_queue r)" "d \<notin> set (L (ir_dest_queue r))"
  shows "ikv_inv N (R(d := None), L, G, A, n) ts"
proof -
  have b: "books_ok N R L G n" and a: "awaiters_ok R A n" and t: "threads_ok R n ts" using inv by (simp_all add: ikv_inv_def)
  have "thread_ok (R(d := None)) n u" if "u \<in> set ts" for u
    using t that r(1,2) by (fastforce simp: threads_ok_def thread_ok_def)
  then have "threads_ok (R(d := None)) n ts" using t by (simp add: threads_ok_def)
  moreover have "awaiters_ok (R(d := None)) A n" using a by (auto simp: awaiters_ok_def)
  ultimately show ?thesis using books_free [OF b r] by (simp add: ikv_inv_def)
qed

text \<open>Dropping a reference: if it was the last one, the response was delivered and taken.\<close>

lemma inv_put:
  assumes inv: "ikv_inv N (tables m) ts" and put: "gcip_mailbox_awaiter_put (ikv_mailbox_ops fw submit polls) a m = Some m'"
    and w: "awaiters m a = Some w"
    and last_ref: "kref w = 1 \<Longrightarrow> \<exists>r. Rs m (aw_data w) = Some r \<and> ir_queue r = Some (ir_dest_queue r) \<and> aw_data w \<notin> set (Ls m (ir_dest_queue r))"
  shows "ikv_inv N (tables m') ts"
proof (cases "kref w = 1")
  case True
  then obtain r where r: "Rs m (aw_data w) = Some r" "ir_queue r = Some (ir_dest_queue r)" "aw_data w \<notin> set (Ls m (ir_dest_queue r))"
    using last_ref by blast
  show ?thesis using inv_free_awaiter [OF inv_release [OF inv[unfolded tables_def] r], of a] put_tables [OF put w] True by simp
next
  case False
  have "ikv_inv N (Rs m, Ls m, Gs m, (awaiters m)(a \<mapsto> w\<lparr>kref := kref w - 1\<rparr>), next_addr m) ts"
    by (rule inv_awaiter_table [OF inv[unfolded tables_def]])
      (use inv w in \<open>auto simp: tables_def ikv_inv_def awaiters_ok_def split: if_splits\<close>)
  then show ?thesis using put_tables [OF put w] False by simp
qed

lemma on_ready_list:
  assumes inv: "ikv_inv N (R, L, G, A, n) ts" and d: "d \<in> set (L (ready_ikv_resps (G g)))"
  obtains r where "R d = Some r" "ir_queue r = Some (ir_dest_queue r)" "ir_dest_queue r = ready_ikv_resps (G g)" "ir_processed r"
proof -
  have l: "lists_ok R L" and gs: "groups_ok G n" using inv by (simp_all add: ikv_inv_def books_ok_def)
  obtain r where r: "R d = Some r" "ir_queue r = Some (ready_ikv_resps (G g))" using l d unfolding lists_ok_def by blast
  have p: "owner_ok G r" "place_ok L G n d r" using inv_bound [OF inv r(1)] by simp_all
  have "ready_ikv_resps (G g) \<noteq> ir_pending_queue r" using p(1) gs unfolding owner_ok_def groups_ok_def by metis
  moreover have "is_group_list G (ready_ikv_resps (G g))" by (auto simp: is_group_list_def)
  ultimately have "ready_ikv_resps (G g) = ir_dest_queue r" "ir_processed r" using p(2) r(2) by (auto simp: place_ok_def split: if_splits)
  then show ?thesis by (intro that [OF r(1)]) (simp_all add: r(2))
qed

lemma on_pending_list:
  assumes inv: "ikv_inv N (R, L, G, A, n) ts" and d: "d \<in> set (L (pending_ikv_resps (G g)))"
  obtains r where "R d = Some r" "ir_queue r = Some (ir_pending_queue r)" "ir_pending_queue r = pending_ikv_resps (G g)" "\<not> ir_processed r"
proof -
  have l: "lists_ok R L" and gs: "groups_ok G n" using inv by (simp_all add: ikv_inv_def books_ok_def)
  obtain r where r: "R d = Some r" "ir_queue r = Some (pending_ikv_resps (G g))" using l d unfolding lists_ok_def by blast
  have p: "owner_ok G r" "place_ok L G n d r" using inv_bound [OF inv r(1)] by simp_all
  have "pending_ikv_resps (G g) \<noteq> ir_dest_queue r" using p(1) gs unfolding owner_ok_def groups_ok_def by metis
  moreover have "is_group_list G (pending_ikv_resps (G g))" by (auto simp: is_group_list_def)
  ultimately have "pending_ikv_resps (G g) = ir_pending_queue r" "\<not> ir_processed r" using p(2) r(2) by (auto simp: place_ok_def split: if_splits)
  then show ?thesis by (intro that [OF r(1)]) (simp_all add: r(2))
qed

lemma inv_get_response:
  assumes inv: "ikv_inv N (tables m) ts"
    and get: "edgetpu_device_group_get_vii_response (ikv_mailbox_ops fw submit polls) g m = Some (ret, buf, m')"
  shows "ikv_inv N (tables m') ts"
proof (cases "dg_status (Gs m g) = EDGETPU_DEVICE_GROUP_READY \<and> Ls m (ready_ikv_resps (Gs m g)) \<noteq> []")
  case False
  then show ?thesis using inv get by (auto simp: edgetpu_device_group_get_vii_response_def Let_def split: if_splits list.splits)
next
  case True
  then obtain d ds where ds: "Ls m (ready_ikv_resps (Gs m g)) = d # ds" by (auto simp: neq_Nil_conv)
  obtain r where r: "Rs m d = Some r" "ir_queue r = Some (ir_dest_queue r)" "ir_dest_queue r = ready_ikv_resps (Gs m g)"
    using on_ready_list [OF inv[unfolded tables_def], of d g] ds by auto
  obtain m1 a where m1: "list_del d (ready_ikv_resps (Gs m g)) m = Some m1" and a: "ir_awaiter r = Some a"
    and put: "gcip_mailbox_awaiter_put (ikv_mailbox_ops fw submit polls) a m1 = Some m'"
    using get True ds r(1) by (auto simp: edgetpu_device_group_get_vii_response_def Let_def bind_eq_Some_conv list_del_def upd_ikv_def)
  note t1 = list_del_tables [OF m1]
  have "books_ok N (Rs m) (leave d (Some (ir_dest_queue r)) (Ls m)) (Gs m) (next_addr m)"
    by (rule books_collect [where R = "Rs m", OF _ r(1,2)]) (use inv in \<open>simp add: ikv_inv_def tables_def\<close>)
  then have i1: "ikv_inv N (tables m1) ts" using inv unfolding t1 r(3) by (simp add: ikv_inv_def tables_def)
  have c1: "Rs m1 = Rs m" "Ls m1 = leave d (Some (ir_dest_queue r)) (Ls m)" "awaiters m1 = awaiters m" using t1 r(3) by (simp_all add: tables_def)
  obtain w where w: "awaiters m1 a = Some w" using put by (auto simp: gcip_mailbox_awaiter_put_def bind_eq_Some_conv)
  have "aw_data w = d" using inv r(1) a w c1(3) by (auto simp: ikv_inv_def tables_def awaiters_ok_def)
  moreover have "distinct (Ls m (ir_dest_queue r))" using inv by (simp add: ikv_inv_def tables_def books_ok_def lists_ok_def)
  then have "d \<notin> set (Ls m1 (ir_dest_queue r))" using ds r(3) by (simp add: c1(2) leave_def)
  ultimately show ?thesis using r by (intro inv_put [OF i1 put w]) (auto simp: c1(1))
qed

section \<open>The system\<close>

lemma send_vii_cases:
  assumes send: "edgetpu_device_group_send_vii_command ops env g cmd i u f info rel m = Some (ret, task, m')"
  obtains (declined) "m' = m" "task = None"
    | (tried) s cmd' m0 m1 where "is_group s = Some g" "is_pending s = pending_ikv_resps (Gs m g)" "is_ready s = ready_ikv_resps (Gs m g)"
      "is_info s = info" "available_vii_credits (Gs m g) \<noteq> 0"
      "tables m0 = (Rs m, Ls m, add_credits g (- 1) (Gs m), awaiters m, next_addr m)"
      "edgetpu_ikv_send_cmd ops env s cmd' m0 = Some (ret, task, m1)" "m' = (if ret \<noteq> 0 then refund_credit (Some g) m1 else m1)"
proof (cases "env_pm env = 0 \<and> dg_status (Gs m g) = EDGETPU_DEVICE_GROUP_READY \<and> dg_etdomain (Gs m g) \<noteq> None \<and> available_vii_credits (Gs m g) \<noteq> 0")
  case False
  then show ?thesis using send declined
    by (auto simp: edgetpu_device_group_send_vii_command_def Let_def ATOMIC_ADD_UNLESS_ZERO_M1_def split: if_splits option.splits)
next
  case True
  then obtain pasid where pasid: "dg_etdomain (Gs m g) = Some pasid" by auto
  define s where "s = \<lparr>is_group = Some g, is_pending = pending_ikv_resps (Gs m g), is_ready = ready_ikv_resps (Gs m g),
    is_in_fences = i, is_out_fences = u, is_iif_dma_fence = f, is_info = info, is_release = rel\<rparr>"
  define m0 where "m0 = upd_group g (\<lambda>d. d\<lparr>available_vii_credits := available_vii_credits (Gs m g) - 1\<rparr>) m"
  obtain m1 where m1: "edgetpu_ikv_send_cmd ops env s (edgetpu_vii_command_set_client_id pasid cmd) m0 = Some (ret, task, m1)"
    and m': "m' = (if ret \<noteq> 0 then refund_credit (Some g) m1 else m1)"
    using send True pasid unfolding edgetpu_device_group_send_vii_command_def
    by (auto simp: Let_def ATOMIC_ADD_UNLESS_ZERO_M1_def bind_eq_Some_conv s_def m0_def split: if_splits)
  have "tables m0 = (Rs m, Ls m, add_credits g (- 1) (Gs m), awaiters m, next_addr m)"
    by (simp add: m0_def tables_def upd_group_def upd_ikv_def add_credits_def)
  then show ?thesis using tried [of s m0 "edgetpu_vii_command_set_client_id pasid cmd" m1] m1 m' True by (simp add: s_def)
qed

lemma inv_send_vii_command:
  assumes inv: "ikv_inv N (tables m) ts" and fw: "firmware_only fw" and env: "errors_nonzero env info"
    and send: "edgetpu_device_group_send_vii_command (ikv_mailbox_ops fw submit polls) env g cmd i u f info rel m = Some (ret, task, m')"
  shows "ikv_inv N (tables m') (ts @ (case task of None \<Rightarrow> [] | Some t \<Rightarrow> [t]))"
  using send
proof (cases rule: send_vii_cases)
  case (tried s cmd' m0 m1)
  have "0 \<le> available_vii_credits (Gs m g)" using inv by (simp add: ikv_inv_def tables_def books_ok_def credits_ok_def)
  then have c: "0 < available_vii_credits (Gs m g)" using tried(5) by simp
  have "sent_inv N g ret task m1 ts" using inv_send_cmd [OF inv fw _ tried(1-3) c tried(6,7)] env tried(4) by simp
  then show ?thesis by (auto simp: sent_inv_def tried(8) split: if_splits)
qed (use inv in simp)

text \<open>
  Events. The framework calls a handler for a command that was enqueued; a cancellation
  processes what it took; the framework drops a reference that is not the driver's, which holds one
  until its client took the response; anything else that happens leaves the tables alone.
\<close>

type_synonym ikv_sys = "ikv_mailbox \<times> send_cmd_args list"

inductive ikv_step ::
  "(ikv_mailbox \<Rightarrow> ikv_mailbox) \<Rightarrow> (nat option \<Rightarrow> nat option \<Rightarrow> int) \<Rightarrow> nat \<Rightarrow> ikv_sys \<Rightarrow> ikv_sys \<Rightarrow> bool"
  for fw submit polls where
  send: "edgetpu_device_group_send_vii_command (ikv_mailbox_ops fw submit polls) env g cmd i u f info rel m = Some (ret, task, m') \<Longrightarrow>
    errors_nonzero env info \<Longrightarrow> ikv_step fw submit polls (m, ts) (m', ts @ (case task of None \<Rightarrow> [] | Some t \<Rightarrow> [t]))"
| thread: "t \<in> set ts \<Longrightarrow> send_cmd_thread_fn (ikv_mailbox_ops fw submit polls) submit task ret st False t m = Some m' \<Longrightarrow>
    ikv_step fw submit polls (m, ts) (m', remove1 t ts)"
| arrived: "awaiters m a = Some w \<Longrightarrow> Rs m (aw_data w) = Some r \<Longrightarrow> ir_queue r \<noteq> None \<Longrightarrow>
    edgetpu_ikv_handle_awaiter_arrived a m = Some m' \<Longrightarrow> ikv_step fw submit polls (m, ts) (m', ts)"
| timedout: "awaiters m a = Some w \<Longrightarrow> Rs m (aw_data w) = Some r \<Longrightarrow> ir_queue r \<noteq> None \<Longrightarrow>
    edgetpu_ikv_handle_awaiter_timedout a m = Some m' \<Longrightarrow> ikv_step fw submit polls (m, ts) (m', ts)"
| cancel_begin: "take_pending g m = Some (ds, m') \<Longrightarrow> ikv_step fw submit polls (m, ts) (m', ts)"
| cancel_force: "Rs m d = Some r \<Longrightarrow> ir_queue r = Some q \<Longrightarrow> q \<noteq> ir_dest_queue r \<Longrightarrow> ir_processed r \<Longrightarrow>
    edgetpu_ikv_process_response d (Some VII_RESPONSE_CODE_KERNEL_CANCELED) (Some v) (- ECANCELED) True m = Some m' \<Longrightarrow>
    ikv_step fw submit polls (m, ts) (m', ts)"
| get_response: "edgetpu_device_group_get_vii_response (ikv_mailbox_ops fw submit polls) g m = Some (ret, buf, m') \<Longrightarrow>
    ikv_step fw submit polls (m, ts) (m', ts)"
| put_ref: "awaiters m a = Some w \<Longrightarrow> gcip_mailbox_awaiter_put (ikv_mailbox_ops fw submit polls) a m = Some m' \<Longrightarrow>
    kref w \<noteq> 1 \<or> (\<exists>r. Rs m (aw_data w) = Some r \<and> ir_queue r = Some (ir_dest_queue r) \<and> aw_data w \<notin> set (Ls m (ir_dest_queue r))) \<Longrightarrow>
    ikv_step fw submit polls (m, ts) (m', ts)"
| other: "Rs m' = Rs m \<Longrightarrow> Ls m' = Ls m \<Longrightarrow> same_groups (Gs m) (Gs m') \<Longrightarrow> next_addr m \<le> next_addr m' \<Longrightarrow>
    (\<forall>a w'. awaiters m' a = Some w' \<longrightarrow> (\<exists>w. awaiters m a = Some w \<and> aw_data w = aw_data w')) \<Longrightarrow>
    ikv_step fw submit polls (m, ts) (m', ts)"

definition ikv_start :: "int \<Rightarrow> ikv_mailbox \<Rightarrow> bool" where
  "ikv_start N m \<longleftrightarrow> 0 \<le> N \<and> Rs m = Map.empty \<and> Ls m = (\<lambda>_. []) \<and> awaiters m = Map.empty \<and> groups_ok (Gs m) (next_addr m) \<and>
     (\<forall>g. available_vii_credits (Gs m g) = N)"

inductive ikv_reachable ::
  "(ikv_mailbox \<Rightarrow> ikv_mailbox) \<Rightarrow> (nat option \<Rightarrow> nat option \<Rightarrow> int) \<Rightarrow> nat \<Rightarrow> int \<Rightarrow> ikv_sys \<Rightarrow> bool"
  for fw submit polls N where
  start: "ikv_start N m \<Longrightarrow> ikv_reachable fw submit polls N (m, [])"
| step: "ikv_reachable fw submit polls N s \<Longrightarrow> ikv_step fw submit polls s s' \<Longrightarrow> ikv_reachable fw submit polls N s'"

lemma inv_start: "ikv_start N m \<Longrightarrow> ikv_inv N (tables m) []"
  by (simp add: ikv_start_def ikv_inv_def tables_def books_ok_def lists_ok_def resps_ok_def credits_ok_def holders_def awaiters_ok_def threads_ok_def)

text \<open>A thread's response is on no list, so no handler of an enqueued command meets it.\<close>

lemma enqueued_not_thread: "ikv_inv N (tables m) ts \<Longrightarrow> Rs m d = Some r \<Longrightarrow> ir_queue r \<noteq> None \<Longrightarrow> d \<notin> sa_ikv_resp ` set ts"
  by (fastforce simp: ikv_inv_def tables_def threads_ok_def thread_ok_def)

lemma inv_act: "ikv_inv N (tables m) ts \<Longrightarrow> ikv_inv N (tables (ikv_act as m)) ts"
  by simp

lemma Rs_act [simp]: "Rs (ikv_act as m) = Rs m"
  by (simp add: ikv_upd_defs)

lemma inv_step:
  assumes "ikv_step fw submit polls s s'" "firmware_only fw" "ikv_inv N (tables (fst s)) (snd s)"
  shows "ikv_inv N (tables (fst s')) (snd s')"
  using assms
proof (cases rule: ikv_step.cases)
  case send
  then show ?thesis using inv_send_vii_command assms(2,3) by simp
next
  case thread
  then show ?thesis using inv_thread_fn assms(2,3) by simp
next
  case (arrived m a w r m' ts)
  then have inv: "ikv_inv N (tables m) ts" using assms(3) by simp
  obtain e where "edgetpu_ikv_process_response (aw_data w) None None e False m = Some m'"
    using arrived by (auto simp: edgetpu_ikv_handle_awaiter_arrived_def bind_eq_Some_conv)
  from inv_process [OF inv arrived(4) _ enqueued_not_thread [OF inv arrived(4,5)] this] show ?thesis using arrived by simp
next
  case (timedout m a w r m' ts)
  then have inv: "ikv_inv N (tables m) ts" using assms(3) by simp
  obtain v where "edgetpu_ikv_process_response (aw_data w) (Some VII_RESPONSE_CODE_KERNEL_CMD_TIMEOUT) (Some v) (- ETIMEDOUT) False
      (ikv_act [Firmware_Log_State] m) = Some m'"
    using timedout by (auto simp: edgetpu_ikv_handle_awaiter_timedout_def bind_eq_Some_conv)
  from inv_process [OF inv_act [OF inv] _ _ enqueued_not_thread [OF inv timedout(4,5)] this] show ?thesis using timedout by simp
next
  case cancel_begin
  then show ?thesis using inv_take_pending assms(3) by simp
next
  case (cancel_force m d r q v m' ts)
  then have inv: "ikv_inv N (tables m) ts" using assms(3) by simp
  from inv_process [OF inv cancel_force(3) _ _ cancel_force(7)] enqueued_not_thread [OF inv cancel_force(3)] cancel_force show ?thesis by simp
next
  case get_response
  then show ?thesis using inv_get_response assms(3) by simp
next
  case (put_ref m a w m' ts)
  then show ?thesis using inv_put [OF _ put_ref(4,3)] assms(3) by auto
next
  case (other m' m ts)
  have "ikv_inv N (Rs m, Ls m, Gs m, awaiters m, next_addr m) ts" using assms(3) other(1) by (simp add: tables_def)
  from inv_groups [OF inv_mono [OF this other(6)] other(5)]
  have inv: "ikv_inv N (Rs m, Ls m, Gs m', awaiters m, next_addr m') ts" .
  have old: "\<exists>v. awaiters m a = Some v \<and> aw_data v = aw_data w" if "awaiters m' a = Some w" for a w using other(7) that by blast
  have "ikv_inv N (Rs m, Ls m, Gs m', awaiters m', next_addr m') ts"
  proof (rule inv_awaiter_table [OF inv])
    show "a < next_addr m'" if "awaiters m' a \<noteq> None" for a
      using old that inv unfolding ikv_inv_def awaiters_ok_def by fastforce
    show "aw_data w = d" if "Rs m d = Some r" "ir_awaiter r = Some a" "awaiters m' a = Some w" for d r a w
      using old [OF that(3)] that(1,2) inv unfolding ikv_inv_def awaiters_ok_def by fastforce
  qed
  then show ?thesis using other by (simp add: tables_def)
qed

lemma inv_reachable:
  assumes "ikv_reachable fw submit polls N s" "firmware_only fw"
  shows "ikv_inv N (tables (fst s)) (snd s)"
  using assms(1) by induction (use inv_start inv_step [OF _ assms(2)] in auto)

section \<open>Properties\<close>

text \<open>A mailbox with one ready group, for the examples.\<close>

definition sample_group :: edgetpu_device_group where
  "sample_group = \<lparr>dg_status = EDGETPU_DEVICE_GROUP_READY, dg_etdomain = Some 5, dg_fatal_errors = 0, available_vii_credits = 8,
     pending_ikv_resps = 0, ready_ikv_resps = 1, pending_cmd_tasks = [], is_clearing_pending_commands = False\<rparr>"

definition sample_hw :: edgetpu_mailbox where
  "sample_hw = \<lparr>cmd_queue_size = 1023, cmd_queue_tail = 0, resp_queue_size = 1023, resp_queue_head = 0,
     context_csr = \<lparr>context_enable = 1, cmd_queue_doorbell_enable = 1, cmd_queue_doorbell_clear = 0, cmd_queue_address_low = 0,
       cmd_queue_address_high = 0, csr_cmd_queue_size = 1023, resp_queue_doorbell_enable = 1, resp_queue_address_low = 0,
       resp_queue_address_high = 0, csr_resp_queue_size = 1023, config_spare_0 = 0, config_spare_1 = 0, config_spare_2 = 0, config_spare_3 = 0\<rparr>,
     cmd_csr = \<lparr>cmd_doorbell_set = 0, cmd_csr_head = 0, cmd_csr_tail = 0\<rparr>,
     resp_csr = \<lparr>resp_doorbell_clear = 0, resp_csr_head = 0, resp_csr_tail = 0\<rparr>\<rparr>"

definition sample_cmd :: edgetpu_vii_command where
  "sample_cmd = \<lparr>vc_seq = 77, vc_code = 1, vc_priority = 0, vc_dma = \<lparr>vd_address = 0, vd_size = 0, vd_flags = 0\<rparr>, vc_client_id = 0,
     vc_qos_class = 0, vc_cluster_ids_bitset = 0, vc_atomic = 0\<rparr>"

definition sample_ikv :: ikv_mailbox where
  "sample_ikv = \<lparr>mb_mode = 19, queue_wrap_bit = 1024, cur_seq = 0, tx_queue = replicate 4 sample_cmd, tx_elem_size = 48,
     rx_queue = [], rx_elem_size = 24, wait_list = Some [], mb_timeout = 120000, mb_ops_set = True,
     mb_data = \<lparr>ikv_mbx_hardware = sample_hw, ikv_mbx_hardware_set = True, ikv_irq_handler = True, ikv_cmd_queue_mem = Some 0,
       ikv_resp_queue_mem = Some 0, ikv_cmd_queue_lock = False, ikv_resp_queue_lock = False, enabled_pasids = 32, command_timeout_ms = 120000,
       ikv_resps = Map.empty, ikv_lists = (\<lambda>_. []), ikv_groups = (\<lambda>_. sample_group), ikv_actions = []\<rparr>,
     resps = Map.empty, async_resps = Map.empty, awaiters = Map.empty, next_addr = 2, allocs = []\<rparr>"

definition sample_env :: ikv_env where
  "sample_env = \<lparr>env_merge_ikf = (\<lambda>_. Inr None), env_fence_status = (\<lambda>_. 0), env_iremap = (\<lambda>n. Inr (replicate (unat n) 0)),
     env_info_daddr = 0, env_kthread = Inr 0, env_pm = 0, env_wait = (\<lambda>_. Some)\<rparr>"

abbreviation sample_ops :: ikv_ops where "sample_ops \<equiv> ikv_mailbox_ops (\<lambda>m. m) (\<lambda>_ _. 0) 0"

definition sample_send :: "(int \<times> send_cmd_args option \<times> ikv_mailbox) option" where
  "sample_send = edgetpu_device_group_send_vii_command sample_ops sample_env 0 sample_cmd None None (Some 9) None None sample_ikv"

definition sample_sent :: ikv_mailbox where
  "sample_sent = snd (snd (the sample_send))"

lemma sample_send_eval:
  "map_option (\<lambda>(ret, task, m). (ret, task, available_vii_credits (Gs m 0), pending_ikv_resps (Gs m 0), Ls m 0, Ls m 1,
       map_option (\<lambda>r. (ir_resp r, ir_queue r, ir_processed r)) (Rs m 2), map_option aw_data (awaiters m 4),
       map_option vr_seq (resps m 3))) sample_send =
     Some (0, None, 7, 0, [2], [], Some (3, Some 0, False), Some 2, Some 77)"
  by code_simp

lemma sample_send_ok: "sample_send = Some (0, None, sample_sent)"
proof -
  obtain m where m: "sample_send = Some (0, None, m)" using sample_send_eval by auto
  show ?thesis unfolding sample_sent_def m by simp
qed

lemma sample_sent_state:
  "available_vii_credits (Gs sample_sent 0) = 7" "pending_ikv_resps (Gs sample_sent 0) = 0" "Ls sample_sent 0 = [2]"
  "map_option (\<lambda>r. (ir_resp r, ir_queue r, ir_processed r)) (Rs sample_sent 2) = Some (3, Some 0, False)"
  "map_option aw_data (awaiters sample_sent 4) = Some 2" "map_option vr_seq (resps sample_sent 3) = Some 77"
  using sample_send_eval by (simp_all only: sample_send_ok option.map option.inject prod.case prod.inject)

lemma firmware_only_idle: "firmware_only (\<lambda>m. m)"
  unfolding firmware_only_def
proof
  fix m :: ikv_mailbox
  have "m = (upd_hw (\<lambda>h. h) m)\<lparr>rx_queue := rx_queue m\<rparr>" by (simp add: upd_hw_def upd_ikv_def)
  then show "\<exists>f q. m = (upd_hw f m)\<lparr>rx_queue := q\<rparr>" by blast
qed

lemma sample_reachable: "ikv_reachable (\<lambda>m. m) (\<lambda>_ _. 0) 0 8 (sample_ikv, [])" "ikv_reachable (\<lambda>m. m) (\<lambda>_ _. 0) 0 8 (sample_sent, [])"
proof -
  show start: "ikv_reachable (\<lambda>m. m) (\<lambda>_ _. 0) 0 8 (sample_ikv, [])"
    by (rule ikv_reachable.start) (simp add: ikv_start_def sample_ikv_def sample_group_def groups_ok_def)
  have "errors_nonzero sample_env None" by (simp add: errors_nonzero_def sample_env_def send_additional_info_def)
  from ikv_step.send [OF sample_send_ok [unfolded sample_send_def] this, of "[]"] ikv_reachable.step [OF start]
  show "ikv_reachable (\<lambda>m. m) (\<lambda>_ _. 0) 0 8 (sample_sent, [])" by auto
qed

text \<open>
  C12: The credits of a group are conserved. Under any interleaving of commands sent,
  threads that wake up, responses that arrive or time out, cancellations and responses taken by clients, the
  credits a group has left and its commands that were not delivered add up to the credits it started
  with; the credits never become negative.
\<close>

theorem ikv_credits_conserved:
  assumes "ikv_reachable fw submit polls N (m, ts)" "firmware_only fw"
  shows "0 \<le> available_vii_credits (ikv_groups (mb_data m) g) \<and>
    available_vii_credits (ikv_groups (mb_data m) g) + int (card (holders (ikv_resps (mb_data m)) g)) = N"
  using inv_reachable [OF assms] by (simp add: ikv_inv_def tables_def books_ok_def credits_ok_def)

theorem ikv_credits_conserved_witness:
  "available_vii_credits (ikv_groups (mb_data sample_sent) 0) = 7 \<and> card (holders (ikv_resps (mb_data sample_sent)) 0) = 1"
  using ikv_credits_conserved [OF sample_reachable(2) firmware_only_idle, of 0] by (simp add: sample_sent_state)

text \<open>
  C15: The lists of a group tell the truth. In every reachable state no list has an entry twice;
  what is on a pending list is a live command that was not processed, what is on a ready
  list was processed; and no command is on two lists, so a client gets each response once.
\<close>

theorem ikv_lists_truthful:
  assumes reach: "ikv_reachable fw submit polls N (m, ts)" "firmware_only fw"
  shows "distinct (ikv_lists (mb_data m) q) \<and>
    (\<forall>d \<in> set (ikv_lists (mb_data m) (pending_ikv_resps (ikv_groups (mb_data m) g))).
       \<exists>r. ikv_resps (mb_data m) d = Some r \<and> \<not> ir_processed r \<and> ir_pending_queue r = pending_ikv_resps (ikv_groups (mb_data m) g)) \<and>
    (\<forall>d \<in> set (ikv_lists (mb_data m) (ready_ikv_resps (ikv_groups (mb_data m) g))).
       \<exists>r. ikv_resps (mb_data m) d = Some r \<and> ir_processed r \<and> ir_dest_queue r = ready_ikv_resps (ikv_groups (mb_data m) g)) \<and>
    (d \<in> set (ikv_lists (mb_data m) q) \<and> d \<in> set (ikv_lists (mb_data m) q') \<longrightarrow> q = q')"
proof -
  have inv: "ikv_inv N (Rs m, Ls m, Gs m, awaiters m, next_addr m) ts" using inv_reachable [OF reach] by (simp add: tables_def)
  have l: "lists_ok (Rs m) (Ls m)" using inv by (simp add: ikv_inv_def books_ok_def)
  have "\<exists>r. Rs m d = Some r \<and> \<not> ir_processed r \<and> ir_pending_queue r = pending_ikv_resps (Gs m g)"
    if "d \<in> set (Ls m (pending_ikv_resps (Gs m g)))" for d by (rule on_pending_list [OF inv that]) blast
  moreover have "\<exists>r. Rs m d = Some r \<and> ir_processed r \<and> ir_dest_queue r = ready_ikv_resps (Gs m g)"
    if "d \<in> set (Ls m (ready_ikv_resps (Gs m g)))" for d by (rule on_ready_list [OF inv that]) blast
  moreover have "distinct (Ls m q)" "d \<in> set (Ls m q) \<and> d \<in> set (Ls m q') \<longrightarrow> q = q'"
    using l unfolding lists_ok_def by (simp, metis option.inject)
  ultimately show ?thesis by blast
qed

theorem ikv_lists_truthful_witness:
  "2 \<in> set (ikv_lists (mb_data sample_sent) (pending_ikv_resps (ikv_groups (mb_data sample_sent) 0))) \<and>
   (\<exists>r. ikv_resps (mb_data sample_sent) 2 = Some r \<and> \<not> ir_processed r)"
  using ikv_lists_truthful [OF sample_reachable(2) firmware_only_idle, of 0 0 2 0] by (auto simp: sample_sent_state(2,3))

end
