(* ===== verification/Edgetpu_Ikv_Events.thy ===== *)
theory Edgetpu_Ikv_Events
  imports Edgetpu_Ikv_Props
begin

text \<open>
  Single events of the in-kernel inference interface: the first of arrival and timeout decides a command
  and later ones change nothing, a command that could not be sent leaves no trace, and two
  paths of the driver that go wrong.
\<close>

section \<open>Arrival and timeout\<close>

text \<open>What the client finds in the packet, and what happens to fences and group.\<close>

definition signals :: "edgetpu_ikv_response \<Rightarrow> int \<Rightarrow> ikv_action list" where
  "signals r e =
     (case ir_out_fence_array r of None \<Rightarrow> [] | Some f \<Rightarrow> if e \<noteq> 0 then [Fence_Propagate_Unblock f] else []) @
     [Fence_Signal (ir_out_fence_array r) e, Fence_Waited (ir_in_fence_array r), Fence_Put (ir_out_fence_array r),
      Fence_Put (ir_in_fence_array r)] @
     (case ir_group_to_notify r of None \<Rightarrow> [] | Some g \<Rightarrow> [Group_Notify g])"

definition final_packet :: "u16 option \<Rightarrow> u64 option \<Rightarrow> u64 \<Rightarrow> edgetpu_vii_response \<Rightarrow> edgetpu_vii_response" where
  "final_packet c v seq buf =
     buf\<lparr>vr_code := (case c of None \<Rightarrow> vr_code buf | Some c \<Rightarrow> c), vr_retval := (case v of None \<Rightarrow> vr_retval buf | Some v \<Rightarrow> v), vr_seq := seq\<rparr>"

definition delivered :: "nat \<Rightarrow> edgetpu_ikv_response \<Rightarrow> edgetpu_vii_response \<Rightarrow> int \<Rightarrow> ikv_mailbox \<Rightarrow> ikv_mailbox \<Rightarrow> bool" where
  "delivered d r buf e m m' \<longleftrightarrow>
     resps m' = (resps m)(ir_resp r \<mapsto> buf) \<and>
     ikv_actions (mb_data m') = ikv_actions (mb_data m) @ signals r e \<and>
     ikv_resps (mb_data m') = (ikv_resps (mb_data m))(d \<mapsto> r\<lparr>ir_processed := True, ir_queue := Some (ir_dest_queue r)\<rparr>) \<and>
     ikv_lists (mb_data m') (ir_dest_queue r) = ikv_lists (mb_data m) (ir_dest_queue r) @ [d]"

lemma process_delivers:
  assumes r: "Rs m d = Some r" and buf: "resps m (ir_resp r) = Some buf" and np: "\<not> ir_processed r"
    and q: "ir_queue r = Some q" "d \<in> set (Ls m q)" "q \<noteq> ir_dest_queue r"
  shows "\<exists>m'. edgetpu_ikv_process_response d c v e False m = Some m' \<and> delivered d r (final_packet c v (ir_client_seq r) buf) e m m'"
proof -
  define m1 where "m1 = upd_ikv_resp d (\<lambda>r. r\<lparr>ir_processed := True\<rparr>) m"
  define m2 where "m2 = m1\<lparr>resps := (resps m1)(ir_resp r \<mapsto> final_packet c v (ir_client_seq r) buf)\<rparr>"
  define m3 where "m3 = upd_ikv (\<lambda>k. k\<lparr>ikv_lists := (ikv_lists k)(q := remove1 d (ikv_lists k q))\<rparr>) m2"
  have "edgetpu_vii_response_set_seq_number (ir_client_seq r)
      (case v of None \<Rightarrow> case c of None \<Rightarrow> buf | Some c \<Rightarrow> edgetpu_vii_response_set_code c buf
       | Some v \<Rightarrow> edgetpu_vii_response_set_retval v (case c of None \<Rightarrow> buf | Some c \<Rightarrow> edgetpu_vii_response_set_code c buf)) =
      final_packet c v (ir_client_seq r) buf"
    by (simp add: final_packet_def edgetpu_vii_response_set_seq_number_def edgetpu_vii_response_set_code_def
        edgetpu_vii_response_set_retval_def split: option.split)
  moreover have "resps m1 (ir_resp r) = Some buf" using buf by (simp add: m1_def ikv_upd_defs)
  moreover have "list_del d q m2 = Some m3" using q(2) by (simp add: list_del_def m3_def m2_def m1_def ikv_upd_defs)
  ultimately have "edgetpu_ikv_process_response d c v e False m =
      Some (signal_response_waiters r e True (list_add_tail d (ir_dest_queue r) m3))"
    using r buf np q(1) by (simp add: edgetpu_ikv_process_response_def Let_def m1_def [symmetric] m2_def)
  moreover have "delivered d r (final_packet c v (ir_client_seq r) buf) e m (signal_response_waiters r e True (list_add_tail d (ir_dest_queue r) m3))"
    using r q(3) by (auto simp: delivered_def signals_def signal_response_waiters_def refund_credit_def list_add_tail_def m3_def m2_def m1_def
        ikv_upd_defs split: option.split)
  ultimately show ?thesis by blast
qed

text \<open>
  C14: The first of arrival and timeout decides a command. In every reachable state, for a
  command that is waiting, either handler puts the response at the end of the client's list with the
  client's sequence number (an arrival with the firmware's code and value, a timeout with the
  driver's), and signals fences and group once; for a command that was already processed, because
  it arrived, timed out or was cancelled, either handler leaves everything as it was.
\<close>

theorem ikv_first_event_decides:
  assumes reach: "ikv_reachable fw submit polls N (m, ts)" "firmware_only fw"
    and w: "awaiters m a = Some w" and r: "ikv_resps (mb_data m) (aw_data w) = Some r" "ir_queue r \<noteq> None"
    and buf: "resps m (ir_resp r) = Some buf"
  shows "if ir_processed r
    then edgetpu_ikv_handle_awaiter_arrived a m = Some m \<and>
         edgetpu_ikv_handle_awaiter_timedout a m = Some (ikv_act [Firmware_Log_State] m)
    else (\<exists>m'. edgetpu_ikv_handle_awaiter_arrived a m = Some m' \<and>
            delivered (aw_data w) r (buf\<lparr>vr_seq := ir_client_seq r\<rparr>) (if vr_code buf \<noteq> 0 then - EIO else 0) m m') \<and>
         (\<exists>m'. edgetpu_ikv_handle_awaiter_timedout a m = Some m' \<and>
            delivered (aw_data w) r (buf\<lparr>vr_code := VII_RESPONSE_CODE_KERNEL_CMD_TIMEOUT,
               vr_retval := ucast (command_timeout_ms (mb_data m)), vr_seq := ir_client_seq r\<rparr>) (- ETIMEDOUT) (ikv_act [Firmware_Log_State] m) m')"
proof (cases "ir_processed r")
  case True
  then show ?thesis using w r buf
    by (simp add: edgetpu_ikv_handle_awaiter_arrived_def edgetpu_ikv_handle_awaiter_timedout_def edgetpu_ikv_process_response_def ikv_upd_defs)
next
  case False
  have "place_ok (Ls m) (Gs m) (next_addr m) (aw_data w) r"
    using inv_bound [of N "Rs m"] inv_reachable [OF reach] r(1) by (auto simp: tables_def)
  then obtain q where q: "ir_queue r = Some q" "aw_data w \<in> set (Ls m q)" "q \<noteq> ir_dest_queue r"
    using r(2) False by (auto simp: place_ok_def split: if_splits)
  let ?m = "ikv_act [Firmware_Log_State] m"
  have m: "Rs ?m (aw_data w) = Some r" "resps ?m (ir_resp r) = Some buf" "aw_data w \<in> set (Ls ?m q)" "command_timeout_ms (mb_data ?m) = command_timeout_ms (mb_data m)"
    using r buf q by (simp_all add: ikv_upd_defs)
  show ?thesis
    using process_delivers [OF r(1) buf False q, of None None "if vr_code buf \<noteq> 0 then - EIO else 0"] False w r buf
      process_delivers [OF m(1,2) False q(1) m(3) q(3), of "Some VII_RESPONSE_CODE_KERNEL_CMD_TIMEOUT" "Some (ucast (command_timeout_ms (mb_data m)))" "- ETIMEDOUT"]
    by (simp add: edgetpu_ikv_handle_awaiter_arrived_def edgetpu_ikv_handle_awaiter_timedout_def edgetpu_vii_response_get_code_def final_packet_def)
qed

theorem ikv_first_event_decides_witness:
  "\<exists>w r buf m'. awaiters sample_sent 4 = Some w \<and> aw_data w = 2 \<and> ikv_resps (mb_data sample_sent) 2 = Some r \<and>
     edgetpu_ikv_handle_awaiter_arrived 4 sample_sent = Some m' \<and> delivered 2 r (buf\<lparr>vr_seq := ir_client_seq r\<rparr>) (if vr_code buf \<noteq> 0 then - EIO else 0) sample_sent m'"
proof -
  obtain w where w: "awaiters sample_sent 4 = Some w" "aw_data w = 2" using sample_sent_state(5) by auto
  obtain r where r: "Rs sample_sent 2 = Some r" "ir_resp r = 3" "ir_queue r = Some 0" "\<not> ir_processed r" using sample_sent_state(4) by auto
  obtain buf where buf: "resps sample_sent 3 = Some buf" using sample_sent_state(6) by auto
  have "\<exists>m'. edgetpu_ikv_handle_awaiter_arrived 4 sample_sent = Some m' \<and>
      delivered 2 r (buf\<lparr>vr_seq := ir_client_seq r\<rparr>) (if vr_code buf \<noteq> 0 then - EIO else 0) sample_sent m'"
    using ikv_first_event_decides [OF sample_reachable(2) firmware_only_idle w(1), of r buf] w r buf by simp
  then show ?thesis using w r by blast
qed

section \<open>Failed sends\<close>

lemma kzalloc_fail_tables:
  assumes "kzalloc_awaiter m = (Some a, m1)" "awaiters m (next_addr m) = None"
  shows "\<exists>n. tables (kfree_awaiter a m1) = (Rs m, Ls m, Gs m, awaiters m, n)"
  using tables_kzalloc_awaiter [OF assms(1)] assms(2) by (auto simp: kfree_awaiter_def tables_def fun_upd_idem)

lemma track_fail_tables: "edgetpu_device_group_track_fence_task g tk m = (ret, m') \<Longrightarrow> ret \<noteq> 0 \<Longrightarrow> tables m' = tables m"
  using tables_kmalloc [of m] by (auto simp: edgetpu_device_group_track_fence_task_def split: prod.splits if_splits)

lemma kfree_awaiter_tables: "tables m1 = tables m2 \<Longrightarrow> tables (kfree_awaiter a m1) = tables (kfree_awaiter a m2)"
  by (simp add: tables_def kfree_awaiter_def)

lemma send_with_fence_fail:
  assumes send: "send_with_fence env s args p m = Some (ret, task, m')" "ret \<noteq> 0" and fresh: "awaiters m (next_addr m) = None"
  shows "task = None \<and> (\<exists>n. tables m' = ((Rs m)(sa_ikv_resp args := None), Ls m, Gs m, awaiters m, n))"
proof -
  obtain x m1 where km: "kzalloc_awaiter m = (x, m1)" by (cases "kzalloc_awaiter m")
  show ?thesis
  proof (cases x)
    case None
    then show ?thesis using send km tables_kzalloc_awaiter [OF km] unfolding send_with_fence_def
      by (auto simp: Let_def err_tables tables_eq) (auto simp: err_tables [unfolded tables_eq] tables_def)
  next
    case (Some a)
    obtain n where n: "tables (kfree_awaiter a m1) = (Rs m, Ls m, Gs m, awaiters m, n)"
      using kzalloc_fail_tables km fresh Some by blast
    have "\<exists>mf. task = None \<and> tables mf = tables (kfree_awaiter a m1) \<and>
        m' = err_put_out_fence_array (sa_fence args) (sa_ikv_resp args) p (is_in_fences s) (is_out_fences s) mf"
    proof (cases "env_kthread env")
      case (Inl e)
      then show ?thesis using send km Some unfolding send_with_fence_def
        by (intro exI [of _ "kfree_awaiter a m1"]) (auto simp: Let_def bind_eq_Some_conv split: if_splits)
    next
      case (Inr tk)
      then obtain g ret2 m2 where tr: "edgetpu_device_group_track_fence_task g tk m1 = (ret2, m2)" "ret2 \<noteq> 0"
        and fin: "task = None" "m' = err_put_out_fence_array (sa_fence args) (sa_ikv_resp args) p (is_in_fences s) (is_out_fences s)
          (kfree_awaiter a (ikv_act [Kthread_Stop tk] m2))"
        using send km Some unfolding send_with_fence_def by (cases "is_group s") (auto simp: Let_def bind_eq_Some_conv split: if_splits prod.splits)
      have "tables (ikv_act [Kthread_Stop tk] m2) = tables m1" using track_fail_tables [OF tr] by simp
      then show ?thesis using fin kfree_awaiter_tables by blast
    qed
    then show ?thesis using n by (auto simp: err_tables) (auto simp: tables_def)
  qed
qed

text \<open>
  C13: A command that could not be sent leaves no trace. Whenever sending fails, be it for lack of power,
  credits or memory, for a fence or because the mailbox refused the command, no response, list entry,
  awaiter or waiting thread remains and the group has all its credits and tasks as before.
\<close>

theorem failed_send_leaves_no_trace:
  assumes reach: "ikv_reachable fw submit polls N (m, ts)" and fw: "firmware_only fw" and env: "errors_nonzero env info"
    and send: "edgetpu_device_group_send_vii_command (ikv_mailbox_ops fw submit polls) env g cmd i u f info rel m = Some (ret, task, m')"
      "ret \<noteq> 0"
  shows "task = None \<and> ikv_resps (mb_data m') = ikv_resps (mb_data m) \<and> ikv_lists (mb_data m') = ikv_lists (mb_data m) \<and>
    ikv_groups (mb_data m') = ikv_groups (mb_data m) \<and> awaiters m' = awaiters m"
  using send(1)
proof (cases rule: send_vii_cases)
  case (tried s cmd' m0 m1)
  let ?ops = "ikv_mailbox_ops fw submit polls" and ?d = "next_addr m"
  have inv: "ikv_inv N (Rs m, Ls m, Gs m, awaiters m, ?d) ts" using inv_reachable [OF reach fw] by (simp add: tables_def)
  have "Rs m ?d = None" using inv_bound [OF inv, of ?d] by (cases "Rs m ?d") auto
  moreover have "awaiters m a \<noteq> None \<longrightarrow> a < ?d" for a using inv unfolding ikv_inv_def awaiters_ok_def by simp
  from this [of "Suc (Suc ?d)"] have "awaiters m (Suc (Suc ?d)) = None" by simp
  ultimately have fresh: "Rs m ?d = None" "awaiters m (Suc (Suc ?d)) = None" by simp_all
  have m0: "Rs m0 = Rs m" "Ls m0 = Ls m" "Gs m0 = add_credits g (- 1) (Gs m)" "awaiters m0 = awaiters m" "next_addr m0 = ?d"
    using tried(6) by (simp_all add: tables_def)
  have "task = None \<and> (\<exists>n. tables m1 = (Rs m, Ls m, add_credits g (- 1) (Gs m), awaiters m, n))"
  proof -
    have prep: "Rs m2 = (Rs m)(?d \<mapsto> the (Rs m2 ?d))" "Rs m2 ?d \<noteq> None" "Ls m2 = Ls m" "Gs m2 = add_credits g (- 1) (Gs m)"
      "awaiters m2 = awaiters m" "next_addr m2 = Suc (Suc ?d)" if "prepared s m0 m2" for m2
      using that m0 by (auto simp: prepared_def tables_def)
    have drop: "(Rs m2)(?d := None) = Rs m" if "prepared s m0 m2" for m2
      using prep(1) [OF that] fresh(1) by (metis fun_upd_triv fun_upd_upd)
    consider (early) n where "task = None" "tables m1 = (Rs m, Ls m, add_credits g (- 1) (Gs m), awaiters m, n)"
      | (now) m2 m3 args fe where "prepared s m0 m2" "sa_ikv_resp args = ?d" "do_send_cmd ?ops args m2 = Some (ret, m3)" "task = None"
          "m1 = err_put_out_fence_array fe ?d (Suc ?d) (is_in_fences s) (is_out_fences s) m3"
      | (wait) m2 args where "prepared s m0 m2" "sa_ikv_resp args = ?d" "send_with_fence env s args (Suc ?d) m2 = Some (ret, task, m1)"
      using send_cmd_outcome [OF tried(7)] env tried(4) m0 fresh send(2) unfolding send_outcome_def by (auto simp: tables_eq)
    then show ?thesis
    proof cases
      case now
      obtain r where r: "Rs m2 ?d = Some r" using prep(2) [OF now(1)] by auto
      have "unsent ?d r m2 m3" using do_send_cmd_effect [OF fw now(3), of r] now(2) r fresh(2) prep [OF now(1)] send(2) by simp
      then obtain x n where "tables m3 = ((Rs m2)(?d \<mapsto> r\<lparr>ir_awaiter := x\<rparr>), Ls m2, Gs m2, awaiters m2, n)" unfolding unsent_def by blast
      then have "Rs m3 = (Rs m2)(?d \<mapsto> r\<lparr>ir_awaiter := x\<rparr>)" "Ls m3 = Ls m2" "Gs m3 = Gs m2" "awaiters m3 = awaiters m2" by (simp_all add: tables_def)
      then show ?thesis using now(4) drop [OF now(1)] prep(3-5) [OF now(1)] unfolding now(5) err_tables by simp
    next
      case wait
      from send_with_fence_fail [OF wait(3) send(2)] show ?thesis
        using fresh(2) prep(3-6) [OF wait(1)] drop [OF wait(1)] wait(2) by simp
    qed simp
  qed
  then show ?thesis using send(2) by (auto simp: tried(8) tables_eq tables_of_upd)
qed simp

definition busy_ikv :: ikv_mailbox where
  "busy_ikv = sample_ikv\<lparr>allocs := [True, True, False]\<rparr>"

theorem failed_send_leaves_no_trace_witness:
  "\<exists>m'. edgetpu_device_group_send_vii_command sample_ops sample_env 0 sample_cmd None None None None None busy_ikv = Some (- ENOMEM, None, m') \<and>
     ikv_resps (mb_data m') = ikv_resps (mb_data busy_ikv) \<and> ikv_groups (mb_data m') = ikv_groups (mb_data busy_ikv)"
proof -
  let ?send = "edgetpu_device_group_send_vii_command sample_ops sample_env 0 sample_cmd None None None None None busy_ikv"
  have "map_option (\<lambda>(ret, task, m). (ret, task)) ?send = Some (- ENOMEM, None)" by code_simp
  then obtain m' where m': "?send = Some (- ENOMEM, None, m')" by auto
  have reach: "ikv_reachable (\<lambda>m. m) (\<lambda>_ _. 0) 0 8 (busy_ikv, [])"
    by (rule ikv_reachable.start) (simp add: ikv_start_def busy_ikv_def sample_ikv_def sample_group_def groups_ok_def)
  have "errors_nonzero sample_env None" by (simp add: errors_nonzero_def sample_env_def send_additional_info_def)
  from failed_send_leaves_no_trace [OF reach firmware_only_idle this m'] show ?thesis using m' by auto
qed

section \<open>Paths that go wrong\<close>

text \<open>
  A group that is released drops its pending commands. For a command with an inter-IP fence as a
  proxy, the fence is stopped and its reference dropped, and then once more when the response is freed,
  although the command holds one reference.
\<close>

lemma clear_responses_puts_fence_twice:
  assumes r: "Rs m d = Some r" "ir_iif_dma_fence r = Some f" "ir_awaiter r = Some a" "ir_release_callback r = None"
    and w: "awaiters m a = Some w" "aw_data w = d" "kref w = 3" "timeout_work w = Work_Pending"
    and wl: "wait_list m = Some [\<lparr>wl_async_resp = a, wl_awaiter = Some a\<rparr>]" "async_resps m a = Some y" "resp_ptr y = Some p"
      "resps m p = Some buf"
  shows "\<exists>m'. clear_pending_one (ikv_mailbox_ops fw submit polls) env d m = Some m' \<and> Rs m' d = None \<and>
    ikv_actions (mb_data m') = ikv_actions (mb_data m) @ [Iif_Dma_Fence_Stop f, Iif_Fence_Put f, Fence_Waited (ir_in_fence_array r),
      Fence_Put (ir_out_fence_array r), Fence_Put (ir_in_fence_array r), Iif_Dma_Fence_Stop f, Iif_Fence_Put f, Info_Free d]"
  using assms
  by (simp add: clear_pending_one_def gcip_mailbox_cancel_awaiter_def gcip_mailbox_cancel_timeout_work_def upd_awaiter_def
      gcip_mailbox_awaiter_put_def gcip_mailbox_del_wait_resp_def waiter_matches_def resp_deref_def response_match_def ikv_ops_simps
      edgetpu_ikv_does_response_match_waiter_def gcip_mailbox_awaiter_destroy_def edgetpu_ikv_release_awaiter_data_def kfree_awaiter_def
      ikv_upd_defs Let_def)

text \<open>
  When the memory of the first queue cannot be allocated, the error path of the set-up releases the
  mailbox that was never set up: its wait list is a NULL pointer, and the driver faults instead of
  returning the error.
\<close>

lemma ikv_init_failure_faults:
  assumes "wait_list m = None" "allocs m = []"
  shows "edgetpu_ikv_init ops tmo (Inr True) (Inl e) resp_mem m = None"
  using assms by (simp add: edgetpu_ikv_init_def Let_def kmalloc_ok_def edgetpu_ikv_alloc_queue_def edgetpu_ikv_release_def
      gcip_mailbox_release_def gcip_mailbox_cancel_awaiter_all_def ikv_upd_defs edgetpu_ikv_free_queue_def ikv_set_mem_def)

text \<open>The client id of a response is not cleared before the client sees it.\<close>

lemma vii_response_keeps_client_id:
  assumes "edgetpu_device_group_get_vii_response ops g m = Some (0, Some buf, m')"
  obtains d r where "ikv_resps (mb_data m) d = Some r" "resps m (ir_resp r) = Some buf"
  using assms by (auto simp: edgetpu_device_group_get_vii_response_def Let_def bind_eq_Some_conv list_del_def upd_ikv_def
      split: if_splits list.splits)

end
