(* ===== verification/Gbms_Storage.thy ===== *)
theory Gbms_Storage
  imports Kernel_Prelude "HOL-Library.Monad_Syntax"
begin

text \<open>
  The storage of battery parameters, \<^verbatim>\<open>src/google-modules/bms/gbms_storage.c\<close>: drivers register as
  providers of tagged parameters, and clients read and write a tag without knowing who stores it. The first
  provider that knows a tag is remembered in a cache. A provider that is announced in the device
  tree but not yet there makes an unknown tag a matter of waiting (\<open>EPROBE_DEFER\<close>).

  The callbacks of a provider act on the state \<open>'s\<close> of the devices. A buffer is a list of bytes,
  \<^const>\<open>None\<close> when the pointer is NULL; the result \<^const>\<open>None\<close> of an operation is a fault of the machine.
\<close>

unbundle bit_operations_syntax

section \<open>Providers and the cache\<close>

type_synonym gbms_tag_t = u32
type_synonym buffer = "u8 list option"

record 's gbms_storage_desc =
  dsc_iter :: "(int \<Rightarrow> nat \<Rightarrow> 's \<Rightarrow> int + gbms_tag_t) option"
  dsc_info :: "(gbms_tag_t \<Rightarrow> nat \<Rightarrow> 's \<Rightarrow> int + nat \<times> nat) option"
  dsc_read :: "(gbms_tag_t \<Rightarrow> buffer \<Rightarrow> nat \<Rightarrow> nat \<Rightarrow> 's \<Rightarrow> (int \<times> buffer \<times> 's) option) option"
  dsc_write :: "(gbms_tag_t \<Rightarrow> buffer \<Rightarrow> nat \<Rightarrow> nat \<Rightarrow> 's \<Rightarrow> (int \<times> 's) option) option"
  dsc_fetch :: "(buffer \<Rightarrow> int \<Rightarrow> nat \<Rightarrow> nat \<Rightarrow> 's \<Rightarrow> (int \<times> buffer \<times> 's) option) option"
  dsc_store :: "(buffer \<Rightarrow> int \<Rightarrow> nat \<Rightarrow> nat \<Rightarrow> 's \<Rightarrow> (int \<times> 's) option) option"
  dsc_flush :: "(bool \<Rightarrow> nat \<Rightarrow> 's \<Rightarrow> (int \<times> 's) option) option"
  dsc_read_data :: "(gbms_tag_t \<Rightarrow> buffer \<Rightarrow> nat \<Rightarrow> int \<Rightarrow> nat \<Rightarrow> 's \<Rightarrow> (int \<times> buffer \<times> 's) option) option"
  dsc_write_data :: "(gbms_tag_t \<Rightarrow> buffer \<Rightarrow> nat \<Rightarrow> int \<Rightarrow> nat \<Rightarrow> 's \<Rightarrow> (int \<times> 's) option) option"

record 's gbms_storage_provider =
  prov_name :: string
  prov_dsc :: "'s gbms_storage_desc option"
  prov_offline :: bool
  prov_ptr :: nat

record gbms_cache_entry =
  ce_provider :: nat
  ce_tag :: gbms_tag_t
  ce_count :: nat
  ce_addr :: int

text \<open>
  The static variables. Entries of the cache with one tag are in one bucket of the hash table, newest first,
  which is all that a lookup sees: the table is one list. \<open>gbms_cache_pool\<close> is the number of
  entries left in the pool, \<^const>\<open>None\<close> without a pool. \<open>devices\<close> is the state of the devices.
\<close>

record 's gbms_storage =
  gbms_storage_init_done :: bool
  gbms_providers_count :: nat
  gbms_providers :: "'s gbms_storage_provider list"
  gbms_cache :: "gbms_cache_entry list"
  gbms_cache_pool :: "nat option"
  devices :: 's

definition GBMS_PROVIDER_NAME_MAX :: nat where "GBMS_PROVIDER_NAME_MAX = 32"
definition GBMS_PROVIDERS_MAX :: nat where "GBMS_PROVIDERS_MAX = 6"
definition GBMS_STORAGE_ADDR_INVALID :: int where "GBMS_STORAGE_ADDR_INVALID = - 1"
definition GBMS_STORAGE_INDEX_INVALID :: int where "GBMS_STORAGE_INDEX_INVALID = - 1"

definition empty_provider :: "'s gbms_storage_provider" where
  "empty_provider = \<lparr>prov_name = [], prov_dsc = None, prov_offline = False, prov_ptr = 0\<rparr>"

text \<open>The provider that stands for a device that was not found has no callbacks.\<close>

definition gbms_dummy_dsc :: "'s gbms_storage_desc" where
  "gbms_dummy_dsc = \<lparr>dsc_iter = None, dsc_info = None, dsc_read = None, dsc_write = None, dsc_fetch = None, dsc_store = None,
     dsc_flush = None, dsc_read_data = None, dsc_write_data = None\<rparr>"

section \<open>Tags as text\<close>

definition tag2cstr :: "gbms_tag_t \<Rightarrow> u8 list" where
  "tag2cstr tag = [ucast (drop_bit 24 tag AND 0xff), ucast (drop_bit 16 tag AND 0xff),
     ucast (drop_bit 8 tag AND 0xff), ucast (tag AND 0xff), 0]"

definition cstr2tag :: "u8 list \<Rightarrow> gbms_tag_t" where
  "cstr2tag buff =
     (let tag = ucast (buff ! 0);
          tag = push_bit 8 tag + ucast (buff ! 1);
          tag = push_bit 8 tag + ucast (buff ! 2);
          tag = push_bit 8 tag + ucast (buff ! 3)
      in tag)"

section \<open>The cache\<close>

text \<open>The lookup has an output for the address, and leaves it as it is.\<close>

definition gbms_cache_lookup :: "gbms_tag_t \<Rightarrow> int \<Rightarrow> 's gbms_storage \<Rightarrow> gbms_cache_entry option \<times> int" where
  "gbms_cache_lookup tag addr st = (find (\<lambda>ce. ce_tag ce = tag) (gbms_cache st), addr)"

definition provider_at :: "nat \<Rightarrow> 's gbms_storage \<Rightarrow> 's gbms_storage_provider option" where
  "provider_at i st = (if i < length (gbms_providers st) then Some (gbms_providers st ! i) else None)"

definition gbms_cache_add ::
  "gbms_tag_t \<Rightarrow> nat option \<Rightarrow> 's gbms_storage \<Rightarrow> (gbms_cache_entry option \<times> 's gbms_storage) option" where
  "gbms_cache_add tag slot st = (case (gbms_cache_pool st, slot) of
     (Some (Suc n), Some i) \<Rightarrow> do {
       p \<leftarrow> provider_at i st;
       dsc \<leftarrow> prov_dsc p;
       let entry = \<lparr>ce_provider = i, ce_tag = tag, ce_count = 0, ce_addr = GBMS_STORAGE_ADDR_INVALID\<rparr>;
       let entry = (case (dsc_fetch dsc, dsc_store dsc, dsc_info dsc) of
           (Some _, Some _, Some info) \<Rightarrow> (case info tag (prov_ptr p) (devices st) of
               Inr (addr, count) \<Rightarrow> entry\<lparr>ce_count := count, ce_addr := int addr\<rparr>
             | Inl _ \<Rightarrow> entry)
         | _ \<Rightarrow> entry);
       Some (Some entry, st\<lparr>gbms_cache := entry # gbms_cache st, gbms_cache_pool := Some n\<rparr>) }
   | _ \<Rightarrow> Some (None, st))"

section \<open>Registration\<close>

definition gbms_storage_check_dupes :: "'s gbms_storage_provider \<Rightarrow> int" where
  "gbms_storage_check_dupes provider = 0"

definition gbms_storage_resolve_refs :: "'s gbms_storage_provider \<Rightarrow> int" where
  "gbms_storage_resolve_refs provider = 0"

text \<open>
  \<open>strncmp(slot->name, name, strlen(slot->name)) == 0\<close> holds when the name of the slot is a prefix. The
  loop runs over the slots in use from \<open>index\<close> on.
\<close>

fun find_slot_loop :: "string \<Rightarrow> 's gbms_storage_provider list \<Rightarrow> nat \<Rightarrow> int + nat" where
  "find_slot_loop name [] index = Inr index"
| "find_slot_loop name (p # ps) index =
     (if strn_eq (length (prov_name p)) (prov_name p) name
      then (case prov_dsc p of None \<Rightarrow> Inr index | Some _ \<Rightarrow> Inl (- EBUSY))
      else find_slot_loop name ps (Suc index))"

definition gbms_storage_find_slot :: "string \<Rightarrow> 's gbms_storage \<Rightarrow> int + nat" where
  "gbms_storage_find_slot name st =
     (case find_slot_loop name (take (gbms_providers_count st) (gbms_providers st)) 0 of
        Inl e \<Rightarrow> Inl e
      | Inr index \<Rightarrow> if index = GBMS_PROVIDERS_MAX then Inl (- ENOMEM) else Inr index)"

definition set_provider :: "nat \<Rightarrow> 's gbms_storage_provider \<Rightarrow> 's gbms_storage \<Rightarrow> 's gbms_storage" where
  "set_provider i p st = st\<lparr>gbms_providers := (gbms_providers st)[i := p]\<rparr>"

definition gbms_storage_register_internal ::
  "'s gbms_storage_desc option \<Rightarrow> string option \<Rightarrow> nat \<Rightarrow> 's gbms_storage \<Rightarrow> (int \<times> 's gbms_storage) option" where
  "gbms_storage_register_internal desc name ptr st = (case name of
     None \<Rightarrow> Some (- EINVAL, st)
   | Some name \<Rightarrow>
       if length name \<ge> GBMS_PROVIDER_NAME_MAX then Some (- EINVAL, st)
       else (case gbms_storage_find_slot name st of
          Inl e \<Rightarrow> Some (e, st)
        | Inr index \<Rightarrow> do {
            slot \<leftarrow> provider_at index st;
            let st = set_provider index (slot\<lparr>prov_name := name, prov_dsc := desc, prov_ptr := ptr\<rparr>) st;
            Some (0, if index = gbms_providers_count st
                     then st\<lparr>gbms_providers_count := gbms_providers_count st + 1\<rparr> else st) }))"

definition gbms_storage_register ::
  "'s gbms_storage_desc option \<Rightarrow> string option \<Rightarrow> nat \<Rightarrow> 's gbms_storage \<Rightarrow> (int \<times> 's gbms_storage) option" where
  "gbms_storage_register desc name ptr st =
     (case desc of
        None \<Rightarrow> Some (- EINVAL, st)
      | Some _ \<Rightarrow>
          if \<not> gbms_storage_init_done st then Some (- EPROBE_DEFER, st)
          else gbms_storage_register_internal desc name ptr st)"

section \<open>Reading and writing\<close>

definition set_devices :: "'s \<Rightarrow> 's gbms_storage \<Rightarrow> 's gbms_storage" where
  "set_devices s st = st\<lparr>devices := s\<rparr>"

text \<open>
  The loop over the providers, \<open>for (i = 0, ret = -ENOENT; ret == -ENOENT && i < max; i++)\<close>: the body
  returns the new \<open>ret\<close> and whether the provider has yet to come.
\<close>

fun provider_loop ::
  "(nat \<Rightarrow> 'x \<Rightarrow> (int \<times> bool \<times> 'x) option) \<Rightarrow> nat list \<Rightarrow> bool \<Rightarrow> 'x \<Rightarrow> (int \<times> bool \<times> 'x) option" where
  "provider_loop body [] late_inits x = Some (- ENOENT, late_inits, x)"
| "provider_loop body (i # is) late_inits x = do {
     (ret, late, x) \<leftarrow> body i x;
     if ret = - ENOENT then provider_loop body is (late_inits \<or> late) x
     else Some (ret, late_inits \<or> late, x) }"

definition defer_late :: "bool \<Rightarrow> int \<Rightarrow> int" where
  "defer_late late_inits ret = (if late_inits \<and> ret = - ENOENT then - EPROBE_DEFER else ret)"

definition gbms_cache_read ::
  "gbms_tag_t \<Rightarrow> nat \<Rightarrow> buffer \<times> 's gbms_storage \<Rightarrow> (int \<times> buffer \<times> 's gbms_storage) option" where
  "gbms_cache_read tag count x = (case x of (data, st) \<Rightarrow>
     (case gbms_cache_lookup tag GBMS_STORAGE_ADDR_INVALID st of
        (None, _) \<Rightarrow> Some (- ENOENT, data, st)
      | (Some ce, addr) \<Rightarrow> do {
          slot \<leftarrow> provider_at (ce_provider ce) st;
          if prov_offline slot then Some (- ENODEV, data, st)
          else do {
            dsc \<leftarrow> prov_dsc slot;
            let read = (case dsc_read dsc of
                None \<Rightarrow> Some (- EACCES, data, st)
              | Some rd \<Rightarrow> do {
                  (ret, data, s) \<leftarrow> rd tag data count (prov_ptr slot) (devices st);
                  Some (ret, data, set_devices s st) });
            case dsc_fetch dsc of
              Some fetch \<Rightarrow>
                if addr \<noteq> GBMS_STORAGE_ADDR_INVALID then do {
                  (ret, data, s) \<leftarrow> fetch data addr count (prov_ptr slot) (devices st);
                  Some (ret, data, set_devices s st) }
                else read
            | None \<Rightarrow> read } }))"

definition read_body ::
  "gbms_tag_t \<Rightarrow> nat \<Rightarrow> nat \<Rightarrow> buffer \<times> 's gbms_storage \<Rightarrow> (int \<times> bool \<times> buffer \<times> 's gbms_storage) option" where
  "read_body tag count i x = (case x of (data, st) \<Rightarrow> do {
     p \<leftarrow> provider_at i st;
     case prov_dsc p of
       None \<Rightarrow> Some (- ENOENT, True, data, st)
     | Some dsc \<Rightarrow> (case dsc_read dsc of
           None \<Rightarrow> Some (- ENOENT, False, data, st)
         | Some rd \<Rightarrow> do {
             (ret, data, s) \<leftarrow> rd tag data count (prov_ptr p) (devices st);
             let st = set_devices s st;
             (_, st) \<leftarrow> (if ret \<ge> 0 then gbms_cache_add tag (Some i) st else Some (None, st));
             Some (ret, False, data, st) }) })"

definition gbms_storage_read ::
  "gbms_tag_t \<Rightarrow> buffer \<Rightarrow> nat \<Rightarrow> 's gbms_storage \<Rightarrow> (int \<times> buffer \<times> 's gbms_storage) option" where
  "gbms_storage_read tag data count st =
     (if \<not> gbms_storage_init_done st then Some (- EPROBE_DEFER, data, st)
      else if data = None \<and> count \<noteq> 0 then Some (- EINVAL, data, st)
      else do {
        (ret, data, st) \<leftarrow> gbms_cache_read tag count (data, st);
        if ret = - ENOENT then do {
          (ret, late_inits, data, st) \<leftarrow> provider_loop (read_body tag count) [0..<gbms_providers_count st] False (data, st);
          Some (defer_late late_inits ret, data, st) }
        else Some (ret, data, st) })"

definition read_data_body ::
  "gbms_tag_t \<Rightarrow> nat \<Rightarrow> int \<Rightarrow> nat \<Rightarrow> buffer \<times> 's gbms_storage \<Rightarrow> (int \<times> bool \<times> buffer \<times> 's gbms_storage) option" where
  "read_data_body tag count idx i x = (case x of (data, st) \<Rightarrow> do {
     p \<leftarrow> provider_at i st;
     if prov_offline p then Some (- ENOENT, False, data, st)
     else (case prov_dsc p of
       None \<Rightarrow> Some (- ENOENT, True, data, st)
     | Some dsc \<Rightarrow> (case dsc_read_data dsc of
           None \<Rightarrow> Some (- ENOENT, False, data, st)
         | Some rd \<Rightarrow> do {
             (ret, data, s) \<leftarrow> rd tag data count idx (prov_ptr p) (devices st);
             Some (ret, False, data, set_devices s st) })) })"

definition gbms_storage_read_data ::
  "gbms_tag_t \<Rightarrow> buffer \<Rightarrow> nat \<Rightarrow> int \<Rightarrow> 's gbms_storage \<Rightarrow> (int \<times> buffer \<times> 's gbms_storage) option" where
  "gbms_storage_read_data tag data count idx st =
     (if \<not> gbms_storage_init_done st then Some (- EPROBE_DEFER, data, st)
      else if data = None \<and> count \<noteq> 0 then Some (- EINVAL, data, st)
      else do {
        (ret, late_inits, data, st) \<leftarrow> provider_loop (read_data_body tag count idx) [0..<gbms_providers_count st] False (data, st);
        Some (defer_late late_inits ret, data, st) })"

definition gbms_cache_write ::
  "gbms_tag_t \<Rightarrow> buffer \<Rightarrow> nat \<Rightarrow> 's gbms_storage \<Rightarrow> (int \<times> 's gbms_storage) option" where
  "gbms_cache_write tag data count st =
     (case gbms_cache_lookup tag GBMS_STORAGE_ADDR_INVALID st of
        (None, _) \<Rightarrow> Some (- ENOENT, st)
      | (Some ce, addr) \<Rightarrow> do {
          slot \<leftarrow> provider_at (ce_provider ce) st;
          if prov_offline slot then Some (- ENODEV, st)
          else do {
            dsc \<leftarrow> prov_dsc slot;
            let write = (case dsc_write dsc of
                None \<Rightarrow> Some (- EACCES, st)
              | Some wr \<Rightarrow> do {
                  (ret, s) \<leftarrow> wr tag data count (prov_ptr slot) (devices st);
                  Some (ret, set_devices s st) });
            case dsc_store dsc of
              Some store \<Rightarrow>
                if addr \<noteq> GBMS_STORAGE_ADDR_INVALID then do {
                  (ret, s) \<leftarrow> store data addr count (prov_ptr slot) (devices st);
                  Some (ret, set_devices s st) }
                else write
            | None \<Rightarrow> write } })"

definition write_body ::
  "gbms_tag_t \<Rightarrow> buffer \<Rightarrow> nat \<Rightarrow> nat \<Rightarrow> 's gbms_storage \<Rightarrow> (int \<times> bool \<times> 's gbms_storage) option" where
  "write_body tag data count i st = do {
     p \<leftarrow> provider_at i st;
     if prov_offline p then Some (- ENOENT, False, st)
     else (case prov_dsc p of
       None \<Rightarrow> Some (- ENOENT, True, st)
     | Some dsc \<Rightarrow> (case dsc_write dsc of
           None \<Rightarrow> Some (- ENOENT, False, st)
         | Some wr \<Rightarrow> do {
             (ret, s) \<leftarrow> wr tag data count (prov_ptr p) (devices st);
             let st = set_devices s st;
             (_, st) \<leftarrow> (if ret \<ge> 0 then gbms_cache_add tag (Some i) st else Some (None, st));
             Some (ret, False, st) })) }"

definition gbms_storage_write ::
  "gbms_tag_t \<Rightarrow> buffer \<Rightarrow> nat \<Rightarrow> 's gbms_storage \<Rightarrow> (int \<times> 's gbms_storage) option" where
  "gbms_storage_write tag data count st =
     (if \<not> gbms_storage_init_done st then Some (- EPROBE_DEFER, st)
      else if data = None \<and> count \<noteq> 0 then Some (- EINVAL, st)
      else do {
        (ret, st) \<leftarrow> gbms_cache_write tag data count st;
        if ret = - ENOENT then do {
          (ret, late_inits, st) \<leftarrow> provider_loop (write_body tag data count) [0..<gbms_providers_count st] False st;
          Some (defer_late late_inits ret, st) }
        else Some (ret, st) })"

definition write_data_body ::
  "gbms_tag_t \<Rightarrow> buffer \<Rightarrow> nat \<Rightarrow> int \<Rightarrow> nat \<Rightarrow> 's gbms_storage \<Rightarrow> (int \<times> bool \<times> 's gbms_storage) option" where
  "write_data_body tag data count idx i st = do {
     p \<leftarrow> provider_at i st;
     if prov_offline p then Some (- ENOENT, False, st)
     else (case prov_dsc p of
       None \<Rightarrow> Some (- ENOENT, True, st)
     | Some dsc \<Rightarrow> (case dsc_write_data dsc of
           None \<Rightarrow> Some (- ENOENT, False, st)
         | Some wr \<Rightarrow> do {
             (ret, s) \<leftarrow> wr tag data count idx (prov_ptr p) (devices st);
             Some (ret, False, set_devices s st) })) }"

definition gbms_storage_write_data ::
  "gbms_tag_t \<Rightarrow> buffer \<Rightarrow> nat \<Rightarrow> int \<Rightarrow> 's gbms_storage \<Rightarrow> (int \<times> 's gbms_storage) option" where
  "gbms_storage_write_data tag data count idx st =
     (if \<not> gbms_storage_init_done st then Some (- EPROBE_DEFER, st)
      else if data = None \<and> count \<noteq> 0 then Some (- EINVAL, st)
      else do {
        (ret, late_inits, st) \<leftarrow> provider_loop (write_data_body tag data count idx) [0..<gbms_providers_count st] False st;
        Some (defer_late late_inits ret, st) })"

section \<open>Flushing and going offline\<close>

definition gbms_storage_flush_provider :: "nat \<Rightarrow> bool \<Rightarrow> 's gbms_storage \<Rightarrow> (int \<times> 's gbms_storage) option" where
  "gbms_storage_flush_provider i force st = do {
     slot \<leftarrow> provider_at i st;
     if prov_offline slot then Some (0, st)
     else (case prov_dsc slot of
         None \<Rightarrow> Some (0, st)
       | Some dsc \<Rightarrow> (case dsc_flush dsc of
           None \<Rightarrow> Some (0, st)
         | Some flush \<Rightarrow> do {
             (ret, s) \<leftarrow> flush force (prov_ptr slot) (devices st);
             Some (ret, set_devices s st) })) }"

fun flush_loop :: "bool \<Rightarrow> nat list \<Rightarrow> bool \<Rightarrow> 's gbms_storage \<Rightarrow> (bool \<times> 's gbms_storage) option" where
  "flush_loop force [] success st = Some (success, st)"
| "flush_loop force (i # is) success st = do {
     (ret, st) \<leftarrow> gbms_storage_flush_provider i force st;
     flush_loop force is (success \<and> 0 \<le> ret) st }"

definition gbms_storage_flush_all_internal :: "bool \<Rightarrow> 's gbms_storage \<Rightarrow> (int \<times> 's gbms_storage) option" where
  "gbms_storage_flush_all_internal force st = do {
     (success, st) \<leftarrow> flush_loop force [0..<gbms_providers_count st] True st;
     Some (if success then 0 else - EIO, st) }"

definition gbms_storage_flush_all :: "'s gbms_storage \<Rightarrow> (int \<times> 's gbms_storage) option" where
  "gbms_storage_flush_all st =
     (if \<not> gbms_storage_init_done st then Some (- EPROBE_DEFER, st)
      else gbms_storage_flush_all_internal False st)"

definition gbms_storage_offline :: "string \<Rightarrow> bool \<Rightarrow> 's gbms_storage \<Rightarrow> (int \<times> 's gbms_storage) option" where
  "gbms_storage_offline name flush st =
     (if \<not> gbms_storage_init_done st then Some (- EPROBE_DEFER, st)
      else (case gbms_storage_find_slot name st of
         Inl e \<Rightarrow> Some (e, st)
       | Inr index \<Rightarrow> do {
           (ret, st) \<leftarrow> (if flush then gbms_storage_flush_provider index False st else Some (0, st));
           p \<leftarrow> provider_at index st;
           Some (ret, if ret = 0 then set_provider index (p\<lparr>prov_offline := True\<rparr>) st else st) }))"

end
