(* ===== verification/Google_Eeprom.thy ===== *)
theory Google_Eeprom
  imports Gbms_Storage
begin

text \<open>
  The memory in the battery pack as a provider of parameters: \<^verbatim>\<open>google_eeprom.c\<close>, \<^verbatim>\<open>google_eeprom_01.c\<close> and
  \<^verbatim>\<open>google_eeprom_02.c\<close> under \<^verbatim>\<open>src/google-modules/bms\<close>. Three layouts place the tags in the memory; the
  layout that is in use is the descriptor \<open>gbee_desc\<close>. The memory is read and written through the
  kernel's \<open>nvmem\<close> interface: an access returns the number of bytes or an error, and an access outside the
  memory is refused by the driver of the chip.
\<close>

unbundle bit_operations_syntax

section \<open>The memory\<close>

text \<open>\<open>nv_errors\<close> are the results of the coming accesses, as far as they fail: a negative error, or 0.\<close>

record nvmem_device =
  nv_bytes :: "u8 list"
  nv_errors :: "int list"

definition nvmem_access :: "nat \<Rightarrow> nat \<Rightarrow> nvmem_device \<Rightarrow> int \<times> nvmem_device" where
  "nvmem_access offset n nv = (case nv_errors nv of
     [] \<Rightarrow> (if offset + n \<le> length (nv_bytes nv) then int n else - EINVAL, nv)
   | e # es \<Rightarrow> (if e < 0 then e else if offset + n \<le> length (nv_bytes nv) then int n else - EINVAL, nv\<lparr>nv_errors := es\<rparr>))"

definition nvmem_device_read :: "nat \<Rightarrow> nat \<Rightarrow> nvmem_device \<Rightarrow> int \<times> u8 list \<times> nvmem_device" where
  "nvmem_device_read offset n nv = (case nvmem_access offset n nv of
     (ret, nv) \<Rightarrow> (ret, if ret < 0 then [] else take n (drop offset (nv_bytes nv)), nv))"

definition nvmem_device_write :: "nat \<Rightarrow> u8 list \<Rightarrow> nvmem_device \<Rightarrow> int \<times> nvmem_device" where
  "nvmem_device_write offset bs nv = (case nvmem_access offset (length bs) nv of
     (ret, nv) \<Rightarrow> (ret, if ret < 0 then nv
       else nv\<lparr>nv_bytes := take offset (nv_bytes nv) @ bs @ drop (offset + length bs) (nv_bytes nv)\<rparr>))"

datatype gbee_dsc = Gbee_Storage_Dsc | Gbee_Storage01_Dsc | Gbee_Storage02_Dsc

record gbee =
  gbee_nvram :: nvmem_device
  gbee_desc :: "gbee_dsc option"

section \<open>Layouts\<close>

abbreviation (input) GBMS_TAG_MINF :: gbms_tag_t where "GBMS_TAG_MINF \<equiv> 0x4d494e46"
abbreviation (input) GBMS_TAG_DINF :: gbms_tag_t where "GBMS_TAG_DINF \<equiv> 0x44494e46"
abbreviation (input) GBMS_TAG_HIST :: gbms_tag_t where "GBMS_TAG_HIST \<equiv> 0x48495354"
abbreviation (input) GBMS_TAG_SNUM :: gbms_tag_t where "GBMS_TAG_SNUM \<equiv> 0x534e554d"
abbreviation (input) GBMS_TAG_BGPN :: gbms_tag_t where "GBMS_TAG_BGPN \<equiv> 0x4247504e"
abbreviation (input) GBMS_TAG_GMSR :: gbms_tag_t where "GBMS_TAG_GMSR \<equiv> 0x474d5352"
abbreviation (input) GBMS_TAG_BCNT :: gbms_tag_t where "GBMS_TAG_BCNT \<equiv> 0x42434e54"
abbreviation (input) GBMS_TAG_CNHS :: gbms_tag_t where "GBMS_TAG_CNHS \<equiv> 0x434e4853"
abbreviation (input) GBMS_TAG_LOTR :: gbms_tag_t where "GBMS_TAG_LOTR \<equiv> 0x4c4f5452"
abbreviation (input) GBMS_TAG_SELC :: gbms_tag_t where "GBMS_TAG_SELC \<equiv> 0x53454c43"
abbreviation (input) GBMS_TAG_CELC :: gbms_tag_t where "GBMS_TAG_CELC \<equiv> 0x43454c43"
abbreviation (input) GBMS_TAG_STRD :: gbms_tag_t where "GBMS_TAG_STRD \<equiv> 0x53545244"
abbreviation (input) GBMS_TAG_ACIM :: gbms_tag_t where "GBMS_TAG_ACIM \<equiv> 0x4143494d"
abbreviation (input) GBMS_TAG_GCFE :: gbms_tag_t where "GBMS_TAG_GCFE \<equiv> 0x47434645"
abbreviation (input) GBMS_TAG_RAVG :: gbms_tag_t where "GBMS_TAG_RAVG \<equiv> 0x52415647"
abbreviation (input) GBMS_TAG_RFCN :: gbms_tag_t where "GBMS_TAG_RFCN \<equiv> 0x5246434e"
abbreviation (input) GBMS_TAG_THAS :: gbms_tag_t where "GBMS_TAG_THAS \<equiv> 0x54484153"
abbreviation (input) GBMS_TAG_AYMD :: gbms_tag_t where "GBMS_TAG_AYMD \<equiv> 0x41594d44"
abbreviation (input) GBMS_TAG_MYMD :: gbms_tag_t where "GBMS_TAG_MYMD \<equiv> 0x4d594d44"
abbreviation (input) GBMS_TAG_FCRU :: gbms_tag_t where "GBMS_TAG_FCRU \<equiv> 0x46435255"
abbreviation (input) GBMS_TAG_FGST :: gbms_tag_t where "GBMS_TAG_FGST \<equiv> 0x46475354"
abbreviation (input) GBMS_TAG_BRID :: gbms_tag_t where "GBMS_TAG_BRID \<equiv> 0x42524944"
abbreviation (input) GBMS_TAG_AAWC :: gbms_tag_t where "GBMS_TAG_AAWC \<equiv> 0x41415743"
abbreviation (input) GBMS_TAG_BPST :: gbms_tag_t where "GBMS_TAG_BPST \<equiv> 0x42505354"

text \<open>The cases of the switch statements, with offset and length.\<close>

definition gbee_storage_cases :: "(gbms_tag_t \<times> nat \<times> nat) list" where
  "gbee_storage_cases =
    [(GBMS_TAG_MINF, 0x00, 30), (GBMS_TAG_DINF, 0x3EE, 16), (GBMS_TAG_HIST, 0x5E, 12), (GBMS_TAG_SNUM, 0x03, 10),
     (GBMS_TAG_BGPN, 0x03, 10), (GBMS_TAG_GMSR, 0x42, 23), (GBMS_TAG_BCNT, 0x2E, 20), (GBMS_TAG_CNHS, 0x5A, 2),
     (GBMS_TAG_LOTR, 0x59, 1), (GBMS_TAG_SELC, 0x5C, 1), (GBMS_TAG_CELC, 0x5D, 1), (GBMS_TAG_STRD, 0x1E, 12),
     (GBMS_TAG_ACIM, 0x2C, 2), (GBMS_TAG_GCFE, 0x3E8, 2), (GBMS_TAG_RAVG, 0x3EA, 2), (GBMS_TAG_RFCN, 0x3EC, 2),
     (GBMS_TAG_THAS, 0x3FE, 2), (GBMS_TAG_AYMD, 0x3E5, 3), (GBMS_TAG_MYMD, 0x0F, 3), (GBMS_TAG_FCRU, 0x3E2, 2),
     (GBMS_TAG_FGST, 0x3E4, 1)]"

definition gbee_storage01_cases :: "(gbms_tag_t \<times> nat \<times> nat) list" where
  "gbee_storage01_cases = [(GBMS_TAG_BPST, 0x5E, 1), (GBMS_TAG_HIST, 0x64, 12)]"

definition gbee_storage02_cases :: "(gbms_tag_t \<times> nat \<times> nat) list" where
  "gbee_storage02_cases =
    [(GBMS_TAG_DINF, 0x1FEE, 16), (GBMS_TAG_HIST, 0x5E, 12), (GBMS_TAG_GCFE, 0x1FE8, 2), (GBMS_TAG_RAVG, 0x1FEA, 2),
     (GBMS_TAG_RFCN, 0x1FEC, 2), (GBMS_TAG_THAS, 0x1FFE, 2), (GBMS_TAG_AYMD, 0x1FE5, 3), (GBMS_TAG_FGST, 0x1FE4, 1),
     (GBMS_TAG_FCRU, 0x1FE2, 2), (GBMS_TAG_AAWC, 0x1FDE, 4)]"

definition gbee_storage_info :: "gbms_tag_t \<Rightarrow> int + nat \<times> nat" where
  "gbee_storage_info tag = (case map_of gbee_storage_cases tag of
     Some ac \<Rightarrow> Inr ac | None \<Rightarrow> Inl (- ENOENT))"

definition gbee_storage01_info :: "gbms_tag_t \<Rightarrow> int + nat \<times> nat" where
  "gbee_storage01_info tag = (case map_of gbee_storage01_cases tag of
     Some ac \<Rightarrow> Inr ac | None \<Rightarrow> gbee_storage_info tag)"

definition gbee_storage02_info :: "gbms_tag_t \<Rightarrow> int + nat \<times> nat" where
  "gbee_storage02_info tag = (case map_of gbee_storage02_cases tag of
     Some ac \<Rightarrow> Inr ac | None \<Rightarrow> gbee_storage_info tag)"

definition GBEE_STORAGE_INFO :: "gbms_tag_t \<Rightarrow> gbee \<Rightarrow> int + nat \<times> nat" where
  "GBEE_STORAGE_INFO tag s = (case gbee_desc s of
     Some Gbee_Storage01_Dsc \<Rightarrow> gbee_storage01_info tag
   | Some Gbee_Storage02_Dsc \<Rightarrow> gbee_storage02_info tag
   | _ \<Rightarrow> gbee_storage_info tag)"

definition iter_keys :: "gbms_tag_t list \<Rightarrow> int \<Rightarrow> int + gbms_tag_t" where
  "iter_keys keys index = (if index < 0 \<or> index \<ge> int (length keys) then Inl (- ENOENT) else Inr (keys ! nat index))"

definition gbee_storage_iter :: "int \<Rightarrow> int + gbms_tag_t" where
  "gbee_storage_iter = iter_keys
    [GBMS_TAG_BGPN, GBMS_TAG_MINF, GBMS_TAG_DINF, GBMS_TAG_HIST, GBMS_TAG_BRID, GBMS_TAG_SNUM,
     GBMS_TAG_GMSR, GBMS_TAG_BCNT, GBMS_TAG_CNHS, GBMS_TAG_SELC, GBMS_TAG_CELC, GBMS_TAG_LOTR,
     GBMS_TAG_STRD, GBMS_TAG_ACIM, GBMS_TAG_GCFE, GBMS_TAG_RAVG, GBMS_TAG_RFCN, GBMS_TAG_THAS,
     GBMS_TAG_AYMD, GBMS_TAG_MYMD, GBMS_TAG_FGST, GBMS_TAG_FCRU, GBMS_TAG_AAWC]"

definition gbee_storage01_iter :: "int \<Rightarrow> int + gbms_tag_t" where
  "gbee_storage01_iter = iter_keys
    [GBMS_TAG_BGPN, GBMS_TAG_MINF, GBMS_TAG_DINF, GBMS_TAG_HIST, GBMS_TAG_BRID, GBMS_TAG_SNUM,
     GBMS_TAG_GMSR, GBMS_TAG_BCNT, GBMS_TAG_CNHS, GBMS_TAG_SELC, GBMS_TAG_CELC, GBMS_TAG_LOTR,
     GBMS_TAG_BPST, GBMS_TAG_STRD]"

section \<open>Tags\<close>

text \<open>Copying into a buffer of the caller; a NULL pointer or a short buffer is a fault.\<close>

definition buf_store :: "u8 list \<Rightarrow> buffer \<Rightarrow> buffer option" where
  "buf_store bs buff = (case buff of
     None \<Rightarrow> if bs = [] then Some None else None
   | Some b \<Rightarrow> if length bs \<le> length b then Some (Some (bs @ drop (length bs) b)) else None)"

definition gbee_storage_read ::
  "gbms_tag_t \<Rightarrow> buffer \<Rightarrow> nat \<Rightarrow> nat \<Rightarrow> gbee \<Rightarrow> (int \<times> buffer \<times> gbee) option" where
  "gbee_storage_read tag buff n ptr s =
     (if tag = GBMS_TAG_BRID then
        if n \<noteq> 4 then Some (- ENOMEM, buff, s)
        else (case nvmem_device_read 0x17 1 (gbee_nvram s) of (ret, bs, nv) \<Rightarrow>
          if ret < 0 then Some (ret, buff, s\<lparr>gbee_nvram := nv\<rparr>)
          else do { buff \<leftarrow> buf_store (bs @ [0, 0, 0]) buff; Some (0, buff, s\<lparr>gbee_nvram := nv\<rparr>) })
      else (case GBEE_STORAGE_INFO tag s of
        Inl e \<Rightarrow> Some (e, buff, s)
      | Inr (offset, len) \<Rightarrow>
          if len = 0 then Some (- ENOENT, buff, s)
          else if len > n then Some (- ENOMEM, buff, s)
          else (case nvmem_device_read offset len (gbee_nvram s) of (ret, bs, nv) \<Rightarrow> do {
            buff \<leftarrow> (if ret < 0 then Some buff else buf_store bs buff);
            Some (if ret = 0 then int len else ret, buff, s\<lparr>gbee_nvram := nv\<rparr>) })))"

definition gbee_storage_is_writable :: "gbms_tag_t \<Rightarrow> bool" where
  "gbee_storage_is_writable tag \<longleftrightarrow> tag \<in> set
    [GBMS_TAG_DINF, GBMS_TAG_GMSR, GBMS_TAG_BCNT, GBMS_TAG_CNHS, GBMS_TAG_SELC, GBMS_TAG_CELC,
     GBMS_TAG_BPST, GBMS_TAG_STRD, GBMS_TAG_ACIM, GBMS_TAG_GCFE, GBMS_TAG_RAVG, GBMS_TAG_RFCN,
     GBMS_TAG_THAS, GBMS_TAG_AYMD, GBMS_TAG_FGST, GBMS_TAG_FCRU, GBMS_TAG_AAWC]"

text \<open>Bytes are written one at a time; the first error ends the loop.\<close>

fun nvmem_write_bytes :: "nat \<Rightarrow> u8 list \<Rightarrow> nvmem_device \<Rightarrow> int \<times> nvmem_device" where
  "nvmem_write_bytes offset [] nv = (0, nv)"
| "nvmem_write_bytes offset (b # bs) nv = (case nvmem_device_write offset [b] nv of
     (ret, nv) \<Rightarrow> if ret < 0 then (ret, nv) else nvmem_write_bytes (Suc offset) bs nv)"

definition buf_take :: "nat \<Rightarrow> buffer \<Rightarrow> u8 list option" where
  "buf_take n buff = (case buff of
     None \<Rightarrow> if n = 0 then Some [] else None
   | Some b \<Rightarrow> if n \<le> length b then Some (take n b) else None)"

definition gbee_storage_write ::
  "gbms_tag_t \<Rightarrow> buffer \<Rightarrow> nat \<Rightarrow> nat \<Rightarrow> gbee \<Rightarrow> (int \<times> gbee) option" where
  "gbee_storage_write tag buff n ptr s =
     (if \<not> gbee_storage_is_writable tag then Some (- ENOENT, s)
      else (case GBEE_STORAGE_INFO tag s of
        Inl e \<Rightarrow> Some (e, s)
      | Inr (offset, len) \<Rightarrow>
          if n > len then Some (- ENOMEM, s)
          else do {
            bs \<leftarrow> buf_take n buff;
            case nvmem_write_bytes offset bs (gbee_nvram s) of
              (ret, nv) \<Rightarrow> Some (if ret < 0 then ret else int n, s\<lparr>gbee_nvram := nv\<rparr>) }))"

section \<open>History\<close>

definition BATT_ONE_HIST_LEN :: nat where "BATT_ONE_HIST_LEN = 12"
definition BATT_MAX_HIST_CNT :: int where "BATT_MAX_HIST_CNT = 75"
definition BATT_MAX_HIST_CNT_02 :: int where "BATT_MAX_HIST_CNT_02 = 200"

definition hist_read ::
  "int \<Rightarrow> (gbms_tag_t \<Rightarrow> gbee \<Rightarrow> int + nat \<times> nat) \<Rightarrow> gbms_tag_t \<Rightarrow> buffer \<Rightarrow> nat \<Rightarrow> int \<Rightarrow> gbee \<Rightarrow> (int \<times> buffer \<times> gbee) option" where
  "hist_read max_cnt info tag data count idx s =
     (case (if tag = GBMS_TAG_HIST then info tag s else Inl (- ENOENT)) of
        Inl e \<Rightarrow> Some (e, data, s)
      | Inr (offset, len) \<Rightarrow>
          if data = None \<or> count = 0 then
            Some (if idx = GBMS_STORAGE_INDEX_INVALID then 0 else max_cnt, data, s)
          else if idx < 0 then Some (- EINVAL, data, s)
          else if idx \<ge> max_cnt then Some (- ENODATA, data, s)
          else if len > count then Some (- EINVAL, data, s)
          else (case nvmem_device_read (offset + len * nat idx) len (gbee_nvram s) of (ret, bs, nv) \<Rightarrow> do {
            data \<leftarrow> (if ret < 0 then Some data else buf_store bs data);
            Some (if ret = 0 then int len else ret, data, s\<lparr>gbee_nvram := nv\<rparr>) }))"

definition gbee_storage_read_data ::
  "gbms_tag_t \<Rightarrow> buffer \<Rightarrow> nat \<Rightarrow> int \<Rightarrow> nat \<Rightarrow> gbee \<Rightarrow> (int \<times> buffer \<times> gbee) option" where
  "gbee_storage_read_data tag data count idx ptr s = hist_read BATT_MAX_HIST_CNT GBEE_STORAGE_INFO tag data count idx s"

definition gbee_storage_read_data_02 ::
  "gbms_tag_t \<Rightarrow> buffer \<Rightarrow> nat \<Rightarrow> int \<Rightarrow> nat \<Rightarrow> gbee \<Rightarrow> (int \<times> buffer \<times> gbee) option" where
  "gbee_storage_read_data_02 tag data count idx ptr s =
     hist_read BATT_MAX_HIST_CNT_02 (\<lambda>tag s. gbee_storage02_info tag) tag data count idx s"

text \<open>The loop copies the length of an entry, whatever the length of the buffer is.\<close>

definition gbee_storage_write_data ::
  "gbms_tag_t \<Rightarrow> buffer \<Rightarrow> nat \<Rightarrow> int \<Rightarrow> nat \<Rightarrow> gbee \<Rightarrow> (int \<times> gbee) option" where
  "gbee_storage_write_data tag data count idx ptr s =
     (case (if tag = GBMS_TAG_HIST then GBEE_STORAGE_INFO tag s else Inl (- ENOENT)) of
        Inl e \<Rightarrow> Some (e, s)
      | Inr (offset, len) \<Rightarrow>
          if idx < 0 \<or> data = None \<or> count = 0 then Some (- EINVAL, s)
          else if idx \<ge> BATT_MAX_HIST_CNT then Some (- ENODATA, s)
          else if count > len then Some (- EINVAL, s)
          else do {
            bs \<leftarrow> buf_take len data;
            case nvmem_write_bytes (offset + len * nat idx) bs (gbee_nvram s) of
              (ret, nv) \<Rightarrow> Some (if ret < 0 then ret else int len, s\<lparr>gbee_nvram := nv\<rparr>) })"

definition gbee_storage_dsc :: "gbee gbms_storage_desc" where
  "gbee_storage_dsc = gbms_dummy_dsc\<lparr>
     dsc_info := Some (\<lambda>tag ptr s. gbee_storage_info tag), dsc_iter := Some (\<lambda>i ptr s. gbee_storage_iter i),
     dsc_read := Some gbee_storage_read, dsc_write := Some gbee_storage_write,
     dsc_read_data := Some gbee_storage_read_data, dsc_write_data := Some gbee_storage_write_data\<rparr>"

definition gbee_storage01_dsc :: "gbee gbms_storage_desc" where
  "gbee_storage01_dsc = gbms_dummy_dsc\<lparr>
     dsc_info := Some (\<lambda>tag ptr s. gbee_storage01_info tag), dsc_iter := Some (\<lambda>i ptr s. gbee_storage01_iter i),
     dsc_read := Some gbee_storage_read, dsc_write := Some gbee_storage_write,
     dsc_read_data := Some gbee_storage_read_data, dsc_write_data := Some gbee_storage_write_data\<rparr>"

definition gbee_storage02_dsc :: "gbee gbms_storage_desc" where
  "gbee_storage02_dsc = gbms_dummy_dsc\<lparr>
     dsc_info := Some (\<lambda>tag ptr s. gbee_storage02_info tag), dsc_iter := Some (\<lambda>i ptr s. gbee_storage_iter i),
     dsc_read := Some gbee_storage_read, dsc_write := Some gbee_storage_write,
     dsc_read_data := Some gbee_storage_read_data_02, dsc_write_data := Some gbee_storage_write_data\<rparr>"

section \<open>Change of layout\<close>

text \<open>The used entries of the history, up to the first whose first byte is 0xff; \<open>ret\<close> is that of the last read.\<close>

fun hist_collect :: "nat \<Rightarrow> nat \<Rightarrow> int \<Rightarrow> nvmem_device \<Rightarrow> (int \<times> u8 list \<times> nvmem_device) option" where
  "hist_collect 0 from ret nv = Some (ret, [], nv)"
| "hist_collect (Suc k) from ret nv = (case nvmem_device_read from BATT_ONE_HIST_LEN nv of (ret, bs, nv) \<Rightarrow>
     if ret < 0 then Some (ret, [], nv)
     else (case bs of
        [] \<Rightarrow> None
      | b # _ \<Rightarrow>
          if b = 0xff then Some (ret, [], nv)
          else do {
            (ret, rest, nv) \<leftarrow> hist_collect k (from + BATT_ONE_HIST_LEN) ret nv;
            Some (ret, if ret < 0 then [] else bs @ rest, nv) }))"

text \<open>\<open>alloc\<close> tells whether the buffer was allocated.\<close>

definition gbms_hist_move :: "bool \<Rightarrow> nat \<Rightarrow> nat \<Rightarrow> nvmem_device \<Rightarrow> (int \<times> nvmem_device) option" where
  "gbms_hist_move alloc from to nv =
     (if \<not> alloc then Some (- ENOMEM, nv)
      else do {
        (ret, buff, nv) \<leftarrow> hist_collect (nat BATT_MAX_HIST_CNT) from 0 nv;
        Some (if ret < 0 \<or> buff = [] then (ret, nv) else nvmem_device_write to buff nv) })"

definition gbms_lotr_update_to_v1 :: "bool \<Rightarrow> nvmem_device \<Rightarrow> (int \<times> nvmem_device) option" where
  "gbms_lotr_update_to_v1 alloc nv = do {
     (ret, nv) \<leftarrow> gbms_hist_move alloc 0x5E 0x64 nv;
     if ret < 0 then Some (ret, nv)
     else (case nvmem_device_write 0x5E (replicate 5 0) nv of (ret, nv) \<Rightarrow>
       Some (if ret \<noteq> 5 then (if ret < 0 then ret else - EINVAL) else ret, nv)) }"

text \<open>The loop runs from 0x3E2 up to, and not including, 0x3FF; it returns what the last write returned.\<close>

definition gbms_lotr_update_to_v2 :: "nvmem_device \<Rightarrow> int \<times> nvmem_device" where
  "gbms_lotr_update_to_v2 nv = (case nvmem_write_bytes 0x3E2 (replicate (0x3FF - 0x3E2) 0xff) nv of
     (ret, nv) \<Rightarrow> (if ret < 0 then ret else 1, nv))"

definition GBMS_LOTR_DEFAULT :: int where "GBMS_LOTR_DEFAULT = 0xff"
definition GBMS_LOTR_V1 :: int where "GBMS_LOTR_V1 = 1"
definition GBMS_LOTR_V2 :: int where "GBMS_LOTR_V2 = 2"

definition lotr_write :: "int \<Rightarrow> int \<times> nvmem_device \<Rightarrow> int \<times> nvmem_device" where
  "lotr_write lotr_to x = (case x of (ret, nv) \<Rightarrow>
     if ret < 0 then (0, nv) else nvmem_device_write 0x59 [word_of_int lotr_to] nv)"

definition gbms_lotr_update :: "bool \<Rightarrow> int \<Rightarrow> nvmem_device \<Rightarrow> (int \<times> nvmem_device) option" where
  "gbms_lotr_update alloc lotr_to nv = (case nvmem_device_read 0x59 1 nv of (ret, bs, nv) \<Rightarrow>
     let lotr_from = (case bs of [] \<Rightarrow> 0 | b # _ \<Rightarrow> uint b) in
     if ret < 0 \<or> lotr_from = lotr_to then Some (ret, nv)
     else if lotr_to = GBMS_LOTR_V1 \<and> lotr_from = GBMS_LOTR_DEFAULT then
       map_option (lotr_write lotr_to) (gbms_lotr_update_to_v1 alloc nv)
     else if lotr_to = GBMS_LOTR_V2 \<and> lotr_from \<noteq> GBMS_LOTR_V2 then
       Some (lotr_write lotr_to (gbms_lotr_update_to_v2 nv))
     else Some (0, nv))"

definition gbms_lotr_2_dsc :: "int \<Rightarrow> gbee_dsc" where
  "gbms_lotr_2_dsc lotr_ver =
     (if lotr_ver = GBMS_LOTR_V1 then Gbee_Storage01_Dsc
      else if lotr_ver = GBMS_LOTR_V2 then Gbee_Storage02_Dsc else Gbee_Storage_Dsc)"

definition gbee_desc_of :: "gbee_dsc \<Rightarrow> gbee gbms_storage_desc" where
  "gbee_desc_of d = (case d of Gbee_Storage_Dsc \<Rightarrow> gbee_storage_dsc
     | Gbee_Storage01_Dsc \<Rightarrow> gbee_storage01_dsc | Gbee_Storage02_Dsc \<Rightarrow> gbee_storage02_dsc)"

definition gbee_register_device :: "bool \<Rightarrow> string option \<Rightarrow> int \<Rightarrow> gbee gbms_storage \<Rightarrow> (int \<times> gbee gbms_storage) option" where
  "gbee_register_device alloc name lotr st = do {
     let d = gbms_lotr_2_dsc lotr;
     (ret, nv) \<leftarrow> gbms_lotr_update alloc lotr (gbee_nvram (devices st));
     let fail = (\<lambda>ret st. Some (ret, set_devices ((devices st)\<lparr>gbee_desc := None\<rparr>) st));
     let st = set_devices ((devices st)\<lparr>gbee_nvram := nv, gbee_desc := Some d\<rparr>) st;
     if ret < 0 then fail ret st
     else do {
       (ret, st) \<leftarrow> gbms_storage_register (Some (gbee_desc_of d)) name 0 st;
       if ret = 0 then Some (0, st) else fail ret st } }"

end
