(* ===== verification/Gbms_Storage_Dev.thy ===== *)
theory Gbms_Storage_Dev
  imports Google_Eeprom
begin

text \<open>
  The rest of \<^verbatim>\<open>src/google-modules/bms/gbms_storage.c\<close>: the search for a tag in a provider, the character
  device that lists an enumeration, the work that waits for the memory of the battery pack, and the start
  and end of the module. The device tree, the lookup of the memory, the kernel's allocators and the creation
  of device nodes are arguments.
\<close>

section \<open>Finding a tag\<close>

text \<open>The search ends when the provider has no more tags; it need not end otherwise.\<close>

partial_function (option) find_tag :: "(int \<Rightarrow> int + gbms_tag_t) \<Rightarrow> gbms_tag_t \<Rightarrow> int \<Rightarrow> int option" where
  "find_tag iter tag i = (case iter i of
     Inl _ \<Rightarrow> Some 0
   | Inr tmp \<Rightarrow> if tag = tmp then Some 1 else find_tag iter tag (i + 1))"

definition gbms_find :: "'s gbms_storage_provider \<Rightarrow> gbms_tag_t \<Rightarrow> 's \<Rightarrow> int option" where
  "gbms_find slot tag s = do {
     dsc \<leftarrow> prov_dsc slot;
     iter \<leftarrow> dsc_iter dsc;
     find_tag (\<lambda>i. iter i (prov_ptr slot) s) tag 0 }"

fun preload_loop :: "gbms_tag_t \<Rightarrow> nat list \<Rightarrow> 's gbms_storage \<Rightarrow> nat option option" where
  "preload_loop tag [] st = Some None"
| "preload_loop tag (i # is) st = do {
     p \<leftarrow> provider_at i st;
     case prov_dsc p of
       None \<Rightarrow> preload_loop tag is st
     | Some dsc \<Rightarrow> (case dsc_iter dsc of
         None \<Rightarrow> preload_loop tag is st
       | Some _ \<Rightarrow> do {
           ret \<leftarrow> gbms_find p tag (devices st);
           if ret = 1 then Some (Some i) else preload_loop tag is st }) }"

definition gbms_cache_preload_tag :: "gbms_tag_t \<Rightarrow> 's gbms_storage \<Rightarrow> (gbms_cache_entry option \<times> 's gbms_storage) option" where
  "gbms_cache_preload_tag tag st = do {
     slot \<leftarrow> preload_loop tag [0..<gbms_providers_count st] st;
     gbms_cache_add tag slot st }"

section \<open>The device that lists an enumeration\<close>

record gbms_storage_device =
  gd_entry :: gbms_cache_entry
  gd_index :: int
  gd_count :: int

definition ct_seq_start ::
  "gbms_storage_device \<Rightarrow> int \<Rightarrow> 's gbms_storage \<Rightarrow> (int option \<times> gbms_storage_device \<times> 's gbms_storage) option" where
  "ct_seq_start gdev pos st = do {
     (ret, _, st) \<leftarrow> gbms_storage_read_data (ce_tag (gd_entry gdev)) None 0 0 st;
     Some (if ret < 0 \<or> pos \<ge> ret then (None, gdev, st)
           else (Some pos, gdev\<lparr>gd_count := ret, gd_index := pos\<rparr>, st)) }"

text \<open>The position is a pointer to \<open>index\<close> of the device, which advances with it.\<close>

definition ct_seq_next :: "gbms_storage_device \<Rightarrow> int option \<times> gbms_storage_device" where
  "ct_seq_next gdev =
     (let pos = gd_index gdev + 1; gdev = gdev\<lparr>gd_index := pos\<rparr>
      in (if pos \<ge> gd_count gdev then None else Some pos, gdev))"

definition ct_seq_stop :: "gbms_storage_device \<Rightarrow> 's gbms_storage \<Rightarrow> 's gbms_storage option" where
  "ct_seq_stop gdev st = do {
     (_, _, st) \<leftarrow> gbms_storage_read_data (ce_tag (gd_entry gdev)) None 0 GBMS_STORAGE_INDEX_INVALID st;
     Some st }"

text \<open>The data that are handed to \<open>show_fn\<close>; their text form is left out.\<close>

definition ct_seq_show ::
  "gbms_storage_device \<Rightarrow> u8 list \<Rightarrow> 's gbms_storage \<Rightarrow> (int \<times> u8 list \<times> 's gbms_storage) option" where
  "ct_seq_show gdev seq_show_buffer st = do {
     (ret, data, st) \<leftarrow> gbms_storage_read_data (ce_tag (gd_entry gdev)) (Some seq_show_buffer) (ce_count (gd_entry gdev)) (gd_index gdev) st;
     d \<leftarrow> data;
     Some (if ret < 0 then ret else 0, take (nat ret) d, st) }"

text \<open>What the kernel's \<open>seq_read\<close> does with the four functions from the current position on.\<close>

function seq_run ::
  "gbms_storage_device \<Rightarrow> 's gbms_storage \<Rightarrow> (u8 list list \<times> 's gbms_storage) option" where
  "seq_run gdev st = do {
     (ret, shown, st) \<leftarrow> ct_seq_show gdev (replicate (ce_count (gd_entry gdev)) 0) st;
     if ret < 0 then Some ([], st)
     else (case ct_seq_next gdev of
         (None, gdev) \<Rightarrow> Some ([shown], st)
       | (Some _, gdev) \<Rightarrow> do {
           (rest, st) \<leftarrow> seq_run gdev st;
           Some (shown # rest, st) }) }"
  by pat_completeness auto
termination
  by (relation "measure (\<lambda>(gdev, st). nat (gd_count gdev - gd_index gdev))") (auto simp: ct_seq_next_def Let_def split: if_splits)

declare seq_run.simps [simp del]

definition gbms_storage_dev_read :: "gbms_storage_device \<Rightarrow> 's gbms_storage \<Rightarrow> (u8 list list \<times> 's gbms_storage) option" where
  "gbms_storage_dev_read gdev st = do {
     (pos, gdev, st) \<leftarrow> ct_seq_start gdev 0 st;
     (shown, st) \<leftarrow> (case pos of None \<Rightarrow> Some ([], st) | Some _ \<Rightarrow> seq_run gdev st);
     st \<leftarrow> ct_seq_stop gdev st;
     Some (shown, st) }"

text \<open>\<open>node\<close> tells whether memory and device node could be had.\<close>

definition create_body ::
  "gbms_tag_t \<Rightarrow> 's gbms_storage \<Rightarrow> nat \<Rightarrow> gbms_cache_entry option \<Rightarrow> (int \<times> bool \<times> gbms_cache_entry option) option" where
  "create_body tag st i entry = do {
     p \<leftarrow> provider_at i st;
     case prov_dsc p of
       None \<Rightarrow> Some (- ENOENT, False, entry)
     | Some dsc \<Rightarrow> (case dsc_info dsc of
         None \<Rightarrow> Some (- ENOENT, False, entry)
       | Some info \<Rightarrow> (case info tag (prov_ptr p) (devices st) of
           Inl ret \<Rightarrow> Some (ret, False, entry)
         | Inr (addr, count) \<Rightarrow>
             Some (0, False, Some \<lparr>ce_provider = i, ce_tag = tag, ce_count = count, ce_addr = int addr\<rparr>))) }"

definition gbms_storage_create_device :: "bool \<Rightarrow> gbms_tag_t \<Rightarrow> 's gbms_storage \<Rightarrow> gbms_storage_device option option" where
  "gbms_storage_create_device node tag st =
     (if \<not> node then Some None
      else do {
        (_, _, entry) \<leftarrow> provider_loop (create_body tag st) [0..<gbms_providers_count st] False None;
        Some (map_option (\<lambda>e. \<lparr>gd_entry = e, gd_index = 0, gd_count = 0\<rparr>) entry) })"

section \<open>Waiting for the memory of the battery pack\<close>

datatype gbee_status = GBEE_STATUS_NOENT | GBEE_STATUS_PROBE | GBEE_STATUS_OK

definition GBEE_POLL_RETRIES :: nat where "GBEE_POLL_RETRIES = 100"

record gbee_data =
  bee_name :: string
  bee_status :: gbee_status
  bee_found :: bool
  lotr_version :: int
  bee_poll_retries :: nat
  bee_work_scheduled :: bool

text \<open>\<open>found\<close> tells whether the memory was found this time.\<close>

definition gbee_probe_work ::
  "bool \<Rightarrow> bool \<Rightarrow> gbee_data \<times> gbee gbms_storage \<Rightarrow> (gbee_data \<times> gbee gbms_storage) option" where
  "gbee_probe_work alloc found x = (case x of (beed, st) \<Rightarrow>
     let beed = beed\<lparr>bee_work_scheduled := False\<rparr> in
     if bee_status beed \<noteq> GBEE_STATUS_PROBE then Some (beed, st)
     else if \<not> found then
       if bee_poll_retries beed = 0 then do {
         (_, st) \<leftarrow> gbms_storage_register_internal (Some gbms_dummy_dsc) (Some (bee_name beed)) 0 st;
         Some (beed, st) }
       else Some (beed\<lparr>bee_work_scheduled := True, bee_poll_retries := bee_poll_retries beed - 1\<rparr>, st)
     else do {
       (ret, st) \<leftarrow> gbee_register_device alloc (Some (bee_name beed)) (lotr_version beed) st;
       Some (if ret < 0 then beed\<lparr>bee_status := GBEE_STATUS_NOENT\<rparr>
             else beed\<lparr>bee_found := True, bee_status := GBEE_STATUS_OK\<rparr>, st) })"

definition gbee_destroy :: "gbee_data \<Rightarrow> gbee gbms_storage \<Rightarrow> gbee gbms_storage option" where
  "gbee_destroy beed st = map_option snd (gbms_storage_offline (bee_name beed) True st)"

section \<open>Start and end of the module\<close>

text \<open>The names of \<open>google,gbms-providers\<close>; a name that cannot be read is \<^const>\<open>None\<close>.\<close>

fun gbms_storage_parse_provider_refs :: "string option list \<Rightarrow> 's gbms_storage \<Rightarrow> 's gbms_storage option" where
  "gbms_storage_parse_provider_refs [] st = Some st"
| "gbms_storage_parse_provider_refs (None # ss) st = gbms_storage_parse_provider_refs ss st"
| "gbms_storage_parse_provider_refs (Some s # ss) st = do {
     (_, st) \<leftarrow> gbms_storage_register_internal None (Some s) 0 st;
     gbms_storage_parse_provider_refs ss st }"

record google_bms_node =
  node_bee_name :: "string option"
  node_providers :: "string option list"
  node_lotr_version :: "int option"

text \<open>
  \<open>pool\<close> tells whether the memory of the cache could be allocated: 32 entries. \<open>dup\<close> tells the same of
  the copy of the name. The static variables are zero before.
\<close>

definition gbms_storage_init ::
  "bool \<Rightarrow> bool \<Rightarrow> google_bms_node option \<Rightarrow> 's \<Rightarrow> (int \<times> gbee_data \<times> 's gbms_storage) option" where
  "gbms_storage_init pool dup node s =
     (let st = \<lparr>gbms_storage_init_done = False, gbms_providers_count = 0,
                gbms_providers = replicate GBMS_PROVIDERS_MAX empty_provider, gbms_cache = [],
                gbms_cache_pool = (if pool then Some 32 else None), devices = s\<rparr>;
          beed = \<lparr>bee_name = [], bee_status = GBEE_STATUS_NOENT, bee_found = False, lotr_version = 0,
                  bee_poll_retries = GBEE_POLL_RETRIES, bee_work_scheduled = False\<rparr>
      in case node of
        None \<Rightarrow> Some (0, beed, st\<lparr>gbms_storage_init_done := True\<rparr>)
      | Some node \<Rightarrow>
          if node_bee_name node \<noteq> None \<and> \<not> dup then Some (- ENOMEM, beed, st)
          else do {
            (beed, st) \<leftarrow> (case node_bee_name node of
                None \<Rightarrow> Some (beed, st)
              | Some name \<Rightarrow> do {
                  (_, st) \<leftarrow> gbms_storage_register_internal None (Some name) 0 st;
                  Some (beed\<lparr>bee_name := name, bee_status := GBEE_STATUS_PROBE, bee_work_scheduled := True\<rparr>, st) });
            st \<leftarrow> gbms_storage_parse_provider_refs (node_providers node) st;
            Some (0, beed\<lparr>lotr_version := (case node_lotr_version node of None \<Rightarrow> 0xff | Some v \<Rightarrow> v)\<rparr>,
                  st\<lparr>gbms_storage_init_done := True\<rparr>) })"

definition gbms_storage_exit :: "gbee_data \<Rightarrow> gbee gbms_storage \<Rightarrow> gbee gbms_storage option" where
  "gbms_storage_exit beed st = do {
     (_, st) \<leftarrow> gbms_storage_flush_all_internal True st;
     st \<leftarrow> (if bee_status beed = GBEE_STATUS_OK then gbee_destroy beed st else Some st);
     Some (st\<lparr>gbms_cache_pool := None, gbms_providers_count := 0\<rparr>) }"

end
