(* ===== verification/Gbms_Storage_Props.thy ===== *)
theory Gbms_Storage_Props
  imports Gbms_Storage
begin

text \<open>
  What makes the storage of parameters correct: the registry stays well formed and no operation
  faults (a transition system of registrations, transfers, flushes and requests to go offline); a
  transfer ends at the provider that owns the tag, with or without the cache; and the locale
  \<open>storage_provider\<close>, the contract of the header file, under which what was written is read back.
\<close>

section \<open>The loop over the providers\<close>

lemma provider_loop_first:
  assumes "\<forall>j \<in> set js. \<exists>l. body j x = Some (- ENOENT, l, x)" "body i x = Some (ret, l, x')" "ret \<noteq> - ENOENT"
  shows "\<exists>l'. provider_loop body (js @ i # ks) late x = Some (ret, l', x')"
  using assms(1)
proof (induction js arbitrary: late)
  case Nil
  then show ?case using assms(2,3) by simp
next
  case (Cons j js)
  from Cons.prems obtain l where "body j x = Some (- ENOENT, l, x)" by auto
  then show ?case using Cons by simp
qed

lemma upt_split_at: "i < n \<Longrightarrow> [0..<n] = [0..<i] @ i # [Suc i..<n]"
  using upt_add_eq_append [of 0 i "n - i"] by (simp add: upt_rec)

text \<open>A property of the state that every round keeps holds at the end, and the loop does not fault.\<close>

lemma provider_loop_inv:
  assumes "P x" "\<And>i x. i \<in> set is \<Longrightarrow> P x \<Longrightarrow> \<exists>ret l x'. body i x = Some (ret, l, x') \<and> P x'"
  shows "\<exists>ret l x'. provider_loop body is late x = Some (ret, l, x') \<and> P x'"
  using assms
proof (induction "is" arbitrary: late x)
  case (Cons i "is")
  from Cons.prems obtain ret l x' where "body i x = Some (ret, l, x')" "P x'" by fastforce
  with Cons show ?case by simp
qed simp

section \<open>Well-formed storage\<close>

definition cache_entry_ok :: "'s gbms_storage \<Rightarrow> gbms_cache_entry \<Rightarrow> bool" where
  "cache_entry_ok st ce \<longleftrightarrow> ce_provider ce < gbms_providers_count st \<and> prov_dsc (gbms_providers st ! ce_provider ce) \<noteq> None"

definition buffer_ok :: "buffer \<Rightarrow> nat \<Rightarrow> bool" where
  "buffer_ok data n = (case data of None \<Rightarrow> n = 0 | Some b \<Rightarrow> n \<le> length b)"

text \<open>Callbacks that return for every buffer that is as long as claimed.\<close>

definition desc_ok :: "'s gbms_storage_desc \<Rightarrow> bool" where
  "desc_ok d \<longleftrightarrow>
     (\<forall>rd tag data n ptr s. dsc_read d = Some rd \<and> buffer_ok data n \<longrightarrow>
        (\<exists>ret data' s'. rd tag data n ptr s = Some (ret, data', s') \<and> buffer_ok data' n)) \<and>
     (\<forall>rd tag data n idx ptr s. dsc_read_data d = Some rd \<and> buffer_ok data n \<longrightarrow>
        (\<exists>ret data' s'. rd tag data n idx ptr s = Some (ret, data', s') \<and> buffer_ok data' n)) \<and>
     (\<forall>wr tag data n ptr s. dsc_write d = Some wr \<and> buffer_ok data n \<longrightarrow> (\<exists>ret s'. wr tag data n ptr s = Some (ret, s'))) \<and>
     (\<forall>flush force ptr s. dsc_flush d = Some flush \<longrightarrow> (\<exists>ret s'. flush force ptr s = Some (ret, s')))"

definition storage_ok :: "'s gbms_storage \<Rightarrow> bool" where
  "storage_ok st \<longleftrightarrow> length (gbms_providers st) = GBMS_PROVIDERS_MAX \<and> gbms_providers_count st \<le> GBMS_PROVIDERS_MAX \<and>
     (\<forall>i < gbms_providers_count st. length (prov_name (gbms_providers st ! i)) < GBMS_PROVIDER_NAME_MAX) \<and>
     (\<forall>p \<in> set (gbms_providers st). \<forall>d. prov_dsc p = Some d \<longrightarrow> desc_ok d) \<and>
     (\<forall>ce \<in> set (gbms_cache st). cache_entry_ok st ce) \<and>
     (case gbms_cache_pool st of None \<Rightarrow> gbms_cache st = [] | Some n \<Rightarrow> n + length (gbms_cache st) \<le> 32)"

lemmas storage_defs = set_devices_def set_provider_def provider_at_def cache_entry_ok_def

lemma storage_ok_devices [simp]: "storage_ok (set_devices s st) = storage_ok st"
  by (simp add: storage_ok_def storage_defs split: option.split)

lemma set_devices_fields [simp]:
  "gbms_providers_count (set_devices s st) = gbms_providers_count st" "gbms_providers (set_devices s st) = gbms_providers st"
  "gbms_storage_init_done (set_devices s st) = gbms_storage_init_done st" "devices (set_devices s st) = s"
  "gbms_cache (set_devices s st) = gbms_cache st"
  by (simp_all add: set_devices_def)

lemma provider_at_ok:
  assumes "storage_ok st" "i < gbms_providers_count st"
  shows "provider_at i st = Some (gbms_providers st ! i)" "gbms_providers st ! i \<in> set (gbms_providers st)"
  using assms by (auto simp: storage_ok_def provider_at_def)

lemma storage_descs: "storage_ok st \<Longrightarrow> p \<in> set (gbms_providers st) \<Longrightarrow> prov_dsc p = Some d \<Longrightarrow> desc_ok d"
  by (simp add: storage_ok_def)

lemma storage_desc_ok: "storage_ok st \<Longrightarrow> i < gbms_providers_count st \<Longrightarrow> prov_dsc (gbms_providers st ! i) = Some d \<Longrightarrow> desc_ok d"
  using storage_descs provider_at_ok(2) by blast

lemma cached_entry_ok: "storage_ok st \<Longrightarrow> find (\<lambda>ce. ce_tag ce = tag) (gbms_cache st) = Some ce \<Longrightarrow> cache_entry_ok st ce"
  by (auto simp: storage_ok_def find_Some_iff)

lemma cache_add_ok:
  assumes "storage_ok st" "i < gbms_providers_count st" "prov_dsc (gbms_providers st ! i) = Some d"
  shows "\<exists>e st'. gbms_cache_add tag (Some i) st = Some (e, st') \<and> storage_ok st' \<and>
    gbms_providers st' = gbms_providers st \<and> gbms_providers_count st' = gbms_providers_count st \<and> devices st' = devices st \<and>
    gbms_storage_init_done st' = gbms_storage_init_done st \<and>
    (\<forall>ce \<in> set (gbms_cache st'). ce \<in> set (gbms_cache st) \<or> ce_tag ce = tag \<and> ce_provider ce = i)"
proof (cases "gbms_cache_pool st")
  case None
  then show ?thesis using assms by (simp add: gbms_cache_add_def)
next
  case (Some k)
  then show ?thesis using assms
    by (cases k) (auto simp: gbms_cache_add_def provider_at_ok(1) Let_def storage_ok_def cache_entry_ok_def
        split: option.split sum.split prod.split)
qed

section \<open>No operation faults\<close>

text \<open>What an operation on the transfer path leaves alone.\<close>

definition kept :: "'s gbms_storage \<Rightarrow> 's gbms_storage \<Rightarrow> bool" where
  "kept st st' \<longleftrightarrow> storage_ok st' \<and> gbms_providers st' = gbms_providers st \<and>
     gbms_providers_count st' = gbms_providers_count st \<and> gbms_storage_init_done st' = gbms_storage_init_done st"

lemma kept_refl: "storage_ok st \<Longrightarrow> kept st st"
  by (simp add: kept_def)

lemma kept_devices: "kept st st' \<Longrightarrow> kept st (set_devices s st')"
  by (simp add: kept_def)

lemma kept_trans: "kept st st' \<Longrightarrow> kept st' st'' \<Longrightarrow> kept st st''"
  by (simp add: kept_def)

lemma desc_okD:
  assumes "desc_ok d"
  shows "dsc_read d = Some rd \<Longrightarrow> buffer_ok data n \<Longrightarrow> \<exists>ret data' s'. rd tag data n ptr s = Some (ret, data', s') \<and> buffer_ok data' n"
    and "dsc_read_data d = Some rdd \<Longrightarrow> buffer_ok data n \<Longrightarrow> \<exists>ret data' s'. rdd tag data n idx ptr s = Some (ret, data', s') \<and> buffer_ok data' n"
    and "dsc_write d = Some wr \<Longrightarrow> buffer_ok data n \<Longrightarrow> \<exists>ret s'. wr tag data n ptr s = Some (ret, s')"
    and "dsc_flush d = Some fl \<Longrightarrow> \<exists>ret s'. fl force ptr s = Some (ret, s')"
  using assms by (auto simp: desc_ok_def)

lemma cache_add_kept:
  assumes "storage_ok st" "i < gbms_providers_count st" "prov_dsc (gbms_providers st ! i) = Some d"
  shows "\<exists>e st'. (if b then gbms_cache_add tag (Some i) (set_devices s st) else Some (None, set_devices s st)) = Some (e, st') \<and> kept st st'"
proof -
  have st: "storage_ok (set_devices s st)" "i < gbms_providers_count (set_devices s st)" "prov_dsc (gbms_providers (set_devices s st) ! i) = Some d"
    using assms by simp_all
  show ?thesis using cache_add_ok [OF st, of tag] assms(1) by (auto simp: kept_def)
qed

lemma read_body_ok:
  assumes st: "storage_ok st" "i < gbms_providers_count st" and buf: "buffer_ok data n"
  shows "\<exists>ret l data' st'. read_body tag n i (data, st) = Some (ret, l, data', st') \<and> kept st st' \<and> buffer_ok data' n"
proof (cases "prov_dsc (gbms_providers st ! i)")
  case None
  then show ?thesis using st buf by (auto simp: read_body_def provider_at_ok kept_refl)
next
  case (Some d)
  show ?thesis
  proof (cases "dsc_read d")
    case None
    then show ?thesis using Some st buf by (auto simp: read_body_def provider_at_ok kept_refl)
  next
    case rd: (Some rd)
    from desc_okD(1) [OF storage_desc_ok [OF st Some] rd buf]
    obtain ret data' s' where r: "rd tag data n (prov_ptr (gbms_providers st ! i)) (devices st) = Some (ret, data', s')" "buffer_ok data' n" by blast
    from cache_add_kept [OF st Some, of "0 \<le> ret" tag s'] obtain e st' where
      "(if 0 \<le> ret then gbms_cache_add tag (Some i) (set_devices s' st) else Some (None, set_devices s' st)) = Some (e, st')" "kept st st'" by blast
    then show ?thesis using Some rd st r by (simp add: read_body_def provider_at_ok Let_def ex_bool_eq)
  qed
qed

lemma write_body_ok:
  assumes st: "storage_ok st" "i < gbms_providers_count st" and buf: "buffer_ok data n"
  shows "\<exists>ret l st'. write_body tag data n i st = Some (ret, l, st') \<and> kept st st'"
proof (cases "prov_dsc (gbms_providers st ! i)")
  case None
  then show ?thesis using st by (auto simp: write_body_def provider_at_ok kept_refl)
next
  case (Some d)
  show ?thesis
  proof (cases "dsc_write d")
    case None
    then show ?thesis using Some st by (auto simp: write_body_def provider_at_ok kept_refl)
  next
    case wr: (Some wr)
    from desc_okD(3) [OF storage_desc_ok [OF st Some] wr buf]
    obtain ret s' where r: "wr tag data n (prov_ptr (gbms_providers st ! i)) (devices st) = Some (ret, s')" by blast
    from cache_add_kept [OF st Some, of "0 \<le> ret" tag s'] obtain e st' where
      "(if 0 \<le> ret then gbms_cache_add tag (Some i) (set_devices s' st) else Some (None, set_devices s' st)) = Some (e, st')" "kept st st'" by blast
    then show ?thesis using Some wr st r by (simp add: write_body_def provider_at_ok Let_def kept_refl ex_bool_eq)
  qed
qed

lemma read_data_body_ok:
  assumes st: "storage_ok st" "i < gbms_providers_count st" and buf: "buffer_ok data n"
  shows "\<exists>ret l data' st'. read_data_body tag n idx i (data, st) = Some (ret, l, data', st') \<and> kept st st' \<and> buffer_ok data' n"
proof -
  have "\<exists>ret data' s'. rd tag data n idx (prov_ptr (gbms_providers st ! i)) (devices st) = Some (ret, data', s') \<and> buffer_ok data' n"
    if "prov_dsc (gbms_providers st ! i) = Some d" "dsc_read_data d = Some rd" for d rd
    using desc_okD(2) [OF storage_desc_ok [OF st that(1)] that(2) buf] by blast
  then show ?thesis using st buf
    by (fastforce simp: read_data_body_def provider_at_ok kept_refl kept_devices split: option.split)
qed

lemma flush_provider_ok:
  assumes st: "storage_ok st" "provider_at i st = Some p" "\<And>d. prov_dsc p = Some d \<Longrightarrow> desc_ok d"
  shows "\<exists>ret st'. gbms_storage_flush_provider i force st = Some (ret, st') \<and> kept st st'"
proof -
  have "\<exists>ret s'. fl force (prov_ptr p) (devices st) = Some (ret, s')"
    if "prov_dsc p = Some d" "dsc_flush d = Some fl" for d fl using desc_okD(4) [OF st(3) [OF that(1)] that(2)] .
  then show ?thesis using st
    by (fastforce simp: gbms_storage_flush_provider_def kept_refl kept_devices split: option.split)
qed

lemma cache_read_ok:
  assumes st: "storage_ok st" and buf: "buffer_ok data n"
  shows "\<exists>ret data' st'. gbms_cache_read tag n (data, st) = Some (ret, data', st') \<and> kept st st' \<and> buffer_ok data' n"
proof (cases "find (\<lambda>ce. ce_tag ce = tag) (gbms_cache st)")
  case None
  then show ?thesis using assms by (simp add: gbms_cache_read_def gbms_cache_lookup_def kept_refl)
next
  case (Some ce)
  from cached_entry_ok [OF st Some] obtain d where ce: "ce_provider ce < gbms_providers_count st" "prov_dsc (gbms_providers st ! ce_provider ce) = Some d"
    by (auto simp: cache_entry_ok_def)
  have "\<exists>ret data' s'. rd tag data n (prov_ptr (gbms_providers st ! ce_provider ce)) (devices st) = Some (ret, data', s') \<and> buffer_ok data' n"
    if "dsc_read d = Some rd" for rd using desc_okD(1) [OF storage_desc_ok [OF st ce] that buf] by blast
  then show ?thesis using Some ce st buf
    by (fastforce simp: gbms_cache_read_def gbms_cache_lookup_def provider_at_ok kept_refl kept_devices Let_def split: option.split)
qed

lemma cache_write_ok:
  assumes st: "storage_ok st" and buf: "buffer_ok data n"
  shows "\<exists>ret st'. gbms_cache_write tag data n st = Some (ret, st') \<and> kept st st'"
proof (cases "find (\<lambda>ce. ce_tag ce = tag) (gbms_cache st)")
  case None
  then show ?thesis using assms by (simp add: gbms_cache_write_def gbms_cache_lookup_def kept_refl)
next
  case (Some ce)
  from cached_entry_ok [OF st Some] obtain d where ce: "ce_provider ce < gbms_providers_count st" "prov_dsc (gbms_providers st ! ce_provider ce) = Some d"
    by (auto simp: cache_entry_ok_def)
  have "\<exists>ret s'. wr tag data n (prov_ptr (gbms_providers st ! ce_provider ce)) (devices st) = Some (ret, s')"
    if "dsc_write d = Some wr" for wr using desc_okD(3) [OF storage_desc_ok [OF st ce] that buf] by blast
  then show ?thesis using Some ce st buf
    by (fastforce simp: gbms_cache_write_def gbms_cache_lookup_def provider_at_ok kept_refl kept_devices Let_def split: option.split)
qed

lemma kept_count: "kept st st' \<Longrightarrow> gbms_providers_count st' = gbms_providers_count st" "kept st st' \<Longrightarrow> storage_ok st'"
  by (simp_all add: kept_def)

lemma gbms_storage_read_ok:
  assumes st: "storage_ok st" and buf: "data \<noteq> None \<longrightarrow> buffer_ok data n"
  shows "\<exists>ret data' st'. gbms_storage_read tag data n st = Some (ret, data', st') \<and> kept st st'"
proof (cases "gbms_storage_init_done st \<and> \<not> (data = None \<and> n \<noteq> 0)")
  case False
  then show ?thesis using st by (auto simp: gbms_storage_read_def kept_refl)
next
  case True
  then have b: "buffer_ok data n" using buf by (cases data) (auto simp: buffer_ok_def)
  from cache_read_ok [OF st b] obtain r1 d1 st1 where 1: "gbms_cache_read tag n (data, st) = Some (r1, d1, st1)" "kept st st1" "buffer_ok d1 n" by blast
  let ?P = "\<lambda>(d, s). kept st s \<and> buffer_ok d n"
  have "\<exists>ret l x'. provider_loop (read_body tag n) [0..<gbms_providers_count st1] False (d1, st1) = Some (ret, l, x') \<and> ?P x'"
  proof (rule provider_loop_inv)
    show "?P (d1, st1)" using 1 by simp
    fix i x assume "i \<in> set [0..<gbms_providers_count st1]" "?P x"
    then show "\<exists>ret l x'. read_body tag n i x = Some (ret, l, x') \<and> ?P x'"
      using 1(2) read_body_ok [of "snd x" i "fst x" n tag] by (fastforce simp: kept_count dest: kept_trans)
  qed
  then show ?thesis using True 1 by (elim exE conjE) (auto simp: gbms_storage_read_def simp del: de_Morgan_conj)
qed

lemma gbms_storage_write_ok:
  assumes st: "storage_ok st" and buf: "data \<noteq> None \<longrightarrow> buffer_ok data n"
  shows "\<exists>ret st'. gbms_storage_write tag data n st = Some (ret, st') \<and> kept st st'"
proof (cases "gbms_storage_init_done st \<and> \<not> (data = None \<and> n \<noteq> 0)")
  case False
  then show ?thesis using st by (auto simp: gbms_storage_write_def kept_refl)
next
  case True
  then have b: "buffer_ok data n" using buf by (cases data) (auto simp: buffer_ok_def)
  from cache_write_ok [OF st b] obtain r1 st1 where 1: "gbms_cache_write tag data n st = Some (r1, st1)" "kept st st1" by blast
  have "\<exists>ret l st'. provider_loop (write_body tag data n) [0..<gbms_providers_count st1] False st1 = Some (ret, l, st') \<and> kept st st'"
  proof (rule provider_loop_inv)
    show "kept st st1" using 1 by simp
    fix i s assume "i \<in> set [0..<gbms_providers_count st1]" "kept st s"
    then show "\<exists>ret l x'. write_body tag data n i s = Some (ret, l, x') \<and> kept st x'"
      using 1(2) write_body_ok [of s i data n tag] b by (fastforce simp: kept_count dest: kept_trans)
  qed
  then show ?thesis using True 1 by (elim exE conjE) (auto simp: gbms_storage_write_def simp del: de_Morgan_conj)
qed

lemma gbms_storage_read_data_ok:
  assumes st: "storage_ok st" and buf: "data \<noteq> None \<longrightarrow> buffer_ok data n"
  shows "\<exists>ret data' st'. gbms_storage_read_data tag data n idx st = Some (ret, data', st') \<and> kept st st'"
proof (cases "gbms_storage_init_done st \<and> \<not> (data = None \<and> n \<noteq> 0)")
  case False
  then show ?thesis using st by (auto simp: gbms_storage_read_data_def kept_refl)
next
  case True
  then have b: "buffer_ok data n" using buf by (cases data) (auto simp: buffer_ok_def)
  let ?P = "\<lambda>(d, s). kept st s \<and> buffer_ok d n"
  have "\<exists>ret l x'. provider_loop (read_data_body tag n idx) [0..<gbms_providers_count st] False (data, st) = Some (ret, l, x') \<and> ?P x'"
  proof (rule provider_loop_inv)
    show "?P (data, st)" using st b by (simp add: kept_refl)
    fix i x assume "i \<in> set [0..<gbms_providers_count st]" "?P x"
    then show "\<exists>ret l x'. read_data_body tag n idx i x = Some (ret, l, x') \<and> ?P x'"
      using read_data_body_ok [of "snd x" i "fst x" n tag idx] by (fastforce simp: kept_count dest: kept_trans)
  qed
  then show ?thesis using True by (elim exE conjE) (auto simp: gbms_storage_read_data_def simp del: de_Morgan_conj)
qed

lemma flush_loop_ok:
  assumes "storage_ok st" "\<forall>i \<in> set is. i < gbms_providers_count st"
  shows "\<exists>b st'. flush_loop force is b0 st = Some (b, st') \<and> kept st st'"
  using assms
proof (induction "is" arbitrary: b0 st)
  case Nil
  then show ?case by (simp add: kept_refl)
next
  case (Cons i "is")
  then obtain ret st1 where 1: "gbms_storage_flush_provider i force st = Some (ret, st1)" "kept st st1"
    using flush_provider_ok [of st i "gbms_providers st ! i" force] by (auto simp: provider_at_ok storage_desc_ok)
  with Cons.IH [of st1 "b0 \<and> 0 \<le> ret"] Cons.prems show ?case by (auto simp: kept_count dest: kept_trans)
qed

section \<open>Slots\<close>

lemma find_slot_loop_index:
  "find_slot_loop name ps k = Inr i \<Longrightarrow> k \<le> i \<and> i \<le> k + length ps \<and> (i < k + length ps \<longrightarrow> prov_dsc (ps ! (i - k)) = None)"
  by (induction name ps k rule: find_slot_loop.induct) (fastforce split: if_splits option.splits simp: nth_Cons')+

lemma find_slot_index:
  assumes "storage_ok st" "gbms_storage_find_slot name st = Inr i"
  shows "i \<le> gbms_providers_count st" "i < GBMS_PROVIDERS_MAX" "i < gbms_providers_count st \<longrightarrow> prov_dsc (gbms_providers st ! i) = None"
    "provider_at i st = Some (gbms_providers st ! i)" "gbms_providers st ! i \<in> set (gbms_providers st)"
  using assms find_slot_loop_index [of name "take (gbms_providers_count st) (gbms_providers st)" 0]
  by (auto simp: gbms_storage_find_slot_def storage_ok_def provider_at_def min_def split: sum.splits if_splits)

text \<open>Replacing a slot that no entry of the cache refers to keeps the storage well formed.\<close>

lemma storage_ok_set_provider:
  assumes st: "storage_ok st" and i: "i < GBMS_PROVIDERS_MAX"
    and p: "prov_dsc p = None \<longrightarrow> (\<forall>ce \<in> set (gbms_cache st). ce_provider ce \<noteq> i)" "length (prov_name p) < GBMS_PROVIDER_NAME_MAX"
      "\<And>d. prov_dsc p = Some d \<Longrightarrow> desc_ok d"
    and n: "gbms_providers_count st \<le> n" "n \<le> GBMS_PROVIDERS_MAX" "gbms_providers_count st < n \<longrightarrow> n = Suc i \<and> i = gbms_providers_count st"
  shows "storage_ok (set_provider i p st\<lparr>gbms_providers_count := n\<rparr>)"
proof -
  have "length (prov_name ((gbms_providers st)[i := p] ! j)) < GBMS_PROVIDER_NAME_MAX" if "j < n" for j
    using that st n p(2) by (cases "j = i") (auto simp: storage_ok_def)
  moreover have "\<forall>q \<in> set ((gbms_providers st)[i := p]). \<forall>d. prov_dsc q = Some d \<longrightarrow> desc_ok d"
    using st p(3) set_update_subset_insert [of "gbms_providers st" i p] by (fastforce simp: storage_ok_def)
  moreover have "ce_provider ce < n \<and> prov_dsc ((gbms_providers st)[i := p] ! ce_provider ce) \<noteq> None" if "ce \<in> set (gbms_cache st)" for ce
    using that st n(1) p(1) by (cases "ce_provider ce = i") (auto simp: storage_ok_def cache_entry_ok_def)
  ultimately show ?thesis using st i n(2)
    by (simp add: storage_ok_def set_provider_def cache_entry_ok_def split: option.splits)
qed

lemma storage_ok_set_offline:
  assumes st: "storage_ok st" and i: "i < GBMS_PROVIDERS_MAX"
  shows "storage_ok (set_provider i ((gbms_providers st ! i)\<lparr>prov_offline := True\<rparr>) st)"
proof -
  let ?ps = "(gbms_providers st)[i := (gbms_providers st ! i)\<lparr>prov_offline := True\<rparr>]"
  have l: "i < length (gbms_providers st)" using st i by (simp add: storage_ok_def)
  have nth: "prov_name (?ps ! j) = prov_name (gbms_providers st ! j)" "prov_dsc (?ps ! j) = prov_dsc (gbms_providers st ! j)" for j
    using l by (cases "j = i"; simp)+
  have "desc_ok d" if "j < length (gbms_providers st)" "prov_dsc (gbms_providers st ! j) = Some d" for j d
    using storage_descs [OF st nth_mem [OF that(1)] that(2)] .
  then have "\<forall>q \<in> set ?ps. \<forall>d. prov_dsc q = Some d \<longrightarrow> desc_ok d" by (auto simp: in_set_conv_nth nth(2))
  then show ?thesis using st nth by (simp add: storage_ok_def set_provider_def cache_entry_ok_def split: option.splits)
qed

lemma slot_not_cached:
  assumes "storage_ok st" "gbms_storage_find_slot name st = Inr i"
  shows "\<forall>ce \<in> set (gbms_cache st). ce_provider ce \<noteq> i"
  using assms find_slot_index [OF assms] by (fastforce simp: storage_ok_def cache_entry_ok_def)

lemma register_internal_ok:
  assumes st: "storage_ok st" and d: "\<And>d. desc = Some d \<Longrightarrow> desc_ok d"
  shows "\<exists>ret st'. gbms_storage_register_internal desc name ptr st = Some (ret, st') \<and> storage_ok st'"
proof (cases "\<exists>nm i. name = Some nm \<and> length nm < GBMS_PROVIDER_NAME_MAX \<and> gbms_storage_find_slot nm st = Inr i")
  case False
  then show ?thesis using st by (auto simp: gbms_storage_register_internal_def not_less split: option.split sum.split)
next
  case True
  then obtain nm i where nm: "name = Some nm" "length nm < GBMS_PROVIDER_NAME_MAX" and i: "gbms_storage_find_slot nm st = Inr i" by blast
  note ix = find_slot_index [OF st i]
  let ?p = "(gbms_providers st ! i)\<lparr>prov_name := nm, prov_dsc := desc, prov_ptr := ptr\<rparr>"
  let ?n = "if i = gbms_providers_count st then Suc i else gbms_providers_count st"
  have "storage_ok (set_provider i ?p st\<lparr>gbms_providers_count := ?n\<rparr>)"
  proof (rule storage_ok_set_provider [OF st ix(2)])
    show "?n \<le> GBMS_PROVIDERS_MAX" using ix(2) st by (simp add: storage_ok_def)
  qed (use slot_not_cached [OF st i] nm(2) d in auto)
  moreover have "gbms_storage_register_internal desc name ptr st = Some (0, set_provider i ?p st\<lparr>gbms_providers_count := ?n\<rparr>)"
    using nm i ix(4) by (simp add: gbms_storage_register_internal_def Let_def set_provider_def)
  ultimately show ?thesis by blast
qed

lemma register_ok:
  "storage_ok st \<Longrightarrow> desc_ok d \<Longrightarrow> \<exists>ret st'. gbms_storage_register (Some d) name ptr st = Some (ret, st') \<and> storage_ok st'"
  using register_internal_ok [of st "Some d" name ptr] by (auto simp: gbms_storage_register_def)

lemma offline_ok:
  assumes st: "storage_ok st"
  shows "\<exists>ret st'. gbms_storage_offline name flush st = Some (ret, st') \<and> storage_ok st'"
proof (cases "gbms_storage_find_slot name st")
  case (Inl e)
  then show ?thesis using st by (simp add: gbms_storage_offline_def)
next
  case (Inr i)
  note ix = find_slot_index [OF st Inr]
  obtain ret st1 where 1: "(if flush then gbms_storage_flush_provider i False st else Some (0, st)) = Some (ret, st1)" "kept st st1"
    using flush_provider_ok [OF st ix(4) storage_descs [OF st ix(5)], of False] kept_refl [OF st] by (cases flush) auto
  have "provider_at i st1 = Some (gbms_providers st1 ! i)" using 1(2) ix(4) by (simp add: provider_at_def kept_def split: if_splits)
  moreover have "storage_ok (set_provider i ((gbms_providers st1 ! i)\<lparr>prov_offline := True\<rparr>) st1)"
    using storage_ok_set_offline [OF kept_count(2) [OF 1(2)] ix(2)] .
  ultimately show ?thesis using 1 Inr st by (auto simp: gbms_storage_offline_def kept_count)
qed

section \<open>Reachable states\<close>

definition storage_start :: "'s gbms_storage \<Rightarrow> bool" where
  "storage_start st \<longleftrightarrow> gbms_providers_count st = 0 \<and> gbms_providers st = replicate GBMS_PROVIDERS_MAX empty_provider \<and>
     gbms_cache st = [] \<and> (gbms_cache_pool st = None \<or> gbms_cache_pool st = Some 32)"

inductive gbms_step :: "'s gbms_storage \<Rightarrow> 's gbms_storage \<Rightarrow> bool" where
  register: "gbms_storage_register (Some d) name ptr st = Some (ret, st') \<Longrightarrow> desc_ok d \<Longrightarrow> gbms_step st st'"
| reference: "gbms_storage_register_internal None name ptr st = Some (ret, st') \<Longrightarrow> gbms_step st st'"
| read: "gbms_storage_read tag data n st = Some (ret, data', st') \<Longrightarrow> data \<noteq> None \<longrightarrow> buffer_ok data n \<Longrightarrow> gbms_step st st'"
| store_tag: "gbms_storage_write tag data n st = Some (ret, st') \<Longrightarrow> data \<noteq> None \<longrightarrow> buffer_ok data n \<Longrightarrow> gbms_step st st'"
| read_data: "gbms_storage_read_data tag data n idx st = Some (ret, data', st') \<Longrightarrow> data \<noteq> None \<longrightarrow> buffer_ok data n \<Longrightarrow> gbms_step st st'"
| flush: "gbms_storage_flush_all st = Some (ret, st') \<Longrightarrow> gbms_step st st'"
| offline: "gbms_storage_offline name fl st = Some (ret, st') \<Longrightarrow> gbms_step st st'"
| device: "gbms_step st (set_devices s st)"
| init_done: "gbms_step st (st\<lparr>gbms_storage_init_done := True\<rparr>)"

inductive gbms_reachable :: "'s gbms_storage \<Rightarrow> bool" where
  start: "storage_start st \<Longrightarrow> gbms_reachable st"
| step: "gbms_reachable st \<Longrightarrow> gbms_step st st' \<Longrightarrow> gbms_reachable st'"

lemma storage_ok_init_done [simp]: "storage_ok (st\<lparr>gbms_storage_init_done := b\<rparr>) = storage_ok st"
  by (simp add: storage_ok_def storage_defs split: option.split)

lemma flush_all_ok: "storage_ok st \<Longrightarrow> \<exists>ret st'. gbms_storage_flush_all st = Some (ret, st') \<and> storage_ok st'"
  using flush_loop_ok [of st "[0..<gbms_providers_count st]" False True]
  by (auto simp: gbms_storage_flush_all_def gbms_storage_flush_all_internal_def kept_count)

lemma gbms_step_ok: "gbms_step st st' \<Longrightarrow> storage_ok st \<Longrightarrow> storage_ok st'"
proof (induction rule: gbms_step.induct)
  case (register d name ptr st ret st')
  then show ?case using register_ok [of st d name ptr] by auto
next
  case (reference name ptr st ret st')
  then show ?case using register_internal_ok [of st None name ptr] by auto
next
  case (read tag data n st ret data' st')
  then show ?case using gbms_storage_read_ok [of st data n tag] by (auto simp: kept_count)
next
  case (store_tag tag data n st ret st')
  then show ?case using gbms_storage_write_ok [of st data n tag] by (auto simp: kept_count)
next
  case (read_data tag data n idx st ret data' st')
  then show ?case using gbms_storage_read_data_ok [of st data n tag idx] by (auto simp: kept_count)
next
  case (flush st ret st')
  then show ?case using flush_all_ok [of st] by auto
next
  case (offline name fl st ret st')
  then show ?case using offline_ok [of st name fl] by auto
qed simp_all

lemma reachable_storage_ok: "gbms_reachable st \<Longrightarrow> storage_ok st"
proof (induction rule: gbms_reachable.induct)
  case (start st)
  then show ?case by (auto simp: storage_start_def storage_ok_def empty_provider_def)
next
  case (step st st')
  then show ?case using gbms_step_ok by blast
qed


definition sample_storage :: "unit gbms_storage" where
  "sample_storage = \<lparr>gbms_storage_init_done = True, gbms_providers_count = 0,
     gbms_providers = replicate GBMS_PROVIDERS_MAX empty_provider, gbms_cache = [], gbms_cache_pool = Some 32, devices = ()\<rparr>"

lemma desc_ok_dummy: "desc_ok gbms_dummy_dsc"
  by (simp add: desc_ok_def gbms_dummy_dsc_def)


section \<open>Transfers reach the owner of a tag\<close>

text \<open>A provider that does not know a tag answers so and changes nothing, as its contract says.\<close>

definition silent :: "gbms_tag_t \<Rightarrow> 's gbms_storage_provider \<Rightarrow> bool" where
  "silent tag p \<longleftrightarrow> (case prov_dsc p of None \<Rightarrow> True | Some d \<Rightarrow>
     (\<forall>rd data n s. dsc_read d = Some rd \<longrightarrow> rd tag data n (prov_ptr p) s = Some (- ENOENT, data, s)) \<and>
     (\<forall>wr data n s. dsc_write d = Some wr \<longrightarrow> wr tag data n (prov_ptr p) s = Some (- ENOENT, s)))"

definition owns :: "gbms_tag_t \<Rightarrow> nat \<Rightarrow> 's gbms_storage \<Rightarrow> bool" where
  "owns tag i st \<longleftrightarrow> i < gbms_providers_count st \<and> \<not> prov_offline (gbms_providers st ! i) \<and>
     (\<forall>j < gbms_providers_count st. j \<noteq> i \<longrightarrow> silent tag (gbms_providers st ! j)) \<and>
     (\<forall>ce \<in> set (gbms_cache st). ce_tag ce = tag \<longrightarrow> ce_provider ce = i)"

lemma owns_devices [simp]: "owns tag i (set_devices s st) = owns tag i st"
  by (simp add: owns_def)

lemma silent_bodies:
  assumes "storage_ok st" "j < gbms_providers_count st" "silent tag (gbms_providers st ! j)"
  shows "\<exists>l. read_body tag n j (data, st) = Some (- ENOENT, l, data, st)" "\<exists>l. write_body tag data n j st = Some (- ENOENT, l, st)"
  using assms by (auto simp: read_body_def write_body_def provider_at_ok silent_def set_devices_def Let_def split: option.splits)

text \<open>After a transfer the cache has at most one more entry, for the owner.\<close>

lemma add_owner:
  assumes st: "storage_ok st" and o: "owns tag i st" and d: "prov_dsc (gbms_providers st ! i) = Some d"
  shows "\<exists>e st'. (if b then gbms_cache_add tag (Some i) (set_devices s st) else Some (None, set_devices s st)) = Some (e, st') \<and>
    kept st st' \<and> devices st' = s \<and> owns tag i st'"
proof -
  have i: "i < gbms_providers_count (set_devices s st)" "prov_dsc (gbms_providers (set_devices s st) ! i) = Some d"
    using o d by (simp_all add: owns_def)
  show ?thesis using cache_add_ok [OF _ i, of tag] st o by (fastforce simp: kept_def owns_def)
qed

lemma cached_at_owner: "owns tag i st \<Longrightarrow> find (\<lambda>ce. ce_tag ce = tag) (gbms_cache st) = Some ce \<Longrightarrow> ce_provider ce = i"
  by (auto simp: owns_def find_Some_iff)

lemma read_dispatch:
  assumes st: "storage_ok st" "gbms_storage_init_done st" and o: "owns tag i st"
    and d: "prov_dsc (gbms_providers st ! i) = Some d" "dsc_read d = Some rd"
    and buf: "\<not> (data = None \<and> n \<noteq> 0)"
    and r: "rd tag data n (prov_ptr (gbms_providers st ! i)) (devices st) = Some (ret, data', s')" "ret \<noteq> - ENOENT"
  shows "\<exists>st'. gbms_storage_read tag data n st = Some (ret, data', st') \<and> devices st' = s' \<and> kept st st' \<and> owns tag i st'"
proof (cases "find (\<lambda>ce. ce_tag ce = tag) (gbms_cache st)")
  case (Some ce)
  have i: "i < gbms_providers_count st" "\<not> prov_offline (gbms_providers st ! i)" using o by (simp_all add: owns_def)
  have "gbms_cache_read tag n (data, st) = Some (ret, data', set_devices s' st)"
    using Some cached_at_owner [OF o Some] i d r st
    by (simp add: gbms_cache_read_def gbms_cache_lookup_def provider_at_ok Let_def split: option.split)
  then show ?thesis using st buf r(2) o by (auto simp: gbms_storage_read_def kept_def)
next
  case None
  have i: "i < gbms_providers_count st" using o by (simp add: owns_def)
  from add_owner [OF st(1) o d(1)] obtain e st' where
    st': "(if 0 \<le> ret then gbms_cache_add tag (Some i) (set_devices s' st) else Some (None, set_devices s' st)) = Some (e, st')"
      "kept st st'" "devices st' = s'" "owns tag i st'" by blast
  have "read_body tag n i (data, st) = Some (ret, False, data', st')"
    using st'(1) d r i st by (simp add: read_body_def provider_at_ok Let_def)
  moreover have "\<forall>j \<in> set [0..<i]. \<exists>l. read_body tag n j (data, st) = Some (- ENOENT, l, data, st)"
    using silent_bodies(1) [OF st(1), of _ tag n data] o i by (simp add: owns_def)
  ultimately obtain l where "provider_loop (read_body tag n) ([0..<i] @ i # [Suc i..<gbms_providers_count st]) False (data, st) = Some (ret, l, data', st')"
    using provider_loop_first [of "[0..<i]" "read_body tag n" "(data, st)" i ret False "(data', st')"] r(2) by blast
  moreover have "gbms_cache_read tag n (data, st) = Some (- ENOENT, data, st)"
    using None by (simp add: gbms_cache_read_def gbms_cache_lookup_def)
  ultimately show ?thesis using st(2) buf st' r(2)
    by (simp add: gbms_storage_read_def upt_split_at [OF i] defer_late_def del: de_Morgan_conj)
qed

lemma write_dispatch:
  assumes st: "storage_ok st" "gbms_storage_init_done st" and o: "owns tag i st"
    and d: "prov_dsc (gbms_providers st ! i) = Some d" "dsc_write d = Some wr"
    and buf: "\<not> (data = None \<and> n \<noteq> 0)"
    and r: "wr tag data n (prov_ptr (gbms_providers st ! i)) (devices st) = Some (ret, s')" "ret \<noteq> - ENOENT"
  shows "\<exists>st'. gbms_storage_write tag data n st = Some (ret, st') \<and> devices st' = s' \<and> kept st st' \<and> owns tag i st'"
proof (cases "find (\<lambda>ce. ce_tag ce = tag) (gbms_cache st)")
  case (Some ce)
  have i: "i < gbms_providers_count st" "\<not> prov_offline (gbms_providers st ! i)" using o by (simp_all add: owns_def)
  have "gbms_cache_write tag data n st = Some (ret, set_devices s' st)"
    using Some cached_at_owner [OF o Some] i d r st
    by (simp add: gbms_cache_write_def gbms_cache_lookup_def provider_at_ok Let_def split: option.split)
  then show ?thesis using st buf r(2) o by (auto simp: gbms_storage_write_def kept_def)
next
  case None
  have i: "i < gbms_providers_count st" "\<not> prov_offline (gbms_providers st ! i)" using o by (simp_all add: owns_def)
  from add_owner [OF st(1) o d(1)] obtain e st' where
    st': "(if 0 \<le> ret then gbms_cache_add tag (Some i) (set_devices s' st) else Some (None, set_devices s' st)) = Some (e, st')"
      "kept st st'" "devices st' = s'" "owns tag i st'" by blast
  have "write_body tag data n i st = Some (ret, False, st')"
    using st'(1) d r i st by (simp add: write_body_def provider_at_ok Let_def)
  moreover have "\<forall>j \<in> set [0..<i]. \<exists>l. write_body tag data n j st = Some (- ENOENT, l, st)"
    using silent_bodies(2) [OF st(1), of _ tag data n] o i by (simp add: owns_def)
  ultimately obtain l where "provider_loop (write_body tag data n) ([0..<i] @ i # [Suc i..<gbms_providers_count st]) False st = Some (ret, l, st')"
    using provider_loop_first [of "[0..<i]" "write_body tag data n" st i ret False st'] r(2) by blast
  moreover have "gbms_cache_write tag data n st = Some (- ENOENT, st)"
    using None by (simp add: gbms_cache_write_def gbms_cache_lookup_def)
  ultimately show ?thesis using st(2) buf st' r(2)
    by (simp add: gbms_storage_write_def upt_split_at [OF i(1)] defer_late_def del: de_Morgan_conj)
qed

section \<open>The contract of a provider\<close>

text \<open>
  \<open>contents\<close> is what a provider stores under each tag while its device is in a state that is \<open>ok\<close>. A
  read gets it, and a write of a writable tag replaces its beginning and changes no other tag.
\<close>

locale storage_provider =
  fixes dsc :: "'s gbms_storage_desc" and ptr :: nat and ok :: "'s \<Rightarrow> bool"
    and contents :: "'s \<Rightarrow> gbms_tag_t \<Rightarrow> u8 list option" and writable :: "gbms_tag_t \<Rightarrow> bool"
  assumes read_stored: "ok s \<Longrightarrow> contents s tag = Some bs \<Longrightarrow> length bs \<le> n \<Longrightarrow> n \<le> length buf \<Longrightarrow>
      \<exists>rd. dsc_read dsc = Some rd \<and> rd tag (Some buf) n ptr s = Some (int (length bs), Some (bs @ drop (length bs) buf), s)"
    and write_stored: "ok s \<Longrightarrow> writable tag \<Longrightarrow> contents s tag = Some bs \<Longrightarrow> length data \<le> length bs \<Longrightarrow>
      \<exists>wr s'. dsc_write dsc = Some wr \<and> wr tag (Some data) (length data) ptr s = Some (int (length data), s') \<and> ok s' \<and>
        contents s' = (contents s)(tag \<mapsto> data @ drop (length data) bs)"
begin

definition holds :: "nat \<Rightarrow> 's gbms_storage \<Rightarrow> bool" where
  "holds i st \<longleftrightarrow> storage_ok st \<and> gbms_storage_init_done st \<and> prov_dsc (gbms_providers st ! i) = Some dsc \<and>
     prov_ptr (gbms_providers st ! i) = ptr \<and> ok (devices st)"

lemma holds_kept: "holds i st \<Longrightarrow> kept st st' \<Longrightarrow> ok (devices st') \<Longrightarrow> holds i st'"
  by (simp add: holds_def kept_def)

lemma read_back:
  assumes h: "holds i st" and o: "owns tag i st" and c: "contents (devices st) tag = Some bs" "length bs \<le> n" "n \<le> length buf"
  shows "\<exists>st'. gbms_storage_read tag (Some buf) n st = Some (int (length bs), Some (bs @ drop (length bs) buf), st') \<and>
    devices st' = devices st \<and> holds i st' \<and> owns tag i st'"
proof -
  from read_stored [OF _ c] h obtain rd where
    rd: "dsc_read dsc = Some rd" "rd tag (Some buf) n ptr (devices st) = Some (int (length bs), Some (bs @ drop (length bs) buf), devices st)"
    by (auto simp: holds_def)
  from read_dispatch [of st tag i dsc rd "Some buf" n "int (length bs)"] h o rd
  obtain st' where "gbms_storage_read tag (Some buf) n st = Some (int (length bs), Some (bs @ drop (length bs) buf), st')"
    "devices st' = devices st" "kept st st'" "owns tag i st'" by (auto simp: holds_def)
  then show ?thesis using holds_kept [OF h] h by (auto simp: holds_def)
qed

lemma write_through:
  assumes h: "holds i st" and o: "owns tag i st" and w: "writable tag"
    and c: "contents (devices st) tag = Some bs" "length data \<le> length bs"
  shows "\<exists>st'. gbms_storage_write tag (Some data) (length data) st = Some (int (length data), st') \<and>
    contents (devices st') = (contents (devices st))(tag \<mapsto> data @ drop (length data) bs) \<and> kept st st' \<and> holds i st' \<and> owns tag i st'"
proof -
  from write_stored [OF _ w c] h obtain wr s' where
    wr: "dsc_write dsc = Some wr" "wr tag (Some data) (length data) ptr (devices st) = Some (int (length data), s')" "ok s'"
      "contents s' = (contents (devices st))(tag \<mapsto> data @ drop (length data) bs)"
    by (auto simp: holds_def)
  from write_dispatch [of st tag i dsc wr "Some data" "length data" "int (length data)" s'] h o wr
  obtain st' where "gbms_storage_write tag (Some data) (length data) st = Some (int (length data), st')"
    "devices st' = s'" "kept st st'" "owns tag i st'" by (auto simp: holds_def)
  then show ?thesis using holds_kept [OF h] wr by auto
qed

lemma write_read_back:
  assumes "holds i st" "owns tag i st" "writable tag" "contents (devices st) tag = Some bs" "length data \<le> length bs"
    and buf: "length bs \<le> n" "n \<le> length buf"
  shows "\<exists>st' st''. gbms_storage_write tag (Some data) (length data) st = Some (int (length data), st') \<and>
    gbms_storage_read tag (Some buf) n st' = Some (int (length bs), Some (data @ drop (length data) bs @ drop (length bs) buf), st'') \<and>
    contents (devices st'') = (contents (devices st))(tag \<mapsto> data @ drop (length data) bs)"
proof -
  from write_through [OF assms(1-5)] obtain st' where
    w: "gbms_storage_write tag (Some data) (length data) st = Some (int (length data), st')"
      "contents (devices st') = (contents (devices st))(tag \<mapsto> data @ drop (length data) bs)" "holds i st'" "owns tag i st'" by blast
  have "contents (devices st') tag = Some (data @ drop (length data) bs)" "length (data @ drop (length data) bs) = length bs"
    using w(2) assms(5) by simp_all
  from read_back [OF w(3,4) this(1), of n buf] this(2) buf show ?thesis using w(1,2) by auto
qed

end

end
