(* ===== verification/Google_Eeprom_Props.thy ===== *)
theory Google_Eeprom_Props
  imports Google_Eeprom Gbms_Storage_Props
begin

text \<open>
  The memory of the battery pack keeps the contract of a provider in each of its three layouts, so
  that parameters written through the storage are read back and nothing else changes; the history keeps
  its entries apart and survives the change of layout; and the cases where the layouts do not fit.
\<close>

section \<open>Segments of the memory\<close>

definition segment :: "nat \<Rightarrow> nat \<Rightarrow> 'a list \<Rightarrow> 'a list" where
  "segment offset n xs = take n (drop offset xs)"

definition patch :: "nat \<Rightarrow> 'a list \<Rightarrow> 'a list \<Rightarrow> 'a list" where
  "patch offset bs xs = take offset xs @ bs @ drop (offset + length bs) xs"

lemma length_segment [simp]: "offset + n \<le> length xs \<Longrightarrow> length (segment offset n xs) = n"
  by (simp add: segment_def)

lemma length_patch [simp]: "offset + length bs \<le> length xs \<Longrightarrow> length (patch offset bs xs) = length xs"
  by (simp add: patch_def)

lemma nth_segment: "offset + n \<le> length xs \<Longrightarrow> i < n \<Longrightarrow> segment offset n xs ! i = xs ! (offset + i)"
  by (simp add: segment_def)

lemma nth_patch:
  assumes "offset + length bs \<le> length xs" "i < length xs"
  shows "patch offset bs xs ! i = (if offset \<le> i \<and> i < offset + length bs then bs ! (i - offset) else xs ! i)"
  using assms by (auto simp: patch_def nth_append)

lemma patch_Nil [simp]: "patch offset [] xs = xs"
  by (simp add: patch_def)

lemma patch_step: "offset + length (b # bs) \<le> length xs \<Longrightarrow> patch (Suc offset) bs (patch offset [b] xs) = patch offset (b # bs) xs"
  by (rule nth_equalityI) (auto simp: nth_patch nth_Cons')

lemma segment_patch_other:
  "offset + length bs \<le> length xs \<Longrightarrow> a + n \<le> length xs \<Longrightarrow> a + n \<le> offset \<or> offset + length bs \<le> a \<Longrightarrow>
   segment a n (patch offset bs xs) = segment a n xs"
  by (rule nth_equalityI) (auto simp: nth_segment nth_patch)

lemma segment_patch_inside:
  assumes "length bs \<le> n" "offset + n \<le> length xs"
  shows "segment offset n (patch offset bs xs) = bs @ drop (length bs) (segment offset n xs)"
  using assms by (intro nth_equalityI) (auto simp: nth_segment nth_patch nth_append)

lemma segment_patch_within:
  assumes "a \<ge> offset" "a + n \<le> offset + length bs" "offset + length bs \<le> length xs"
  shows "segment a n (patch offset bs xs) = segment (a - offset) n bs"
  using assms by (intro nth_equalityI) (auto simp: nth_segment nth_patch)

section \<open>Accesses that succeed\<close>

text \<open>A memory of at least the given size whose accesses do not fail.\<close>

definition nv_ok :: "nat \<Rightarrow> nvmem_device \<Rightarrow> bool" where
  "nv_ok sz nv \<longleftrightarrow> nv_errors nv = [] \<and> sz \<le> length (nv_bytes nv)"

lemma nvmem_read_ok:
  "nv_ok sz nv \<Longrightarrow> offset + n \<le> sz \<Longrightarrow> nvmem_device_read offset n nv = (int n, segment offset n (nv_bytes nv), nv)"
  by (simp add: nvmem_device_read_def nvmem_access_def nv_ok_def segment_def)

lemma nvmem_write_ok:
  "nv_ok sz nv \<Longrightarrow> offset + length bs \<le> sz \<Longrightarrow>
   nvmem_device_write offset bs nv = (int (length bs), nv\<lparr>nv_bytes := patch offset bs (nv_bytes nv)\<rparr>)"
  by (simp add: nvmem_device_write_def nvmem_access_def nv_ok_def patch_def)

lemma nv_ok_patch [simp]: "nv_ok sz nv \<Longrightarrow> offset + length bs \<le> sz \<Longrightarrow> nv_ok sz (nv\<lparr>nv_bytes := patch offset bs (nv_bytes nv)\<rparr>)"
  by (simp add: nv_ok_def)

lemma nvmem_write_bytes_ok:
  "nv_ok sz nv \<Longrightarrow> offset + length bs \<le> sz \<Longrightarrow>
   nvmem_write_bytes offset bs nv = (0, nv\<lparr>nv_bytes := patch offset bs (nv_bytes nv)\<rparr>)"
proof (induction bs arbitrary: offset nv)
  case (Cons b bs)
  let ?nv = "nv\<lparr>nv_bytes := patch offset [b] (nv_bytes nv)\<rparr>"
  have w: "nvmem_device_write offset [b] nv = (1, ?nv)" using nvmem_write_ok [OF Cons.prems(1), of offset "[b]"] Cons.prems(2) by simp
  have "nv_ok sz ?nv" using nv_ok_patch [OF Cons.prems(1), of offset "[b]"] Cons.prems(2) by simp
  from Cons.IH [OF this, of "Suc offset"] Cons.prems
  have "nvmem_write_bytes (Suc offset) bs ?nv = (0, ?nv\<lparr>nv_bytes := patch offset (b # bs) (nv_bytes nv)\<rparr>)"
    by (simp add: patch_step nv_ok_def)
  then show ?case using w by simp
qed simp

section \<open>Layouts\<close>

text \<open>The table of a layout: its own cases and those of the common table that it does not replace.\<close>

definition gbee_own_cases :: "gbee_dsc \<Rightarrow> (gbms_tag_t \<times> nat \<times> nat) list" where
  "gbee_own_cases d = (case d of Gbee_Storage_Dsc \<Rightarrow> [] | Gbee_Storage01_Dsc \<Rightarrow> gbee_storage01_cases
     | Gbee_Storage02_Dsc \<Rightarrow> gbee_storage02_cases)"

definition gbee_layout :: "gbee_dsc \<Rightarrow> (gbms_tag_t \<times> nat \<times> nat) list" where
  "gbee_layout d = gbee_own_cases d @ filter (\<lambda>c. fst c \<notin> fst ` set (gbee_own_cases d)) gbee_storage_cases"

definition gbee_size :: "gbee_dsc \<Rightarrow> nat" where
  "gbee_size d = (case d of Gbee_Storage02_Dsc \<Rightarrow> 0x2000 | _ \<Rightarrow> 0x400)"

lemma map_of_filter_new: "map_of xs k = None \<Longrightarrow> map_of (filter (\<lambda>c. fst c \<notin> fst ` set xs) ys) k = map_of ys k"
  by (induction ys) (auto simp: map_of_eq_None_iff)

lemma gbee_info_layout:
  assumes "gbee_desc s = Some d"
  shows "GBEE_STORAGE_INFO tag s = (case map_of (gbee_layout d) tag of Some ac \<Rightarrow> Inr ac | None \<Rightarrow> Inl (- ENOENT))"
proof -
  have "map_of (gbee_layout d) tag = (case map_of (gbee_own_cases d) tag of Some ac \<Rightarrow> Some ac | None \<Rightarrow> map_of gbee_storage_cases tag)"
    by (cases "map_of (gbee_own_cases d) tag") (simp_all add: gbee_layout_def map_add_def map_of_filter_new)
  then show ?thesis using assms
    by (cases d) (simp_all add: GBEE_STORAGE_INFO_def gbee_storage_info_def gbee_storage01_info_def gbee_storage02_info_def gbee_own_cases_def
        split: option.split)
qed

lemma gbee_layout_simps:
  "gbee_layout Gbee_Storage_Dsc = gbee_storage_cases"
  "gbee_layout Gbee_Storage01_Dsc = gbee_storage01_cases @ filter (\<lambda>c. fst c \<notin> fst ` set gbee_storage01_cases) gbee_storage_cases"
  "gbee_layout Gbee_Storage02_Dsc = gbee_storage02_cases @ filter (\<lambda>c. fst c \<notin> fst ` set gbee_storage02_cases) gbee_storage_cases"
  by (simp_all add: gbee_layout_def gbee_own_cases_def)

lemma gbee_layout_bounds: "(tag, a, n) \<in> set (gbee_layout d) \<Longrightarrow> 0 < n \<and> a + n \<le> gbee_size d"
proof -
  have "\<forall>(tag, a, n) \<in> set (gbee_layout d). 0 < n \<and> a + n \<le> gbee_size d"
    by (cases d) (simp_all add: gbee_layout_simps gbee_storage_cases_def gbee_storage01_cases_def gbee_storage02_cases_def gbee_size_def)
  then show "(tag, a, n) \<in> set (gbee_layout d) \<Longrightarrow> 0 < n \<and> a + n \<le> gbee_size d" by blast
qed

text \<open>
  The tags of the manufacturer lie in the first 30 bytes, one over the other; all others are disjoint,
  and those that can be written lie behind.
\<close>

definition apart :: "gbms_tag_t \<times> nat \<times> nat \<Rightarrow> gbms_tag_t \<times> nat \<times> nat \<Rightarrow> bool" where
  "apart c c' \<longleftrightarrow> (case (c, c') of ((_, a, n), (_, a', n')) \<Rightarrow> a + n \<le> a' \<or> a' + n' \<le> a \<or> a < 30 \<and> a' < 30)"

lemma gbee_layout_apart: "sorted_wrt apart (gbee_layout d)"
  by (cases d) (simp_all add: gbee_layout_simps gbee_storage_cases_def gbee_storage01_cases_def gbee_storage02_cases_def apart_def)

lemma gbee_layout_writable: "\<forall>(t, a, n) \<in> set (gbee_layout d). gbee_storage_is_writable t \<longrightarrow> 30 \<le> a"
  by (cases d) (simp_all add: gbee_layout_simps gbee_storage_cases_def gbee_storage01_cases_def gbee_storage02_cases_def gbee_storage_is_writable_def)

lemma sorted_wrt_sym_distinct:
  assumes "sorted_wrt R xs" "\<And>x y. R x y \<Longrightarrow> R y x" "x \<in> set xs" "y \<in> set xs" "x \<noteq> y"
  shows "R x y"
proof -
  from assms(3,4) obtain i j where ij: "i < length xs" "xs ! i = x" "j < length xs" "xs ! j = y" by (auto simp: in_set_conv_nth)
  then have "i < j \<or> j < i" using assms(5) by (metis linorder_neqE_nat)
  then show ?thesis using assms(1,2) ij by (auto simp: sorted_wrt_iff_nth_less)
qed

text \<open>Written tags overlap no other tag.\<close>

lemma gbee_layout_disjoint:
  assumes "(t, a, n) \<in> set (gbee_layout d)" "gbee_storage_is_writable t" "(t', a', n') \<in> set (gbee_layout d)" "t' \<noteq> t"
  shows "a + n \<le> a' \<or> a' + n' \<le> a"
proof -
  have "apart x y \<Longrightarrow> apart y x" for x y by (auto simp: apart_def split: prod.splits)
  then have "apart (t, a, n) (t', a', n')" using sorted_wrt_sym_distinct [OF gbee_layout_apart _ assms(1,3)] assms(4) by blast
  moreover have "30 \<le> a" using gbee_layout_writable [of d] assms(1,2) by auto
  ultimately show ?thesis by (simp add: apart_def)
qed

section \<open>The contract of a provider\<close>

definition gbee_ok :: "gbee_dsc \<Rightarrow> gbee \<Rightarrow> bool" where
  "gbee_ok d s \<longleftrightarrow> nv_ok (gbee_size d) (gbee_nvram s) \<and> gbee_desc s = Some d"

text \<open>What is stored under a tag. The tag of the resistor id is apart: it is read as a word of 4 bytes.\<close>

definition gbee_contents :: "gbee_dsc \<Rightarrow> gbee \<Rightarrow> gbms_tag_t \<Rightarrow> u8 list option" where
  "gbee_contents d s tag = (if tag = GBMS_TAG_BRID then None
     else map_option (\<lambda>(a, n). segment a n (nv_bytes (gbee_nvram s))) (map_of (gbee_layout d) tag))"

lemma gbee_contents_entry:
  assumes "gbee_contents d s tag = Some bs" "gbee_ok d s"
  obtains a n where "(tag, a, n) \<in> set (gbee_layout d)" "map_of (gbee_layout d) tag = Some (a, n)" "tag \<noteq> GBMS_TAG_BRID"
    "GBEE_STORAGE_INFO tag s = Inr (a, n)" "0 < n" "a + n \<le> gbee_size d" "bs = segment a n (nv_bytes (gbee_nvram s))" "length bs = n"
proof -
  from assms(1) obtain a n where e: "map_of (gbee_layout d) tag = Some (a, n)" "tag \<noteq> GBMS_TAG_BRID" "bs = segment a n (nv_bytes (gbee_nvram s))"
    by (auto simp: gbee_contents_def split: if_splits)
  note m = map_of_SomeD [OF e(1)]
  have b: "0 < n" "a + n \<le> gbee_size d" using gbee_layout_bounds [OF m] by simp_all
  have "length bs = n" using e(3) b assms(2) by (simp add: gbee_ok_def nv_ok_def)
  moreover have "GBEE_STORAGE_INFO tag s = Inr (a, n)" using assms(2) e(1) by (simp add: gbee_ok_def gbee_info_layout)
  ultimately show thesis using that [OF m e(1,2) _ b e(3)] by blast
qed

lemma gbee_dsc_callbacks [simp]:
  "dsc_read (gbee_desc_of d) = Some gbee_storage_read" "dsc_write (gbee_desc_of d) = Some gbee_storage_write"
  "dsc_flush (gbee_desc_of d) = None"
  by (cases d; simp add: gbee_desc_of_def gbee_storage_dsc_def gbee_storage01_dsc_def gbee_storage02_dsc_def gbms_dummy_dsc_def)+

lemma gbee_contents_patch:
  assumes w: "gbee_storage_is_writable tag" and e: "map_of (gbee_layout d) tag = Some (a, n)" and ok: "nv_ok (gbee_size d) (gbee_nvram s)"
    and l: "length data \<le> n" and nb: "tag \<noteq> GBMS_TAG_BRID"
  shows "gbee_contents d (s\<lparr>gbee_nvram := (gbee_nvram s)\<lparr>nv_bytes := patch a data (nv_bytes (gbee_nvram s))\<rparr>\<rparr>) =
    (gbee_contents d s)(tag \<mapsto> data @ drop (length data) (segment a n (nv_bytes (gbee_nvram s))))" (is "?l = ?r")
proof
  fix t
  let ?b = "nv_bytes (gbee_nvram s)"
  have a: "a + n \<le> length ?b" using gbee_layout_bounds [OF map_of_SomeD [OF e]] ok by (simp add: nv_ok_def)
  show "?l t = ?r t"
  proof (cases "t = tag")
    case True
    then show ?thesis using e nb l a by (simp add: gbee_contents_def segment_patch_inside)
  next
    case False
    have "segment a' n' (patch a data ?b) = segment a' n' ?b" if t: "map_of (gbee_layout d) t = Some (a', n')" for a' n'
    proof (rule segment_patch_other)
      show "a' + n' \<le> length ?b" using gbee_layout_bounds [OF map_of_SomeD [OF t]] ok by (simp add: nv_ok_def)
      show "a' + n' \<le> a \<or> a + length data \<le> a'"
        using gbee_layout_disjoint [OF map_of_SomeD [OF e] w map_of_SomeD [OF t] False] l by linarith
    qed (use a l in simp)
    then show ?thesis using False by (cases "map_of (gbee_layout d) t") (auto simp: gbee_contents_def)
  qed
qed

interpretation gbee: storage_provider "gbee_desc_of d" ptr "gbee_ok d" "gbee_contents d" gbee_storage_is_writable
  for d :: gbee_dsc and ptr :: nat
proof
  fix s tag bs n and buf :: "u8 list"
  assume ok: "gbee_ok d s" and c: "gbee_contents d s tag = Some bs" and l: "length bs \<le> n" "n \<le> length buf"
  from gbee_contents_entry [OF c ok] obtain a k where e: "tag \<noteq> GBMS_TAG_BRID" "GBEE_STORAGE_INFO tag s = Inr (a, k)" "0 < k"
    "a + k \<le> gbee_size d" "bs = segment a k (nv_bytes (gbee_nvram s))" "length bs = k" by metis
  show "\<exists>rd. dsc_read (gbee_desc_of d) = Some rd \<and> rd tag (Some buf) n ptr s = Some (int (length bs), Some (bs @ drop (length bs) buf), s)"
    using e l ok nvmem_read_ok [of "gbee_size d" "gbee_nvram s" a k] by (simp add: gbee_storage_read_def gbee_ok_def buf_store_def)
next
  fix s tag bs and data :: "u8 list"
  assume ok: "gbee_ok d s" and w: "gbee_storage_is_writable tag" and c: "gbee_contents d s tag = Some bs" and l: "length data \<le> length bs"
  from gbee_contents_entry [OF c ok] obtain a k where e: "map_of (gbee_layout d) tag = Some (a, k)" "tag \<noteq> GBMS_TAG_BRID"
    "GBEE_STORAGE_INFO tag s = Inr (a, k)" "a + k \<le> gbee_size d" "bs = segment a k (nv_bytes (gbee_nvram s))" "length bs = k" by metis
  let ?s = "s\<lparr>gbee_nvram := (gbee_nvram s)\<lparr>nv_bytes := patch a data (nv_bytes (gbee_nvram s))\<rparr>\<rparr>"
  have nv: "nv_ok (gbee_size d) (gbee_nvram s)" using ok by (simp add: gbee_ok_def)
  have "gbee_storage_write tag (Some data) (length data) ptr s = Some (int (length data), ?s)"
    using w e l nvmem_write_bytes_ok [OF nv, of a data] by (simp add: gbee_storage_write_def buf_take_def)
  moreover have "gbee_ok d ?s" using ok e(4,6) l nv_ok_patch [OF nv, of a data] by (simp add: gbee_ok_def)
  moreover have "gbee_contents d ?s = (gbee_contents d s)(tag \<mapsto> data @ drop (length data) bs)"
    using gbee_contents_patch [OF w e(1) nv _ e(2), of data] l e(5,6) by simp
  ultimately show "\<exists>wr s'. dsc_write (gbee_desc_of d) = Some wr \<and> wr tag (Some data) (length data) ptr s = Some (int (length data), s') \<and>
      gbee_ok d s' \<and> gbee_contents d s' = (gbee_contents d s)(tag \<mapsto> data @ drop (length data) bs)" by auto
qed

text \<open>
  C17: A parameter written to the battery pack is read back. In every reachable state of the storage in
  which the memory is registered and works, in each layout, writing a writable tag through the
  storage returns the number of bytes; reading it, with or without help of the cache, gives the
  new bytes followed by the old rest; and no other tag of the memory has changed.
\<close>

theorem eeprom_write_read_back:
  assumes st: "gbms_reachable st" "gbms_storage_init_done st" "gbee_ok d (devices st)"
    and slot: "prov_dsc (gbms_providers st ! i) = Some (gbee_desc_of d)" "owns tag i st"
    and tag: "gbee_storage_is_writable tag" "gbee_contents d (devices st) tag = Some bs" "length data \<le> length bs"
    and buf: "length bs \<le> n" "n \<le> length buf"
  shows "\<exists>st' st''. gbms_storage_write tag (Some data) (length data) st = Some (int (length data), st') \<and>
    gbms_storage_read tag (Some buf) n st' = Some (int (length bs), Some (data @ drop (length data) bs @ drop (length bs) buf), st'') \<and>
    (\<forall>t. t \<noteq> tag \<longrightarrow> gbee_contents d (devices st'') t = gbee_contents d (devices st) t)"
proof -
  have "gbee.holds d (prov_ptr (gbms_providers st ! i)) i st"
    using st slot(1) reachable_storage_ok by (simp add: gbee.holds_def)
  from gbee.write_read_back [OF this slot(2) tag buf] show ?thesis by fastforce
qed

text \<open>A new memory, registered with the storage under the default layout.\<close>

definition sample_pack :: "gbee gbms_storage" where
  "sample_pack = \<lparr>gbms_storage_init_done = True, gbms_providers_count = 0,
     gbms_providers = replicate GBMS_PROVIDERS_MAX empty_provider, gbms_cache = [], gbms_cache_pool = Some 32,
     devices = \<lparr>gbee_nvram = \<lparr>nv_bytes = replicate 0x400 0xff, nv_errors = []\<rparr>, gbee_desc = None\<rparr>\<rparr>"

definition sample_registered :: "gbee gbms_storage" where
  "sample_registered = sample_pack\<lparr>gbms_providers_count := 1,
     gbms_providers := (replicate GBMS_PROVIDERS_MAX empty_provider)[0 := \<lparr>prov_name = ''bee'', prov_dsc = Some gbee_storage_dsc, prov_offline = False, prov_ptr = 0\<rparr>],
     devices := (devices sample_pack)\<lparr>gbee_desc := Some Gbee_Storage_Dsc\<rparr>\<rparr>"

lemma sample_register: "gbee_register_device True (Some ''bee'') GBMS_LOTR_DEFAULT sample_pack = Some (0, sample_registered)"
  by (simp add: gbee_register_device_def gbms_lotr_2_dsc_def GBMS_LOTR_DEFAULT_def GBMS_LOTR_V1_def GBMS_LOTR_V2_def gbms_lotr_update_def
      nvmem_device_read_def nvmem_access_def sample_pack_def sample_registered_def gbee_desc_of_def gbms_storage_register_def
      gbms_storage_register_internal_def GBMS_PROVIDER_NAME_MAX_def gbms_storage_find_slot_def GBMS_PROVIDERS_MAX_def provider_at_def
      set_provider_def empty_provider_def set_devices_def Let_def)

text \<open>The callbacks return for every buffer that is as long as claimed.\<close>

lemma nvmem_read_length: "nvmem_device_read offset n nv = (ret, bs, nv') \<Longrightarrow> length bs \<le> n"
  by (auto simp: nvmem_device_read_def split: prod.splits if_splits)

lemma buf_store_fits: "length bs \<le> n \<Longrightarrow> buffer_ok (Some b) n \<Longrightarrow> \<exists>b'. buf_store bs (Some b) = Some (Some b') \<and> buffer_ok (Some b') n"
  by (simp add: buf_store_def buffer_ok_def)

lemma gbee_read_total:
  assumes "buffer_ok data n"
  shows "\<exists>ret data' s'. gbee_storage_read tag data n ptr s = Some (ret, data', s') \<and> buffer_ok data' n"
proof (cases data)
  case None
  then show ?thesis using assms by (auto simp: gbee_storage_read_def buffer_ok_def split: sum.split prod.split)
next
  case (Some b)
  have store: "\<exists>b'. buf_store bs data = Some b' \<and> buffer_ok b' n" if "length bs \<le> n" for bs
    using buf_store_fits [OF that] Some assms by blast
  have brid: "length (bs @ [0, 0, 0]) \<le> n" if "nvmem_device_read 23 1 nv = (ret, bs, nv')" "n = 4" for ret bs nv nv'
    using nvmem_read_length [OF that(1)] that(2) by simp
  have entry: "length bs \<le> n" if "nvmem_device_read a len nv = (ret, bs, nv')" "\<not> n < len" for a len ret bs nv nv'
    using nvmem_read_length [OF that(1)] that(2) by simp
  show ?thesis using assms store [OF brid] store [OF entry]
    by (fastforce simp: gbee_storage_read_def split: sum.split prod.split)
qed

lemma hist_read_total:
  assumes "buffer_ok data n"
  shows "\<exists>ret data' s'. hist_read cnt info tag data n idx s = Some (ret, data', s') \<and> buffer_ok data' n"
proof (cases data)
  case None
  then show ?thesis using assms by (auto simp: hist_read_def split: sum.split)
next
  case (Some b)
  have "\<exists>b'. buf_store bs data = Some b' \<and> buffer_ok b' n" if "nvmem_device_read a len nv = (ret, bs, nv')" "\<not> n < len" for a len ret bs nv nv'
    using buf_store_fits [of bs n b] nvmem_read_length [OF that(1)] that(2) Some assms by auto
  then show ?thesis using assms by (fastforce simp: hist_read_def split: sum.split prod.split)
qed

lemma gbee_desc_ok: "desc_ok (gbee_desc_of d)"
proof -
  have "\<exists>ret s'. gbee_storage_write tag data n ptr s = Some (ret, s')" if "buffer_ok data n" for tag data n ptr s
    using that by (auto simp: gbee_storage_write_def buffer_ok_def buf_take_def split: sum.split prod.split option.splits)
  moreover have "\<exists>ret data' s'. rd tag data n idx ptr s = Some (ret, data', s') \<and> buffer_ok data' n"
    if "dsc_read_data (gbee_desc_of d) = Some rd" "buffer_ok data n" for rd tag data n idx ptr s
    using that hist_read_total
    by (cases d) (auto simp: gbee_desc_of_def gbee_storage_dsc_def gbee_storage01_dsc_def gbee_storage02_dsc_def
        gbee_storage_read_data_def gbee_storage_read_data_02_def)
  ultimately show ?thesis using gbee_read_total by (simp add: desc_ok_def)
qed

lemma gbee_register_reachable:
  assumes "gbms_reachable st" "gbee_register_device alloc name lotr st = Some (ret, st')"
  shows "gbms_reachable st'"
proof -
  obtain r nv where nv: "gbms_lotr_update alloc lotr (gbee_nvram (devices st)) = Some (r, nv)"
    using assms(2) by (cases "gbms_lotr_update alloc lotr (gbee_nvram (devices st))") (auto simp: gbee_register_device_def)
  let ?st = "set_devices ((devices st)\<lparr>gbee_nvram := nv, gbee_desc := Some (gbms_lotr_2_dsc lotr)\<rparr>) st"
  have 1: "gbms_reachable ?st" by (rule gbms_reachable.step [OF assms(1) gbms_step.device])
  show ?thesis
  proof (cases "r < 0")
    case True
    then show ?thesis using assms(2) nv gbms_reachable.step [OF 1 gbms_step.device] by (auto simp: gbee_register_device_def Let_def)
  next
    case False
    then obtain r2 st2 where reg: "gbms_storage_register (Some (gbee_desc_of (gbms_lotr_2_dsc lotr))) name 0 ?st = Some (r2, st2)"
      using assms(2) nv by (auto simp: gbee_register_device_def Let_def split: bind_split_asm)
    have "gbms_reachable st2" by (rule gbms_reachable.step [OF 1 gbms_step.register [OF reg gbee_desc_ok]])
    then show ?thesis using assms(2) nv False reg gbms_reachable.step [OF _ gbms_step.device]
      by (auto simp: gbee_register_device_def Let_def split: if_splits)
  qed
qed

lemma sample_pack_reachable: "gbms_reachable sample_registered"
proof -
  have "gbms_reachable sample_pack" by (rule gbms_reachable.start) (simp add: storage_start_def sample_pack_def)
  then show ?thesis using gbee_register_reachable sample_register by blast
qed

theorem eeprom_write_read_back_witness:
  "\<exists>st' st''. gbms_storage_write GBMS_TAG_CNHS (Some [1, 2]) 2 sample_registered = Some (2, st') \<and>
     gbms_storage_read GBMS_TAG_CNHS (Some [0, 0, 0, 0]) 4 st' = Some (2, Some [1, 2, 0, 0], st'')"
proof -
  note reach = sample_pack_reachable
  have ok: "gbms_storage_init_done sample_registered" "gbee_ok Gbee_Storage_Dsc (devices sample_registered)"
    by (simp_all add: sample_registered_def sample_pack_def gbee_ok_def nv_ok_def gbee_size_def)
  have slot: "prov_dsc (gbms_providers sample_registered ! 0) = Some (gbee_desc_of Gbee_Storage_Dsc)" "owns GBMS_TAG_CNHS 0 sample_registered"
    by (simp_all add: sample_registered_def sample_pack_def gbee_desc_of_def owns_def GBMS_PROVIDERS_MAX_def)
  have tag: "gbee_storage_is_writable GBMS_TAG_CNHS" "gbee_contents Gbee_Storage_Dsc (devices sample_registered) GBMS_TAG_CNHS = Some (replicate 2 0xff)"
    by (simp_all add: gbee_storage_is_writable_def gbee_contents_def gbee_layout_simps gbee_storage_cases_def segment_def sample_registered_def
        sample_pack_def)
  show ?thesis using eeprom_write_read_back [OF reach ok slot tag, of "[1, 2]" 4 "[0, 0, 0, 0]"] by (auto simp: numeral_2_eq_2 [symmetric])
qed

section \<open>History\<close>

definition hist_offset :: "gbee_dsc \<Rightarrow> nat" where
  "hist_offset d = (case d of Gbee_Storage01_Dsc \<Rightarrow> 0x64 | _ \<Rightarrow> 0x5E)"

definition hist_entry :: "gbee_dsc \<Rightarrow> gbee \<Rightarrow> nat \<Rightarrow> u8 list" where
  "hist_entry d s i = segment (hist_offset d + 12 * i) 12 (nv_bytes (gbee_nvram s))"

definition hist_max :: "gbee_dsc \<Rightarrow> nat" where
  "hist_max d = (case d of Gbee_Storage02_Dsc \<Rightarrow> 200 | _ \<Rightarrow> 75)"

lemma hist_info:
  "gbee_desc s = Some d \<Longrightarrow> GBEE_STORAGE_INFO GBMS_TAG_HIST s = Inr (hist_offset d, 12)"
  "gbee_storage02_info GBMS_TAG_HIST = Inr (hist_offset Gbee_Storage02_Dsc, 12)"
  by (cases d; simp add: GBEE_STORAGE_INFO_def gbee_storage_info_def gbee_storage01_info_def gbee_storage02_info_def hist_offset_def
      gbee_storage_cases_def gbee_storage01_cases_def gbee_storage02_cases_def)+

lemma hist_fits: "i < hist_max d \<Longrightarrow> hist_offset d + 12 * i + 12 \<le> gbee_size d"
  by (cases d) (simp_all add: hist_max_def hist_offset_def gbee_size_def)

lemma hist_read_ok:
  assumes ok: "gbee_ok d s" and i: "i < hist_max d" and buf: "12 \<le> n" "n \<le> length buf"
  obtains rd where "dsc_read_data (gbee_desc_of d) = Some rd"
    "rd GBMS_TAG_HIST (Some buf) n (int i) ptr s = Some (12, Some (hist_entry d s i @ drop 12 buf), s)"
proof -
  have nv: "nv_ok (gbee_size d) (gbee_nvram s)" "gbee_desc s = Some d" using ok by (simp_all add: gbee_ok_def)
  note r = nvmem_read_ok [OF nv(1) hist_fits [OF i]]
  have l: "length (hist_entry d s i) = 12" using hist_fits [OF i] nv(1) by (simp add: hist_entry_def nv_ok_def)
  have "hist_read (int (hist_max d)) info GBMS_TAG_HIST (Some buf) n (int i) s = Some (12, Some (hist_entry d s i @ drop 12 buf), s)"
    if "info GBMS_TAG_HIST s = Inr (hist_offset d, 12)" for info
    using that i buf r l by (simp add: hist_read_def buf_store_def hist_entry_def)
  from this [of GBEE_STORAGE_INFO] this [of "\<lambda>tag s. gbee_storage02_info tag"] hist_info(1) [OF nv(2)] hist_info(2)
  show thesis using that
    by (cases d) (simp_all add: gbee_desc_of_def gbee_storage_dsc_def gbee_storage01_dsc_def gbee_storage02_dsc_def
        gbee_storage_read_data_def gbee_storage_read_data_02_def hist_max_def BATT_MAX_HIST_CNT_def BATT_MAX_HIST_CNT_02_def)
qed

lemma hist_write_ok:
  assumes ok: "gbee_ok d s" and i: "i < 75" and l: "length data = 12"
  defines "s' \<equiv> s\<lparr>gbee_nvram := (gbee_nvram s)\<lparr>nv_bytes := patch (hist_offset d + 12 * i) data (nv_bytes (gbee_nvram s))\<rparr>\<rparr>"
  shows "gbee_storage_write_data GBMS_TAG_HIST (Some data) 12 (int i) ptr s = Some (12, s')" "gbee_ok d s'"
    "j < hist_max d \<Longrightarrow> hist_entry d s' j = (if j = i then data else hist_entry d s j)"
proof -
  have nv: "nv_ok (gbee_size d) (gbee_nvram s)" "gbee_desc s = Some d" using ok by (simp_all add: gbee_ok_def)
  have i': "i < hist_max d" using i by (cases d) (simp_all add: hist_max_def)
  note f = hist_fits [OF i']
  show "gbee_storage_write_data GBMS_TAG_HIST (Some data) 12 (int i) ptr s = Some (12, s')"
    using nvmem_write_bytes_ok [OF nv(1), of "hist_offset d + 12 * i" data] f i l hist_info(1) [OF nv(2)]
    by (simp add: gbee_storage_write_data_def BATT_MAX_HIST_CNT_def buf_take_def s'_def)
  show "gbee_ok d s'" using ok nv_ok_patch [OF nv(1)] f l by (simp add: gbee_ok_def s'_def)
  show "hist_entry d s' j = (if j = i then data else hist_entry d s j)" if j: "j < hist_max d"
  proof (cases "j = i")
    case True
    then show ?thesis using segment_patch_inside [of data 12 "hist_offset d + 12 * i"] f l nv(1) by (simp add: hist_entry_def s'_def nv_ok_def)
  next
    case False
    then have "12 * j + 12 \<le> 12 * i \<or> 12 * i + 12 \<le> 12 * j" by arith
    then show ?thesis using False segment_patch_other [of "hist_offset d + 12 * i" data _ "hist_offset d + 12 * j" 12] f hist_fits [OF j] l nv(1)
      by (simp add: hist_entry_def s'_def nv_ok_def)
  qed
qed

text \<open>
  C18: Entries of the battery's history are kept apart. In each layout, writing one of the first 75
  entries and reading any entry gives the new data for that entry and the old data for all others.
\<close>

theorem history_entries_independent:
  assumes ok: "gbee_ok d s" and i: "i < 75" and l: "length data = 12" and j: "j < hist_max d" and buf: "length buf = 12"
  shows "\<exists>s' rd. gbee_storage_write_data GBMS_TAG_HIST (Some data) 12 (int i) ptr s = Some (12, s') \<and>
    dsc_read_data (gbee_desc_of d) = Some rd \<and>
    rd GBMS_TAG_HIST (Some buf) 12 (int j) ptr s' = Some (12, Some (if j = i then data else hist_entry d s j), s')"
proof -
  define s' where "s' = s\<lparr>gbee_nvram := (gbee_nvram s)\<lparr>nv_bytes := patch (hist_offset d + 12 * i) data (nv_bytes (gbee_nvram s))\<rparr>\<rparr>"
  note w = hist_write_ok [OF ok i l, folded s'_def]
  obtain rd where "dsc_read_data (gbee_desc_of d) = Some rd"
    "rd GBMS_TAG_HIST (Some buf) 12 (int j) ptr s' = Some (12, Some (hist_entry d s' j @ drop 12 buf), s')"
    using hist_read_ok [OF w(2) j, of 12 buf ptr] buf by auto
  then show ?thesis using w(1) w(3) [OF j] buf by auto
qed

definition sample_gbee :: gbee where
  "sample_gbee = \<lparr>gbee_nvram = \<lparr>nv_bytes = replicate 0x400 0xff, nv_errors = []\<rparr>, gbee_desc = Some Gbee_Storage_Dsc\<rparr>"

lemma sample_gbee_ok: "gbee_ok Gbee_Storage_Dsc sample_gbee"
  by (simp add: gbee_ok_def sample_gbee_def nv_ok_def gbee_size_def)

theorem history_entries_independent_witness:
  "\<exists>s' rd. gbee_storage_write_data GBMS_TAG_HIST (Some (replicate 12 1)) 12 74 0 sample_gbee = Some (12, s') \<and>
     dsc_read_data (gbee_desc_of Gbee_Storage_Dsc) = Some rd \<and>
     rd GBMS_TAG_HIST (Some (replicate 12 0)) 12 74 0 s' = Some (12, Some (replicate 12 1), s')"
  using history_entries_independent [OF sample_gbee_ok, of 74 "replicate 12 1" 74 "replicate 12 0" 0] by (simp add: hist_max_def)

text \<open>
  The third layout has room for 200 entries, and 200 can be read. The function that writes is the
  one of the first layout, with its limit of 75.
\<close>

lemma history_v2_not_writable:
  assumes "gbee_ok Gbee_Storage02_Dsc s" "75 \<le> i" "i < 200" "length data = 12"
  shows "gbee_storage_write_data GBMS_TAG_HIST (Some data) 12 (int i) ptr s = Some (- ENODATA, s)"
    "\<exists>rd. dsc_read_data gbee_storage02_dsc = Some rd \<and> rd GBMS_TAG_HIST (Some data) 12 (int i) ptr s = Some (12, Some (hist_entry Gbee_Storage02_Dsc s i), s)"
proof -
  show "gbee_storage_write_data GBMS_TAG_HIST (Some data) 12 (int i) ptr s = Some (- ENODATA, s)"
    using assms by (simp add: gbee_storage_write_data_def hist_info gbee_ok_def BATT_MAX_HIST_CNT_def)
  show "\<exists>rd. dsc_read_data gbee_storage02_dsc = Some rd \<and> rd GBMS_TAG_HIST (Some data) 12 (int i) ptr s = Some (12, Some (hist_entry Gbee_Storage02_Dsc s i), s)"
    using hist_read_ok [OF assms(1), of i 12 data ptr] assms(3,4) by (auto simp: hist_max_def gbee_desc_of_def)
qed

text \<open>In the second layout the last entry of the history lies over three parameters.\<close>

lemma history_v1_overlaps:
  assumes "gbee_ok Gbee_Storage01_Dsc s" "length data = 12"
  shows "\<exists>s'. gbee_storage_write_data GBMS_TAG_HIST (Some data) 12 74 ptr s = Some (12, s') \<and>
    gbee_contents Gbee_Storage01_Dsc s' GBMS_TAG_FCRU = Some (segment 6 2 data) \<and>
    gbee_contents Gbee_Storage01_Dsc s' GBMS_TAG_FGST = Some (segment 8 1 data) \<and>
    gbee_contents Gbee_Storage01_Dsc s' GBMS_TAG_AYMD = Some (segment 9 3 data)"
  using hist_write_ok(1) [OF assms(1) _ assms(2), of 74 ptr] assms
  by (simp add: hist_offset_def gbee_contents_def gbee_layout_simps gbee_storage_cases_def gbee_storage01_cases_def
      segment_patch_within gbee_ok_def nv_ok_def gbee_size_def)

text \<open>A buffer shorter than an entry passes the check of its length, and is read past its end.\<close>

lemma history_write_reads_past_buffer:
  assumes "gbee_ok d s" "0 < length data" "length data < 12" "i < 75"
  shows "gbee_storage_write_data GBMS_TAG_HIST (Some data) (length data) (int i) ptr s = None"
  using assms by (simp add: gbee_storage_write_data_def hist_info gbee_ok_def BATT_MAX_HIST_CNT_def buf_take_def)

section \<open>Change of layout\<close>

text \<open>The number of entries in use: up to the first that starts with 0xff.\<close>

fun hist_used :: "nat \<Rightarrow> nat \<Rightarrow> u8 list \<Rightarrow> nat" where
  "hist_used 0 from xs = 0"
| "hist_used (Suc k) from xs = (if xs ! from = 0xff then 0 else Suc (hist_used k (from + 12) xs))"

lemma hist_used_le: "hist_used k from xs \<le> k"
  by (induction k arbitrary: "from") auto

lemma segment_append: "segment a (n + k) xs = segment a n xs @ segment (a + n) k xs"
  unfolding segment_def take_add drop_drop by (simp add: add.commute)

lemma segment_one: "a < length xs \<Longrightarrow> segment a 1 xs = [xs ! a]"
  by (simp add: segment_def Cons_nth_drop_Suc [symmetric])

lemma segment_0 [simp]: "segment a 0 xs = []"
  by (simp add: segment_def)

lemma segment_segment: "i + k \<le> n \<Longrightarrow> segment i k (segment a n xs) = segment (a + i) k xs"
  by (simp add: segment_def drop_take add.commute min_def)

lemma hist_collect_ok:
  assumes "nv_ok sz nv" "from + 12 * k \<le> sz" "0 \<le> ret"
  shows "\<exists>r. hist_collect k from ret nv = Some (r, segment from (12 * hist_used k from (nv_bytes nv)) (nv_bytes nv), nv) \<and> 0 \<le> r"
  using assms(2,3)
proof (induction k arbitrary: "from" ret)
  case 0
  then show ?case by simp
next
  case (Suc k)
  let ?bs = "segment from 12 (nv_bytes nv)"
  have r: "nvmem_device_read from 12 nv = (12, ?bs, nv)" using nvmem_read_ok [OF assms(1), of "from" 12] Suc.prems by simp
  have l: "from + 12 \<le> length (nv_bytes nv)" using Suc.prems assms(1) by (simp add: nv_ok_def)
  then have "?bs = nv_bytes nv ! from # tl ?bs" using nth_segment [OF l, of 0] length_segment [OF l] by (cases ?bs) auto
  then obtain t where bs: "?bs = nv_bytes nv ! from # t" ..
  obtain r' where "hist_collect k (from + 12) 12 nv = Some (r', segment (from + 12) (12 * hist_used k (from + 12) (nv_bytes nv)) (nv_bytes nv), nv)" "0 \<le> r'"
    using Suc.IH [of "from + 12" 12] Suc.prems by auto
  then show ?case using r bs segment_append [of "from" 12 "12 * hist_used k (from + 12) (nv_bytes nv)" "nv_bytes nv"]
    by (simp add: BATT_ONE_HIST_LEN_def)
qed

text \<open>
  C19: The history survives the change to the second layout. When the memory works and is in
  the default layout, the change is reported as done, the layout is recorded, each entry of the history
  that was in use is found unchanged at its new place, and what lies in front of the layout byte
  or behind the moved entries is as before.
\<close>

theorem lotr_update_keeps_history:
  assumes nv: "nv_ok 0x400 nv" "nv_bytes nv ! 0x59 = 0xff"
  defines "u \<equiv> hist_used 75 0x5E (nv_bytes nv)"
  shows "\<exists>nv'. gbms_lotr_update True GBMS_LOTR_V1 nv = Some (1, nv') \<and> nv_ok 0x400 nv' \<and> nv_bytes nv' ! 0x59 = 1 \<and>
    (\<forall>i < u. segment (0x64 + 12 * i) 12 (nv_bytes nv') = segment (0x5E + 12 * i) 12 (nv_bytes nv)) \<and>
    segment 0x5E 5 (nv_bytes nv') = replicate 5 0 \<and>
    (\<forall>k < length (nv_bytes nv). k < 0x59 \<or> 0x64 + 12 * u \<le> k \<longrightarrow> nv_bytes nv' ! k = nv_bytes nv ! k)"
proof -
  let ?b = "nv_bytes nv"
  have len: "0x400 \<le> length ?b" using nv(1) by (simp add: nv_ok_def)
  have u: "u \<le> 75" unfolding u_def by (rule hist_used_le)
  define b1 where "b1 = patch 0x64 (segment 0x5E (12 * u) ?b) ?b"
  define b2 where "b2 = patch 0x5E (replicate 5 0) b1"
  define b3 where "b3 = patch 0x59 [1] b2"
  have ls: "length (segment 0x5E (12 * u) ?b) = 12 * u" using u len by simp
  have lens: "length b1 = length ?b" "length b2 = length ?b" "length b3 = length ?b" using u len ls by (simp_all add: b1_def b2_def b3_def)
  have upd: "nv_ok 0x400 (nv\<lparr>nv_bytes := b\<rparr>)" if "length b = length ?b" for b using nv(1) that by (simp add: nv_ok_def)
  have move: "\<exists>r. gbms_hist_move True 0x5E 0x64 nv = Some (r, nv\<lparr>nv_bytes := b1\<rparr>) \<and> 0 \<le> r"
    using hist_collect_ok [of "0x400" nv "0x5E" 75 0] nv(1) nvmem_write_ok [OF nv(1), of "0x64" "segment 0x5E (12 * u) ?b"] ls u
    by (auto simp: gbms_hist_move_def BATT_MAX_HIST_CNT_def b1_def u_def [symmetric])
  have "nvmem_device_write 0x5E (replicate 5 0) (nv\<lparr>nv_bytes := b1\<rparr>) = (5, nv\<lparr>nv_bytes := b2\<rparr>)"
    using nvmem_write_ok [OF upd [OF lens(1)], of "0x5E" "replicate 5 0"] by (simp add: b2_def)
  with move have v1: "gbms_lotr_update_to_v1 True nv = Some (5, nv\<lparr>nv_bytes := b2\<rparr>)" by (auto simp: gbms_lotr_update_to_v1_def)
  have "nvmem_device_write 0x59 [1] (nv\<lparr>nv_bytes := b2\<rparr>) = (1, nv\<lparr>nv_bytes := b3\<rparr>)"
    using nvmem_write_ok [OF upd [OF lens(2)], of "0x59" "[1]"] by (simp add: b3_def)
  moreover have "nvmem_device_read 0x59 1 nv = (1, [0xff], nv)"
    using nvmem_read_ok [OF nv(1), of "0x59" 1] segment_one [of "0x59" ?b] len nv(2) by simp
  ultimately have "gbms_lotr_update True GBMS_LOTR_V1 nv = Some (1, nv\<lparr>nv_bytes := b3\<rparr>)"
    using v1 by (simp add: gbms_lotr_update_def GBMS_LOTR_V1_def GBMS_LOTR_DEFAULT_def lotr_write_def)
  moreover have "segment (0x64 + 12 * i) 12 b3 = segment (0x5E + 12 * i) 12 ?b" if i: "i < u" for i
    using i u len lens ls by (simp add: b1_def b2_def b3_def segment_patch_other segment_patch_within segment_segment)
  moreover have "segment 0x5E 5 b3 = replicate 5 0"
    using lens len by (simp add: b2_def b3_def segment_patch_other segment_patch_inside)
  moreover have "b3 ! k = ?b ! k" if "k < length ?b" "k < 0x59 \<or> 0x64 + 12 * u \<le> k" for k
    using that lens len ls u by (auto simp: b1_def b2_def b3_def nth_patch)
  moreover have "b3 ! 0x59 = 1" using lens len by (simp add: b3_def nth_patch)
  ultimately show ?thesis using upd [OF lens(3)] by auto
qed

theorem lotr_update_keeps_history_witness:
  "\<exists>nv'. gbms_lotr_update True GBMS_LOTR_V1 \<lparr>nv_bytes = (replicate 0x400 0xff)[0x5E := 7], nv_errors = []\<rparr> = Some (1, nv') \<and>
     segment 0x64 12 (nv_bytes nv') = 7 # replicate 11 0xff"
proof -
  let ?b = "(replicate 0x400 0xff)[0x5E := 7 :: u8]" and ?nv = "\<lparr>nv_bytes = (replicate 0x400 0xff)[0x5E := 7 :: u8], nv_errors = []\<rparr>"
  have "nv_ok 0x400 ?nv" "nv_bytes ?nv ! 0x59 = 0xff" by (simp_all add: nv_ok_def)
  from lotr_update_keeps_history [OF this] obtain nv' where nv': "gbms_lotr_update True GBMS_LOTR_V1 ?nv = Some (1, nv')"
    "\<forall>i < hist_used 75 0x5E ?b. segment (0x64 + 12 * i) 12 (nv_bytes nv') = segment (0x5E + 12 * i) 12 ?b" by auto
  have "0 < hist_used 75 0x5E ?b" using hist_used.simps(2) [of 74 "0x5E" ?b] by simp
  with nv'(2) have "segment 0x64 12 (nv_bytes nv') = segment 0x5E 12 ?b" by fastforce
  moreover have "segment 0x5E 12 ?b = 7 # replicate 11 0xff"
    by (rule nth_equalityI) (auto simp: nth_segment nth_Cons' nth_list_update)
  ultimately show ?thesis using nv'(1) by auto
qed

end
