(* ===== verification/Gbms_Storage_Dev_Props.thy ===== *)
theory Gbms_Storage_Dev_Props
  imports Gbms_Storage_Dev Google_Eeprom_Props
begin

text \<open>
  The storage as its users see it: the device lists the history of the battery, a missing memory is
  given up after a bounded number of attempts, the search for a tag ends, and a request to go offline
  never reaches the provider it names.
\<close>

section \<open>The device of the history\<close>

text \<open>Enumerations are not cached: the first provider that knows the tag answers.\<close>

definition silent_data :: "gbms_tag_t \<Rightarrow> 's gbms_storage_provider \<Rightarrow> bool" where
  "silent_data tag p \<longleftrightarrow> (case prov_dsc p of None \<Rightarrow> True | Some d \<Rightarrow>
     (\<forall>rd data n idx s. dsc_read_data d = Some rd \<longrightarrow> rd tag data n idx (prov_ptr p) s = Some (- ENOENT, data, s)))"

definition lists :: "gbms_tag_t \<Rightarrow> nat \<Rightarrow> 's gbms_storage \<Rightarrow> bool" where
  "lists tag i st \<longleftrightarrow> i < gbms_providers_count st \<and> \<not> prov_offline (gbms_providers st ! i) \<and>
     (\<forall>j < i. silent_data tag (gbms_providers st ! j))"

lemma set_devices_same [simp]: "set_devices (devices st) st = st"
  by (simp add: set_devices_def)

lemma silent_data_body:
  assumes "storage_ok st" "j < gbms_providers_count st" "silent_data tag (gbms_providers st ! j)"
  shows "\<exists>l. read_data_body tag n idx j (data, st) = Some (- ENOENT, l, data, st)"
  using assms by (auto simp: read_data_body_def provider_at_ok silent_data_def split: option.splits)

lemma read_data_dispatch:
  assumes st: "storage_ok st" "gbms_storage_init_done st" and o: "lists tag i st"
    and d: "prov_dsc (gbms_providers st ! i) = Some d" "dsc_read_data d = Some rd"
    and buf: "\<not> (data = None \<and> n \<noteq> 0)"
    and r: "rd tag data n idx (prov_ptr (gbms_providers st ! i)) (devices st) = Some (ret, data', s')" "ret \<noteq> - ENOENT"
  shows "gbms_storage_read_data tag data n idx st = Some (ret, data', set_devices s' st)"
proof -
  have i: "i < gbms_providers_count st" "\<not> prov_offline (gbms_providers st ! i)" using o by (simp_all add: lists_def)
  have "read_data_body tag n idx i (data, st) = Some (ret, False, data', set_devices s' st)"
    using d r i st by (simp add: read_data_body_def provider_at_ok)
  moreover have "\<forall>j \<in> set [0..<i]. \<exists>l. read_data_body tag n idx j (data, st) = Some (- ENOENT, l, data, st)"
    using silent_data_body [OF st(1), of _ tag n idx data] o i by (simp add: lists_def)
  ultimately obtain l where "provider_loop (read_data_body tag n idx) ([0..<i] @ i # [Suc i..<gbms_providers_count st]) False (data, st)
      = Some (ret, l, data', set_devices s' st)"
    using provider_loop_first [of "[0..<i]" "read_data_body tag n idx" "(data, st)" i ret False "(data', set_devices s' st)"] r(2) by blast
  then show ?thesis using st(2) buf r(2)
    by (simp add: gbms_storage_read_data_def upt_split_at [OF i(1)] defer_late_def del: de_Morgan_conj)
qed

lemma hist_count_ok:
  assumes "gbee_ok d s"
  obtains rd where "dsc_read_data (gbee_desc_of d) = Some rd"
    "\<And>idx. rd GBMS_TAG_HIST None 0 idx ptr s = Some (if idx = - 1 then 0 else int (hist_max d), None, s)"
proof -
  have "gbee_desc s = Some d" using assms by (simp add: gbee_ok_def)
  then show thesis using that
    by (cases d) (simp_all add: gbee_desc_of_def gbee_storage_dsc_def gbee_storage01_dsc_def gbee_storage02_dsc_def gbee_storage_read_data_def
        gbee_storage_read_data_02_def hist_read_def hist_info hist_max_def BATT_MAX_HIST_CNT_def BATT_MAX_HIST_CNT_02_def GBMS_STORAGE_INDEX_INVALID_def)
qed

lemma seq_run_lists:
  assumes st: "storage_ok st" "gbms_storage_init_done st" "gbee_ok d (devices st)"
    and slot: "prov_dsc (gbms_providers st ! i) = Some (gbee_desc_of d)" "lists GBMS_TAG_HIST i st"
    and g: "ce_tag (gd_entry gdev) = GBMS_TAG_HIST" "ce_count (gd_entry gdev) = 12" "gd_count gdev = int (hist_max d)"
      "gd_index gdev = int k" "k < hist_max d"
  shows "seq_run gdev st = Some (map (hist_entry d (devices st)) [k..<hist_max d], st)"
  using g(1-4) g(5)
proof (induction "hist_max d - k" arbitrary: gdev k)
  case (Suc m)
  let ?e = "hist_entry d (devices st) k"
  have l: "length ?e = 12" using hist_fits [OF Suc.prems(5)] st(3) by (simp add: hist_entry_def gbee_ok_def nv_ok_def)
  obtain rd where rd: "dsc_read_data (gbee_desc_of d) = Some rd"
    "rd GBMS_TAG_HIST (Some (replicate 12 0)) 12 (int k) (prov_ptr (gbms_providers st ! i)) (devices st) = Some (12, Some ?e, devices st)"
    using hist_read_ok [OF st(3) Suc.prems(5), of 12 "replicate 12 0" "prov_ptr (gbms_providers st ! i)"] by auto
  have "gbms_storage_read_data GBMS_TAG_HIST (Some (replicate 12 0)) 12 (int k) st = Some (12, Some ?e, st)"
    using read_data_dispatch [OF st(1,2) slot(2,1) rd(1) _ rd(2)] by simp
  then have show_k: "ct_seq_show gdev (replicate (ce_count (gd_entry gdev)) 0) st = Some (0, ?e, st)"
    using Suc.prems l by (simp add: ct_seq_show_def)
  let ?g = "gdev\<lparr>gd_index := int k + 1\<rparr>"
  show ?case
  proof (cases "Suc k < hist_max d")
    case True
    then have "seq_run ?g st = Some (map (hist_entry d (devices st)) [Suc k..<hist_max d], st)"
      using Suc.hyps(1) [of "Suc k" ?g] Suc.hyps(2) Suc.prems by simp
    moreover have "ct_seq_next gdev = (Some (int k + 1), ?g)" using True Suc.prems by (simp add: ct_seq_next_def Let_def)
    ultimately show ?thesis using show_k Suc.prems(5) by (simp add: seq_run.simps [of gdev] upt_conv_Cons)
  next
    case False
    then have "ct_seq_next gdev = (None, ?g)" "hist_max d = Suc k" using Suc.prems by (simp_all add: ct_seq_next_def)
    then show ?thesis using show_k by (simp add: seq_run.simps [of gdev])
  qed
qed simp

text \<open>
  C20: The device of the battery's history lists the whole history. Reading it hands out the entries from
  the first to the last that the layout has room for, in order and each once, and ends; the
  storage is left as it was.
\<close>

theorem history_device_lists_all:
  assumes st: "gbms_reachable st" "gbms_storage_init_done st" "gbee_ok d (devices st)"
    and slot: "prov_dsc (gbms_providers st ! i) = Some (gbee_desc_of d)" "lists GBMS_TAG_HIST i st"
    and g: "ce_tag (gd_entry gdev) = GBMS_TAG_HIST" "ce_count (gd_entry gdev) = 12"
  shows "gbms_storage_dev_read gdev st = Some (map (hist_entry d (devices st)) [0..<hist_max d], st)"
proof -
  note ok = reachable_storage_ok [OF st(1)]
  obtain rd where rd: "dsc_read_data (gbee_desc_of d) = Some rd"
    "\<And>idx. rd GBMS_TAG_HIST None 0 idx (prov_ptr (gbms_providers st ! i)) (devices st) = Some (if idx = - 1 then 0 else int (hist_max d), None, devices st)"
    using hist_count_ok [OF st(3)] by metis
  have count: "gbms_storage_read_data GBMS_TAG_HIST None 0 idx st = Some (if idx = - 1 then 0 else int (hist_max d), None, st)" for idx
    using read_data_dispatch [OF ok st(2) slot(2,1) rd(1) _ rd(2) [of idx]] by simp
  have max: "0 < hist_max d" by (cases d) (simp_all add: hist_max_def)
  let ?g = "gdev\<lparr>gd_count := int (hist_max d), gd_index := 0\<rparr>"
  have "seq_run ?g st = Some (map (hist_entry d (devices st)) [0..<hist_max d], st)"
    using seq_run_lists [OF ok st(2,3) slot, of ?g 0] g max by simp
  then show ?thesis using count max g
    by (simp add: gbms_storage_dev_read_def ct_seq_start_def ct_seq_stop_def GBMS_STORAGE_INDEX_INVALID_def)
qed

theorem history_device_lists_all_witness:
  "\<exists>gdev. gbms_storage_create_device True GBMS_TAG_HIST sample_registered = Some (Some gdev) \<and>
     gbms_storage_dev_read gdev sample_registered = Some (replicate 75 (replicate 12 0xff), sample_registered)"
proof -
  let ?gdev = "\<lparr>gd_entry = \<lparr>ce_provider = 0, ce_tag = GBMS_TAG_HIST, ce_count = 12, ce_addr = 0x5E\<rparr>, gd_index = 0, gd_count = 0\<rparr>"
  note reach = sample_pack_reachable
  have ok: "gbms_storage_init_done sample_registered" "gbee_ok Gbee_Storage_Dsc (devices sample_registered)"
    "prov_dsc (gbms_providers sample_registered ! 0) = Some (gbee_desc_of Gbee_Storage_Dsc)" "lists GBMS_TAG_HIST 0 sample_registered"
    by (simp_all add: sample_registered_def sample_pack_def gbee_ok_def nv_ok_def gbee_size_def gbee_desc_of_def lists_def GBMS_PROVIDERS_MAX_def)
  have "hist_entry Gbee_Storage_Dsc (devices sample_registered) i = replicate 12 0xff" if "i < 75" for i
    using that by (simp add: hist_entry_def segment_def sample_registered_def sample_pack_def hist_offset_def min_def)
  then have "map (hist_entry Gbee_Storage_Dsc (devices sample_registered)) [0..<75] = replicate 75 (replicate 12 0xff)"
    by (simp add: list_eq_iff_nth_eq)
  then have "gbms_storage_dev_read ?gdev sample_registered = Some (replicate 75 (replicate 12 0xff), sample_registered)"
    using history_device_lists_all [OF reach ok, of ?gdev] by (simp add: hist_max_def)
  moreover have "gbms_storage_create_device True GBMS_TAG_HIST sample_registered = Some (Some ?gdev)"
    by (simp add: gbms_storage_create_device_def create_body_def provider_at_def sample_registered_def sample_pack_def GBMS_PROVIDERS_MAX_def
        gbee_storage_dsc_def gbms_dummy_dsc_def gbee_storage_info_def gbee_storage_cases_def)
  ultimately show ?thesis by blast
qed

section \<open>Finding a tag ends\<close>

lemma find_tag_keys:
  assumes "0 \<le> i" "i \<le> int (length keys)"
  shows "find_tag (iter_keys keys) tag i = Some (if tag \<in> set (drop (nat i) keys) then 1 else 0)"
  using assms
proof (induction "length keys - nat i" arbitrary: i)
  case 0
  then have "i = int (length keys)" by simp
  then show ?case by (subst find_tag.simps) (simp add: iter_keys_def)
next
  case (Suc m)
  then have i: "nat i < length keys" by simp
  have "find_tag (iter_keys keys) tag (i + 1) = Some (if tag \<in> set (drop (nat (i + 1)) keys) then 1 else 0)"
    using Suc by (intro Suc.hyps(1)) auto
  moreover have "drop (nat i) keys = keys ! nat i # drop (nat (i + 1)) keys"
    using Cons_nth_drop_Suc [OF i] Suc.prems by (simp add: nat_add_distrib)
  ultimately show ?case using Suc.prems i by (subst find_tag.simps) (auto simp: iter_keys_def)
qed

text \<open>For the memory of the battery pack the search for a tag ends, with the answer whether it is listed.\<close>

lemma gbee_find_ends:
  assumes "prov_dsc slot = Some (gbee_desc_of d)"
  shows "\<exists>keys. gbms_find slot tag s = Some (if tag \<in> set keys then 1 else 0)"
proof -
  have "dsc_iter (gbee_desc_of d) = Some (\<lambda>i ptr s. gbee_storage_iter i) \<or> dsc_iter (gbee_desc_of d) = Some (\<lambda>i ptr s. gbee_storage01_iter i)"
    by (cases d) (simp_all add: gbee_desc_of_def gbee_storage_dsc_def gbee_storage01_dsc_def gbee_storage02_dsc_def)
  then obtain keys where "dsc_iter (gbee_desc_of d) = Some (\<lambda>i ptr s. iter_keys keys i)"
    using gbee_storage_iter_def gbee_storage01_iter_def by metis
  then show ?thesis using assms find_tag_keys [of 0 keys tag] by (auto simp: gbms_find_def)
qed

section \<open>A missing memory is given up\<close>

fun probe_rounds :: "bool \<Rightarrow> nat \<Rightarrow> gbee_data \<times> gbee gbms_storage \<Rightarrow> (gbee_data \<times> gbee gbms_storage) option" where
  "probe_rounds alloc 0 x = Some x"
| "probe_rounds alloc (Suc n) x = do { x \<leftarrow> gbee_probe_work alloc False x; probe_rounds alloc n x }"

lemma probe_rounds_waiting:
  assumes "bee_status beed = GBEE_STATUS_PROBE" "k \<le> bee_poll_retries beed" "bee_work_scheduled beed"
  shows "probe_rounds alloc k (beed, st) = Some (beed\<lparr>bee_poll_retries := bee_poll_retries beed - k\<rparr>, st)"
  using assms
proof (induction k arbitrary: beed)
  case (Suc k)
  let ?b = "beed\<lparr>bee_poll_retries := bee_poll_retries beed - 1\<rparr>"
  have "gbee_probe_work alloc False (beed, st) = Some (?b, st)" using Suc.prems by (simp add: gbee_probe_work_def Let_def)
  moreover have "probe_rounds alloc k (?b, st) = Some (?b\<lparr>bee_poll_retries := bee_poll_retries ?b - k\<rparr>, st)"
    using Suc.prems by (intro Suc.IH) auto
  ultimately show ?case by simp
qed simp

lemma probe_rounds_add: "probe_rounds alloc (m + n) x = do { x \<leftarrow> probe_rounds alloc m x; probe_rounds alloc n x }"
  by (induction m arbitrary: x) (auto split: bind_splits)

text \<open>A storage with the one provider that was announced, there or not.\<close>

definition one_provider :: "bool \<Rightarrow> string \<Rightarrow> 's gbms_storage_desc option \<Rightarrow> 's \<Rightarrow> 's gbms_storage" where
  "one_provider pool name desc s = \<lparr>gbms_storage_init_done = True, gbms_providers_count = 1,
     gbms_providers = \<lparr>prov_name = name, prov_dsc = desc, prov_offline = False, prov_ptr = 0\<rparr> # replicate 5 empty_provider,
     gbms_cache = [], gbms_cache_pool = (if pool then Some 32 else None), devices = s\<rparr>"

lemma read_one_provider:
  assumes "\<not> (data = None \<and> n \<noteq> 0)"
  shows "gbms_storage_read tag data n (one_provider pool name None s) = Some (- EPROBE_DEFER, data, one_provider pool name None s)"
    "gbms_storage_read tag data n (one_provider pool name (Some gbms_dummy_dsc) s) = Some (- ENOENT, data, one_provider pool name (Some gbms_dummy_dsc) s)"
  using assms
  by (simp_all add: gbms_storage_read_def gbms_cache_read_def gbms_cache_lookup_def one_provider_def read_body_def provider_at_def
      defer_late_def gbms_dummy_dsc_def del: de_Morgan_conj)



section \<open>Going offline\<close>

lemma strn_eq_prefix: "strn_eq (length a) a b \<longleftrightarrow> take (length a) b = a"
  by (auto simp: strn_eq_def)

lemma find_slot_loop_busy:
  assumes "\<forall>p \<in> set ps. prov_dsc p \<noteq> None"
  shows "find_slot_loop name ps n = (if \<exists>p \<in> set ps. take (length (prov_name p)) name = prov_name p then Inl (- EBUSY) else Inr (n + length ps))"
  using assms by (induction ps arbitrary: n) (auto simp: strn_eq_prefix)

text \<open>
  A request to take a provider offline goes through the search for a place to register, so it is the
  same as a registration. When all announced providers are there, a name that begins with
  the name of one of them is refused with \<open>EBUSY\<close> and nothing changes, so no provider that is there can be taken
  offline; and any other name succeeds while there is a place left and puts that place offline,
  so that the provider that registers there next is offline from its first moment.
\<close>

theorem offline_takes_next_provider:
  assumes "storage_ok st" "gbms_storage_init_done st"
    and there: "\<forall>i < gbms_providers_count st. prov_dsc (gbms_providers st ! i) \<noteq> None"
  shows "(if \<exists>i < gbms_providers_count st. take (length (prov_name (gbms_providers st ! i))) name = prov_name (gbms_providers st ! i)
      then \<forall>flush. gbms_storage_offline name flush st = Some (- EBUSY, st)
      else if gbms_providers_count st = GBMS_PROVIDERS_MAX then \<forall>flush. gbms_storage_offline name flush st = Some (- ENOMEM, st)
      else \<exists>st'. gbms_storage_offline name False st = Some (0, st') \<and>
        (length name < GBMS_PROVIDER_NAME_MAX \<longrightarrow>
          (\<exists>st''. gbms_storage_register (Some d) (Some name) ptr st' = Some (0, st'') \<and>
             prov_dsc (gbms_providers st'' ! gbms_providers_count st) = Some d \<and> prov_offline (gbms_providers st'' ! gbms_providers_count st))))"
proof -
  let ?n = "gbms_providers_count st"
  let ?ps = "take ?n (gbms_providers st)"
  have len: "length (gbms_providers st) = 6" "?n \<le> 6" using assms(1) by (auto simp: storage_ok_def GBMS_PROVIDERS_MAX_def)
  have in_ps: "p \<in> set ?ps \<longleftrightarrow> (\<exists>i < ?n. p = gbms_providers st ! i)" for p
    using len by (auto simp: in_set_conv_nth)
  then have "\<forall>p \<in> set ?ps. prov_dsc p \<noteq> None" using there by auto
  then have find: "find_slot_loop name ?ps 0 = (if \<exists>p \<in> set ?ps. take (length (prov_name p)) name = prov_name p then Inl (- EBUSY) else Inr ?n)"
    using len by (subst find_slot_loop_busy) (auto simp: min_def)
  show ?thesis
  proof (cases "\<exists>i < ?n. take (length (prov_name (gbms_providers st ! i))) name = prov_name (gbms_providers st ! i)")
    case True
    then have "\<exists>p \<in> set ?ps. take (length (prov_name p)) name = prov_name p" using in_ps by auto
    then show ?thesis using True find assms(2) by (simp add: gbms_storage_offline_def gbms_storage_find_slot_def)
  next
    case False
    then have "\<not> (\<exists>p \<in> set ?ps. take (length (prov_name p)) name = prov_name p)" using in_ps by auto
    then have slot: "find_slot_loop name ?ps 0 = Inr ?n" using find by simp
    show ?thesis
    proof (cases "?n = GBMS_PROVIDERS_MAX")
      case True
      then show ?thesis using False slot assms(2) by (simp add: gbms_storage_offline_def gbms_storage_find_slot_def)
    next
      case free: False
      let ?st = "set_provider ?n ((gbms_providers st ! ?n)\<lparr>prov_offline := True\<rparr>) st"
      have n: "?n < 6" using free len by (simp add: GBMS_PROVIDERS_MAX_def)
      have "gbms_storage_offline name False st = Some (0, ?st)"
        using free slot assms(2) n len by (simp add: gbms_storage_offline_def gbms_storage_find_slot_def provider_at_def)
      moreover have "find_slot_loop name (take ?n (gbms_providers ?st)) 0 = Inr ?n" using slot by (simp add: set_provider_def)
      ultimately have "\<exists>st'. gbms_storage_offline name False st = Some (0, st') \<and> (length name < GBMS_PROVIDER_NAME_MAX \<longrightarrow>
          (\<exists>st''. gbms_storage_register (Some d) (Some name) ptr st' = Some (0, st'') \<and>
             prov_dsc (gbms_providers st'' ! ?n) = Some d \<and> prov_offline (gbms_providers st'' ! ?n)))"
        using free assms(2) n len
        by (auto simp: gbms_storage_register_def gbms_storage_register_internal_def gbms_storage_find_slot_def provider_at_def set_provider_def)
      then show ?thesis using False free by (simp only: if_False)
    qed
  qed
qed

theorem offline_takes_next_provider_witness:
  "gbms_storage_offline ''bee0'' True sample_registered = Some (- EBUSY, sample_registered) \<and>
   (\<exists>st'. gbms_storage_offline ''x'' False sample_registered = Some (0, st') \<and>
     (\<exists>st''. gbms_storage_register (Some gbms_dummy_dsc) (Some ''x'') 0 st' = Some (0, st'') \<and> prov_offline (gbms_providers st'' ! 1)))"
proof -
  have ok: "storage_ok sample_registered" "gbms_storage_init_done sample_registered"
    "\<forall>i < gbms_providers_count sample_registered. prov_dsc (gbms_providers sample_registered ! i) \<noteq> None"
    using reachable_storage_ok [OF sample_pack_reachable] by (simp, simp_all add: sample_registered_def sample_pack_def GBMS_PROVIDERS_MAX_def)
  show ?thesis using offline_takes_next_provider [OF ok, of "''bee0''" gbms_dummy_dsc 0] offline_takes_next_provider [OF ok, of "''x''" gbms_dummy_dsc 0]
    by (auto simp: sample_registered_def sample_pack_def GBMS_PROVIDERS_MAX_def GBMS_PROVIDER_NAME_MAX_def)
qed

end
