(* ===== verification/Bigo.thy ===== *)
theory Bigo
  imports Kernel_Prelude "HOL-Library.Monad_Syntax"
begin

text \<open>
  The driver of the video codec BigOcean, \<^verbatim>\<open>src/google-modules/video/gchips\<close>: instances that user space
  opens, one job per instance, a queue by priority (\<^verbatim>\<open>bigo_prioq.c\<close>), a worker thread that runs the jobs on the
  chip (\<^verbatim>\<open>bigo.c\<close>, \<^verbatim>\<open>bigo_io.c\<close>), buffers (\<^verbatim>\<open>bigo_iommu.c\<close>), frequency and bandwidth (\<^verbatim>\<open>bigo_pm.c\<close>) and the tables of
  the device tree (\<^verbatim>\<open>bigo_of.c\<close>).

  An instance is at an address, and its job is known by the same address. The chip is a parameter \<open>hw\<close> with
  a state of its own, which acts on the registers whenever the driver waits. \<open>zuma\<close> is the configuration
  \<open>CONFIG_SOC_ZUMA\<close>. The result \<^const>\<open>None\<close> is a fault: an access outside an array or a list, to a freed
  instance, or a reference count that drops below zero.
\<close>

unbundle bit_operations_syntax

section \<open>Data\<close>

record bufinfo =
  buf_dmabuf :: nat
  buf_size :: u32
  buf_offset :: u32
  buf_fd :: int
  buf_iova :: u64

record bigo_opp =
  opp_freq_khz :: u32
  opp_load_pps :: u32

record bigo_bw =
  bw_load_pps :: u32
  rd_bw :: u32
  wr_bw :: u32
  pk_bw :: u32
  rd_bw_afbc :: u32
  wr_bw_afbc :: u32
  pk_bw_afbc :: u32
  rd_bw_enc :: u32
  wr_bw_enc :: u32
  pk_bw_enc :: u32

record bts_bw =
  bts_read :: u32
  bts_write :: u32
  bts_peak :: u32

text \<open>A completion is the number of times it was signalled and not yet waited for.\<close>

record bigo_inst =
  bi_buffers :: "bufinfo list"
  bi_refcount :: nat
  bi_height :: u32
  bi_width :: u32
  bi_fps :: u32
  bi_is_secure :: u32
  bi_priority :: int
  bi_job_comp :: nat
  bi_regs :: "u32 list"
  bi_status :: int
  bi_bpp :: u32
  bi_idle :: bool
  bi_is_decoder_usage :: bool
  bi_afbc :: bool

text \<open>
  \<open>bo_insts\<close> are the allocated instances and \<open>bo_instances\<close> the list of the open ones. The requests for quality of service are
  \<^const>\<open>None\<close> while they are not active. \<open>bo_dma_refs\<close> counts the references of the driver to each
  buffer, \<open>bo_dma_attached\<close> its attachments. \<open>bo_ssmt\<close> are the registers of the cache partition, if mapped.
\<close>

record 'h bigo_core =
  bo_insts :: "nat \<Rightarrow> bigo_inst option"
  bo_instances :: "nat list"
  bo_queue :: "nat list list"
  bo_bitmap :: u64
  bo_opps :: "bigo_opp list"
  bo_bws :: "bigo_bw list"
  bo_max_load :: u32
  bo_bwindex :: int
  bo_qos_bigo :: "u32 option"
  bo_qos_mif :: "u32 option"
  bo_bts :: bts_bw
  bo_qos_dirty :: bool
  bo_regs :: "u32 list"
  bo_regs_size :: nat
  bo_stat_with_irq :: u32
  bo_frame_done :: nat
  bo_set_freq :: u32
  bo_trigger_ssr :: u32
  bo_timeout :: u32
  bo_ip_ver :: u32
  bo_pt_hnd :: bool
  bo_pid :: int
  bo_slc_size :: nat
  bo_ssmt :: "(nat \<Rightarrow> u32) option"
  bo_worker_thread :: bool
  bo_dma_refs :: "nat \<Rightarrow> int"
  bo_dma_attached :: "nat \<Rightarrow> int"
  bo_hw :: 'h

definition BO_MAX_PRIO :: nat where "BO_MAX_PRIO = 2"
definition BIGO_MAX_INST_NUM :: nat where "BIGO_MAX_INST_NUM = 16"
definition BIGO_DISABLE_TIMEOUT_MS :: nat where "BIGO_DISABLE_TIMEOUT_MS = 10"

abbreviation (input) BIGO_REG_STAT :: int where "BIGO_REG_STAT \<equiv> 8"
abbreviation (input) BIGO_STAT_ENABLE :: u32 where "BIGO_STAT_ENABLE \<equiv> 0x1"
abbreviation (input) BIGO_STAT_MODE :: u32 where "BIGO_STAT_MODE \<equiv> 0x2"
abbreviation (input) BIGO_STAT_IRQ :: u32 where "BIGO_STAT_IRQ \<equiv> 0x40"
abbreviation (input) BIGO_STAT_CODING_MODE :: u32 where "BIGO_STAT_CODING_MODE \<equiv> 0x600000"
abbreviation (input) BIGO_STAT_IRQMASK :: u32 where "BIGO_STAT_IRQMASK \<equiv> 0x7c"
abbreviation (input) LARGE_LOAD_MIF_FLOOR :: u32 where "LARGE_LOAD_MIF_FLOOR \<equiv> 1539000"
abbreviation (input) BIGW_A0_CSR_PROG_FREQ :: u32 where "BIGW_A0_CSR_PROG_FREQ \<equiv> 166000"

definition upd_inst :: "nat \<Rightarrow> (bigo_inst \<Rightarrow> bigo_inst) \<Rightarrow> 'h bigo_core \<Rightarrow> 'h bigo_core option" where
  "upd_inst a f core = map_option (\<lambda>i. core\<lparr>bo_insts := (bo_insts core)(a := Some (f i))\<rparr>) (bo_insts core a)"

section \<open>The queue by priority\<close>

definition find_job_from_prioq :: "nat \<Rightarrow> 'h bigo_core \<Rightarrow> bool" where
  "find_job_from_prioq a core \<longleftrightarrow> (\<exists>q \<in> set (take BO_MAX_PRIO (bo_queue core)). a \<in> set q)"

text \<open>\<open>set_bit\<close> and \<open>clear_bit\<close> of the kernel.\<close>

definition set_bit_at :: "nat \<Rightarrow> u64 \<Rightarrow> u64" where
  "set_bit_at n x = x OR push_bit n 1"

definition clear_bit_at :: "nat \<Rightarrow> u64 \<Rightarrow> u64" where
  "clear_bit_at n x = x AND NOT (push_bit n 1)"

definition enqueue_prioq :: "nat \<Rightarrow> 'h bigo_core \<Rightarrow> (int \<times> 'h bigo_core) option" where
  "enqueue_prioq a core =
     (if find_job_from_prioq a core then Some (- EINVAL, core)
      else do {
        inst \<leftarrow> bo_insts core a;
        q \<leftarrow> arr_get (bo_queue core) (bi_priority inst);
        Some (0, core\<lparr>bo_queue := (bo_queue core)[nat (bi_priority inst) := q @ [a]],
                      bo_bitmap := set_bit_at (nat (bi_priority inst)) (bo_bitmap core)\<rparr>) })"

text \<open>\<open>ffs\<close>: one plus the index of the lowest bit that is set, or 0; the argument is an \<open>int\<close>.\<close>

definition ffs :: "u64 \<Rightarrow> int" where
  "ffs x = (case find (bit x) [0..<32] of None \<Rightarrow> 0 | Some i \<Rightarrow> int i + 1)"

text \<open>Whether the thread should stop, the first test of the function, is a step of its own in \<open>Bigo_Race\<close>.\<close>

definition dequeue_prioq :: "'h bigo_core \<Rightarrow> (nat option \<times> 'h bigo_core) option" where
  "dequeue_prioq core =
     (let high_prio = ffs (bo_bitmap core) - 1 in
      if high_prio < 0 then Some (None, core)
      else do {
        q \<leftarrow> arr_get (bo_queue core) high_prio;
        case q of
          [] \<Rightarrow> Some (None, core)
        | a # q \<Rightarrow> Some (Some a, core\<lparr>bo_queue := (bo_queue core)[nat high_prio := q],
            bo_bitmap := (if q = [] then clear_bit_at (nat high_prio) (bo_bitmap core) else bo_bitmap core)\<rparr>) })"

definition clear_job_from_prioq :: "nat \<Rightarrow> 'h bigo_core \<Rightarrow> bool \<times> 'h bigo_core" where
  "clear_job_from_prioq a core =
     (find_job_from_prioq a core,
      core\<lparr>bo_queue := map (remove1 a) (take BO_MAX_PRIO (bo_queue core)) @ drop BO_MAX_PRIO (bo_queue core)\<rparr>)"

section \<open>Load, frequency and bandwidth\<close>

definition inst_load :: "bool \<Rightarrow> bigo_inst \<Rightarrow> u32" where
  "inst_load use_bpp inst =
     (let curr_load = ucast ((ucast (bi_width inst) :: u64) * ucast (bi_height inst) * ucast (bi_fps inst) div 1024) :: u32
      in if use_bpp then curr_load * bi_bpp inst else curr_load)"

fun total_load_loop :: "u32 \<Rightarrow> bool \<Rightarrow> bigo_inst list \<Rightarrow> u32 \<Rightarrow> u32" where
  "total_load_loop max_load use_bpp [] load = load"
| "total_load_loop max_load use_bpp (inst # is) load =
     (if bi_idle inst then total_load_loop max_load use_bpp is load
      else if inst_load use_bpp inst < max_load - load
      then total_load_loop max_load use_bpp is (load + inst_load use_bpp inst)
      else max_load)"

text \<open>The instances of the list, in its order; a freed one is a fault.\<close>

fun list_insts :: "(nat \<Rightarrow> bigo_inst option) \<Rightarrow> nat list \<Rightarrow> bigo_inst list option" where
  "list_insts h [] = Some []"
| "list_insts h (a # as) = do { i \<leftarrow> h a; is \<leftarrow> list_insts h as; Some (i # is) }"

definition bigo_get_total_load :: "bool \<Rightarrow> 'h bigo_core \<Rightarrow> u32 option" where
  "bigo_get_total_load use_bpp core = do {
     is \<leftarrow> list_insts (bo_insts core) (bo_instances core);
     Some (if is = [] then 0
           else min (max 1 (total_load_loop (bo_max_load core) use_bpp is 0)) (bo_max_load core)) }"

text \<open>When no entry is enough, the C code reads the head of the list as if it were an entry.\<close>

definition bigo_get_target_freq :: "'h bigo_core \<Rightarrow> u32 \<Rightarrow> u32 option" where
  "bigo_get_target_freq core load = map_option opp_freq_khz (find (\<lambda>opp. opp_load_pps opp \<ge> load) (bo_opps core))"

definition bigo_get_target_bw :: "'h bigo_core \<Rightarrow> u32 \<Rightarrow> bigo_bw option" where
  "bigo_get_target_bw core load = find (\<lambda>bw. bw_load_pps bw \<ge> load) (bo_bws core)"

definition bigo_set_freq :: "bool \<Rightarrow> u32 \<Rightarrow> 'h bigo_core \<Rightarrow> 'h bigo_core" where
  "bigo_set_freq zuma freq core =
     (let freq = (if bo_set_freq core \<noteq> 0 then bo_set_freq core else freq);
          freq = (if zuma \<and> bo_ip_ver core < 1 \<and> freq > BIGW_A0_CSR_PROG_FREQ then BIGW_A0_CSR_PROG_FREQ else freq)
      in core\<lparr>bo_qos_bigo := Some freq\<rparr>)"

definition bigo_scale_freq :: "bool \<Rightarrow> 'h bigo_core \<Rightarrow> 'h bigo_core option" where
  "bigo_scale_freq zuma core = do {
     load \<leftarrow> bigo_get_total_load zuma core;
     freq \<leftarrow> bigo_get_target_freq core load;
     Some (bigo_set_freq zuma freq core) }"

definition bts_zero :: bts_bw where
  "bts_zero = \<lparr>bts_read = 0, bts_write = 0, bts_peak = 0\<rparr>"

text \<open>The first instance without compression decides between the values of a decoder and an encoder.\<close>

definition bigo_get_bw :: "bool \<Rightarrow> 'h bigo_core \<Rightarrow> bts_bw option" where
  "bigo_get_bw zuma core = do {
     load \<leftarrow> bigo_get_total_load False core;
     if load = 0 then Some bts_zero
     else do {
       b \<leftarrow> bigo_get_target_bw core load;
       is \<leftarrow> list_insts (bo_insts core) (bo_instances core);
       let plain = \<lparr>bts_read = rd_bw b, bts_write = wr_bw b, bts_peak = pk_bw b\<rparr>;
       Some (if \<not> zuma then plain
             else (case find (\<lambda>inst. \<not> bi_afbc inst) is of
                 None \<Rightarrow> \<lparr>bts_read = rd_bw_afbc b, bts_write = wr_bw_afbc b, bts_peak = pk_bw_afbc b\<rparr>
               | Some inst \<Rightarrow>
                   if bi_is_decoder_usage inst then plain
                   else \<lparr>bts_read = rd_bw_enc b, bts_write = wr_bw_enc b, bts_peak = pk_bw_enc b\<rparr>)) } }"

definition bigo_scale_bw :: "bool \<Rightarrow> 'h bigo_core \<Rightarrow> 'h bigo_core option" where
  "bigo_scale_bw zuma core = do { bw \<leftarrow> bigo_get_bw zuma core; Some (core\<lparr>bo_bts := bw\<rparr>) }"

definition mif_load :: "bigo_inst list \<Rightarrow> u32" where
  "mif_load is = fold (\<lambda>inst load. if bi_idle inst then load
     else load + bi_width inst * bi_height inst * bi_fps inst * bi_bpp inst div 1024) is 0"

definition update_mif_floor :: "'h bigo_core \<Rightarrow> 'h bigo_core option" where
  "update_mif_floor core = do {
     is \<leftarrow> list_insts (bo_insts core) (bo_instances core);
     Some (core\<lparr>bo_qos_mif := (if mif_load is > bo_max_load core then Some LARGE_LOAD_MIF_FLOOR else None)\<rparr>) }"

definition bigo_mark_qos_dirty :: "'h bigo_core \<Rightarrow> 'h bigo_core" where
  "bigo_mark_qos_dirty core = core\<lparr>bo_qos_dirty := True\<rparr>"

definition bigo_update_qos :: "bool \<Rightarrow> 'h bigo_core \<Rightarrow> 'h bigo_core option" where
  "bigo_update_qos zuma core =
     (if bo_qos_dirty core then do {
        core \<leftarrow> bigo_scale_bw zuma core;
        core \<leftarrow> (if zuma then Some core else update_mif_floor core);
        core \<leftarrow> bigo_scale_freq zuma core;
        Some (core\<lparr>bo_qos_dirty := False\<rparr>) }
      else Some core)"

definition bigo_clocks_off :: "bool \<Rightarrow> 'h bigo_core \<Rightarrow> 'h bigo_core option" where
  "bigo_clocks_off zuma core = do {
     let core = core\<lparr>bo_bts := bts_zero\<rparr>;
     freq \<leftarrow> bigo_get_target_freq core 0;
     Some (bigo_set_freq zuma freq core) }"

section \<open>Registers and interrupt\<close>

definition bigo_core_readl :: "int \<Rightarrow> 'h bigo_core \<Rightarrow> u32 option" where
  "bigo_core_readl offset core = arr_get (bo_regs core) (offset div 4)"

definition bigo_core_writel :: "int \<Rightarrow> u32 \<Rightarrow> 'h bigo_core \<Rightarrow> 'h bigo_core option" where
  "bigo_core_writel offset val core = do {
     _ \<leftarrow> arr_get (bo_regs core) (offset div 4);
     Some (core\<lparr>bo_regs := (bo_regs core)[nat (offset div 4) := val]\<rparr>) }"

definition bigo_push_regs :: "u32 list \<Rightarrow> 'h bigo_core \<Rightarrow> 'h bigo_core" where
  "bigo_push_regs regs core = core\<lparr>bo_regs := regs\<rparr>"

definition bigo_pull_regs :: "nat \<Rightarrow> 'h bigo_core \<Rightarrow> 'h bigo_core option" where
  "bigo_pull_regs a core = upd_inst a (\<lambda>i. i\<lparr>bi_regs := bo_regs core\<rparr>) core"

definition bigo_core_enable :: "'h bigo_core \<Rightarrow> 'h bigo_core option" where
  "bigo_core_enable core = do {
     bigo_stat \<leftarrow> bigo_core_readl BIGO_REG_STAT core;
     bigo_core_writel BIGO_REG_STAT (bigo_stat OR BIGO_STAT_ENABLE) core }"

definition bigo_core_disable :: "bool \<Rightarrow> 'h bigo_core \<Rightarrow> 'h bigo_core option" where
  "bigo_core_disable zuma core = do {
     bigo_stat \<leftarrow> bigo_core_readl BIGO_REG_STAT core;
     let bigo_stat = bigo_stat AND NOT BIGO_STAT_ENABLE;
     let bigo_stat = (if zuma then bigo_stat AND NOT BIGO_STAT_MODE AND NOT BIGO_STAT_CODING_MODE else bigo_stat);
     bigo_core_writel BIGO_REG_STAT bigo_stat core }"

definition bigo_core_is_enabled :: "'h bigo_core \<Rightarrow> bool option" where
  "bigo_core_is_enabled core = map_option (\<lambda>s. s AND BIGO_STAT_ENABLE \<noteq> 0) (bigo_core_readl BIGO_REG_STAT core)"

text \<open>The chip acts once between two looks of the driver.\<close>

definition hw_run :: "('h \<Rightarrow> u32 list \<Rightarrow> 'h \<times> u32 list) \<Rightarrow> 'h bigo_core \<Rightarrow> 'h bigo_core" where
  "hw_run hw core = (case hw (bo_hw core) (bo_regs core) of (h, regs) \<Rightarrow> core\<lparr>bo_hw := h, bo_regs := regs\<rparr>)"

fun bigo_wait_disabled :: "('h \<Rightarrow> u32 list \<Rightarrow> 'h \<times> u32 list) \<Rightarrow> nat \<Rightarrow> 'h bigo_core \<Rightarrow> (int \<times> 'h bigo_core) option" where
  "bigo_wait_disabled hw 0 core = Some (- ETIMEDOUT, core)"
| "bigo_wait_disabled hw (Suc n) core = do {
     enabled \<leftarrow> bigo_core_is_enabled core;
     if \<not> enabled then Some (0, core) else bigo_wait_disabled hw n (hw_run hw core) }"

definition bigo_check_status :: "'h bigo_core \<Rightarrow> u32" where
  "bigo_check_status core = bo_stat_with_irq core"

definition bigo_isr :: "bool \<Rightarrow> 'h bigo_core \<Rightarrow> (bool \<times> 'h bigo_core) option" where
  "bigo_isr zuma core = do {
     bigo_stat \<leftarrow> bigo_core_readl BIGO_REG_STAT core;
     if bigo_stat AND BIGO_STAT_IRQ = 0 then Some (False, core)
     else do {
       let core = core\<lparr>bo_stat_with_irq := bigo_stat\<rparr>;
       let bigo_stat = (if zuma then bigo_stat AND NOT BIGO_STAT_MODE AND NOT BIGO_STAT_CODING_MODE else bigo_stat);
       let bigo_stat = bigo_stat AND NOT BIGO_STAT_IRQMASK;
       core \<leftarrow> bigo_core_writel BIGO_REG_STAT bigo_stat core;
       Some (True, core\<lparr>bo_frame_done := bo_frame_done core + 1\<rparr>) } }"

text \<open>\<open>wait_for_completion_timeout\<close> on \<open>frame_done\<close>, for \<open>n\<close> rounds in which the chip runs and may interrupt.\<close>

fun wait_frame_done ::
  "bool \<Rightarrow> ('h \<Rightarrow> u32 list \<Rightarrow> 'h \<times> u32 list) \<Rightarrow> nat \<Rightarrow> 'h bigo_core \<Rightarrow> (bool \<times> 'h bigo_core) option" where
  "wait_frame_done zuma hw n core =
     (if bo_frame_done core > 0 then Some (True, core\<lparr>bo_frame_done := bo_frame_done core - 1\<rparr>)
      else (case n of
          0 \<Rightarrow> Some (False, core)
        | Suc n \<Rightarrow> do {
            (_, core) \<leftarrow> bigo_isr zuma (hw_run hw core);
            wait_frame_done zuma hw n core }))"

declare wait_frame_done.simps [simp del]

section \<open>Cache partition\<close>

definition ssmt_writes :: "int \<Rightarrow> bool \<Rightarrow> (nat \<times> u32) list" where
  "ssmt_writes pid dec_mode =
     map (\<lambda>off. (off, word_of_int pid))
       (if dec_mode then map ((*) 4) [3, 5, 6, 19, 20, 21, 22, 23, 24, 25, 26, 2] @ [0x200 + 4 * 3]
        else map ((*) 4) [1, 2, 6, 21, 26, 3]) @
     concat (map (\<lambda>sid. [(0x400 + sid * 4, 0xe), (0x600 + sid * 4, 0x80000000), (0x800 + sid * 4, 0x80000000)]) [0..<32])"

definition bigo_bypass_ssmt_pid :: "bool \<Rightarrow> 'h bigo_core \<Rightarrow> 'h bigo_core" where
  "bigo_bypass_ssmt_pid dec_mode core = (case bo_ssmt core of
     None \<Rightarrow> core
   | Some regs \<Rightarrow> core\<lparr>bo_ssmt := Some (fold (\<lambda>(off, v) r. r(off := v)) (ssmt_writes (bo_pid core) dec_mode) regs)\<rparr>)"

text \<open>\<open>pt\<close> is what \<open>pt_client_enable_size\<close> answers: an identifier or an error, and a size.\<close>

definition bigo_pt_client_enable :: "int \<times> nat \<Rightarrow> 'h bigo_core \<Rightarrow> int \<times> 'h bigo_core" where
  "bigo_pt_client_enable pt core =
     (if \<not> bo_pt_hnd core then (0, core)
      else (if fst pt < 0 then fst pt else 0, core\<lparr>bo_pid := fst pt, bo_slc_size := snd pt\<rparr>))"

definition bigo_get_cache_info :: "'h bigo_core \<Rightarrow> u32 \<times> u32" where
  "bigo_get_cache_info core = (of_nat (bo_slc_size core), word_of_int (bo_pid core))"

definition bigo_pt_resize_cb :: "nat \<Rightarrow> 'h bigo_core \<Rightarrow> 'h bigo_core" where
  "bigo_pt_resize_cb size_allocated core = core\<lparr>bo_slc_size := size_allocated\<rparr>"

section \<open>Running a job\<close>

definition bigo_run_job ::
  "bool \<Rightarrow> ('h \<Rightarrow> u32 list \<Rightarrow> 'h \<times> u32 list) \<Rightarrow> nat \<Rightarrow> 'h bigo_core \<Rightarrow> (int \<times> 'h bigo_core) option" where
  "bigo_run_job zuma hw a core = do {
     inst \<leftarrow> bo_insts core a;
     let core = bigo_bypass_ssmt_pid (bi_is_decoder_usage inst) core;
     let core = bigo_push_regs (bi_regs inst) core;
     core \<leftarrow> bigo_core_enable core;
     (completed, core) \<leftarrow> wait_frame_done zuma hw (unat (bo_timeout core)) core;
     (rc, core) \<leftarrow>
       (if completed then Some (0, core)
        else do {
          stat \<leftarrow> bigo_core_readl BIGO_REG_STAT core;
          core \<leftarrow> bigo_core_disable zuma (core\<lparr>bo_stat_with_irq := stat\<rparr>);
          Some (- ETIMEDOUT, core) });
     let status = bigo_check_status core;
     (ret, core) \<leftarrow> bigo_wait_disabled hw BIGO_DISABLE_TIMEOUT_MS core;
     let rc = (if bo_trigger_ssr core \<noteq> 0 then - EFAULT else rc);
     core \<leftarrow> bigo_pull_regs a core;
     inst \<leftarrow> bo_insts core a;
     _ \<leftarrow> arr_get (bi_regs inst) (BIGO_REG_STAT div 4);
     core \<leftarrow> upd_inst a (\<lambda>i. i\<lparr>bi_regs := (bi_regs i)[nat (BIGO_REG_STAT div 4) := status]\<rparr>) core;
     Some (if rc \<noteq> 0 \<or> ret \<noteq> 0 then - ETIMEDOUT else rc, core) }"

end
