(* ===== verification/Bigo_Dev.thy ===== *)
theory Bigo_Dev
  imports Bigo
begin

text \<open>
  The device of the video codec: buffers (\<^verbatim>\<open>bigo_iommu.c\<close>), tables of the device tree (\<^verbatim>\<open>bigo_of.c\<close>), and from \<^verbatim>\<open>bigo.c\<close> opening and
  closing of instances, the commands of user space and the rounds of the worker thread. The kernel's
  buffers, threads, power management, user memory and the secure world are arguments.
\<close>

unbundle bit_operations_syntax

section \<open>Buffers\<close>

record bigo_ioc_mapping =
  map_fd :: int
  map_iova :: u32
  map_offset :: u32
  map_size :: u32
  map_skip_cmo :: u32

datatype dma_data_direction = DMA_BIDIRECTIONAL | DMA_TO_DEVICE | DMA_FROM_DEVICE

text \<open>
  What the kernel answers about buffers: for a descriptor the buffer, for a buffer the attachment (0 or an
  error) and the address; the allocation of memory; and the result of the operations for cache
  maintenance, of which the partial one need not exist.
\<close>

record dma_env =
  de_alloc :: bool
  de_get :: "int \<Rightarrow> int + nat"
  de_attach :: "nat \<Rightarrow> int"
  de_map :: "nat \<Rightarrow> int + u64"
  de_partial :: "(bool \<Rightarrow> nat \<Rightarrow> dma_data_direction \<Rightarrow> u32 \<Rightarrow> u32 \<Rightarrow> int) option"
  de_full :: "bool \<Rightarrow> nat \<Rightarrow> dma_data_direction \<Rightarrow> int"

definition dma_ref :: "nat \<Rightarrow> int \<Rightarrow> 'h bigo_core \<Rightarrow> 'h bigo_core" where
  "dma_ref d k core = core\<lparr>bo_dma_refs := (bo_dma_refs core)(d := bo_dma_refs core d + k)\<rparr>"

definition dma_attachment :: "nat \<Rightarrow> int \<Rightarrow> 'h bigo_core \<Rightarrow> 'h bigo_core" where
  "dma_attachment d k core = core\<lparr>bo_dma_attached := (bo_dma_attached core)(d := bo_dma_attached core d + k)\<rparr>"

definition bigo_unmap_one :: "bufinfo \<Rightarrow> 'h bigo_core \<Rightarrow> 'h bigo_core" where
  "bigo_unmap_one binfo core = dma_ref (buf_dmabuf binfo) (- 1) (dma_attachment (buf_dmabuf binfo) (- 1) core)"

definition bigo_unmap_all :: "nat \<Rightarrow> 'h bigo_core \<Rightarrow> 'h bigo_core option" where
  "bigo_unmap_all a core = do {
     inst \<leftarrow> bo_insts core a;
     upd_inst a (\<lambda>i. i\<lparr>bi_buffers := []\<rparr>) (fold bigo_unmap_one (bi_buffers inst) core) }"

definition check_mapped_list :: "nat \<Rightarrow> bigo_ioc_mapping \<Rightarrow> 'h bigo_core \<Rightarrow> bigo_ioc_mapping option option" where
  "check_mapped_list a mapping core = do {
     inst \<leftarrow> bo_insts core a;
     Some (map_option (\<lambda>binfo. mapping\<lparr>map_iova := ucast (buf_iova binfo)\<rparr>)
             (find (\<lambda>binfo. buf_fd binfo = map_fd mapping) (bi_buffers inst))) }"

definition add_to_mapped_list ::
  "dma_env \<Rightarrow> nat \<Rightarrow> bigo_ioc_mapping \<Rightarrow> 'h bigo_core \<Rightarrow> (int \<times> bigo_ioc_mapping \<times> 'h bigo_core) option" where
  "add_to_mapped_list env a mapping core =
     (if \<not> de_alloc env then Some (- ENOMEM, mapping, core)
      else (case de_get env (map_fd mapping) of
        Inl rc \<Rightarrow> Some (rc, mapping, core)
      | Inr d \<Rightarrow>
          let core = dma_ref d 1 core; rc = de_attach env d in
          if rc \<noteq> 0 then Some (rc, mapping, dma_ref d (- 1) core)
          else let core = dma_attachment d 1 core in
            (case de_map env d of
              Inl rc \<Rightarrow> Some (rc, mapping, dma_ref d (- 1) (dma_attachment d (- 1) core))
            | Inr iova \<Rightarrow> do {
                let binfo = \<lparr>buf_dmabuf = d, buf_size = map_size mapping, buf_offset = map_offset mapping,
                             buf_fd = map_fd mapping, buf_iova = iova\<rparr>;
                core \<leftarrow> upd_inst a (\<lambda>i. i\<lparr>bi_buffers := bi_buffers i @ [binfo]\<rparr>) core;
                Some (0, mapping\<lparr>map_iova := ucast iova\<rparr>, core) })))"

definition bigo_map ::
  "dma_env \<Rightarrow> nat \<Rightarrow> bigo_ioc_mapping \<Rightarrow> 'h bigo_core \<Rightarrow> (int \<times> bigo_ioc_mapping \<times> 'h bigo_core) option" where
  "bigo_map env a mapping core = do {
     found \<leftarrow> check_mapped_list a mapping core;
     case found of
       Some mapping \<Rightarrow> Some (0, mapping, core)
     | None \<Rightarrow> add_to_mapped_list env a mapping core }"

fun take_first :: "('a \<Rightarrow> bool) \<Rightarrow> 'a list \<Rightarrow> ('a \<times> 'a list) option" where
  "take_first P [] = None"
| "take_first P (x # xs) = (if P x then Some (x, xs) else map_option (\<lambda>(y, ys). (y, x # ys)) (take_first P xs))"

definition bigo_unmap :: "nat \<Rightarrow> bigo_ioc_mapping \<Rightarrow> 'h bigo_core \<Rightarrow> (int \<times> 'h bigo_core) option" where
  "bigo_unmap a mapping core = do {
     inst \<leftarrow> bo_insts core a;
     case take_first (\<lambda>binfo. buf_fd binfo = map_fd mapping) (bi_buffers inst) of
       None \<Rightarrow> Some (- ENOENT, core)
     | Some (found, rest) \<Rightarrow> do {
         core \<leftarrow> upd_inst a (\<lambda>i. i\<lparr>bi_buffers := rest\<rparr>) core;
         Some (0, bigo_unmap_one found core) } }"

record bigo_buf_sync =
  sync_fd :: int
  sync_offset :: u32
  sync_size :: u32
  sync_flags :: u64

definition bigo_dma_sync :: "dma_env \<Rightarrow> bigo_buf_sync \<Rightarrow> int" where
  "bigo_dma_sync env sync =
     (let flags = sync_flags sync; rw = flags AND 3 in
      if flags AND NOT 7 \<noteq> 0 \<or> rw = 0 then - EINVAL
      else (case de_get env (sync_fd sync) of
        Inl ret \<Rightarrow> ret
      | Inr d \<Rightarrow>
          let direction = (if rw = 1 then DMA_FROM_DEVICE else if rw = 2 then DMA_TO_DEVICE else DMA_BIDIRECTIONAL);
              at_end = (flags AND 4 \<noteq> 0);
              ret = (case de_partial env of None \<Rightarrow> - 1 | Some f \<Rightarrow> f at_end d direction (sync_offset sync) (sync_size sync))
          in if ret < 0 then de_full env at_end d direction else ret))"

section \<open>Tables of the device tree\<close>

text \<open>A child node is its properties, and whether memory for its entry could be had.\<close>

type_synonym dt_child = "bool \<times> (string \<Rightarrow> u32 option)"

fun opp_table_loop :: "dt_child list \<Rightarrow> 'h bigo_core \<Rightarrow> int \<times> 'h bigo_core" where
  "opp_table_loop [] core = (0, core)"
| "opp_table_loop ((mem, np) # nps) core =
     (if \<not> mem then (- ENOMEM, core\<lparr>bo_opps := []\<rparr>)
      else (case np ''load-pps'' of
        None \<Rightarrow> (- EINVAL, core\<lparr>bo_opps := []\<rparr>)
      | Some load \<Rightarrow>
          let core = core\<lparr>bo_max_load := load\<rparr> in
          (case np ''freq-khz'' of
            None \<Rightarrow> (- EINVAL, core\<lparr>bo_opps := []\<rparr>)
          | Some freq \<Rightarrow>
              opp_table_loop nps (core\<lparr>bo_opps := bo_opps core @ [\<lparr>opp_freq_khz = freq, opp_load_pps = load\<rparr>]\<rparr>))))"

definition bigo_of_parse_opp_table :: "dt_child list option \<Rightarrow> 'h bigo_core \<Rightarrow> int \<times> 'h bigo_core" where
  "bigo_of_parse_opp_table opp_np core = (case opp_np of None \<Rightarrow> (- ENOENT, core) | Some nps \<Rightarrow> opp_table_loop nps core)"

definition bw_entry :: "(string \<Rightarrow> u32 option) \<Rightarrow> bigo_bw option" where
  "bw_entry np = do {
     load \<leftarrow> np ''load-pps'';
     rd \<leftarrow> np ''rd-bw'';
     wr \<leftarrow> np ''wr-bw'';
     pk \<leftarrow> np ''pk-bw'';
     let opt = (\<lambda>name v. case np name of None \<Rightarrow> v | Some w \<Rightarrow> w);
     Some \<lparr>bw_load_pps = load, rd_bw = rd, wr_bw = wr, pk_bw = pk,
           rd_bw_afbc = opt ''rd-bw-afbc'' rd, wr_bw_afbc = opt ''wr-bw-afbc'' wr, pk_bw_afbc = opt ''pk-bw-afbc'' pk,
           rd_bw_enc = opt ''rd-bw-enc'' rd, wr_bw_enc = opt ''wr-bw-enc'' wr, pk_bw_enc = opt ''pk-bw-enc'' pk\<rparr> }"

fun bw_table_loop :: "dt_child list \<Rightarrow> 'h bigo_core \<Rightarrow> int \<times> 'h bigo_core" where
  "bw_table_loop [] core = (0, core)"
| "bw_table_loop ((mem, np) # nps) core =
     (if \<not> mem then (- ENOMEM, core\<lparr>bo_bws := []\<rparr>)
      else (case bw_entry np of
        None \<Rightarrow> (- EINVAL, core\<lparr>bo_bws := []\<rparr>)
      | Some bw \<Rightarrow> bw_table_loop nps (core\<lparr>bo_bws := bo_bws core @ [bw]\<rparr>)))"

definition bigo_of_parse_bw_table :: "dt_child list option \<Rightarrow> 'h bigo_core \<Rightarrow> int \<times> 'h bigo_core" where
  "bigo_of_parse_bw_table bw_np core = (case bw_np of None \<Rightarrow> (- ENOENT, core) | Some nps \<Rightarrow> bw_table_loop nps core)"

text \<open>\<open>res\<close> is the result of \<open>bigo_of_get_resource\<close>, \<open>bwindex\<close> that of \<open>bts_get_bwindex\<close>.\<close>

definition bigo_of_dt_parse ::
  "int \<Rightarrow> dt_child list option \<Rightarrow> dt_child list option \<Rightarrow> int \<Rightarrow> 'h bigo_core \<Rightarrow> int \<times> 'h bigo_core" where
  "bigo_of_dt_parse res opp_np bw_np bwindex core =
     (if res < 0 then (res, core)
      else (case bigo_of_parse_opp_table opp_np core of (rc, core) \<Rightarrow>
        if rc < 0 then (rc, core)
        else (case bigo_of_parse_bw_table bw_np core of (rc, core) \<Rightarrow>
          if rc < 0 then (rc, core\<lparr>bo_opps := []\<rparr>)
          else let core = core\<lparr>bo_bwindex := bwindex\<rparr> in
            if bwindex < 0 then (bwindex, core\<lparr>bo_bws := [], bo_opps := []\<rparr>) else (rc, core))))"

definition bigo_of_dt_release :: "'h bigo_core \<Rightarrow> 'h bigo_core" where
  "bigo_of_dt_release core = core\<lparr>bo_opps := []\<rparr>"

section \<open>Opening and closing\<close>

definition kref_get :: "nat \<Rightarrow> 'h bigo_core \<Rightarrow> 'h bigo_core option" where
  "kref_get a core = upd_inst a (\<lambda>i. i\<lparr>bi_refcount := bi_refcount i + 1\<rparr>) core"

text \<open>A job that is still queued when the last reference is gone would be put once more, below zero.\<close>

definition bigo_close :: "bool \<Rightarrow> nat \<Rightarrow> 'h bigo_core \<Rightarrow> 'h bigo_core option" where
  "bigo_close zuma a core = do {
     _ \<leftarrow> bo_insts core a;
     case clear_job_from_prioq a core of
       (True, core) \<Rightarrow> None
     | (False, core) \<Rightarrow> do {
         core \<leftarrow> bigo_unmap_all a core;
         core \<leftarrow> bigo_update_qos zuma (bigo_mark_qos_dirty core);
         Some (core\<lparr>bo_insts := (bo_insts core)(a := None)\<rparr>) } }"

text \<open>Dropping a reference: whether it was the last one.\<close>

definition kref_dec :: "nat \<Rightarrow> 'h bigo_core \<Rightarrow> (bool \<times> 'h bigo_core) option" where
  "kref_dec a core = do {
     inst \<leftarrow> bo_insts core a;
     if bi_refcount inst = 0 then None
     else do {
       core \<leftarrow> upd_inst a (\<lambda>i. i\<lparr>bi_refcount := bi_refcount i - 1\<rparr>) core;
       Some (bi_refcount inst = 1, core) } }"

definition kref_put :: "bool \<Rightarrow> nat \<Rightarrow> 'h bigo_core \<Rightarrow> 'h bigo_core option" where
  "kref_put zuma a core = do {
     (last_ref, core) \<leftarrow> kref_dec a core;
     if last_ref then bigo_close zuma a core else Some core }"

text \<open>Outcomes of the calls of \<open>bigo_open\<close>: the new instance, its registers, the thread, the cache partition, the power.\<close>

record open_env =
  oe_inst :: "nat option"
  oe_regs :: bool
  oe_thread :: int
  oe_pt :: "int \<times> nat"
  oe_pm :: int

definition on_first_instance_open :: "open_env \<Rightarrow> 'h bigo_core \<Rightarrow> int \<times> 'h bigo_core" where
  "on_first_instance_open env core =
     (if oe_thread env < 0 then (oe_thread env, core\<lparr>bo_worker_thread := False\<rparr>)
      else (case bigo_pt_client_enable (oe_pt env) (core\<lparr>bo_worker_thread := True\<rparr>) of (rc, core) \<Rightarrow>
        if rc \<noteq> 0 then (rc, core\<lparr>bo_worker_thread := False\<rparr>)
        else if oe_pm env \<noteq> 0 then (oe_pm env, core\<lparr>bo_worker_thread := False\<rparr>)
        else (0, core)))"

definition bigo_count_inst :: "'h bigo_core \<Rightarrow> nat" where
  "bigo_count_inst core = length (bo_instances core)"

definition new_inst :: "'h bigo_core \<Rightarrow> bigo_inst" where
  "new_inst core = \<lparr>bi_buffers = [], bi_refcount = 1, bi_height = 3840, bi_width = 2160, bi_fps = 60, bi_is_secure = 0,
     bi_priority = 0, bi_job_comp = 0, bi_regs = replicate (bo_regs_size core div 4) 0, bi_status = 0, bi_bpp = 1,
     bi_idle = True, bi_is_decoder_usage = False, bi_afbc = False\<rparr>"

definition bigo_open :: "open_env \<Rightarrow> 'h bigo_core \<Rightarrow> int \<times> 'h bigo_core" where
  "bigo_open env core = (case oe_inst env of
     None \<Rightarrow> (- ENOMEM, core)
   | Some a \<Rightarrow>
       if \<not> oe_regs env then (- ENOMEM, core)
       else if bigo_count_inst core \<ge> BIGO_MAX_INST_NUM then (- ENOMEM, core)
       else (case (if bo_instances core = [] then on_first_instance_open env core else (0, core)) of (rc, core) \<Rightarrow>
         if rc \<noteq> 0 then (rc, core)
         else (rc, bigo_mark_qos_dirty (core\<lparr>bo_insts := (bo_insts core)(a := Some (new_inst core)),
                                             bo_instances := bo_instances core @ [a]\<rparr>))))"

text \<open>The part of \<open>bigo_release\<close> under the lock: the last instance stops the worker.\<close>

definition release_locked :: "nat \<Rightarrow> 'h bigo_core \<Rightarrow> 'h bigo_core" where
  "release_locked a core =
     (let core = core\<lparr>bo_instances := remove1 a (bo_instances core)\<rparr>
      in if bo_instances core = [] then core\<lparr>bo_worker_thread := False\<rparr> else core)"

definition bigo_release :: "bool \<Rightarrow> nat \<Rightarrow> 'h bigo_core \<Rightarrow> 'h bigo_core option" where
  "bigo_release zuma a core = kref_put zuma a (release_locked a core)"

section \<open>Commands\<close>

definition bigo_config_frmrate :: "nat \<Rightarrow> u32 \<Rightarrow> 'h bigo_core \<Rightarrow> 'h bigo_core option" where
  "bigo_config_frmrate a frmrate core = map_option bigo_mark_qos_dirty (upd_inst a (\<lambda>i. i\<lparr>bi_fps := frmrate\<rparr>) core)"

definition bigo_config_frmsize :: "nat \<Rightarrow> u32 \<times> u32 \<Rightarrow> 'h bigo_core \<Rightarrow> 'h bigo_core option" where
  "bigo_config_frmsize a frmsize core =
     map_option bigo_mark_qos_dirty (upd_inst a (\<lambda>i. i\<lparr>bi_height := fst frmsize, bi_width := snd frmsize\<rparr>) core)"

definition bigo_config_secure :: "nat \<Rightarrow> u32 \<Rightarrow> 'h bigo_core \<Rightarrow> 'h bigo_core option" where
  "bigo_config_secure a is_secure core = upd_inst a (\<lambda>i. i\<lparr>bi_is_secure := is_secure\<rparr>) core"

definition bigo_config_priority :: "nat \<Rightarrow> int \<Rightarrow> 'h bigo_core \<Rightarrow> 'h bigo_core option" where
  "bigo_config_priority a priority core =
     (if priority < 0 \<or> priority \<ge> int BO_MAX_PRIO then Some core
      else upd_inst a (\<lambda>i. i\<lparr>bi_priority := priority\<rparr>) core)"

definition bigo_config_afbc :: "nat \<Rightarrow> 'h bigo_core \<Rightarrow> 'h bigo_core option" where
  "bigo_config_afbc a core = upd_inst a (\<lambda>i. i\<lparr>bi_afbc := True\<rparr>) core"

text \<open>
  The registers of a job in user memory: whether the descriptor could be read, the size in it, the words
  that were copied, and whether copying was complete.
\<close>

record user_regs =
  ur_desc :: bool
  ur_size :: nat
  ur_words :: "u32 list"
  ur_complete :: bool
  ur_writable :: bool

definition copy_regs_from_user :: "user_regs \<Rightarrow> nat \<Rightarrow> 'h bigo_core \<Rightarrow> (int \<times> 'h bigo_core) option" where
  "copy_regs_from_user ur a core =
     (if \<not> ur_desc ur then Some (- EFAULT, core)
      else if ur_size ur \<noteq> bo_regs_size core then Some (- EINVAL, core)
      else do {
        core \<leftarrow> upd_inst a (\<lambda>i. i\<lparr>bi_regs := array_fill (take (bo_regs_size core div 4) (ur_words ur)) (bi_regs i)\<rparr>) core;
        Some (if ur_complete ur then 0 else - EFAULT, core) })"

definition copy_regs_to_user :: "user_regs \<Rightarrow> int" where
  "copy_regs_to_user ur = (if ur_writable ur then 0 else - EFAULT)"

text \<open>\<open>BIGO_IOCX_PROCESS\<close> up to the wait: 0 when the job is queued.\<close>

definition process_submit :: "bool \<Rightarrow> user_regs \<Rightarrow> nat \<Rightarrow> 'h bigo_core \<Rightarrow> (int \<times> 'h bigo_core) option" where
  "process_submit zuma ur a core = do {
     (rc, core) \<leftarrow> copy_regs_from_user ur a core;
     if rc \<noteq> 0 then Some (- EFAULT, core)
     else do {
       inst \<leftarrow> bo_insts core a;
       cfg \<leftarrow> arr_get (bi_regs inst) 3;
       stat \<leftarrow> arr_get (bi_regs inst) (BIGO_REG_STAT div 4);
       let bpp = (if bit cfg (if zuma then 21 else 17) then 2 else 1);
       let core = (if bpp \<noteq> bi_bpp inst then bigo_mark_qos_dirty core else core);
       core \<leftarrow> upd_inst a (\<lambda>i. i\<lparr>bi_bpp := bpp, bi_is_decoder_usage := (if zuma then stat AND BIGO_STAT_MODE \<noteq> 0 else True)\<rparr>) core;
       core \<leftarrow> kref_get a core;
       (rc, core) \<leftarrow> enqueue_prioq a core;
       if rc \<noteq> 0 then do { core \<leftarrow> kref_put zuma a core; Some (- EFAULT, core) }
       else Some (0, core) } }"

text \<open>After a wait that timed out: the job is taken back from the queue if it is still there.\<close>

definition process_timeout :: "bool \<Rightarrow> nat \<Rightarrow> 'h bigo_core \<Rightarrow> 'h bigo_core option" where
  "process_timeout zuma a core = (case clear_job_from_prioq a core of
     (True, core) \<Rightarrow> kref_put zuma a core
   | (False, core) \<Rightarrow> Some core)"

definition process_finish :: "user_regs \<Rightarrow> nat \<Rightarrow> 'h bigo_core \<Rightarrow> (int \<times> u32 list) option" where
  "process_finish ur a core = do {
     inst \<leftarrow> bo_insts core a;
     Some (if copy_regs_to_user ur \<noteq> 0 then - EFAULT else bi_status inst, bi_regs inst) }"

definition take_completion :: "nat \<Rightarrow> 'h bigo_core \<Rightarrow> (bool \<times> 'h bigo_core) option" where
  "take_completion a core = do {
     inst \<leftarrow> bo_insts core a;
     if bi_job_comp inst = 0 then Some (False, core)
     else do { core \<leftarrow> upd_inst a (\<lambda>i. i\<lparr>bi_job_comp := bi_job_comp i - 1\<rparr>) core; Some (True, core) } }"

text \<open>\<open>wait\<close> is what the rest of the system does until the completion or the timeout.\<close>

definition bigo_process ::
  "bool \<Rightarrow> ('h bigo_core \<Rightarrow> 'h bigo_core option) \<Rightarrow> user_regs \<Rightarrow> nat \<Rightarrow> 'h bigo_core \<Rightarrow> (int \<times> u32 list \<times> 'h bigo_core) option" where
  "bigo_process zuma wait ur a core = do {
     (rc, core) \<leftarrow> process_submit zuma ur a core;
     if rc \<noteq> 0 then Some (rc, [], core)
     else do {
       core \<leftarrow> wait core;
       (completed, core) \<leftarrow> take_completion a core;
       if completed then do { (rc, regs) \<leftarrow> process_finish ur a core; Some (rc, regs, core) }
       else do { core \<leftarrow> process_timeout zuma a core; Some (- ETIMEDOUT, [], core) } } }"

text \<open>The commands with their arguments; an argument in user memory that cannot be read is \<^const>\<open>None\<close>.\<close>

datatype bigo_ioctl =
    BIGO_IOCX_PROCESS user_regs
  | BIGO_IOCX_ABORT
  | BIGO_IOCX_MAP "bigo_ioc_mapping option" bool
  | BIGO_IOCX_UNMAP "bigo_ioc_mapping option"
  | BIGO_IOCX_CONFIG_FRMRATE u32
  | BIGO_IOCX_CONFIG_FRMSIZE "(u32 \<times> u32) option"
  | BIGO_IOCX_GET_CACHE_INFO bool
  | BIGO_IOCX_CONFIG_SECURE u32
  | BIGO_IOCX_CONFIG_PRIORITY int
  | BIGO_IOCX_DMA_SYNC "bigo_buf_sync option"
  | BIGO_IOCX_MISC "nat option" bool
  | BIGO_IOCX_unknown

text \<open>What a command writes back; the answer of the secure world to a query for the padding is left out.\<close>

datatype bigo_out = No_Out | Regs_Out "u32 list" | Mapping_Out bigo_ioc_mapping | Cache_Out u32 u32

definition bigo_command ::
  "bool \<Rightarrow> dma_env \<Rightarrow> ('h bigo_core \<Rightarrow> 'h bigo_core option) \<Rightarrow> nat \<Rightarrow> bigo_ioctl \<Rightarrow> 'h bigo_core \<Rightarrow> (int \<times> bigo_out \<times> 'h bigo_core) option" where
  "bigo_command zuma env wait a cmd core = (case cmd of
     BIGO_IOCX_PROCESS ur \<Rightarrow> do { (rc, regs, core) \<leftarrow> bigo_process zuma wait ur a core; Some (rc, Regs_Out regs, core) }
   | BIGO_IOCX_ABORT \<Rightarrow> Some (0, No_Out, core)
   | BIGO_IOCX_MAP None writable \<Rightarrow> Some (- EFAULT, No_Out, core)
   | BIGO_IOCX_MAP (Some mapping) writable \<Rightarrow> do {
       (rc, mapping, core) \<leftarrow> bigo_map env a mapping core;
       Some (if writable then (rc, Mapping_Out mapping, core) else (- EFAULT, No_Out, core)) }
   | BIGO_IOCX_UNMAP None \<Rightarrow> Some (- EFAULT, No_Out, core)
   | BIGO_IOCX_UNMAP (Some mapping) \<Rightarrow> do { (rc, core) \<leftarrow> bigo_unmap a mapping core; Some (rc, No_Out, core) }
   | BIGO_IOCX_CONFIG_FRMRATE frmrate \<Rightarrow> do { core \<leftarrow> bigo_config_frmrate a frmrate core; Some (0, No_Out, core) }
   | BIGO_IOCX_CONFIG_FRMSIZE None \<Rightarrow> Some (- EFAULT, No_Out, core)
   | BIGO_IOCX_CONFIG_FRMSIZE (Some frmsize) \<Rightarrow> do { core \<leftarrow> bigo_config_frmsize a frmsize core; Some (0, No_Out, core) }
   | BIGO_IOCX_GET_CACHE_INFO writable \<Rightarrow>
       Some (if writable then (0, case_prod Cache_Out (bigo_get_cache_info core), core) else (- EFAULT, No_Out, core))
   | BIGO_IOCX_CONFIG_SECURE is_secure \<Rightarrow> do { core \<leftarrow> bigo_config_secure a is_secure core; Some (0, No_Out, core) }
   | BIGO_IOCX_CONFIG_PRIORITY priority \<Rightarrow> do { core \<leftarrow> bigo_config_priority a priority core; Some (0, No_Out, core) }
   | BIGO_IOCX_DMA_SYNC None \<Rightarrow> Some (- EFAULT, No_Out, core)
   | BIGO_IOCX_DMA_SYNC (Some sync) \<Rightarrow> Some (bigo_dma_sync env sync, No_Out, core)
   | BIGO_IOCX_MISC None writable \<Rightarrow> Some (- EFAULT, No_Out, core)
   | BIGO_IOCX_MISC (Some misc_cmd) writable \<Rightarrow> do {
       core \<leftarrow> (if misc_cmd = 1 then bigo_config_afbc a core else Some core);
       Some (if \<not> writable then - EFAULT else if misc_cmd > 1 then - EINVAL else 0, No_Out, core) }
   | BIGO_IOCX_unknown \<Rightarrow> Some (- EINVAL, No_Out, core))"

definition bigo_unlocked_ioctl ::
  "bool \<Rightarrow> dma_env \<Rightarrow> ('h bigo_core \<Rightarrow> 'h bigo_core option) \<Rightarrow> nat \<Rightarrow> bigo_ioctl \<Rightarrow> 'h bigo_core \<Rightarrow> (int \<times> bigo_out \<times> 'h bigo_core) option" where
  "bigo_unlocked_ioctl zuma env wait a cmd core =
     (if a \<notin> set (bo_instances core) then Some (- EINVAL, No_Out, core)
      else do {
        core \<leftarrow> kref_get a core;
        (rc, out, core) \<leftarrow> bigo_command zuma env wait a cmd core;
        core \<leftarrow> kref_put zuma a core;
        Some (rc, out, core) })"

section \<open>The worker thread\<close>

fun set_idle :: "nat list \<Rightarrow> 'h bigo_core \<Rightarrow> 'h bigo_core option" where
  "set_idle [] core = Some core"
| "set_idle (a # as) core = do { core \<leftarrow> upd_inst a (\<lambda>i. i\<lparr>bi_idle := True\<rparr>) core; set_idle as core }"

definition mark_instances_idle :: "'h bigo_core \<Rightarrow> 'h bigo_core option" where
  "mark_instances_idle core = set_idle (bo_instances core) core"

text \<open>What the thread does when no job came for a while.\<close>

definition worker_idle :: "bool \<Rightarrow> 'h bigo_core \<Rightarrow> 'h bigo_core option" where
  "worker_idle zuma core = do {
     core \<leftarrow> mark_instances_idle core;
     core \<leftarrow> bigo_clocks_off zuma core;
     Some (bigo_mark_qos_dirty core) }"

definition worker_prepare :: "bool \<Rightarrow> nat \<Rightarrow> 'h bigo_core \<Rightarrow> 'h bigo_core option" where
  "worker_prepare zuma a core = do {
     inst \<leftarrow> bo_insts core a;
     core \<leftarrow> (if bi_idle inst then map_option bigo_mark_qos_dirty (upd_inst a (\<lambda>i. i\<lparr>bi_idle := False\<rparr>) core) else Some core);
     bigo_update_qos zuma core }"

text \<open>\<open>smc\<close> is the result of enabling the protection of a secure instance.\<close>

definition worker_run ::
  "bool \<Rightarrow> ('h \<Rightarrow> u32 list \<Rightarrow> 'h \<times> u32 list) \<Rightarrow> int \<Rightarrow> nat \<Rightarrow> 'h bigo_core \<Rightarrow> 'h bigo_core option" where
  "worker_run zuma hw smc a core = do {
     inst \<leftarrow> bo_insts core a;
     (rc, core) \<leftarrow> (if bi_is_secure inst \<noteq> 0 \<and> smc \<noteq> 0 then Some (smc, core) else bigo_run_job zuma hw a core);
     upd_inst a (\<lambda>i. i\<lparr>bi_status := rc, bi_job_comp := bi_job_comp i + 1\<rparr>) core }"

text \<open>A round of \<open>bigo_worker_thread\<close> with a job, and one in which no job is found.\<close>

definition worker_round ::
  "bool \<Rightarrow> ('h \<Rightarrow> u32 list \<Rightarrow> 'h \<times> u32 list) \<Rightarrow> int \<Rightarrow> 'h bigo_core \<Rightarrow> 'h bigo_core option" where
  "worker_round zuma hw smc core = do {
     (job, core) \<leftarrow> dequeue_prioq core;
     case job of
       None \<Rightarrow> Some core
     | Some a \<Rightarrow> do {
         core \<leftarrow> worker_prepare zuma a core;
         core \<leftarrow> worker_run zuma hw smc a core;
         kref_put zuma a core } }"

end
