(* ===== verification/Bigo_Props.thy ===== *)
theory Bigo_Props
  imports Bigo_Dev
begin

text \<open>
  Properties of the single parts of the video codec: the order in which jobs leave the queue, the load and the
  frequency chosen for it, the result of a job, and the buffers of an instance.
\<close>

unbundle bit_operations_syntax

section \<open>The queue by priority\<close>

text \<open>No queue is overlooked, and (\<open>prioq_exact\<close>) the bitmap names no empty queue.\<close>

definition prioq_ok :: "'h bigo_core \<Rightarrow> bool" where
  "prioq_ok core \<longleftrightarrow> length (bo_queue core) = BO_MAX_PRIO \<and> distinct (concat (bo_queue core)) \<and>
     (\<forall>i. bit (bo_bitmap core) i \<longrightarrow> i < BO_MAX_PRIO) \<and> (\<forall>i < BO_MAX_PRIO. bo_queue core ! i \<noteq> [] \<longrightarrow> bit (bo_bitmap core) i)"

definition prioq_exact :: "'h bigo_core \<Rightarrow> bool" where
  "prioq_exact core \<longleftrightarrow> prioq_ok core \<and> (\<forall>i < BO_MAX_PRIO. bit (bo_bitmap core) i \<longrightarrow> bo_queue core ! i \<noteq> [])"

lemma queue_two:
  assumes "length q = BO_MAX_PRIO"
  obtains q0 q1 where "q = [q0, q1]"
  using assms by (auto simp: BO_MAX_PRIO_def numeral_2_eq_2 length_Suc_conv)

lemma bit_set_bit_at [simp]: "bit (set_bit_at n x) i \<longleftrightarrow> bit x i \<or> (i = n \<and> n < 64)"
  by (auto simp: set_bit_at_def bit_simps)

lemma bit_clear_bit_at [simp]: "bit (clear_bit_at n x) i \<longleftrightarrow> bit x i \<and> i \<noteq> n"
  by (auto simp: clear_bit_at_def bit_simps dest: bit_imp_le_length)

lemma ffs_prio:
  assumes "\<forall>i. bit x i \<longrightarrow> i < BO_MAX_PRIO"
  shows "ffs x = (if bit x 0 then 1 else if bit x 1 then 2 else 0)"
proof -
  have "\<not> bit x i" if "2 \<le> i" for i using assms that by (auto simp: BO_MAX_PRIO_def)
  then have "find (bit x) [2..<32] = None" by (simp add: find_None_iff)
  moreover have "[0..<32] = 0 # 1 # [2..<32]" by (simp add: upt_rec)
  ultimately show ?thesis by (simp add: ffs_def)
qed

definition enqueued :: "nat \<Rightarrow> nat \<Rightarrow> 'h bigo_core \<Rightarrow> 'h bigo_core" where
  "enqueued p a core = core\<lparr>bo_queue := (bo_queue core)[p := bo_queue core ! p @ [a]], bo_bitmap := set_bit_at p (bo_bitmap core)\<rparr>"

lemma enqueued_ok:
  assumes "p < BO_MAX_PRIO" "a \<notin> set (concat (bo_queue core))"
  shows "prioq_ok core \<Longrightarrow> prioq_ok (enqueued p a core)" "prioq_exact core \<Longrightarrow> prioq_exact (enqueued p a core)"
proof -
  show ok: "prioq_ok (enqueued p a core)" if k: "prioq_ok core"
  proof -
    obtain q0 q1 where q: "bo_queue core = [q0, q1]" using k queue_two by (auto simp: prioq_ok_def)
    have p: "p = 0 \<or> p = 1" using assms(1) by (auto simp: BO_MAX_PRIO_def)
    have "distinct (concat (bo_queue (enqueued p a core)))" using p k assms(2) q by (auto simp: enqueued_def prioq_ok_def)
    moreover have "bit (bo_bitmap (enqueued p a core)) i" if "i < BO_MAX_PRIO" "bo_queue (enqueued p a core) ! i \<noteq> []" for i
      using that \<open>prioq_ok core\<close> p by (cases "i = p") (auto simp: enqueued_def prioq_ok_def)
    moreover have "i < BO_MAX_PRIO" if "bit (bo_bitmap (enqueued p a core)) i" for i
      using that k assms(1) unfolding prioq_ok_def by (cases "i = p") (simp_all add: enqueued_def)
    moreover have "length (bo_queue (enqueued p a core)) = BO_MAX_PRIO" using k by (simp add: prioq_ok_def enqueued_def)
    ultimately show ?thesis unfolding prioq_ok_def by blast
  qed
  show "prioq_exact (enqueued p a core)" if k: "prioq_exact core"
  proof -
    have ok': "prioq_ok core" using k by (simp add: prioq_exact_def)
    then have len: "length (bo_queue core) = BO_MAX_PRIO" by (simp add: prioq_ok_def)
    have "bo_queue (enqueued p a core) ! i \<noteq> []" if i: "i < BO_MAX_PRIO" "bit (bo_bitmap (enqueued p a core)) i" for i
    proof (cases "i = p")
      case False
      then have "bo_queue core ! i \<noteq> []" using i k by (simp add: enqueued_def prioq_exact_def)
      then show ?thesis using False by (simp add: enqueued_def)
    qed (use i len in \<open>simp add: enqueued_def\<close>)
    then show ?thesis using ok [OF ok'] by (simp add: prioq_exact_def)
  qed
qed

lemma prioq_enqueue_effect:
  assumes "prioq_ok core" "bo_insts core a = Some inst" "0 \<le> bi_priority inst" "bi_priority inst < 2"
  shows "enqueue_prioq a core = (if a \<in> set (concat (bo_queue core)) then Some (- EINVAL, core)
    else Some (0, enqueued (nat (bi_priority inst)) a core))"
  using assms by (auto simp: enqueue_prioq_def find_job_from_prioq_def arr_get_def prioq_ok_def BO_MAX_PRIO_def enqueued_def)


text \<open>
  Taking a job back from the queue leaves the bit of its priority set. When its queue becomes empty, the next
  search looks there only and finds nothing: jobs of lower priority wait until another
  urgent job passes, however often the worker looks.
\<close>

lemma cleared_job_starves:
  assumes "prioq_exact core" "bo_queue core = [[a], b # q]"
  shows "clear_job_from_prioq a core = (True, core\<lparr>bo_queue := [[], b # q]\<rparr>) \<and>
    dequeue_prioq (core\<lparr>bo_queue := [[], b # q]\<rparr>) = Some (None, core\<lparr>bo_queue := [[], b # q]\<rparr>)"
proof -
  have b: "bit (bo_bitmap core) 0" and n: "a \<noteq> b" "a \<notin> set q" and m: "\<forall>i. bit (bo_bitmap core) i \<longrightarrow> i < BO_MAX_PRIO"
    using assms by (auto simp: prioq_exact_def prioq_ok_def BO_MAX_PRIO_def)
  have "clear_job_from_prioq a core = (True, core\<lparr>bo_queue := [[], b # q]\<rparr>)"
    using n assms(2) by (simp add: clear_job_from_prioq_def find_job_from_prioq_def BO_MAX_PRIO_def remove1_idem)
  moreover have "dequeue_prioq (core\<lparr>bo_queue := [[], b # q]\<rparr>) = Some (None, core\<lparr>bo_queue := [[], b # q]\<rparr>)"
    using b by (simp add: dequeue_prioq_def ffs_prio [OF m] arr_get_def)
  ultimately show ?thesis by simp
qed

section \<open>Load and frequency\<close>

text \<open>The load of an instance in thousands of pixels per second, as a natural number.\<close>

definition exact_load :: "bool \<Rightarrow> bigo_inst \<Rightarrow> nat" where
  "exact_load use_bpp inst = unat (bi_width inst) * unat (bi_height inst) * unat (bi_fps inst) div 1024 * (if use_bpp then unat (bi_bpp inst) else 1)"

definition load_fits :: "bool \<Rightarrow> bigo_inst \<Rightarrow> bool" where
  "load_fits use_bpp inst \<longleftrightarrow> exact_load False inst < 2 ^ 32 \<and> exact_load use_bpp inst < 2 ^ 32"

lemma inst_load_exact:
  assumes "load_fits use_bpp inst"
  shows "unat (inst_load use_bpp inst) = exact_load use_bpp inst"
proof -
  let ?p = "unat (bi_width inst) * unat (bi_height inst) * unat (bi_fps inst)"
  have small: "?p div 1024 < 2 ^ 32" using assms by (simp add: load_fits_def exact_load_def)
  then have p: "?p < 2 ^ 64" by (simp add: div_less_iff_less_mult)
  have "unat ((ucast (bi_width inst) :: u64) * ucast (bi_height inst) * ucast (bi_fps inst)) = ?p"
    using p by (simp add: unat_word_ariths mod_mult_left_eq)
  then have "unat ((ucast (bi_width inst) :: u64) * ucast (bi_height inst) * ucast (bi_fps inst) div 1024) = ?p div 1024"
    by (simp add: unat_div)
  then have "unat (ucast ((ucast (bi_width inst) :: u64) * ucast (bi_height inst) * ucast (bi_fps inst) div 1024) :: u32) = ?p div 1024"
    using small by (simp add: unsigned_ucast_eq take_bit_nat_eq_self)
  then show ?thesis using assms by (auto simp: inst_load_def load_fits_def exact_load_def Let_def unat_word_ariths)
qed

lemma total_load_loop_exact:
  assumes "\<forall>inst \<in> set is. load_fits use_bpp inst" "load \<le> m"
  shows "unat (total_load_loop m use_bpp is load) = min (unat m) (unat load + (\<Sum>inst \<leftarrow> filter (\<lambda>i. \<not> bi_idle i) is. exact_load use_bpp inst))"
  using assms
proof (induction "is" arbitrary: load)
  case Nil
  then show ?case by (simp add: word_le_nat_alt)
next
  case (Cons inst "is")
  have x: "unat (inst_load use_bpp inst) = exact_load use_bpp inst" using Cons.prems(1) by (simp add: inst_load_exact)
  have d: "unat (m - load) = unat m - unat load" using Cons.prems(2) by (simp add: unat_sub)
  show ?case
  proof (cases "bi_idle inst \<or> m - load \<le> inst_load use_bpp inst")
    case True
    then show ?thesis using Cons x d by (auto simp: word_le_nat_alt word_less_nat_alt)
  next
    case False
    then have l: "unat (inst_load use_bpp inst) < unat m - unat load" using d by (simp add: word_less_nat_alt not_le)
    then have "unat load + unat (inst_load use_bpp inst) < 2 ^ 32" using unat_u32_bound [of m] by simp
    then have s: "unat (load + inst_load use_bpp inst) = unat load + exact_load use_bpp inst" using x by (simp add: unat_add_no_wrap)
    then have "load + inst_load use_bpp inst \<le> m" using l x by (simp add: word_le_nat_alt)
    then show ?thesis using Cons s False by (simp add: not_le)
  qed
qed

text \<open>
  C31: The load is the sum over the instances that are not idle, kept between 1 and the largest load
  of the table, as long as no product of width, height and rate exceeds what fits its 32 bits.
\<close>

theorem total_load_exact:
  assumes "list_insts (bo_insts core) (bo_instances core) = Some is" "is \<noteq> []" "\<forall>inst \<in> set is. load_fits use_bpp inst"
  shows "\<exists>load. bigo_get_total_load use_bpp core = Some load \<and> load \<le> bo_max_load core \<and>
    unat load = min (unat (bo_max_load core)) (max 1 (\<Sum>inst \<leftarrow> filter (\<lambda>i. \<not> bi_idle i) is. exact_load use_bpp inst))"
proof -
  let ?l = "total_load_loop (bo_max_load core) use_bpp is 0"
  have "unat ?l = min (unat (bo_max_load core)) (\<Sum>inst \<leftarrow> filter (\<lambda>i. \<not> bi_idle i) is. exact_load use_bpp inst)"
    using total_load_loop_exact [OF assms(3), of 0 "bo_max_load core"] by simp
  moreover have "unat (min (max 1 ?l) (bo_max_load core)) = min (max 1 (unat ?l)) (unat (bo_max_load core))"
    by (simp add: min_def max_def word_le_nat_alt)
  moreover have "min (max 1 (min m s)) m = min m (max 1 s)" for m s :: nat by (simp add: min_def max_def)
  ultimately show ?thesis using assms(1,2) by (auto simp: bigo_get_total_load_def)
qed

text \<open>Beyond that, the product is cut to 32 bits: an instance with a huge frame counts as no load.\<close>

lemma total_load_truncated:
  "inst_load False \<lparr>bi_buffers = [], bi_refcount = 1, bi_height = 0x10000, bi_width = 0x10000, bi_fps = 1024, bi_is_secure = 0,
     bi_priority = 0, bi_job_comp = 0, bi_regs = [], bi_status = 0, bi_bpp = 1, bi_idle = False, bi_is_decoder_usage = True, bi_afbc = False\<rparr> = 0"
  by (simp add: inst_load_def)

text \<open>
  The tables have an entry for the largest load. The table of frequencies has, when it was read without error and is
  not empty, because the largest load is that of its last entry.
\<close>

definition tables_ok :: "'h bigo_core \<Rightarrow> bool" where
  "tables_ok core \<longleftrightarrow> (\<exists>opp \<in> set (bo_opps core). bo_max_load core \<le> opp_load_pps opp) \<and>
     (\<exists>bw \<in> set (bo_bws core). bo_max_load core \<le> bw_load_pps bw)"

lemma opp_table_loop_last:
  assumes "opp_table_loop nps core = (0, core')" "nps \<noteq> [] \<or> (\<exists>opp \<in> set (bo_opps core). bo_max_load core \<le> opp_load_pps opp)"
  shows "(\<exists>opp \<in> set (bo_opps core'). bo_max_load core' \<le> opp_load_pps opp) \<and> bo_bws core' = bo_bws core"
  using assms by (induction nps core rule: opp_table_loop.induct) (auto simp: Let_def split: if_splits option.splits)

lemma bw_table_loop_frame:
  "bw_table_loop nps core = (rc, core') \<Longrightarrow> bo_opps core' = bo_opps core \<and> bo_max_load core' = bo_max_load core"
  by (induction nps core rule: bw_table_loop.induct) (auto split: if_splits option.splits)

lemma opp_table_loop_rc: "opp_table_loop nps core = (rc, core') \<Longrightarrow> rc \<le> 0"
  by (induction nps core rule: opp_table_loop.induct) (auto simp: Let_def split: if_splits option.splits)

lemma parsed_tables_ok:
  assumes "bigo_of_dt_parse res (Some nps) bw_np bwindex core = (rc, core')" "0 \<le> rc" "nps \<noteq> []"
    and "\<exists>bw \<in> set (bo_bws core'). bo_max_load core' \<le> bw_load_pps bw"
  shows "tables_ok core'"
proof -
  obtain r1 c1 where o: "opp_table_loop nps core = (r1, c1)" by fastforce
  obtain r2 c2 where b: "bigo_of_parse_bw_table bw_np c1 = (r2, c2)" by fastforce
  have "r1 = 0" and c: "core' = c2\<lparr>bo_bwindex := bwindex\<rparr>"
    using assms(1,2) o b opp_table_loop_rc [OF o]
    by (auto simp: bigo_of_dt_parse_def bigo_of_parse_opp_table_def Let_def split: if_splits)
  then have "\<exists>opp \<in> set (bo_opps c1). bo_max_load c1 \<le> opp_load_pps opp" using opp_table_loop_last o assms(3) by blast
  then have "\<exists>opp \<in> set (bo_opps c2). bo_max_load c2 \<le> opp_load_pps opp"
    using b bw_table_loop_frame [of _ c1 r2 c2] by (auto simp: bigo_of_parse_bw_table_def split: option.splits)
  then show ?thesis using assms(4) c by (simp add: tables_ok_def)
qed

lemma list_insts_live: "\<forall>a \<in> set as. h a \<noteq> None \<Longrightarrow> list_insts h as = Some (map (\<lambda>a. the (h a)) as)"
  by (induction as) auto

lemma find_first:
  assumes "x \<in> set xs" "P x"
  shows "\<exists>ys y zs. find P xs = Some y \<and> xs = ys @ y # zs \<and> P y \<and> (\<forall>z \<in> set ys. \<not> P z)"
  using assms
proof (induction xs)
  case (Cons z zs)
  show ?case
  proof (cases "P z")
    case True
    then show ?thesis by (intro exI [of _ "[]"]) simp
  next
    case False
    then obtain ys y zs' where "find P zs = Some y" "zs = ys @ y # zs'" "P y" "\<forall>z \<in> set ys. \<not> P z" using Cons by auto
    then show ?thesis using False by (intro exI [of _ "z # ys"]) auto
  qed
qed simp

definition insts_live :: "'h bigo_core \<Rightarrow> bool" where
  "insts_live core \<longleftrightarrow> (\<forall>a \<in> set (bo_instances core). bo_insts core a \<noteq> None)"

lemma total_load_le: "bigo_get_total_load use_bpp core = Some load \<Longrightarrow> load \<le> bo_max_load core"
  by (cases "list_insts (bo_insts core) (bo_instances core)") (auto simp: bigo_get_total_load_def)

lemma total_load_some: "insts_live core \<Longrightarrow> \<exists>load. bigo_get_total_load use_bpp core = Some load"
  by (simp add: bigo_get_total_load_def insts_live_def list_insts_live)

lemma target_freq_first:
  assumes "tables_ok core" "load \<le> bo_max_load core"
  shows "\<exists>ys opp zs. bigo_get_target_freq core load = Some (opp_freq_khz opp) \<and> bo_opps core = ys @ opp # zs \<and>
    load \<le> opp_load_pps opp \<and> (\<forall>x \<in> set ys. opp_load_pps x < load)"
proof -
  obtain x where "x \<in> set (bo_opps core)" "load \<le> opp_load_pps x" using assms by (auto simp: tables_ok_def intro: order.trans)
  from find_first [OF this(1), of "\<lambda>opp. load \<le> opp_load_pps opp", OF this(2)] show ?thesis
    by (auto simp: bigo_get_target_freq_def not_le)
qed

lemma get_bw_some:
  assumes "tables_ok core" "insts_live core"
  shows "\<exists>bw. bigo_get_bw zuma core = Some bw"
proof -
  obtain load where l: "bigo_get_total_load False core = Some load" "load \<le> bo_max_load core"
    using total_load_some [OF assms(2)] total_load_le by blast
  obtain x where "x \<in> set (bo_bws core)" "load \<le> bw_load_pps x" using assms(1) l(2) by (auto simp: tables_ok_def intro: order.trans)
  from find_first [OF this(1), of "\<lambda>bw. load \<le> bw_load_pps bw", OF this(2)]
  obtain b where "bigo_get_target_bw core load = Some b" by (auto simp: bigo_get_target_bw_def)
  then show ?thesis using l assms(2) by (simp add: bigo_get_bw_def insts_live_def list_insts_live Let_def)
qed

lemma update_qos_chosen:
  assumes "tables_ok core" "insts_live core" "bo_qos_dirty core"
  shows "\<exists>core' load ys opp zs. bigo_update_qos zuma core = Some core' \<and> \<not> bo_qos_dirty core' \<and>
    bigo_get_total_load zuma core = Some load \<and> bo_opps core = ys @ opp # zs \<and>
    load \<le> opp_load_pps opp \<and> (\<forall>x \<in> set ys. opp_load_pps x < load) \<and>
    (bo_set_freq core = 0 \<and> (zuma \<longrightarrow> 1 \<le> bo_ip_ver core) \<longrightarrow> bo_qos_bigo core' = Some (opp_freq_khz opp))"
proof -
  obtain bw where bw: "bigo_get_bw zuma core = Some bw" using get_bw_some [OF assms(1,2)] by blast
  obtain mif where c1: "(if zuma then Some (core\<lparr>bo_bts := bw\<rparr>) else update_mif_floor (core\<lparr>bo_bts := bw\<rparr>)) = Some (core\<lparr>bo_bts := bw, bo_qos_mif := mif\<rparr>)"
    using assms(2) by (cases zuma) (auto simp: update_mif_floor_def insts_live_def list_insts_live intro: that [of "bo_qos_mif core"])
  obtain load where l: "bigo_get_total_load zuma core = Some load" "load \<le> bo_max_load core"
    using total_load_some [OF assms(2)] total_load_le by blast
  then have l': "bigo_get_total_load zuma (core\<lparr>bo_bts := bw, bo_qos_mif := mif\<rparr>) = Some load"
    by (cases "list_insts (bo_insts core) (bo_instances core)") (auto simp: bigo_get_total_load_def split: if_splits)
  obtain ys opp zs where f: "bigo_get_target_freq core load = Some (opp_freq_khz opp)" "bo_opps core = ys @ opp # zs"
    "load \<le> opp_load_pps opp" "\<forall>x \<in> set ys. opp_load_pps x < load" using target_freq_first [OF assms(1) l(2)] by blast
  then have f': "bigo_get_target_freq (core\<lparr>bo_bts := bw, bo_qos_mif := mif\<rparr>) load = Some (opp_freq_khz opp)" by (simp add: bigo_get_target_freq_def)
  have "bigo_update_qos zuma core = Some ((bigo_set_freq zuma (opp_freq_khz opp) (core\<lparr>bo_bts := bw, bo_qos_mif := mif\<rparr>))\<lparr>bo_qos_dirty := False\<rparr>)"
    using assms(3) bw c1 l' f' by (simp add: bigo_update_qos_def bigo_scale_bw_def bigo_scale_freq_def)
  moreover have "bo_qos_bigo (bigo_set_freq zuma f (core\<lparr>bo_bts := bw, bo_qos_mif := mif\<rparr>)) = Some f"
    if "bo_set_freq core = 0" "zuma \<longrightarrow> 1 \<le> bo_ip_ver core" for f
    using that by (auto simp: bigo_set_freq_def Let_def dest: leD)
  ultimately show ?thesis using l(1) f(2-4) by fastforce
qed


section \<open>Buffers\<close>

lemma take_first_snoc: "\<forall>x \<in> set xs. \<not> P x \<Longrightarrow> P y \<Longrightarrow> take_first P (xs @ [y]) = Some (y, xs)"
  by (induction xs) auto

lemma find_snoc: "\<forall>x \<in> set xs. \<not> P x \<Longrightarrow> P y \<Longrightarrow> find P (xs @ [y]) = Some y"
  by (induction xs) auto

lemma dma_balanced:
  "dma_ref d (- 1) (dma_ref d 1 c) = c"
  "dma_ref d (- 1) (dma_attachment d (- 1) (dma_attachment d 1 (dma_ref d 1 c))) = c"
  by (simp_all add: dma_ref_def dma_attachment_def)

text \<open>
  C30: A new buffer is mapped completely or not at all: when any of the kernel's calls fails, the state is that before, with no
  reference or attachment left. After a success, mapping the same descriptor again finds the same
  address and changes nothing, and unmapping it restores the state before, references included.
\<close>

theorem map_unmap_round_trip:
  assumes "bo_insts core a = Some inst" "\<forall>binfo \<in> set (bi_buffers inst). buf_fd binfo \<noteq> map_fd mapping"
    and errors: "\<forall>rc. de_get env (map_fd mapping) = Inl rc \<longrightarrow> rc \<noteq> 0" "\<forall>d rc. de_map env d = Inl rc \<longrightarrow> rc \<noteq> 0"
  shows "\<exists>rc mapping' core'. bigo_map env a mapping core = Some (rc, mapping', core') \<and>
    (if rc \<noteq> 0 then core' = core \<and> mapping' = mapping
     else bigo_map env' a mapping core' = Some (0, mapping', core') \<and> bigo_unmap a mapping core' = Some (0, core))"
proof -
  have none: "find (\<lambda>binfo. buf_fd binfo = map_fd mapping) (bi_buffers inst) = None" using assms(2) by (simp add: find_None_iff)
  then have add: "bigo_map env a mapping core = add_to_mapped_list env a mapping core"
    using assms(1) by (simp add: bigo_map_def check_mapped_list_def)
  show ?thesis
  proof (cases "de_alloc env \<and> (\<exists>d iova. de_get env (map_fd mapping) = Inr d \<and> de_attach env d = 0 \<and> de_map env d = Inr iova)")
    case False
    then have "\<exists>rc. add_to_mapped_list env a mapping core = Some (rc, mapping, core) \<and> rc \<noteq> 0"
      using errors by (auto simp: add_to_mapped_list_def Let_def dma_balanced split: sum.split)
    then show ?thesis using add by auto
  next
    case True
    then obtain d iova where d: "de_alloc env" "de_get env (map_fd mapping) = Inr d" "de_attach env d = 0" "de_map env d = Inr iova" by blast
    let ?b = "\<lparr>buf_dmabuf = d, buf_size = map_size mapping, buf_offset = map_offset mapping, buf_fd = map_fd mapping, buf_iova = iova\<rparr>"
    let ?c = "(dma_attachment d 1 (dma_ref d 1 core))\<lparr>bo_insts := (bo_insts core)(a \<mapsto> inst\<lparr>bi_buffers := bi_buffers inst @ [?b]\<rparr>)\<rparr>"
    have m: "bigo_map env a mapping core = Some (0, mapping\<lparr>map_iova := ucast iova\<rparr>, ?c)"
      using add d assms(1) by (simp add: add_to_mapped_list_def upd_inst_def dma_attachment_def dma_ref_def)
    have "bigo_map env' a mapping ?c = Some (0, mapping\<lparr>map_iova := ucast iova\<rparr>, ?c)"
      using find_snoc [of "bi_buffers inst" "\<lambda>binfo. buf_fd binfo = map_fd mapping" ?b] assms(2) by (simp add: bigo_map_def check_mapped_list_def)
    moreover have "bigo_unmap a mapping ?c = Some (0, core)"
      using take_first_snoc [of "bi_buffers inst" "\<lambda>binfo. buf_fd binfo = map_fd mapping" ?b] assms(1,2)
      by (simp add: bigo_unmap_def upd_inst_def bigo_unmap_one_def dma_attachment_def dma_ref_def fun_upd_idem)
    ultimately show ?thesis using m by auto
  qed
qed

section \<open>Witnesses\<close>

definition demo_inst :: "int \<Rightarrow> u32 \<Rightarrow> bigo_inst" where
  "demo_inst prio fps = \<lparr>bi_buffers = [], bi_refcount = 2, bi_height = 1080, bi_width = 1920, bi_fps = fps, bi_is_secure = 0,
     bi_priority = prio, bi_job_comp = 0, bi_regs = [0, 0, 0, 0], bi_status = 0, bi_bpp = 1, bi_idle = False, bi_is_decoder_usage = True, bi_afbc = False\<rparr>"

definition demo_core :: "unit bigo_core" where
  "demo_core = \<lparr>bo_insts = [1 \<mapsto> demo_inst 1 30, 2 \<mapsto> demo_inst 0 60], bo_instances = [1, 2], bo_queue = [[2], [1]], bo_bitmap = set_bit_at 1 (set_bit_at 0 0),
     bo_opps = [\<lparr>opp_freq_khz = 150000, opp_load_pps = 100000\<rparr>, \<lparr>opp_freq_khz = 600000, opp_load_pps = 1000000\<rparr>],
     bo_bws = [\<lparr>bw_load_pps = 1000000, rd_bw = 10, wr_bw = 5, pk_bw = 20, rd_bw_afbc = 8, wr_bw_afbc = 4, pk_bw_afbc = 16,
       rd_bw_enc = 9, wr_bw_enc = 9, pk_bw_enc = 18\<rparr>],
     bo_max_load = 1000000, bo_bwindex = 0, bo_qos_bigo = None, bo_qos_mif = None, bo_bts = bts_zero, bo_qos_dirty = True,
     bo_regs = [0, 0, 0, 0], bo_regs_size = 16, bo_stat_with_irq = 0, bo_frame_done = 0, bo_set_freq = 0, bo_trigger_ssr = 0, bo_timeout = 1000,
     bo_ip_ver = 1, bo_pt_hnd = False, bo_pid = 0, bo_slc_size = 0, bo_ssmt = None, bo_worker_thread = True,
     bo_dma_refs = (\<lambda>d. 0), bo_dma_attached = (\<lambda>d. 0), bo_hw = ()\<rparr>"

lemma demo_core_exact: "prioq_exact demo_core"
  by (simp add: prioq_exact_def prioq_ok_def demo_core_def BO_MAX_PRIO_def less_2_cases_iff)


theorem total_load_exact_witness: "\<exists>load. bigo_get_total_load True demo_core = Some load \<and> unat load = 182250"
  using total_load_exact [of demo_core "[demo_inst 1 30, demo_inst 0 60]" True]
  by (auto simp: demo_core_def demo_inst_def load_fits_def exact_load_def)


definition demo_env :: "nat option \<Rightarrow> dma_env" where
  "demo_env buf = \<lparr>de_alloc = True, de_get = (\<lambda>fd. case buf of None \<Rightarrow> Inl (- 9) | Some d \<Rightarrow> Inr d), de_attach = (\<lambda>d. 0),
     de_map = (\<lambda>d. Inr 0x1000), de_partial = None, de_full = (\<lambda>e d dir. 0)\<rparr>"

theorem map_unmap_round_trip_witness:
  "\<exists>mapping' core'. bigo_map (demo_env (Some 7)) 1 \<lparr>map_fd = 5, map_iova = 0, map_offset = 0, map_size = 4096, map_skip_cmo = 0\<rparr> demo_core =
     Some (0, mapping', core') \<and> map_iova mapping' = 0x1000 \<and>
     bigo_unmap 1 \<lparr>map_fd = 5, map_iova = 0, map_offset = 0, map_size = 4096, map_skip_cmo = 0\<rparr> core' = Some (0, demo_core)"
proof -
  let ?m = "\<lparr>map_fd = 5, map_iova = 0, map_offset = 0, map_size = 4096, map_skip_cmo = 0\<rparr> :: bigo_ioc_mapping"
  obtain core' where c: "bigo_map (demo_env (Some 7)) 1 ?m demo_core = Some (0, ?m\<lparr>map_iova := 0x1000\<rparr>, core')"
    by (simp add: bigo_map_def check_mapped_list_def add_to_mapped_list_def demo_env_def demo_core_def demo_inst_def upd_inst_def dma_ref_def
        dma_attachment_def Let_def)
  moreover have "bo_insts demo_core 1 = Some (demo_inst 1 30)" "\<forall>binfo \<in> set (bi_buffers (demo_inst 1 30)). buf_fd binfo \<noteq> map_fd ?m"
    by (simp_all add: demo_core_def demo_inst_def)
  ultimately show ?thesis using map_unmap_round_trip [of demo_core 1 "demo_inst 1 30" ?m "demo_env (Some 7)" "demo_env None"]
    by (auto simp: demo_env_def)
qed

section \<open>A completion that is left over\<close>

text \<open>
  A job that finishes after its command has timed out leaves its completion behind. The next command on the instance
  returns at once, with the status of the old job and the registers as user space handed
  them in, while its own job is still in the queue.
\<close>

lemma stale_completion_returned:
  assumes "process_submit zuma ur a core = Some (0, queued)" "bo_insts queued a = Some inst" "0 < bi_job_comp inst" "ur_writable ur"
  shows "\<exists>core'. bigo_process zuma Some ur a core = Some (bi_status inst, bi_regs inst, core') \<and> bo_queue core' = bo_queue queued"
  using assms by (simp add: bigo_process_def take_completion_def upd_inst_def process_finish_def copy_regs_to_user_def)

end
