(* ===== verification/Bigo_Race.thy ===== *)
theory Bigo_Race
  imports Bigo_Props "HOL-Library.Multiset"
begin

text \<open>
  The threads of the video codec: commands of user space, the worker and the closing of files, cut at the points where
  they take the lock of the core, wait, or drop a reference. The invariant \<open>bigo_inv\<close> says that
  reference counts are exact; each kind of step keeps it.
\<close>

unbundle bit_operations_syntax

section \<open>Threads\<close>

text \<open>
  A thread is its next action. \<open>Stopping\<close> is a close that holds the lock of the core and waits for the end of the
  worker; \<open>Closing\<close> and \<open>Worker_Closing\<close> have dropped the last reference. \<open>Done\<close> has ended.
\<close>

datatype bigo_thread =
    Ioctl nat bigo_ioctl
  | Waiting nat
  | Timed_Out nat
  | Ioctl_End nat
  | Stopping nat
  | Release_End nat
  | Closing nat
  | Worker_Wait
  | Worker_Idle
  | Worker_Sleep
  | Worker_Job nat
  | Worker_Run nat
  | Worker_End nat
  | Worker_Closing nat
  | Done

fun held :: "bigo_thread \<Rightarrow> nat option" where
  "held (Ioctl a cmd) = Some a"
| "held (Waiting a) = Some a"
| "held (Timed_Out a) = Some a"
| "held (Ioctl_End a) = Some a"
| "held (Stopping a) = Some a"
| "held (Release_End a) = Some a"
| "held (Worker_Job a) = Some a"
| "held (Worker_Run a) = Some a"
| "held (Worker_End a) = Some a"
| "held _ = None"

fun closing :: "bigo_thread \<Rightarrow> nat option" where
  "closing (Closing a) = Some a"
| "closing (Worker_Closing a) = Some a"
| "closing _ = None"

fun is_worker :: "bigo_thread \<Rightarrow> bool" where
  "is_worker Worker_Wait = True"
| "is_worker Worker_Idle = True"
| "is_worker Worker_Sleep = True"
| "is_worker (Worker_Job a) = True"
| "is_worker (Worker_Run a) = True"
| "is_worker (Worker_End a) = True"
| "is_worker (Worker_Closing a) = True"
| "is_worker _ = False"

fun is_ioctl :: "nat \<Rightarrow> bigo_thread \<Rightarrow> bool" where
  "is_ioctl a (Ioctl b cmd) \<longleftrightarrow> a = b"
| "is_ioctl a (Waiting b) \<longleftrightarrow> a = b"
| "is_ioctl a (Timed_Out b) \<longleftrightarrow> a = b"
| "is_ioctl a (Ioctl_End b) \<longleftrightarrow> a = b"
| "is_ioctl a _ \<longleftrightarrow> False"

fun is_process :: "bigo_ioctl \<Rightarrow> bool" where
  "is_process (BIGO_IOCX_PROCESS ur) = True"
| "is_process _ = False"

record 'h bigo_sys =
  sys_core :: "'h bigo_core"
  sys_threads :: "bigo_thread multiset"
  sys_files :: "nat set"
  sys_stop :: bool

definition unlocked :: "'h bigo_sys \<Rightarrow> bool" where
  "unlocked s \<longleftrightarrow> (\<forall>a. Stopping a \<notin># sys_threads s)"

section \<open>Steps\<close>

text \<open>
  The kernel closes a file only when no command on it is running. \<open>thread_step\<close> are the steps of a
  thread that exists, with the core and the stop flag before and after.
\<close>

inductive thread_step ::
  "bool \<Rightarrow> ('h \<Rightarrow> u32 list \<Rightarrow> 'h \<times> u32 list) \<Rightarrow> bool \<Rightarrow> bool \<Rightarrow> bool \<Rightarrow> bigo_thread \<Rightarrow> 'h bigo_core \<Rightarrow> bigo_thread \<Rightarrow> 'h bigo_core \<Rightarrow> bool"
  for zuma hw lock_free stop worker where
  command: "lock_free \<Longrightarrow> \<not> is_process cmd \<Longrightarrow> bigo_command zuma env Some a cmd core = Some (rc, out, core') \<Longrightarrow>
    thread_step zuma hw lock_free stop worker (Ioctl a cmd) core (Ioctl_End a) core'"
| submit: "lock_free \<Longrightarrow> process_submit zuma ur a core = Some (rc, core') \<Longrightarrow>
    thread_step zuma hw lock_free stop worker (Ioctl a (BIGO_IOCX_PROCESS ur)) core (if rc = 0 then Waiting a else Ioctl_End a) core'"
| wake: "take_completion a core = Some (True, core') \<Longrightarrow>
    thread_step zuma hw lock_free stop worker (Waiting a) core (Ioctl_End a) core'"
| timeout: "take_completion a core = Some (False, core') \<Longrightarrow>
    thread_step zuma hw lock_free stop worker (Waiting a) core (Timed_Out a) core'"
| take_back: "process_timeout zuma a core = Some core' \<Longrightarrow>
    thread_step zuma hw lock_free stop worker (Timed_Out a) core (Ioctl_End a) core'"
| ioctl_end: "kref_dec a core = Some (last_ref, core') \<Longrightarrow>
    thread_step zuma hw lock_free stop worker (Ioctl_End a) core (if last_ref then Closing a else Done) core'"
| stopped: "\<not> worker \<Longrightarrow>
    thread_step zuma hw lock_free stop worker (Stopping a) core (Release_End a) (core\<lparr>bo_worker_thread := False\<rparr>)"
| release_end: "kref_dec a core = Some (last_ref, core') \<Longrightarrow>
    thread_step zuma hw lock_free stop worker (Release_End a) core (if last_ref then Closing a else Done) core'"
| close: "lock_free \<Longrightarrow> bigo_close zuma a core = Some core' \<Longrightarrow>
    thread_step zuma hw lock_free stop worker (Closing a) core Done core'"
| worker_stop: "stop \<Longrightarrow> t = Worker_Wait \<or> t = Worker_Sleep \<Longrightarrow> thread_step zuma hw lock_free stop worker t core Done core"
| worker_take: "\<not> stop \<Longrightarrow> t = Worker_Wait \<or> t = Worker_Sleep \<Longrightarrow> dequeue_prioq core = Some (Some a, core') \<Longrightarrow>
    thread_step zuma hw lock_free stop worker t core (Worker_Job a) core'"
| worker_timeout: "\<not> stop \<Longrightarrow> dequeue_prioq core = Some (None, core) \<Longrightarrow>
    thread_step zuma hw lock_free stop worker Worker_Wait core Worker_Idle core"
| worker_idle: "lock_free \<Longrightarrow> worker_idle zuma core = Some core' \<Longrightarrow>
    thread_step zuma hw lock_free stop worker Worker_Idle core Worker_Sleep core'"
| worker_prepare: "lock_free \<Longrightarrow> worker_prepare zuma a core = Some core' \<Longrightarrow>
    thread_step zuma hw lock_free stop worker (Worker_Job a) core (Worker_Run a) core'"
| worker_run: "worker_run zuma hw smc a core = Some core' \<Longrightarrow>
    thread_step zuma hw lock_free stop worker (Worker_Run a) core (Worker_End a) core'"
| worker_end: "kref_dec a core = Some (last_ref, core') \<Longrightarrow>
    thread_step zuma hw lock_free stop worker (Worker_End a) core (if last_ref then Worker_Closing a else Worker_Wait) core'"
| worker_close: "lock_free \<Longrightarrow> bigo_close zuma a core = Some core' \<Longrightarrow>
    thread_step zuma hw lock_free stop worker (Worker_Closing a) core Worker_Wait core'"

inductive bigo_step :: "bool \<Rightarrow> ('h \<Rightarrow> u32 list \<Rightarrow> 'h \<times> u32 list) \<Rightarrow> 'h bigo_sys \<Rightarrow> 'h bigo_sys \<Rightarrow> bool"
  for zuma hw where
  open_file: "unlocked s \<Longrightarrow> oe_inst env = Some a \<Longrightarrow> bo_insts (sys_core s) a = None \<Longrightarrow> bigo_open env (sys_core s) = (0, core') \<Longrightarrow>
    bigo_step zuma hw s (s\<lparr>sys_core := core', sys_files := insert a (sys_files s),
      sys_threads := (if bo_instances (sys_core s) = [] then add_mset Worker_Wait (sys_threads s) else sys_threads s),
      sys_stop := (if bo_instances (sys_core s) = [] then False else sys_stop s)\<rparr>)"
| open_failed: "unlocked s \<Longrightarrow> bigo_open env (sys_core s) = (rc, core') \<Longrightarrow> rc \<noteq> 0 \<Longrightarrow> bigo_step zuma hw s (s\<lparr>sys_core := core'\<rparr>)"
| ioctl: "unlocked s \<Longrightarrow> a \<in> sys_files s \<Longrightarrow> kref_get a (sys_core s) = Some core' \<Longrightarrow>
    bigo_step zuma hw s (s\<lparr>sys_core := core', sys_threads := add_mset (Ioctl a cmd) (sys_threads s)\<rparr>)"
| release: "unlocked s \<Longrightarrow> a \<in> sys_files s \<Longrightarrow> \<forall>t \<in># sys_threads s. \<not> is_ioctl a t \<Longrightarrow>
    bo_instances (sys_core s) = as \<Longrightarrow>
    bigo_step zuma hw s (s\<lparr>sys_core := (sys_core s)\<lparr>bo_instances := remove1 a as\<rparr>, sys_files := sys_files s - {a},
      sys_threads := add_mset (if remove1 a as = [] then Stopping a else Release_End a) (sys_threads s),
      sys_stop := (if remove1 a as = [] then True else sys_stop s)\<rparr>)"
| run_thread: "sys_threads s = add_mset t T \<Longrightarrow>
    thread_step zuma hw (unlocked s) (sys_stop s) (\<exists>w \<in># T. is_worker w) t (sys_core s) t' core' \<Longrightarrow>
    bigo_step zuma hw s (s\<lparr>sys_core := core', sys_threads := add_mset t' T\<rparr>)"

text \<open>The driver after the tables were read, before the first file is opened.\<close>

definition bigo_start :: "'h bigo_sys \<Rightarrow> bool" where
  "bigo_start s \<longleftrightarrow> sys_threads s = {#} \<and> sys_files s = {} \<and> bo_insts (sys_core s) = (\<lambda>a. None) \<and> bo_instances (sys_core s) = [] \<and>
     bo_queue (sys_core s) = [[], []] \<and> bo_bitmap (sys_core s) = 0 \<and> tables_ok (sys_core s) \<and> 16 \<le> bo_regs_size (sys_core s)"

inductive bigo_reachable :: "bool \<Rightarrow> ('h \<Rightarrow> u32 list \<Rightarrow> 'h \<times> u32 list) \<Rightarrow> 'h bigo_sys \<Rightarrow> bool" for zuma hw where
  start: "bigo_start s \<Longrightarrow> bigo_reachable zuma hw s"
| step: "bigo_reachable zuma hw s \<Longrightarrow> bigo_step zuma hw s s' \<Longrightarrow> bigo_reachable zuma hw s'"

section \<open>The invariant\<close>

definition refs :: "bigo_thread multiset \<Rightarrow> nat set \<Rightarrow> 'h bigo_core \<Rightarrow> nat \<Rightarrow> nat" where
  "refs T F core a = (if a \<in> F then 1 else 0) + count (image_mset held T) (Some a) + count_list (concat (bo_queue core)) a"

definition closers :: "bigo_thread multiset \<Rightarrow> nat \<Rightarrow> nat" where
  "closers T a = count (image_mset closing T) (Some a)"

definition inst_ok :: "nat \<Rightarrow> bigo_inst \<Rightarrow> bool" where
  "inst_ok n i \<longleftrightarrow> 0 \<le> bi_priority i \<and> bi_priority i < 2 \<and> length (bi_regs i) = n"

definition inst_inv :: "bigo_thread multiset \<Rightarrow> nat set \<Rightarrow> 'h bigo_core \<Rightarrow> nat \<Rightarrow> bool" where
  "inst_inv T F core a \<longleftrightarrow> (case bo_insts core a of
     None \<Rightarrow> refs T F core a = 0 \<and> closers T a = 0
   | Some i \<Rightarrow> bi_refcount i = refs T F core a \<and> closers T a = (if refs T F core a = 0 then 1 else 0) \<and>
       inst_ok (bo_regs_size core div 4) i)"

definition bigo_inv :: "bigo_thread multiset \<Rightarrow> nat set \<Rightarrow> 'h bigo_core \<Rightarrow> bool" where
  "bigo_inv T F core \<longleftrightarrow> (\<forall>a. inst_inv T F core a) \<and> prioq_ok core \<and> distinct (bo_instances core) \<and> set (bo_instances core) = F \<and>
     tables_ok core \<and> 16 \<le> bo_regs_size core"

text \<open>What an operation leaves alone that changes neither a reference nor the queue.\<close>

definition inst_same :: "bigo_inst \<Rightarrow> bigo_inst \<Rightarrow> bool" where
  "inst_same i i' \<longleftrightarrow> bi_refcount i' = bi_refcount i \<and> (\<forall>n. inst_ok n i \<longrightarrow> inst_ok n i')"

definition same_refs :: "'h bigo_core \<Rightarrow> 'h bigo_core \<Rightarrow> bool" where
  "same_refs c c' \<longleftrightarrow> bo_queue c' = bo_queue c \<and> bo_bitmap c' = bo_bitmap c \<and> bo_instances c' = bo_instances c \<and>
     bo_opps c' = bo_opps c \<and> bo_bws c' = bo_bws c \<and> bo_max_load c' = bo_max_load c \<and> bo_regs_size c' = bo_regs_size c \<and>
     (\<forall>a. rel_option inst_same (bo_insts c a) (bo_insts c' a))"

lemma inst_same_refl [simp]: "inst_same i i"
  by (simp add: inst_same_def)

lemma rel_option_same [simp]: "rel_option inst_same x x"
  by (cases x) simp_all

lemma same_refs_refl [simp]: "same_refs c c"
  by (simp add: same_refs_def)

lemma same_refs_trans [trans]:
  assumes "same_refs c d" "same_refs d e"
  shows "same_refs c e"
proof -
  have "rel_option inst_same (bo_insts c a) (bo_insts e a)" for a
  proof -
    have "rel_option inst_same (bo_insts c a) (bo_insts d a)" "rel_option inst_same (bo_insts d a) (bo_insts e a)"
      using assms by (simp_all add: same_refs_def)
    then show ?thesis by (cases "bo_insts c a"; cases "bo_insts d a"; cases "bo_insts e a") (auto simp: inst_same_def)
  qed
  then show ?thesis using assms by (simp add: same_refs_def)
qed

text \<open>The fields that the invariant looks at.\<close>

definition same_view :: "'h bigo_core \<Rightarrow> 'h bigo_core \<Rightarrow> bool" where
  "same_view c c' \<longleftrightarrow> bo_queue c' = bo_queue c \<and> bo_bitmap c' = bo_bitmap c \<and> bo_instances c' = bo_instances c \<and>
     bo_opps c' = bo_opps c \<and> bo_bws c' = bo_bws c \<and> bo_max_load c' = bo_max_load c \<and> bo_regs_size c' = bo_regs_size c \<and>
     bo_insts c' = bo_insts c"

lemma same_view_refs: "same_view c c' \<Longrightarrow> same_refs c c'"
  by (simp add: same_view_def same_refs_def)

lemma upd_inst_same:
  assumes "upd_inst a f c = Some c'" "\<And>i. inst_same i (f i)"
  shows "same_refs c c'"
  using assms by (auto simp: upd_inst_def same_refs_def)

lemma inv_same:
  assumes "bigo_inv (add_mset t T) F c" "same_refs c c'" "held t' = held t" "closing t' = closing t"
  shows "bigo_inv (add_mset t' T) F c'"
proof -
  have "inst_inv (add_mset t' T) F c' a" for a
  proof -
    have 1: "inst_inv (add_mset t T) F c a" using assms(1) by (simp add: bigo_inv_def)
    have 2: "rel_option inst_same (bo_insts c a) (bo_insts c' a)" "bo_queue c' = bo_queue c" "bo_regs_size c' = bo_regs_size c"
      using assms(2) by (simp_all add: same_refs_def)
    then have "refs (add_mset t' T) F c' a = refs (add_mset t T) F c a" "closers (add_mset t' T) a = closers (add_mset t T) a"
      using assms(3,4) by (simp_all add: refs_def closers_def)
    then show ?thesis using 1 2 by (cases "bo_insts c a"; cases "bo_insts c' a") (auto simp: inst_inv_def inst_same_def)
  qed
  then show ?thesis using assms(1,2) by (simp add: bigo_inv_def same_refs_def prioq_ok_def tables_ok_def)
qed

section \<open>Operations that keep references and queue\<close>

lemma inst_same_upd [simp]:
  "inst_same i (i\<lparr>bi_buffers := bs\<rparr>)" "inst_same i (i\<lparr>bi_fps := x\<rparr>)" "inst_same i (i\<lparr>bi_height := x, bi_width := y\<rparr>)"
  "inst_same i (i\<lparr>bi_is_secure := x\<rparr>)" "inst_same i (i\<lparr>bi_job_comp := n\<rparr>)" "inst_same i (i\<lparr>bi_status := r, bi_job_comp := n\<rparr>)"
  "inst_same i (i\<lparr>bi_bpp := x, bi_is_decoder_usage := b\<rparr>)" "inst_same i (i\<lparr>bi_idle := b\<rparr>)" "inst_same i (i\<lparr>bi_afbc := b\<rparr>)"
  "0 \<le> p \<Longrightarrow> p < 2 \<Longrightarrow> inst_same i (i\<lparr>bi_priority := p\<rparr>)" "length rs = length (bi_regs i) \<Longrightarrow> inst_same i (i\<lparr>bi_regs := rs\<rparr>)"
  by (auto simp: inst_same_def inst_ok_def)

lemma same_view_trans: "same_view c d \<Longrightarrow> same_view d e \<Longrightarrow> same_view c e"
  by (simp add: same_view_def)

lemma upd_then_view:
  assumes "upd_inst a f c = Some d" "same_view d e" "\<And>i. inst_same i (f i)"
  shows "same_refs c e"
  using same_refs_trans [OF upd_inst_same same_view_refs] assms by blast

lemma view_then_upd:
  assumes "same_view c d" "upd_inst a f d = Some e" "\<And>i. inst_same i (f i)"
  shows "same_refs c e"
  using same_refs_trans [OF same_view_refs upd_inst_same] assms by blast

lemma scale_views:
  "bigo_scale_bw zuma c = Some c' \<Longrightarrow> same_view c c'" "update_mif_floor c = Some c' \<Longrightarrow> same_view c c'"
  "bigo_scale_freq zuma c = Some c' \<Longrightarrow> same_view c c'"
  by (auto simp: bigo_scale_bw_def update_mif_floor_def bigo_scale_freq_def bigo_set_freq_def Let_def same_view_def bind_eq_Some_conv)

lemma update_qos_view:
  assumes "bigo_update_qos zuma c = Some c'"
  shows "same_view c c'"
proof (cases "bo_qos_dirty c")
  case True
  then obtain d e f where c: "bigo_scale_bw zuma c = Some d" "(if zuma then Some d else update_mif_floor d) = Some e"
    "bigo_scale_freq zuma e = Some f" "c' = f\<lparr>bo_qos_dirty := False\<rparr>"
    using assms by (auto simp: bigo_update_qos_def bind_eq_Some_conv)
  have "same_view d e" using c(2) scale_views(2) by (auto simp: same_view_def split: if_splits)
  then have "same_view c f" using same_view_trans [OF scale_views(1) [OF c(1)] same_view_trans [OF _ scale_views(3) [OF c(3)]]] by simp
  then show ?thesis using c(4) by (simp add: same_view_def)
qed (use assms in \<open>simp add: bigo_update_qos_def same_view_def\<close>)

lemma clocks_off_view: "bigo_clocks_off zuma c = Some c' \<Longrightarrow> same_view c c'"
  by (auto simp: bigo_clocks_off_def bigo_set_freq_def Let_def same_view_def bind_eq_Some_conv)

lemma mark_dirty_view [simp]: "same_view c (bigo_mark_qos_dirty c)"
  by (simp add: bigo_mark_qos_dirty_def same_view_def)

lemma unmap_one_view [simp]: "same_view c (bigo_unmap_one b c)"
  by (simp add: dma_ref_def dma_attachment_def bigo_unmap_one_def same_view_def)

lemma unmap_list_view: "same_view c (fold bigo_unmap_one bs c)"
  by (induction bs arbitrary: c) (auto simp: same_view_def bigo_unmap_one_def dma_ref_def dma_attachment_def)

lemma add_to_mapped_list_same:
  assumes "add_to_mapped_list env a m c = Some (rc, m', c')"
  shows "same_refs c c'"
proof -
  have v: "same_view c (dma_attachment d j (dma_ref d k c))" "same_view c (dma_ref d i (dma_attachment d j (dma_attachment d k (dma_ref d l c))))"
    "same_view c (dma_ref d j (dma_ref d k c))" for d i j k l
    by (simp_all add: same_view_def dma_attachment_def dma_ref_def)
  consider "c' = c" | d where "c' = dma_ref d (- 1) (dma_ref d 1 c)"
    | d where "c' = dma_ref d (- 1) (dma_attachment d (- 1) (dma_attachment d 1 (dma_ref d 1 c)))"
    | d b where "upd_inst a (\<lambda>i. i\<lparr>bi_buffers := bi_buffers i @ [b]\<rparr>) (dma_attachment d 1 (dma_ref d 1 c)) = Some c'"
    using assms by (auto simp: add_to_mapped_list_def Let_def bind_eq_Some_conv split: if_splits sum.splits)
  then show ?thesis
  proof cases
    case 4
    then show ?thesis by (rule view_then_upd [OF v(1)]) simp
  qed (simp_all add: same_view_refs v)
qed

lemma map_same:
  assumes "bigo_map env a m c = Some (rc, m', c')"
  shows "same_refs c c'"
proof -
  obtain found where "check_mapped_list a m c = Some found" using assms by (cases "check_mapped_list a m c") (auto simp: bigo_map_def)
  then show ?thesis using assms add_to_mapped_list_same by (cases found) (auto simp: bigo_map_def)
qed

lemma unmap_same:
  assumes "bigo_unmap a m c = Some (rc, c')"
  shows "same_refs c c'"
proof -
  consider "c' = c" | d b bs where "upd_inst a (\<lambda>i. i\<lparr>bi_buffers := bs\<rparr>) c = Some d" "c' = bigo_unmap_one b d"
    using assms by (auto simp: bigo_unmap_def bind_eq_Some_conv split: option.splits)
  then show ?thesis by cases (simp, simp add: upd_then_view [OF _ unmap_one_view])
qed

lemma config_dirty_same:
  assumes "map_option bigo_mark_qos_dirty (upd_inst a f c) = Some c'" "\<And>i. inst_same i (f i)"
  shows "same_refs c c'"
proof -
  obtain d where d: "upd_inst a f c = Some d" "c' = bigo_mark_qos_dirty d" using assms(1) by auto
  show ?thesis unfolding d(2) by (rule upd_then_view [OF d(1) mark_dirty_view assms(2)])
qed

lemma config_same:
  "bigo_config_frmrate a r c = Some c' \<Longrightarrow> same_refs c c'" "bigo_config_frmsize a z c = Some c' \<Longrightarrow> same_refs c c'"
  "bigo_config_secure a x c = Some c' \<Longrightarrow> same_refs c c'" "bigo_config_priority a p c = Some c' \<Longrightarrow> same_refs c c'"
  "bigo_config_afbc a c = Some c' \<Longrightarrow> same_refs c c'"
      apply (unfold bigo_config_frmrate_def, erule config_dirty_same, simp)
     apply (unfold bigo_config_frmsize_def, erule config_dirty_same, simp)
    apply (unfold bigo_config_secure_def, erule upd_inst_same, simp)
   apply (auto simp: bigo_config_priority_def BO_MAX_PRIO_def split: if_splits elim!: upd_inst_same) []
  apply (unfold bigo_config_afbc_def, erule upd_inst_same, simp)
  done

lemma command_same:
  assumes "bigo_command zuma env w a cmd c = Some (rc, out, c')" "\<not> is_process cmd"
  shows "same_refs c c'"
proof (cases cmd)
  case (BIGO_IOCX_PROCESS ur)
  then show ?thesis using assms(2) by simp
next
  case (BIGO_IOCX_MAP m b)
  then show ?thesis using assms(1) by (cases m) (auto simp: bigo_command_def bind_eq_Some_conv split: if_splits dest: map_same)
next
  case (BIGO_IOCX_UNMAP m)
  then show ?thesis using assms(1) by (cases m) (auto simp: bigo_command_def bind_eq_Some_conv dest: unmap_same)
next
  case (BIGO_IOCX_CONFIG_FRMSIZE z)
  then show ?thesis using assms(1) by (cases z) (auto simp: bigo_command_def bind_eq_Some_conv dest: config_same)
next
  case (BIGO_IOCX_MISC m b)
  then show ?thesis using assms(1) by (cases m) (auto simp: bigo_command_def bind_eq_Some_conv split: if_splits dest: config_same)
next
  case (BIGO_IOCX_DMA_SYNC x)
  then show ?thesis using assms(1) by (cases x) (auto simp: bigo_command_def)
qed (use assms(1) in \<open>auto simp: bigo_command_def bind_eq_Some_conv split: if_splits dest: config_same\<close>)

lemma take_completion_same: "take_completion a c = Some (b, c') \<Longrightarrow> same_refs c c'"
  by (auto simp: take_completion_def bind_eq_Some_conv split: if_splits elim!: upd_inst_same)

lemma set_idle_same: "set_idle as c = Some c' \<Longrightarrow> same_refs c c'"
proof (induction as arbitrary: c)
  case (Cons a as)
  then obtain d where d: "upd_inst a (\<lambda>i. i\<lparr>bi_idle := True\<rparr>) c = Some d" "set_idle as d = Some c'" by (auto simp: bind_eq_Some_conv)
  have "same_refs c d" using d(1) by (rule upd_inst_same) simp
  then show ?case using Cons.IH [OF d(2)] same_refs_trans by blast
qed simp

lemma worker_idle_same:
  assumes "worker_idle zuma c = Some c'"
  shows "same_refs c c'"
proof -
  obtain d e where "set_idle (bo_instances c) c = Some d" "bigo_clocks_off zuma d = Some e" "c' = bigo_mark_qos_dirty e"
    using assms by (auto simp: worker_idle_def mark_instances_idle_def bind_eq_Some_conv)
  then show ?thesis using set_idle_same clocks_off_view same_view_trans [OF _ mark_dirty_view] same_view_refs same_refs_trans by metis
qed

lemma worker_prepare_same:
  assumes "worker_prepare zuma a c = Some c'"
  shows "same_refs c c'"
proof -
  obtain i :: bigo_inst and d where d: "(if bi_idle i then map_option bigo_mark_qos_dirty (upd_inst a (\<lambda>i. i\<lparr>bi_idle := False\<rparr>) c) else Some c) = Some d"
    "bigo_update_qos zuma d = Some c'" using assms unfolding worker_prepare_def bind_eq_Some_conv by blast
  have "same_refs c d" using d(1) by (auto split: if_splits elim!: upd_then_view)
  then show ?thesis using same_view_refs [OF update_qos_view [OF d(2)]] same_refs_trans by blast
qed

section \<open>The chip\<close>

text \<open>Operations on the registers succeed when the registers are long enough, and keep their number.\<close>

definition same_chip :: "'h bigo_core \<Rightarrow> 'h bigo_core \<Rightarrow> bool" where
  "same_chip c c' \<longleftrightarrow> same_view c c' \<and> length (bo_regs c') = length (bo_regs c)"

definition hw_ok :: "('h \<Rightarrow> u32 list \<Rightarrow> 'h \<times> u32 list) \<Rightarrow> bool" where
  "hw_ok hw \<longleftrightarrow> (\<forall>h regs. length (snd (hw h regs)) = length regs)"

lemma same_chip_trans: "same_chip c d \<Longrightarrow> same_chip d e \<Longrightarrow> same_chip c e"
  by (auto simp: same_chip_def same_view_def)

lemma same_chip_simps [simp]:
  "same_chip c c" "same_chip c (c\<lparr>bo_stat_with_irq := x\<rparr>)" "same_chip c (c\<lparr>bo_frame_done := n\<rparr>)"
  by (simp_all add: same_chip_def same_view_def)

lemma hw_run_chip: "hw_ok hw \<Longrightarrow> same_chip c (hw_run hw c)"
  by (auto simp: hw_run_def same_chip_def same_view_def hw_ok_def case_prod_beta)

lemma stat_readl: "3 \<le> length (bo_regs c) \<Longrightarrow> bigo_core_readl 8 c = Some (bo_regs c ! 2)"
  by (simp add: bigo_core_readl_def arr_get_def)

lemma stat_writel:
  "3 \<le> length (bo_regs c) \<Longrightarrow> bigo_core_writel 8 v c = Some (c\<lparr>bo_regs := (bo_regs c)[2 := v]\<rparr>)"
  by (simp add: bigo_core_writel_def arr_get_def)

lemma regs_upd_chip [simp]: "same_chip c (c\<lparr>bo_regs := (bo_regs c)[k := v]\<rparr>)"
  by (simp add: same_chip_def same_view_def)

lemma enable_ok: "3 \<le> length (bo_regs c) \<Longrightarrow> \<exists>c'. bigo_core_enable c = Some c' \<and> same_chip c c'"
  by (simp add: bigo_core_enable_def stat_readl stat_writel)

lemma disable_ok: "3 \<le> length (bo_regs c) \<Longrightarrow> \<exists>c'. bigo_core_disable zuma c = Some c' \<and> same_chip c c'"
  by (simp add: bigo_core_disable_def stat_readl stat_writel Let_def)

lemma isr_ok: "3 \<le> length (bo_regs c) \<Longrightarrow> \<exists>b c'. bigo_isr zuma c = Some (b, c') \<and> same_chip c c'"
  by (auto simp: bigo_isr_def stat_readl stat_writel Let_def same_chip_def same_view_def)

lemma chip_length: "same_chip c c' \<Longrightarrow> n \<le> length (bo_regs c) \<Longrightarrow> n \<le> length (bo_regs c')"
  by (simp add: same_chip_def)

lemma wait_frame_ok:
  assumes "hw_ok hw" "3 \<le> length (bo_regs c)"
  shows "\<exists>b c'. wait_frame_done zuma hw n c = Some (b, c') \<and> same_chip c c'"
  using assms(2)
proof (induction n arbitrary: c)
  case 0
  then show ?case by (auto simp: wait_frame_done.simps)
next
  case (Suc n)
  have h: "same_chip c (hw_run hw c)" by (rule hw_run_chip [OF assms(1)])
  obtain b d where d: "bigo_isr zuma (hw_run hw c) = Some (b, d)" "same_chip (hw_run hw c) d"
    using isr_ok chip_length [OF h Suc.prems] by blast
  have cd: "same_chip c d" using h d(2) by (rule same_chip_trans)
  then obtain b' e where "wait_frame_done zuma hw n d = Some (b', e)" "same_chip d e" using Suc.IH chip_length [OF cd Suc.prems] by blast
  then show ?case using d(1) same_chip_trans [OF cd] by (subst wait_frame_done.simps) auto
qed

lemma wait_disabled_ok:
  assumes "hw_ok hw" "3 \<le> length (bo_regs c)"
  shows "\<exists>r c'. bigo_wait_disabled hw n c = Some (r, c') \<and> same_chip c c'"
  using assms(2)
proof (induction n arbitrary: c)
  case (Suc n)
  have h: "same_chip c (hw_run hw c)" by (rule hw_run_chip [OF assms(1)])
  then show ?case using Suc.IH [OF chip_length [OF h Suc.prems]] Suc.prems same_chip_trans [OF h]
    by (fastforce simp: bigo_core_is_enabled_def stat_readl)
qed simp

lemma upd_inst_same_at:
  assumes "bo_insts c a = Some i" "inst_same i (f i)"
  shows "\<exists>c'. upd_inst a f c = Some c' \<and> same_refs c c' \<and> bo_insts c' a = Some (f i)"
  using assms by (simp add: upd_inst_def same_refs_def)

lemma run_job_ok:
  assumes "hw_ok hw" "bo_insts c a = Some i" "3 \<le> length (bi_regs i)"
  shows "\<exists>rc c'. bigo_run_job zuma hw a c = Some (rc, c') \<and> same_refs c c'"
proof -
  let ?c1 = "bigo_push_regs (bi_regs i) (bigo_bypass_ssmt_pid (bi_is_decoder_usage i) c)"
  have v1: "same_view c ?c1" by (simp add: bigo_push_regs_def bigo_bypass_ssmt_pid_def same_view_def split: option.split)
  have r1: "bo_regs ?c1 = bi_regs i" by (simp add: bigo_push_regs_def)
  obtain c2 where c2: "bigo_core_enable ?c1 = Some c2" "same_chip ?c1 c2" using enable_ok [of ?c1] r1 assms(3) by auto
  have l2: "3 \<le> length (bo_regs c2)" using c2(2) r1 assms(3) by (simp add: same_chip_def)
  obtain b c3 where c3: "wait_frame_done zuma hw (unat (bo_timeout c2)) c2 = Some (b, c3)" "same_chip c2 c3"
    using wait_frame_ok [OF assms(1) l2] by blast
  have l3: "3 \<le> length (bo_regs c3)" by (rule chip_length [OF c3(2) l2])
  obtain rc c4 where c4: "(if b then Some (0, c3) else do { stat \<leftarrow> bigo_core_readl 8 c3;
      core \<leftarrow> bigo_core_disable zuma (c3\<lparr>bo_stat_with_irq := stat\<rparr>); Some (- ETIMEDOUT, core) }) = Some (rc, c4)" "same_chip c3 c4"
  proof (cases b)
    case False
    have "3 \<le> length (bo_regs (c3\<lparr>bo_stat_with_irq := bo_regs c3 ! 2\<rparr>))" using l3 by simp
    then obtain d where "bigo_core_disable zuma (c3\<lparr>bo_stat_with_irq := bo_regs c3 ! 2\<rparr>) = Some d" "same_chip (c3\<lparr>bo_stat_with_irq := bo_regs c3 ! 2\<rparr>) d"
      using disable_ok by blast
    then show ?thesis using that [of "- ETIMEDOUT" d] False l3 same_chip_trans [OF same_chip_simps(2)] by (auto simp: stat_readl)
  qed (use that in simp)
  obtain r c5 where c5: "bigo_wait_disabled hw BIGO_DISABLE_TIMEOUT_MS c4 = Some (r, c5)" "same_chip c4 c5"
    using wait_disabled_ok [OF assms(1) chip_length [OF c4(2) l3]] by blast
  have v: "same_chip ?c1 c5" using c2(2) c3(2) c4(2) c5(2) same_chip_trans by metis
  then have i5: "bo_insts c5 a = Some i" "length (bo_regs c5) = length (bi_regs i)" "same_view c c5"
    using v1 r1 assms(2) same_view_trans by (auto simp: same_chip_def same_view_def)
  obtain c6 where c6: "bigo_pull_regs a c5 = Some c6" "same_refs c5 c6" "bo_insts c6 a = Some (i\<lparr>bi_regs := bo_regs c5\<rparr>)"
    using upd_inst_same_at [OF i5(1), of "\<lambda>i. i\<lparr>bi_regs := bo_regs c5\<rparr>"] i5(2) by (auto simp: bigo_pull_regs_def)
  obtain c7 where c7: "upd_inst a (\<lambda>i. i\<lparr>bi_regs := (bi_regs i)[2 := bigo_check_status c4]\<rparr>) c6 = Some c7" "same_refs c6 c7"
    using upd_inst_same_at [OF c6(3), of "\<lambda>i. i\<lparr>bi_regs := (bi_regs i)[2 := bigo_check_status c4]\<rparr>"]
    by (auto simp: inst_same_def inst_ok_def)
  have "\<exists>rc'. bigo_run_job zuma hw a c = Some (rc', c7)"
    using assms(2,3) c2(1) c3(1) c4(1) c5(1) c6(1,3) c7(1) i5(2) by (simp add: bigo_run_job_def arr_get_def Let_def)
  then show ?thesis using same_refs_trans [OF same_view_refs [OF i5(3)] same_refs_trans [OF c6(2) c7(2)]] by blast
qed

lemma worker_run_ok:
  assumes "hw_ok hw" "bo_insts c a = Some i" "3 \<le> length (bi_regs i)"
  shows "\<exists>c'. worker_run zuma hw smc a c = Some c' \<and> same_refs c c'"
proof -
  obtain rc d where d: "(if bi_is_secure i \<noteq> 0 \<and> smc \<noteq> 0 then Some (smc, c) else bigo_run_job zuma hw a c) = Some (rc, d)" "same_refs c d"
    using run_job_ok [OF assms, of zuma] by (cases "bi_is_secure i \<noteq> 0 \<and> smc \<noteq> 0") auto
  have "rel_option inst_same (Some i) (bo_insts d a)" using d(2) assms(2) by (metis same_refs_def)
  then obtain j where "bo_insts d a = Some j" by (cases "bo_insts d a") auto
  then obtain e where "upd_inst a (\<lambda>i. i\<lparr>bi_status := rc, bi_job_comp := bi_job_comp i + 1\<rparr>) d = Some e" "same_refs d e"
    using upd_inst_same_at [of d a j "\<lambda>i. i\<lparr>bi_status := rc, bi_job_comp := bi_job_comp i + 1\<rparr>"] by auto
  then show ?thesis using d assms(2) same_refs_trans [OF d(2)] by (auto simp: worker_run_def)
qed

section \<open>Operations on references and the queue\<close>

text \<open>It is enough to look at the one instance whose references change.\<close>

lemma inv_change:
  assumes inv: "bigo_inv T F c"
    and other: "\<And>b. b \<noteq> a \<Longrightarrow> refs T' F' c' b = refs T F c b \<and> closers T' b = closers T b \<and> bo_insts c' b = bo_insts c b"
    and here: "inst_inv T' F' c' a"
    and rest: "prioq_ok c'" "distinct (bo_instances c')" "set (bo_instances c') = F'" "bo_regs_size c' = bo_regs_size c"
      "bo_opps c' = bo_opps c" "bo_bws c' = bo_bws c" "bo_max_load c' = bo_max_load c"
  shows "bigo_inv T' F' c'"
proof -
  have "inst_inv T' F' c' b" for b
  proof (cases "b = a")
    case False
    have "inst_inv T F c b" using inv by (simp add: bigo_inv_def)
    then show ?thesis unfolding inst_inv_def using other [OF False] rest(4) by (cases "bo_insts c b") simp_all
  qed (use here in simp)
  then show ?thesis using inv rest by (simp add: bigo_inv_def tables_ok_def)
qed

lemma invD:
  assumes "bigo_inv T F c"
  shows "prioq_ok c" "distinct (bo_instances c)" "set (bo_instances c) = F" "tables_ok c" "16 \<le> bo_regs_size c" "inst_inv T F c a"
  using assms by (simp_all add: bigo_inv_def)

lemma inv_live:
  assumes "bigo_inv T F c" "0 < refs T F c a"
  obtains i where "bo_insts c a = Some i" "bi_refcount i = refs T F c a" "inst_ok (bo_regs_size c div 4) i" "closers T a = 0"
  using invD(6) [OF assms(1), of a] assms(2) by (cases "bo_insts c a") (auto simp: inst_inv_def)

lemma refs_pos:
  "held t = Some a \<Longrightarrow> 0 < refs (add_mset t T) F c a" "a \<in> F \<Longrightarrow> 0 < refs T F c a"
  by (simp_all add: refs_def)

definition set_refcount :: "nat \<Rightarrow> bigo_inst \<Rightarrow> nat \<Rightarrow> 'h bigo_core \<Rightarrow> 'h bigo_core" where
  "set_refcount a i n c = c\<lparr>bo_insts := (bo_insts c)(a := Some (i\<lparr>bi_refcount := n\<rparr>))\<rparr>"

lemma set_refcount_fields [simp]:
  "bo_queue (set_refcount a i n c) = bo_queue c" "bo_bitmap (set_refcount a i n c) = bo_bitmap c"
  "bo_instances (set_refcount a i n c) = bo_instances c" "bo_regs_size (set_refcount a i n c) = bo_regs_size c"
  "bo_opps (set_refcount a i n c) = bo_opps c" "bo_bws (set_refcount a i n c) = bo_bws c" "bo_max_load (set_refcount a i n c) = bo_max_load c"
  "bo_insts (set_refcount a i n c) b = (if b = a then Some (i\<lparr>bi_refcount := n\<rparr>) else bo_insts c b)"
  "refs T F (set_refcount a i n c) = refs T F c" "prioq_ok (set_refcount a i n c) = prioq_ok c"
  by (simp_all add: set_refcount_def refs_def prioq_ok_def fun_eq_iff)

lemma inst_ok_refcount [simp]: "inst_ok n (i\<lparr>bi_refcount := k\<rparr>) = inst_ok n i"
  by (simp add: inst_ok_def)

lemma kref_get_eq: "bo_insts c a = Some i \<Longrightarrow> kref_get a c = Some (set_refcount a i (bi_refcount i + 1) c)"
  by (simp add: kref_get_def upd_inst_def set_refcount_def)

lemma kref_dec_eq:
  "bo_insts c a = Some i \<Longrightarrow> 0 < bi_refcount i \<Longrightarrow> kref_dec a c = Some (bi_refcount i = 1, set_refcount a i (bi_refcount i - 1) c)"
  by (simp add: kref_dec_def upd_inst_def set_refcount_def)

lemma inv_get:
  assumes inv: "bigo_inv T F c" and a: "0 < refs T F c a" and get: "kref_get a c = Some c'" and t: "held t = Some a" "closing t = None"
  shows "bigo_inv (add_mset t T) F c'"
proof -
  obtain i where i: "bo_insts c a = Some i" "bi_refcount i = refs T F c a" "inst_ok (bo_regs_size c div 4) i" "closers T a = 0"
    using inv_live [OF inv a] .
  have c': "c' = set_refcount a i (bi_refcount i + 1) c" using get kref_get_eq [OF i(1)] by simp
  show ?thesis unfolding c'
    by (rule inv_change [OF inv, of a])
      (use t i invD [OF inv] in \<open>simp_all add: inst_inv_def closers_def refs_def\<close>)
qed

lemma inv_dec:
  assumes inv: "bigo_inv (add_mset t T) F c" and t: "held t = Some a" "closing t = None"
    and dec: "kref_dec a c = Some (last_ref, c')" and t': "held t' = None" "closing t' = (if last_ref then Some a else None)"
  shows "bigo_inv (add_mset t' T) F c'"
proof -
  have pos: "0 < refs (add_mset t T) F c a" by (rule refs_pos(1) [of t]) (rule t)
  obtain i where i: "bo_insts c a = Some i" "bi_refcount i = refs (add_mset t T) F c a" "inst_ok (bo_regs_size c div 4) i" "closers (add_mset t T) a = 0"
    using inv_live [OF inv pos] .
  have c': "c' = set_refcount a i (bi_refcount i - 1) c" "last_ref = (bi_refcount i = 1)" using dec kref_dec_eq [OF i(1)] i(2) pos by auto
  have r: "refs (add_mset t T) F c b = refs (add_mset t' T) F c b + (if b = a then 1 else 0)" for b using t t' by (simp add: refs_def)
  have k: "closers (add_mset t' T) b = closers (add_mset t T) b + (if b = a \<and> last_ref then 1 else 0)" for b
    using t t' by (simp add: closers_def)
  show ?thesis unfolding c'(1)
    by (rule inv_change [OF inv, of a]) (use i r c'(2) k invD [OF inv] in \<open>simp_all add: inst_inv_def\<close>)
qed

lemma count_concat_two: "count_list (concat [q0, q1]) b = count_list q0 b + count_list q1 b"
  by simp

lemma enqueued_count:
  assumes "prioq_ok c" "p < 2"
  shows "count_list (concat (bo_queue (enqueued p a c))) b = count_list (concat (bo_queue c)) b + (if a = b then 1 else 0)"
proof -
  obtain q0 q1 where "bo_queue c = [q0, q1]" using assms(1) queue_two by (auto simp: prioq_ok_def)
  then show ?thesis using assms(2) by (auto simp: enqueued_def less_2_cases_iff)
qed

lemma enqueued_fields [simp]:
  "bo_insts (enqueued p a c) = bo_insts c" "bo_instances (enqueued p a c) = bo_instances c" "bo_regs_size (enqueued p a c) = bo_regs_size c"
  "bo_opps (enqueued p a c) = bo_opps c" "bo_bws (enqueued p a c) = bo_bws c" "bo_max_load (enqueued p a c) = bo_max_load c"
  by (simp_all add: enqueued_def)

lemma bigo_inv_enqueue:
  assumes inv: "bigo_inv (add_mset t T) F c" and t: "held t = Some a" "closing t = None" "held t' = held t" "closing t' = None"
    and i: "bo_insts c a = Some i" and p: "p < 2" "a \<notin> set (concat (bo_queue c))"
  shows "bigo_inv (add_mset t' T) F (enqueued p a (set_refcount a i (bi_refcount i + 1) c))"
proof -
  let ?c = "set_refcount a i (bi_refcount i + 1) c"
  have ok: "prioq_ok ?c" using invD(1) [OF inv] by simp
  have cnt: "refs (add_mset t' T) F (enqueued p a ?c) b = refs (add_mset t T) F c b + (if a = b then 1 else 0)" for b
    using enqueued_count [OF ok p(1), of a b] t(3) by (simp add: refs_def)
  have pos: "0 < refs (add_mset t T) F c a" by (rule refs_pos(1) [of t]) (rule t)
  have i': "bi_refcount i = refs (add_mset t T) F c a" "inst_ok (bo_regs_size c div 4) i" "closers (add_mset t T) a = 0"
    using invD(6) [OF inv, of a] i pos by (auto simp: inst_inv_def)
  have "prioq_ok (enqueued p a ?c)" using enqueued_ok(1) [of p a ?c] ok p by (simp add: BO_MAX_PRIO_def)
  then show ?thesis
    by (intro inv_change [OF inv, of a]) (use cnt i' t invD [OF inv] in \<open>auto simp: inst_inv_def closers_def\<close>)
qed

lemma dequeue_effect:
  assumes "prioq_ok c"
  shows "\<exists>job q bm. dequeue_prioq c = Some (job, c\<lparr>bo_queue := q, bo_bitmap := bm\<rparr>) \<and> prioq_ok (c\<lparr>bo_queue := q, bo_bitmap := bm\<rparr>) \<and>
    (job = None \<longrightarrow> q = bo_queue c \<and> bm = bo_bitmap c) \<and>
    (\<forall>b. count_list (concat (bo_queue c)) b = count_list (concat q) b + (if job = Some b then 1 else 0))"
proof -
  obtain q0 q1 where q: "bo_queue c = [q0, q1]" using assms queue_two by (auto simp: prioq_ok_def)
  have bits: "\<forall>i. bit (bo_bitmap c) i \<longrightarrow> i < BO_MAX_PRIO" using assms by (simp add: prioq_ok_def)
  define k where "k = (if bit (bo_bitmap c) 0 then 0 else 1 :: nat)"
  show ?thesis
  proof (cases "(bit (bo_bitmap c) 0 \<or> bit (bo_bitmap c) 1) \<and> bo_queue c ! k \<noteq> []")
    case False
    then have "dequeue_prioq c = Some (None, c)" using q
      by (cases "bit (bo_bitmap c) 0"; cases "bit (bo_bitmap c) 1") (auto simp: dequeue_prioq_def ffs_prio [OF bits] arr_get_def k_def Let_def)
    then show ?thesis using assms by (intro exI [of _ None] exI [of _ "bo_queue c"] exI [of _ "bo_bitmap c"]) simp
  next
    case True
    then obtain a r where ar: "bo_queue c ! k = a # r" by (cases "bo_queue c ! k") auto
    let ?c = "c\<lparr>bo_queue := (bo_queue c)[k := r], bo_bitmap := (if r = [] then clear_bit_at k (bo_bitmap c) else bo_bitmap c)\<rparr>"
    have d: "dequeue_prioq c = Some (Some a, ?c)"
      using True ar q by (auto simp: dequeue_prioq_def ffs_prio [OF bits] arr_get_def k_def Let_def)
    have k: "k = 0 \<or> k = 1" by (simp add: k_def)
    have "bit (bo_bitmap c) k" using True by (auto simp: k_def)
    then have "bit (bo_bitmap ?c) j" if "j < BO_MAX_PRIO" "bo_queue ?c ! j \<noteq> []" for j
      using that assms by (cases "j = k") (auto simp: prioq_ok_def)
    moreover have "distinct (concat (bo_queue ?c))" using assms q k ar by (auto simp: prioq_ok_def)
    moreover have "length (bo_queue ?c) = BO_MAX_PRIO" using assms by (simp add: prioq_ok_def)
    moreover have "\<forall>i. bit (bo_bitmap ?c) i \<longrightarrow> i < BO_MAX_PRIO" using bits by simp
    ultimately have "prioq_ok ?c" unfolding prioq_ok_def by blast
    moreover have "count_list (concat (bo_queue c)) b = count_list (concat (bo_queue ?c)) b + (if Some a = Some b then 1 else 0)" for b
      using q k ar by auto
    ultimately show ?thesis using d by (intro exI [of _ "Some a"] exI [of _ "bo_queue ?c"] exI [of _ "bo_bitmap ?c"]) simp
  qed
qed

lemma inv_dequeue:
  assumes inv: "bigo_inv (add_mset t T) F c" and t: "held t = None" "closing t = None" "held t' = Some a" "closing t' = None"
    and d: "dequeue_prioq c = Some (Some a, c')"
  shows "bigo_inv (add_mset t' T) F c'"
proof -
  obtain q bm where c': "c' = c\<lparr>bo_queue := q, bo_bitmap := bm\<rparr>" "prioq_ok c'"
    and cnt: "\<And>b. count_list (concat (bo_queue c)) b = count_list (concat q) b + (if a = b then 1 else 0)"
    using dequeue_effect [OF invD(1) [OF inv]] d by auto
  have r: "refs (add_mset t' T) F c' b = refs (add_mset t T) F c b" for b using cnt [of b] t c'(1) by (simp add: refs_def)
  have k: "closers (add_mset t' T) b = closers (add_mset t T) b" for b using t by (simp add: closers_def)
  have "bo_insts c' = bo_insts c" "bo_regs_size c' = bo_regs_size c" using c'(1) by simp_all
  then have "inst_inv (add_mset t' T) F c' a" using invD(6) [OF inv, of a]
    by (cases "bo_insts c a") (simp_all add: inst_inv_def r k)
  then show ?thesis by (rule inv_change [OF inv, of a, rotated]) (use r k c' invD [OF inv] in simp_all)
qed

lemma count_list_remove1: "count_list xs b = count_list (remove1 a xs) b + (if b = a \<and> a \<in> set xs then 1 else 0)"
  by (induction xs) auto

lemma clear_effect:
  assumes "prioq_ok c"
  shows "\<exists>q. clear_job_from_prioq a c = (a \<in> set (concat (bo_queue c)), c\<lparr>bo_queue := q\<rparr>) \<and> prioq_ok (c\<lparr>bo_queue := q\<rparr>) \<and>
    (a \<notin> set (concat (bo_queue c)) \<longrightarrow> q = bo_queue c) \<and>
    (\<forall>b. count_list (concat (bo_queue c)) b = count_list (concat q) b + (if b = a \<and> a \<in> set (concat (bo_queue c)) then 1 else 0))"
proof -
  obtain q0 q1 where q: "bo_queue c = [q0, q1]" using assms queue_two by (auto simp: prioq_ok_def)
  let ?q = "[remove1 a q0, remove1 a q1]"
  have cl: "clear_job_from_prioq a c = (a \<in> set (concat (bo_queue c)), c\<lparr>bo_queue := ?q\<rparr>)"
    using q by (simp add: clear_job_from_prioq_def find_job_from_prioq_def BO_MAX_PRIO_def)
  have dq: "distinct q0" "distinct q1" "set q0 \<inter> set q1 = {}" using assms q by (auto simp: prioq_ok_def)
  have "bit (bo_bitmap c) i" if "i < BO_MAX_PRIO" "?q ! i \<noteq> []" for i
  proof -
    have "bo_queue c ! i \<noteq> []" using that q by (auto simp: BO_MAX_PRIO_def less_2_cases_iff)
    then show ?thesis using assms that(1) by (simp add: prioq_ok_def)
  qed
  moreover have "distinct (concat ?q)" using dq by (auto dest: notin_set_remove1)
  moreover have "length ?q = BO_MAX_PRIO" "\<forall>i. bit (bo_bitmap c) i \<longrightarrow> i < BO_MAX_PRIO" using assms by (simp_all add: prioq_ok_def BO_MAX_PRIO_def)
  ultimately have ok: "prioq_ok (c\<lparr>bo_queue := ?q\<rparr>)" unfolding prioq_ok_def by simp
  have cnt: "count_list (concat (bo_queue c)) b = count_list (concat ?q) b + (if b = a \<and> a \<in> set (concat (bo_queue c)) then 1 else 0)" for b
    using q dq count_list_remove1 [of q0 b a] count_list_remove1 [of q1 b a] by (auto split: if_splits)
  have "a \<notin> set (concat (bo_queue c)) \<Longrightarrow> ?q = bo_queue c" using q by (simp add: remove1_idem)
  then show ?thesis using cl ok cnt by (intro exI [of _ ?q]) simp
qed

lemma inv_insts_live:
  assumes "bigo_inv T F c"
  shows "insts_live c"
proof -
  have "bo_insts c a \<noteq> None" if "a \<in> set (bo_instances c)" for a
    using that inv_live [OF assms, of a] refs_pos(2) [of a F T c] invD(3) [OF assms] by blast
  then show ?thesis by (simp add: insts_live_def)
qed

lemma timeout_ok:
  assumes inv: "bigo_inv (add_mset t T) F c" and t: "held t = Some a" "closing t = None" "held t' = Some a" "closing t' = None"
  shows "\<exists>c'. process_timeout zuma a c = Some c' \<and> bigo_inv (add_mset t' T) F c'"
proof -
  have pos: "0 < refs (add_mset t T) F c a" by (rule refs_pos(1) [of t]) (rule t)
  obtain i where i: "bo_insts c a = Some i" "bi_refcount i = refs (add_mset t T) F c a" "inst_ok (bo_regs_size c div 4) i" "closers (add_mset t T) a = 0"
    using inv_live [OF inv pos] .
  obtain q where q: "clear_job_from_prioq a c = (a \<in> set (concat (bo_queue c)), c\<lparr>bo_queue := q\<rparr>)" "prioq_ok (c\<lparr>bo_queue := q\<rparr>)"
    and same: "a \<notin> set (concat (bo_queue c)) \<Longrightarrow> q = bo_queue c"
    and cnt: "\<And>b. count_list (concat (bo_queue c)) b = count_list (concat q) b + (if b = a \<and> a \<in> set (concat (bo_queue c)) then 1 else 0)"
    using clear_effect [OF invD(1) [OF inv], of a] by auto
  show ?thesis
  proof (cases "a \<in> set (concat (bo_queue c))")
    case False
    then have "process_timeout zuma a c = Some c" using q(1) same by (simp add: process_timeout_def)
    then show ?thesis using inv_same [OF inv same_refs_refl] t by auto
  next
    case True
    let ?c = "set_refcount a i (bi_refcount i - 1) (c\<lparr>bo_queue := q\<rparr>)"
    have r: "refs (add_mset t T) F c b = refs (add_mset t' T) F ?c b + (if b = a then 1 else 0)" for b
      using cnt [of b] True t by (simp add: refs_def)
    have pos': "0 < refs (add_mset t' T) F ?c a" by (rule refs_pos(1) [of t']) (rule t)
    have "bi_refcount i > 1" using i(2) r [of a] pos' by simp
    then have "kref_put zuma a (c\<lparr>bo_queue := q\<rparr>) = Some ?c" using kref_dec_eq [of "c\<lparr>bo_queue := q\<rparr>" a i] i(1) by (simp add: kref_put_def)
    then have put: "process_timeout zuma a c = Some ?c" using q(1) True by (simp add: process_timeout_def)
    have k: "closers (add_mset t' T) b = closers (add_mset t T) b" for b using t by (simp add: closers_def)
    have "inst_inv (add_mset t' T) F ?c a" using i r [of a] k pos' by (simp add: inst_inv_def)
    then have "bigo_inv (add_mset t' T) F ?c"
      by (rule inv_change [OF inv, of a, rotated]) (use r k q(2) invD [OF inv] in simp_all)
    then show ?thesis using put by blast
  qed
qed

lemma copy_regs_ok:
  assumes "bo_insts c a = Some i" "length (bi_regs i) = bo_regs_size c div 4"
  shows "\<exists>rc c'. copy_regs_from_user ur a c = Some (rc, c') \<and> same_refs c c'"
proof -
  let ?f = "\<lambda>i. i\<lparr>bi_regs := array_fill (take (bo_regs_size c div 4) (ur_words ur)) (bi_regs i)\<rparr>"
  have "inst_same i (?f i)" using assms(2) by (simp add: inst_same_def inst_ok_def length_array_fill)
  then obtain d where "upd_inst a ?f c = Some d" "same_refs c d" using upd_inst_same_at [of c a i ?f] assms(1) by blast
  then show ?thesis by (auto simp: copy_regs_from_user_def)
qed

lemma kref_put_back:
  assumes "bo_insts c a = Some i" "0 < bi_refcount i"
  shows "kref_put zuma a (set_refcount a i (bi_refcount i + 1) c) = Some c"
proof -
  have "(bo_insts c)(a \<mapsto> i) = bo_insts c" using assms(1) by (simp add: fun_upd_idem)
  then show ?thesis using assms(2) by (simp add: kref_put_def kref_dec_def upd_inst_def set_refcount_def)
qed

lemma submit_ok:
  assumes inv: "bigo_inv (add_mset t T) F c" and t: "held t = Some a" "closing t = None"
  shows "\<exists>rc c'. process_submit zuma ur a c = Some (rc, c') \<and> (\<forall>t'. held t' = Some a \<and> closing t' = None \<longrightarrow> bigo_inv (add_mset t' T) F c')"
proof -
  have live: "\<exists>i. bo_insts d a = Some i \<and> 0 < bi_refcount i \<and> inst_ok (bo_regs_size d div 4) i" if "bigo_inv (add_mset t T) F d" for d :: "'a bigo_core"
    using inv_live [OF that refs_pos(1) [OF t(1)]] refs_pos(1) [OF t(1), of T F d] by metis
  obtain i where i: "bo_insts c a = Some i" "inst_ok (bo_regs_size c div 4) i" using live [OF inv] by blast
  obtain rc d where d: "copy_regs_from_user ur a c = Some (rc, d)" "same_refs c d" using copy_regs_ok i by (metis inst_ok_def)
  have invd: "bigo_inv (add_mset t T) F d" by (rule inv_same [OF inv d(2)]) simp_all
  show ?thesis
  proof (cases "rc = 0")
    case False
    then have "process_submit zuma ur a c = Some (- EFAULT, d)" using d(1) by (simp add: process_submit_def)
    then show ?thesis using inv_same [OF invd same_refs_refl] t by auto
  next
    case True
    obtain j where j: "bo_insts d a = Some j" "inst_ok (bo_regs_size d div 4) j" using live [OF invd] by blast
    have len: "4 \<le> length (bi_regs j)" using j(2) invD(5) [OF invd] by (simp add: inst_ok_def)
    define bpp :: u32 where "bpp = (if bit (bi_regs j ! 3) (if zuma then 21 else 17) then 2 else 1)"
    let ?d = "if bpp \<noteq> bi_bpp j then bigo_mark_qos_dirty d else d"
    let ?f = "\<lambda>i. i\<lparr>bi_bpp := bpp, bi_is_decoder_usage := (if zuma then bi_regs j ! 2 AND BIGO_STAT_MODE \<noteq> 0 else True)\<rparr>"
    have vd: "same_refs d ?d" by (simp add: same_view_refs)
    have "bo_insts ?d a = Some j" using j(1) by (simp add: bigo_mark_qos_dirty_def)
    then obtain e where e: "upd_inst a ?f ?d = Some e" "same_refs ?d e" using upd_inst_same_at [of ?d a j ?f] by auto
    have inve: "bigo_inv (add_mset t T) F e" by (rule inv_same [OF invd same_refs_trans [OF vd e(2)]]) simp_all
    obtain k where k: "bo_insts e a = Some k" "0 < bi_refcount k" "inst_ok (bo_regs_size e div 4) k" using live [OF inve] by blast
    let ?g = "set_refcount a k (bi_refcount k + 1) e"
    have enq: "enqueue_prioq a ?g = (if a \<in> set (concat (bo_queue e)) then Some (- EINVAL, ?g) else Some (0, enqueued (nat (bi_priority k)) a ?g))"
      using prioq_enqueue_effect [of ?g a "k\<lparr>bi_refcount := bi_refcount k + 1\<rparr>"] invD(1) [OF inve] k(3) by (simp add: inst_ok_def)
    have sub: "process_submit zuma ur a c = (if a \<in> set (concat (bo_queue e)) then Some (- EFAULT, e) else Some (0, enqueued (nat (bi_priority k)) a ?g))"
      using d(1) True j(1) len e(1) kref_get_eq [OF k(1)] enq kref_put_back [OF k(1,2), of zuma]
      by (simp add: process_submit_def arr_get_def bpp_def Let_def)
    show ?thesis
    proof (cases "a \<in> set (concat (bo_queue e))")
      case True
      then show ?thesis using sub inv_same [OF inve same_refs_refl] t by auto
    next
      case False
      have "nat (bi_priority k) < 2" using k(3) by (auto simp: inst_ok_def)
      then show ?thesis using sub False bigo_inv_enqueue [OF inve t, of _ k] k(1) t by auto
    qed
  qed
qed

lemma unmap_all_ok:
  assumes "bo_insts c a = Some i"
  shows "\<exists>c'. bigo_unmap_all a c = Some c' \<and> same_refs c c'"
proof -
  let ?c = "fold bigo_unmap_one (bi_buffers i) c"
  have v: "same_view c ?c" by (rule unmap_list_view)
  then have "bo_insts ?c a = Some i" using assms by (simp add: same_view_def)
  then obtain d where "upd_inst a (\<lambda>i. i\<lparr>bi_buffers := []\<rparr>) ?c = Some d" "same_refs ?c d"
    using upd_inst_same_at [of ?c a i "\<lambda>i. i\<lparr>bi_buffers := []\<rparr>"] by auto
  then show ?thesis using assms same_refs_trans [OF same_view_refs [OF v]] by (auto simp: bigo_unmap_all_def)
qed

lemma update_qos_some: "tables_ok c \<Longrightarrow> insts_live c \<Longrightarrow> \<exists>c'. bigo_update_qos zuma c = Some c'"
  using update_qos_chosen [of c zuma] by (cases "bo_qos_dirty c") (auto simp: bigo_update_qos_def)

lemma close_ok:
  assumes inv: "bigo_inv (add_mset t T) F c" and t: "held t = None" "closing t = Some a" "held t' = None" "closing t' = None"
  shows "\<exists>c'. bigo_close zuma a c = Some c' \<and> bigo_inv (add_mset t' T) F c'"
proof -
  have "closers (add_mset t T) a > 0" using t by (simp add: closers_def)
  then obtain i where i: "bo_insts c a = Some i" "refs (add_mset t T) F c a = 0" "closers (add_mset t T) a = 1"
    using invD(6) [OF inv, of a] by (cases "bo_insts c a") (auto simp: inst_inv_def split: if_splits)
  have "a \<notin> set (concat (bo_queue c))" using i(2) by (simp add: refs_def count_list_0_iff)
  then have cl: "clear_job_from_prioq a c = (False, c)" using clear_effect [OF invD(1) [OF inv], of a] by auto
  obtain d where d: "bigo_unmap_all a c = Some d" "same_refs c d" using unmap_all_ok i(1) by blast
  have invd: "bigo_inv (add_mset t T) F (bigo_mark_qos_dirty d)"
    by (rule inv_same [OF inv same_refs_trans [OF d(2) same_view_refs]]) simp_all
  obtain e where e: "bigo_update_qos zuma (bigo_mark_qos_dirty d) = Some e" using update_qos_some invD(4) [OF invd] inv_insts_live [OF invd] by blast
  have inve: "bigo_inv (add_mset t T) F e" by (rule inv_same [OF invd same_view_refs [OF update_qos_view [OF e]]]) simp_all
  have "bo_queue e = bo_queue c" using d(2) update_qos_view [OF e] by (simp add: same_refs_def same_view_def bigo_mark_qos_dirty_def)
  then have z: "refs (add_mset t T) F e a = 0" using i(2) by (simp add: refs_def)
  let ?c = "e\<lparr>bo_insts := (bo_insts e)(a := None)\<rparr>"
  have r: "refs (add_mset t' T) F ?c b = refs (add_mset t T) F e b" for b using t by (simp add: refs_def)
  have k: "closers (add_mset t T) b = closers (add_mset t' T) b + (if b = a then 1 else 0)" for b using t by (simp add: closers_def)
  have "inst_inv (add_mset t' T) F ?c a" using r [of a] z k [of a] i(3) by (simp add: inst_inv_def)
  then have "bigo_inv (add_mset t' T) F ?c"
    by (rule inv_change [OF inve, of a, rotated]) (use r k invD [OF inve] in \<open>simp_all add: prioq_ok_def\<close>)
  then show ?thesis using i(1) cl d(1) e by (simp add: bigo_close_def)
qed

end
