(* ===== verification/Bigo_System.thy ===== *)
theory Bigo_System
  imports Bigo_Race
begin

text \<open>
  The properties of the video codec under every interleaving of its threads: reference counts are exact, no operation
  faults, and a close that meets the idle worker never returns.
\<close>

unbundle bit_operations_syntax

section \<open>Operations of a thread\<close>

text \<open>The next operation of a thread does not fault, whatever its environment answers.\<close>

fun thread_ok :: "bool \<Rightarrow> ('h \<Rightarrow> u32 list \<Rightarrow> 'h \<times> u32 list) \<Rightarrow> 'h bigo_core \<Rightarrow> bigo_thread \<Rightarrow> bool" where
  "thread_ok zuma hw c (Ioctl a cmd) = (case cmd of
     BIGO_IOCX_PROCESS ur \<Rightarrow> process_submit zuma ur a c \<noteq> None
   | _ \<Rightarrow> (\<forall>env. bigo_command zuma env Some a cmd c \<noteq> None))"
| "thread_ok zuma hw c (Waiting a) = (take_completion a c \<noteq> None)"
| "thread_ok zuma hw c (Timed_Out a) = (process_timeout zuma a c \<noteq> None)"
| "thread_ok zuma hw c (Ioctl_End a) = (kref_dec a c \<noteq> None)"
| "thread_ok zuma hw c (Release_End a) = (kref_dec a c \<noteq> None)"
| "thread_ok zuma hw c (Closing a) = (bigo_close zuma a c \<noteq> None)"
| "thread_ok zuma hw c Worker_Wait = (dequeue_prioq c \<noteq> None)"
| "thread_ok zuma hw c Worker_Sleep = (dequeue_prioq c \<noteq> None)"
| "thread_ok zuma hw c Worker_Idle = (worker_idle zuma c \<noteq> None)"
| "thread_ok zuma hw c (Worker_Job a) = (worker_prepare zuma a c \<noteq> None)"
| "thread_ok zuma hw c (Worker_Run a) = (\<forall>smc. worker_run zuma hw smc a c \<noteq> None)"
| "thread_ok zuma hw c (Worker_End a) = (kref_dec a c \<noteq> None)"
| "thread_ok zuma hw c (Worker_Closing a) = (bigo_close zuma a c \<noteq> None)"
| "thread_ok zuma hw c (Stopping a) = True"
| "thread_ok zuma hw c Done = True"

lemma upd_inst_some: "bo_insts c a = Some i \<Longrightarrow> upd_inst a f c = Some (c\<lparr>bo_insts := (bo_insts c)(a \<mapsto> f i)\<rparr>)"
  by (simp add: upd_inst_def)

lemma bo_insts_dma [simp]: "bo_insts (dma_ref d k c) = bo_insts c" "bo_insts (dma_attachment d k c) = bo_insts c"
  by (simp_all add: dma_ref_def dma_attachment_def)

lemma map_some: "bo_insts c a = Some i \<Longrightarrow> \<exists>r. bigo_map env a m c = Some r"
  by (auto simp: bigo_map_def check_mapped_list_def add_to_mapped_list_def upd_inst_some Let_def split: option.split sum.split)

lemma unmap_some: "bo_insts c a = Some i \<Longrightarrow> \<exists>r. bigo_unmap a m c = Some r"
  by (auto simp: bigo_unmap_def upd_inst_some split: option.split)

lemma command_some:
  assumes "bo_insts c a = Some i" "\<not> is_process cmd"
  shows "bigo_command zuma env w a cmd c \<noteq> None"
proof (cases cmd)
  case (BIGO_IOCX_MAP m b)
  then show ?thesis using map_some [OF assms(1), of env] by (cases m) (auto simp: bigo_command_def split: bind_splits)
next
  case (BIGO_IOCX_UNMAP m)
  then show ?thesis using unmap_some [OF assms(1)] by (cases m) (auto simp: bigo_command_def split: bind_splits)
next
  case (BIGO_IOCX_CONFIG_FRMSIZE z)
  then show ?thesis using assms(1) by (cases z) (auto simp: bigo_command_def bigo_config_frmsize_def upd_inst_some)
next
  case (BIGO_IOCX_MISC m b)
  then show ?thesis using assms(1) by (cases m) (auto simp: bigo_command_def bigo_config_afbc_def upd_inst_some)
next
  case (BIGO_IOCX_DMA_SYNC x)
  then show ?thesis by (cases x) (auto simp: bigo_command_def)
qed (use assms in \<open>auto simp: bigo_command_def bigo_config_frmrate_def bigo_config_secure_def bigo_config_priority_def upd_inst_some\<close>)

lemma same_refs_tables: "same_refs c c' \<Longrightarrow> tables_ok c' = tables_ok c"
  by (simp add: same_refs_def tables_ok_def)

lemma same_refs_live:
  assumes "same_refs c c'" "insts_live c"
  shows "insts_live c'"
proof -
  have "bo_insts c' a \<noteq> None" if "bo_insts c a \<noteq> None" for a
  proof -
    have "rel_option inst_same (bo_insts c a) (bo_insts c' a)" using assms(1) by (simp add: same_refs_def)
    then show ?thesis using that by (cases "bo_insts c' a") auto
  qed
  then show ?thesis using assms by (simp add: insts_live_def same_refs_def)
qed

lemma set_idle_some: "\<forall>a \<in> set as. bo_insts c a \<noteq> None \<Longrightarrow> \<exists>c'. set_idle as c = Some c'"
proof (induction as arbitrary: c)
  case (Cons a as)
  then obtain i where i: "bo_insts c a = Some i" by auto
  show ?case using Cons.IH [of "c\<lparr>bo_insts := (bo_insts c)(a \<mapsto> i\<lparr>bi_idle := True\<rparr>)\<rparr>"] Cons.prems i by (auto simp: upd_inst_some [OF i])
qed simp

lemma worker_idle_some:
  assumes "tables_ok c" "insts_live c"
  shows "\<exists>c'. worker_idle zuma c = Some c'"
proof -
  obtain d where d: "set_idle (bo_instances c) c = Some d" using set_idle_some [OF assms(2) [unfolded insts_live_def]] by blast
  have "tables_ok (d\<lparr>bo_bts := bts_zero\<rparr>)" using same_refs_tables [OF set_idle_same [OF d]] assms(1) by (simp add: tables_ok_def)
  from target_freq_first [OF this, of 0] obtain f where "bigo_get_target_freq (d\<lparr>bo_bts := bts_zero\<rparr>) 0 = Some f" by auto
  then show ?thesis using d by (simp add: worker_idle_def mark_instances_idle_def bigo_clocks_off_def Let_def)
qed

lemma worker_prepare_some:
  assumes "tables_ok c" "insts_live c" "bo_insts c a = Some i"
  shows "\<exists>c'. worker_prepare zuma a c = Some c'"
proof -
  obtain d where d: "(if bi_idle i then map_option bigo_mark_qos_dirty (upd_inst a (\<lambda>i. i\<lparr>bi_idle := False\<rparr>) c) else Some c) = Some d"
    using assms(3) by (cases "bi_idle i") (auto simp: upd_inst_some)
  have "same_refs c d" using d by (auto split: if_splits elim!: upd_then_view)
  then obtain e where "bigo_update_qos zuma d = Some e" using update_qos_some same_refs_tables same_refs_live assms(1,2) by blast
  then show ?thesis using d assms(3) by (simp add: worker_prepare_def)
qed

section \<open>Every step keeps the invariant\<close>

lemma held_live:
  assumes "bigo_inv T F c" "t \<in># T" "held t = Some a"
  obtains i where "bo_insts c a = Some i" "0 < bi_refcount i" "4 \<le> length (bi_regs i)"
proof -
  obtain T' where T: "T = add_mset t T'" using assms(2) by (metis mset_add)
  have pos: "0 < refs T F c a" unfolding T by (rule refs_pos(1) [of t]) (rule assms(3))
  obtain i where "bo_insts c a = Some i" "bi_refcount i = refs T F c a" "inst_ok (bo_regs_size c div 4) i" using inv_live [OF assms(1) pos] .
  then show ?thesis using that pos invD(5) [OF assms(1)] by (simp add: inst_ok_def)
qed

lemma thread_ok_inv:
  assumes inv: "bigo_inv T F c" and hw: "hw_ok hw" and t: "t \<in># T"
  shows "thread_ok zuma hw c t"
proof -
  obtain T' where T: "T = add_mset t T'" using t by (metis mset_add)
  note live = held_live [OF inv t]
  have dec: "kref_dec a c \<noteq> None" if h: "held t = Some a" for a
  proof -
    obtain i where "bo_insts c a = Some i" "0 < bi_refcount i" using live [OF h] by blast
    then show ?thesis by (simp add: kref_dec_eq)
  qed
  have deq: "dequeue_prioq c \<noteq> None" using dequeue_effect [OF invD(1) [OF inv]] by auto
  show ?thesis
  proof (cases t)
    case (Ioctl a cmd)
    obtain i where "bo_insts c a = Some i" using live [of a] Ioctl by auto
    then have "\<not> is_process cmd \<Longrightarrow> bigo_command zuma env Some a cmd c \<noteq> None" for env using command_some by blast
    moreover have "process_submit zuma ur a c \<noteq> None" for ur using submit_ok [OF inv [unfolded T], of a zuma ur] Ioctl by auto
    ultimately show ?thesis using Ioctl by (cases cmd) (simp_all del: not_None_eq)
  next
    case (Waiting a)
    obtain i where "bo_insts c a = Some i" using live [of a] Waiting by auto
    then show ?thesis using Waiting by (auto simp: take_completion_def upd_inst_some)
  next
    case (Timed_Out a)
    then show ?thesis using timeout_ok [OF inv [unfolded T], of a "Ioctl_End a" zuma] by auto
  next
    case (Closing a)
    then show ?thesis using close_ok [OF inv [unfolded T], of a Done zuma] by auto
  next
    case (Worker_Closing a)
    then show ?thesis using close_ok [OF inv [unfolded T], of a Done zuma] by auto
  next
    case (Worker_Job a)
    obtain i where "bo_insts c a = Some i" using live [of a] Worker_Job by auto
    then show ?thesis using Worker_Job worker_prepare_some [OF invD(4) [OF inv] inv_insts_live [OF inv]] by auto
  next
    case (Worker_Run a)
    obtain i where "bo_insts c a = Some i" "4 \<le> length (bi_regs i)" using live [of a] Worker_Run by auto
    then show ?thesis using Worker_Run worker_run_ok [OF hw, of c a i zuma] by fastforce
  next
    case Worker_Idle
    then show ?thesis using worker_idle_some [OF invD(4) [OF inv] inv_insts_live [OF inv]] by auto
  qed (use dec deq in \<open>simp_all del: not_None_eq\<close>)
qed

lemma thread_step_inv:
  assumes "thread_step zuma hw l stop w t c t' c'" "bigo_inv (add_mset t T) F c" "hw_ok hw"
  shows "bigo_inv (add_mset t' T) F c'"
  using assms(1)
proof cases
  case (submit ur a rc)
  then show ?thesis using submit_ok [OF assms(2), of a zuma ur] by auto
next
  case (take_back a)
  then show ?thesis using timeout_ok [OF assms(2), of a "Ioctl_End a" zuma] by auto
next
  case (ioctl_end a last_ref)
  then show ?thesis using inv_dec [OF assms(2), of a last_ref c' t'] by auto
next
  case (release_end a last_ref)
  then show ?thesis using inv_dec [OF assms(2), of a last_ref c' t'] by auto
next
  case (worker_end a last_ref)
  then show ?thesis using inv_dec [OF assms(2), of a last_ref c' t'] by auto
next
  case (close a)
  then show ?thesis using close_ok [OF assms(2), of a Done zuma] by auto
next
  case (worker_close a)
  then show ?thesis using close_ok [OF assms(2), of a Worker_Wait zuma] by auto
next
  case (worker_take a)
  then show ?thesis using inv_dequeue [OF assms(2), of t' a c'] by auto
next
  case (worker_run smc a)
  obtain i where "bo_insts c a = Some i" "4 \<le> length (bi_regs i)" using held_live [OF assms(2), of t a] worker_run by auto
  then have "same_refs c c'" using worker_run_ok [OF assms(3), of c a i zuma smc] worker_run by auto
  then show ?thesis using inv_same [OF assms(2)] worker_run by simp
next
  case (stopped a)
  then show ?thesis using inv_same [OF assms(2) same_view_refs, of c' t'] by (simp add: same_view_def)
qed (use inv_same [OF assms(2), of c' t'] in
    \<open>auto dest: command_same take_completion_same worker_idle_same worker_prepare_same\<close>)

lemma open_view:
  assumes "bigo_open env c = (rc, c')" "rc \<noteq> 0"
  shows "same_view c c'"
  using assms by (auto simp: bigo_open_def on_first_instance_open_def bigo_pt_client_enable_def bigo_mark_qos_dirty_def same_view_def
      split: option.splits if_splits prod.splits)

lemma open_effect:
  assumes "bigo_open env c = (0, c')" "oe_inst env = Some a"
  shows "\<exists>d. same_view c d \<and> c' = d\<lparr>bo_insts := (bo_insts c)(a \<mapsto> new_inst c), bo_instances := bo_instances c @ [a]\<rparr>"
proof -
  obtain d where d: "(if bo_instances c = [] then on_first_instance_open env c else (0, c)) = (0, d)"
    "c' = bigo_mark_qos_dirty (d\<lparr>bo_insts := (bo_insts d)(a \<mapsto> new_inst d), bo_instances := bo_instances d @ [a]\<rparr>)"
    using assms by (auto simp: bigo_open_def split: if_splits prod.splits)
  have "same_view c d" using d(1)
    by (auto simp: on_first_instance_open_def bigo_pt_client_enable_def same_view_def split: if_splits prod.splits)
  moreover from this have "new_inst d = new_inst c" by (simp add: new_inst_def same_view_def)
  ultimately show ?thesis using d(2) by (intro exI [of _ "bigo_mark_qos_dirty d"]) (auto simp: bigo_mark_qos_dirty_def same_view_def)
qed

lemma inv_open:
  assumes inv: "bigo_inv T F c" and o: "bigo_open env c = (0, c')" "oe_inst env = Some a" and a: "bo_insts c a = None"
    and w: "T' = T \<or> T' = add_mset Worker_Wait T"
  shows "bigo_inv T' (insert a F) c'"
proof -
  obtain d where d: "same_view c d" "c' = d\<lparr>bo_insts := (bo_insts c)(a \<mapsto> new_inst c), bo_instances := bo_instances c @ [a]\<rparr>"
    using open_effect [OF o] by blast
  have z: "refs T F c a = 0" "closers T a = 0" using invD(6) [OF inv, of a] a by (auto simp: inst_inv_def)
  then have F: "a \<notin> F" by (simp add: refs_def split: if_splits)
  have v: "bo_queue c' = bo_queue c" "bo_bitmap c' = bo_bitmap c" "bo_regs_size c' = bo_regs_size c" "bo_opps c' = bo_opps c"
    "bo_bws c' = bo_bws c" "bo_max_load c' = bo_max_load c" "bo_instances c' = bo_instances c @ [a]" "bo_insts c' = (bo_insts c)(a \<mapsto> new_inst c)"
    using d by (simp_all add: same_view_def)
  have r: "refs T' (insert a F) c' b = refs T F c b + (if b = a then 1 else 0)" for b using w v(1) F by (auto simp: refs_def)
  have k: "closers T' b = closers T b" for b using w by (auto simp: closers_def)
  have "inst_inv T' (insert a F) c' a" using r [of a] k [of a] z v by (simp add: inst_inv_def new_inst_def inst_ok_def)
  then show ?thesis
    by (rule inv_change [OF inv, of a, rotated]) (use r k v F invD [OF inv] in \<open>simp_all add: prioq_ok_def\<close>)
qed

lemma bigo_inv_release:
  assumes inv: "bigo_inv T F c" and a: "a \<in> F" and t: "held t = Some a" "closing t = None"
  shows "bigo_inv (add_mset t T) (F - {a}) (c\<lparr>bo_instances := remove1 a (bo_instances c)\<rparr>)"
proof -
  let ?c = "c\<lparr>bo_instances := remove1 a (bo_instances c)\<rparr>"
  have r: "refs (add_mset t T) (F - {a}) ?c b = refs T F c b" for b using a t by (auto simp: refs_def)
  have k: "closers (add_mset t T) b = closers T b" for b using t by (simp add: closers_def)
  have "inst_inv (add_mset t T) (F - {a}) ?c a" using invD(6) [OF inv, of a] r k by (cases "bo_insts c a") (simp_all add: inst_inv_def)
  then show ?thesis
    by (rule inv_change [OF inv, of a, rotated]) (use r k invD [OF inv] in \<open>simp_all add: prioq_ok_def\<close>)
qed

lemma inv_done: "bigo_inv (add_mset Done T) F c = bigo_inv T F c"
proof -
  have eq: "refs (add_mset Done T) F c = refs T F c" "closers (add_mset Done T) = closers T" by (simp_all add: fun_eq_iff refs_def closers_def)
  show ?thesis unfolding bigo_inv_def inst_inv_def eq ..
qed

lemma step_inv:
  assumes "bigo_step zuma hw s s'" "hw_ok hw" "bigo_inv (sys_threads s) (sys_files s) (sys_core s)"
  shows "bigo_inv (sys_threads s') (sys_files s') (sys_core s')"
  using assms(1)
proof cases
  case (open_file env a core')
  then show ?thesis using inv_open [OF assms(3)] by simp
next
  case (open_failed env rc core')
  then have "same_refs (sys_core s) core'" using open_view same_view_refs by blast
  then show ?thesis using inv_same [of Done "sys_threads s" _ _ core' Done] assms(3) open_failed by (simp add: inv_done)
next
  case (ioctl a core' cmd)
  then show ?thesis using inv_get [OF assms(3) refs_pos(2)] by simp
next
  case (release a as)
  then show ?thesis using bigo_inv_release [OF assms(3)] by simp
next
  case (run_thread t T t' core')
  then show ?thesis using thread_step_inv [OF _ _ assms(2)] assms(3) by simp
qed

lemma start_inv: "bigo_start s \<Longrightarrow> bigo_inv (sys_threads s) (sys_files s) (sys_core s)"
  by (simp add: bigo_start_def bigo_inv_def inst_inv_def refs_def closers_def prioq_ok_def BO_MAX_PRIO_def less_2_cases_iff)

lemma reachable_inv: "bigo_reachable zuma hw s \<Longrightarrow> hw_ok hw \<Longrightarrow> bigo_inv (sys_threads s) (sys_files s) (sys_core s)"
  by (induction rule: bigo_reachable.induct) (auto intro: start_inv step_inv)

section \<open>Properties\<close>

lemma count_image_size: "count (image_mset f T) x = size {#t \<in># T. f t = x#}"
  by (induction T) auto

text \<open>
  C22: Under every interleaving of commands, timeouts, closing files and the worker, the reference count of an instance is
  the number of its references: its open file, the threads that hold it, and its place in the queue. An instance
  without references is being closed by exactly one thread, and a freed one is known to nobody: it is
  not open, not queued, and no thread holds or closes it.
\<close>

theorem bigo_refs_exact:
  assumes "bigo_reachable zuma hw s" "hw_ok hw"
  shows "case bo_insts (sys_core s) a of
      None \<Rightarrow> a \<notin> sys_files s \<and> a \<notin> set (concat (bo_queue (sys_core s))) \<and>
        (\<forall>t \<in># sys_threads s. held t \<noteq> Some a \<and> closing t \<noteq> Some a)
    | Some inst \<Rightarrow>
        bi_refcount inst = (if a \<in> sys_files s then 1 else 0) + size {#t \<in># sys_threads s. held t = Some a#} +
          count_list (concat (bo_queue (sys_core s))) a \<and>
        size {#t \<in># sys_threads s. closing t = Some a#} = (if bi_refcount inst = 0 then 1 else 0)"
proof -
  have inv: "inst_inv (sys_threads s) (sys_files s) (sys_core s) a" using reachable_inv [OF assms] by (simp add: bigo_inv_def)
  show ?thesis
  proof (cases "bo_insts (sys_core s) a")
    case None
    then have "a \<notin> sys_files s" "count_list (concat (bo_queue (sys_core s))) a = 0"
      "size {#t \<in># sys_threads s. held t = Some a#} = 0" "size {#t \<in># sys_threads s. closing t = Some a#} = 0"
      using inv by (simp_all add: inst_inv_def refs_def closers_def count_image_size split: if_splits)
    then show ?thesis using None by (auto simp: count_list_0_iff filter_mset_eq_conv dest: multi_member_split)
  next
    case (Some inst)
    then show ?thesis using inv by (simp add: inst_inv_def refs_def closers_def count_image_size)
  qed
qed

text \<open>
  C23: No thread of the driver faults. In every state that can be reached, with tables that serve the largest load,
  at least four registers and a chip that keeps their number, the next operation of each
  thread is defined: no freed instance is touched, no reference count drops below zero, the last reference
  never finds its job in the queue, and no register or table is read out of bounds.
\<close>

theorem bigo_threads_never_fault:
  assumes "bigo_reachable zuma hw s" "hw_ok hw" "t \<in># sys_threads s"
  shows "thread_ok zuma hw (sys_core s) t"
  using thread_ok_inv [OF reachable_inv [OF assms(1,2)] assms(2,3)] .

section \<open>A run of the driver\<close>

definition demo_start :: "unit bigo_sys" where
  "demo_start = \<lparr>sys_core = demo_core\<lparr>bo_insts := (\<lambda>a. None), bo_instances := [], bo_queue := [[], []], bo_bitmap := 0\<rparr>,
     sys_threads = {#}, sys_files = {}, sys_stop = False\<rparr>"

definition demo_open :: open_env where
  "demo_open = \<lparr>oe_inst = Some 0, oe_regs = True, oe_thread = 0, oe_pt = (0, 0), oe_pm = 0\<rparr>"

definition demo_opened :: "unit bigo_sys" where
  "demo_opened = demo_start\<lparr>sys_core := snd (bigo_open demo_open (sys_core demo_start)), sys_threads := {#Worker_Wait#}, sys_files := {0}\<rparr>"

lemma ffs_zero: "ffs 0 = 0"
proof -
  have "find (bit (0 :: u64)) [0..<32] = None" by (simp only: find_None_iff bit_0_eq) simp
  then show ?thesis by (simp only: ffs_def option.simps)
qed

lemma demo_opened_core: "bigo_open demo_open (sys_core demo_start) = (0, sys_core demo_opened)" "bo_instances (sys_core demo_opened) = [0]"
  "dequeue_prioq (sys_core demo_opened) = Some (None, sys_core demo_opened)" "\<exists>i. bo_insts (sys_core demo_opened) 0 = Some i \<and> bi_refcount i = 1"
  by (simp_all add: demo_opened_def demo_start_def demo_open_def demo_core_def bigo_open_def bigo_count_inst_def BIGO_MAX_INST_NUM_def
      on_first_instance_open_def bigo_pt_client_enable_def bigo_mark_qos_dirty_def new_inst_def dequeue_prioq_def ffs_zero)

lemma demo_opened_fields [simp]:
  "sys_threads demo_opened = {#Worker_Wait#}" "sys_files demo_opened = {0}" "sys_stop demo_opened = False"
  by (simp_all add: demo_opened_def demo_start_def)

lemma demo_reachable: "bigo_reachable zuma hw demo_opened"
proof -
  have "tables_ok (sys_core demo_start)" by (simp add: demo_start_def demo_core_def tables_ok_def)
  then have "bigo_reachable zuma hw demo_start" by (intro bigo_reachable.start) (simp add: bigo_start_def demo_start_def demo_core_def)
  moreover have "bigo_step zuma hw demo_start demo_opened"
    using bigo_step.open_file [of demo_start demo_open 0 "sys_core demo_opened" zuma hw] demo_opened_core(1)
    by (simp add: unlocked_def demo_start_def demo_opened_def demo_open_def)
  ultimately show ?thesis by (rule bigo_reachable.step)
qed

theorem bigo_refs_exact_witness:
  "\<exists>i. bo_insts (sys_core demo_opened) 0 = Some i \<and> bi_refcount i = 1 \<and> size {#t \<in># sys_threads demo_opened. closing t = Some 0#} = 0"
proof -
  have "hw_ok (\<lambda>h regs. (h, regs))" by (simp add: hw_ok_def)
  from bigo_refs_exact [OF demo_reachable this, of 0] show ?thesis using demo_opened_core(4) by auto
qed

theorem bigo_threads_never_fault_witness: "thread_ok True (\<lambda>h regs. (h, regs)) (sys_core demo_opened) Worker_Wait"
  by (rule bigo_threads_never_fault [OF demo_reachable]) (simp_all add: hw_ok_def demo_opened_def)

text \<open>
  Closing the last file can wait forever. \<open>bigo_release\<close> stops the worker and waits for its end while it holds the
  lock of the core; when the worker has just found nothing to do, it waits for that lock to mark the
  instances idle. The state is reachable from the start with any chip, and from it no thread can take a step, nor can a file
  be opened.
\<close>

theorem close_can_deadlock:
  "\<exists>s :: unit bigo_sys. bigo_reachable zuma hw s \<and> Stopping 0 \<in># sys_threads s \<and> Worker_Idle \<in># sys_threads s \<and> (\<forall>s'. \<not> bigo_step zuma hw s s')"
proof -
  let ?idle = "demo_opened\<lparr>sys_threads := {#Worker_Idle#}\<rparr>"
  let ?stuck = "?idle\<lparr>sys_core := (sys_core demo_opened)\<lparr>bo_instances := []\<rparr>, sys_files := {}, sys_threads := {#Stopping 0, Worker_Idle#}, sys_stop := True\<rparr>"
  have "thread_step zuma hw True False False Worker_Wait (sys_core demo_opened) Worker_Idle (sys_core demo_opened)"
    by (rule thread_step.worker_timeout) (simp_all add: demo_opened_core)
  then have "bigo_step zuma hw demo_opened ?idle"
    using bigo_step.run_thread [of demo_opened Worker_Wait "{#}" zuma hw Worker_Idle "sys_core demo_opened"]
    by (simp add: unlocked_def)
  then have idle: "bigo_reachable zuma hw ?idle" by (rule bigo_reachable.step [OF demo_reachable])
  have "bigo_step zuma hw ?idle ?stuck"
    using bigo_step.release [of ?idle 0 "[0]" zuma hw] by (simp add: unlocked_def demo_opened_core)
  then have reach: "bigo_reachable zuma hw ?stuck" by (rule bigo_reachable.step [OF idle])
  have locked: "\<not> unlocked ?stuck" by (simp add: unlocked_def)
  have "\<not> bigo_step zuma hw ?stuck s'" for s'
  proof
    assume "bigo_step zuma hw ?stuck s'"
    then obtain t T t' c' where t: "{#Stopping 0, Worker_Idle#} = add_mset t T"
      "thread_step zuma hw (unlocked ?stuck) True (\<exists>w \<in># T. is_worker w) t (sys_core ?stuck) t' c'"
      using locked by cases auto
    have "t = Stopping 0 \<and> T = {#Worker_Idle#} \<or> t = Worker_Idle" using t(1) by (auto simp: add_eq_conv_ex)
    then show False using t(2) locked by (auto elim: thread_step.cases)
  qed
  then show ?thesis using reach by (intro exI [of _ ?stuck]) simp
qed

end
