(* ===== verification/Spec2Isabelle.thy ===== *)
theory Spec2Isabelle
  imports Aoc_Ipc_Props Gvotable_Props Chg_Profile_Props Chg_Stats_Props Ttf_Props Ssoc_Props Gcip_Props
    Edgetpu_Ikv_Events Gbms_Storage_Dev_Props Bigo_System
begin

text \<open>
  Verification of the core libraries of the kernel modules under \<^verbatim>\<open>src/google-modules\<close>.

  \<^bold>\<open>The program.\<close> The repository holds the loadable modules of a phone: drivers for chips, and below
  them a few libraries with logic of their own, on which the drivers rely. This development models
  those libraries from the source and proves what makes them correct. These groups are covered:

  \<^item> the message transport between the application processor and the always-on core, rings and
    queues in shared memory (\<^verbatim>\<open>aoc_ipc/aoc_ipc_core.c\<close>);
  \<^item> the battery management: elections by which independent drivers agree on a limit
    (\<^verbatim>\<open>bms/misc/gvotable.c\<close>), charge profiles and charge statistics (\<^verbatim>\<open>bms/google_bms.c\<close>), the estimate
    of the time to full (\<^verbatim>\<open>bms/google_ttf.c\<close>) and the state of charge that the user sees (part of
    \<^verbatim>\<open>bms/google_battery.c\<close>). The time to full reads the profile and the tier statistics; the state of
    charge is limited by votes of elections;
  \<^item> the storage of battery parameters (\<^verbatim>\<open>bms/gbms_storage.c\<close>), where drivers register as providers of tagged
    values, and the provider that keeps them in the memory of the battery pack
    (\<^verbatim>\<open>bms/google_eeprom.c\<close>, \<^verbatim>\<open>google_eeprom_01.c\<close>, \<^verbatim>\<open>google_eeprom_02.c\<close>). Cycle counts, the history of the battery and the
    saved state of charge go through it;
  \<^item> the mailbox framework of the accelerators (\<^verbatim>\<open>gcip-mailbox.c\<close>, \<^verbatim>\<open>gcip-kci.c\<close> under
    \<^verbatim>\<open>edgetpu/rio/drivers/edgetpu/gcip-kernel-driver\<close>), a table of operators below which sits
  \<^item> the chip: the registers of the EdgeTPU's mailboxes and its control interface
    (\<^verbatim>\<open>edgetpu-mailbox.c\<close>, \<^verbatim>\<open>edgetpu-kci.c\<close>);
  \<^item> the in-kernel inference interface, a second client of the mailbox (\<^verbatim>\<open>edgetpu-ikv.c\<close>,
    \<^verbatim>\<open>edgetpu-ikv-mailbox-ops.c\<close>, \<^verbatim>\<open>edgetpu-ikv-additional-info.c\<close>, \<^verbatim>\<open>edgetpu-vii-packet.c\<close> and the
    part of \<^verbatim>\<open>edgetpu-device-group.c\<close> that sends commands and hands out responses): asynchronous
    commands of groups of clients, with credits, fences and threads that wait for fences;
  \<^item> the driver of the video codec (\<^verbatim>\<open>video/gchips\<close>): instances that user space opens, a queue of jobs by
    priority, a worker that runs them on the chip, buffers, and the choice of frequency and bandwidth.

  \<^bold>\<open>Theories.\<close>

  \<^item> \<open>Kernel_Prelude\<close>: C integers as words, or as integers with the wrap-around written out
    (\<open>swrap\<close>, \<open>uwrap\<close>), C's division, error numbers, arrays with checked bounds, byte memory,
    bounded strings. \<open>Channel_Interface\<close>: the locale \<open>fifo_channel\<close>, with in-order delivery over whole
    runs proved once; rings, queues and the ring of reverse commands interpret it.
  \<^item> \<open>Aoc_Ipc\<close> models every function of \<^verbatim>\<open>aoc_ipc_core.c\<close>: a service is its header record (two regions
    with free-running 32-bit counters) over an explicit memory of bytes; a read or write outside
    the region is the fault \<^const>\<open>None\<close>. \<open>Aoc_Ipc_Props\<close>: rings and queues refine FIFO lists, an overflowing
    ring keeps the newest bytes, a flush leaves the newest bytes, no transfer leaves its region,
    and the limits of the protocol.
  \<^item> \<open>Gvotable\<close>: the record of an election, its ballots, comparators, locks as flags (locking a
    mutex that is held is the fault \<^const>\<open>None\<close>, as it would never return), and every public operation.
    \<open>Gvotable_Votes\<close> has the order of ballots and the locale \<open>vote_comparator\<close>, interpreted on the four
    comparators of integers; \<open>Gvotable_Elections\<close> what a cast vote decides; \<open>Gvotable_Registry\<close> the
    list of elections. \<open>Gvotable_Props\<close>: the result of elections over any votes, read-back, callbacks,
    locks released on all paths, the registry, and the cases that go wrong.
  \<^item> \<open>Chg_Profile\<close> and \<open>Chg_Stats\<close> model \<^verbatim>\<open>google_bms.c\<close>: loading tables from the device tree,
    converting and looking them up, aging tables, the charger's state word, tier statistics and
    text forms. Their properties: a loaded profile is well formed, lookups stay in bounds and find the
    right tier, conversions and rounding are exact, the statistics account for all time.
  \<^item> \<open>Ttf\<close>: power ratio, estimate, learning; the estimate is a sum over the percents of charge and
    learning stays near the reference.
  \<^item> \<open>Ssoc\<close>: display curve, rate limiter, recharge logic, spoofing, start-up; the curve is
    monotone, the display respects the configured rates, and no reachable state of the driver
    faults or leaves the range 0 to 100.
  \<^item> \<open>Gbms_Storage\<close>: the registry of providers, the cache of tags, transfers, flush and going offline; the
    callbacks of a provider are fields of a record and act on the state of the devices. \<open>Gbms_Storage_Props\<close>:
    registry and cache stay well formed and nothing faults in any state that \<^const>\<open>gbms_step\<close> reaches; a transfer
    ends at the owner of the tag, cached or not; the locale \<open>storage_provider\<close> is the contract of
    \<^verbatim>\<open>gbms_storage.h\<close>, under which a written value is read back. \<open>Google_Eeprom\<close>: the layouts of the memory, its
    transfers, the history and the change of layout. \<open>Google_Eeprom_Props\<close> interprets the contract on the
    memory, for each of its three layouts, and shows that entries of the history are independent
    and that a change of layout keeps them. \<open>Gbms_Storage_Dev\<close> and \<open>Gbms_Storage_Dev_Props\<close>: the device that
    lists the history shows all of it; the search for the memory is given up after a fixed number of attempts;
    and what a request to go offline really does.
  \<^item> \<open>Circ_Queue\<close>: the index arithmetic of \<^verbatim>\<open>gcip-mailbox.h\<close>, equal to unbounded counters.
    \<open>Gcip_Mailbox\<close>: \<^verbatim>\<open>gcip-mailbox.c\<close> over a heap of response buffers, wrappers and awaiters at
    addresses; using a freed object, a NULL operator or a NULL list is the fault \<^const>\<open>None\<close>.
    \<open>Gcip_Kci\<close>: \<^verbatim>\<open>gcip-kci.c\<close>, which fills the operator table. \<open>Edgetpu_Mailbox\<close>, \<open>Edgetpu_Kci\<close>: the chip.
  \<^item> \<open>Gcip_Rx\<close> has the locale \<open>response_queue\<close>: fetching terminates while the firmware
    appends, and returns what is pending; \<open>Edgetpu_Kci_Props\<close> interprets it on the chip.
    \<open>Gcip_Waiters\<close> has the locale \<open>keyed_ops\<close> (responses matched by a key), \<open>Gcip_Rkci\<close> the ring of
    reverse commands, \<open>Kci_Send\<close> a synchronous command from end to end.
  \<^item> \<open>Gcip_Awaiters\<close> and \<open>Gcip_Race\<close>: asynchronous commands as a transition system
    \<^const>\<open>asys_step\<close>. Each handler is a thread, cut at the points where it takes the lock of the wait
    list or does an atomic operation; \<open>Gcip_Props\<close> shows that the steps compose to the functions of
    the code. The locale \<open>awaiter_ops\<close> extends \<open>keyed_ops\<close> by what the callbacks must leave alone; it
    is interpreted on the operators of the chip with arbitrary firmware. Shown: reference counts
    are exact, no use after free, one handler per command, and all threads finish.
  \<^item> \<open>Edgetpu_Ikv\<close>, \<open>Edgetpu_Ikv_Cmd\<close> and \<open>Edgetpu_Ikv_Group\<close> model the inference interface: packets,
    state, operators of the mailbox; sending and the waiting thread; delivery, cancellation, fatal
    errors, set-up. The state of the driver is the data of the mailbox; a response is at an address and
    linked in lists that are known by the addresses of their heads. \<open>Ikv_Additional_Info\<close>: the
    buffer that accompanies a command, and that following its offsets reads back what was written.
  \<^item> \<open>Ikv_Ledger\<close> has the invariant of the tables (responses, lists, groups, awaiters) and what single changes
    do to it, \<open>Ikv_Effects\<close> what each function changes in the tables, \<open>Ikv_System\<close> that sending and the
    thread keep the invariant. \<open>Edgetpu_Ikv_Props\<close> has the transition system \<^const>\<open>ikv_step\<close> of
    senders, threads, handlers, cancellation and clients, and shows in its reachable states that credits are
    conserved and the lists are truthful. \<open>Edgetpu_Ikv_Events\<close>: the first of arrival and timeout
    decides, a failed send leaves no trace, and three paths that go wrong.
  \<^item> \<open>Bigo\<close> and \<open>Bigo_Dev\<close> model the video codec: queue, load, registers, interrupt and job in the first; buffers,
    tables, opening, closing, commands and rounds of the worker in the second. \<open>Bigo_Props\<close>: jobs leave by
    priority, the load is exact, the frequency serves it, a buffer is mapped completely or not
    at all. \<open>Bigo_Race\<close> cuts the threads at locks, waits and dropped references, and shows that each kind of step
    keeps the references exact. \<open>Bigo_System\<close>: the invariant in every state that \<^const>\<open>bigo_step\<close>
    reaches, that no thread faults there, and a run in which closing the last file never returns.

  \<^bold>\<open>Errors and effects.\<close> An error code is a negative integer or \<^const>\<open>Inl\<close>; \<^const>\<open>None\<close> is a fault of the
  machine: access out of bounds or to freed memory, division by zero, a wait that never ends. State
  is passed explicitly. Theorems that an operation succeeds state that the result is not \<^const>\<open>None\<close>.

  \<^bold>\<open>Loops.\<close> Loops over arrays are structural or have a measure. The upward scans \<open>scan_up\<close> and the
  search of the display curve are total functions that return \<^const>\<open>None\<close> at the end of the array. The
  loop that fetches responses and the worker of reverse commands may run forever with bad firmware:
  they are partial functions, and termination is proved under the protocol (\<open>firmware_ok\<close>). The
  search for a tag in a provider is a partial function too, and ends for the memory of the battery pack.
  \<open>wait_event_timeout\<close> has the number of wake-ups before the timeout as an argument, and holds for
  every number. \<open>run_thread\<close> has fuel 4, the length of the longest handler.

  \<^bold>\<open>Parameters.\<close> Callbacks of elections, the hash of names, the device tree, the power supplies, the
  fuel gauge, time, the memory of the battery pack (its bytes, and which accesses fail), the memory allocator (a list of outcomes), the
  firmware (what it does to registers and queue whenever the driver reads them), the chip's own
  reverse commands and the rest of the system while a sender waits. For the inference interface, the
  record \<open>ikv_env\<close> holds what fences, threads, power management and the allocator of shared memory
  answer; what they are asked to do is the list \<open>ikv_actions\<close>. Hypotheses: the firmware changes registers
  and the queue of responses only (\<open>firmware_only\<close>), and an error that is reported is not zero
  (\<open>errors_nonzero\<close>). For the video codec, \<open>hw\<close> is what the chip does to its registers while the driver waits, with the
  hypothesis \<^const>\<open>hw_ok\<close> that it keeps their number; the records \<open>dma_env\<close>, \<open>open_env\<close> and \<open>user_regs\<close> hold what the kernel's
  buffers, threads, power management and user memory answer. That the tables serve the largest load (\<^const>\<open>tables_ok\<close>) is a
  hypothesis on the device tree.

  \<^bold>\<open>Concurrency.\<close> Except for \<^const>\<open>asys_step\<close>, \<^const>\<open>ikv_step\<close> and \<^const>\<open>bigo_step\<close> the operations are sequential. A step of
  \<^const>\<open>ikv_step\<close> is a whole handler, under the lock of the responses of its group: handlers act on commands that
  were enqueued, and the reference that the driver holds is dropped by the driver only, which is what
  \<^const>\<open>asys_step\<close> shows of the mailbox. In \<^const>\<open>asys_step\<close>, sending is one step,
  although the code starts the timeout before it enqueues the command; and the key of a new
  command differs from those of live ones, which numbers of 64 bits given by the driver ensure.
  Removing an awaiter from the wait list goes by this key and not by identity, so that commands with
  equal keys could remove each other; that is recorded among the findings. A step of \<^const>\<open>bigo_step\<close> is what a thread does
  under the lock of the core or of the queue, or between two such parts; the lock is held over several
  steps only while the last close waits for the worker.

  \<^bold>\<open>Not modelled.\<close> Register access of charger, gauge, display and audio chips, interrupt and power
  glue, character devices, text dumps for debugging, third-party drivers (GPU, WLAN, Bluetooth, touch
  panels) and device trees: they have little logic of their own. Of the EdgeTPU, the mailboxes that
  user space owns, the single commands of the control interface, the litebuf variant of the packets and the
  memory mappings of a group are left out; of the storage of parameters, its files for debugging and the
  creation of device nodes; of the video codec, probing, the character device, the dump after a crash and the
  notifiers of faults. The camera framework's transactions are a candidate for extension.
\<close>

end
